(* ===== verification/Prelude.thy ===== *)
theory Prelude
  imports Main
begin

text \<open>
  Shared vocabulary of the development: the theorem collections the component
  theories fill, the lemmas on lists that several components need, and two
  interfaces that several components provide.

  \<^item> \<open>keep_last\<close> is the Go idiom \<open>if len(xs) > n { xs = xs[len(xs)-n:] }\<close>, with which
    the code bounds every log it keeps (finished turn ids, signals, pending
    requests). The locale \<open>bounded_log\<close> states what such a log promises and how
    long an entry is retained.
  \<^item> The locale \<open>observing_machine\<close> is a component driven by one call per event
    that may answer with an output; \<open>run\<close> feeds it a list of events.
\<close>

named_theorems frame_simps \<open>fields an operation leaves unchanged\<close>
named_theorems wf_intros \<open>operations preserve the well-formedness of their component\<close>

subsection \<open>Keeping the newest entries\<close>

definition keep_last :: "nat \<Rightarrow> 'a list \<Rightarrow> 'a list" where
  "keep_last n xs = (if length xs > n then drop (length xs - n) xs else xs)"

lemma keep_last_eq_drop: "keep_last n xs = drop (length xs - n) xs"
  by (simp add: keep_last_def)

lemma length_keep_last [simp]: "length (keep_last n xs) = min n (length xs)"
  by (simp add: keep_last_def)

lemma keep_last_short [simp]: "length xs \<le> n \<Longrightarrow> keep_last n xs = xs"
  by (simp add: keep_last_def)

lemma set_keep_last: "set (keep_last n xs) \<subseteq> set xs"
  by (auto simp: keep_last_def dest: in_set_dropD)

lemma in_keep_lastD: "x \<in> set (keep_last n xs) \<Longrightarrow> x \<in> set xs"
  using set_keep_last by fastforce

lemma keep_last_append_ge: "n \<le> length ys \<Longrightarrow> keep_last n (xs @ ys) = keep_last n ys"
  by (simp add: keep_last_eq_drop)

lemma keep_last_append_lt:
  "length ys \<le> n \<Longrightarrow> keep_last n (xs @ ys) = keep_last (n - length ys) xs @ ys"
  by (simp add: keep_last_eq_drop)

lemma keep_last_twice: "keep_last n (keep_last n xs @ ys) = keep_last n (xs @ ys)"
proof (cases "n \<le> length ys")
  case True
  then show ?thesis by (simp add: keep_last_append_ge)
next
  case False
  then show ?thesis
    by (cases "n \<le> length xs") (simp_all add: keep_last_append_lt keep_last_eq_drop add.commute)
qed

lemma keep_last_newest: "0 < n \<Longrightarrow> x \<in> set (keep_last n (xs @ [x]))"
  by (simp add: keep_last_append_lt)

lemma keep_last_retains:
  "length ys < n \<Longrightarrow> x \<in> set (keep_last n (xs @ x # ys))"
proof -
  assume "length ys < n"
  then have "keep_last n (xs @ x # ys) = keep_last (n - Suc (length ys)) xs @ x # ys"
    using keep_last_append_lt [of "x # ys" n xs] by simp
  then show ?thesis by simp
qed

text \<open>
  A log that appends and keeps its newest \<open>bound\<close> entries. The laws are the
  abstract contract; the lemmas say what a client may rely on: the log never
  grows past its bound, and an entry survives every run of fewer than \<open>bound\<close>
  later entries.
\<close>

locale bounded_log =
  fixes push :: "'a \<Rightarrow> 'l \<Rightarrow> 'l"
    and items :: "'l \<Rightarrow> 'a list"
    and bound :: nat
  assumes items_push: "items (push x l) = keep_last bound (items l @ [x])"
begin

lemma length_push: "length (items (push x l)) \<le> bound"
  by (simp add: items_push)

lemma items_pushD: "y \<in> set (items (push x l)) \<Longrightarrow> y = x \<or> y \<in> set (items l)"
  by (auto simp: items_push dest!: in_keep_lastD)

lemma items_pushes:
  "xs \<noteq> [] \<Longrightarrow> items (fold push xs l) = keep_last bound (items l @ xs)"
proof (induction xs arbitrary: l)
  case Nil
  then show ?case by simp
next
  case (Cons x xs)
  then show ?case
    by (cases "xs = []") (simp_all add: items_push keep_last_twice)
qed

lemma retained: "length xs < bound \<Longrightarrow> x \<in> set (items (fold push xs (push x l)))"
  using items_pushes [of "x # xs" l] keep_last_retains [of xs bound x "items l"]
  by simp

end

subsection \<open>Machines that answer events\<close>

text \<open>
  \<open>run step s es\<close> feeds the events in order and collects the outputs. A machine
  whose step keeps an invariant on the events its environment may send keeps it
  over every run of such events.
\<close>

fun run :: "('s \<Rightarrow> 'e \<Rightarrow> 's \<times> 'o option) \<Rightarrow> 's \<Rightarrow> 'e list \<Rightarrow> 's \<times> 'o list" where
  "run step s [] = (s, [])"
| "run step s (e # es) =
     (let (s', out) = step s e; (s'', outs) = run step s' es
      in (s'', case out of None \<Rightarrow> outs | Some x \<Rightarrow> x # outs))"

lemma run_append:
  "run step s (es @ fs) =
     (let (s', xs) = run step s es; (s'', ys) = run step s' fs in (s'', xs @ ys))"
  by (induction es arbitrary: s) (auto simp: Let_def split: prod.splits option.splits)

locale observing_machine =
  fixes step :: "'s \<Rightarrow> 'e \<Rightarrow> 's \<times> 'o option"
    and invariant :: "'s \<Rightarrow> bool"
    and admissible :: "'e \<Rightarrow> bool"
  assumes step_invariant: "invariant s \<Longrightarrow> admissible e \<Longrightarrow> invariant (fst (step s e))"
begin

lemma run_invariant:
  "invariant s \<Longrightarrow> list_all admissible es \<Longrightarrow> invariant (fst (run step s es))"
proof (induction es arbitrary: s)
  case Nil
  then show ?case by simp
next
  case (Cons e es)
  have "invariant (fst (run step (fst (step s e)) es))"
    using Cons.prems by (simp add: Cons.IH step_invariant)
  then show ?case by (auto simp: Let_def split_def)
qed

end

subsection \<open>Lists\<close>

text \<open>\<open>remove1\<close> is the Go loop that deletes the first occurrence and breaks.\<close>

lemma distinct_remove1_set: "distinct xs \<Longrightarrow> set (remove1 x xs) = set xs - {x}"
  by simp

lemma find_rev_SomeD:
  "find P (rev xs) = Some x \<Longrightarrow> x \<in> set xs \<and> P x"
  by (metis find_Some_iff nth_mem set_rev)

lemma find_rev_NoneD: "find P (rev xs) = None \<Longrightarrow> \<forall>x \<in> set xs. \<not> P x"
  by (auto simp: find_None_iff)

text \<open>The newest element with a property, and what follows it lacks the property.\<close>

lemma find_rev_split:
  "find P (rev xs) = Some x \<longleftrightarrow> (\<exists>us vs. xs = us @ x # vs \<and> P x \<and> (\<forall>y \<in> set vs. \<not> P y))"
proof (induction xs rule: rev_induct)
  case Nil
  then show ?case by simp
next
  case (snoc a xs)
  show ?case
  proof (cases "P a")
    case True
    have "(\<exists>us vs. xs @ [a] = us @ x # vs \<and> P x \<and> (\<forall>y \<in> set vs. \<not> P y)) \<longleftrightarrow> a = x" (is "?L \<longleftrightarrow> _")
    proof
      assume ?L
      then obtain us vs where *: "xs @ [a] = us @ x # vs" "\<forall>y \<in> set vs. \<not> P y" by blast
      with True show "a = x" by (cases vs rule: rev_cases) auto
    next
      assume "a = x"
      with True show ?L by (intro exI [of _ xs] exI [of _ "[]"]) simp
    qed
    with True show ?thesis by simp
  next
    case False
    have "(\<exists>us vs. xs @ [a] = us @ x # vs \<and> P x \<and> (\<forall>y \<in> set vs. \<not> P y)) \<longleftrightarrow>
          (\<exists>us vs. xs = us @ x # vs \<and> P x \<and> (\<forall>y \<in> set vs. \<not> P y))" (is "?L \<longleftrightarrow> ?R")
    proof
      assume ?L
      then obtain us vs where *: "xs @ [a] = us @ x # vs" "P x" "\<forall>y \<in> set vs. \<not> P y" by blast
      with False have "vs \<noteq> []" by auto
      then obtain ws b where "vs = ws @ [b]" by (cases vs rule: rev_cases) auto
      with * show ?R by auto
    next
      assume ?R
      then obtain us vs where "xs = us @ x # vs" "P x" "\<forall>y \<in> set vs. \<not> P y" by blast
      with False show ?L by (intro exI [of _ us] exI [of _ "vs @ [a]"]) auto
    qed
    with False snoc show ?thesis by simp
  qed
qed

definition newest_with :: "('a \<Rightarrow> bool) \<Rightarrow> 'a list \<Rightarrow> 'a \<Rightarrow> bool" where
  "newest_with P xs x \<longleftrightarrow> (\<exists>us vs. xs = us @ x # vs \<and> P x \<and> (\<forall>y \<in> set vs. \<not> P y))"

lemma newest_with_iff: "newest_with P xs x \<longleftrightarrow> find P (rev xs) = Some x"
  by (simp only: newest_with_def find_rev_split)

lemma none_with_iff: "(\<forall>x \<in> set xs. \<not> P x) \<longleftrightarrow> find P (rev xs) = None"
  by (simp add: find_None_iff Ball_def)

text \<open>How many elements have a property, as an integer, and how an update changes it.\<close>

definition count_of :: "('a \<Rightarrow> bool) \<Rightarrow> 'a list \<Rightarrow> int" where
  "count_of P xs = int (length (filter P xs))"

lemma count_of_simps [simp]:
  "count_of P [] = 0"
  "count_of P (x # xs) = (if P x then 1 else 0) + count_of P xs"
  "count_of P (xs @ ys) = count_of P xs + count_of P ys"
  by (simp_all add: count_of_def)

lemma count_of_nonneg [simp]: "0 \<le> count_of P xs"
  by (simp add: count_of_def)

lemma count_of_update:
  "k < length xs \<Longrightarrow>
   count_of P (xs[k := x]) = count_of P xs - (if P (xs ! k) then 1 else 0) + (if P x then 1 else 0)"
  by (induction xs arbitrary: k) (auto split: nat.split)

lemma count_of_zero_iff: "count_of P xs = 0 \<longleftrightarrow> (\<forall>x \<in> set xs. \<not> P x)"
  by (simp add: count_of_def filter_empty_conv)

end
