(* ===== verification/Go_Strings.thy ===== *)
theory Go_Strings
  imports Prelude
begin

text \<open>
  What the program uses of Go's \<open>strings\<close> and \<open>unicode/utf8\<close> packages, on byte
  strings: a Go string is a \<open>char list\<close> whose characters are its bytes, so
  \<open>length\<close> is \<open>len\<close>.

  \<^item> \<open>TrimSpace\<close> strips every white-space rune of \<open>unicode.IsSpace\<close>, by its UTF-8
    bytes.
  \<^item> \<open>ToLower\<close> is exact on ASCII and on the two runes outside it whose lower case
    is an ASCII letter (the Kelvin sign and the dotted capital I); it leaves every
    other rune as it is, so two names that differ only in the case of another
    non-ASCII letter are different here and equal in Go.
  \<^item> \<open>ToUpper\<close> likewise, with the two runes whose upper case is an ASCII letter (the
    long s and the dotless i).
  \<^item> \<open>fold_name\<close> is the case folding of \<open>strings.EqualFold\<close> and of
    \<open>encoding/json\<close>'s field lookup, with the two runes that fold to ASCII letters
    (the long s and the Kelvin sign).
\<close>

subsection \<open>Bytes\<close>

text \<open>\<open>utf8.RuneStart\<close>: the byte is not a continuation byte: its top bits are not \<open>10\<close>.\<close>

definition rune_start :: "char \<Rightarrow> bool" where
  "rune_start c \<longleftrightarrow> \<not> (digit7 c \<and> \<not> digit6 c)"

subsection \<open>White space\<close>

definition white_space :: "string list" where
  "white_space =
     [[CHR 0x09], [CHR 0x0A], [CHR 0x0B], [CHR 0x0C], [CHR 0x0D], [CHR 0x20],
      [CHR 0xC2, CHR 0x85], [CHR 0xC2, CHR 0xA0], [CHR 0xE1, CHR 0x9A, CHR 0x80],
      [CHR 0xE2, CHR 0x80, CHR 0x80], [CHR 0xE2, CHR 0x80, CHR 0x81],
      [CHR 0xE2, CHR 0x80, CHR 0x82], [CHR 0xE2, CHR 0x80, CHR 0x83],
      [CHR 0xE2, CHR 0x80, CHR 0x84], [CHR 0xE2, CHR 0x80, CHR 0x85],
      [CHR 0xE2, CHR 0x80, CHR 0x86], [CHR 0xE2, CHR 0x80, CHR 0x87],
      [CHR 0xE2, CHR 0x80, CHR 0x88], [CHR 0xE2, CHR 0x80, CHR 0x89],
      [CHR 0xE2, CHR 0x80, CHR 0x8A], [CHR 0xE2, CHR 0x80, CHR 0xA8],
      [CHR 0xE2, CHR 0x80, CHR 0xA9], [CHR 0xE2, CHR 0x80, CHR 0xAF],
      [CHR 0xE2, CHR 0x81, CHR 0x9F], [CHR 0xE3, CHR 0x80, CHR 0x80]]"

fun starts_with :: "string \<Rightarrow> string \<Rightarrow> bool" where
  "starts_with [] s = True"
| "starts_with (c # p) [] = False"
| "starts_with (c # p) (d # s) = (c = d \<and> starts_with p s)"

text \<open>Strip leading members of \<open>ws\<close> for as long as there is one.\<close>

fun strip_leading :: "string list \<Rightarrow> string \<Rightarrow> string" where
  "strip_leading ws [] = []"
| "strip_leading ws (c # s) =
     (case find (\<lambda>w. starts_with w (c # s)) ws of
        None \<Rightarrow> c # s
      | Some w \<Rightarrow> strip_leading ws (drop (length w - 1) s))"

definition TrimSpace :: "string \<Rightarrow> string" where
  "TrimSpace s =
     rev (strip_leading (map rev white_space) (rev (strip_leading white_space s)))"

lemma length_strip_leading: "length (strip_leading ws s) \<le> length s"
proof (induction ws s rule: strip_leading.induct)
  case (1 ws)
  then show ?case by simp
next
  case (2 ws c s)
  then show ?case by (force split: option.splits)
qed

lemma length_TrimSpace: "length (TrimSpace s) \<le> length s"
  unfolding TrimSpace_def
  by (metis le_trans length_rev length_strip_leading)

lemma TrimSpace_Nil [simp]: "TrimSpace [] = []"
  by (simp add: TrimSpace_def)

subsection \<open>Case\<close>

definition ascii_lower :: "char \<Rightarrow> char" where
  "ascii_lower c =
     (case map_of (zip ''ABCDEFGHIJKLMNOPQRSTUVWXYZ'' ''abcdefghijklmnopqrstuvwxyz'') c of
        Some d \<Rightarrow> d
      | None \<Rightarrow> c)"

fun ToLower :: "string \<Rightarrow> string" where
  "ToLower [] = []"
| "ToLower (c # s) =
     (if starts_with ([CHR 0xE2, CHR 0x84, CHR 0xAA]) (c # s) then CHR ''k'' # ToLower (drop 2 s)
      else if starts_with ([CHR 0xC4, CHR 0xB0]) (c # s) then CHR ''i'' # ToLower (drop 1 s)
      else ascii_lower c # ToLower s)"

definition ascii_upper :: "char \<Rightarrow> char" where
  "ascii_upper c =
     (case map_of (zip ''abcdefghijklmnopqrstuvwxyz'' ''ABCDEFGHIJKLMNOPQRSTUVWXYZ'') c of
        Some d \<Rightarrow> d
      | None \<Rightarrow> c)"

fun ToUpper :: "string \<Rightarrow> string" where
  "ToUpper [] = []"
| "ToUpper (c # s) =
     (if starts_with ([CHR 0xC5, CHR 0xBF]) (c # s) then CHR ''S'' # ToUpper (drop 1 s)
      else if starts_with ([CHR 0xC4, CHR 0xB1]) (c # s) then CHR ''I'' # ToUpper (drop 1 s)
      else ascii_upper c # ToUpper s)"

fun fold_name :: "string \<Rightarrow> string" where
  "fold_name [] = []"
| "fold_name (c # s) =
     (if starts_with ([CHR 0xE2, CHR 0x84, CHR 0xAA]) (c # s) then CHR ''k'' # fold_name (drop 2 s)
      else if starts_with ([CHR 0xC5, CHR 0xBF]) (c # s) then CHR ''s'' # fold_name (drop 1 s)
      else ascii_lower c # fold_name s)"

definition EqualFold :: "string \<Rightarrow> string \<Rightarrow> bool" where
  "EqualFold s t \<longleftrightarrow> fold_name s = fold_name t"

subsection \<open>Searching and joining\<close>

definition HasSuffix :: "string \<Rightarrow> string \<Rightarrow> bool" where
  "HasSuffix s suf \<longleftrightarrow> starts_with (rev suf) (rev s)"

fun Contains :: "string \<Rightarrow> string \<Rightarrow> bool" where
  "Contains [] sub = (sub = [])"
| "Contains (c # s) sub = (starts_with sub (c # s) \<or> Contains s sub)"

text \<open>\<open>strings.Trim(s, "c")\<close> for a one-byte cut set.\<close>

definition Trim_char :: "char \<Rightarrow> string \<Rightarrow> string" where
  "Trim_char c s = rev (dropWhile (\<lambda>d. d = c) (rev (dropWhile (\<lambda>d. d = c) s)))"

fun Join :: "string list \<Rightarrow> string \<Rightarrow> string" where
  "Join [] sep = []"
| "Join [s] sep = s"
| "Join (s # t # ss) sep = s @ sep @ Join (t # ss) sep"

text \<open>\<open>strings.Cut(s, "c")\<close> for a one-byte separator: before, after, found.\<close>

definition Cut_char :: "char \<Rightarrow> string \<Rightarrow> string \<times> string \<times> bool" where
  "Cut_char c s =
     (if c \<in> set s then (takeWhile (\<lambda>d. d \<noteq> c) s, tl (dropWhile (\<lambda>d. d \<noteq> c) s), True)
      else (s, [], False))"

lemma starts_with_iff: "starts_with p s \<longleftrightarrow> (\<exists>t. s = p @ t)"
  by (induction p s rule: starts_with.induct) auto

end
