(* ===== verification/Turn_Output.thy ===== *)
theory Turn_Output
  imports Go_Strings
begin

text \<open>
  The data model of package \<open>turnoutput\<close>: the record reported per completed turn
  (\<open>output.go\<close>), and the buffer of a turn in progress with its text blocks
  (\<open>reducer.go\<close>), tool calls, signals and pending requests (\<open>signals.go\<close>).

  The Go code shares text blocks by pointer between the list \<open>blocks\<close> and the index
  \<open>byID\<close>. The model keeps that: blocks live in the store \<open>heap\<close>, and \<open>blocks\<close> and
  \<open>byID\<close> hold their addresses. Sequence numbers and byte counts are Go \<open>int\<close>s that
  count events and bytes of one turn; they are unbounded integers here.
\<close>

subsection \<open>Output\<close>

datatype kind = KindFinal | KindQuestion | KindApproval | KindFailure | KindTerminal

datatype confidence = ConfidenceExact | ConfidenceHeuristic

record turn_output =
  SessionID :: string
  TurnID :: string
  Text :: string
  Kind :: kind
  StopReason :: string
  Runtime :: string
  Confidence :: confidence

subsection \<open>Text blocks\<close>

record block =
  bid :: string
  bfinal :: bool
  btext :: string

subsection \<open>Tool calls and signals\<close>

record outcome =
  isError :: bool
  oseq :: int

record facts =
  result :: outcome
  hasResult :: bool
  refused :: bool

definition no_facts :: facts where
  "no_facts = \<lparr>result = \<lparr>isError = False, oseq = 0\<rparr>, hasResult = False, refused = False\<rparr>"

record tool =
  tool_id :: string
  blocksAt :: nat
  tseq :: int
  question :: bool
  tfacts :: facts

record signal =
  skind :: kind
  stext :: string
  byTool :: bool
  toolID :: string
  toolCall :: bool
  sat :: nat
  sseq :: int

record pendingRequest =
  pids :: "string list"
  psig :: signal

subsection \<open>The buffer of one turn\<close>

record turn =
  turn_id :: string
  heap :: "nat \<Rightarrow> block"
  fresh :: nat
  blocks :: "nat list"
  byID :: "string \<rightharpoonup> nat"
  anonOpen :: bool
  usageStop :: string
  tbytes :: int
  seq :: int
  tools :: "tool list"
  early :: "string \<rightharpoonup> facts"
  earlyOrder :: "string list"
  signals :: "signal list"
  pending :: "pendingRequest list"

definition no_block :: block where
  "no_block = \<lparr>bid = [], bfinal = False, btext = []\<rparr>"

definition newTurn :: "string \<Rightarrow> turn" where
  "newTurn i = \<lparr>turn_id = i, heap = (\<lambda>_. no_block), fresh = 0, blocks = [],
     byID = Map.empty, anonOpen = False, usageStop = [], tbytes = 0, seq = 0, tools = [],
     early = Map.empty, earlyOrder = [], signals = [], pending = []\<rparr>"

text \<open>The blocks of a turn in order, read through the store.\<close>

definition blks :: "turn \<Rightarrow> block list" where
  "blks t = map (heap t) (blocks t)"

subsection \<open>Bounds\<close>

definition finishedMemory :: nat where "finishedMemory = 64"
definition maxOpenTurns :: nat where "maxOpenTurns = 64"
definition maxBlocks :: nat where "maxBlocks = 128"
definition maxTurnBytes :: int where "maxTurnBytes = 4 * 2 ^ 20"
definition maxBlockBytes :: int where "maxBlockBytes = 2 ^ 20"
definition maxPending :: nat where "maxPending = 64"
definition maxSignalBytes :: int where "maxSignalBytes = 8 * 2 ^ 10"
definition maxTools :: nat where "maxTools = 256"
definition maxSignals :: nat where "maxSignals = 64"
definition maxEarly :: nat where "maxEarly = 256"

lemmas bound_defs = finishedMemory_def maxOpenTurns_def maxBlocks_def maxTurnBytes_def
  maxBlockBytes_def maxPending_def maxSignalBytes_def maxTools_def maxSignals_def maxEarly_def

end
