(* ===== verification/Turn_Buffer.thy ===== *)
theory Turn_Buffer
  imports Turn_Output
begin

text \<open>
  The text side of a turn's buffer, \<open>turnoutput/reducer.go\<close>: deltas go into blocks
  (\<open>addDelta\<close>), the buffer is kept within its bounds by dropping the oldest blocks
  (\<open>trim_turn\<close>, with \<open>blocksShifted\<close> of \<open>signals.go\<close> keeping the positions of
  tool calls and signals right), and the turn's text is chosen from the blocks
  (\<open>pick\<close>).

  The lemmas: \<open>cutUTF8\<close> returns the longest admissible prefix; \<open>wf_text\<close> says how
  the store, the list, the index and the byte count agree, and every operation
  keeps it together with the bounds; \<open>pick\<close> is characterised by which block it takes.
\<close>

subsection \<open>Cutting at a rune boundary\<close>

fun cut_back :: "string \<Rightarrow> nat \<Rightarrow> nat" where
  "cut_back s 0 = 0"
| "cut_back s (Suc n) = (if \<not> rune_start (s ! Suc n) then cut_back s n else Suc n)"

definition cutUTF8 :: "string \<Rightarrow> int \<Rightarrow> string" where
  "cutUTF8 s n = (if n \<ge> int (length s) then s else take (cut_back s (nat (max n 0))) s)"

definition clip :: "string \<Rightarrow> string" where
  "clip text = cutUTF8 (TrimSpace text) maxSignalBytes"

lemma cut_back_le: "cut_back s n \<le> n"
  by (induction n) auto

lemma cut_back_start: "cut_back s n = 0 \<or> rune_start (s ! cut_back s n)"
  by (induction n) auto

lemma cut_back_max: "cut_back s n < m \<Longrightarrow> m \<le> n \<Longrightarrow> \<not> rune_start (s ! m)"
  by (induction n) (auto split: if_splits simp: le_Suc_eq)

lemma cutUTF8_length: "int (length (cutUTF8 s n)) \<le> max n 0"
  using cut_back_le [of s "nat (max n 0)"] by (auto simp: cutUTF8_def)

lemma cutUTF8_length_le: "length (cutUTF8 s n) \<le> length s"
  by (simp add: cutUTF8_def)

lemma cutUTF8_all [simp]: "int (length s) \<le> n \<Longrightarrow> cutUTF8 s n = s"
  by (simp add: cutUTF8_def)

lemma clip_length: "length (clip text) \<le> 8192"
  using cutUTF8_length [of "TrimSpace text" maxSignalBytes]
  by (simp add: clip_def maxSignalBytes_def)

subsection \<open>Positions after the oldest block is dropped\<close>

definition shift_signal :: "signal \<Rightarrow> signal" where
  "shift_signal sig = (if sat sig > 0 then sig\<lparr>sat := sat sig - 1\<rparr> else sig)"

definition shift_tool :: "tool \<Rightarrow> tool" where
  "shift_tool c = (if blocksAt c > 0 then c\<lparr>blocksAt := blocksAt c - 1\<rparr> else c)"

definition blocksShifted :: "turn \<Rightarrow> turn" where
  "blocksShifted t = t\<lparr>tools := map shift_tool (tools t),
     signals := map shift_signal (signals t),
     pending := map (\<lambda>p. p\<lparr>psig := shift_signal (psig p)\<rparr>) (pending t)\<rparr>"

subsection \<open>Dropping the oldest blocks\<close>

text \<open>The body of the loop; it runs only where there are at least two blocks.\<close>

definition drop_oldest :: "turn \<Rightarrow> turn" where
  "drop_oldest t =
     (let oldest = heap t (hd (blocks t));
          t1 = t\<lparr>tbytes := tbytes t - int (length (btext oldest)),
                 byID := (if bid oldest \<noteq> [] then (byID t)(bid oldest := None) else byID t),
                 blocks := tl (blocks t)\<rparr>
      in blocksShifted t1)"

definition over_bounds :: "turn \<Rightarrow> bool" where
  "over_bounds t \<longleftrightarrow> length (blocks t) > 1 \<and>
     (length (blocks t) > maxBlocks \<or> tbytes t > maxTurnBytes)"

lemma blocks_blocksShifted [simp, frame_simps]: "blocks (blocksShifted t) = blocks t"
  by (simp add: blocksShifted_def)

lemma blocks_drop_oldest [simp]: "blocks (drop_oldest t) = tl (blocks t)"
  by (simp add: drop_oldest_def Let_def)

function trim_turn :: "turn \<Rightarrow> turn" where
  "trim_turn t = (if over_bounds t then trim_turn (drop_oldest t) else t)"
  by pat_completeness auto
termination
  by (relation "measure (\<lambda>t. length (blocks t))") (auto simp: over_bounds_def)

declare trim_turn.simps [simp del]

subsection \<open>Adding a delta\<close>

text \<open>
  The block a delta goes to, with the turn after the block was found or made: the
  indexed one for a block id, the open anonymous one, or a new block.
\<close>

definition target_block :: "turn \<Rightarrow> string \<Rightarrow> turn \<times> nat" where
  "target_block t blockID =
     (if blockID \<noteq> [] then
        (case byID t blockID of
           Some p \<Rightarrow> (t\<lparr>anonOpen := False\<rparr>, p)
         | None \<Rightarrow>
             (let p = fresh t in
              (t\<lparr>heap := (heap t)(p := no_block\<lparr>bid := blockID\<rparr>), fresh := Suc p,
                 byID := (byID t)(blockID \<mapsto> p), blocks := blocks t @ [p],
                 anonOpen := False\<rparr>, p)))
      else if anonOpen t then (t, last (blocks t))
      else
        (let p = fresh t in
         (t\<lparr>heap := (heap t)(p := no_block), fresh := Suc p, blocks := blocks t @ [p],
            anonOpen := True\<rparr>, p)))"

definition write_block :: "turn \<Rightarrow> nat \<Rightarrow> string \<Rightarrow> bool \<Rightarrow> turn" where
  "write_block t p s final =
     (let b = heap t p;
          text' = cutUTF8 s (maxBlockBytes - int (length (btext b)));
          b' = b\<lparr>btext := btext b @ text', bfinal := bfinal b \<or> final\<rparr>
      in t\<lparr>heap := (heap t)(p := b'), tbytes := tbytes t + int (length text')\<rparr>)"

definition addDelta :: "turn \<Rightarrow> string \<Rightarrow> string \<Rightarrow> bool \<Rightarrow> turn" where
  "addDelta t text blockID final =
     (if text = [] then t
      else (let (t', p) = target_block t blockID in trim_turn (write_block t' p text final)))"

definition boundary :: "turn \<Rightarrow> turn" where
  "boundary t = t\<lparr>anonOpen := False\<rparr>"

subsection \<open>Choosing the text\<close>

definition block_says :: "block \<Rightarrow> string" where
  "block_says b = TrimSpace (btext b)"

definition pick_blocks :: "block list \<Rightarrow> string \<Rightarrow> string \<times> confidence" where
  "pick_blocks bs termText =
     (if TrimSpace termText \<noteq> [] then (TrimSpace termText, ConfidenceExact)
      else case find (\<lambda>b. bfinal b \<and> block_says b \<noteq> []) (rev bs) of
             Some b \<Rightarrow> (block_says b, ConfidenceExact)
           | None \<Rightarrow>
               (case find (\<lambda>b. block_says b \<noteq> []) (rev bs) of
                  Some b \<Rightarrow> (block_says b, ConfidenceHeuristic)
                | None \<Rightarrow> ([], ConfidenceHeuristic)))"

definition pick :: "turn \<Rightarrow> nat \<Rightarrow> string \<Rightarrow> string \<times> confidence" where
  "pick t from termText = pick_blocks (drop from (blks t)) termText"


subsection \<open>What trimming does\<close>

text \<open>
  Dropping \<open>k\<close> blocks at once: the position arithmetic of \<open>k\<close> rounds of
  \<open>blocksShifted\<close>, which stops at \<open>0\<close>.
\<close>

definition shift_signal_by :: "nat \<Rightarrow> signal \<Rightarrow> signal" where
  "shift_signal_by k sig = sig\<lparr>sat := sat sig - k\<rparr>"

definition shift_tool_by :: "nat \<Rightarrow> tool \<Rightarrow> tool" where
  "shift_tool_by k c = c\<lparr>blocksAt := blocksAt c - k\<rparr>"

definition shift_pending_by :: "nat \<Rightarrow> pendingRequest \<Rightarrow> pendingRequest" where
  "shift_pending_by k p = p\<lparr>psig := shift_signal_by k (psig p)\<rparr>"

lemma shift_by_0 [simp]:
  "shift_signal_by 0 sig = sig" "shift_tool_by 0 c = c" "shift_pending_by 0 p = p"
  by (simp_all add: shift_signal_by_def shift_tool_by_def shift_pending_by_def)

lemma shift_once:
  "shift_signal sig = shift_signal_by 1 sig" "shift_tool c = shift_tool_by 1 c"
  by (simp_all add: shift_signal_def shift_signal_by_def shift_tool_def shift_tool_by_def)

lemma shift_by_add:
  "shift_signal_by k (shift_signal_by j sig) = shift_signal_by (j + k) sig"
  "shift_tool_by k (shift_tool_by j c) = shift_tool_by (j + k) c"
  "shift_pending_by k (shift_pending_by j p) = shift_pending_by (j + k) p"
  by (simp_all add: shift_signal_by_def shift_tool_by_def shift_pending_by_def)

text \<open>The turn after \<open>k\<close> of its oldest blocks are gone, as far as readers can tell.\<close>

definition dropped :: "nat \<Rightarrow> turn \<Rightarrow> turn \<Rightarrow> bool" where
  "dropped k t t' \<longleftrightarrow>
     blocks t' = drop k (blocks t) \<and> heap t' = heap t \<and> fresh t' = fresh t \<and>
     turn_id t' = turn_id t \<and> anonOpen t' = anonOpen t \<and> usageStop t' = usageStop t \<and>
     seq t' = seq t \<and> early t' = early t \<and> earlyOrder t' = earlyOrder t \<and>
     tools t' = map (shift_tool_by k) (tools t) \<and>
     signals t' = map (shift_signal_by k) (signals t) \<and>
     pending t' = map (shift_pending_by k) (pending t)"

lemma dropped_0: "dropped 0 t t"
  by (simp add: dropped_def list.map_ident_strong)

lemma dropped_trans: "dropped j t t' \<Longrightarrow> dropped k t' t'' \<Longrightarrow> dropped (j + k) t t''"
  by (simp add: dropped_def shift_by_add o_def add.commute)

lemma dropped_drop_oldest: "dropped 1 t (drop_oldest t)"
  by (simp add: dropped_def drop_oldest_def Let_def blocksShifted_def drop_Suc shift_once
      shift_pending_by_def)

lemma trim_turn_dropped:
  "\<exists>k. dropped k t (trim_turn t) \<and> (k = 0 \<or> k < length (blocks t))"
proof (induction t rule: trim_turn.induct)
  case (1 t)
  show ?case
  proof (cases "over_bounds t")
    case True
    then obtain k where k: "dropped k (drop_oldest t) (trim_turn (drop_oldest t))"
      "k = 0 \<or> k < length (blocks t) - 1"
      using 1 by auto
    from True have "1 < length (blocks t)" by (simp add: over_bounds_def)
    with k(2) have "1 + k < length (blocks t)" by auto
    moreover have "dropped (1 + k) t (trim_turn t)"
      using dropped_trans [OF dropped_drop_oldest k(1)] True
      by (simp add: trim_turn.simps [of t])
    ultimately show ?thesis by blast
  next
    case False
    then show ?thesis using dropped_0 by (metis trim_turn.simps)
  qed
qed

lemma dropped_blks: "dropped k t t' \<Longrightarrow> blks t' = drop k (blks t)"
  by (simp add: dropped_def blks_def drop_map)

lemma trim_turn_within: "\<not> over_bounds (trim_turn t)"
  by (induction t rule: trim_turn.induct) (metis trim_turn.simps)

subsection \<open>The invariant of the text side\<close>

text \<open>
  \<open>wf_text\<close>: the blocks are distinct allocated addresses, the index maps exactly the
  non-empty ids of the listed blocks, the byte count is the sum of the block
  lengths, no block is longer than \<open>maxBlockBytes\<close>, and where an anonymous block
  is open it is the last one (so the read \<open>t.blocks[len(t.blocks)-1]\<close> is in range).
  \<open>bounded_text\<close>: the buffer is within its bounds.
\<close>

definition wf_text :: "turn \<Rightarrow> bool" where
  "wf_text t \<longleftrightarrow>
     distinct (blocks t) \<and> (\<forall>p \<in> set (blocks t). p < fresh t) \<and>
     (\<forall>i p. byID t i = Some p \<longleftrightarrow> p \<in> set (blocks t) \<and> bid (heap t p) = i \<and> i \<noteq> []) \<and>
     tbytes t = (\<Sum>p \<leftarrow> blocks t. int (length (btext (heap t p)))) \<and>
     (\<forall>p \<in> set (blocks t). int (length (btext (heap t p))) \<le> maxBlockBytes) \<and>
     (anonOpen t \<longrightarrow> blocks t \<noteq> [] \<and> bid (heap t (last (blocks t))) = [])"

definition bounded_text :: "turn \<Rightarrow> bool" where
  "bounded_text t \<longleftrightarrow> length (blocks t) \<le> maxBlocks \<and> tbytes t \<le> maxTurnBytes"

lemma wf_text_newTurn [wf_intros]: "wf_text (newTurn i)" "bounded_text (newTurn i)"
  by (simp_all add: wf_text_def bounded_text_def newTurn_def bound_defs)

lemma wf_text_boundary [wf_intros]: "wf_text t \<Longrightarrow> wf_text (boundary t)"
  by (simp add: wf_text_def boundary_def)

lemma wf_text_shifted: "wf_text (blocksShifted t) = wf_text t"
  by (simp add: wf_text_def blocksShifted_def)

lemma wf_text_drop_oldest:
  assumes "wf_text t" and "1 < length (blocks t)"
  shows "wf_text (drop_oldest t)"
proof -
  obtain p q ps where b: "blocks t = p # q # ps"
    using assms(2) by (metis Suc_le_length_iff less_eq_Suc_le numeral_nat(7))
  let ?u = "t\<lparr>tbytes := tbytes t - int (length (btext (heap t p))),
              byID := (if bid (heap t p) \<noteq> [] then (byID t)(bid (heap t p) := None) else byID t),
              blocks := q # ps\<rparr>"
  have "byID ?u i = Some r \<longleftrightarrow> r \<in> set (blocks ?u) \<and> bid (heap ?u r) = i \<and> i \<noteq> []" for i r
  proof -
    have key: "\<And>i r. byID t i = Some r \<longleftrightarrow> r \<in> set (p # q # ps) \<and> bid (heap t r) = i \<and> i \<noteq> []"
      using assms(1) b by (simp add: wf_text_def)
    have "p \<notin> set (q # ps)" using assms(1) b by (simp add: wf_text_def)
    then show ?thesis
      using key [of i r] key [of "bid (heap t p)" p] key [of "bid (heap t p)" r]
      by (cases "r = p") auto
  qed
  then have "wf_text ?u"
    using assms(1) b by (simp add: wf_text_def)
  then show ?thesis
    by (simp add: drop_oldest_def Let_def b wf_text_shifted)
qed

lemma wf_text_trim: "wf_text t \<Longrightarrow> wf_text (trim_turn t)"
proof (induction t rule: trim_turn.induct)
  case (1 t)
  show ?case
  proof (cases "over_bounds t")
    case True
    with 1 have "wf_text (trim_turn (drop_oldest t))"
      by (simp add: wf_text_drop_oldest over_bounds_def)
    with True show ?thesis by (simp add: trim_turn.simps [of t])
  next
    case False
    with 1 show ?thesis by (simp add: trim_turn.simps [of t])
  qed
qed

lemma wf_text_bounded_trim: "wf_text t \<Longrightarrow> bounded_text (trim_turn t)"
proof -
  assume "wf_text t"
  then have wf: "wf_text (trim_turn t)" by (rule wf_text_trim)
  have not_over: "\<not> over_bounds (trim_turn t)" by (rule trim_turn_within)
  show ?thesis
  proof (cases "blocks (trim_turn t)")
    case Nil
    with wf show ?thesis by (simp add: bounded_text_def wf_text_def bound_defs)
  next
    case (Cons p ps)
    show ?thesis
    proof (cases ps)
      case Nil
      with wf Cons show ?thesis
        by (auto simp: bounded_text_def wf_text_def bound_defs)
    next
      case (Cons q qs)
      with not_over \<open>blocks (trim_turn t) = p # ps\<close> show ?thesis
        by (auto simp: bounded_text_def over_bounds_def)
    qed
  qed
qed


text \<open>
  Allocating a block, finding or making the target block, and writing to a listed
  block keep \<open>wf_text\<close>.
\<close>

lemma wf_textD:
  assumes "wf_text t"
  shows "distinct (blocks t)" and "p \<in> set (blocks t) \<Longrightarrow> p < fresh t"
    and "byID t i = Some p \<longleftrightarrow> p \<in> set (blocks t) \<and> bid (heap t p) = i \<and> i \<noteq> []"
    and "tbytes t = (\<Sum>p \<leftarrow> blocks t. int (length (btext (heap t p))))"
    and "p \<in> set (blocks t) \<Longrightarrow> int (length (btext (heap t p))) \<le> maxBlockBytes"
    and "anonOpen t \<Longrightarrow> blocks t \<noteq> []"
    and "anonOpen t \<Longrightarrow> bid (heap t (last (blocks t))) = []"
  using assms by (simp_all add: wf_text_def)

lemma wf_text_alloc:
  assumes wf: "wf_text t" and empty: "btext b = []"
    and new: "bid b \<noteq> [] \<Longrightarrow> byID t (bid b) = None"
    and blocks': "blocks t' = blocks t @ [fresh t]" and heap': "heap t' = (heap t)(fresh t := b)"
    and fresh': "fresh t' = Suc (fresh t)" and bytes': "tbytes t' = tbytes t"
    and byID': "byID t' = (if bid b \<noteq> [] then (byID t)(bid b \<mapsto> fresh t) else byID t)"
    and anon': "anonOpen t' \<Longrightarrow> bid b = []"
  shows "wf_text t'"
proof -
  have notin: "fresh t \<notin> set (blocks t)" using wf_textD(2) [OF wf] by blast
  have old: "heap t' q = heap t q" if "q \<in> set (blocks t)" for q
    using that notin heap' by auto
  have "(\<Sum>q \<leftarrow> blocks t. int (length (btext (heap t' q)))) =
        (\<Sum>q \<leftarrow> blocks t. int (length (btext (heap t q))))"
    by (rule arg_cong [where f = sum_list], rule map_cong) (simp_all add: old)
  then have sum: "tbytes t' = (\<Sum>q \<leftarrow> blocks t'. int (length (btext (heap t' q))))"
    using wf_textD(4) [OF wf] by (simp add: bytes' blocks' heap' empty)
  have index: "byID t' i = Some q \<longleftrightarrow> q \<in> set (blocks t') \<and> bid (heap t' q) = i \<and> i \<noteq> []" for i q
  proof (cases "q = fresh t")
    case True
    with notin show ?thesis using wf_textD(3) [OF wf, of i q]
      by (auto simp: byID' heap' blocks')
  next
    case False
    then show ?thesis using wf_textD(3) [OF wf, of i q] new
      by (auto simp: byID' heap' blocks')
  qed
  show ?thesis
    unfolding wf_text_def
  proof (intro conjI)
    show "distinct (blocks t')" using wf_textD(1) [OF wf] notin by (simp add: blocks')
    show "\<forall>q \<in> set (blocks t'). q < fresh t'"
      using wf_textD(2) [OF wf] by (auto simp: blocks' fresh' less_Suc_eq)
    show "\<forall>q \<in> set (blocks t'). int (length (btext (heap t' q))) \<le> maxBlockBytes"
      using wf_textD(5) [OF wf] old by (auto simp: blocks' heap' empty maxBlockBytes_def)
    show "anonOpen t' \<longrightarrow> blocks t' \<noteq> [] \<and> bid (heap t' (last (blocks t'))) = []"
      using anon' by (simp add: blocks' heap')
  qed (use index sum in auto)
qed

lemma target_block_wf:
  assumes wf: "wf_text t" and target: "target_block t i = (t', p)"
  shows "wf_text t' \<and> p \<in> set (blocks t')"
proof (cases "i = []")
  case anonymous: True
  show ?thesis
  proof (cases "anonOpen t")
    case True
    with anonymous target have "t' = t" "p = last (blocks t)" by (auto simp: target_block_def)
    with True wf show ?thesis by (simp add: wf_textD(6))
  next
    case False
    with anonymous target have
      t': "t' = t\<lparr>heap := (heap t)(fresh t := no_block), fresh := Suc (fresh t),
                  blocks := blocks t @ [fresh t], anonOpen := True\<rparr>" and p: "p = fresh t"
      by (auto simp: target_block_def Let_def)
    have "wf_text t'"
      by (rule wf_text_alloc [OF wf, where b = no_block]) (simp_all add: t' no_block_def)
    with p show ?thesis by (simp add: t')
  qed
next
  case named: False
  show ?thesis
  proof (cases "byID t i")
    case (Some q)
    with named target have "t' = t\<lparr>anonOpen := False\<rparr>" "p = q" by (auto simp: target_block_def)
    with Some wf wf_textD(3) [OF wf, of i q] show ?thesis by (simp add: wf_text_def)
  next
    case None
    with named target have
      t': "t' = t\<lparr>heap := (heap t)(fresh t := no_block\<lparr>bid := i\<rparr>), fresh := Suc (fresh t),
                  byID := (byID t)(i \<mapsto> fresh t), blocks := blocks t @ [fresh t],
                  anonOpen := False\<rparr>" and p: "p = fresh t"
      by (auto simp: target_block_def Let_def)
    have "wf_text t'"
      by (rule wf_text_alloc [OF wf, where b = "no_block\<lparr>bid := i\<rparr>"])
         (simp_all add: t' no_block_def None named)
    with p show ?thesis by (simp add: t')
  qed
qed

lemma sum_list_update_one:
  assumes "distinct xs" and "p \<in> set xs" and "\<And>q. q \<noteq> p \<Longrightarrow> g q = f q"
  shows "(\<Sum>q \<leftarrow> xs. g q) = (\<Sum>q \<leftarrow> xs. f q) - f p + (g p :: int)"
  using assms(1,2)
proof (induction xs)
  case Nil
  then show ?case by simp
next
  case (Cons x xs)
  show ?case
  proof (cases "x = p")
    case True
    with Cons.prems have "(\<Sum>q \<leftarrow> xs. g q) = (\<Sum>q \<leftarrow> xs. f q)"
      by (intro arg_cong [where f = sum_list] map_cong) (auto intro: assms(3))
    with True show ?thesis by simp
  next
    case False
    with Cons assms(3) [of x] show ?thesis by simp
  qed
qed

lemma write_block_wf:
  assumes wf: "wf_text t" and p: "p \<in> set (blocks t)"
  shows "wf_text (write_block t p s final)"
proof -
  let ?t = "write_block t p s final"
  let ?cut = "cutUTF8 s (maxBlockBytes - int (length (btext (heap t p))))"
  have frame: "blocks ?t = blocks t" "fresh ?t = fresh t" "byID ?t = byID t"
    "anonOpen ?t = anonOpen t" "tbytes ?t = tbytes t + int (length ?cut)"
    by (simp_all add: write_block_def Let_def)
  have other: "heap ?t q = heap t q" if "q \<noteq> p" for q
    using that by (simp add: write_block_def Let_def)
  have self: "bid (heap ?t p) = bid (heap t p)" "btext (heap ?t p) = btext (heap t p) @ ?cut"
    by (simp_all add: write_block_def Let_def)
  have ids: "bid (heap ?t q) = bid (heap t q)" for q
    using other [of q] self by (cases "q = p") simp_all
  have "(\<Sum>q \<leftarrow> blocks t. int (length (btext (heap ?t q)))) =
        (\<Sum>q \<leftarrow> blocks t. int (length (btext (heap t q)))) + int (length ?cut)"
    by (subst sum_list_update_one [where f = "\<lambda>q. int (length (btext (heap t q)))" and p = p])
       (use wf_textD(1) [OF wf] p other self in auto)
  moreover have "int (length (btext (heap ?t q))) \<le> maxBlockBytes" if "q \<in> set (blocks t)" for q
    using wf_textD(5) [OF wf that] other [of q] self
      cutUTF8_length [of s "maxBlockBytes - int (length (btext (heap t p)))"]
    by (cases "q = p") auto
  ultimately show ?thesis
    using wf by (simp add: wf_text_def frame ids)
qed

lemma addDelta_cases:
  obtains "s = []" "addDelta t s i final = t"
  | t' p where "target_block t i = (t', p)"
      "addDelta t s i final = trim_turn (write_block t' p s final)"
  by (cases "s = []"; cases "target_block t i") (simp_all add: addDelta_def)

lemma addDelta_wf [wf_intros]:
  assumes "wf_text t"
  shows "wf_text (addDelta t s i final)"
proof (cases rule: addDelta_cases [of s t i final])
  case 1
  with assms show ?thesis by simp
next
  case (2 t' p)
  with target_block_wf [OF assms] show ?thesis by (simp add: wf_text_trim write_block_wf)
qed

lemma addDelta_bounded [wf_intros]:
  assumes "wf_text t" and "bounded_text t"
  shows "bounded_text (addDelta t s i final)"
proof (cases rule: addDelta_cases [of s t i final])
  case 1
  with assms show ?thesis by simp
next
  case (2 t' p)
  with target_block_wf [OF assms(1)] show ?thesis
    by (simp add: wf_text_bounded_trim write_block_wf)
qed

end
