(* ===== verification/Turn_Signals.thy ===== *)
theory Turn_Signals
  imports Turn_Buffer
begin

text \<open>
  The other half of a turn's buffer, \<open>turnoutput/signals.go\<close>: tool calls and what
  was learned about them (\<open>addTool\<close>, \<open>factsFor\<close>, \<open>toolResult\<close>), the signals that
  something needs the user (\<open>raiseQuestion\<close>, \<open>raiseApproval\<close>, \<open>request\<close>,
  \<open>resolve\<close>), and the decision whether the turn ended on one of them (\<open>place\<close>,
  \<open>ended_on\<close>, \<open>openSignal\<close>, \<open>signalText\<close>).

  \<open>factsFor\<close> returns a pointer in Go, into a tool call or into the holding place
  \<open>early\<close>; here it returns a \<open>facts_ref\<close> that \<open>read_facts\<close> and \<open>write_facts\<close>
  dereference.
\<close>

subsection \<open>Tool calls and their facts\<close>

definition forgetEarly :: "turn \<Rightarrow> string \<Rightarrow> turn" where
  "forgetEarly t i = t\<lparr>early := (early t)(i := None), earlyOrder := remove1 i (earlyOrder t)\<rparr>"

text \<open>The new call is the last one; its index is returned.\<close>

definition addTool :: "turn \<Rightarrow> string \<Rightarrow> bool \<Rightarrow> turn \<times> nat" where
  "addTool t i isQuestion =
     (let kept = (if length (tools t) \<ge> maxTools then tl (tools t) else tools t);
          t1 = t\<lparr>tools := kept, seq := seq t + 1\<rparr>;
          c = \<lparr>tool_id = i, blocksAt = length (blocks t1), tseq = seq t1,
               question = isQuestion, tfacts = no_facts\<rparr>;
          (t2, c2) = (case early t1 i of
              Some f \<Rightarrow> (if i \<noteq> [] then (forgetEarly t1 i, c\<lparr>tfacts := f\<rparr>) else (t1, c))
            | None \<Rightarrow> (t1, c))
      in (t2\<lparr>tools := tools t2 @ [c2]\<rparr>, length (tools t2)))"

definition toolIndex :: "turn \<Rightarrow> string \<Rightarrow> nat option" where
  "toolIndex t i =
     (if i = [] then None
      else find (\<lambda>k. tool_id (tools t ! k) = i) (rev [0..<length (tools t)]))"

datatype facts_ref = InTool nat | InEarly string

definition factsFor :: "turn \<Rightarrow> string \<Rightarrow> turn \<times> facts_ref" where
  "factsFor t i =
     (case toolIndex t i of
        Some k \<Rightarrow> (t, InTool k)
      | None \<Rightarrow>
          (case early t i of
             Some _ \<Rightarrow> (t, InEarly i)
           | None \<Rightarrow>
               (let t1 = (if length (earlyOrder t) \<ge> maxEarly
                          then forgetEarly t (hd (earlyOrder t)) else t)
                in (t1\<lparr>early := (early t1)(i \<mapsto> no_facts), earlyOrder := earlyOrder t1 @ [i]\<rparr>,
                    InEarly i))))"

fun read_facts :: "turn \<Rightarrow> facts_ref \<Rightarrow> facts" where
  "read_facts t (InTool k) = tfacts (tools t ! k)"
| "read_facts t (InEarly i) = (case early t i of Some f \<Rightarrow> f | None \<Rightarrow> no_facts)"

fun write_facts :: "turn \<Rightarrow> facts_ref \<Rightarrow> facts \<Rightarrow> turn" where
  "write_facts t (InTool k) f = t\<lparr>tools := (tools t)[k := (tools t ! k)\<lparr>tfacts := f\<rparr>]\<rparr>"
| "write_facts t (InEarly i) f = t\<lparr>early := (early t)(i \<mapsto> f)\<rparr>"

definition toolResult :: "turn \<Rightarrow> string \<Rightarrow> bool \<Rightarrow> turn" where
  "toolResult t i isErr =
     (if i = [] then t
      else
        (let (t1, ref) = factsFor t i; f = read_facts t1 ref
         in if hasResult f then t1
            else
              (let t2 = t1\<lparr>seq := seq t1 + 1\<rparr>
               in write_facts t2 ref
                    (f\<lparr>result := \<lparr>isError = isErr, oseq = seq t2\<rparr>, hasResult := True\<rparr>))))"

subsection \<open>Signals\<close>

definition addSignal :: "signal \<Rightarrow> turn \<Rightarrow> turn" where
  "addSignal sig t = t\<lparr>signals := keep_last maxSignals (signals t @ [sig])\<rparr>"

definition point_signal :: "turn \<Rightarrow> kind \<Rightarrow> string \<Rightarrow> signal" where
  "point_signal t k s = \<lparr>skind = k, stext = clip s, byTool = False, toolID = [],
     toolCall = False, sat = length (blocks t), sseq = seq t\<rparr>"

definition raiseQuestion :: "turn \<Rightarrow> string \<Rightarrow> nat \<Rightarrow> turn" where
  "raiseQuestion t s idx =
     (let sig = (point_signal t KindQuestion s)\<lparr>toolCall := True\<rparr>;
          sig' = (if idx < length (tools t)
                  then sig\<lparr>toolID := tool_id (tools t ! idx),
                           byTool := tool_id (tools t ! idx) \<noteq> []\<rparr>
                  else sig)
      in addSignal sig' t)"

definition raiseRequestedQuestion :: "turn \<Rightarrow> string \<Rightarrow> turn" where
  "raiseRequestedQuestion t s = addSignal (point_signal t KindQuestion s) t"

definition raiseApproval :: "turn \<Rightarrow> string \<Rightarrow> string \<Rightarrow> turn" where
  "raiseApproval t s toolUseID =
     (let t1 = (if toolUseID \<noteq> []
                then (let (t', ref) = factsFor t toolUseID
                      in write_facts t' ref ((read_facts t' ref)\<lparr>refused := True\<rparr>))
                else t)
      in addSignal \<lparr>skind = KindApproval, stext = clip s, byTool = True, toolID = toolUseID,
                    toolCall = False, sat = 0, sseq = 0\<rparr> t1)"

definition add_pending :: "pendingRequest \<Rightarrow> turn \<Rightarrow> turn" where
  "add_pending p t = t\<lparr>pending := keep_last maxPending (pending t @ [p])\<rparr>"

definition request :: "turn \<Rightarrow> string list \<Rightarrow> string \<Rightarrow> turn" where
  "request t ns s = add_pending \<lparr>pids = ns, psig = point_signal t KindApproval s\<rparr> t"

definition overlaps :: "string list \<Rightarrow> string list \<Rightarrow> bool" where
  "overlaps a b = list_ex (\<lambda>x. x \<noteq> [] \<and> list_ex (\<lambda>y. x = y) b) a"

definition pending_index :: "turn \<Rightarrow> string list \<Rightarrow> nat option" where
  "pending_index t ns =
     (case find (\<lambda>k. overlaps (pids (pending t ! k)) ns) [0..<length (pending t)] of
        Some k \<Rightarrow> Some k
      | None \<Rightarrow> if pending t \<noteq> [] then Some 0 else None)"

definition resolve :: "turn \<Rightarrow> string list \<Rightarrow> bool \<Rightarrow> string \<Rightarrow> turn" where
  "resolve t ns allowed s =
     (let (t1, sig) = (case pending_index t ns of
            Some k \<Rightarrow> (t\<lparr>pending := take k (pending t) @ drop (Suc k) (pending t)\<rparr>,
                       psig (pending t ! k))
          | None \<Rightarrow> (t, point_signal t KindApproval s))
      in if allowed then t1 else addSignal sig t1)"

subsection \<open>Whether the turn ended on a signal\<close>

definition place :: "turn \<Rightarrow> signal \<Rightarrow> nat \<times> int" where
  "place t sig =
     (if \<not> byTool sig then (sat sig, sseq sig)
      else if toolID sig = [] then
        (if tools t \<noteq> [] then (blocksAt (last (tools t)), tseq (last (tools t))) else (0, 0))
      else case toolIndex t (toolID sig) of
             None \<Rightarrow> (0, -1)
           | Some k \<Rightarrow>
               (let c = tools t ! k
                in (blocksAt c,
                    if hasResult (tfacts c) then oseq (result (tfacts c)) else tseq c)))"

definition answered :: "turn \<Rightarrow> signal \<Rightarrow> bool" where
  "answered t sig =
     (toolCall sig \<and> toolID sig \<noteq> [] \<and>
      (case toolIndex t (toolID sig) of
         None \<Rightarrow> False
       | Some k \<Rightarrow> hasResult (tfacts (tools t ! k)) \<and> \<not> isError (result (tfacts (tools t ! k)))))"

definition works :: "tool \<Rightarrow> bool" where
  "works c \<longleftrightarrow> \<not> question c \<and> \<not> refused (tfacts c)"

definition ended_on :: "turn \<Rightarrow> signal \<Rightarrow> bool" where
  "ended_on t sig =
     (if answered t sig then False
      else \<not> list_ex (\<lambda>c. tseq c > snd (place t sig) \<and> works c) (tools t))"

text \<open>The loop of \<open>openSignal\<close>: the last open question and the last open approval.\<close>

fun consider_signals :: "turn \<Rightarrow> signal list \<Rightarrow> signal option \<times> signal option \<Rightarrow>
    signal option \<times> signal option" where
  "consider_signals t [] (q, a) = (q, a)"
| "consider_signals t (sig # sigs) (q, a) =
     consider_signals t sigs
       (if \<not> ended_on t sig then (q, a)
        else if skind sig = KindQuestion then (Some sig, a) else (q, Some sig))"

definition openSignal :: "turn \<Rightarrow> signal option" where
  "openSignal t =
     (let (q, a) = consider_signals t (signals t @ map psig (pending t)) (None, None)
      in case q of Some s \<Rightarrow> Some s | None \<Rightarrow> a)"

definition hasTextAfter :: "turn \<Rightarrow> nat \<Rightarrow> bool" where
  "hasTextAfter t from = list_ex (\<lambda>b. block_says b \<noteq> []) (drop from (blks t))"

definition signalText :: "turn \<Rightarrow> signal \<Rightarrow> string \<Rightarrow> string \<times> confidence \<Rightarrow>
    string \<times> confidence" where
  "signalText t sig termText picked =
     (let at = fst (place t sig);
          described = (if stext sig \<noteq> [] then (stext sig, ConfidenceExact) else picked)
      in if hasTextAfter t at
         then (if fst (pick t at termText) \<noteq> [] then pick t at termText else described)
         else if TrimSpace termText \<noteq> [] \<and> blocks t = []
         then (TrimSpace termText, ConfidenceExact)
         else described)"


subsection \<open>Lookup of calls\<close>

lemma toolIndex_Nil [simp]: "toolIndex t [] = None"
  by (simp add: toolIndex_def)

lemma toolIndex_SomeD:
  assumes "toolIndex t i = Some k"
  shows "k < length (tools t)" and "tool_id (tools t ! k) = i" and "i \<noteq> []"
  using assms find_rev_SomeD [of "\<lambda>k. tool_id (tools t ! k) = i" "[0..<length (tools t)]" k]
  by (auto simp: toolIndex_def split: if_splits)

lemma toolIndex_None_iff:
  "toolIndex t i = None \<longleftrightarrow> i = [] \<or> i \<notin> tool_id ` set (tools t)"
proof -
  have "find (\<lambda>k. tool_id (tools t ! k) = i) (rev [0..<length (tools t)]) = None \<longleftrightarrow>
        (\<forall>k < length (tools t). tool_id (tools t ! k) \<noteq> i)"
    by (auto simp: find_None_iff)
  also have "\<dots> \<longleftrightarrow> i \<notin> tool_id ` set (tools t)"
    by (metis image_iff in_set_conv_nth)
  finally show ?thesis by (simp add: toolIndex_def)
qed

lemma toolIndex_cong:
  assumes "map tool_id (tools t') = map tool_id (tools t)"
  shows "toolIndex t' i = toolIndex t i"
proof -
  have len: "length (tools t') = length (tools t)"
    using assms by (metis length_map)
  have "tool_id (tools t' ! k) = tool_id (tools t ! k)" if "k < length (tools t)" for k
    using assms that len by (metis nth_map)
  then have "find (\<lambda>k. tool_id (tools t' ! k) = i) (rev [0..<length (tools t)]) =
             find (\<lambda>k. tool_id (tools t ! k) = i) (rev [0..<length (tools t)])"
    by (intro find_cong) auto
  with len show ?thesis by (simp add: toolIndex_def)
qed

lemma toolIndex_snoc:
  "i \<noteq> [] \<Longrightarrow> tools t = cs @ [c] \<Longrightarrow> tool_id c = i \<Longrightarrow> toolIndex t i = Some (length cs)"
  by (simp add: toolIndex_def)

subsection \<open>The invariant of the signal side\<close>

text \<open>
  \<open>wf_signals\<close>: every list is within its bound; the holding place \<open>early\<close> and its
  order agree and hold no call the turn has (each call's facts are kept in exactly
  one place); positions point into the list of blocks; sequence numbers do not run
  ahead of the turn's.
\<close>

definition sig_in_range :: "turn \<Rightarrow> signal \<Rightarrow> bool" where
  "sig_in_range t sig \<longleftrightarrow>
     sat sig \<le> length (blocks t) \<and> sseq sig \<le> seq t \<and> length (stext sig) \<le> 8192"

definition tool_in_range :: "turn \<Rightarrow> tool \<Rightarrow> bool" where
  "tool_in_range t c \<longleftrightarrow>
     blocksAt c \<le> length (blocks t) \<and> 0 < tseq c \<and> tseq c \<le> seq t \<and>
     oseq (result (tfacts c)) \<le> seq t"

definition wf_signals :: "turn \<Rightarrow> bool" where
  "wf_signals t \<longleftrightarrow>
     0 \<le> seq t \<and>
     length (tools t) \<le> maxTools \<and> length (signals t) \<le> maxSignals \<and>
     length (pending t) \<le> maxPending \<and> length (earlyOrder t) \<le> maxEarly \<and>
     distinct (earlyOrder t) \<and> set (earlyOrder t) = dom (early t) \<and> [] \<notin> dom (early t) \<and>
     tool_id ` set (tools t) \<inter> dom (early t) = {} \<and>
     (\<forall>i f. early t i = Some f \<longrightarrow> oseq (result f) \<le> seq t) \<and>
     list_all (tool_in_range t) (tools t) \<and>
     list_all (sig_in_range t) (signals t) \<and>
     list_all (\<lambda>p. sig_in_range t (psig p)) (pending t)"

lemma wf_signalsD:
  assumes "wf_signals t"
  shows "0 \<le> seq t" "length (tools t) \<le> maxTools" "length (signals t) \<le> maxSignals"
    "length (pending t) \<le> maxPending" "length (earlyOrder t) \<le> maxEarly"
    "distinct (earlyOrder t)" "set (earlyOrder t) = dom (early t)" "early t [] = None"
    "tool_id ` set (tools t) \<inter> dom (early t) = {}"
    "c \<in> set (tools t) \<Longrightarrow> tool_in_range t c"
    "sig \<in> set (signals t) \<Longrightarrow> sig_in_range t sig"
    "p \<in> set (pending t) \<Longrightarrow> sig_in_range t (psig p)"
    "early t i = Some f \<Longrightarrow> oseq (result f) \<le> seq t"
  using assms by (auto simp: wf_signals_def list_all_iff)

lemma wf_signals_newTurn [wf_intros]: "wf_signals (newTurn i)"
  by (simp add: wf_signals_def newTurn_def)

lemma wf_signals_cong:
  assumes "wf_signals t" and "tools t' = tools t" and "signals t' = signals t"
    and "pending t' = pending t" and "early t' = early t" and "earlyOrder t' = earlyOrder t"
    and "seq t' = seq t" and "length (blocks t) \<le> length (blocks t')"
  shows "wf_signals t'"
  using assms unfolding wf_signals_def list_all_iff
  by (auto simp: tool_in_range_def sig_in_range_def intro: le_trans)

lemma wf_signals_dropped:
  assumes "wf_signals t" and "dropped k t t'"
  shows "wf_signals t'"
  using assms unfolding wf_signals_def dropped_def list_all_iff
  by (auto simp: tool_in_range_def sig_in_range_def shift_tool_by_def shift_signal_by_def
      shift_pending_by_def image_iff)

lemma target_block_frame:
  assumes "target_block t i = (t', p)"
  shows "tools t' = tools t" "signals t' = signals t" "pending t' = pending t"
    "early t' = early t" "earlyOrder t' = earlyOrder t" "seq t' = seq t"
    "turn_id t' = turn_id t" "usageStop t' = usageStop t"
    "length (blocks t) \<le> length (blocks t')"
  using assms by (auto simp: target_block_def Let_def split: if_splits option.splits)

lemma write_block_frame [simp, frame_simps]:
  "tools (write_block t p s final) = tools t" "signals (write_block t p s final) = signals t"
  "pending (write_block t p s final) = pending t" "early (write_block t p s final) = early t"
  "earlyOrder (write_block t p s final) = earlyOrder t" "seq (write_block t p s final) = seq t"
  "turn_id (write_block t p s final) = turn_id t"
  "usageStop (write_block t p s final) = usageStop t"
  "blocks (write_block t p s final) = blocks t"
  by (simp_all add: write_block_def Let_def)

lemma addDelta_signals [wf_intros]:
  assumes "wf_signals t"
  shows "wf_signals (addDelta t s i final)"
proof (cases rule: addDelta_cases [of s t i final])
  case 1
  with assms show ?thesis by simp
next
  case (2 t' p)
  have "wf_signals (write_block t' p s final)"
    using target_block_frame [OF 2(1)] by (intro wf_signals_cong [OF assms]) simp_all
  moreover obtain k where "dropped k (write_block t' p s final) (addDelta t s i final)"
    using trim_turn_dropped 2(2) by metis
  ultimately show ?thesis by (rule wf_signals_dropped)
qed

lemma boundary_signals [wf_intros]: "wf_signals t \<Longrightarrow> wf_signals (boundary t)"
  by (erule wf_signals_cong) (simp_all add: boundary_def)

subsection \<open>The operations keep the invariants\<close>

text \<open>What the signal side never touches: the text of the turn and its identity.\<close>

definition text_part :: "turn \<Rightarrow> (nat \<Rightarrow> block) \<times> nat \<times> nat list \<times> (string \<rightharpoonup> nat) \<times> bool \<times> int \<times> string \<times> string" where
  "text_part t = (heap t, fresh t, blocks t, byID t, anonOpen t, tbytes t, turn_id t, usageStop t)"

lemma text_partD:
  assumes "text_part t' = text_part t"
  shows "blocks t' = blocks t" "blks t' = blks t" "turn_id t' = turn_id t"
    "usageStop t' = usageStop t" "wf_text t' = wf_text t" "bounded_text t' = bounded_text t"
  using assms by (auto simp: text_part_def blks_def wf_text_def bounded_text_def)

lemma text_part_forgetEarly [frame_simps]: "text_part (forgetEarly t i) = text_part t"
  by (simp add: text_part_def forgetEarly_def)

lemma text_part_addTool [frame_simps]: "text_part (fst (addTool t i q)) = text_part t"
  by (simp add: addTool_def Let_def text_part_def forgetEarly_def split: option.splits)

lemma text_part_factsFor [frame_simps]: "text_part (fst (factsFor t i)) = text_part t"
  by (simp add: factsFor_def Let_def text_part_def forgetEarly_def split: option.splits)

lemma text_part_write_facts [frame_simps]: "text_part (write_facts t ref f) = text_part t"
  by (cases ref) (simp_all add: text_part_def)

lemma text_part_seq [frame_simps]: "text_part (t\<lparr>seq := n\<rparr>) = text_part t"
  by (simp add: text_part_def)

lemma text_part_addSignal [frame_simps]: "text_part (addSignal sig t) = text_part t"
  by (simp add: text_part_def addSignal_def)

lemma text_part_toolResult [frame_simps]: "text_part (toolResult t i e) = text_part t"
  using text_part_factsFor [of t i]
  by (cases "factsFor t i") (simp add: toolResult_def Let_def frame_simps)

lemma text_part_raise [frame_simps]:
  "text_part (raiseQuestion t s k) = text_part t"
  "text_part (raiseRequestedQuestion t s) = text_part t"
  "text_part (raiseApproval t s i) = text_part t"
  using text_part_factsFor [of t i]
  by (cases "factsFor t i";
      simp add: raiseQuestion_def raiseRequestedQuestion_def raiseApproval_def Let_def
        frame_simps)+

lemma text_part_request [frame_simps]: "text_part (request t ns s) = text_part t"
  by (simp add: text_part_def request_def add_pending_def)

lemma text_part_resolve [frame_simps]: "text_part (resolve t ns allowed s) = text_part t"
proof -
  have "text_part (t\<lparr>pending := ps\<rparr>) = text_part t" for ps by (simp add: text_part_def)
  then show ?thesis by (simp add: resolve_def Let_def frame_simps split: option.split)
qed

text \<open>The three logs of a turn, as instances of the bounded log.\<close>

interpretation signal_log: bounded_log addSignal signals maxSignals
  by unfold_locales (simp add: addSignal_def)

interpretation pending_log: bounded_log add_pending pending maxPending
  by unfold_locales (simp add: add_pending_def)

lemma sig_in_range_point: "0 \<le> seq t \<Longrightarrow> sig_in_range t (point_signal t k s)"
  by (simp add: sig_in_range_def point_signal_def clip_length)

lemma sig_in_range_cong:
  "blocks t' = blocks t \<Longrightarrow> seq t \<le> seq t' \<Longrightarrow> sig_in_range t sig \<Longrightarrow> sig_in_range t' sig"
  by (simp add: sig_in_range_def)

lemma addSignal_wf [wf_intros]:
  assumes "wf_signals t" and "sig_in_range t sig"
  shows "wf_signals (addSignal sig t)"
proof -
  have "list_all (sig_in_range t) (signals (addSignal sig t))"
    using assms wf_signalsD(11) [OF assms(1)] by (auto simp: list_all_iff dest!: signal_log.items_pushD)
  moreover have "tool_in_range (addSignal sig t) = tool_in_range t"
    "sig_in_range (addSignal sig t) = sig_in_range t"
    by (simp_all add: fun_eq_iff tool_in_range_def sig_in_range_def addSignal_def)
  ultimately show ?thesis
    using assms(1) signal_log.length_push [of sig t]
    by (simp add: wf_signals_def addSignal_def)
qed

lemma request_wf [wf_intros]:
  assumes "wf_signals t"
  shows "wf_signals (request t ns s)"
proof -
  let ?p = "\<lparr>pids = ns, psig = point_signal t KindApproval s\<rparr>"
  have "list_all (\<lambda>p. sig_in_range t (psig p)) (pending (add_pending ?p t))"
    using wf_signalsD(12) [OF assms] sig_in_range_point [OF wf_signalsD(1) [OF assms]]
    by (auto simp: list_all_iff dest!: pending_log.items_pushD)
  moreover have "tool_in_range (add_pending ?p t) = tool_in_range t"
    "sig_in_range (add_pending ?p t) = sig_in_range t"
    by (simp_all add: fun_eq_iff tool_in_range_def sig_in_range_def add_pending_def)
  ultimately show ?thesis
    using assms pending_log.length_push [of ?p t]
    by (simp add: wf_signals_def request_def add_pending_def)
qed

lemma forgetEarly_wf [wf_intros]:
  assumes "wf_signals t"
  shows "wf_signals (forgetEarly t i)"
proof -
  have "length (remove1 i (earlyOrder t)) \<le> length (earlyOrder t)"
    by (simp add: length_remove1)
  then show ?thesis
    using assms unfolding wf_signals_def list_all_iff
    by (auto simp: forgetEarly_def tool_in_range_def sig_in_range_def)
qed

lemma raise_wf [wf_intros]:
  assumes "wf_signals t"
  shows "wf_signals (raiseQuestion t s k)" "wf_signals (raiseRequestedQuestion t s)"
proof -
  have "sig_in_range t (point_signal t q s)" for q
    using assms by (simp add: wf_signals_def sig_in_range_point)
  then show "wf_signals (raiseQuestion t s k)" "wf_signals (raiseRequestedQuestion t s)"
    using assms
    by (auto simp: raiseQuestion_def raiseRequestedQuestion_def Let_def sig_in_range_def
        intro!: addSignal_wf)
qed

lemma resolve_wf [wf_intros]:
  assumes "wf_signals t"
  shows "wf_signals (resolve t ns allowed s)"
proof (cases "pending_index t ns")
  case None
  with assms wf_signalsD(1) [OF assms] show ?thesis
    by (simp add: resolve_def sig_in_range_point addSignal_wf)
next
  case (Some k)
  let ?t = "t\<lparr>pending := take k (pending t) @ drop (Suc k) (pending t)\<rparr>"
  have k: "k < length (pending t)"
    using Some by (auto simp: pending_index_def find_Some_iff split: option.splits if_splits)
  have "set (pending ?t) \<subseteq> set (pending t)"
    by (auto dest: in_set_takeD in_set_dropD)
  then have "wf_signals ?t"
    using assms unfolding wf_signals_def list_all_iff
    by (auto simp: tool_in_range_def sig_in_range_def)
  moreover have "sig_in_range ?t (psig (pending t ! k))"
    using assms k by (simp add: wf_signals_def list_all_iff sig_in_range_def)
  ultimately show ?thesis
    using Some by (simp add: resolve_def addSignal_wf)
qed

text \<open>
  What \<open>addTool\<close> does to a well-formed turn, as one update: the oldest call goes
  where the turn is full, and the new one claims what was learned early about it.
\<close>

definition kept_tools :: "turn \<Rightarrow> tool list" where
  "kept_tools t = (if length (tools t) \<ge> maxTools then tl (tools t) else tools t)"

definition new_tool :: "turn \<Rightarrow> string \<Rightarrow> bool \<Rightarrow> tool" where
  "new_tool t i q = \<lparr>tool_id = i, blocksAt = length (blocks t), tseq = seq t + 1, question = q,
     tfacts = (case early t i of Some f \<Rightarrow> f | None \<Rightarrow> no_facts)\<rparr>"

lemma addTool_eq:
  assumes "wf_signals t"
  shows "addTool t i q =
    (t\<lparr>tools := kept_tools t @ [new_tool t i q], seq := seq t + 1,
       early := (early t)(i := None), earlyOrder := remove1 i (earlyOrder t)\<rparr>,
     length (kept_tools t))"
proof (cases "early t i")
  case None
  then have "i \<notin> set (earlyOrder t)" using wf_signalsD(7) [OF assms] by (simp add: domIff)
  with None show ?thesis
    by (simp add: addTool_def Let_def kept_tools_def new_tool_def fun_upd_idem remove1_idem)
next
  case (Some f)
  then have "i \<noteq> []" using wf_signalsD(8) [OF assms] by auto
  with Some show ?thesis
    by (simp add: addTool_def Let_def kept_tools_def new_tool_def forgetEarly_def)
qed

lemma kept_tools:
  assumes "wf_signals t"
  shows "set (kept_tools t) \<subseteq> set (tools t)" "length (kept_tools t) < maxTools"
proof -
  have "set (tl (tools t)) \<subseteq> set (tools t)" by (cases "tools t") auto
  then show "set (kept_tools t) \<subseteq> set (tools t)" by (auto simp: kept_tools_def)
  show "length (kept_tools t) < maxTools"
    using wf_signalsD(2) [OF assms] by (auto simp: kept_tools_def maxTools_def)
qed

lemma addTool_wf [wf_intros]:
  assumes wf: "wf_signals t"
  shows "wf_signals (fst (addTool t i q))"
proof -
  let ?t = "fst (addTool t i q)"
  note eq = addTool_eq [OF wf, of i q]
  have "tool_id ` set (kept_tools t) \<inter> dom (early t) = {}"
    using wf_signalsD(9) [OF wf] kept_tools(1) [OF wf] by blast
  moreover have "list_all (tool_in_range ?t) (tools ?t)"
    using wf_signalsD(1) [OF wf] wf_signalsD(10) [OF wf] kept_tools(1) [OF wf]
      wf_signalsD(13) [OF wf, of i]
    by (fastforce simp: eq list_all_iff tool_in_range_def new_tool_def no_facts_def
        split: option.split)
  moreover have "\<forall>j f. early ?t j = Some f \<longrightarrow> oseq (result f) \<le> seq ?t"
    using wf_signalsD(13) [OF wf] by (fastforce simp: eq split: if_splits)
  moreover have "list_all (sig_in_range ?t) (signals ?t)"
    "list_all (\<lambda>p. sig_in_range ?t (psig p)) (pending ?t)"
    using wf_signalsD(11) [OF wf] wf_signalsD(12) [OF wf]
    by (fastforce simp: eq list_all_iff sig_in_range_def)+
  moreover have "length (remove1 i (earlyOrder t)) \<le> maxEarly"
    using wf_signalsD(5) [OF wf] by (auto simp: length_remove1)
  ultimately show ?thesis
    using wf_signalsD(1,3,4,6,7,8) [OF wf] kept_tools(2) [OF wf]
    by (auto simp: wf_signals_def eq new_tool_def)
qed

text \<open>A reference that \<open>factsFor\<close> returns points into the turn it returns.\<close>

definition valid_ref :: "turn \<Rightarrow> facts_ref \<Rightarrow> bool" where
  "valid_ref t ref =
     (case ref of InTool k \<Rightarrow> k < length (tools t) | InEarly i \<Rightarrow> i \<in> dom (early t))"

lemma factsFor_wf:
  assumes wf: "wf_signals t" and i: "i \<noteq> []"
  shows "wf_signals (fst (factsFor t i)) \<and> valid_ref (fst (factsFor t i)) (snd (factsFor t i))"
proof (cases "toolIndex t i")
  case (Some k)
  with wf show ?thesis by (simp add: factsFor_def valid_ref_def toolIndex_SomeD(1))
next
  case None
  then have notool: "i \<notin> tool_id ` set (tools t)" using i by (simp add: toolIndex_None_iff)
  show ?thesis
  proof (cases "early t i")
    case (Some f)
    with None wf show ?thesis by (auto simp: factsFor_def valid_ref_def)
  next
    case new: None
    define u where "u = (if length (earlyOrder t) \<ge> maxEarly
      then forgetEarly t (hd (earlyOrder t)) else t)"
    have u: "wf_signals u" using wf by (simp add: u_def forgetEarly_wf)
    have "length (earlyOrder u) < maxEarly"
      using wf_signalsD(5) [OF wf]
      by (cases "earlyOrder t") (auto simp: u_def forgetEarly_def maxEarly_def)
    moreover have "tools u = tools t" "early u i = None"
      using new by (auto simp: u_def forgetEarly_def)
    moreover have "i \<notin> set (earlyOrder u)"
      using wf_signalsD(7) [OF u] \<open>early u i = None\<close> by (simp add: domIff)
    ultimately show ?thesis
      using u notool i None new unfolding wf_signals_def list_all_iff
      by (auto simp: factsFor_def u_def [symmetric] valid_ref_def tool_in_range_def sig_in_range_def
          no_facts_def)
  qed
qed

lemma write_facts_wf:
  assumes wf: "wf_signals t" and "valid_ref t ref" and f: "oseq (result f) \<le> seq t"
  shows "wf_signals (write_facts t ref f)"
proof (cases ref)
  case (InEarly i)
  with assms show ?thesis
    unfolding wf_signals_def list_all_iff
    by (auto simp: valid_ref_def tool_in_range_def sig_in_range_def)
next
  case (InTool k)
  let ?cs = "(tools t)[k := (tools t ! k)\<lparr>tfacts := f\<rparr>]"
  have k: "k < length (tools t)" using assms(2) InTool by (simp add: valid_ref_def)
  then have mem: "tools t ! k \<in> set (tools t)" by simp
  have range: "tool_in_range (t\<lparr>tools := ?cs\<rparr>) c" if "c \<in> set ?cs" for c
    using set_update_subset_insert [THEN subsetD, OF that] wf_signalsD(10) [OF wf]
      wf_signalsD(10) [OF wf mem] f
    by (auto simp: tool_in_range_def)
  have "map tool_id ?cs = map tool_id (tools t)"
    using k by (simp add: map_update list_update_id [of "map tool_id (tools t)" k, simplified nth_map])
      (metis length_map list_update_id nth_map)
  then have ids: "tool_id ` set ?cs = tool_id ` set (tools t)" by (metis list.set_map)
  have "\<forall>sig. sig_in_range (t\<lparr>tools := ?cs\<rparr>) sig = sig_in_range t sig"
    by (simp add: sig_in_range_def)
  with wf InTool range ids show ?thesis
    by (simp add: wf_signals_def list_all_iff)
qed

lemma read_facts_seq:
  assumes wf: "wf_signals t" and "valid_ref t ref"
  shows "oseq (result (read_facts t ref)) \<le> seq t"
proof (cases ref)
  case (InTool k)
  with assms have "tools t ! k \<in> set (tools t)" by (simp add: valid_ref_def)
  from wf_signalsD(10) [OF wf this] InTool show ?thesis by (simp add: tool_in_range_def)
next
  case (InEarly i)
  with assms(2) wf_signalsD(13) [OF wf, of i] show ?thesis by (auto simp: valid_ref_def)
qed

lemma wf_signals_seq_up: "wf_signals t \<Longrightarrow> seq t \<le> n \<Longrightarrow> wf_signals (t\<lparr>seq := n\<rparr>)"
  unfolding wf_signals_def list_all_iff
  by (auto simp: tool_in_range_def sig_in_range_def) (meson order_trans)

lemma valid_ref_seq [simp]: "valid_ref (t\<lparr>seq := n\<rparr>) ref = valid_ref t ref"
  by (cases ref) (simp_all add: valid_ref_def)

lemma toolResult_wf [wf_intros]:
  assumes "wf_signals t"
  shows "wf_signals (toolResult t i e)"
proof (cases "i = []")
  case True
  with assms show ?thesis by (simp add: toolResult_def)
next
  case False
  obtain u ref where ff: "factsFor t i = (u, ref)" by (cases "factsFor t i")
  with factsFor_wf [OF assms False] show ?thesis
    using False
    by (simp add: toolResult_def Let_def) (simp add: write_facts_wf wf_signals_seq_up)
qed

lemma raiseApproval_wf [wf_intros]:
  assumes wf: "wf_signals t"
  shows "wf_signals (raiseApproval t s i)"
proof -
  have range: "sig_in_range u \<lparr>skind = KindApproval, stext = clip s, byTool = True, toolID = i,
      toolCall = False, sat = 0, sseq = 0\<rparr>" if "wf_signals u" for u
    using wf_signalsD(1) [OF that] by (simp add: sig_in_range_def clip_length)
  show ?thesis
  proof (cases "i = []")
    case True
    with wf range show ?thesis by (simp add: raiseApproval_def addSignal_wf)
  next
    case False
    obtain u ref where "factsFor t i = (u, ref)" by (cases "factsFor t i")
    with factsFor_wf [OF wf False] False range read_facts_seq [of u ref] show ?thesis
      by (simp add: raiseApproval_def addSignal_wf write_facts_wf)
  qed
qed

subsection \<open>A refusal and the call it names, in either order\<close>

text \<open>
  A refusal may reach the reducer before the call it names. The call then claims the
  facts collected early, and the turn is the one the other order builds.
\<close>

lemma refusal_commutes:
  assumes wf: "wf_signals t" and i: "i \<noteq> []" and new: "i \<notin> tool_id ` set (tools t)"
    and nothing_early: "early t i = None" and room: "length (earlyOrder t) < maxEarly"
  shows "fst (addTool (raiseApproval t s i) i q) = raiseApproval (fst (addTool t i q)) s i"
proof -
  let ?f = "no_facts\<lparr>refused := True\<rparr>"
  let ?sig = "\<lparr>skind = KindApproval, stext = clip s, byTool = True, toolID = i,
    toolCall = False, sat = 0, sseq = 0\<rparr>"
  have notin: "i \<notin> set (earlyOrder t)"
    using wf_signalsD(7) [OF wf] nothing_early by (simp add: domIff)
  have "toolIndex t i = None" using new by (simp add: toolIndex_None_iff)
  then have early_first: "raiseApproval t s i =
      addSignal ?sig (t\<lparr>earlyOrder := earlyOrder t @ [i], early := (early t)(i \<mapsto> ?f)\<rparr>)"
    using i nothing_early room by (simp add: raiseApproval_def factsFor_def Let_def)
  have "toolIndex (fst (addTool t i q)) i = Some (length (kept_tools t))"
    using i by (intro toolIndex_snoc) (auto simp: addTool_eq [OF wf] new_tool_def)
  then have "raiseApproval (fst (addTool t i q)) s i =
      addSignal ?sig (t\<lparr>seq := seq t + 1,
        tools := kept_tools t @ [(new_tool t i q)\<lparr>tfacts := ?f\<rparr>]\<rparr>)"
    using i nothing_early notin
    by (simp add: raiseApproval_def factsFor_def addTool_eq [OF wf] new_tool_def fun_upd_idem
        remove1_idem)
  moreover have "fst (addTool (raiseApproval t s i) i q) =
      addSignal ?sig (t\<lparr>seq := seq t + 1,
        tools := kept_tools t @ [(new_tool t i q)\<lparr>tfacts := ?f\<rparr>]\<rparr>)"
    using wf notin nothing_early
    by (subst addTool_eq [OF raiseApproval_wf [OF wf]])
       (simp add: early_first addSignal_def kept_tools_def new_tool_def remove1_append fun_upd_idem)
  ultimately show ?thesis by simp
qed

subsection \<open>Dropping old text does not change the decision\<close>

lemma toolIndex_dropped: "dropped k t t' \<Longrightarrow> toolIndex t' i = toolIndex t i"
  by (rule toolIndex_cong) (simp add: dropped_def shift_tool_by_def)

lemma place_dropped:
  assumes d: "dropped k t t'"
  shows "place t' (shift_signal_by k sig) = (fst (place t sig) - k, snd (place t sig))"
proof -
  have tools': "tools t' = map (shift_tool_by k) (tools t)" using d by (simp add: dropped_def)
  show ?thesis
  proof (cases "toolIndex t (toolID sig)")
    case None
    then show ?thesis
      by (simp add: place_def shift_signal_by_def toolIndex_dropped [OF d] tools' last_map
          shift_tool_by_def)
  next
    case (Some n)
    then show ?thesis
      using toolIndex_SomeD(1) [OF Some]
      by (simp add: place_def shift_signal_by_def toolIndex_dropped [OF d] tools' last_map
          shift_tool_by_def Let_def)
  qed
qed

lemma ended_on_dropped:
  assumes d: "dropped k t t'"
  shows "ended_on t' (shift_signal_by k sig) = ended_on t sig"
proof -
  have tools': "tools t' = map (shift_tool_by k) (tools t)" using d by (simp add: dropped_def)
  have "answered t' (shift_signal_by k sig) = answered t sig"
    using toolIndex_SomeD(1) [of t "toolID sig"]
    by (auto simp: answered_def toolIndex_dropped [OF d] tools' shift_tool_by_def
        shift_signal_by_def split: option.splits)
  then show ?thesis
    by (simp add: ended_on_def place_dropped [OF d] tools' list_ex_iff shift_tool_by_def works_def)
qed

lemma consider_dropped:
  assumes d: "dropped k t t'"
  shows "consider_signals t' (map (shift_signal_by k) sigs)
           (map_option (shift_signal_by k) q, map_option (shift_signal_by k) a) =
         (case consider_signals t sigs (q, a) of
            (q', a') \<Rightarrow> (map_option (shift_signal_by k) q', map_option (shift_signal_by k) a'))"
proof (induction sigs arbitrary: q a)
  case Nil
  then show ?case by simp
next
  case (Cons sig sigs)
  have kind: "skind (shift_signal_by k sig) = skind sig" by (simp add: shift_signal_by_def)
  show ?case
    using Cons.IH [of q a] Cons.IH [of "Some sig" a] Cons.IH [of q "Some sig"]
    by (simp add: ended_on_dropped [OF d] kind)
qed

lemma openSignal_dropped:
  assumes d: "dropped k t t'"
  shows "openSignal t' = map_option (shift_signal_by k) (openSignal t)"
proof -
  have "map psig (map (shift_pending_by k) ps) = map (shift_signal_by k) (map psig ps)" for ps
    by (simp add: shift_pending_by_def)
  then have "signals t' @ map psig (pending t') =
      map (shift_signal_by k) (signals t @ map psig (pending t))"
    using d by (simp add: dropped_def)
  then show ?thesis
    using consider_dropped [OF d, of "signals t @ map psig (pending t)" None None]
    by (auto simp: openSignal_def split: prod.splits option.splits)
qed

lemma text_after_dropped:
  assumes d: "dropped k t t'"
  shows "drop (fst (place t' (shift_signal_by k sig))) (blks t') =
         drop (max k (fst (place t sig))) (blks t)"
  by (simp only: place_dropped [OF d] dropped_blks [OF d] fst_conv drop_drop
      nat_minus_add_max max.commute)

subsection \<open>The text of a question or an approval\<close>

lemma pick_blocks_from:
  assumes "fst (pick_blocks bs s) \<noteq> []"
  shows "fst (pick_blocks bs s) = TrimSpace s \<or> (\<exists>b \<in> set bs. fst (pick_blocks bs s) = block_says b)"
  using assms by (auto simp: pick_blocks_def split: option.splits if_splits dest!: find_rev_SomeD)

lemma signalText_source:
  assumes described: "stext sig \<noteq> []"
  shows "fst (signalText t sig termText picked) \<in>
           {TrimSpace termText, stext sig} \<union> block_says ` set (drop (fst (place t sig)) (blks t))"
  using pick_blocks_from [of "drop (fst (place t sig)) (blks t)" termText] described
  by (auto simp: signalText_def Let_def pick_def)

subsection \<open>Which signal decides\<close>

definition open_of_kind :: "turn \<Rightarrow> bool \<Rightarrow> signal list \<Rightarrow> signal list" where
  "open_of_kind t is_question sigs =
     filter (\<lambda>sig. ended_on t sig \<and> (skind sig = KindQuestion) = is_question) sigs"

definition last_option :: "'a list \<Rightarrow> 'a option" where
  "last_option xs = (if xs = [] then None else Some (last xs))"

definition all_signals :: "turn \<Rightarrow> signal list" where
  "all_signals t = signals t @ map psig (pending t)"

lemma consider_signals_eq:
  "consider_signals t sigs (q, a) =
     (let qs = open_of_kind t True sigs; as = open_of_kind t False sigs
      in (if qs = [] then q else Some (last qs), if as = [] then a else Some (last as)))"
  by (induction sigs arbitrary: q a) (auto simp: open_of_kind_def Let_def)

lemma openSignal_eq:
  "openSignal t =
     (case last_option (open_of_kind t True (all_signals t)) of
        Some sig \<Rightarrow> Some sig
      | None \<Rightarrow> last_option (open_of_kind t False (all_signals t)))"
  by (simp add: openSignal_def consider_signals_eq all_signals_def last_option_def Let_def)

lemma openSignal_None_iff:
  "openSignal t = None \<longleftrightarrow> (\<forall>sig \<in> set (all_signals t). \<not> ended_on t sig)"
  by (auto simp: openSignal_eq last_option_def open_of_kind_def filter_empty_conv)

lemma openSignal_SomeD:
  assumes "openSignal t = Some sig"
  shows "sig \<in> set (all_signals t)" "ended_on t sig"
proof -
  have "sig \<in> set (open_of_kind t True (all_signals t)) \<union> set (open_of_kind t False (all_signals t))"
    using assms by (auto simp: openSignal_eq last_option_def split: if_splits option.splits)
  then show "sig \<in> set (all_signals t)" "ended_on t sig" by (auto simp: open_of_kind_def)
qed

text \<open>
  A call that works (it asks nothing and was not refused) closes every signal raised
  before it, but for a refusal of that very call and one that names no call, which
  stands for whatever the agent did last.
\<close>

lemma work_closes:
  assumes wf: "wf_signals t" and sig: "sig_in_range t sig"
    and named: "byTool sig \<Longrightarrow> toolID sig \<noteq> [] \<and> toolID sig \<noteq> j"
    and not_refused: "early t j = None"
  shows "\<not> ended_on (fst (addTool t j False)) sig"
proof -
  let ?t = "fst (addTool t j False)"
  note eq = addTool_eq [OF wf, of j False]
  have tools': "tools ?t = kept_tools t @ [new_tool t j False]" by (simp add: eq)
  have "snd (place ?t sig) \<le> seq t"
  proof (cases "byTool sig")
    case False
    with sig show ?thesis by (simp add: place_def sig_in_range_def)
  next
    case True
    with named have i: "toolID sig \<noteq> []" "toolID sig \<noteq> j" by auto
    show ?thesis
    proof (cases "toolIndex ?t (toolID sig)")
      case None
      with True i wf_signalsD(1) [OF wf] show ?thesis by (simp add: place_def)
    next
      case (Some k)
      have "k < length (tools ?t)" "tool_id (tools ?t ! k) = toolID sig"
        using toolIndex_SomeD [OF Some] by auto
      with i have "k < length (kept_tools t)"
        by (cases "k = length (kept_tools t)") (auto simp: tools' new_tool_def)
      then have "tools ?t ! k \<in> set (tools t)"
        using kept_tools(1) [OF wf] by (auto simp: tools' nth_append)
      from wf_signalsD(10) [OF wf this] True Some i show ?thesis
        by (simp add: place_def Let_def tool_in_range_def)
    qed
  qed
  then have "tseq (new_tool t j False) > snd (place ?t sig)" by (simp add: new_tool_def)
  moreover have "works (new_tool t j False)"
    using not_refused by (simp add: works_def new_tool_def no_facts_def)
  ultimately show ?thesis by (auto simp: ended_on_def tools')
qed
end
