(* ===== verification/Reducer.thy ===== *)
theory Reducer
  imports Turn_Signals
begin

text \<open>
  The session reducer, \<open>turnoutput/reducer.go\<close>: the turns in progress, which turn an
  event belongs to (\<open>body\<close>), which turn a terminal event ends or whether it repeats
  one already reported (\<open>ending\<close>), and the record a finished turn is reduced to
  (\<open>finish\<close>, \<open>Flush\<close>). Every method of the Go type runs under its mutex, so a call
  is one step here.

  Parameters, for code outside the repository: \<open>stop_words\<close> are the stop reasons and
  the normaliser of \<open>go-llm-types\<close>; the \<open>n\<close>-th call of the turn-id source
  (\<open>Config.NewTurnID\<close>, by default \<open>runtimeevents.NewTurnID\<close>) returns \<open>newTurnID r n\<close>.

  A Go turn is shared by pointer between the map \<open>open\<close> and the method that fills
  it; here a method gets the turn's key and writes the turn back with
  \<open>update_turn\<close>.
\<close>

record stop_words =
  stopCancelled :: string
  stopError :: string
  NormalizeStopReason :: "string \<Rightarrow> string"

record terminal =
  failed :: bool
  errText :: string
  cut :: bool
  reason :: string
  term_stop :: string
  term_text :: string

definition no_terminal :: terminal where
  "no_terminal = \<lparr>failed = False, errText = [], cut = False, reason = [], term_stop = [],
     term_text = []\<rparr>"

record reducer =
  sessionID :: string
  runtime :: string
  newTurnID :: "nat \<Rightarrow> string"
  minted :: nat
  questions :: "string set"
  open_turns :: "string \<rightharpoonup> turn"
  order :: "string list"
  finished :: "string list"
  settled :: bool
  lastDone :: "string \<times> string"
  heldStop :: string
  lastError :: string
  pendingStop :: string

record config =
  cfg_SessionID :: string
  cfg_Runtime :: string
  cfg_NewTurnID :: "(nat \<Rightarrow> string) option"
  cfg_QuestionTools :: "string list option"

definition DefaultQuestionTools :: "string list" where
  "DefaultQuestionTools = [''AskUserQuestion'', ''request_user_input'']"

definition question_key :: "string \<Rightarrow> string" where
  "question_key name = ToLower (TrimSpace name)"

definition NewReducer :: "(nat \<Rightarrow> string) \<Rightarrow> config \<Rightarrow> reducer" where
  "NewReducer default_ids cfg =
     \<lparr>sessionID = cfg_SessionID cfg, runtime = cfg_Runtime cfg,
      newTurnID = (case cfg_NewTurnID cfg of None \<Rightarrow> default_ids | Some f \<Rightarrow> f), minted = 0,
      questions = question_key ` set (case cfg_QuestionTools cfg of
        None \<Rightarrow> DefaultQuestionTools | Some names \<Rightarrow> names),
      open_turns = Map.empty, order = [], finished = [], settled = False, lastDone = ([], []),
      heldStop = [], lastError = [], pendingStop = []\<rparr>"

definition reasonInterrupted :: string where "reasonInterrupted = ''interrupted''"
definition reasonProcessExited :: string where "reasonProcessExited = ''process_exited''"

subsection \<open>Turns in progress\<close>

definition current :: "reducer \<Rightarrow> turn option" where
  "current r = (if order r = [] then None else open_turns r (last (order r)))"

definition mint :: "reducer \<Rightarrow> string \<times> reducer" where
  "mint r = (newTurnID r (minted r), r\<lparr>minted := Suc (minted r)\<rparr>)"

function drop_oldest_turns :: "string list \<Rightarrow> (string \<rightharpoonup> turn) \<Rightarrow> string list \<times> (string \<rightharpoonup> turn)" where
  "drop_oldest_turns ids m =
     (if length ids > maxOpenTurns then drop_oldest_turns (tl ids) (m(hd ids := None))
      else (ids, m))"
  by pat_completeness auto
termination
  by (relation "measure (\<lambda>(ids, m). length ids)") auto

declare drop_oldest_turns.simps [simp del]

definition begin_turn :: "reducer \<Rightarrow> string \<Rightarrow> reducer" where
  "begin_turn r i =
     (let t = (newTurn i)\<lparr>usageStop := pendingStop r\<rparr>;
          (ids, m) = drop_oldest_turns (order r @ [i]) ((open_turns r)(i \<mapsto> t))
      in r\<lparr>open_turns := m, order := ids, pendingStop := [], heldStop := [], settled := False\<rparr>)"

definition wasFinished :: "reducer \<Rightarrow> string \<Rightarrow> bool" where
  "wasFinished r i = List.member (finished r) i"

text \<open>The key of the turn an event of a turn's body belongs to; \<open>None\<close> drops it.\<close>

definition body :: "reducer \<Rightarrow> string \<Rightarrow> reducer \<times> string option" where
  "body r i =
     (if i = [] then
        (case current r of
           Some _ \<Rightarrow> (r, Some (last (order r)))
         | None \<Rightarrow> (let (i', r1) = mint r in (begin_turn r1 i', Some i')))
      else
        (case open_turns r i of
           Some _ \<Rightarrow> (r, Some i)
         | None \<Rightarrow> if wasFinished r i then (r, None) else (begin_turn r i, Some i)))"

definition update_turn :: "reducer \<Rightarrow> string \<Rightarrow> (turn \<Rightarrow> turn) \<Rightarrow> reducer" where
  "update_turn r i f =
     (case open_turns r i of
        None \<Rightarrow> r
      | Some t \<Rightarrow> r\<lparr>open_turns := (open_turns r)(i \<mapsto> f t)\<rparr>)"

subsection \<open>Terminal events\<close>

text \<open>A terminal event that carries no id and finds no turn in progress, while the
  reducer is settled, repeats the one that ended the last turn.\<close>

definition repeats :: "stop_words \<Rightarrow> reducer \<Rightarrow> terminal \<Rightarrow> bool" where
  "repeats L r tm =
     (let stop = (if term_stop tm = [] then heldStop r else term_stop tm);
          err = TrimSpace (errText tm)
      in settled r \<and>
         (if failed tm then err \<noteq> [] \<and> err = lastError r
          else stop \<noteq> stopCancelled L \<and> lastDone r = (stop, TrimSpace (term_text tm))))"

definition ending :: "stop_words \<Rightarrow> reducer \<Rightarrow> string \<Rightarrow> terminal \<Rightarrow> reducer \<times> turn option" where
  "ending L r i tm =
     (if i \<noteq> [] then
        (case open_turns r i of
           Some t \<Rightarrow> (r, Some t)
         | None \<Rightarrow> if wasFinished r i then (r, None) else (r, Some (newTurn i)))
      else
        (case current r of
           Some t \<Rightarrow> (r, Some t)
         | None \<Rightarrow>
             if repeats L r tm then (r, None)
             else
               (let (i', r1) = mint r;
                    t = (newTurn i')\<lparr>usageStop :=
                      (if heldStop r \<noteq> [] then heldStop r else pendingStop r)\<rparr>
                in (r1\<lparr>pendingStop := [], heldStop := []\<rparr>, Some t))))"

definition noteStop :: "reducer \<Rightarrow> string \<Rightarrow> reducer" where
  "noteStop r stop =
     (if stop = [] then r
      else case current r of
             Some _ \<Rightarrow> update_turn r (last (order r)) (\<lambda>t. t\<lparr>usageStop := stop\<rparr>)
           | None \<Rightarrow> if settled r then r\<lparr>heldStop := stop\<rparr> else r\<lparr>pendingStop := stop\<rparr>)"

text \<open>The bookkeeping of \<open>finish\<close>: the turn leaves, its id is remembered.\<close>

definition remember :: "string \<Rightarrow> reducer \<Rightarrow> reducer" where
  "remember i r = r\<lparr>finished := keep_last finishedMemory (finished r @ [i])\<rparr>"

definition close_turn :: "reducer \<Rightarrow> turn \<Rightarrow> terminal \<Rightarrow> string \<Rightarrow> reducer" where
  "close_turn r t tm stop =
     (let r1 = remember (turn_id t)
                 (r\<lparr>open_turns := (open_turns r)(turn_id t := None),
                    order := remove1 (turn_id t) (order r)\<rparr>);
          r2 = r1\<lparr>settled := (order r1 = []), pendingStop := [], heldStop := []\<rparr>
      in if failed tm
         then r2\<lparr>lastError := TrimSpace (errText tm), lastDone := ([], [])\<rparr>
         else r2\<lparr>lastDone := (stop, TrimSpace (term_text tm))\<rparr>)"

definition is_cut :: "stop_words \<Rightarrow> terminal \<Rightarrow> string \<Rightarrow> bool" where
  "is_cut L tm stop \<longleftrightarrow> cut tm \<or>
     (failed tm \<and> (reason tm = reasonInterrupted \<or> reason tm = reasonProcessExited)) \<or>
     stop = stopCancelled L"

text \<open>First candidate that says something, in the code's order of preference.\<close>

fun first_saying :: "(string \<times> confidence) list \<Rightarrow> string \<times> confidence" where
  "first_saying [] = ([], ConfidenceHeuristic)"
| "first_saying [x] = x"
| "first_saying (x # y # xs) = (if fst x \<noteq> [] then x else first_saying (y # xs))"

text \<open>The record of a turn that ends with the stop reason \<open>stop\<close>: its kind, its text
  with the confidence, and its final stop reason.\<close>

definition outcome_of :: "stop_words \<Rightarrow> turn \<Rightarrow> terminal \<Rightarrow> string \<Rightarrow>
    kind \<times> (string \<times> confidence) \<times> string" where
  "outcome_of L t tm stop =
     (let or_error = (\<lambda>s. if s = [] then stopError L else s) in
      if failed tm \<and> \<not> is_cut L tm stop then
        (KindFailure,
         first_saying [(TrimSpace (errText tm), ConfidenceExact), (reason tm, ConfidenceHeuristic)],
         or_error stop)
      else if is_cut L tm stop then
        (KindTerminal,
         first_saying [pick t 0 (term_text tm), (TrimSpace (errText tm), ConfidenceExact),
           (reason tm, ConfidenceHeuristic)],
         or_error (if reason tm = reasonInterrupted then stopCancelled L else stop))
      else
        (case openSignal t of
           None \<Rightarrow> (KindFinal, pick t 0 (term_text tm), stop)
         | Some sig \<Rightarrow>
             (skind sig, signalText t sig (term_text tm) (pick t 0 (term_text tm)), stop)))"

definition end_stop :: "turn \<Rightarrow> terminal \<Rightarrow> string" where
  "end_stop t tm = (if term_stop tm = [] then usageStop t else term_stop tm)"

definition finish :: "stop_words \<Rightarrow> reducer \<Rightarrow> turn \<Rightarrow> terminal \<Rightarrow> reducer \<times> turn_output" where
  "finish L r t tm =
     (let stop = end_stop t tm; (k, (txt, conf), stop') = outcome_of L t tm stop
      in (close_turn r t tm stop,
          \<lparr>SessionID = sessionID r, TurnID = turn_id t, Text = txt, Kind = k,
           StopReason = stop', Runtime = runtime r, Confidence = conf\<rparr>))"

definition Flush :: "stop_words \<Rightarrow> reducer \<Rightarrow> string \<Rightarrow> reducer \<times> turn_output option" where
  "Flush L r why =
     (case current r of
        None \<Rightarrow> (r, None)
      | Some t \<Rightarrow>
          (let why' = (if TrimSpace why = [] then reasonProcessExited else why);
               (r', out) = finish L r t (no_terminal\<lparr>failed := True, cut := True, reason := why'\<rparr>)
           in (r', Some out)))"


subsection \<open>The invariant\<close>

text \<open>
  \<open>wf_reducer ids r\<close>, for a reducer whose turn ids come from \<open>ids\<close>: the order lists
  exactly the open turns, each once and under its own id; every open turn is well
  formed and within its bounds; at most \<open>maxOpenTurns\<close> are open and at most
  \<open>finishedMemory\<close> ids remembered; no open turn is a finished one; nothing is open
  while the reducer is settled; and the ids still to be minted are new.
\<close>

definition wf_turn :: "turn \<Rightarrow> bool" where
  "wf_turn t \<longleftrightarrow> wf_text t \<and> bounded_text t \<and> wf_signals t"

definition unminted :: "reducer \<Rightarrow> string \<Rightarrow> bool" where
  "unminted r i \<longleftrightarrow> (\<forall>n \<ge> minted r. newTurnID r n \<noteq> i)"

definition wf_reducer :: "(nat \<Rightarrow> string) \<Rightarrow> reducer \<Rightarrow> bool" where
  "wf_reducer ids r \<longleftrightarrow>
     inj ids \<and> newTurnID r = ids \<and>
     distinct (order r) \<and> set (order r) = dom (open_turns r) \<and>
     (\<forall>i t. open_turns r i = Some t \<longrightarrow> turn_id t = i \<and> wf_turn t) \<and>
     length (order r) \<le> maxOpenTurns \<and> length (finished r) \<le> finishedMemory \<and>
     set (order r) \<inter> set (finished r) = {} \<and>
     (settled r \<longrightarrow> order r = []) \<and>
     (\<forall>i \<in> set (order r) \<union> set (finished r). unminted r i)"

lemma wf_reducerD:
  assumes "wf_reducer ids r"
  shows "inj ids" "newTurnID r = ids" "distinct (order r)" "set (order r) = dom (open_turns r)"
    "open_turns r i = Some t \<Longrightarrow> turn_id t = i" "open_turns r i = Some t \<Longrightarrow> wf_turn t"
    "length (order r) \<le> maxOpenTurns" "length (finished r) \<le> finishedMemory"
    "set (order r) \<inter> set (finished r) = {}" "settled r \<Longrightarrow> order r = []"
    "i \<in> set (order r) \<Longrightarrow> unminted r i" "i \<in> set (finished r) \<Longrightarrow> unminted r i"
  using assms by (auto simp: wf_reducer_def)

lemma wf_turn_newTurn [wf_intros]: "wf_turn (newTurn i)"
  by (simp add: wf_turn_def wf_intros)

lemma wf_turn_usageStop [wf_intros]: "wf_turn t \<Longrightarrow> wf_turn (t\<lparr>usageStop := s\<rparr>)"
proof -
  assume t: "wf_turn t"
  have "wf_signals (t\<lparr>usageStop := s\<rparr>)"
    by (rule wf_signals_cong [of t]) (use t in \<open>simp_all add: wf_turn_def\<close>)
  with t show ?thesis by (simp add: wf_turn_def wf_text_def bounded_text_def)
qed

lemma wf_turn_text_part:
  assumes "wf_turn t" and "text_part t' = text_part t" and "wf_signals t'"
  shows "wf_turn t'"
  using assms text_partD(5,6) [OF assms(2)] by (simp add: wf_turn_def)

lemma wf_turn_text_ops [wf_intros]:
  assumes "wf_turn t"
  shows "wf_turn (addDelta t s i final)" "wf_turn (boundary t)"
  using assms by (simp_all add: wf_turn_def wf_intros) (simp add: bounded_text_def boundary_def)

lemma wf_turn_ops [wf_intros]:
  assumes "wf_turn t"
  shows "wf_turn (fst (addTool t i q))" "wf_turn (toolResult t i e)"
    "wf_turn (raiseQuestion t s k)" "wf_turn (raiseRequestedQuestion t s)"
    "wf_turn (raiseApproval t s i)" "wf_turn (request t ns s)" "wf_turn (resolve t ns e s)"
proof -
  have "wf_signals t" using assms by (simp add: wf_turn_def)
  then show "wf_turn (fst (addTool t i q))" "wf_turn (toolResult t i e)"
    "wf_turn (raiseQuestion t s k)" "wf_turn (raiseRequestedQuestion t s)"
    "wf_turn (raiseApproval t s i)" "wf_turn (request t ns s)" "wf_turn (resolve t ns e s)"
    by (simp_all add: wf_turn_text_part [OF assms] frame_simps wf_intros)
qed

lemma turn_id_addDelta [simp]: "turn_id (addDelta t s i final) = turn_id t"
proof (cases rule: addDelta_cases [of s t i final])
  case 1
  then show ?thesis by simp
next
  case (2 t' p)
  obtain k where "dropped k (write_block t' p s final) (trim_turn (write_block t' p s final))"
    using trim_turn_dropped by blast
  with 2 target_block_frame(7) [OF 2(1)] show ?thesis by (simp add: dropped_def)
qed

lemma turn_id_boundary [simp]: "turn_id (boundary t) = turn_id t"
  by (simp add: boundary_def)

lemma turn_id_ops [simp]:
  "turn_id (fst (addTool t i q)) = turn_id t"
  "turn_id (toolResult t i e) = turn_id t" "turn_id (raiseQuestion t s k) = turn_id t"
  "turn_id (raiseRequestedQuestion t s) = turn_id t" "turn_id (raiseApproval t s i) = turn_id t"
  "turn_id (request t ns s) = turn_id t" "turn_id (resolve t ns e s) = turn_id t"
  by ((rule text_partD(3), simp add: frame_simps)+)

lemma newTurn_fields [simp]:
  "turn_id (newTurn i) = i" "blocks (newTurn i) = []" "tools (newTurn i) = []"
  "signals (newTurn i) = []" "pending (newTurn i) = []" "usageStop (newTurn i) = []"
  by (simp_all add: newTurn_def)

subsection \<open>Opening turns\<close>

text \<open>The ids that go when \<open>i\<close> is opened, and what remains.\<close>

definition gone :: "string list \<Rightarrow> string set" where
  "gone ids = set (take (length ids - maxOpenTurns) ids)"

lemma drop_oldest_turns_eq:
  "drop_oldest_turns ids m =
     (keep_last maxOpenTurns ids, \<lambda>i. if i \<in> gone ids then None else m i)"
proof (induction ids m rule: drop_oldest_turns.induct)
  case (1 ids m)
  show ?case
  proof (cases "length ids > maxOpenTurns")
    case True
    then obtain i js where ids: "ids = i # js" by (cases ids) auto
    have len: "Suc (length js) - maxOpenTurns = Suc (length js - maxOpenTurns)"
      using True by (simp add: ids Suc_diff_le)
    have "drop_oldest_turns ids m = drop_oldest_turns js (m(i := None))"
      using True drop_oldest_turns.simps [of ids m] by (simp add: ids)
    also have "\<dots> = (keep_last maxOpenTurns js, \<lambda>j. if j \<in> gone js then None else (m(i := None)) j)"
      using 1 [OF True] unfolding ids list.sel .
    finally show ?thesis
      by (auto simp: ids gone_def len keep_last_eq_drop fun_eq_iff)
  next
    case False
    then show ?thesis by (simp add: drop_oldest_turns.simps [of ids] gone_def)
  qed
qed

lemma keep_last_distinct:
  assumes "distinct ids"
  shows "set (keep_last maxOpenTurns ids) = set ids - gone ids" "distinct (keep_last maxOpenTurns ids)"
proof -
  have "ids = take (length ids - maxOpenTurns) ids @ keep_last maxOpenTurns ids"
    by (simp add: keep_last_eq_drop)
  then have "set ids = gone ids \<union> set (keep_last maxOpenTurns ids)"
    "gone ids \<inter> set (keep_last maxOpenTurns ids) = {}"
    using assms unfolding gone_def by (metis set_append, metis distinct_append)
  then show "set (keep_last maxOpenTurns ids) = set ids - gone ids" by blast
  show "distinct (keep_last maxOpenTurns ids)" using assms by (simp add: keep_last_eq_drop)
qed

lemma gone_newest: "distinct (ids @ [i]) \<Longrightarrow> gone (ids @ [i]) \<subseteq> set ids"
  by (auto simp: gone_def maxOpenTurns_def dest: in_set_takeD)

lemma begin_turn_fields [simp]:
  "order (begin_turn r i) = keep_last maxOpenTurns (order r @ [i])"
  "open_turns (begin_turn r i) = (\<lambda>j. if j \<in> gone (order r @ [i]) then None
     else ((open_turns r)(i \<mapsto> (newTurn i)\<lparr>usageStop := pendingStop r\<rparr>)) j)"
  "finished (begin_turn r i) = finished r" "newTurnID (begin_turn r i) = newTurnID r"
  "minted (begin_turn r i) = minted r" "settled (begin_turn r i) = False"
  "sessionID (begin_turn r i) = sessionID r" "runtime (begin_turn r i) = runtime r"
  by (simp_all add: begin_turn_def drop_oldest_turns_eq)

lemma unminted_begin_turn [simp]: "unminted (begin_turn r i) j = unminted r j"
  by (simp add: unminted_def)

lemma begin_turn_wf:
  assumes wf: "wf_reducer ids r" and new: "i \<notin> dom (open_turns r)" "i \<notin> set (finished r)"
    and unminted: "unminted r i"
  shows "wf_reducer ids (begin_turn r i)" and "i \<in> dom (open_turns (begin_turn r i))"
    and "last (order (begin_turn r i)) = i"
proof -
  note D = wf_reducerD [OF wf]
  have dist: "distinct (order r @ [i])" using D(3,4) new(1) by auto
  have i: "i \<notin> gone (order r @ [i])" using gone_newest [OF dist] D(4) new(1) by auto
  note kept = keep_last_distinct [OF dist]
  have turns: "turn_id t = j \<and> wf_turn t" if "open_turns (begin_turn r i) j = Some t" for j t
    using that D(5) [of j t] D(6) [of j t]
    by (auto simp: wf_turn_usageStop wf_turn_newTurn split: if_splits)
  have "set (keep_last maxOpenTurns (order r @ [i])) = dom (open_turns (begin_turn r i))"
    using D(4) i by (auto simp: kept(1) split: if_splits)
  moreover have "set (keep_last maxOpenTurns (order r @ [i])) \<inter> set (finished r) = {}"
    using D(9) new(2) by (auto simp: kept(1))
  moreover have "\<forall>j \<in> set (keep_last maxOpenTurns (order r @ [i])) \<union> set (finished r). unminted r j"
    using D(11) D(12) unminted by (auto simp: kept(1))
  ultimately show "wf_reducer ids (begin_turn r i)"
    using D(1,2,8) turns kept(2) unfolding wf_reducer_def by (simp only: begin_turn_fields
        unminted_begin_turn length_keep_last) simp
  show "i \<in> dom (open_turns (begin_turn r i))" using i by (simp add: domIff)
  show "last (order (begin_turn r i)) = i"
    by (simp add: keep_last_append_lt maxOpenTurns_def)
qed

text \<open>Minting an id: it is new, and the rest of the source stays unused.\<close>

lemma mint_wf:
  assumes wf: "wf_reducer ids r" and m: "mint r = (i, r')"
  shows "wf_reducer ids r'" "unminted r' i" "i \<notin> set (order r')" "i \<notin> set (finished r')"
    "i \<notin> dom (open_turns r')" "open_turns r' = open_turns r" "order r' = order r"
    "finished r' = finished r" "sessionID r' = sessionID r" "runtime r' = runtime r"
proof -
  note D = wf_reducerD [OF wf]
  have r': "r' = r\<lparr>minted := Suc (minted r)\<rparr>" and i: "i = ids (minted r)"
    using m D(2) by (auto simp: mint_def)
  have up: "unminted r' j" if "unminted r j" for j
    using that by (simp add: unminted_def r')
  show "unminted r' i"
    using D(1,2) by (auto simp: unminted_def r' i inj_eq)
  have "\<not> unminted r i" using D(2) by (auto simp: unminted_def i)
  then show "i \<notin> set (order r')" "i \<notin> set (finished r')"
    using D(11) D(12) by (auto simp: r')
  then show "i \<notin> dom (open_turns r')" using D(4) by (simp add: r')
  show "wf_reducer ids r'"
    using wf up unfolding wf_reducer_def by (auto simp: r')
qed (use m in \<open>auto simp: mint_def\<close>)

definition admissible_id :: "(nat \<Rightarrow> string) \<Rightarrow> string \<Rightarrow> bool" where
  "admissible_id ids i \<longleftrightarrow> i = [] \<or> i \<notin> range ids"

lemma admissible_unminted:
  "wf_reducer ids r \<Longrightarrow> admissible_id ids i \<Longrightarrow> i \<noteq> [] \<Longrightarrow> unminted r i"
  by (auto simp: admissible_id_def unminted_def wf_reducer_def)

lemma current_Some_iff:
  "wf_reducer ids r \<Longrightarrow> current r = Some t \<longleftrightarrow> order r \<noteq> [] \<and> open_turns r (last (order r)) = Some t"
  by (simp add: current_def)

lemma current_None_iff: "wf_reducer ids r \<Longrightarrow> current r = None \<longleftrightarrow> order r = []"
proof -
  assume "wf_reducer ids r"
  then have "set (order r) = dom (open_turns r)" by (rule wf_reducerD)
  then show ?thesis using last_in_set [of "order r"]
    by (cases "order r = []") (auto simp: current_def domIff)
qed

lemma body_wf:
  assumes wf: "wf_reducer ids r" and adm: "admissible_id ids i"
  shows "wf_reducer ids (fst (body r i)) \<and>
    (\<forall>k. snd (body r i) = Some k \<longrightarrow> k \<in> dom (open_turns (fst (body r i))))"
proof (cases "i = []")
  case True
  show ?thesis
  proof (cases "current r")
    case (Some t)
    with True wf show ?thesis by (auto simp: body_def current_def split: if_splits)
  next
    case None
    obtain j r1 where m: "mint r = (j, r1)" by (cases "mint r")
    note M = mint_wf [OF wf m]
    show ?thesis
      using begin_turn_wf(1,2) [OF M(1,5,4,2)] True None m by (simp add: body_def)
  qed
next
  case False
  show ?thesis
  proof (cases "open_turns r i")
    case (Some t)
    with False wf show ?thesis by (auto simp: body_def)
  next
    case None
    then have new: "i \<notin> dom (open_turns r)" by auto
    show ?thesis
    proof (cases "wasFinished r i")
      case True
      with None False wf show ?thesis by (simp add: body_def)
    next
      case unfinished: False
      then have "i \<notin> set (finished r)" by (simp add: wasFinished_def)
      from begin_turn_wf(1,2) [OF wf new this admissible_unminted [OF wf adm False]]
      show ?thesis using None False unfinished by (simp add: body_def)
    qed
  qed
qed

lemma update_turn_wf:
  assumes wf: "wf_reducer ids r" and f: "\<And>t. wf_turn t \<Longrightarrow> wf_turn (f t) \<and> turn_id (f t) = turn_id t"
  shows "wf_reducer ids (update_turn r i f)"
proof (cases "open_turns r i")
  case None
  with wf show ?thesis by (simp add: update_turn_def)
next
  case (Some t)
  note D = wf_reducerD [OF wf]
  have f: "turn_id (f t) = i \<and> wf_turn (f t)" using D(5) [OF Some] D(6) [OF Some] f by auto
  have dom': "dom ((open_turns r)(i \<mapsto> f t)) = dom (open_turns r)" using Some by auto
  show ?thesis
    unfolding wf_reducer_def
  proof (intro conjI)
    show "\<forall>j u. open_turns (update_turn r i f) j = Some u \<longrightarrow> turn_id u = j \<and> wf_turn u"
      using D(5) D(6) f Some by (auto simp: update_turn_def)
    show "\<forall>j \<in> set (order (update_turn r i f)) \<union> set (finished (update_turn r i f)).
        unminted (update_turn r i f) j"
      using D(11) D(12) Some by (auto simp: update_turn_def unminted_def)
  qed (use D dom' Some in \<open>auto simp: update_turn_def\<close>)
qed

lemma update_turn_fields [simp]:
  "order (update_turn r i f) = order r" "finished (update_turn r i f) = finished r"
  "newTurnID (update_turn r i f) = newTurnID r" "minted (update_turn r i f) = minted r"
  "settled (update_turn r i f) = settled r" "dom (open_turns (update_turn r i f)) = dom (open_turns r)"
  by (auto simp: update_turn_def split: option.split)

text \<open>Fields the invariant does not read.\<close>

lemma wf_reducer_stops [simp]:
  "wf_reducer ids (r\<lparr>heldStop := a\<rparr>) = wf_reducer ids r"
  "wf_reducer ids (r\<lparr>pendingStop := a\<rparr>) = wf_reducer ids r"
  "wf_reducer ids (r\<lparr>lastError := a\<rparr>) = wf_reducer ids r"
  "wf_reducer ids (r\<lparr>lastDone := b\<rparr>) = wf_reducer ids r"
  "wf_reducer ids (r\<lparr>sessionID := a\<rparr>) = wf_reducer ids r"
  "wf_reducer ids (r\<lparr>runtime := a\<rparr>) = wf_reducer ids r"
  by (simp_all add: wf_reducer_def unminted_def)

lemma noteStop_wf [wf_intros]: "wf_reducer ids r \<Longrightarrow> wf_reducer ids (noteStop r s)"
  by (auto simp: noteStop_def wf_turn_usageStop intro!: update_turn_wf split: option.split)

text \<open>
  The turn a terminal event ends: an open one under its key, or a new one whose id
  was never open and never reported.
\<close>

definition closable :: "reducer \<Rightarrow> turn \<Rightarrow> bool" where
  "closable r t \<longleftrightarrow> wf_turn t \<and> turn_id t \<notin> set (finished r) \<and> unminted r (turn_id t) \<and>
     (open_turns r (turn_id t) = Some t \<or> turn_id t \<notin> dom (open_turns r))"

lemma closable_open:
  assumes wf: "wf_reducer ids r" and t: "open_turns r i = Some t"
  shows "closable r t"
proof -
  note D = wf_reducerD [OF wf]
  have i: "turn_id t = i" "i \<in> set (order r)" using D(4) D(5) [OF t] t by auto
  then show ?thesis using D(6) [OF t] D(9) D(11) t by (auto simp: closable_def)
qed

lemma ending_wf:
  assumes wf: "wf_reducer ids r" and adm: "admissible_id ids i" and e: "ending L r i tm = (r', ot)"
  shows "wf_reducer ids r' \<and> (\<forall>t. ot = Some t \<longrightarrow> closable r' t)"
proof (cases "i = []")
  case True
  show ?thesis
  proof (cases "current r")
    case (Some t)
    then have "closable r t" using closable_open [OF wf] by (auto simp: current_def split: if_splits)
    with True Some e wf show ?thesis by (auto simp: ending_def)
  next
    case None
    obtain j r1 where m: "mint r = (j, r1)" by (cases "mint r")
    note M = mint_wf [OF wf m]
    have "closable (r1\<lparr>pendingStop := [], heldStop := []\<rparr>) ((newTurn j)\<lparr>usageStop := s\<rparr>)" for s
      using M(2,4,5) by (simp add: closable_def unminted_def wf_turn_usageStop wf_turn_newTurn)
    with True None e wf M(1) m show ?thesis by (auto simp: ending_def split: if_splits)
  qed
next
  case False
  show ?thesis
  proof (cases "open_turns r i")
    case (Some t)
    with False e wf closable_open [OF wf Some] show ?thesis by (auto simp: ending_def)
  next
    case None
    have "wasFinished r i \<or> closable r (newTurn i)"
      using None admissible_unminted [OF wf adm False]
      by (auto simp: closable_def wasFinished_def wf_turn_newTurn)
    with False None e wf show ?thesis by (auto simp: ending_def split: if_splits)
  qed
qed

subsection \<open>Closing turns\<close>

interpretation finished_log: bounded_log remember finished finishedMemory
  by unfold_locales (simp add: remember_def)

lemma close_turn_fields [simp]:
  "open_turns (close_turn r t tm s) = (open_turns r)(turn_id t := None)"
  "order (close_turn r t tm s) = remove1 (turn_id t) (order r)"
  "finished (close_turn r t tm s) = finished (remember (turn_id t) r)"
  "newTurnID (close_turn r t tm s) = newTurnID r" "minted (close_turn r t tm s) = minted r"
  "settled (close_turn r t tm s) = (remove1 (turn_id t) (order r) = [])"
  "sessionID (close_turn r t tm s) = sessionID r" "runtime (close_turn r t tm s) = runtime r"
  by (simp_all add: close_turn_def Let_def remember_def)

lemma close_turn_wf:
  assumes wf: "wf_reducer ids r" and t: "closable r t"
  shows "wf_reducer ids (close_turn r t tm s)"
  unfolding wf_reducer_def close_turn_fields
proof (intro conjI)
  note D = wf_reducerD [OF wf]
  let ?i = "turn_id t"
  have fin: "set (finished (remember ?i r)) \<subseteq> insert ?i (set (finished r))"
    using finished_log.items_pushD by fastforce
  have ord: "set (remove1 ?i (order r)) = set (order r) - {?i}" using D(3) by simp
  show "inj ids" "newTurnID r = ids" by (rule D(1), rule D(2))
  show "distinct (remove1 ?i (order r))" using D(3) by simp
  show "set (remove1 ?i (order r)) = dom ((open_turns r)(?i := None))"
    unfolding ord D(4) by simp
  show "\<forall>j u. ((open_turns r)(?i := None)) j = Some u \<longrightarrow> turn_id u = j \<and> wf_turn u"
    using D(5) D(6) by auto
  show "length (remove1 ?i (order r)) \<le> maxOpenTurns" using D(7) by (auto simp: length_remove1)
  show "length (finished (remember ?i r)) \<le> finishedMemory" by (rule finished_log.length_push)
  show "set (remove1 ?i (order r)) \<inter> set (finished (remember ?i r)) = {}"
    using D(9) fin ord by blast
  show "remove1 ?i (order r) = [] \<longrightarrow> remove1 ?i (order r) = []" by simp
  have "unminted (close_turn r t tm s) j = unminted r j" for j by (simp add: unminted_def)
  then show "\<forall>j \<in> set (remove1 ?i (order r)) \<union> set (finished (remember ?i r)).
      unminted (close_turn r t tm s) j"
    using D(11) D(12) t fin unfolding ord by (auto simp: closable_def)
qed

lemma finish_fields:
  assumes "finish L r t tm = (r', out)"
  shows "r' = close_turn r t tm (end_stop t tm)" "TurnID out = turn_id t"
    "SessionID out = sessionID r" "Runtime out = runtime r"
  using assms by (auto simp: finish_def Let_def split: prod.splits)

lemma finish_wf: "wf_reducer ids r \<Longrightarrow> closable r t \<Longrightarrow> wf_reducer ids (fst (finish L r t tm))"
  by (simp add: finish_def Let_def split_def close_turn_wf)

lemma Flush_wf [wf_intros]:
  assumes "wf_reducer ids r"
  shows "wf_reducer ids (fst (Flush L r why))"
proof (cases "current r")
  case None
  with assms show ?thesis by (simp add: Flush_def)
next
  case (Some t)
  then have "closable r t"
    using closable_open [OF assms] by (auto simp: current_def split: if_splits)
  from finish_wf [OF assms this] Some show ?thesis
    by (simp add: Flush_def Let_def split_def)
qed
end
