(* ===== verification/Json.thy ===== *)
theory Json
  imports Go_Strings
begin

text \<open>
  What the program uses of \<open>encoding/json\<close>. A document is its syntax tree; every
  literal and composite keeps the source text it was read from, because the code
  also looks at the bytes of a \<open>json.RawMessage\<close>. Reading bytes into the tree is
  not modelled: an event's payload is \<open>None\<close> where the bytes are no JSON document
  and \<open>Some j\<close> otherwise.

  Decoding follows \<open>json.Unmarshal\<close> into a struct: members are taken in document
  order, a member goes to the field whose name it equals up to case folding, later
  members overwrite earlier ones, \<open>null\<close> leaves a value as it is (and clears a
  pointer), a value of the wrong kind is skipped and makes the whole call report
  an error while the other members are still decoded. A decoder for a value of
  type \<open>'a\<close> is a function from the JSON value and the old value to whether it
  succeeded and the new value.
\<close>

datatype json =
    JNull
  | JBool bool
  | JNum string
  | JStr string string  \<comment> \<open>source literal with its quotes, decoded value\<close>
  | JArr string "json list"
  | JObj string "(string \<times> json) list"

fun json_text :: "json \<Rightarrow> string" where
  "json_text JNull = ''null''"
| "json_text (JBool b) = (if b then ''true'' else ''false'')"
| "json_text (JNum s) = s"
| "json_text (JStr s _) = s"
| "json_text (JArr s _) = s"
| "json_text (JObj s _) = s"

text \<open>A \<open>json.RawMessage\<close>: \<open>None\<close> is the empty message of a field never set.\<close>

type_synonym raw = "json option"

definition raw_text :: "raw \<Rightarrow> string" where
  "raw_text r = (case r of None \<Rightarrow> [] | Some j \<Rightarrow> json_text j)"

type_synonym 'a decoder = "json \<Rightarrow> 'a \<Rightarrow> bool \<times> 'a"

fun dec_string :: "string decoder" where
  "dec_string (JStr _ s) old = (True, s)"
| "dec_string JNull old = (True, old)"
| "dec_string _ old = (False, old)"

fun dec_raw :: "raw decoder" where
  "dec_raw j old = (True, Some j)"

fun dec_bool_ptr :: "bool option decoder" where
  "dec_bool_ptr (JBool b) old = (True, Some b)"
| "dec_bool_ptr JNull old = (True, None)"
| "dec_bool_ptr _ old = (False, Some (case old of None \<Rightarrow> False | Some b \<Rightarrow> b))"

text \<open>
  A field of a struct with state \<open>'r\<close>: its JSON name and the effect of a member on
  the struct.
\<close>

type_synonym 'r field = "string \<times> 'r decoder"

definition field_for :: "'r field list \<Rightarrow> string \<Rightarrow> 'r decoder option" where
  "field_for fs k = map_option snd (find (\<lambda>f. fold_name (fst f) = fold_name k) fs)"

fun dec_members :: "'r field list \<Rightarrow> (string \<times> json) list \<Rightarrow> 'r \<Rightarrow> bool \<times> 'r" where
  "dec_members fs [] r = (True, r)"
| "dec_members fs ((k, v) # ms) r =
     (case field_for fs k of
        None \<Rightarrow> dec_members fs ms r
      | Some d \<Rightarrow>
          (let (ok, r') = d v r; (ok', r'') = dec_members fs ms r' in (ok \<and> ok', r'')))"

fun dec_struct :: "'r field list \<Rightarrow> 'r decoder" where
  "dec_struct fs (JObj _ ms) r = dec_members fs ms r"
| "dec_struct fs JNull r = (True, r)"
| "dec_struct fs _ r = (False, r)"

text \<open>A pointer to a struct: \<open>null\<close> clears it, anything else allocates a zero
  struct where there is none.\<close>

fun dec_struct_ptr :: "'r field list \<Rightarrow> 'r \<Rightarrow> 'r option decoder" where
  "dec_struct_ptr fs zero JNull old = (True, None)"
| "dec_struct_ptr fs zero j old =
     (let (ok, r) = dec_struct fs j (case old of None \<Rightarrow> zero | Some r \<Rightarrow> r) in (ok, Some r))"

text \<open>
  A slice: element \<open>i\<close> is decoded into the old element \<open>i\<close> where there is one (a
  member named twice reuses the slice), else into a zero value.
\<close>

fun dec_elems :: "'a decoder \<Rightarrow> 'a \<Rightarrow> json list \<Rightarrow> 'a list \<Rightarrow> bool \<times> 'a list" where
  "dec_elems d zero [] old = (True, [])"
| "dec_elems d zero (j # js) old =
     (let (ok, x) = d j (case old of [] \<Rightarrow> zero | y # _ \<Rightarrow> y);
          (ok', xs) = dec_elems d zero js (case old of [] \<Rightarrow> [] | _ # ys \<Rightarrow> ys)
      in (ok \<and> ok', x # xs))"

fun dec_slice :: "'a decoder \<Rightarrow> 'a \<Rightarrow> 'a list decoder" where
  "dec_slice d zero (JArr _ js) old = dec_elems d zero js old"
| "dec_slice d zero JNull old = (True, [])"
| "dec_slice d zero _ old = (False, old)"

text \<open>A pointer to any other value, here a slice.\<close>

fun dec_ptr :: "'a decoder \<Rightarrow> 'a \<Rightarrow> 'a option decoder" where
  "dec_ptr d zero JNull old = (True, None)"
| "dec_ptr d zero j old =
     (let (ok, x) = d j (case old of None \<Rightarrow> zero | Some y \<Rightarrow> y) in (ok, Some x))"

text \<open>Embed a decoder of a field's value into the struct that holds the field.\<close>

definition on_field :: "('r \<Rightarrow> 'a) \<Rightarrow> (('a \<Rightarrow> 'a) \<Rightarrow> 'r \<Rightarrow> 'r) \<Rightarrow> 'a decoder \<Rightarrow> 'r decoder" where
  "on_field get upd d j r = (let (ok, x) = d j (get r) in (ok, upd (\<lambda>_. x) r))"

text \<open>\<open>json.Unmarshal\<close> of a payload or raw message: no document, no change.\<close>

definition unmarshal :: "'r decoder \<Rightarrow> raw \<Rightarrow> 'r \<Rightarrow> bool \<times> 'r" where
  "unmarshal d raw zero = (case raw of None \<Rightarrow> (False, zero) | Some j \<Rightarrow> d j zero)"

text \<open>Documents for examples: text of a string literal without escapes.\<close>

abbreviation jstr :: "string \<Rightarrow> json" where
  "jstr s \<equiv> JStr (CHR 0x22 # s @ [CHR 0x22]) s"

abbreviation jobj :: "(string \<times> json) list \<Rightarrow> json" where
  "jobj ms \<equiv> JObj ''{}'' ms"

end
