(* ===== verification/Runtime_Events.thy ===== *)
theory Runtime_Events
  imports Json
begin

text \<open>
  The events the program exchanges with its libraries, as far as it reads them: the
  \<open>runtimeevents\<close> envelope, the typed events of \<open>go-providers\<close>, and the legacy
  stream events of \<open>go-llm-types\<close>. An event kind the code only passes on or ignores
  is \<open>KindOther\<close>.
\<close>

datatype event_kind =
    KindSessionReady
  | KindTurnStarted | KindTurnCompleted | KindTurnFailed
  | KindAgentDelta | KindAgentToolUse | KindAgentToolResult | KindAgentSubagentSpawn
  | KindAgentPermissionRequested | KindAgentPermissionResolved | KindAgentPermissionDenied
  | KindProcessExited
  | KindOther string

record event =
  ev_ID :: string
  ev_ParentID :: string
  ev_Kind :: event_kind
  ev_SessionID :: string
  ev_TurnID :: string
  ev_Provider :: string
  ev_Payload :: raw

text \<open>
  \<open>provider/events.Event\<close>: a tool call's \<open>Args\<close> are given as the JSON they marshal to
  (\<open>None\<close> where they are nil or do not marshal), an error's wrapped cause as its text.
\<close>

datatype provider_event =
    PDelta (p_text: string) (p_block: string) (p_phase: string)
  | PThinking
  | PToolUse string string raw
  | PToolResult string bool
  | PSubagentSpawn
  | PUsage string
  | PPermissionDenied string string string  \<comment> \<open>action, display name, tool use id\<close>
  | PDone string string  \<comment> \<open>stop reason, text\<close>
  | PError string "string option"  \<comment> \<open>message, text of the wrapped error\<close>
  | POther

datatype stream_event =
    SDelta string string string  \<comment> \<open>content, block id, phase\<close>
  | SThinking
  | SToolUse "(string \<times> string \<times> raw) option"  \<comment> \<open>id, name, input\<close>
  | SUsage "string option"  \<comment> \<open>stop reason of the usage block, if there is one\<close>
  | SDone string
  | SError string
  | SOther

end
