(* ===== verification/Feed.thy ===== *)
theory Feed
  imports Reducer Runtime_Events
begin

text \<open>
  The three feeds of the reducer, \<open>turnoutput/feed.go\<close>: \<open>Observe\<close> takes runtime
  envelopes, \<open>ObserveProvider\<close> typed provider events and \<open>ObserveStream\<close> legacy
  stream events. Each payload struct the Go code declares inline is a record with its
  list of JSON fields.
\<close>

subsection \<open>Reading payloads\<close>

definition isThought :: "string \<Rightarrow> bool" where
  "isThought phase = (ToLower phase \<in> {''thought'', ''thinking''})"

definition isFinalPhase :: "string \<Rightarrow> bool" where
  "isFinalPhase phase = (ToLower phase \<in> {''final'', ''final_answer''})"

definition truthy :: "raw \<Rightarrow> bool" where
  "truthy x = (TrimSpace (raw_text x) \<notin> {[], ''null'', ''false''})"

fun firstNonEmpty :: "string list \<Rightarrow> string" where
  "firstNonEmpty [] = []"
| "firstNonEmpty (s # ss) = (if s \<noteq> [] then s else firstNonEmpty ss)"

definition idKey :: "raw \<Rightarrow> string" where
  "idKey x = Trim_char (CHR 0x22) (TrimSpace (raw_text x))"

definition isQuestionMethod :: "string \<Rightarrow> bool" where
  "isQuestionMethod m = HasSuffix (ToLower m) ''requestuserinput''"

record question_item =
  qi_question :: string
  qi_text :: string
  qi_header :: string

definition question_item_fields :: "question_item field list" where
  "question_item_fields =
     [(''question'', on_field qi_question qi_question_update dec_string),
      (''text'', on_field qi_text qi_text_update dec_string),
      (''header'', on_field qi_header qi_header_update dec_string)]"

definition no_question_item :: question_item where
  "no_question_item = \<lparr>qi_question = [], qi_text = [], qi_header = []\<rparr>"

record question_input =
  qn_questions :: "question_item list"
  qn_question :: string
  qn_prompt :: string

definition question_input_fields :: "question_input field list" where
  "question_input_fields =
     [(''questions'', on_field qn_questions qn_questions_update
        (dec_slice (dec_struct question_item_fields) no_question_item)),
      (''question'', on_field qn_question qn_question_update dec_string),
      (''prompt'', on_field qn_prompt qn_prompt_update dec_string)]"

definition questionText :: "raw \<Rightarrow> string" where
  "questionText x =
     (let (ok, p) = unmarshal (dec_struct question_input_fields) x
                      \<lparr>qn_questions = [], qn_question = [], qn_prompt = []\<rparr>;
          lines = filter (\<lambda>s. s \<noteq> [])
            (map (\<lambda>q. firstNonEmpty [qi_question q, qi_text q, qi_header q]) (qn_questions p))
      in if \<not> ok then []
         else if lines \<noteq> [] then Join lines [CHR 0x0A]
         else firstNonEmpty [qn_question p, qn_prompt p])"

record request_params =
  rp_title :: string
  rp_command :: raw
  rp_reason :: string

text \<open>The nested struct \<open>ToolCall struct {Title}\<close> is held as its one field.\<close>

definition request_params_fields :: "request_params field list" where
  "request_params_fields =
     [(''toolCall'', dec_struct [(''title'', on_field rp_title rp_title_update dec_string)]),
      (''command'', on_field rp_command rp_command_update dec_raw),
      (''reason'', on_field rp_reason rp_reason_update dec_string)]"

definition describeRequest :: "string \<Rightarrow> raw \<Rightarrow> string" where
  "describeRequest m params =
     (let (ok, p) = unmarshal (dec_struct request_params_fields) params
                      \<lparr>rp_title = [], rp_command = None, rp_reason = []\<rparr>;
          (cmd_ok, cmd) = unmarshal dec_string (rp_command p) [];
          (argv_ok, argv) = unmarshal (dec_slice dec_string []) (rp_command p) [];
          fallback = (if m \<noteq> [] then m else ''an action'')
      in if \<not> ok then fallback
         else if rp_title p \<noteq> [] then rp_title p
         else if cmd_ok \<and> cmd \<noteq> [] then cmd
         else if argv_ok \<and> argv \<noteq> [] then Join argv '' ''
         else if rp_reason p \<noteq> [] then rp_reason p
         else fallback)"

definition permissionDeniedText :: "string \<Rightarrow> string \<Rightarrow> string" where
  "permissionDeniedText action displayName =
     (let what = firstNonEmpty [displayName, action]
      in ''Permission denied: '' @ (if what = [] then ''an action'' else what))"

record denied_payload =
  dn_action :: string
  dn_display_name :: string
  dn_tool_use_id :: string

definition denied_payload_fields :: "denied_payload field list" where
  "denied_payload_fields =
     [(''action'', on_field dn_action dn_action_update dec_string),
      (''display_name'', on_field dn_display_name dn_display_name_update dec_string),
      (''tool_use_id'', on_field dn_tool_use_id dn_tool_use_id_update dec_string)]"

definition permissionDenied :: "raw \<Rightarrow> string \<times> string" where
  "permissionDenied payload =
     (let p = snd (unmarshal (dec_struct denied_payload_fields) payload
                \<lparr>dn_action = [], dn_display_name = [], dn_tool_use_id = []\<rparr>)
      in (permissionDeniedText (dn_action p) (dn_display_name p), dn_tool_use_id p))"

record result_item =
  ri_id :: string
  ri_is_error :: "bool option"
  ri_status :: string

definition result_item_fields :: "string \<Rightarrow> result_item field list" where
  "result_item_fields id_name =
     [(id_name, on_field ri_id ri_id_update dec_string),
      (''is_error'', on_field ri_is_error ri_is_error_update dec_bool_ptr),
      (''status'', on_field ri_status ri_status_update dec_string)]"

definition no_result_item :: result_item where
  "no_result_item = \<lparr>ri_id = [], ri_is_error = None, ri_status = []\<rparr>"

text \<open>The payload holds the flat fields and, in \<open>rs_nested\<close>, the nested result.\<close>

record result_payload = result_item +
  rs_nested :: "result_item option"

definition result_payload_fields :: "result_payload field list" where
  "result_payload_fields =
     [(''tool_result'', on_field rs_nested rs_nested_update
        (dec_struct_ptr (result_item_fields ''id'') no_result_item)),
      (''tool_call_id'', on_field ri_id ri_id_update dec_string),
      (''is_error'', on_field ri_is_error ri_is_error_update dec_bool_ptr),
      (''status'', on_field ri_status ri_status_update dec_string)]"

text \<open>The call's id, whether it failed, and whether this is its result at all.\<close>

definition toolResultOutcome :: "raw \<Rightarrow> string \<times> bool \<times> bool" where
  "toolResultOutcome payload =
     (let (ok, p) = unmarshal (dec_struct result_payload_fields) payload
                      (result_item.extend no_result_item \<lparr>rs_nested = None\<rparr>);
          q = (case rs_nested p of None \<Rightarrow> result_item.truncate p | Some n \<Rightarrow> n)
      in if \<not> ok then ([], False, False)
         else case ri_is_error q of
                Some flag \<Rightarrow> (ri_id q, flag, True)
              | None \<Rightarrow>
                  if ri_status q = ''failed'' then (ri_id q, True, True)
                  else if ri_status q = ''completed'' then (ri_id q, False, True)
                  else (ri_id q, False, False))"


record delta_payload =
  dl_content :: string
  dl_text :: string
  dl_phase :: string
  dl_block_id :: string
  dl_thinking :: raw

definition delta_payload_fields :: "delta_payload field list" where
  "delta_payload_fields =
     [(''content'', on_field dl_content dl_content_update dec_string),
      (''text'', on_field dl_text dl_text_update dec_string),
      (''phase'', on_field dl_phase dl_phase_update dec_string),
      (''block_id'', on_field dl_block_id dl_block_id_update dec_string),
      (''thinking'', on_field dl_thinking dl_thinking_update dec_raw)]"

definition no_delta_payload :: delta_payload where
  "no_delta_payload = \<lparr>dl_content = [], dl_text = [], dl_phase = [], dl_block_id = [],
     dl_thinking = None\<rparr>"

record tool_item =
  ti_id :: string
  ti_name :: string
  ti_input :: raw

definition tool_item_fields :: "tool_item field list" where
  "tool_item_fields =
     [(''id'', on_field ti_id ti_id_update dec_string),
      (''name'', on_field ti_name ti_name_update dec_string),
      (''input'', on_field ti_input ti_input_update dec_raw)]"

record tool_payload =
  tp_tool_use :: "tool_item option"
  tp_tool_call_id :: string
  tp_name :: string
  tp_title :: string
  tp_raw_input :: raw

definition tool_payload_fields :: "tool_payload field list" where
  "tool_payload_fields =
     [(''tool_use'', on_field tp_tool_use tp_tool_use_update
        (dec_struct_ptr tool_item_fields \<lparr>ti_id = [], ti_name = [], ti_input = None\<rparr>)),
      (''tool_call_id'', on_field tp_tool_call_id tp_tool_call_id_update dec_string),
      (''name'', on_field tp_name tp_name_update dec_string),
      (''title'', on_field tp_title tp_title_update dec_string),
      (''raw_input'', on_field tp_raw_input tp_raw_input_update dec_raw)]"

definition no_tool_payload :: tool_payload where
  "no_tool_payload = \<lparr>tp_tool_use = None, tp_tool_call_id = [], tp_name = [], tp_title = [],
     tp_raw_input = None\<rparr>"

record permission_payload =
  pm_request_id :: raw
  pm_method :: string
  pm_params :: raw
  pm_allowed :: "bool option"

definition requested_fields :: "permission_payload field list" where
  "requested_fields =
     [(''request_id'', on_field pm_request_id pm_request_id_update dec_raw),
      (''method'', on_field pm_method pm_method_update dec_string),
      (''params'', on_field pm_params pm_params_update dec_raw)]"

definition resolved_fields :: "permission_payload field list" where
  "resolved_fields =
     [(''request_id'', on_field pm_request_id pm_request_id_update dec_raw),
      (''method'', on_field pm_method pm_method_update dec_string),
      (''allowed'', on_field pm_allowed pm_allowed_update dec_bool_ptr)]"

definition no_permission_payload :: permission_payload where
  "no_permission_payload = \<lparr>pm_request_id = None, pm_method = [], pm_params = None,
     pm_allowed = None\<rparr>"

record end_payload =
  en_text :: string
  en_error :: string
  en_message :: string
  en_reason :: string
  en_stop_reason :: string

definition end_payload_fields :: "end_payload field list" where
  "end_payload_fields =
     [(''text'', on_field en_text en_text_update dec_string),
      (''error'', on_field en_error en_error_update dec_string),
      (''message'', on_field en_message en_message_update dec_string),
      (''reason'', on_field en_reason en_reason_update dec_string),
      (''stop_reason'', on_field en_stop_reason en_stop_reason_update dec_string)]"

definition no_end_payload :: end_payload where
  "no_end_payload = \<lparr>en_text = [], en_error = [], en_message = [], en_reason = [],
     en_stop_reason = []\<rparr>"

definition exit_error :: "raw \<Rightarrow> string" where
  "exit_error payload = snd (unmarshal
     (dec_struct [(''error'', \<lambda>j s. dec_string j s)]) payload [])"

subsection \<open>What an event does to its turn\<close>

text \<open>\<open>toolUse\<close>: note a tool call; a question tool raises a question.\<close>

definition toolUse :: "string set \<Rightarrow> turn \<Rightarrow> string \<Rightarrow> string \<Rightarrow> raw \<Rightarrow> turn" where
  "toolUse qs t i name input =
     (let isQuestion = (question_key name \<in> qs); (t1, idx) = addTool t i isQuestion
      in if isQuestion then raiseQuestion t1 (questionText input) idx else t1)"

definition on_delta :: "raw \<Rightarrow> turn \<Rightarrow> turn" where
  "on_delta payload t =
     (let (ok, p) = unmarshal (dec_struct delta_payload_fields) payload no_delta_payload
      in if \<not> ok \<or> isThought (dl_phase p) \<or> truthy (dl_thinking p) then t
         else addDelta t (if dl_content p = [] then dl_text p else dl_content p)
                (dl_block_id p) (isFinalPhase (dl_phase p)))"

definition on_tool_use :: "string set \<Rightarrow> raw \<Rightarrow> turn \<Rightarrow> turn" where
  "on_tool_use qs payload t =
     (let t1 = boundary t;
          (ok, p) = unmarshal (dec_struct tool_payload_fields) payload no_tool_payload;
          (i, name, input) = (case tp_tool_use p of
              Some u \<Rightarrow> (ti_id u, ti_name u, ti_input u)
            | None \<Rightarrow> (tp_tool_call_id p, tp_name p, tp_raw_input p))
      in if \<not> ok then t1
         else toolUse qs t1 i (if name = [] then tp_title p else name) input)"

definition on_tool_result :: "raw \<Rightarrow> turn \<Rightarrow> turn" where
  "on_tool_result payload t =
     (let t1 = boundary t; (i, isErr, is_final) = toolResultOutcome payload
      in if is_final then toolResult t1 i isErr else t1)"

definition on_permission_requested :: "string \<Rightarrow> raw \<Rightarrow> turn \<Rightarrow> turn" where
  "on_permission_requested event_id payload t =
     (let t1 = boundary t;
          (ok, p) = unmarshal (dec_struct requested_fields) payload no_permission_payload
      in if \<not> ok then t1
         else if isQuestionMethod (pm_method p)
         then raiseRequestedQuestion t1 (questionText (pm_params p))
         else request t1 [event_id, idKey (pm_request_id p)]
                (''Approval requested: '' @ describeRequest (pm_method p) (pm_params p)))"

definition on_permission_resolved :: "string \<Rightarrow> raw \<Rightarrow> turn \<Rightarrow> turn" where
  "on_permission_resolved parent_id payload t =
     (let t1 = boundary t;
          (ok, p) = unmarshal (dec_struct resolved_fields) payload no_permission_payload;
          allowed = (case pm_allowed p of Some b \<Rightarrow> b | None \<Rightarrow> False)
      in if \<not> ok \<or> isQuestionMethod (pm_method p) then t1
         else resolve t1 [parent_id, idKey (pm_request_id p)] allowed
                (''Approval refused: '' @ describeRequest (pm_method p) None))"

definition on_permission_denied :: "raw \<Rightarrow> turn \<Rightarrow> turn" where
  "on_permission_denied payload t =
     (let (s, i) = permissionDenied payload in raiseApproval (boundary t) s i)"

subsection \<open>The feeds\<close>

text \<open>Let an event act on the turn it belongs to.\<close>

definition in_body :: "reducer \<Rightarrow> string \<Rightarrow> (turn \<Rightarrow> turn) \<Rightarrow> reducer" where
  "in_body r i f =
     (let (r1, key) = body r i in case key of None \<Rightarrow> r1 | Some k \<Rightarrow> update_turn r1 k f)"

definition end_turn :: "stop_words \<Rightarrow> reducer \<Rightarrow> string \<Rightarrow> terminal \<Rightarrow> reducer \<times> turn_output option" where
  "end_turn L r i tm =
     (let (r1, ot) = ending L r i tm
      in case ot of
           None \<Rightarrow> (r1, None)
         | Some t \<Rightarrow> (let (r2, out) = finish L r1 t tm in (r2, Some out)))"

definition terminal_of :: "bool \<Rightarrow> raw \<Rightarrow> terminal" where
  "terminal_of is_failed payload =
     (let p = snd (unmarshal (dec_struct end_payload_fields) payload no_end_payload)
      in \<lparr>failed = is_failed, errText = firstNonEmpty [en_error p, en_message p], cut = False,
          reason = en_reason p, term_stop = en_stop_reason p, term_text = en_text p\<rparr>)"

definition identify :: "reducer \<Rightarrow> event \<Rightarrow> reducer" where
  "identify r ev =
     r\<lparr>sessionID := (if sessionID r = [] then ev_SessionID ev else sessionID r),
       runtime := (if runtime r = [] then ev_Provider ev else runtime r)\<rparr>"

definition Observe :: "stop_words \<Rightarrow> reducer \<Rightarrow> event \<Rightarrow> reducer \<times> turn_output option" where
  "Observe L r0 ev =
     (let r = identify r0 ev; i = ev_TurnID ev; p = ev_Payload ev in
      case ev_Kind ev of
        KindTurnStarted \<Rightarrow> (if i \<noteq> [] then fst (body r i) else r, None)
      | KindAgentDelta \<Rightarrow> (in_body r i (on_delta p), None)
      | KindAgentToolUse \<Rightarrow> (in_body r i (on_tool_use (questions r) p), None)
      | KindAgentToolResult \<Rightarrow> (in_body r i (on_tool_result p), None)
      | KindAgentSubagentSpawn \<Rightarrow> (in_body r i boundary, None)
      | KindAgentPermissionRequested \<Rightarrow> (in_body r i (on_permission_requested (ev_ID ev) p), None)
      | KindAgentPermissionResolved \<Rightarrow>
          (in_body r i (on_permission_resolved (ev_ParentID ev) p), None)
      | KindAgentPermissionDenied \<Rightarrow> (in_body r i (on_permission_denied p), None)
      | KindTurnCompleted \<Rightarrow> end_turn L r i (terminal_of False p)
      | KindTurnFailed \<Rightarrow> end_turn L r i (terminal_of True p)
      | KindProcessExited \<Rightarrow>
          (case current r of
             None \<Rightarrow> (r, None)
           | Some t \<Rightarrow>
               (let (r', out) = finish L r t (no_terminal\<lparr>failed := True,
                      reason := reasonProcessExited, errText := exit_error p\<rparr>)
                in (r', Some out)))
      | KindSessionReady \<Rightarrow> (r, None)
      | KindOther _ \<Rightarrow> (r, None))"

fun ObserveProvider :: "stop_words \<Rightarrow> reducer \<Rightarrow> provider_event \<Rightarrow> reducer \<times> turn_output option" where
  "ObserveProvider L r (PDelta txt blk phase) =
     (in_body r [] (\<lambda>t. if isThought phase then t else addDelta t txt blk (isFinalPhase phase)), None)"
| "ObserveProvider L r PThinking = (fst (body r []), None)"
| "ObserveProvider L r (PToolUse i name args) =
     (in_body r [] (\<lambda>t. toolUse (questions r) (boundary t) i name args), None)"
| "ObserveProvider L r (PToolResult i isErr) =
     (in_body r [] (\<lambda>t. toolResult (boundary t) i isErr), None)"
| "ObserveProvider L r PSubagentSpawn = (in_body r [] boundary, None)"
| "ObserveProvider L r (PUsage stop) = (noteStop r stop, None)"
| "ObserveProvider L r (PPermissionDenied action display i) =
     (in_body r [] (\<lambda>t. raiseApproval (boundary t) (permissionDeniedText action display) i), None)"
| "ObserveProvider L r (PDone stop txt) =
     end_turn L r [] (no_terminal\<lparr>term_stop := stop, term_text := txt\<rparr>)"
| "ObserveProvider L r (PError msg err) =
     end_turn L r [] (no_terminal\<lparr>failed := True, errText :=
       (if msg = [] then (case err of Some e \<Rightarrow> e | None \<Rightarrow> []) else msg)\<rparr>)"
| "ObserveProvider L r POther = (r, None)"

fun ObserveStream :: "stop_words \<Rightarrow> reducer \<Rightarrow> stream_event \<Rightarrow> reducer \<times> turn_output option" where
  "ObserveStream L r (SDelta txt blk phase) =
     (in_body r [] (\<lambda>t. if isThought phase then t else addDelta t txt blk (isFinalPhase phase)), None)"
| "ObserveStream L r SThinking = (fst (body r []), None)"
| "ObserveStream L r (SToolUse tu) =
     (in_body r [] (\<lambda>t. case tu of
          None \<Rightarrow> boundary t
        | Some (i, name, input) \<Rightarrow> toolUse (questions r) (boundary t) i name input), None)"
| "ObserveStream L r (SUsage stop) =
     (case stop of
        None \<Rightarrow> (r, None)
      | Some s \<Rightarrow> (if s \<noteq> [] then noteStop r (NormalizeStopReason L s) else r, None))"
| "ObserveStream L r (SDone txt) = end_turn L r [] (no_terminal\<lparr>term_text := txt\<rparr>)"
| "ObserveStream L r (SError err) =
     end_turn L r [] (no_terminal\<lparr>failed := True, errText := err\<rparr>)"
| "ObserveStream L r SOther = (r, None)"


subsection \<open>Every event keeps the reducer well formed\<close>

definition keeps_turn :: "(turn \<Rightarrow> turn) \<Rightarrow> bool" where
  "keeps_turn f \<longleftrightarrow> (\<forall>t. wf_turn t \<longrightarrow> wf_turn (f t) \<and> turn_id (f t) = turn_id t)"

lemma keeps_turnI:
  "(\<And>t. wf_turn t \<Longrightarrow> wf_turn (f t)) \<Longrightarrow> (\<And>t. turn_id (f t) = turn_id t) \<Longrightarrow> keeps_turn f"
  by (simp add: keeps_turn_def)

lemma toolUse_keeps: "wf_turn t \<Longrightarrow> wf_turn (toolUse qs t i name input)"
  "turn_id (toolUse qs t i name input) = turn_id t"
  by (simp_all add: toolUse_def Let_def split_def wf_turn_ops)

lemma on_event_keeps [wf_intros]:
  "keeps_turn (on_delta p)" "keeps_turn (on_tool_use qs p)" "keeps_turn (on_tool_result p)"
  "keeps_turn (on_permission_requested e p)" "keeps_turn (on_permission_resolved e p)"
  "keeps_turn (on_permission_denied p)" "keeps_turn boundary"
  unfolding on_delta_def on_tool_use_def on_tool_result_def on_permission_requested_def
    on_permission_resolved_def on_permission_denied_def Let_def
  by (rule keeps_turnI; auto simp: wf_turn_text_ops wf_turn_ops toolUse_keeps split: prod.split)+

lemma provider_keeps [wf_intros]:
  "keeps_turn (\<lambda>t. if isThought phase then t else addDelta t txt blk final)"
  "keeps_turn (\<lambda>t. toolUse qs (boundary t) i name args)"
  "keeps_turn (\<lambda>t. toolResult (boundary t) i e)"
  "keeps_turn (\<lambda>t. raiseApproval (boundary t) s i)"
  "keeps_turn (\<lambda>t. case tu of None \<Rightarrow> boundary t
     | Some (i, name, input) \<Rightarrow> toolUse qs (boundary t) i name input)"
  by (rule keeps_turnI; auto simp: wf_turn_text_ops wf_turn_ops toolUse_keeps
      split: option.split prod.split)+

lemma in_body_wf:
  assumes "wf_reducer ids r" and "admissible_id ids i" and "keeps_turn f"
  shows "wf_reducer ids (in_body r i f)"
  using body_wf [OF assms(1,2)] assms(3)
  by (auto simp: in_body_def keeps_turn_def split_def Let_def split: option.split
      intro!: update_turn_wf)

lemma end_turn_wf:
  assumes "wf_reducer ids r" and "admissible_id ids i"
  shows "wf_reducer ids (fst (end_turn L r i tm))"
proof -
  obtain r1 ot where e: "ending L r i tm = (r1, ot)" by (cases "ending L r i tm")
  from ending_wf [OF assms e] show ?thesis
    using finish_wf [of ids r1 _ L tm]
    by (auto simp: end_turn_def e split_def Let_def split: option.split)
qed

lemma identify_wf [simp]: "wf_reducer ids (identify r ev) = wf_reducer ids r"
  by (simp add: identify_def)

lemma Observe_wf:
  assumes wf: "wf_reducer ids r" and adm: "admissible_id ids (ev_TurnID ev)"
  shows "wf_reducer ids (fst (Observe L r ev))"
proof -
  have i: "wf_reducer ids (identify r ev)" using wf by simp
  note B = in_body_wf [OF i adm] and E = end_turn_wf [OF i adm]
  show ?thesis
  proof (cases "ev_Kind ev")
    case KindProcessExited
    have "closable (identify r ev) t" if "current (identify r ev) = Some t" for t
      using that closable_open [OF i] by (auto simp: current_def split: if_splits)
    with KindProcessExited i finish_wf [OF i] show ?thesis
      by (auto simp: Observe_def Let_def split_def split: option.split)
  next
    case KindTurnStarted
    with i body_wf [OF i adm] show ?thesis by (simp add: Observe_def Let_def)
  qed (use i B E in \<open>simp_all add: Observe_def Let_def wf_intros\<close>)
qed

lemma admissible_Nil [simp]: "admissible_id ids []"
  by (simp add: admissible_id_def)

lemma ObserveProvider_wf: "wf_reducer ids r \<Longrightarrow> wf_reducer ids (fst (ObserveProvider L r ev))"
  using body_wf [of ids r "[]"]
  by (cases ev) (simp_all add: wf_intros in_body_wf end_turn_wf)

lemma ObserveStream_wf: "wf_reducer ids r \<Longrightarrow> wf_reducer ids (fst (ObserveStream L r ev))"
  using body_wf [of ids r "[]"]
  by (cases ev) (simp_all add: wf_intros in_body_wf end_turn_wf split: option.split)

text \<open>A host may mix the feeds and flush; one event type for all of them.\<close>

datatype feed_event = Envelope event | Provider provider_event | Stream stream_event | Flushed string

fun feed :: "stop_words \<Rightarrow> reducer \<Rightarrow> feed_event \<Rightarrow> reducer \<times> turn_output option" where
  "feed L r (Envelope ev) = Observe L r ev"
| "feed L r (Provider ev) = ObserveProvider L r ev"
| "feed L r (Stream ev) = ObserveStream L r ev"
| "feed L r (Flushed why) = Flush L r why"

fun admissible_event :: "(nat \<Rightarrow> string) \<Rightarrow> feed_event \<Rightarrow> bool" where
  "admissible_event ids (Envelope ev) = admissible_id ids (ev_TurnID ev)"
| "admissible_event ids _ = True"

interpretation session: observing_machine "feed L" "wf_reducer ids" "admissible_event ids" for L ids
proof
  fix r e
  assume "wf_reducer ids r" and "admissible_event ids e"
  then show "wf_reducer ids (fst (feed L r e))"
    by (cases e) (simp_all add: Observe_wf ObserveProvider_wf ObserveStream_wf Flush_wf)
qed

lemma NewReducer_wf:
  assumes "inj (case cfg_NewTurnID cfg of None \<Rightarrow> default_ids | Some f \<Rightarrow> f)"
  shows "wf_reducer (case cfg_NewTurnID cfg of None \<Rightarrow> default_ids | Some f \<Rightarrow> f)
           (NewReducer default_ids cfg)"
  using assms by (simp add: wf_reducer_def NewReducer_def)
end
