(* ===== verification/Turn_Properties.thy ===== *)
theory Turn_Properties
  imports Feed
begin

text \<open>
  The properties of package \<open>turnoutput\<close>, each with a concrete instance. The
  instances use a reducer whose turn ids are strings of \<open>x\<close> of growing length and the
  stop reasons \<open>cancelled\<close> and \<open>error\<close>.
\<close>

subsection \<open>Lemmas on one step\<close>

lemma finish_finished:
  "finish L r t tm = (r', out) \<Longrightarrow> finished r' = keep_last finishedMemory (finished r @ [TurnID out])"
  using finish_fields [of L r t tm r' out] by (simp add: finished_log.items_push)

lemma body_finished [simp]: "finished (fst (body r i)) = finished r"
  by (auto simp: body_def mint_def Let_def split: option.split)

lemma in_body_finished [simp]: "finished (in_body r i f) = finished r"
  using body_finished [of r i] by (auto simp: in_body_def split_def Let_def split: option.split)

lemma ending_finished: "ending L r i tm = (r', ot) \<Longrightarrow> finished r' = finished r"
  by (auto simp: ending_def mint_def Let_def split: if_splits option.splits)

lemma noteStop_finished [simp]: "finished (noteStop r s) = finished r"
  by (simp add: noteStop_def split: option.split)

lemma identify_fields [simp]:
  "finished (identify r ev) = finished r" "open_turns (identify r ev) = open_turns r"
  "order (identify r ev) = order r" "settled (identify r ev) = settled r"
  by (simp_all add: identify_def)

lemma wasFinished_identify [simp]: "wasFinished (identify r ev) i = wasFinished r i"
  by (simp add: wasFinished_def)

text \<open>A step reports a turn exactly where it adds the turn's id to the memory, and the
  id was not there.\<close>

definition step_reports :: "reducer \<Rightarrow> reducer \<Rightarrow> turn_output option \<Rightarrow> bool" where
  "step_reports r r' ot \<longleftrightarrow>
     (case ot of
        None \<Rightarrow> finished r' = finished r
      | Some out \<Rightarrow> finished r' = keep_last finishedMemory (finished r @ [TurnID out]) \<and>
                    TurnID out \<notin> set (finished r))"

lemma step_reports_identify [simp]:
  "step_reports (identify r ev) r' ot = step_reports r r' ot"
  by (simp add: step_reports_def split: option.split)

lemma finish_reports:
  assumes "closable r1 t" and "finished r1 = finished r" and "finish L r1 t tm = (r', out)"
  shows "step_reports r r' (Some out)"
  using finish_finished [OF assms(3)] finish_fields(2) [OF assms(3)] assms(1,2)
  by (simp add: step_reports_def closable_def)

lemma finish_now_reports:
  "closable r t \<Longrightarrow> step_reports r (fst (finish L r t tm)) (Some (snd (finish L r t tm)))"
  by (rule finish_reports [OF _ refl]) simp_all

lemma end_turn_reports:
  assumes "wf_reducer ids r" and "admissible_id ids i" and "end_turn L r i tm = (r', ot)"
  shows "step_reports r r' ot"
proof -
  obtain r1 ou where e: "ending L r i tm = (r1, ou)" by (cases "ending L r i tm")
  show ?thesis
  proof (cases ou)
    case None
    with e assms(3) ending_finished [OF e] show ?thesis
      by (simp add: end_turn_def step_reports_def)
  next
    case (Some t)
    obtain r2 out where f: "finish L r1 t tm = (r2, out)" by (cases "finish L r1 t tm")
    have "closable r1 t" using ending_wf [OF assms(1,2) e] Some by simp
    from finish_reports [OF this ending_finished [OF e] f] assms(3) e Some f
    show ?thesis by (simp add: end_turn_def)
  qed
qed

lemma current_closable:
  assumes "wf_reducer ids r" and "current r = Some t"
  shows "closable r t"
  using closable_open [OF assms(1)] assms(2) by (auto simp: current_def split: if_splits)

lemma Observe_reports:
  assumes wf: "wf_reducer ids r" and adm: "admissible_id ids (ev_TurnID ev)"
    and step: "Observe L r ev = (r', ot)"
  shows "step_reports r r' ot"
proof -
  have i: "wf_reducer ids (identify r ev)" using wf by simp
  have end': "end_turn L (identify r ev) (ev_TurnID ev) tm = (r', ot) \<Longrightarrow> ?thesis" for tm
    using end_turn_reports [OF i adm] step_reports_identify by blast
  show ?thesis
  proof (cases "ev_Kind ev")
    case KindProcessExited
    show ?thesis
    proof (cases "current (identify r ev)")
      case None
      with KindProcessExited step show ?thesis
        by (auto simp: Observe_def Let_def step_reports_def)
    next
      case (Some t)
      from finish_now_reports [OF current_closable [OF i Some]] KindProcessExited step Some
      show ?thesis by (auto simp: Observe_def Let_def split_def)
    qed
  next
    case KindTurnCompleted
    with step show ?thesis by (intro end' [of "terminal_of False (ev_Payload ev)"]) (simp add: Observe_def Let_def)
  next
    case KindTurnFailed
    with step show ?thesis by (intro end' [of "terminal_of True (ev_Payload ev)"]) (simp add: Observe_def Let_def)
  qed (use step in \<open>auto simp: Observe_def Let_def step_reports_def\<close>)
qed

lemma feed_reports:
  assumes wf: "wf_reducer ids r" and adm: "admissible_event ids e" and step: "feed L r e = (r', ot)"
  shows "step_reports r r' ot"
proof (cases e)
  case (Envelope ev)
  with assms Observe_reports show ?thesis by simp
next
  case (Provider ev)
  with step end_turn_reports [OF wf admissible_Nil] show ?thesis
    by (cases ev) (auto simp: step_reports_def)
next
  case (Stream ev)
  with step end_turn_reports [OF wf admissible_Nil] show ?thesis
    by (cases ev) (auto simp: step_reports_def split: option.splits if_splits)
next
  case (Flushed why)
  show ?thesis
  proof (cases "current r")
    case None
    with step Flushed show ?thesis by (auto simp: Flush_def step_reports_def)
  next
    case (Some t)
    from finish_now_reports [OF current_closable [OF wf Some]] step Flushed Some
    show ?thesis by (auto simp: Flush_def Let_def split_def)
  qed
qed


lemma feed_run_wf:
  assumes "inj (case cfg_NewTurnID cfg of None \<Rightarrow> dflt | Some f \<Rightarrow> f)"
    and "list_all (admissible_event (case cfg_NewTurnID cfg of None \<Rightarrow> dflt | Some f \<Rightarrow> f)) es"
  shows "wf_reducer (case cfg_NewTurnID cfg of None \<Rightarrow> dflt | Some f \<Rightarrow> f)
           (fst (run (feed L) (NewReducer dflt cfg) es))"
  by (rule session.run_invariant [OF NewReducer_wf [OF assms(1)] assms(2)])

text \<open>
  Over a run, an id stays remembered while it is followed by fewer than
  \<open>finishedMemory\<close> later ids.
\<close>

lemma run_avoids_finished:
  assumes "wf_reducer ids r" and "list_all (admissible_event ids) es"
    and "run (feed L) r es = (r', outs)" and "finished r = us @ i # vs"
    and "length vs + length outs \<le> finishedMemory"
  shows "i \<notin> TurnID ` set outs"
  using assms
proof (induction es arbitrary: r outs us vs)
  case Nil
  then show ?case by simp
next
  case (Cons e es)
  obtain r1 ot where step: "feed L r e = (r1, ot)" by (cases "feed L r e")
  obtain outs1 where rest: "run (feed L) r1 es = (r', outs1)"
    and outs: "outs = (case ot of None \<Rightarrow> outs1 | Some x \<Rightarrow> x # outs1)"
    using Cons.prems(3) step by (cases "run (feed L) r1 es") (auto simp: Let_def)
  have wf1: "wf_reducer ids r1"
    using session.step_invariant [OF Cons.prems(1), of e L] Cons.prems(2) step by simp
  have adm: "list_all (admissible_event ids) es" using Cons.prems(2) by simp
  have rep: "step_reports r r1 ot"
    by (rule feed_reports [OF Cons.prems(1) _ step]) (use Cons.prems(2) in simp)
  show ?case
  proof (cases ot)
    case None
    with rep Cons.prems(4) have "finished r1 = us @ i # vs" by (simp add: step_reports_def)
    from Cons.IH [OF wf1 adm rest this] None outs Cons.prems(5) show ?thesis by simp
  next
    case (Some out)
    with rep have fin: "finished r1 = keep_last finishedMemory (finished r @ [TurnID out])"
      and new: "TurnID out \<notin> set (finished r)" by (simp_all add: step_reports_def)
    show ?thesis
    proof (cases "length vs + 2 \<le> finishedMemory")
      case True
      then have "finished r1 = keep_last (finishedMemory - (length vs + 2)) us @ i # (vs @ [TurnID out])"
        using fin Cons.prems(4) keep_last_append_lt [of "i # vs @ [TurnID out]" finishedMemory us]
        by simp
      from Cons.IH [OF wf1 adm rest this] Some outs Cons.prems(4,5) new show ?thesis by auto
    next
      case False
      with Some outs Cons.prems(5) have "outs1 = []" by (cases outs1) auto
      with Some outs Cons.prems(4) new show ?thesis by auto
    qed
  qed
qed

subsection \<open>Example session\<close>

definition ex_stops :: stop_words where
  "ex_stops = \<lparr>stopCancelled = ''cancelled'', stopError = ''error'',
     NormalizeStopReason = (\<lambda>s. s)\<rparr>"

definition ex_ids :: "nat \<Rightarrow> string" where
  "ex_ids n = replicate n (CHR ''x'')"

definition ex_config :: config where
  "ex_config = \<lparr>cfg_SessionID = ''s'', cfg_Runtime = ''claude'', cfg_NewTurnID = None,
     cfg_QuestionTools = Some [''Ask'']\<rparr>"

definition ex_reducer :: reducer where
  "ex_reducer = NewReducer ex_ids ex_config"

lemma inj_ex_ids: "inj ex_ids"
  by (auto simp: inj_def ex_ids_def)

lemma ex_reducer_wf: "wf_reducer ex_ids ex_reducer"
  using NewReducer_wf [where cfg = ex_config and default_ids = ex_ids] inj_ex_ids
  by (simp add: ex_reducer_def ex_config_def)

definition ex_event :: "event_kind \<Rightarrow> string \<Rightarrow> raw \<Rightarrow> event" where
  "ex_event k i p = \<lparr>ev_ID = ''e'', ev_ParentID = [], ev_Kind = k, ev_SessionID = ''s'',
     ev_TurnID = i, ev_Provider = ''claude'', ev_Payload = p\<rparr>"

lemma ex_admissible: "hd i \<noteq> CHR ''x'' \<Longrightarrow> i \<noteq> [] \<Longrightarrow> admissible_id ex_ids i"
proof -
  assume "hd i \<noteq> CHR ''x''" "i \<noteq> []"
  then have "i \<noteq> replicate n (CHR ''x'')" for n by (cases n) auto
  then show ?thesis by (auto simp: admissible_id_def ex_ids_def)
qed

subsection \<open>Properties of a session\<close>

text \<open>
  C1. Memory of a session is bounded. Whatever sequence of envelopes, provider events,
  stream events and flushes a new reducer is fed, it holds at most 64 open turns, each
  with at most 128 text blocks, 4 MiB of text in total and 1 MiB per block, 256 tool
  calls, 64 signals, 64 pending requests and 256 early facts, and it remembers at most
  64 finished turns. The turn-id source must be injective and disjoint from the ids on
  the envelopes.
\<close>

theorem session_memory_bounded:
  assumes "inj (case cfg_NewTurnID cfg of None \<Rightarrow> dflt | Some f \<Rightarrow> f)"
    and "list_all (admissible_event (case cfg_NewTurnID cfg of None \<Rightarrow> dflt | Some f \<Rightarrow> f)) es"
    and "run (feed L) (NewReducer dflt cfg) es = (r, outs)"
  shows "length (order r) \<le> 64 \<and> set (order r) = dom (open_turns r) \<and> length (finished r) \<le> 64 \<and>
    (\<forall>i t. open_turns r i = Some t \<longrightarrow>
       length (blocks t) \<le> 128 \<and>
       (\<Sum>b \<leftarrow> blks t. length (btext b)) \<le> 4 * 2 ^ 20 \<and>
       (\<forall>b \<in> set (blks t). length (btext b) \<le> 2 ^ 20) \<and>
       length (tools t) \<le> 256 \<and> length (signals t) \<le> 64 \<and> length (pending t) \<le> 64 \<and>
       card (dom (early t)) \<le> 256)"
proof -
  have wf: "wf_reducer (case cfg_NewTurnID cfg of None \<Rightarrow> dflt | Some f \<Rightarrow> f) r"
    using feed_run_wf [OF assms(1,2), of L] assms(3) by simp
  have turn: "length (blocks t) \<le> 128 \<and> (\<Sum>b \<leftarrow> blks t. length (btext b)) \<le> 4 * 2 ^ 20 \<and>
      (\<forall>b \<in> set (blks t). length (btext b) \<le> 2 ^ 20) \<and> length (tools t) \<le> 256 \<and>
      length (signals t) \<le> 64 \<and> length (pending t) \<le> 64 \<and> card (dom (early t)) \<le> 256"
    if "open_turns r i = Some t" for i t
  proof -
    have w: "wf_text t" "bounded_text t" "wf_signals t"
      using wf_reducerD(6) [OF wf that] by (simp_all add: wf_turn_def)
    have "int (\<Sum>b \<leftarrow> blks t. length (btext b)) = tbytes t"
      using wf_textD(4) [OF w(1)] by (simp add: blks_def o_def flip: sum_list_of_nat)
    moreover have "card (dom (early t)) \<le> length (earlyOrder t)"
      using wf_signalsD(7) [OF w(3)] by (metis card_length)
    ultimately show ?thesis
      using w(2) wf_textD(5) [OF w(1)] wf_signalsD(2,3,4,5) [OF w(3)]
      by (auto simp: bounded_text_def bound_defs blks_def)
  qed
  show ?thesis
    using wf_reducerD(4,7,8) [OF wf] turn by (auto simp: bound_defs)
qed

theorem session_memory_bounded_witness:
  "length (order (fst (run (feed ex_stops) (NewReducer ex_ids ex_config)
     [Provider (PDelta ''Hi'' [] [])]))) \<le> 64"
proof -
  obtain r outs where run: "run (feed ex_stops) (NewReducer ex_ids ex_config)
      [Provider (PDelta ''Hi'' [] [])] = (r, outs)"
    by (cases "run (feed ex_stops) (NewReducer ex_ids ex_config) [Provider (PDelta ''Hi'' [] [])]")
  show ?thesis
    using session_memory_bounded [OF _ _ run] run by (simp add: ex_config_def inj_ex_ids)
qed

text \<open>
  C2. A turn is never reported twice. After any call that reports a turn, the next 64
  outputs of the session, whatever calls lead to them, are not for that turn.
\<close>

theorem turn_reported_once:
  assumes "wf_reducer ids r" and "admissible_event ids e" and "feed L r e = (r1, Some out)"
    and "list_all (admissible_event ids) es" and "run (feed L) r1 es = (r2, outs)"
    and "length outs \<le> 64"
  shows "TurnID out \<notin> TurnID ` set outs"
proof (cases outs rule: rev_cases)
  case Nil
  then show ?thesis by simp
next
  case (snoc init last_out)
  have wf1: "wf_reducer ids r1"
    using session.step_invariant [OF assms(1,2), of L] assms(3) by simp
  have "finished r1 = keep_last finishedMemory (finished r @ [TurnID out])"
    using feed_reports [OF assms(1,2,3)] by (simp add: step_reports_def)
  then have "finished r1 = keep_last 63 (finished r) @ TurnID out # []"
    by (simp add: keep_last_append_lt finishedMemory_def)
  from run_avoids_finished [OF wf1 assms(4,5) this] assms(6) show ?thesis
    by (simp add: finishedMemory_def)
qed

theorem turn_reported_once_witness:
  "let (r1, o1) = feed ex_stops ex_reducer (Envelope (ex_event KindTurnCompleted ''a'' None));
       (r2, outs) = run (feed ex_stops) r1 [Envelope (ex_event KindTurnCompleted ''b'' None)]
   in o1 \<noteq> None \<and> length outs = 1 \<and> TurnID (the o1) \<notin> TurnID ` set outs"
proof -
  let ?e = "Envelope (ex_event KindTurnCompleted ''a'' None)"
  let ?es = "[Envelope (ex_event KindTurnCompleted ''b'' None)]"
  let ?x = "feed ex_stops ex_reducer ?e"
  let ?y = "run (feed ex_stops) (fst ?x) ?es"
  have x: "snd ?x \<noteq> None" and y: "length (snd ?y) = 1" by code_simp+
  have "TurnID (the (snd ?x)) \<notin> TurnID ` set (snd ?y)"
    by (rule turn_reported_once [OF ex_reducer_wf, where e = ?e and L = ex_stops and es = ?es
          and ?r1.0 = "fst ?x" and ?r2.0 = "fst ?y"])
       (use x y in \<open>simp_all add: ex_event_def ex_admissible\<close>)
  with x y show ?thesis by (simp only: Let_def split_def) blast
qed


text \<open>
  C3. A late event never reopens a turn: an envelope that names a turn already
  reported, of any kind but the process exit (which names no turn), changes nothing
  and reports nothing.
\<close>

theorem late_event_dropped:
  assumes "wf_reducer ids r" and "ev_TurnID ev \<noteq> []" and "ev_TurnID ev \<in> set (finished r)"
    and "ev_Kind ev \<noteq> KindProcessExited"
  shows "Observe L r ev = (identify r ev, None)"
proof -
  have "ev_TurnID ev \<notin> dom (open_turns r)"
    using assms(1,3) wf_reducerD(4,9) [OF assms(1)] by auto
  then have b: "body (identify r ev) (ev_TurnID ev) = (identify r ev, None)"
    and e: "\<And>tm. ending L (identify r ev) (ev_TurnID ev) tm = (identify r ev, None)"
    using assms(2,3) by (auto simp: body_def ending_def wasFinished_def domIff split: option.split)
  show ?thesis
    using assms(4)
    by (cases "ev_Kind ev") (simp_all add: Observe_def Let_def in_body_def end_turn_def b e)
qed

theorem late_event_dropped_witness:
  "Observe ex_stops (ex_reducer\<lparr>finished := [''a'']\<rparr>) (ex_event KindTurnCompleted ''a'' None) =
     (identify (ex_reducer\<lparr>finished := [''a'']\<rparr>) (ex_event KindTurnCompleted ''a'' None), None)"
proof -
  have "ex_ids n \<noteq> ''a''" for n by (cases n) (simp_all add: ex_ids_def)
  then have "wf_reducer ex_ids (ex_reducer\<lparr>finished := [''a'']\<rparr>)"
    using ex_reducer_wf
    by (simp add: wf_reducer_def ex_reducer_def NewReducer_def unminted_def ex_config_def bound_defs)
  then show ?thesis
    by (rule late_event_dropped) (simp_all add: ex_event_def)
qed


text \<open>
  C4. No terminal event of an open or unseen turn is lost: a \<open>turn.completed\<close> or
  \<open>turn.failed\<close> that names a turn not among the finished ones is reported with that
  turn's id and the session's identity, and afterwards the turn is closed and
  remembered.
\<close>

theorem terminal_event_reported:
  assumes "wf_reducer ids r" and "ev_Kind ev \<in> {KindTurnCompleted, KindTurnFailed}"
    and "ev_TurnID ev \<noteq> []" and "ev_TurnID ev \<notin> set (finished r)"
  shows "\<exists>r' out. Observe L r ev = (r', Some out) \<and> TurnID out = ev_TurnID ev \<and>
    SessionID out = (if sessionID r = [] then ev_SessionID ev else sessionID r) \<and>
    Runtime out = (if runtime r = [] then ev_Provider ev else runtime r) \<and>
    ev_TurnID ev \<notin> dom (open_turns r') \<and> ev_TurnID ev \<in> set (finished r')"
proof -
  let ?r = "identify r ev" and ?i = "ev_TurnID ev"
  let ?tm = "terminal_of (ev_Kind ev = KindTurnFailed) (ev_Payload ev)"
  have "\<exists>t. ending L ?r ?i ?tm = (?r, Some t) \<and> turn_id t = ?i"
    using assms(3,4) wf_reducerD(5) [OF assms(1), of ?i]
    by (auto simp: ending_def wasFinished_def split: option.split)
  then obtain t where e: "ending L ?r ?i ?tm = (?r, Some t)" and t: "turn_id t = ?i" by blast
  have "Observe L r ev = end_turn L ?r ?i ?tm"
    using assms(2) by (auto simp: Observe_def Let_def)
  then have "Observe L r ev = (let (r2, out) = finish L ?r t ?tm in (r2, Some out))"
    by (simp add: end_turn_def e)
  moreover obtain r2 out where f: "finish L ?r t ?tm = (r2, out)" by (cases "finish L ?r t ?tm")
  moreover have "TurnID out \<in> set (finished r2)"
    using finish_finished [OF f] keep_last_newest by (metis finishedMemory_def zero_less_numeral)
  ultimately show ?thesis
    using finish_fields [OF f] t by (auto simp: identify_def)
qed

theorem terminal_event_reported_witness:
  "\<exists>r' out. Observe ex_stops ex_reducer (ex_event KindTurnFailed ''a'' None) = (r', Some out) \<and>
     TurnID out = ''a'' \<and> ''a'' \<in> set (finished r')"
  using terminal_event_reported [OF ex_reducer_wf, where ev = "ex_event KindTurnFailed ''a'' None" and L = ex_stops]
  by (auto simp: ex_event_def ex_reducer_def NewReducer_def)


text \<open>
  When a terminal event without a turn id goes unreported. That happens exactly
  when no turn is in progress, one has ended since, and the event repeats: a failure
  with the (non-empty) text of the last failure reported, or a completion that is no
  cancellation with the stop reason and text the last turn completed with.
\<close>

theorem idless_end_unreported_iff:
  assumes "wf_reducer ids r"
  shows "snd (end_turn L r [] tm) = None \<longleftrightarrow>
    order r = [] \<and> settled r \<and>
    (if failed tm then TrimSpace (errText tm) \<noteq> [] \<and> TrimSpace (errText tm) = lastError r
     else (if term_stop tm = [] then heldStop r else term_stop tm) \<noteq> stopCancelled L \<and>
          lastDone r = (if term_stop tm = [] then heldStop r else term_stop tm,
                        TrimSpace (term_text tm)))"
proof (cases "current r")
  case None
  then show ?thesis
    using current_None_iff [OF assms]
    by (auto simp: end_turn_def ending_def repeats_def mint_def Let_def split_def)
next
  case (Some t)
  then have "order r \<noteq> []" by (auto simp: current_def split: if_splits)
  with Some show ?thesis by (simp add: end_turn_def ending_def Let_def split_def)
qed

theorem idless_end_unreported_iff_witness:
  "snd (end_turn ex_stops ex_reducer [] no_terminal) \<noteq> None"
  using idless_end_unreported_iff [OF ex_reducer_wf, of ex_stops no_terminal]
  by (simp add: ex_reducer_def NewReducer_def)

end
