(* ===== verification/Turn_Outcome.thy ===== *)
theory Turn_Outcome
  imports Turn_Properties
begin

text \<open>
  What the record of a finished turn says. The locale \<open>turn_property\<close> carries a
  property of single turns from the operations on a turn to every turn a reducer
  holds; here it shows that signals are questions or approvals only. The properties
  The properties are about the kind and the text of the record.
\<close>

subsection \<open>Properties every operation on a turn keeps\<close>

locale turn_property =
  fixes P :: "turn \<Rightarrow> bool"
  assumes P_new: "P ((newTurn i)\<lparr>usageStop := s\<rparr>)"
    and P_stop: "P t \<Longrightarrow> P (t\<lparr>usageStop := s\<rparr>)"
    and P_boundary: "P t \<Longrightarrow> P (boundary t)"
    and P_delta: "P t \<Longrightarrow> P (addDelta t s i final)"
    and P_tool: "P t \<Longrightarrow> P (fst (addTool t i q))"
    and P_result: "P t \<Longrightarrow> P (toolResult t i e)"
    and P_question: "P t \<Longrightarrow> P (raiseQuestion t s k)"
    and P_requested: "P t \<Longrightarrow> P (raiseRequestedQuestion t s)"
    and P_approval: "P t \<Longrightarrow> P (raiseApproval t s i)"
    and P_request: "P t \<Longrightarrow> P (request t ns s)"
    and P_resolve: "P t \<Longrightarrow> P (resolve t ns allowed s)"
begin

definition open_have :: "reducer \<Rightarrow> bool" where
  "open_have r \<longleftrightarrow> (\<forall>i t. open_turns r i = Some t \<longrightarrow> P t)"

lemma tool_use_keeps: "P t \<Longrightarrow> P (toolUse qs t i name input)"
  by (simp add: toolUse_def Let_def split_def P_tool P_question)

lemma events_keep:
  "P t \<Longrightarrow> P (on_delta p t)" "P t \<Longrightarrow> P (on_tool_use qs p t)" "P t \<Longrightarrow> P (on_tool_result p t)"
  "P t \<Longrightarrow> P (on_permission_requested e p t)" "P t \<Longrightarrow> P (on_permission_resolved e p t)"
  "P t \<Longrightarrow> P (on_permission_denied p t)"
  by (simp_all add: on_delta_def on_tool_use_def on_tool_result_def on_permission_requested_def
      on_permission_resolved_def on_permission_denied_def Let_def split_def tool_use_keeps
      P_boundary P_delta P_result P_requested P_approval P_request P_resolve)

lemma drop_turns_keep: "snd (drop_oldest_turns ids m) i = Some t \<Longrightarrow> m i = Some t"
  by (simp add: drop_oldest_turns_eq split: if_splits)

lemma begin_turn_keeps:
  assumes "open_have r"
  shows "open_have (begin_turn r i)"
proof -
  have "P t" if "open_turns (begin_turn r i) j = Some t" for j t
  proof -
    have "snd (drop_oldest_turns (order r @ [i])
        ((open_turns r)(i \<mapsto> (newTurn i)\<lparr>usageStop := pendingStop r\<rparr>))) j = Some t"
      using that by (simp only: begin_turn_def Let_def split_def) simp
    from drop_turns_keep [OF this]
    have "((open_turns r)(i \<mapsto> (newTurn i)\<lparr>usageStop := pendingStop r\<rparr>)) j = Some t" .
    then show ?thesis
      using assms P_new by (auto simp: open_have_def split: if_splits)
  qed
  then show ?thesis by (simp add: open_have_def)
qed

lemma body_keeps: "open_have r \<Longrightarrow> open_have (fst (body r i))"
proof -
  assume r: "open_have r"
  then have "open_have (snd (mint r))" by (simp add: mint_def open_have_def)
  with r show ?thesis
    by (simp add: body_def Let_def split_def begin_turn_keeps split: option.split)
qed

lemma update_keeps:
  "open_have r \<Longrightarrow> (\<And>t. P t \<Longrightarrow> P (f t)) \<Longrightarrow> open_have (update_turn r k f)"
  by (auto simp: update_turn_def open_have_def split: option.split)

lemma in_body_keeps:
  "open_have r \<Longrightarrow> (\<And>t. P t \<Longrightarrow> P (f t)) \<Longrightarrow> open_have (in_body r i f)"
  using body_keeps [of r i]
  by (auto simp: in_body_def Let_def split_def update_keeps split: option.split)

lemma noteStop_keeps: "open_have r \<Longrightarrow> open_have (noteStop r s)"
  by (auto simp: noteStop_def update_keeps P_stop split: option.split)
     (auto simp: open_have_def)

lemma ending_has:
  assumes "open_have r" and "ending L r i tm = (r1, ot)"
  shows "open_have r1" and "ot = Some t \<Longrightarrow> P t"
proof -
  have new: "P (newTurn j)" for j
    using P_new [where i = j and s = "[]"] by (simp add: newTurn_def)
  show "open_have r1" and "ot = Some t \<Longrightarrow> P t"
    using assms new
    by (auto simp: ending_def current_def mint_def Let_def open_have_def P_new
        split: if_splits option.splits)
qed

lemma finish_keeps: "open_have r \<Longrightarrow> open_have (fst (finish L r t tm))"
  by (auto simp: finish_def close_turn_def remember_def Let_def split_def open_have_def
      split: if_splits)

lemma end_turn_keeps: "open_have r \<Longrightarrow> open_have (fst (end_turn L r i tm))"
  using ending_has(1) [of r L i tm "fst (ending L r i tm)" "snd (ending L r i tm)"]
  by (simp add: end_turn_def Let_def split_def finish_keeps split: option.split)

lemma feed_keeps: "open_have r \<Longrightarrow> open_have (fst (feed L r e))"
proof (cases e)
  case (Envelope ev)
  assume r: "open_have r"
  then have i: "open_have (identify r ev)" by (simp add: identify_def open_have_def)
  note keeps = i in_body_keeps [OF i] end_turn_keeps [OF i] body_keeps [OF i] finish_keeps [OF i]
  show ?thesis unfolding Envelope
    by (cases "ev_Kind ev")
       (simp_all add: Observe_def Let_def split_def keeps events_keep P_boundary split: option.split)
next
  case (Provider ev)
  assume r: "open_have r"
  note keeps = r in_body_keeps [OF r] end_turn_keeps [OF r] body_keeps [OF r] noteStop_keeps [OF r]
  show ?thesis unfolding Provider
    by (cases ev) (simp_all add: keeps tool_use_keeps P_boundary P_delta P_result P_approval)
next
  case (Stream ev)
  assume r: "open_have r"
  note keeps = r in_body_keeps [OF r] end_turn_keeps [OF r] body_keeps [OF r] noteStop_keeps [OF r]
  show ?thesis unfolding Stream
    by (cases ev)
       (auto simp: keeps tool_use_keeps P_boundary P_delta split: option.split intro!: in_body_keeps [OF r])
next
  case (Flushed why)
  assume r: "open_have r"
  then show ?thesis unfolding Flushed
    using finish_keeps [OF r] by (auto simp: Flush_def Let_def split_def split: option.split)
qed

lemma run_keeps: "open_have r \<Longrightarrow> open_have (fst (run (feed L) r es))"
proof (induction es arbitrary: r)
  case Nil
  then show ?case by simp
next
  case (Cons e es)
  then show ?case using feed_keeps [of r L e] by (auto simp: Let_def split_def)
qed

lemma new_reducer_has: "open_have (NewReducer d cfg)"
  by (simp add: open_have_def NewReducer_def)

text \<open>Every turn that ends in a session has the property.\<close>

lemma ended_turn_has:
  assumes "run (feed L) (NewReducer d cfg) es = (r, outs)" and "ending L r i tm = (r1, Some t)"
  shows "P t"
  using ending_has(2) [OF _ assms(2)] run_keeps [OF new_reducer_has, of L d cfg es] assms(1) by simp

end

subsection \<open>Signals are questions or approvals\<close>

definition two_kinds :: "turn \<Rightarrow> bool" where
  "two_kinds t \<longleftrightarrow> (\<forall>sig \<in> set (all_signals t). skind sig \<in> {KindQuestion, KindApproval})"

lemma two_kinds_addSignal:
  "two_kinds t \<Longrightarrow> skind sig \<in> {KindQuestion, KindApproval} \<Longrightarrow> two_kinds (addSignal sig t)"
  using set_keep_last [of maxSignals "signals t @ [sig]"]
  by (auto simp: two_kinds_def all_signals_def addSignal_def)

lemma two_kinds_dropped: "dropped k t t' \<Longrightarrow> two_kinds t \<Longrightarrow> two_kinds t'"
  by (auto simp: two_kinds_def all_signals_def dropped_def shift_signal_by_def shift_pending_by_def)

lemma signals_factsFor [simp]:
  "signals (fst (factsFor t i)) = signals t" "pending (fst (factsFor t i)) = pending t"
  "signals (write_facts t ref f) = signals t" "pending (write_facts t ref f) = pending t"
  by (auto simp: factsFor_def forgetEarly_def Let_def split: option.splits) (cases ref; simp)+

lemma signals_calls [simp]:
  "signals (fst (addTool t i q)) = signals t" "pending (fst (addTool t i q)) = pending t"
  "signals (toolResult t i e) = signals t" "pending (toolResult t i e) = pending t"
  by (auto simp: addTool_def toolResult_def forgetEarly_def Let_def split_def split: option.splits)

interpretation kinds: turn_property two_kinds
proof
  fix t s i final
  assume t: "two_kinds t"
  show "two_kinds (addDelta t s i final)"
  proof (cases rule: addDelta_cases [of s t i final])
    case 1
    with t show ?thesis by simp
  next
    case (2 t' p)
    have "two_kinds (write_block t' p s final)"
      using t target_block_frame(2,3) [OF 2(1)] by (simp add: two_kinds_def all_signals_def)
    with trim_turn_dropped [of "write_block t' p s final"] 2(2) two_kinds_dropped show ?thesis
      by metis
  qed
next
  fix t ns s allowed
  assume t: "two_kinds t"
  have pend: "skind (psig (pending t ! k)) \<in> {KindQuestion, KindApproval}"
    if "pending_index t ns = Some k" for k
  proof -
    have "pending t ! k \<in> set (pending t)"
      using that by (auto simp: pending_index_def find_Some_iff split: option.splits if_splits)
    with t show ?thesis by (auto simp: two_kinds_def all_signals_def)
  qed
  have fewer: "two_kinds (t\<lparr>pending := take k (pending t) @ drop (Suc k) (pending t)\<rparr>)" for k
    using t set_take_subset [of k "pending t"] set_drop_subset [of "Suc k" "pending t"]
    by (auto simp: two_kinds_def all_signals_def)
  show "two_kinds (resolve t ns allowed s)"
  proof (cases "pending_index t ns")
    case None
    with t show ?thesis by (simp add: resolve_def two_kinds_addSignal point_signal_def)
  next
    case (Some k)
    with fewer [of k] pend [OF Some] show ?thesis by (simp add: resolve_def two_kinds_addSignal)
  qed
next
  fix t ns s
  assume "two_kinds t"
  then show "two_kinds (request t ns s)"
    using set_keep_last [of maxPending "pending t @ [p]" for p]
    by (fastforce simp: request_def add_pending_def two_kinds_def all_signals_def point_signal_def)
next
  fix t s i
  assume t: "two_kinds t"
  have "two_kinds (write_facts (fst (factsFor t i)) (snd (factsFor t i)) f)" for f
    using t by (simp add: two_kinds_def all_signals_def)
  with t show "two_kinds (raiseApproval t s i)"
    by (simp add: raiseApproval_def Let_def split_def two_kinds_addSignal)
next
  fix t s k
  assume t: "two_kinds t"
  show "two_kinds (raiseQuestion t s k)" "two_kinds (raiseRequestedQuestion t s)"
    using t by (simp_all add: raiseQuestion_def raiseRequestedQuestion_def two_kinds_addSignal
        point_signal_def Let_def)
qed (simp_all add: boundary_def newTurn_def two_kinds_def all_signals_def)

subsection \<open>Which kind a turn is reported as\<close>

lemma openSignal_kind:
  assumes "two_kinds t"
  shows "openSignal t = Some sig \<Longrightarrow>
    skind sig = (if \<exists>q \<in> set (all_signals t). ended_on t q \<and> skind q = KindQuestion
                 then KindQuestion else KindApproval)"
proof -
  assume sig: "openSignal t = Some sig"
  let ?qs = "open_of_kind t True (all_signals t)" and ?as = "open_of_kind t False (all_signals t)"
  show ?thesis
  proof (cases "?qs = []")
    case False
    with sig have "sig \<in> set ?qs" by (auto simp: openSignal_eq last_option_def intro: last_in_set)
    then show ?thesis by (auto simp: open_of_kind_def)
  next
    case True
    with sig have "sig \<in> set ?as" by (auto simp: openSignal_eq last_option_def split: if_splits)
    with True assms show ?thesis
      by (auto simp: open_of_kind_def two_kinds_def filter_empty_conv)
  qed
qed

text \<open>
  C6. The kind of a reported turn. Of a turn that ends in a session, the kind is
  terminal where the turn was cut off (flushed, interrupted, the process exited, or
  stopped as cancelled), else failure where it failed, else question where some
  question is still open at its end, else approval where some approval is, else final.
\<close>

theorem kind_of_reported_turn:
  assumes "run (feed L) (NewReducer d cfg) es = (r, outs)"
    and "ending L r i tm = (r1, Some t)" and "finish L r1 t tm = (r2, out)"
  shows "Kind out =
    (if is_cut L tm (end_stop t tm) then KindTerminal
     else if failed tm then KindFailure
     else if \<exists>q \<in> set (all_signals t). ended_on t q \<and> skind q = KindQuestion then KindQuestion
     else if \<exists>a \<in> set (all_signals t). ended_on t a then KindApproval
     else KindFinal)"
proof -
  have kinds: "two_kinds t" by (rule kinds.ended_turn_has [OF assms(1,2)])
  have out: "Kind out = fst (outcome_of L t tm (end_stop t tm))"
    using assms(3) by (auto simp: finish_def Let_def split: prod.splits)
  show ?thesis
  proof (cases "openSignal t")
    case None
    then have "\<forall>sig \<in> set (all_signals t). \<not> ended_on t sig" by (simp add: openSignal_None_iff)
    with None out show ?thesis by (auto simp: outcome_of_def Let_def)
  next
    case (Some sig)
    with openSignal_SomeD [OF Some] openSignal_kind [OF kinds Some] out show ?thesis
      by (auto simp: outcome_of_def Let_def)
  qed
qed

theorem kind_of_reported_turn_witness:
  "let r = fst (run (feed ex_stops) (NewReducer ex_ids ex_config)
       [Provider (PToolUse ''t'' ''Ask'' None), Provider (PDelta ''Which?'' [] [])]);
     (r1, ot) = ending ex_stops r [] no_terminal
   in ot \<noteq> None \<and> Kind (snd (finish ex_stops r1 (the ot) no_terminal)) = KindQuestion"
proof -
  let ?run = "run (feed ex_stops) (NewReducer ex_ids ex_config)
    [Provider (PToolUse ''t'' ''Ask'' None), Provider (PDelta ''Which?'' [] [])]"
  let ?fin = "ending ex_stops (fst ?run) [] no_terminal"
  let ?t = "the (snd ?fin)"
  have some: "snd ?fin \<noteq> None" by code_simp
  have facts: "\<not> is_cut ex_stops no_terminal (end_stop ?t no_terminal)"
    "\<exists>q \<in> set (all_signals ?t). ended_on ?t q \<and> skind q = KindQuestion" "\<not> failed no_terminal"
    by code_simp+
  have "Kind (snd (finish ex_stops (fst ?fin) ?t no_terminal)) = KindQuestion"
    using kind_of_reported_turn [where L = ex_stops and d = ex_ids and cfg = ex_config
        and r = "fst ?run" and outs = "snd ?run" and ?r1.0 = "fst ?fin" and t = ?t
        and tm = no_terminal and i = "[]" and ?r2.0 = "fst (finish ex_stops (fst ?fin) ?t no_terminal)"
        and out = "snd (finish ex_stops (fst ?fin) ?t no_terminal)"] some facts
    by (simp only: prod.collapse option.collapse if_True if_False simp_thms)
  with some show ?thesis by (simp only: Let_def split_def simp_thms)
qed

text \<open>
  Work after a refusal or a question closes it. When the agent calls a tool that
  is not a question tool and was not refused, and no signal of the turn names that very
  call or was reported without naming any, the turn has no open signal left: an agent
  that worked around a refusal ends with a final turn.
\<close>

theorem work_leaves_nothing_open:
  assumes "wf_turn t" and "question_key name \<notin> qs" and "early t j = None"
    and "\<forall>sig \<in> set (all_signals t). byTool sig \<longrightarrow> toolID sig \<noteq> [] \<and> toolID sig \<noteq> j"
  shows "openSignal (toolUse qs (boundary t) j name args) = None"
proof -
  have wf: "wf_signals (boundary t)" using assms(1) by (simp add: wf_turn_def boundary_signals)
  have frame: "all_signals (boundary t) = all_signals t" "early (boundary t) = early t"
    by (simp_all add: all_signals_def boundary_def)
  have use: "toolUse qs (boundary t) j name args = fst (addTool (boundary t) j False)"
    using assms(2) by (simp add: toolUse_def Let_def split_def)
  have "\<not> ended_on (fst (addTool (boundary t) j False)) sig" if "sig \<in> set (all_signals t)" for sig
  proof (rule work_closes [OF wf])
    show "sig_in_range (boundary t) sig"
      using that wf_signalsD(11,12) [OF wf] by (auto simp: all_signals_def boundary_def)
    show "early (boundary t) j = None" using assms(3) by (simp add: frame)
    show "toolID sig \<noteq> [] \<and> toolID sig \<noteq> j" if "byTool sig"
      using assms(4) \<open>sig \<in> set (all_signals t)\<close> that by blast
  qed
  then show ?thesis
    by (simp add: use openSignal_None_iff) (simp add: all_signals_def boundary_def)
qed

definition ex_refused :: turn where
  "ex_refused = raiseApproval (fst (addTool (newTurn ''a'') ''c1'' False)) ''Permission denied: Bash'' ''c1''"

lemma ex_refused_wf: "wf_turn ex_refused"
proof -
  have "wf_turn (newTurn ''a'')" by (simp add: wf_turn_def wf_intros)
  then show ?thesis unfolding ex_refused_def by (intro wf_turn_ops)
qed

theorem work_leaves_nothing_open_witness:
  "openSignal ex_refused \<noteq> None \<and>
   openSignal (toolUse {''ask''} (boundary ex_refused) ''c2'' ''Read'' None) = None"
proof
  show "openSignal ex_refused \<noteq> None" by code_simp
  have "question_key ''Read'' \<notin> {''ask''}" "early ex_refused ''c2'' = None"
    "\<forall>sig \<in> set (all_signals ex_refused). byTool sig \<longrightarrow> toolID sig \<noteq> [] \<and> toolID sig \<noteq> ''c2''"
    by code_simp+
  then show "openSignal (toolUse {''ask''} (boundary ex_refused) ''c2'' ''Read'' None) = None"
    by (rule work_leaves_nothing_open [OF ex_refused_wf])
qed

lemma in_body_current:
  "wf_reducer ids r \<Longrightarrow> current r = Some t \<Longrightarrow>
   in_body r [] f = r\<lparr>open_turns := (open_turns r)(last (order r) \<mapsto> f t)\<rparr>"
  by (auto simp: in_body_def body_def update_turn_def current_def split: if_splits)

lemma raiseApproval_boundary:
  "boundary (raiseApproval t s i) = raiseApproval (boundary t) s i"
  "boundary (fst (addTool t i q)) = fst (addTool (boundary t) i q)"
  "boundary (boundary t) = boundary t"
  by (simp_all add: raiseApproval_def addTool_def factsFor_def toolIndex_def addSignal_def
      forgetEarly_def boundary_def Let_def split_def split: option.split)

text \<open>
  C8. A refusal and the tool call it names may arrive in either order. Take a turn in progress
  and a call with a non-empty id that the turn knows nothing of: none of its tools has the id
  and nothing came early for it, with fewer than 256 early entries held; and let the tool be
  none of the question tools. Then the session ends in the same state either way.
\<close>

theorem refusal_in_either_order:
  assumes "wf_reducer ids r" and "current r = Some t" and "i \<noteq> []"
    and "i \<notin> tool_id ` set (tools t)" and "early t i = None" and "length (earlyOrder t) < 256"
    and "question_key name \<notin> questions r"
  shows "run (ObserveProvider L) r [PPermissionDenied action display i, PToolUse i name args] =
         run (ObserveProvider L) r [PToolUse i name args, PPermissionDenied action display i]"
proof -
  let ?k = "last (order r)" and ?s = "permissionDeniedText action display"
  have t: "open_turns r ?k = Some t" "order r \<noteq> []"
    using assms(2) by (auto simp: current_def split: if_splits)
  have wf: "wf_signals (boundary t)"
    using wf_reducerD(6) [OF assms(1) t(1)] by (simp add: wf_turn_def boundary_signals)
  have order: "fst (addTool (raiseApproval (boundary t) ?s i) i False) =
      raiseApproval (fst (addTool (boundary t) i False)) ?s i"
    using assms(3-6) by (intro refusal_commutes [OF wf]) (simp_all add: boundary_def maxEarly_def)
  show ?thesis
    using t assms(7) order
    by (simp add: in_body_def body_def current_def update_turn_def toolUse_def Let_def split_def
        raiseApproval_boundary)
qed

theorem refusal_in_either_order_witness:
  "let r = fst (feed ex_stops ex_reducer (Provider PThinking)) in
   run (ObserveProvider ex_stops) r [PPermissionDenied ''Bash'' [] ''c'', PToolUse ''c'' ''Bash'' None] =
   run (ObserveProvider ex_stops) r [PToolUse ''c'' ''Bash'' None, PPermissionDenied ''Bash'' [] ''c'']"
proof -
  let ?r = "fst (feed ex_stops ex_reducer (Provider PThinking))"
  let ?t = "the (current ?r)"
  have wf: "wf_reducer ex_ids ?r"
    by (rule session.step_invariant [OF ex_reducer_wf]) simp
  have facts: "current ?r \<noteq> None" "''c'' \<noteq> []" "''c'' \<notin> tool_id ` set (tools ?t)"
    "early ?t ''c'' = None" "length (earlyOrder ?t) < 256" "question_key ''Bash'' \<notin> questions ?r"
    by code_simp+
  then have "current ?r = Some ?t" by simp
  from refusal_in_either_order [OF wf this facts(2-6)] show ?thesis by (simp only: Let_def)
qed

text \<open>
  Text from before a question is never the question's text. A turn that ends on a
  question or an approval, of which something is known, is reported with the text on
  the terminal event, the description of the signal, or a block the agent wrote
  after the signal's place in the turn.
\<close>

theorem question_text_after_signal:
  assumes "finish L r t tm = (r', out)" and "openSignal t = Some sig" and "stext sig \<noteq> []"
    and "\<not> failed tm" and "\<not> is_cut L tm (end_stop t tm)"
  shows "Kind out = skind sig \<and>
    Text out \<in> {TrimSpace (term_text tm), stext sig} \<union>
       block_says ` set (drop (fst (place t sig)) (blks t))"
  using assms signalText_source [OF assms(3), of t "term_text tm" "pick t 0 (term_text tm)"]
  by (auto simp: finish_def outcome_of_def Let_def split: prod.splits)

theorem question_text_after_signal_witness:
  "Kind (snd (finish ex_stops ex_reducer ex_refused no_terminal)) = KindApproval \<and>
   Text (snd (finish ex_stops ex_reducer ex_refused no_terminal)) = ''Permission denied: Bash''"
proof -
  let ?x = "finish ex_stops ex_reducer ex_refused no_terminal"
  let ?sig = "the (openSignal ex_refused)"
  have facts: "openSignal ex_refused \<noteq> None" "stext ?sig \<noteq> []" "\<not> failed no_terminal"
    "\<not> is_cut ex_stops no_terminal (end_stop ex_refused no_terminal)"
    "skind ?sig = KindApproval" "stext ?sig = ''Permission denied: Bash''"
    "Text (snd ?x) \<noteq> TrimSpace (term_text no_terminal)" "blks ex_refused = []"
    by code_simp+
  then have "openSignal ex_refused = Some ?sig" by simp
  from question_text_after_signal [where L = ex_stops and r = ex_reducer and t = ex_refused
      and tm = no_terminal and r' = "fst ?x" and out = "snd ?x", OF _ this facts(2-4)] facts
  show ?thesis by auto
qed

lemma consider_frame:
  assumes "tools t' = tools t"
  shows "consider_signals t' sigs (q, a) = consider_signals t sigs (q, a)"
proof -
  have "ended_on t' sig = ended_on t sig" for sig
    by (simp add: ended_on_def answered_def place_def toolIndex_def assms cong: option.case_cong)
  then show ?thesis by (induction sigs arbitrary: q a) auto
qed

text \<open>
  Text alone never changes whether a turn is a question or an approval: a delta,
  even one that makes the buffer drop its oldest blocks, leaves the kind and the
  description of the open signal as they were.
\<close>

theorem text_keeps_signal:
  "map_option (\<lambda>sig. (skind sig, stext sig)) (openSignal (addDelta t s i final)) =
   map_option (\<lambda>sig. (skind sig, stext sig)) (openSignal t)"
proof (cases rule: addDelta_cases [of s t i final])
  case 1
  then show ?thesis by simp
next
  case (2 t' p)
  let ?u = "write_block t' p s final"
  have "openSignal ?u = openSignal t"
    using target_block_frame [OF 2(1)] by (simp add: openSignal_def consider_frame [of ?u t])
  moreover obtain k where "dropped k ?u (addDelta t s i final)"
    using trim_turn_dropped 2(2) by metis
  then have "openSignal (addDelta t s i final) = map_option (shift_signal_by k) (openSignal ?u)"
    by (rule openSignal_dropped)
  ultimately show ?thesis
    by (cases "openSignal t") (simp_all add: shift_signal_by_def)
qed

text \<open>
  The text of a turn. It is the text of the terminal event where there is some
  (exact), else what the last final block that says anything says (exact), else what
  the last block that says anything says (heuristic), else nothing.
\<close>

theorem picked_text:
  "pick t from s = (x, c) \<longleftrightarrow>
     (if TrimSpace s \<noteq> [] then x = TrimSpace s \<and> c = ConfidenceExact
      else (let bs = drop from (blks t); says = (\<lambda>b. block_says b \<noteq> []);
                final = (\<lambda>b. bfinal b \<and> block_says b \<noteq> []) in
        (\<exists>b. newest_with final bs b \<and> x = block_says b \<and> c = ConfidenceExact) \<or>
        (\<forall>b \<in> set bs. \<not> final b) \<and> c = ConfidenceHeuristic \<and>
          ((\<exists>b. newest_with says bs b \<and> x = block_says b) \<or>
           (\<forall>b \<in> set bs. \<not> says b) \<and> x = [])))"
  unfolding pick_def pick_blocks_def Let_def newest_with_iff none_with_iff
  by (auto split: option.splits)

theorem picked_text_witness:
  "pick (addDelta (addDelta (newTurn ''a'') ''Done'' ''1'' True) ''Bye'' ''2'' False) 0 [] =
     (''Done'', ConfidenceExact)"
proof -
  let ?t = "addDelta (addDelta (newTurn ''a'') ''Done'' ''1'' True) ''Bye'' ''2'' False"
  let ?b = "\<lparr>bid = ''1'', bfinal = True, btext = ''Done''\<rparr>"
  have blank: "TrimSpace [] = []" by code_simp
  have newest: "newest_with (\<lambda>b. bfinal b \<and> block_says b \<noteq> []) (drop 0 (blks ?t)) ?b"
    unfolding newest_with_iff by code_simp
  have says: "''Done'' = block_says ?b" by code_simp
  show ?thesis
    using newest says by (simp only: picked_text Let_def blank simp_thms if_False) blast
qed

text \<open>
  Cutting text keeps its encoding whole: a string longer than the limit is cut to
  its longest prefix within the limit that ends before the first byte of a rune.
\<close>

theorem cutUTF8_longest:
  assumes "0 \<le> n" and "n < int (length s)"
  shows "\<exists>m \<le> nat n. cutUTF8 s n = take m s \<and> (m = 0 \<or> rune_start (s ! m)) \<and>
    (\<forall>k. m < k \<and> k \<le> nat n \<longrightarrow> \<not> rune_start (s ! k))"
  using assms cut_back_le cut_back_start cut_back_max
  by (intro exI [of _ "cut_back s (nat n)"]) (auto simp: cutUTF8_def)

theorem cutUTF8_longest_witness:
  "\<exists>m \<le> 2. cutUTF8 [CHR ''a'', CHR 0xC3, CHR 0xA9, CHR ''b''] 2 = take m [CHR ''a'', CHR 0xC3, CHR 0xA9, CHR ''b'']"
  using cutUTF8_longest [of 2 "[CHR ''a'', CHR 0xC3, CHR 0xA9, CHR ''b'']"] by auto

lemma target_again:
  assumes wf: "wf_text t" and "i \<noteq> []" and "target_block t i = (t', p)"
  shows "target_block (write_block t' p s f) i = (write_block t' p s f, p)"
  using assms wf_textD(3) [OF wf, of i p]
  by (auto simp: target_block_def write_block_def Let_def split: option.splits)

lemma write_block_twice:
  assumes "int (length (btext (heap t p)) + length s1 + length s2) \<le> maxBlockBytes"
  shows "write_block (write_block t p s1 f1) p s2 f2 = write_block t p (s1 @ s2) (f1 \<or> f2)"
  using assms by (simp add: write_block_def Let_def)

text \<open>
  Deltas of one block join. Within the bounds, two deltas for the same block id are
  the delta of their concatenation, final where either was.
\<close>

theorem deltas_of_block_join:
  assumes wf: "wf_text t" and i: "i \<noteq> []" and s: "s1 \<noteq> []" "s2 \<noteq> []"
    and room: "length (blocks t) < 128" "tbytes t + int (length (s1 @ s2)) \<le> 4 * 2 ^ 20"
    and small: "\<And>p. byID t i = Some p \<Longrightarrow> length (btext (heap t p)) + length (s1 @ s2) \<le> 2 ^ 20"
      "length (s1 @ s2) \<le> 2 ^ 20"
  shows "addDelta (addDelta t s1 i f1) s2 i f2 = addDelta t (s1 @ s2) i (f1 \<or> f2)"
proof -
  obtain t' p where target: "target_block t i = (t', p)" by (cases "target_block t i")
  have frame: "tbytes t' = tbytes t" "length (blocks t') \<le> Suc (length (blocks t))"
    "length (btext (heap t' p)) + length (s1 @ s2) \<le> 2 ^ 20"
    using target i small
    by (auto simp: target_block_def Let_def no_block_def split: option.splits)
  have within: "trim_turn (write_block t' p s f) = write_block t' p s f"
    if "length s \<le> length (s1 @ s2)" for s f
    using that room frame
    by (subst trim_turn.simps)
       (simp add: over_bounds_def write_block_def Let_def bound_defs)
  show ?thesis
    using within [of s1 f1] within [of "s1 @ s2" "f1 \<or> f2"] s frame(3)
      target_again [OF wf i target] write_block_twice [of t' p s1 s2 f1 f2]
    by (simp add: addDelta_def target maxBlockBytes_def)
qed

theorem deltas_of_block_join_witness:
  "addDelta (addDelta (newTurn ''a'') ''Hel'' ''b'' False) ''lo'' ''b'' True =
   addDelta (newTurn ''a'') ''Hello'' ''b'' True"
  using deltas_of_block_join [of "newTurn ''a''" "''b''" "''Hel''" "''lo''" False True]
  by (simp add: wf_intros) (simp add: newTurn_def)

subsection \<open>Errors without a turn id\<close>

lemma close_turn_state:
  "order (close_turn r t tm stop) = remove1 (turn_id t) (order r)"
  "settled (close_turn r t tm stop) \<longleftrightarrow> remove1 (turn_id t) (order r) = []"
  "lastError (close_turn r t tm stop) = (if failed tm then TrimSpace (errText tm) else lastError r)"
  "minted (close_turn r t tm stop) = minted r"
  "newTurnID (close_turn r t tm stop) = newTurnID r"
  by (simp_all add: close_turn_def remember_def Let_def)

lemma end_turn_fresh:
  assumes "order r = []" and "\<not> repeats L r tm"
  shows "\<exists>r' out. end_turn L r [] tm = (r', Some out) \<and> TurnID out = newTurnID r (minted r) \<and>
    order r' = [] \<and> settled r' \<and> minted r' = Suc (minted r) \<and> newTurnID r' = newTurnID r \<and>
    lastError r' = (if failed tm then TrimSpace (errText tm) else lastError r)"
proof -
  obtain t r1 where e: "ending L r [] tm = (r1, Some t)" and t: "turn_id t = newTurnID r (minted r)"
    and r1: "order r1 = []" "minted r1 = Suc (minted r)" "newTurnID r1 = newTurnID r" "lastError r1 = lastError r"
    using assms by (auto simp: ending_def current_def mint_def Let_def newTurn_def)
  obtain r' out where f: "finish L r1 t tm = (r', out)" by (cases "finish L r1 t tm")
  from finish_fields [OF f] t r1 show ?thesis
    by (auto simp: end_turn_def e f close_turn_state)
qed

lemma end_turn_only:
  assumes "order r = [i]" and "open_turns r i = Some t" and "turn_id t = i"
  shows "\<exists>r' out. end_turn L r [] tm = (r', Some out) \<and> TurnID out = i \<and>
    order r' = [] \<and> settled r' \<and> minted r' = minted r \<and> newTurnID r' = newTurnID r \<and>
    lastError r' = (if failed tm then TrimSpace (errText tm) else lastError r)"
proof -
  have e: "ending L r [] tm = (r, Some t)" using assms by (simp add: ending_def current_def)
  obtain r' out where f: "finish L r t tm = (r', out)" by (cases "finish L r t tm")
  from finish_fields [OF f] assms show ?thesis
    by (auto simp: end_turn_def e f close_turn_state)
qed

lemma spawn_opens:
  assumes "order r = []"
  shows "\<exists>r' t i. ObserveProvider L r PSubagentSpawn = (r', None) \<and> i = newTurnID r (minted r) \<and>
    order r' = [i] \<and> open_turns r' i = Some t \<and> turn_id t = i \<and> lastError r' = lastError r"
  using assms
  by (simp add: in_body_def body_def current_def mint_def begin_turn_def drop_oldest_turns.simps
      update_turn_def boundary_def newTurn_def Let_def maxOpenTurns_def)

text \<open>
  C14. The text of the last failure outlives the turns completed since. In a session
  that reports a failure, completes a turn and then fails again with the same text
  before another turn starts, the second failure is not reported.
\<close>

theorem repeated_error_lost:
  assumes "order r = []" and "\<not> settled r" and "TrimSpace x \<noteq> []"
  shows "\<exists>r' o1 o2. run (ObserveProvider L) r
      [PError x None, PSubagentSpawn, PDone stop txt, PError x None] = (r', [o1, o2]) \<and>
    TurnID o1 = newTurnID r (minted r) \<and> TurnID o2 = newTurnID r (Suc (minted r))"
proof -
  have x: "x \<noteq> []" using assms(3) by (auto simp: TrimSpace_def)
  let ?err = "no_terminal\<lparr>failed := True, errText := x\<rparr>"
  have "\<not> repeats L r ?err" using assms(2) by (simp add: repeats_def Let_def)
  from end_turn_fresh [OF assms(1) this]
  obtain r1 o1 where 1: "end_turn L r [] ?err = (r1, Some o1)" "TurnID o1 = newTurnID r (minted r)"
    "order r1 = []" "minted r1 = Suc (minted r)" "newTurnID r1 = newTurnID r" "lastError r1 = TrimSpace x"
    by auto
  from spawn_opens [OF 1(3), of L] obtain r2 t where
    2: "ObserveProvider L r1 PSubagentSpawn = (r2, None)"
    "order r2 = [newTurnID r (Suc (minted r))]" "open_turns r2 (newTurnID r (Suc (minted r))) = Some t"
    "turn_id t = newTurnID r (Suc (minted r))" "lastError r2 = TrimSpace x"
    using 1(4-6) by auto
  from end_turn_only [OF 2(2-4), of L "no_terminal\<lparr>term_stop := stop, term_text := txt\<rparr>"]
  obtain r3 o2 where 3: "end_turn L r2 [] (no_terminal\<lparr>term_stop := stop, term_text := txt\<rparr>) = (r3, Some o2)"
    "TurnID o2 = newTurnID r (Suc (minted r))" "order r3 = []" "settled r3" "lastError r3 = TrimSpace x"
    using 2(5) by (auto simp: no_terminal_def)
  have "end_turn L r3 [] ?err = (r3, None)"
    using 3(3-5) assms(3) by (simp add: end_turn_def ending_def current_def repeats_def Let_def)
  with 1(1,2) 2(1) 3(1,2) x show ?thesis by (auto simp del: ObserveProvider.simps(5) simp: Let_def)
qed

theorem repeated_error_lost_witness:
  "\<exists>r' o1 o2. run (ObserveProvider ex_stops) ex_reducer
     [PError ''exit 1'' None, PSubagentSpawn, PDone [] [], PError ''exit 1'' None] = (r', [o1, o2]) \<and>
   TurnID o1 = [] \<and> TurnID o2 = ''x''"
proof -
  have facts: "order ex_reducer = []" "\<not> settled ex_reducer" "TrimSpace ''exit 1'' \<noteq> []"
    "newTurnID ex_reducer (minted ex_reducer) = []"
    "newTurnID ex_reducer (Suc (minted ex_reducer)) = ''x''" by code_simp+
  from repeated_error_lost [OF facts(1-3), of ex_stops "[]" "[]"] facts show ?thesis by simp
qed

end
