(* ===== verification/Lifecycle.thy ===== *)
theory Lifecycle
  imports Runtime_Events
begin

text \<open>
  A managed ACP session, \<open>acp/lifecycle.go\<close>: its data and the sections of its methods
  that run under its mutex, one definition each. \<open>Lifecycle_Steps\<close> interleaves them,
  \<open>Manager\<close> adds the registry.

  The client is an interface: what it returns (an error, its provider session id, its
  events) is an argument of the definitions here. \<open>redactDiagnostic\<close>, whose core is
  two regular expressions, is the parameter \<open>redact\<close>; its JSON half, \<open>redactJSON\<close>, is
  modelled. The time of the last activity, which no decision reads, is left out.
\<close>

subsection \<open>States, outcomes and errors\<close>

datatype session_state =
  StateLaunching | StateReady | StateProcessing | StateClosing | StateClosed | StateFailed

text \<open>\<open>OutcomeNone\<close> is the empty \<open>OutcomeKind\<close>.\<close>

datatype outcome_kind =
  OutcomeNone | OutcomeClosed | OutcomeDisconnected | OutcomeChildExit | OutcomeMalformedStream
  | OutcomeCanceled

fun outcome_name :: "outcome_kind \<Rightarrow> string" where
  "outcome_name OutcomeNone = []"
| "outcome_name OutcomeClosed = ''closed''"
| "outcome_name OutcomeDisconnected = ''disconnected''"
| "outcome_name OutcomeChildExit = ''child_exit''"
| "outcome_name OutcomeMalformedStream = ''malformed_stream''"
| "outcome_name OutcomeCanceled = ''canceled''"

text \<open>Errors: the package's sentinels, the two context errors, errors of other code by
  their text, and the wrappers.\<close>

datatype go_error =
    ErrNotLive | ErrDuplicateSession | ErrDisconnected | ErrChildExit | ErrMalformedStream
  | ErrCanceled | CtxCanceled | CtxDeadlineExceeded
  | OtherError string
  | Wrapped string go_error  \<comment> \<open>\<open>fmt.Errorf\<close> with \<open>%w\<close>\<close>
  | Joined "go_error list"  \<comment> \<open>\<open>errors.Join\<close>\<close>
  | LifecycleError outcome_kind string string "go_error option"  \<comment> \<open>Kind, Operation, Diagnostic, Cause\<close>

fun Error :: "outcome_kind \<Rightarrow> string \<Rightarrow> string \<Rightarrow> string" where
  "Error k operation diagnostic =
     ''acp: '' @ outcome_name k
       @ (if operation \<noteq> [] then '' during '' @ operation else [])
       @ (if diagnostic \<noteq> [] then '': '' @ diagnostic else [])"

text \<open>\<open>errors.Join\<close> drops the nil errors.\<close>

definition Unwrap :: "outcome_kind \<Rightarrow> go_error option \<Rightarrow> go_error option" where
  "Unwrap k cause =
     (let joined = (\<lambda>sentinel. Some (Joined (sentinel # (case cause of None \<Rightarrow> [] | Some e \<Rightarrow> [e])))) in
      case k of
        OutcomeDisconnected \<Rightarrow> joined ErrDisconnected
      | OutcomeChildExit \<Rightarrow> joined ErrChildExit
      | OutcomeMalformedStream \<Rightarrow> joined ErrMalformedStream
      | OutcomeCanceled \<Rightarrow> joined ErrCanceled
      | _ \<Rightarrow> cause)"

text \<open>\<open>errors.Is\<close>: the error itself or one it wraps.\<close>

fun errors_is :: "go_error \<Rightarrow> go_error \<Rightarrow> bool" where
  "errors_is (Wrapped s e) target = (Wrapped s e = target \<or> errors_is e target)"
| "errors_is (Joined es) target = (Joined es = target \<or> list_ex (\<lambda>e. errors_is e target) es)"
| "errors_is (LifecycleError k p d c) target =
     (LifecycleError k p d c = target \<or>
      (k = OutcomeDisconnected \<and> target = ErrDisconnected) \<or>
      (k = OutcomeChildExit \<and> target = ErrChildExit) \<or>
      (k = OutcomeMalformedStream \<and> target = ErrMalformedStream) \<or>
      (k = OutcomeCanceled \<and> target = ErrCanceled) \<or>
      (case c of None \<Rightarrow> False | Some e \<Rightarrow> errors_is e target))"
| "errors_is e target = (e = target)"

lemma errors_is_unwrap:
  assumes "\<forall>es. target \<noteq> Joined es"
  shows "errors_is (LifecycleError k p d c) target \<longleftrightarrow>
    LifecycleError k p d c = target \<or> (\<exists>e. Unwrap k c = Some e \<and> errors_is e target)"
  using assms by (cases k; cases c) (auto simp: Unwrap_def)

definition normalizeOperationError :: "string \<Rightarrow> go_error option \<Rightarrow> go_error option" where
  "normalizeOperationError operation oe =
     (case oe of
        None \<Rightarrow> None
      | Some e \<Rightarrow>
          if errors_is e CtxCanceled \<or> errors_is e CtxDeadlineExceeded
          then Some (LifecycleError OutcomeCanceled operation [] (Some e))
          else Some (Wrapped (''acp: '' @ operation @ '': '') e))"

subsection \<open>Diagnostics\<close>

datatype diagnostic_kind = DiagnosticStderr | DiagnosticMalformedJSON | DiagnosticProtocol

record diagnostic =
  d_Kind :: diagnostic_kind
  d_Message :: string
  d_Raw :: string

text \<open>A decoded JSON value, as \<open>encoding/json\<close> gives it to an \<open>any\<close>: an object is a
  map, so its keys are distinct.\<close>

datatype any_value =
    AnyNull | AnyBool bool | AnyNumber string | AnyString string
  | AnyArray "any_value list" | AnyObject "(string \<times> any_value) list"

definition isSensitiveKey :: "string \<Rightarrow> bool" where
  "isSensitiveKey key =
     (let key' = ToLower (map (\<lambda>c. if c = CHR ''-'' then CHR ''_'' else c) key)
      in list_ex (\<lambda>marker. Contains key' marker)
           [''authorization'', ''cookie'', ''api_key'', ''apikey'', ''token'', ''password'', ''secret''])"

fun redactJSON :: "any_value \<Rightarrow> any_value" where
  "redactJSON (AnyObject kvs) =
     AnyObject (map (\<lambda>(key, item). (key,
       if isSensitiveKey key then AnyString ''[REDACTED]'' else redactJSON item)) kvs)"
| "redactJSON (AnyArray items) = AnyArray (map redactJSON items)"
| "redactJSON v = v"

subsection \<open>The session\<close>

text \<open>
  The fields of \<open>Session\<close>. A channel is the list of what was sent and not yet received
  with a flag for its close; a \<open>sync.Once\<close> is where its one run stands. The last
  group holds where the goroutines stand that share the session: the drain loop, the
  manager's \<open>Launch\<close>, prompts waiting for the client, and emitters of diagnostics
  between their \<open>Add\<close> and \<open>Done\<close>. Two fields only record history: \<open>closeCalls\<close>
  counts the calls of \<open>Client.Close\<close>, \<open>published\<close> lists the events sent.
\<close>

datatype once = OnceFresh | OnceRunning | OnceDone

datatype finish_phase =
  FinishNot | FinishClosing | FinishFixed | FinishUnregistered | FinishEvents | FinishDiagnostics
  | FinishDone

datatype launch_pc = LaunchClient | LaunchCommit | LaunchAbort | LaunchRelease | LaunchReturned bool

datatype drain_pc = DrainReading | DrainHolding event | DrainPublishing event | DrainEnded

datatype emitter_pc = EmitMark | EmitSend | EmitCall | EmitLeave

record session =
  sid :: string
  st :: session_state
  providerSessionID :: string
  lastTurnOutcome :: outcome_kind
  terminalOutcome :: outcome_kind
  serr :: "go_error option"
  closeRequested :: bool
  sawProcessExit :: bool
  sawMalformed :: bool
  launchCommitted :: bool
  pendingReady :: bool
  sfinished :: bool
  events :: "event list"
  eventsClosed :: bool
  diagnostics :: "diagnostic list"
  diagnosticsClosed :: bool
  diagnosticsChanClosed :: bool
  doneClosed :: bool
  launchDone :: bool
  closeOnce :: once
  finishOnce :: finish_phase
  closeErr :: "go_error option"
  launching :: launch_pc
  drain :: drain_pc
  prompting :: nat
  emitters :: "(diagnostic \<times> emitter_pc) list"
  closeCalls :: nat
  published :: "event list"

definition eventsCap :: nat where "eventsCap = 128"
definition diagnosticsCap :: nat where "diagnosticsCap = 32"

definition new_session :: "string \<Rightarrow> session" where
  "new_session i = \<lparr>sid = i, st = StateLaunching, providerSessionID = [],
     lastTurnOutcome = OutcomeNone, terminalOutcome = OutcomeNone, serr = None,
     closeRequested = False, sawProcessExit = False, sawMalformed = False,
     launchCommitted = False, pendingReady = False, sfinished = False,
     events = [], eventsClosed = False, diagnostics = [], diagnosticsClosed = False,
     diagnosticsChanClosed = False, doneClosed = False, launchDone = False,
     closeOnce = OnceFresh, finishOnce = FinishNot, closeErr = None,
     launching = LaunchClient, drain = DrainReading, prompting = 0, emitters = [],
     closeCalls = 0, published = []\<rparr>"

definition Live :: "session \<Rightarrow> bool" where
  "Live s \<longleftrightarrow> launchCommitted s \<and> st s \<in> {StateReady, StateProcessing, StateClosing}"

subsection \<open>What a host calls\<close>

text \<open>\<open>Prompt\<close> before and after the call of the client; \<open>None\<close> is \<open>ErrNotLive\<close>.\<close>

definition prompt_begin :: "session \<Rightarrow> session option" where
  "prompt_begin s =
     (if st s \<noteq> StateReady then None
      else Some (s\<lparr>st := StateProcessing, prompting := Suc (prompting s)\<rparr>))"

definition prompt_return :: "go_error option \<Rightarrow> session \<Rightarrow> session \<times> go_error option" where
  "prompt_return err s =
     (let s1 = s\<lparr>prompting := prompting s - 1\<rparr> in
      case err of
        None \<Rightarrow> (s1, None)
      | Some e \<Rightarrow> (if st s1 = StateProcessing then s1\<lparr>st := StateReady\<rparr> else s1,
                   normalizeOperationError ''prompt'' (Some e)))"

text \<open>\<open>Cancel\<close> reads the state and asks the client, whose answer is \<open>err\<close>.\<close>

definition cancel_session :: "go_error option \<Rightarrow> session \<Rightarrow> go_error option" where
  "cancel_session err s =
     (if st s \<noteq> StateProcessing then None else normalizeOperationError ''cancel'' err)"

definition close_request :: "session \<Rightarrow> session" where
  "close_request s =
     (let s1 = (if st s \<noteq> StateClosed \<and> st s \<noteq> StateFailed then s\<lparr>st := StateClosing\<rparr> else s)
      in s1\<lparr>closeRequested := True\<rparr>)"

text \<open>\<open>closeOnce.Do\<close>: the call of \<open>Client.Close\<close>, and its return.\<close>

definition close_client_call :: "session \<Rightarrow> session" where
  "close_client_call s = s\<lparr>closeOnce := OnceRunning, closeCalls := Suc (closeCalls s)\<rparr>"

definition close_client_return :: "go_error option \<Rightarrow> session \<Rightarrow> session" where
  "close_client_return err s = s\<lparr>closeOnce := OnceDone, closeErr := err\<rparr>"

text \<open>The results of \<open>Wait\<close> and \<open>Close\<close> once \<open>done\<close> is closed; \<open>None\<close> while they block
  (a context that ends makes them return its error instead).\<close>

definition wait_result :: "session \<Rightarrow> go_error option option" where
  "wait_result s = (if doneClosed s then Some (serr s) else None)"

definition close_result :: "session \<Rightarrow> go_error option option" where
  "close_result s = (if doneClosed s \<and> closeOnce s = OnceDone then Some (closeErr s) else None)"

subsection \<open>Events from the client\<close>

definition classifyTurnCompletion :: "raw \<Rightarrow> outcome_kind" where
  "classifyTurnCompletion payload =
     (let stop = snd (unmarshal (dec_struct [(''stop_reason'', \<lambda>j s. dec_string j s)]) payload [])
      in if EqualFold stop ''cancelled'' \<or> EqualFold stop ''canceled'' then OutcomeCanceled
         else OutcomeNone)"

definition error_field :: "raw \<Rightarrow> string" where
  "error_field payload =
     snd (unmarshal (dec_struct [(''error'', \<lambda>j s. dec_string j s)]) payload [])"

definition classifyTurnFailure :: "raw \<Rightarrow> outcome_kind" where
  "classifyTurnFailure payload =
     (if Contains (ToLower (error_field payload)) ''cancel'' then OutcomeCanceled else OutcomeNone)"

text \<open>\<open>identity\<close> is what the client reports as its provider session id, \<open>None\<close> for a
  client without that method.\<close>

definition observe_identity :: "string option \<Rightarrow> session \<Rightarrow> session" where
  "observe_identity identity s =
     (case identity of
        Some i \<Rightarrow> if i \<noteq> [] then s\<lparr>providerSessionID := i\<rparr> else s
      | None \<Rightarrow> s)"

definition turn_over :: "session \<Rightarrow> session" where
  "turn_over s = (if st s \<noteq> StateClosing then s\<lparr>st := StateReady\<rparr> else s)"

definition observe_exit :: "(string \<Rightarrow> string) \<Rightarrow> raw \<Rightarrow> session \<Rightarrow> session" where
  "observe_exit redact payload s =
     (let s1 = s\<lparr>sawProcessExit := True\<rparr>; err = error_field payload
      in if err \<noteq> []
         then s1\<lparr>serr := Some (LifecycleError OutcomeChildExit ''wait'' (redact err) None),
                 terminalOutcome := OutcomeChildExit\<rparr>
         else s1)"

definition observeEvent :: "(string \<Rightarrow> string) \<Rightarrow> string option \<Rightarrow> event \<Rightarrow> session \<Rightarrow> session" where
  "observeEvent redact identity ev s0 =
     (if sfinished s0 then s0
      else
        (let s = observe_identity identity s0; p = ev_Payload ev in
         case ev_Kind ev of
           KindSessionReady \<Rightarrow>
             (if st s = StateLaunching \<and> launchCommitted s then s\<lparr>st := StateReady\<rparr>
              else if st s = StateLaunching then s\<lparr>pendingReady := True\<rparr>
              else s)
         | KindTurnCompleted \<Rightarrow> (turn_over s)\<lparr>lastTurnOutcome := classifyTurnCompletion p\<rparr>
         | KindTurnFailed \<Rightarrow> (turn_over s)\<lparr>lastTurnOutcome := classifyTurnFailure p\<rparr>
         | KindTurnStarted \<Rightarrow>
             (if st s \<noteq> StateClosing then s\<lparr>st := StateProcessing\<rparr> else s)
         | KindProcessExited \<Rightarrow> observe_exit redact p s
         | _ \<Rightarrow> s))"

definition publish :: "event \<Rightarrow> session \<Rightarrow> session" where
  "publish ev s =
     (if eventsClosed s then s
      else if length (events s) < eventsCap
      then s\<lparr>events := events s @ [ev], published := published s @ [ev]\<rparr>
      else s)"

subsection \<open>The end of a session\<close>

definition fix_terminal :: "session \<Rightarrow> session" where
  "fix_terminal s0 =
     (let s = s0\<lparr>sfinished := True\<rparr> in
      if closeRequested s then s\<lparr>st := StateClosed, terminalOutcome := OutcomeClosed\<rparr>
      else if sawMalformed s then
        s\<lparr>st := StateFailed, terminalOutcome := OutcomeMalformedStream,
          serr := Some (LifecycleError OutcomeMalformedStream ''read'' [] None)\<rparr>
      else if serr s \<noteq> None then s\<lparr>st := StateFailed\<rparr>
      else if sawProcessExit s then s\<lparr>st := StateClosed, terminalOutcome := OutcomeChildExit\<rparr>
      else s\<lparr>st := StateFailed, terminalOutcome := OutcomeDisconnected,
             serr := Some (LifecycleError OutcomeDisconnected ''read'' [] None)\<rparr>)"

definition close_events :: "session \<Rightarrow> session" where
  "close_events s = s\<lparr>eventsClosed := True\<rparr>"

definition close_diagnostics :: "session \<Rightarrow> session" where
  "close_diagnostics s = s\<lparr>diagnosticsClosed := True\<rparr>"

definition close_done :: "session \<Rightarrow> session" where
  "close_done s = s\<lparr>diagnosticsChanClosed := True, doneClosed := True\<rparr>"

subsection \<open>Diagnostics of a session\<close>

text \<open>\<open>emitDiagnostic\<close>: entering (or not, once diagnostics are closed), then one step
  per stage, for the emitter at position \<open>k\<close>.\<close>

definition emit_enter :: "diagnostic \<Rightarrow> session \<Rightarrow> session" where
  "emit_enter d s =
     (if diagnosticsClosed s then s else s\<lparr>emitters := emitters s @ [(d, EmitMark)]\<rparr>)"

definition emit_stage :: "nat \<Rightarrow> session \<Rightarrow> session" where
  "emit_stage k s =
     (let (d, pc) = emitters s ! k; at = (\<lambda>pc'. (emitters s)[k := (d, pc')]) in
      case pc of
        EmitMark \<Rightarrow> s\<lparr>sawMalformed := (sawMalformed s \<or> d_Kind d = DiagnosticMalformedJSON),
                      emitters := at EmitSend\<rparr>
      | EmitSend \<Rightarrow> s\<lparr>diagnostics := (if length (diagnostics s) < diagnosticsCap
                        then diagnostics s @ [d] else diagnostics s), emitters := at EmitCall\<rparr>
      | EmitCall \<Rightarrow> s\<lparr>emitters := at EmitLeave\<rparr>
      | EmitLeave \<Rightarrow> s\<lparr>emitters := take k (emitters s) @ drop (Suc k) (emitters s)\<rparr>)"

subsection \<open>Launching\<close>

definition launch_captured :: "string option \<Rightarrow> session \<Rightarrow> session" where
  "launch_captured identity s =
     s\<lparr>providerSessionID := (case identity of Some i \<Rightarrow> i | None \<Rightarrow> providerSessionID s),
       launching := LaunchCommit\<rparr>"

definition launch_aborted :: "session \<Rightarrow> session" where
  "launch_aborted s =
     s\<lparr>closeRequested := True, st := StateClosing, launching := LaunchAbort\<rparr>"

definition launch_commit :: "session \<Rightarrow> session" where
  "launch_commit s =
     s\<lparr>launchCommitted := True,
       st := (if st s = StateLaunching then StateReady else st s), launching := LaunchRelease\<rparr>"

definition launch_release :: "bool \<Rightarrow> session \<Rightarrow> session" where
  "launch_release ok s = s\<lparr>launchDone := True, launching := LaunchReturned ok\<rparr>"

end
