(* ===== verification/Lifecycle_Steps.thy ===== *)
theory Lifecycle_Steps
  imports Lifecycle Prelude
begin

text \<open>
  Every interleaving of the goroutines that share a session, as a step relation: the
  host's calls, the drain loop, the manager's \<open>Launch\<close>, the one run of \<open>finish\<close> and
  the emitters of diagnostics. One step is one section under the session's mutex, one
  channel operation or one call of the client. What the client does (its errors, its
  events, when it returns) is free.
\<close>

subsection \<open>Phases of finish\<close>

fun phase_rank :: "finish_phase \<Rightarrow> nat" where
  "phase_rank FinishNot = 0"
| "phase_rank FinishClosing = 1"
| "phase_rank FinishFixed = 2"
| "phase_rank FinishUnregistered = 3"
| "phase_rank FinishEvents = 4"
| "phase_rank FinishDiagnostics = 5"
| "phase_rank FinishDone = 6"

lemma phase_rank_inj: "phase_rank p = phase_rank q \<Longrightarrow> p = q"
  by (cases p; cases q) simp_all

instantiation finish_phase :: linorder
begin

definition less_eq_finish_phase :: "finish_phase \<Rightarrow> finish_phase \<Rightarrow> bool" where
  "less_eq_finish_phase p q \<longleftrightarrow> phase_rank p \<le> phase_rank q"

definition less_finish_phase :: "finish_phase \<Rightarrow> finish_phase \<Rightarrow> bool" where
  "less_finish_phase p q \<longleftrightarrow> phase_rank p < phase_rank q"

instance
  by standard (auto simp: less_eq_finish_phase_def less_finish_phase_def phase_rank_inj)

end

lemmas phase_order = less_eq_finish_phase_def less_finish_phase_def

subsection \<open>Steps\<close>

text \<open>Somebody is at \<open>closeOnce.Do\<close>: \<open>Close\<close> or a failed launch, which request the close
  first, or \<open>finish\<close>.\<close>

definition at_close_once :: "session \<Rightarrow> bool" where
  "at_close_once s \<longleftrightarrow> closeRequested s \<or> finishOnce s = FinishClosing"

definition may_finish :: "session \<Rightarrow> bool" where
  "may_finish s \<longleftrightarrow> launchDone s \<and> (drain s = DrainEnded \<or> launching s = LaunchReturned False)"

definition after_observe :: "event \<Rightarrow> drain_pc" where
  "after_observe ev = (if ev_Kind ev = KindSessionReady then DrainHolding ev else DrainPublishing ev)"

inductive session_step :: "(string \<Rightarrow> string) \<Rightarrow> session \<Rightarrow> session \<Rightarrow> bool" for redact where
  prompt: "prompt_begin s = Some s' \<Longrightarrow> session_step redact s s'"
| prompted: "0 < prompting s \<Longrightarrow> session_step redact s (fst (prompt_return err s))"
| close: "session_step redact s (close_request s)"
| client_close: "closeOnce s = OnceFresh \<Longrightarrow> at_close_once s \<Longrightarrow>
    session_step redact s (close_client_call s)"
| client_closed: "closeOnce s = OnceRunning \<Longrightarrow> session_step redact s (close_client_return err s)"
| observe: "drain s = DrainReading \<Longrightarrow>
    session_step redact s ((observeEvent redact identity ev s)\<lparr>drain := after_observe ev\<rparr>)"
| hold: "drain s = DrainHolding ev \<Longrightarrow> launchDone s \<Longrightarrow>
    session_step redact s (s\<lparr>drain := (if launchCommitted s then DrainPublishing ev else DrainReading)\<rparr>)"
| publish: "drain s = DrainPublishing ev \<Longrightarrow>
    session_step redact s ((publish ev s)\<lparr>drain := DrainReading\<rparr>)"
| eof: "drain s = DrainReading \<Longrightarrow> session_step redact s (s\<lparr>drain := DrainEnded\<rparr>)"
| captured: "launching s = LaunchClient \<Longrightarrow> session_step redact s (launch_captured identity s)"
| aborted: "launching s \<in> {LaunchClient, LaunchCommit} \<Longrightarrow> session_step redact s (launch_aborted s)"
| committed: "launching s = LaunchCommit \<Longrightarrow> session_step redact s (launch_commit s)"
| released: "launching s = LaunchRelease \<Longrightarrow> session_step redact s (launch_release True s)"
| given_up: "launching s = LaunchAbort \<Longrightarrow> closeOnce s = OnceDone \<Longrightarrow>
    session_step redact s (launch_release False s)"
| finish_start: "finishOnce s = FinishNot \<Longrightarrow> may_finish s \<Longrightarrow>
    session_step redact s (s\<lparr>finishOnce := FinishClosing\<rparr>)"
| finish_fix: "finishOnce s = FinishClosing \<Longrightarrow> closeOnce s = OnceDone \<Longrightarrow>
    session_step redact s ((fix_terminal s)\<lparr>finishOnce := FinishFixed\<rparr>)"
| finish_unregister: "finishOnce s = FinishFixed \<Longrightarrow>
    session_step redact s (s\<lparr>finishOnce := FinishUnregistered\<rparr>)"
| finish_events: "finishOnce s = FinishUnregistered \<Longrightarrow>
    session_step redact s ((close_events s)\<lparr>finishOnce := FinishEvents\<rparr>)"
| finish_diagnostics: "finishOnce s = FinishEvents \<Longrightarrow>
    session_step redact s ((close_diagnostics s)\<lparr>finishOnce := FinishDiagnostics\<rparr>)"
| finish_done: "finishOnce s = FinishDiagnostics \<Longrightarrow> emitters s = [] \<Longrightarrow>
    session_step redact s ((close_done s)\<lparr>finishOnce := FinishDone\<rparr>)"
| emit: "session_step redact s (emit_enter d s)"
| emitting: "k < length (emitters s) \<Longrightarrow> session_step redact s (emit_stage k s)"
| receive_event: "events s \<noteq> [] \<Longrightarrow> session_step redact s (s\<lparr>events := tl (events s)\<rparr>)"
| receive_diagnostic: "diagnostics s \<noteq> [] \<Longrightarrow>
    session_step redact s (s\<lparr>diagnostics := tl (diagnostics s)\<rparr>)"

inductive session_reach :: "(string \<Rightarrow> string) \<Rightarrow> session \<Rightarrow> session \<Rightarrow> bool" for redact where
  start: "session_reach redact s s"
| step: "session_reach redact s s' \<Longrightarrow> session_step redact s' s'' \<Longrightarrow> session_reach redact s s''"

inductive_cases reach_cases: "session_reach redact s s'"

lemma reach_trans:
  "session_reach redact s' s'' \<Longrightarrow> session_reach redact s s' \<Longrightarrow> session_reach redact s s''"
  by (induction rule: session_reach.induct) (auto intro: session_reach.step)

subsection \<open>The invariant\<close>

text \<open>
  \<open>inv_once\<close>: the client is closed at most once. \<open>inv_launch\<close>: the launch is released
  when it has returned, committed or with a close requested. \<open>inv_finish\<close>: the phase
  of \<open>finish\<close> says what is closed. \<open>inv_state\<close>: the state is terminal exactly when
  fixed, and closing exactly when a close was requested before that. \<open>inv_ready\<close>:
  a published \<open>session.ready\<close> follows the commit.
\<close>

definition inv_once :: "session \<Rightarrow> bool" where
  "inv_once s \<longleftrightarrow> closeCalls s = (if closeOnce s = OnceFresh then 0 else 1)"

fun returned :: "launch_pc \<Rightarrow> bool" where
  "returned (LaunchReturned ok) = True"
| "returned _ = False"

definition inv_launch :: "session \<Rightarrow> bool" where
  "inv_launch s \<longleftrightarrow>
     (launchDone s \<longleftrightarrow> returned (launching s)) \<and>
     (launchCommitted s \<longleftrightarrow> launching s \<in> {LaunchRelease, LaunchReturned True}) \<and>
     (launching s \<in> {LaunchAbort, LaunchReturned False} \<longrightarrow> closeRequested s) \<and>
     (finishOnce s \<noteq> FinishNot \<longrightarrow> launchDone s)"

definition inv_finish :: "session \<Rightarrow> bool" where
  "inv_finish s \<longleftrightarrow>
     (sfinished s \<longleftrightarrow> FinishFixed \<le> finishOnce s) \<and>
     (eventsClosed s \<longleftrightarrow> FinishEvents \<le> finishOnce s) \<and>
     (diagnosticsClosed s \<longleftrightarrow> FinishDiagnostics \<le> finishOnce s) \<and>
     (diagnosticsChanClosed s \<longleftrightarrow> finishOnce s = FinishDone) \<and>
     (doneClosed s \<longleftrightarrow> finishOnce s = FinishDone) \<and>
     (finishOnce s = FinishDone \<longrightarrow> emitters s = []) \<and>
     (sfinished s \<longrightarrow> closeOnce s = OnceDone)"

definition inv_state :: "session \<Rightarrow> bool" where
  "inv_state s \<longleftrightarrow>
     (sfinished s \<longleftrightarrow> st s \<in> {StateClosed, StateFailed}) \<and>
     (st s = StateClosing \<longrightarrow> closeRequested s) \<and>
     (closeRequested s \<longrightarrow> sfinished s \<or> st s = StateClosing)"

definition inv_ready :: "session \<Rightarrow> bool" where
  "inv_ready s \<longleftrightarrow>
     (\<forall>ev \<in> set (published s). ev_Kind ev = KindSessionReady \<longrightarrow> launchCommitted s) \<and>
     (\<forall>ev. drain s = DrainPublishing ev \<and> ev_Kind ev = KindSessionReady \<longrightarrow> launchCommitted s)"

lemmas section_defs = prompt_begin_def prompt_return_def close_request_def
  close_client_call_def close_client_return_def observeEvent_def observe_identity_def
  turn_over_def observe_exit_def publish_def launch_captured_def launch_aborted_def
  launch_commit_def launch_release_def fix_terminal_def close_events_def
  close_diagnostics_def close_done_def emit_enter_def emit_stage_def Let_def

text \<open>What observing an event, publishing and emitting leave alone.\<close>

lemma observeEvent_frame [simp, frame_simps]:
  "closeCalls (observeEvent redact i ev s) = closeCalls s"
  "closeOnce (observeEvent redact i ev s) = closeOnce s"
  "launchDone (observeEvent redact i ev s) = launchDone s"
  "launching (observeEvent redact i ev s) = launching s"
  "launchCommitted (observeEvent redact i ev s) = launchCommitted s"
  "closeRequested (observeEvent redact i ev s) = closeRequested s"
  "finishOnce (observeEvent redact i ev s) = finishOnce s"
  "sfinished (observeEvent redact i ev s) = sfinished s"
  "eventsClosed (observeEvent redact i ev s) = eventsClosed s"
  "diagnosticsClosed (observeEvent redact i ev s) = diagnosticsClosed s"
  "diagnosticsChanClosed (observeEvent redact i ev s) = diagnosticsChanClosed s"
  "doneClosed (observeEvent redact i ev s) = doneClosed s"
  "emitters (observeEvent redact i ev s) = emitters s"
  "published (observeEvent redact i ev s) = published s"
  "drain (observeEvent redact i ev s) = drain s"
  "sid (observeEvent redact i ev s) = sid s"
  by (simp_all add: section_defs split: event_kind.split option.split)

lemma emit_stage_frame [simp, frame_simps]:
  "closeCalls (emit_stage k s) = closeCalls s" "closeOnce (emit_stage k s) = closeOnce s"
  "launchDone (emit_stage k s) = launchDone s" "launching (emit_stage k s) = launching s"
  "launchCommitted (emit_stage k s) = launchCommitted s"
  "closeRequested (emit_stage k s) = closeRequested s"
  "finishOnce (emit_stage k s) = finishOnce s" "sfinished (emit_stage k s) = sfinished s"
  "eventsClosed (emit_stage k s) = eventsClosed s"
  "diagnosticsClosed (emit_stage k s) = diagnosticsClosed s"
  "diagnosticsChanClosed (emit_stage k s) = diagnosticsChanClosed s"
  "doneClosed (emit_stage k s) = doneClosed s" "published (emit_stage k s) = published s"
  "drain (emit_stage k s) = drain s" "st (emit_stage k s) = st s" "serr (emit_stage k s) = serr s"
  "terminalOutcome (emit_stage k s) = terminalOutcome s"
  "lastTurnOutcome (emit_stage k s) = lastTurnOutcome s"
  "providerSessionID (emit_stage k s) = providerSessionID s"
  "sawProcessExit (emit_stage k s) = sawProcessExit s" "sid (emit_stage k s) = sid s"
  by (auto simp: emit_stage_def Let_def split: prod.split emitter_pc.split)

lemmas step_defs = prompt_begin_def prompt_return_def close_request_def
  close_client_call_def close_client_return_def publish_def launch_captured_def
  launch_aborted_def launch_commit_def launch_release_def fix_terminal_def close_events_def
  close_diagnostics_def close_done_def emit_enter_def at_close_once_def may_finish_def

lemma inv_once_step: "session_step redact s s' \<Longrightarrow> inv_once s \<Longrightarrow> inv_once s'"
  by (induction rule: session_step.induct)
     (auto simp: inv_once_def step_defs Let_def split: if_splits option.splits)

lemma inv_launch_step: "session_step redact s s' \<Longrightarrow> inv_launch s \<Longrightarrow> inv_launch s'"
  by (induction rule: session_step.induct)
     (simp_all add: inv_launch_def step_defs Let_def split: if_splits option.splits, auto)

lemma inv_finish_step: "session_step redact s s' \<Longrightarrow> inv_finish s \<Longrightarrow> inv_finish s'"
  by (induction rule: session_step.induct)
     (simp_all add: inv_finish_def step_defs phase_order Let_def split: if_splits option.splits,
      auto)

lemma observeEvent_finished [simp]: "sfinished s \<Longrightarrow> observeEvent redact i ev s = s"
  by (simp add: observeEvent_def)

lemma observeEvent_closing [simp]:
  "st (observeEvent redact i ev s) = StateClosing \<longleftrightarrow> st s = StateClosing"
  by (auto simp: section_defs split: event_kind.splits option.splits if_splits)

lemma observeEvent_terminal:
  "st s \<noteq> StateClosed \<and> st s \<noteq> StateFailed \<Longrightarrow>
   st (observeEvent redact i ev s) \<noteq> StateClosed \<and> st (observeEvent redact i ev s) \<noteq> StateFailed"
  by (auto simp: section_defs split: event_kind.splits option.splits if_splits)

lemma not_returned_not_finished:
  assumes "inv_launch s" and "inv_finish s" and "\<not> returned (launching s)"
  shows "\<not> sfinished s"
proof -
  have "finishOnce s = FinishNot" using assms(1,3) by (auto simp: inv_launch_def)
  with assms(2) show ?thesis by (simp add: inv_finish_def phase_order)
qed

lemma inv_state_cong:
  "inv_state s \<Longrightarrow> sfinished s' = sfinished s \<Longrightarrow> st s' = st s \<Longrightarrow>
   closeRequested s' = closeRequested s \<Longrightarrow> inv_state s'"
  by (auto simp: inv_state_def)

lemma fix_terminal_fields:
  "sfinished (fix_terminal s)" "st (fix_terminal s) \<in> {StateClosed, StateFailed}"
  by (simp_all add: fix_terminal_def Let_def)

lemma inv_state_step:
  "session_step redact s s' \<Longrightarrow> inv_launch s \<Longrightarrow> inv_finish s \<Longrightarrow> inv_state s \<Longrightarrow> inv_state s'"
proof (induction rule: session_step.induct)
  case (observe s ev i)
  then show ?case
    using observeEvent_terminal [of s redact i ev]
    by (cases "sfinished s") (simp_all add: inv_state_def)
next
  case (aborted s)
  then have "\<not> sfinished s" by (intro not_returned_not_finished) auto
  with aborted show ?case by (simp add: inv_state_def launch_aborted_def)
next
  case (committed s)
  then have "\<not> sfinished s" by (intro not_returned_not_finished) auto
  with committed show ?case
    by (cases "st s"; simp add: inv_state_def launch_commit_def)
next
  case (prompted s err)
  then show ?case
    by (cases "st s"; cases err; simp add: inv_state_def prompt_return_def Let_def)
next
  case (prompt s s')
  then have "st s = StateReady" "s' = s\<lparr>st := StateProcessing, prompting := Suc (prompting s)\<rparr>"
    by (auto simp: prompt_begin_def split: if_splits)
  with prompt.prems show ?case by (auto simp: inv_state_def)
next
  case (close s)
  then show ?case
    by (cases "st s"; cases "sfinished s"; simp add: inv_state_def close_request_def Let_def)
next
  case (finish_fix s)
  show ?case using fix_terminal_fields [of s] by (auto simp: inv_state_def)
qed (erule inv_state_cong; simp add: step_defs Let_def)+

lemma inv_ready_step:
  "session_step redact s s' \<Longrightarrow> inv_ready s \<Longrightarrow> inv_ready s'"
  by (induction rule: session_step.induct)
     (auto simp: inv_ready_def step_defs after_observe_def Let_def split: if_splits option.splits)

definition session_inv :: "session \<Rightarrow> bool" where
  "session_inv s \<longleftrightarrow> inv_once s \<and> inv_launch s \<and> inv_finish s \<and> inv_state s \<and> inv_ready s"

lemma session_inv_new: "session_inv (new_session i)"
  by (simp add: session_inv_def inv_once_def inv_launch_def inv_finish_def inv_state_def
      inv_ready_def new_session_def phase_order)

lemma session_inv_step: "session_step redact s s' \<Longrightarrow> session_inv s \<Longrightarrow> session_inv s'"
  unfolding session_inv_def
  using inv_once_step inv_launch_step inv_finish_step inv_state_step inv_ready_step by blast

lemma session_inv_reach: "session_reach redact s s' \<Longrightarrow> session_inv s \<Longrightarrow> session_inv s'"
  by (induction rule: session_reach.induct) (auto dest: session_inv_step)

lemma session_invD:
  assumes "session_reach redact (new_session i) s"
  shows "inv_once s" "inv_launch s" "inv_finish s" "inv_state s" "inv_ready s"
  using session_inv_reach [OF assms session_inv_new] by (simp_all add: session_inv_def)

end
