(* ===== verification/Lifecycle_Properties.thy ===== *)
theory Lifecycle_Properties
  imports Lifecycle_Steps
begin

text \<open>
  Properties of a managed session over all its interleavings: the client is
  closed once, the terminal state and error are fixed once, channels close in order and
  nothing is sent on a closed one, readiness follows the commit, and the end can
  always be reached.
\<close>

subsection \<open>The error and the outcome agree\<close>

definition inv_err :: "session \<Rightarrow> bool" where
  "inv_err s \<longleftrightarrow>
     (\<not> sfinished s \<longrightarrow>
        (serr s = None \<and> terminalOutcome s = OutcomeNone) \<or>
        (sawProcessExit s \<and> terminalOutcome s = OutcomeChildExit \<and>
         (\<exists>d. serr s = Some (LifecycleError OutcomeChildExit ''wait'' d None)))) \<and>
     (st s = StateFailed \<and> sfinished s \<longrightarrow>
        terminalOutcome s \<in> {OutcomeMalformedStream, OutcomeChildExit, OutcomeDisconnected} \<and>
        (\<exists>op d. serr s = Some (LifecycleError (terminalOutcome s) op d None))) \<and>
     (st s = StateClosed \<and> sfinished s \<longrightarrow>
        (terminalOutcome s = OutcomeClosed \<and> closeRequested s) \<or>
        (terminalOutcome s = OutcomeChildExit \<and> serr s = None \<and> sawProcessExit s))"

lemma inv_err_cong:
  "inv_err s \<Longrightarrow> sfinished s' = sfinished s \<Longrightarrow> (sfinished s \<Longrightarrow> st s' = st s) \<Longrightarrow> serr s' = serr s \<Longrightarrow>
   terminalOutcome s' = terminalOutcome s \<Longrightarrow> sawProcessExit s' = sawProcessExit s \<Longrightarrow>
   (closeRequested s \<Longrightarrow> closeRequested s') \<Longrightarrow> inv_err s'"
  by (auto simp: inv_err_def)

lemma observeEvent_err:
  assumes "\<not> sfinished s" and "inv_err s"
  shows "inv_err (observeEvent redact i ev s)"
proof (cases "ev_Kind ev = KindProcessExited \<and> error_field (ev_Payload ev) \<noteq> []")
  case True
  with assms show ?thesis
    by (auto simp: inv_err_def observeEvent_def observe_exit_def observe_identity_def Let_def
        split: option.split)
next
  case False
  have "serr (observeEvent redact i ev s) = serr s"
    "terminalOutcome (observeEvent redact i ev s) = terminalOutcome s"
    "sawProcessExit s \<Longrightarrow> sawProcessExit (observeEvent redact i ev s)"
    using False by (auto simp: section_defs split: event_kind.splits option.splits if_splits)
  with assms show ?thesis by (auto simp: inv_err_def)
qed

lemma inv_err_step:
  "session_step redact s s' \<Longrightarrow> inv_launch s \<Longrightarrow> inv_finish s \<Longrightarrow> inv_state s \<Longrightarrow> inv_err s \<Longrightarrow> inv_err s'"
proof (induction rule: session_step.induct)
  case (observe s ev i)
  then have "inv_err (observeEvent redact i ev s)"
    using observeEvent_err by (cases "sfinished s") auto
  then show ?case by (rule inv_err_cong) simp_all
next
  case (prompt s s')
  then have "\<not> sfinished s" "s' = s\<lparr>st := StateProcessing, prompting := Suc (prompting s)\<rparr>"
    by (auto simp: prompt_begin_def inv_state_def split: if_splits)
  then show ?case using prompt.prems(4) by (auto intro: inv_err_cong)
next
  case (prompted s err)
  show ?case
    by (rule inv_err_cong [OF prompted.prems(4)])
       (use prompted.prems(3) in \<open>auto simp: prompt_return_def inv_state_def Let_def split: option.split\<close>)
next
  case (close s)
  show ?case
    by (rule inv_err_cong [OF close.prems(4)])
       (use close.prems(3) in \<open>auto simp: close_request_def inv_state_def Let_def\<close>)
next
  case (aborted s)
  then have "\<not> sfinished s" by (intro not_returned_not_finished) auto
  then show ?case by (intro inv_err_cong [OF aborted.prems(4)]) (simp_all add: launch_aborted_def)
next
  case (committed s)
  then have "\<not> sfinished s" by (intro not_returned_not_finished) auto
  then show ?case by (intro inv_err_cong [OF committed.prems(4)]) (simp_all add: launch_commit_def)
next
  case (finish_fix s)
  then have "\<not> sfinished s" by (simp add: inv_finish_def phase_order)
  with finish_fix.prems(4) show ?case by (auto simp: inv_err_def fix_terminal_def Let_def)
qed (erule inv_err_cong; simp add: step_defs Let_def)+

lemma inv_err_reach:
  "session_reach redact s s' \<Longrightarrow> session_inv s \<Longrightarrow> inv_err s \<Longrightarrow> inv_err s'"
proof (induction rule: session_reach.induct)
  case (step s s' s'')
  then have "session_inv s'" by (auto dest: session_inv_reach)
  with step show ?case using inv_err_step by (auto simp: session_inv_def)
qed

subsection \<open>Properties\<close>

text \<open>
  C15. The client is closed at most once, whatever calls of \<open>Close\<close>, failed launches and
  transport ends race, and it has been closed once when the session is done.
\<close>

theorem client_closed_once:
  assumes "session_reach redact (new_session i) s"
  shows "closeCalls s \<le> 1 \<and> (doneClosed s \<longrightarrow> closeCalls s = 1)"
  using session_invD(1,3) [OF assms]
  by (auto simp: inv_once_def inv_finish_def phase_order)

lemma fixed_inv:
  assumes "session_inv s" and "sfinished s"
  shows "st s \<noteq> StateReady" "st s \<noteq> StateProcessing" "st s = StateClosed \<or> st s = StateFailed"
    "launching s \<noteq> LaunchClient" "launching s \<noteq> LaunchCommit" "finishOnce s \<noteq> FinishClosing"
proof -
  show state: "st s = StateClosed \<or> st s = StateFailed"
    using assms by (auto simp: session_inv_def inv_state_def)
  then show "st s \<noteq> StateReady" "st s \<noteq> StateProcessing" by auto
  have "returned (launching s)"
    using assms not_returned_not_finished by (auto simp: session_inv_def)
  then show "launching s \<noteq> LaunchClient" "launching s \<noteq> LaunchCommit" by auto
  have "FinishFixed \<le> finishOnce s" using assms by (auto simp: session_inv_def inv_finish_def)
  then show "finishOnce s \<noteq> FinishClosing" by (auto simp: phase_order)
qed

lemma fixed_step:
  "session_step redact s s' \<Longrightarrow> session_inv s \<Longrightarrow> sfinished s \<Longrightarrow>
   st s' = st s \<and> serr s' = serr s \<and> terminalOutcome s' = terminalOutcome s \<and>
   lastTurnOutcome s' = lastTurnOutcome s \<and> providerSessionID s' = providerSessionID s \<and> sfinished s'"
proof (induction rule: session_step.induct)
  case (prompt s s')
  with fixed_inv(1) [OF prompt.prems] show ?case by (simp add: prompt_begin_def)
next
  case (prompted s err)
  with fixed_inv(2) [OF prompted.prems] show ?case
    by (simp add: prompt_return_def Let_def split: option.split)
next
  case (close s)
  with fixed_inv(3) [OF close.prems] show ?case by (auto simp: close_request_def Let_def)
next
  case (captured s i)
  with fixed_inv(4) [OF captured.prems] show ?case by simp
next
  case (aborted s)
  with fixed_inv(4,5) [OF aborted.prems] show ?case by simp
next
  case (committed s)
  with fixed_inv(5) [OF committed.prems] show ?case by simp
next
  case (finish_fix s)
  with fixed_inv(6) [OF finish_fix.prems] show ?case by simp
qed (simp_all add: close_client_call_def close_client_return_def publish_def launch_release_def
    close_events_def close_diagnostics_def close_done_def emit_enter_def)

lemma fixed_reach:
  "session_reach redact s s' \<Longrightarrow> session_inv s \<Longrightarrow> sfinished s \<Longrightarrow>
   st s' = st s \<and> serr s' = serr s \<and> terminalOutcome s' = terminalOutcome s \<and>
   lastTurnOutcome s' = lastTurnOutcome s \<and> providerSessionID s' = providerSessionID s \<and> sfinished s'"
proof (induction rule: session_reach.induct)
  case (step s s' s'')
  then show ?case
    using fixed_step [OF step.hyps(2)] session_inv_reach [OF step.hyps(1)] by auto
qed simp

text \<open>
  The terminal state is fixed once. After \<open>finish\<close> fixed it, no call, event or
  diagnostic changes the state, the error, the terminal outcome or the outcome of the
  last turn: every later \<open>Snapshot\<close> and \<open>Wait\<close> says the same.
\<close>

theorem terminal_state_stable:
  assumes "session_reach redact (new_session i) s" and "sfinished s" and "session_reach redact s s'"
  shows "st s' = st s \<and> serr s' = serr s \<and> terminalOutcome s' = terminalOutcome s \<and>
    lastTurnOutcome s' = lastTurnOutcome s \<and> providerSessionID s' = providerSessionID s"
  using fixed_reach [OF assms(3) session_inv_reach [OF assms(1) session_inv_new] assms(2)] by blast

text \<open>
  Channels close in order. When \<open>done\<close> is closed (\<open>Wait\<close> and \<open>Close\<close> return), the
  state is terminal, both event and diagnostic channels are closed and no emitter is
  left, so no \<open>OnDiagnostic\<close> callback runs; and while an emitter is inside, the
  channel it sends on is open.
\<close>

theorem done_closes_last:
  assumes "session_reach redact (new_session i) s"
  shows "(doneClosed s \<longrightarrow> st s \<in> {StateClosed, StateFailed} \<and> eventsClosed s \<and>
      diagnosticsChanClosed s \<and> emitters s = []) \<and>
    (emitters s \<noteq> [] \<longrightarrow> \<not> diagnosticsChanClosed s)"
  using session_invD(3,4) [OF assms]
  by (auto simp: inv_finish_def inv_state_def phase_order)

text \<open>
  Readiness follows the commit: a \<open>session.ready\<close> event reaches the host only after
  the launch was committed, a session that was not committed is never live, and one whose
  close was requested accepts no prompt.
\<close>

theorem ready_after_commit:
  assumes "session_reach redact (new_session i) s"
  shows "(\<forall>ev \<in> set (published s). ev_Kind ev = KindSessionReady \<longrightarrow> launchCommitted s) \<and>
    (Live s \<longrightarrow> launchCommitted s) \<and> (closeRequested s \<longrightarrow> prompt_begin s = None)"
proof -
  have "st s \<noteq> StateReady" if "closeRequested s"
    using session_invD(4) [OF assms] that by (auto simp: inv_state_def)
  with session_invD(5) [OF assms] show ?thesis
    by (auto simp: inv_ready_def Live_def prompt_begin_def)
qed

text \<open>
  The terminal outcome and the error of \<open>Wait\<close> agree. A failed session has a
  lifecycle error of its outcome's kind (malformed stream, child exit or disconnected);
  a closed one was closed by request, or its process exited without an error and
  \<open>Wait\<close> returns none.
\<close>

theorem terminal_outcome_classified:
  assumes "session_reach redact (new_session i) s" and "sfinished s"
  shows "(st s = StateFailed \<and> terminalOutcome s \<in> {OutcomeMalformedStream, OutcomeChildExit, OutcomeDisconnected} \<and>
       (\<exists>op d. serr s = Some (LifecycleError (terminalOutcome s) op d None))) \<or>
    (st s = StateClosed \<and> terminalOutcome s = OutcomeClosed \<and> closeRequested s) \<or>
    (st s = StateClosed \<and> terminalOutcome s = OutcomeChildExit \<and> serr s = None \<and> sawProcessExit s)"
proof -
  have "inv_err (new_session i)" by (simp add: inv_err_def new_session_def)
  then have err: "inv_err s" by (rule inv_err_reach [OF assms(1) session_inv_new])
  have "st s \<in> {StateClosed, StateFailed}"
    using session_invD(4) [OF assms(1)] assms(2) by (simp add: inv_state_def)
  with err assms(2) show ?thesis unfolding inv_err_def by blast
qed

subsection \<open>The end can be reached\<close>

lemma reach_one: "session_step redact s s' \<Longrightarrow> session_reach redact s s'"
  by (rule session_reach.step [OF session_reach.start])

lemma emitters_leave:
  "\<exists>s'. session_reach redact s s' \<and> emitters s' = [] \<and> finishOnce s' = finishOnce s \<and>
     drain s' = drain s \<and> launching s' = launching s \<and> launchDone s' = launchDone s"
proof (induction "\<Sum>(d, pc) \<leftarrow> emitters s. case pc of EmitMark \<Rightarrow> 4 | EmitSend \<Rightarrow> 3 | EmitCall \<Rightarrow> 2 | EmitLeave \<Rightarrow> (1::nat)"
    arbitrary: s rule: less_induct)
  case less
  show ?case
  proof (cases "emitters s")
    case Nil
    then show ?thesis using session_reach.start by blast
  next
    case (Cons e es)
    obtain d pc where e: "e = (d, pc)" by (cases e)
    have step: "session_step redact s (emit_stage 0 s)"
      using Cons by (intro session_step.emitting) simp
    have "\<exists>s'. session_reach redact (emit_stage 0 s) s' \<and> emitters s' = [] \<and>
        finishOnce s' = finishOnce (emit_stage 0 s) \<and> drain s' = drain (emit_stage 0 s) \<and>
        launching s' = launching (emit_stage 0 s) \<and> launchDone s' = launchDone (emit_stage 0 s)"
      by (rule less.hyps) (cases pc; simp add: emit_stage_def Cons e Let_def)
    then show ?thesis
      using reach_trans [OF _ reach_one [OF step]] by auto
  qed
qed

lemma client_gets_closed:
  assumes "at_close_once s"
  shows "\<exists>s'. session_reach redact s s' \<and> closeOnce s' = OnceDone \<and> finishOnce s' = finishOnce s \<and>
    drain s' = drain s \<and> launching s' = launching s \<and> launchDone s' = launchDone s"
proof (cases "closeOnce s")
  case OnceFresh
  let ?s1 = "close_client_call s" and ?s2 = "close_client_return None (close_client_call s)"
  have "session_step redact s ?s1" by (rule session_step.client_close [OF OnceFresh assms])
  moreover have "session_step redact ?s1 ?s2"
    by (rule session_step.client_closed) (simp add: close_client_call_def)
  ultimately have "session_reach redact s ?s2" by (blast intro: session_reach.step reach_one)
  then show ?thesis
    by (intro exI [of _ ?s2]) (simp add: close_client_call_def close_client_return_def)
next
  case OnceRunning
  then have "session_reach redact s (close_client_return None s)"
    by (intro reach_one session_step.client_closed)
  then show ?thesis
    by (intro exI [of _ "close_client_return None s"]) (simp add: close_client_return_def)
next
  case OnceDone
  then show ?thesis using session_reach.start by blast
qed

lemma finish_advances:
  assumes "may_finish s" and "finishOnce s \<noteq> FinishDone"
  shows "\<exists>s'. session_reach redact s s' \<and> may_finish s' \<and> finishOnce s < finishOnce s'"
proof -
  have one: "session_step redact s s' \<Longrightarrow> may_finish s' \<Longrightarrow> finishOnce s < finishOnce s' \<Longrightarrow> ?thesis" for s'
    using reach_one by blast
  show ?thesis
  proof (cases "finishOnce s")
    case FinishNot
    show ?thesis
      by (rule one [OF session_step.finish_start [OF FinishNot assms(1)]])
         (use assms(1) FinishNot in \<open>simp_all add: may_finish_def phase_order\<close>)
  next
    case FinishClosing
    then obtain s1 where s1: "session_reach redact s s1" "closeOnce s1 = OnceDone"
      "finishOnce s1 = FinishClosing" "drain s1 = drain s" "launching s1 = launching s"
      "launchDone s1 = launchDone s"
      using client_gets_closed [of s redact] by (auto simp: at_close_once_def)
    have fields: "drain (fix_terminal s1) = drain s1" "launching (fix_terminal s1) = launching s1"
      "launchDone (fix_terminal s1) = launchDone s1"
      by (simp_all add: fix_terminal_def Let_def)
    have "session_reach redact s ((fix_terminal s1)\<lparr>finishOnce := FinishFixed\<rparr>)"
      by (rule session_reach.step [OF s1(1) session_step.finish_fix [OF s1(3,2)]])
    then show ?thesis
      using assms(1) FinishClosing s1(4-6) fields
      by (intro exI [of _ "(fix_terminal s1)\<lparr>finishOnce := FinishFixed\<rparr>"])
         (simp add: may_finish_def phase_order)
  next
    case FinishFixed
    show ?thesis
      by (rule one [OF session_step.finish_unregister [OF FinishFixed]])
         (use assms(1) FinishFixed in \<open>simp_all add: may_finish_def phase_order\<close>)
  next
    case FinishUnregistered
    show ?thesis
      by (rule one [OF session_step.finish_events [OF FinishUnregistered]])
         (use assms(1) FinishUnregistered in \<open>simp_all add: may_finish_def phase_order close_events_def\<close>)
  next
    case FinishEvents
    show ?thesis
      by (rule one [OF session_step.finish_diagnostics [OF FinishEvents]])
         (use assms(1) FinishEvents in \<open>simp_all add: may_finish_def phase_order close_diagnostics_def\<close>)
  next
    case FinishDiagnostics
    obtain s1 where s1: "session_reach redact s s1" "emitters s1 = []" "finishOnce s1 = FinishDiagnostics"
      "drain s1 = drain s" "launching s1 = launching s" "launchDone s1 = launchDone s"
      using emitters_leave [of redact s] FinishDiagnostics by auto
    have "session_reach redact s ((close_done s1)\<lparr>finishOnce := FinishDone\<rparr>)"
      by (rule session_reach.step [OF s1(1) session_step.finish_done [OF s1(3,2)]])
    then show ?thesis
      using assms(1) FinishDiagnostics s1(4-6)
      by (intro exI [of _ "(close_done s1)\<lparr>finishOnce := FinishDone\<rparr>"])
         (simp add: may_finish_def phase_order close_done_def)
  next
    case FinishDone
    with assms(2) show ?thesis by simp
  qed
qed

lemma finish_completes:
  "may_finish s \<Longrightarrow> \<exists>s'. session_reach redact s s' \<and> finishOnce s' = FinishDone"
proof (induction "6 - phase_rank (finishOnce s)" arbitrary: s rule: less_induct)
  case less
  show ?case
  proof (cases "finishOnce s = FinishDone")
    case True
    then show ?thesis using session_reach.start by blast
  next
    case False
    obtain s1 where s1: "session_reach redact s s1" "may_finish s1" "finishOnce s < finishOnce s1"
      using finish_advances [OF less.prems False] by blast
    have "phase_rank p \<le> 6" for p by (cases p) simp_all
    with s1(3) have "6 - phase_rank (finishOnce s1) < 6 - phase_rank (finishOnce s)"
      by (auto simp: phase_order intro: diff_less_mono2 less_le_trans)
    from less.hyps [OF this s1(2)] show ?thesis using reach_trans s1(1) by blast
  qed
qed

text \<open>
  C20. Teardown never gets stuck. From every state of a session whose launch has been
  released and whose client's event stream has ended (or whose launch failed), a state is
  reachable in which the session is done.
\<close>

theorem teardown_completes:
  assumes "session_reach redact (new_session i) s" and "launchDone s"
    and "drain s = DrainEnded \<or> launching s = LaunchReturned False"
  shows "\<exists>s'. session_reach redact s s' \<and> doneClosed s' \<and> wait_result s' \<noteq> None"
proof -
  obtain s' where s': "session_reach redact s s'" "finishOnce s' = FinishDone"
    using finish_completes [of s redact] assms(2,3) by (auto simp: may_finish_def)
  have "doneClosed s'"
    using session_invD(3) [OF reach_trans [OF s'(1) assms(1)]] s'(2) by (simp add: inv_finish_def)
  with s'(1) show ?thesis by (auto simp: wait_result_def)
qed

subsection \<open>Two runs\<close>

text \<open>A session as it stands after its launch was committed and released.\<close>

definition launched :: "string \<Rightarrow> session" where
  "launched i = (new_session i)\<lparr>st := StateReady, launchCommitted := True, launchDone := True,
     launching := LaunchReturned True\<rparr>"

lemma launched_reach: "session_reach redact (new_session i) (launched i)"
proof -
  let ?s0 = "new_session i"
  let ?s1 = "launch_captured None ?s0" and ?s2 = "launch_commit (launch_captured None ?s0)"
  have "session_step redact ?s0 ?s1"
    by (rule session_step.captured) (simp add: new_session_def)
  moreover have "session_step redact ?s1 ?s2"
    by (rule session_step.committed) (simp add: launch_captured_def)
  moreover have "session_step redact ?s2 (launch_release True ?s2)"
    by (rule session_step.released) (simp add: launch_commit_def)
  ultimately have "session_reach redact ?s0 (launch_release True ?s2)"
    by (blast intro: session_reach.step reach_one)
  moreover have "launch_release True ?s2 = launched i"
    by (simp add: launched_def launch_release_def launch_commit_def launch_captured_def new_session_def)
  ultimately show ?thesis by simp
qed

definition exit_event :: event where
  "exit_event = \<lparr>ev_ID = [], ev_ParentID = [], ev_Kind = KindProcessExited, ev_SessionID = [],
     ev_TurnID = [], ev_Provider = [],
     ev_Payload = Some (jobj [(''error'', jstr ''signal: killed'')])\<rparr>"

lemma exit_event_error: "error_field (ev_Payload exit_event) = ''signal: killed''"
  by code_simp

lemma closed_with_exit:
  fixes redact :: "string \<Rightarrow> string" and i :: string
  defines "s1 \<equiv> close_client_call (close_request (launched i))"
  defines "s3 \<equiv> (publish exit_event ((observeEvent redact None exit_event s1)
      \<lparr>drain := after_observe exit_event\<rparr>))\<lparr>drain := DrainReading\<rparr>"
  defines "s4 \<equiv> (close_client_return None s3)\<lparr>drain := DrainEnded\<rparr>"
  defines "s5 \<equiv> (fix_terminal (s4\<lparr>finishOnce := FinishClosing\<rparr>))\<lparr>finishOnce := FinishFixed\<rparr>"
  shows "session_reach redact (new_session i) s5" "st s5 = StateClosed" "terminalOutcome s5 = OutcomeClosed"
    "serr s5 = Some (LifecycleError OutcomeChildExit ''wait'' (redact ''signal: killed'') None)"
    "sfinished s5" "may_finish s5"
proof -
  note init = launched_def new_session_def
  note obs = observeEvent_def observe_exit_def observe_identity_def exit_event_error
  have kind: "ev_Kind exit_event = KindProcessExited" by (simp add: exit_event_def)
  have "session_reach redact (new_session i) (close_request (launched i))"
    by (rule session_reach.step [OF launched_reach session_step.close])
  then have r1: "session_reach redact (new_session i) s1"
    unfolding s1_def by (rule session_reach.step)
      (rule session_step.client_close; simp add: init close_request_def at_close_once_def)
  have "session_step redact s1 ((observeEvent redact None exit_event s1)\<lparr>drain := after_observe exit_event\<rparr>)"
    by (rule session_step.observe) (simp add: s1_def init close_request_def close_client_call_def)
  from session_reach.step [OF r1 this] have r3: "session_reach redact (new_session i) s3"
    unfolding s3_def by (rule session_reach.step) (rule session_step.publish; simp add: after_observe_def kind)
  have "session_step redact s3 (close_client_return None s3)"
    by (rule session_step.client_closed)
       (simp add: s3_def s1_def publish_def close_client_call_def)
  from session_reach.step [OF r3 this] have r4: "session_reach redact (new_session i) s4"
    unfolding s4_def by (rule session_reach.step)
      (rule session_step.eof; simp add: s3_def close_client_return_def)
  have done4: "finishOnce s4 = FinishNot" "launchDone s4" "drain s4 = DrainEnded" "closeOnce s4 = OnceDone"
    "closeRequested s4" "serr s4 = Some (LifecycleError OutcomeChildExit ''wait'' (redact ''signal: killed'') None)"
    by (simp_all add: s4_def s3_def s1_def close_client_return_def publish_def close_client_call_def
        close_request_def init obs kind Let_def)
  have "session_step redact s4 (s4\<lparr>finishOnce := FinishClosing\<rparr>)"
    by (rule session_step.finish_start) (simp_all add: done4 may_finish_def)
  from session_reach.step [OF r4 this] show "session_reach redact (new_session i) s5"
    unfolding s5_def by (rule session_reach.step) (rule session_step.finish_fix; simp add: done4)
  show "st s5 = StateClosed" "terminalOutcome s5 = OutcomeClosed"
    "serr s5 = Some (LifecycleError OutcomeChildExit ''wait'' (redact ''signal: killed'') None)"
    "sfinished s5" "may_finish s5"
    by (simp_all add: s5_def fix_terminal_def done4 may_finish_def)
qed

text \<open>
  An intentional close can still end in an error. The host closes a launched session;
  the client, closing, reports the child's exit with an error (as it does for a child it
  had to kill). The session ends closed, its outcome is \<open>closed\<close>, and yet \<open>Wait\<close> returns
  the child-exit error.
\<close>

theorem intentional_close_can_fail:
  "\<exists>s. session_reach redact (new_session i) s \<and> st s = StateClosed \<and> terminalOutcome s = OutcomeClosed \<and>
     wait_result s = Some (Some (LifecycleError OutcomeChildExit ''wait'' (redact ''signal: killed'') None))"
proof -
  obtain s5 where s5: "session_reach redact (new_session i) s5" "st s5 = StateClosed"
    "terminalOutcome s5 = OutcomeClosed"
    "serr s5 = Some (LifecycleError OutcomeChildExit ''wait'' (redact ''signal: killed'') None)"
    "sfinished s5" "may_finish s5"
    using closed_with_exit [of redact i] by blast
  obtain s where s: "session_reach redact s5 s" "finishOnce s = FinishDone"
    using finish_completes [OF s5(6)] by blast
  have all: "session_reach redact (new_session i) s" by (rule reach_trans [OF s(1) s5(1)])
  have "doneClosed s" using session_invD(3) [OF all] s(2) by (simp add: inv_finish_def)
  with all s5 fixed_reach [OF s(1) session_inv_reach [OF s5(1) session_inv_new] s5(5)] show ?thesis by (auto simp: wait_result_def)
qed

text \<open>
  A session can look ready before its launch is committed. A client that reports the
  end of a turn from inside its launch (a replayed session, say) makes the session ready,
  and a prompt is accepted, while the host's commit is still to come.
\<close>

theorem ready_before_commit:
  "\<exists>s. session_reach redact (new_session i) s \<and> launching s = LaunchClient \<and> \<not> launchCommitted s \<and>
     st s = StateReady \<and> prompt_begin s \<noteq> None"
proof -
  let ?ev = "\<lparr>ev_ID = [], ev_ParentID = [], ev_Kind = KindTurnCompleted, ev_SessionID = [],
     ev_TurnID = [], ev_Provider = [], ev_Payload = None\<rparr>"
  let ?s = "(observeEvent redact None ?ev (new_session i))\<lparr>drain := after_observe ?ev\<rparr>"
  have "session_step redact (new_session i) ?s"
    by (rule session_step.observe) (simp add: new_session_def)
  then show ?thesis
    by (intro exI [of _ ?s] conjI reach_one)
       (simp_all add: observeEvent_def observe_identity_def turn_over_def new_session_def
         prompt_begin_def Let_def)
qed

subsection \<open>Witnesses\<close>

text \<open>A session that was closed while its client reported an exit, at the point where
  its terminal state is fixed, and at the end.\<close>

lemma fixed_run:
  "\<exists>s. session_reach (\<lambda>x. x) (new_session ''a'') s \<and> sfinished s \<and> st s = StateClosed \<and>
     launchDone s \<and> may_finish s"
  using closed_with_exit [of "\<lambda>x. x" "''a''"] by (auto simp: may_finish_def)

lemma finished_run:
  "\<exists>s. session_reach (\<lambda>x. x) (new_session ''a'') s \<and> finishOnce s = FinishDone"
proof -
  obtain s where s: "session_reach (\<lambda>x. x) (new_session ''a'') s" "may_finish s" using fixed_run by blast
  from finish_completes [OF s(2), of "\<lambda>x. x"] s(1) show ?thesis
    using reach_trans by blast
qed

theorem client_closed_once_witness:
  "\<exists>s. session_reach (\<lambda>x. x) (new_session ''a'') s \<and> doneClosed s \<and> closeCalls s = 1"
proof -
  obtain s where s: "session_reach (\<lambda>x. x) (new_session ''a'') s" "finishOnce s = FinishDone"
    using finished_run by blast
  then have "doneClosed s" using session_invD(3) by (auto simp: inv_finish_def)
  with client_closed_once [OF s(1)] s(1) show ?thesis by blast
qed

theorem terminal_state_stable_witness:
  "\<exists>s. session_reach (\<lambda>x. x) (new_session ''a'') s \<and> st s = StateClosed \<and> st (close_request s) = st s"
proof -
  obtain s where s: "session_reach (\<lambda>x. x) (new_session ''a'') s" "sfinished s" "st s = StateClosed"
    using fixed_run by blast
  from terminal_state_stable [OF s(1,2) reach_one [OF session_step.close]] s show ?thesis by blast
qed

theorem done_closes_last_witness:
  "\<exists>s. session_reach (\<lambda>x. x) (new_session ''a'') s \<and> doneClosed s \<and> eventsClosed s \<and> emitters s = []"
proof -
  obtain s where s: "session_reach (\<lambda>x. x) (new_session ''a'') s" "finishOnce s = FinishDone"
    using finished_run by blast
  then have "doneClosed s" using session_invD(3) by (auto simp: inv_finish_def)
  with done_closes_last [OF s(1)] s(1) show ?thesis by blast
qed

theorem ready_after_commit_witness:
  "\<exists>s. session_reach (\<lambda>x. x) (new_session ''a'') s \<and> closeRequested s \<and> prompt_begin s = None"
proof -
  have r: "session_reach (\<lambda>x. x) (new_session ''a'') (close_request (launched ''a''))"
    by (rule session_reach.step [OF launched_reach session_step.close])
  have "closeRequested (close_request (launched ''a''))" by (simp add: close_request_def Let_def)
  with ready_after_commit [OF r] r show ?thesis by blast
qed

theorem terminal_outcome_classified_witness:
  "\<exists>s. session_reach (\<lambda>x. x) (new_session ''a'') s \<and> st s = StateClosed \<and>
     terminalOutcome s \<in> {OutcomeClosed, OutcomeChildExit}"
proof -
  obtain s where s: "session_reach (\<lambda>x. x) (new_session ''a'') s" "sfinished s" "st s = StateClosed"
    using fixed_run by blast
  from terminal_outcome_classified [OF s(1,2)] s show ?thesis by auto
qed

theorem teardown_completes_witness:
  "\<exists>s. session_reach (\<lambda>x. x) ((launched ''a'')\<lparr>drain := DrainEnded\<rparr>) s \<and> doneClosed s"
proof -
  have "session_step (\<lambda>x. x) (launched ''a'') ((launched ''a'')\<lparr>drain := DrainEnded\<rparr>)"
    by (rule session_step.eof) (simp add: launched_def new_session_def)
  from session_reach.step [OF launched_reach this]
  have "session_reach (\<lambda>x. x) (new_session ''a'') ((launched ''a'')\<lparr>drain := DrainEnded\<rparr>)" .
  from teardown_completes [OF this] show ?thesis by (auto simp: launched_def)
qed

subsection \<open>Redaction\<close>

text \<open>The strings and numbers a value shows: all of them, and those not below a field with
  a secret-shaped name.\<close>

fun leaves :: "any_value \<Rightarrow> string set" where
  "leaves (AnyNumber n) = {n}"
| "leaves (AnyString s) = {s}"
| "leaves (AnyArray vs) = (\<Union>v \<in> set vs. leaves v)"
| "leaves (AnyObject kvs) = (\<Union>kv \<in> set kvs. leaves (snd kv))"
| "leaves v = {}"

fun open_leaves :: "any_value \<Rightarrow> string set" where
  "open_leaves (AnyNumber n) = {n}"
| "open_leaves (AnyString s) = {s}"
| "open_leaves (AnyArray vs) = (\<Union>v \<in> set vs. open_leaves v)"
| "open_leaves (AnyObject kvs) =
     (\<Union>kv \<in> set kvs. if isSensitiveKey (fst kv) then {} else open_leaves (snd kv))"
| "open_leaves v = {}"

fun has_secret :: "any_value \<Rightarrow> bool" where
  "has_secret (AnyArray vs) = (\<exists>v \<in> set vs. has_secret v)"
| "has_secret (AnyObject kvs) = (\<exists>kv \<in> set kvs. isSensitiveKey (fst kv) \<or> has_secret (snd kv))"
| "has_secret v = False"

lemma placeholder_union:
  "(\<Union>x \<in> A. if S x then {r} else f x \<union> (if H x then {r} else {})) =
   (\<Union>x \<in> A. if S x then {} else f x) \<union> (if \<exists>x \<in> A. S x \<or> H x then {r} else {})"
  by (auto split: if_splits)

text \<open>
  C26. Redaction of a JSON diagnostic hides exactly the secrets: the redacted value shows
  what the original shows outside the fields with a secret-shaped name, at any depth, and
  the placeholder where there was such a field, and nothing else; redacting again
  changes nothing.
\<close>

theorem redaction_hides_secrets:
  "leaves (redactJSON v) = open_leaves v \<union> (if has_secret v then {''[REDACTED]''} else {}) \<and>
   redactJSON (redactJSON v) = redactJSON v"
proof (induction v rule: redactJSON.induct)
  case (1 kvs)
  have each: "leaves (redactJSON item) = open_leaves item \<union> (if has_secret item then {''[REDACTED]''} else {})"
    "redactJSON (redactJSON item) = redactJSON item"
    if "(key, item) \<in> set kvs" "\<not> isSensitiveKey key" for key item
    using 1 [OF that(1) refl] that(2) by auto
  have "leaves (redactJSON (AnyObject kvs)) =
      (\<Union>kv \<in> set kvs. leaves (if isSensitiveKey (fst kv) then AnyString ''[REDACTED]'' else redactJSON (snd kv)))"
    by (simp add: split_def)
  also have "\<dots> = (\<Union>kv \<in> set kvs. if isSensitiveKey (fst kv) then {''[REDACTED]''}
      else leaves (redactJSON (snd kv)))"
    by (intro SUP_cong) simp_all
  also have "\<dots> = (\<Union>kv \<in> set kvs. if isSensitiveKey (fst kv) then {''[REDACTED]''}
      else open_leaves (snd kv) \<union> (if has_secret (snd kv) then {''[REDACTED]''} else {}))"
    by (rule SUP_cong [OF refl]) (simp add: each(1) split_paired_all)
  also have "\<dots> = open_leaves (AnyObject kvs) \<union> (if has_secret (AnyObject kvs) then {''[REDACTED]''} else {})"
    by (simp only: placeholder_union open_leaves.simps has_secret.simps)
  finally show ?case using each(2) by (auto split: if_splits)
next
  case (2 items)
  then show ?case by (fastforce split: if_splits)
qed auto

end
