(* ===== verification/Manager.thy ===== *)
theory Manager
  imports Lifecycle_Properties
begin

text \<open>
  The session manager, \<open>acp/lifecycle.go\<close>: a registry from host ids to sessions. A
  session is a pointer in Go; here the manager's state holds a store of sessions by
  handle, and the registry maps ids to handles. The locale \<open>reservation\<close> is the
  contract of such a registry: an id is reserved by one value at a time, and only
  the value that holds it can give it up.
\<close>

subsection \<open>Reserving ids\<close>

locale reservation =
  fixes look :: "'m \<Rightarrow> 'k \<Rightarrow> 'v option"
    and reserve :: "'k \<Rightarrow> 'v \<Rightarrow> 'm \<Rightarrow> 'm option"
    and release :: "'k \<Rightarrow> 'v \<Rightarrow> 'm \<Rightarrow> 'm"
  assumes reserve_free: "look m k = None \<Longrightarrow>
      \<exists>m'. reserve k v m = Some m' \<and> (\<forall>j. look m' j = (if j = k then Some v else look m j))"
    and reserve_taken: "look m k \<noteq> None \<Longrightarrow> reserve k v m = None"
    and release_own: "look m k = Some v \<Longrightarrow> look (release k v m) j = (if j = k then None else look m j)"
    and release_other: "look m k \<noteq> Some v \<Longrightarrow> look (release k v m) j = look m j"
begin

lemma reserved_look: "reserve k v m = Some m' \<Longrightarrow> look m' j = (if j = k then Some v else look m j)"
  using reserve_free [of m k v] reserve_taken [of m k v] by (cases "look m k") auto

lemma reserve_once: "reserve k v m = Some m' \<Longrightarrow> reserve k w m' = None"
  using reserved_look [of k v m m' k] by (intro reserve_taken) simp

lemma late_release: "reserve k v m = Some m' \<Longrightarrow> w \<noteq> v \<Longrightarrow> look (release k w m') j = look m' j"
  using reserved_look [of k v m m' k] by (intro release_other) simp

lemma reserve_again:
  assumes "reserve k v m = Some m'"
  shows "reserve k w (release k v m') \<noteq> None"
proof -
  have "look m' k = Some v" using reserved_look [OF assms, of k] by simp
  then have "look (release k v m') k = None" using release_own [of m' k v k] by simp
  then show ?thesis using reserve_free [of "release k v m'" k w] by auto
qed

end

subsection \<open>The manager\<close>

record manager =
  sessions :: "string \<rightharpoonup> nat"
  session_store :: "nat \<Rightarrow> session"
  allocated :: nat

definition NewManager :: manager where
  "NewManager = \<lparr>sessions = Map.empty, session_store = (\<lambda>_. new_session []), allocated = 0\<rparr>"

definition reserve_id :: "string \<Rightarrow> nat \<Rightarrow> manager \<Rightarrow> manager option" where
  "reserve_id i h m =
     (case sessions m i of
        Some _ \<Rightarrow> None
      | None \<Rightarrow> Some (m\<lparr>sessions := (sessions m)(i \<mapsto> h)\<rparr>))"

definition unregister :: "string \<Rightarrow> nat \<Rightarrow> manager \<Rightarrow> manager" where
  "unregister i h m =
     (if sessions m i = Some h then m\<lparr>sessions := (sessions m)(i := None)\<rparr> else m)"

interpretation registry: reservation sessions reserve_id unregister
  by unfold_locales (auto simp: reserve_id_def unregister_def)

text \<open>
  The first part of \<open>Launch\<close>: it checks the configuration, makes the session and
  reserves its id. What follows, up to the return, are steps of that session.
\<close>

definition launch_reserve :: "bool \<Rightarrow> string \<Rightarrow> manager \<Rightarrow> go_error + (manager \<times> nat)" where
  "launch_reserve has_client i m =
     (if i = [] then Inl (OtherError ''acp: SessionConfig.ID is required'')
      else if \<not> has_client then Inl (OtherError ''acp: SessionConfig.Client is required'')
      else
        (let h = allocated m;
             m1 = m\<lparr>session_store := (session_store m)(h := new_session i), allocated := Suc h\<rparr>
         in case reserve_id i h m1 of
              None \<Rightarrow> Inl (Wrapped i ErrDuplicateSession)
            | Some m2 \<Rightarrow> Inr (m2, h)))"

definition LookupSession :: "manager \<Rightarrow> string \<Rightarrow> session option" where
  "LookupSession m i = map_option (session_store m) (sessions m i)"

definition IsLive :: "manager \<Rightarrow> string \<Rightarrow> bool" where
  "IsLive m i = (case LookupSession m i of None \<Rightarrow> False | Some s \<Rightarrow> Live s)"

definition Len :: "manager \<Rightarrow> nat" where
  "Len m = card (dom (sessions m))"

text \<open>\<open>Cancel\<close> and \<open>Close\<close> of a manager; \<open>err\<close> is the client's answer, \<open>closed\<close> what
  the session's \<open>Close\<close> returns.\<close>

definition CancelById :: "go_error option \<Rightarrow> manager \<Rightarrow> string \<Rightarrow> go_error option" where
  "CancelById err m i =
     (case LookupSession m i of
        None \<Rightarrow> Some (Wrapped i ErrNotLive)
      | Some s \<Rightarrow> cancel_session err s)"

definition CloseById :: "(nat \<Rightarrow> go_error option) \<Rightarrow> manager \<Rightarrow> string \<Rightarrow> go_error option" where
  "CloseById closed m i = (case sessions m i of None \<Rightarrow> None | Some h \<Rightarrow> closed h)"

text \<open>\<open>errors.Join\<close>: no error where all are nil.\<close>

definition JoinErrors :: "go_error list \<Rightarrow> go_error option" where
  "JoinErrors es = (if es = [] then None else Some (Joined es))"

text \<open>\<open>Shutdown\<close> closes the sessions registered when it starts, in the order \<open>hs\<close> in which
  the map's iteration gives them.\<close>

definition Shutdown :: "(nat \<Rightarrow> go_error option) \<Rightarrow> nat list \<Rightarrow> go_error option" where
  "Shutdown closed hs = JoinErrors (List.map_filter closed hs)"

definition shutdown_order :: "manager \<Rightarrow> nat list \<Rightarrow> bool" where
  "shutdown_order m hs \<longleftrightarrow> set hs = ran (sessions m) \<and> length hs = Len m"

subsection \<open>Runs of a manager with its sessions\<close>

text \<open>A step reserves an id, is a step of one session, or is the step of a session's
  \<open>finish\<close> that unregisters it.\<close>

inductive manager_step :: "(string \<Rightarrow> string) \<Rightarrow> manager \<Rightarrow> manager \<Rightarrow> bool" for redact where
  reserve: "launch_reserve True i m = Inr (m', h) \<Longrightarrow> manager_step redact m m'"
| session: "h < allocated m \<Longrightarrow> session_step redact (session_store m h) s' \<Longrightarrow>
    finishOnce (session_store m h) \<noteq> FinishFixed \<or> finishOnce s' = FinishFixed \<Longrightarrow>
    manager_step redact m (m\<lparr>session_store := (session_store m)(h := s')\<rparr>)"
| unregister: "h < allocated m \<Longrightarrow> finishOnce (session_store m h) = FinishFixed \<Longrightarrow>
    manager_step redact m
      (unregister (sid (session_store m h)) h
        (m\<lparr>session_store := (session_store m)(h := (session_store m h)\<lparr>finishOnce := FinishUnregistered\<rparr>)\<rparr>))"

inductive manager_reach :: "(string \<Rightarrow> string) \<Rightarrow> manager \<Rightarrow> bool" for redact where
  start: "manager_reach redact NewManager"
| step: "manager_reach redact m \<Longrightarrow> manager_step redact m m' \<Longrightarrow> manager_reach redact m'"

inductive_cases manager_step_cases: "manager_step redact m m'"

text \<open>
  The invariant: a registered handle is allocated and carries the id it is registered
  under; an allocated session is registered under its id exactly until its \<open>finish\<close>
  unregisters it; every session is in a state it can reach.
\<close>

definition manager_inv :: "manager \<Rightarrow> bool" where
  "manager_inv m \<longleftrightarrow>
     (\<forall>i h. sessions m i = Some h \<longrightarrow> h < allocated m \<and> sid (session_store m h) = i) \<and>
     (\<forall>h < allocated m. sessions m (sid (session_store m h)) = Some h \<longleftrightarrow>
        finishOnce (session_store m h) \<le> FinishFixed) \<and>
     (\<forall>h < allocated m. session_inv (session_store m h))"

lemma session_step_sid: "session_step redact s s' \<Longrightarrow> sid s' = sid s"
  by (induction rule: session_step.induct)
     (auto simp: step_defs Let_def split: if_splits option.splits)

lemma session_step_phase:
  "session_step redact s s' \<Longrightarrow> finishOnce s \<noteq> FinishFixed \<or> finishOnce s' = FinishFixed \<Longrightarrow>
   finishOnce s' \<le> FinishFixed \<longleftrightarrow> finishOnce s \<le> FinishFixed"
  by (induction rule: session_step.induct)
     (simp_all add: step_defs phase_order Let_def split: if_splits option.splits, auto)

lemma manager_invI:
  assumes "\<And>i h. sessions m i = Some h \<Longrightarrow> h < allocated m \<and> sid (session_store m h) = i"
    and "\<And>h. h < allocated m \<Longrightarrow> sessions m (sid (session_store m h)) = Some h \<longleftrightarrow>
      finishOnce (session_store m h) \<le> FinishFixed"
    and "\<And>h. h < allocated m \<Longrightarrow> session_inv (session_store m h)"
  shows "manager_inv m"
  using assms by (simp add: manager_inv_def)

lemma manager_invD:
  assumes "manager_inv m"
  shows "sessions m i = Some h \<Longrightarrow> h < allocated m"
    "sessions m i = Some h \<Longrightarrow> sid (session_store m h) = i"
    "h < allocated m \<Longrightarrow> sessions m (sid (session_store m h)) = Some h \<longleftrightarrow>
      finishOnce (session_store m h) \<le> FinishFixed"
    "h < allocated m \<Longrightarrow> session_inv (session_store m h)"
  using assms by (simp_all add: manager_inv_def)

lemma launch_reserve_SomeD:
  assumes "launch_reserve c i m = Inr (m', h)"
  shows "i \<noteq> []" "sessions m i = None" "h = allocated m"
    "m' = m\<lparr>sessions := (sessions m)(i \<mapsto> h), session_store := (session_store m)(h := new_session i),
            allocated := Suc h\<rparr>"
  using assms
  by (auto simp: launch_reserve_def reserve_id_def Let_def split: if_splits option.splits)

lemma manager_inv_step: "manager_step redact m m' \<Longrightarrow> manager_inv m \<Longrightarrow> manager_inv m'"
proof (induction rule: manager_step.induct)
  case (reserve i m m' h)
  note m' = launch_reserve_SomeD [OF reserve.hyps]
  note inv = manager_invD [OF reserve.prems]
  show ?case
  proof (rule manager_invI)
    fix j k
    assume "sessions m' j = Some k"
    then show "k < allocated m' \<and> sid (session_store m' k) = j"
      using inv(1,2) [of j k] m'(3) by (auto simp: m'(4) new_session_def split: if_splits)
  next
    fix k
    assume k: "k < allocated m'"
    show "sessions m' (sid (session_store m' k)) = Some k \<longleftrightarrow>
        finishOnce (session_store m' k) \<le> FinishFixed"
    proof (cases "k = h")
      case True
      then show ?thesis by (simp add: m'(4) new_session_def phase_order)
    next
      case False
      with k m'(3) have old: "k < allocated m" by (simp add: m'(4))
      show ?thesis
      proof (cases "sid (session_store m k) = i")
        case True
        with inv(3) [OF old] m'(2) have "\<not> finishOnce (session_store m k) \<le> FinishFixed" by simp
        with True False show ?thesis by (simp add: m'(4))
      next
        case neq: False
        with False inv(3) [OF old] show ?thesis by (simp add: m'(4))
      qed
    qed
    show "session_inv (session_store m' k)"
      using k inv(4) [of k] m'(3) by (auto simp: m'(4) session_inv_new less_Suc_eq)
  qed
next
  case (session h m s')
  note inv = manager_invD [OF session.prems]
  have same: "sid s' = sid (session_store m h)"
    "finishOnce s' \<le> FinishFixed \<longleftrightarrow> finishOnce (session_store m h) \<le> FinishFixed"
    using session_step_sid session_step_phase session.hyps(2,3) by blast+
  show ?case
  proof (rule manager_invI)
    fix i k
    assume "sessions (m\<lparr>session_store := (session_store m)(h := s')\<rparr>) i = Some k"
    then show "k < allocated (m\<lparr>session_store := (session_store m)(h := s')\<rparr>) \<and>
        sid (session_store (m\<lparr>session_store := (session_store m)(h := s')\<rparr>) k) = i"
      using inv(1,2) [of i k] same by (cases "k = h") simp_all
  next
    fix k
    assume "k < allocated (m\<lparr>session_store := (session_store m)(h := s')\<rparr>)"
    then show "sessions (m\<lparr>session_store := (session_store m)(h := s')\<rparr>)
        (sid (session_store (m\<lparr>session_store := (session_store m)(h := s')\<rparr>) k)) = Some k \<longleftrightarrow>
        finishOnce (session_store (m\<lparr>session_store := (session_store m)(h := s')\<rparr>) k) \<le> FinishFixed"
      and "session_inv (session_store (m\<lparr>session_store := (session_store m)(h := s')\<rparr>) k)"
      using inv(3,4) [of k] same session_inv_step [OF session.hyps(2)] by (cases "k = h"; simp)+
  qed
next
  case (unregister h m)
  note inv = manager_invD [OF unregister.prems]
  let ?s = "session_store m h"
  let ?s' = "?s\<lparr>finishOnce := FinishUnregistered\<rparr>"
  have reg: "sessions m (sid ?s) = Some h"
    using inv(3) [OF unregister.hyps(1)] unregister.hyps(2) by simp
  have s': "session_inv ?s'"
    by (rule session_inv_step [OF session_step.finish_unregister [OF unregister.hyps(2)]
          inv(4) [OF unregister.hyps(1)]])
  have m': "unregister (sid ?s) h (m\<lparr>session_store := (session_store m)(h := ?s')\<rparr>) =
      m\<lparr>session_store := (session_store m)(h := ?s'), sessions := (sessions m)(sid ?s := None)\<rparr>"
    by (simp add: unregister_def reg)
  show ?case unfolding m'
  proof (rule manager_invI)
    fix i k
    assume k: "sessions (m\<lparr>session_store := (session_store m)(h := ?s'),
        sessions := (sessions m)(sid ?s := None)\<rparr>) i = Some k"
    then have "sessions m i = Some k" "i \<noteq> sid ?s" by (auto split: if_splits)
    then show "k < allocated (m\<lparr>session_store := (session_store m)(h := ?s'),
          sessions := (sessions m)(sid ?s := None)\<rparr>) \<and>
        sid (session_store (m\<lparr>session_store := (session_store m)(h := ?s'),
          sessions := (sessions m)(sid ?s := None)\<rparr>) k) = i"
      using inv(1,2) [of i k] by (cases "k = h") simp_all
  next
    fix k
    assume "k < allocated (m\<lparr>session_store := (session_store m)(h := ?s'),
        sessions := (sessions m)(sid ?s := None)\<rparr>)"
    then show "sessions (m\<lparr>session_store := (session_store m)(h := ?s'),
          sessions := (sessions m)(sid ?s := None)\<rparr>)
        (sid (session_store (m\<lparr>session_store := (session_store m)(h := ?s'),
          sessions := (sessions m)(sid ?s := None)\<rparr>) k)) = Some k \<longleftrightarrow>
        finishOnce (session_store (m\<lparr>session_store := (session_store m)(h := ?s'),
          sessions := (sessions m)(sid ?s := None)\<rparr>) k) \<le> FinishFixed"
      and "session_inv (session_store (m\<lparr>session_store := (session_store m)(h := ?s'),
          sessions := (sessions m)(sid ?s := None)\<rparr>) k)"
      using inv(3,4) [of k] reg s' by (cases "k = h"; auto simp: phase_order)+
  qed
qed

lemma manager_inv_reach: "manager_reach redact m \<Longrightarrow> manager_inv m"
proof (induction rule: manager_reach.induct)
  case start
  show ?case by (simp add: manager_inv_def NewManager_def)
next
  case (step m m')
  then show ?case using manager_inv_step by blast
qed

subsection \<open>Properties\<close>

text \<open>
  C23. Registration is exact. In every reachable manager a session is registered under its
  id exactly until its \<open>finish\<close> unregisters it, so one that is done is not found any
  more, and of two sessions with one id at least one has its terminal state fixed.
\<close>

theorem registered_until_finished:
  assumes "manager_reach redact m" and "h < allocated m"
  shows "(sessions m (sid (session_store m h)) = Some h \<longleftrightarrow>
      finishOnce (session_store m h) < FinishUnregistered) \<and>
    (doneClosed (session_store m h) \<longrightarrow> sessions m (sid (session_store m h)) \<noteq> Some h) \<and>
    (\<forall>k < allocated m. k \<noteq> h \<and> sid (session_store m k) = sid (session_store m h) \<longrightarrow>
       sfinished (session_store m k) \<or> sfinished (session_store m h))"
proof -
  note inv = manager_invD [OF manager_inv_reach [OF assms(1)]]
  have phase: "p \<le> FinishFixed \<longleftrightarrow> p < FinishUnregistered" for p
    by (cases p) (simp_all add: phase_order)
  have fin: "inv_finish (session_store m k)" if "k < allocated m" for k
    using inv(4) [OF that] by (simp add: session_inv_def)
  have unfinished: "sessions m (sid (session_store m k)) = Some k"
    if "k < allocated m" "\<not> sfinished (session_store m k)" for k
    using fin [OF that(1)] that inv(3) [OF that(1)] by (auto simp: inv_finish_def)
  have "sessions m (sid (session_store m h)) \<noteq> Some h" if "doneClosed (session_store m h)"
  proof -
    have "finishOnce (session_store m h) = FinishDone"
      using that fin [OF assms(2)] by (simp add: inv_finish_def)
    then show ?thesis using inv(3) [OF assms(2)] by (simp add: phase_order)
  qed
  moreover have "sfinished (session_store m k) \<or> sfinished (session_store m h)"
    if "k < allocated m" "k \<noteq> h" "sid (session_store m k) = sid (session_store m h)" for k
    using unfinished [OF that(1)] unfinished [OF assms(2)] that(2,3) by (metis option.inject)
  ultimately show ?thesis using inv(3) [OF assms(2)] by (auto simp: phase)
qed

text \<open>
  An id is taken while a session holds it and free afterwards. A launch with a valid
  configuration succeeds exactly when every earlier session with that id has been
  unregistered, and is refused as a duplicate, changing nothing, otherwise.
\<close>

theorem launch_exclusive:
  assumes "manager_reach redact m" and "i \<noteq> []"
  shows "if \<forall>h < allocated m. sid (session_store m h) = i \<longrightarrow>
              FinishUnregistered \<le> finishOnce (session_store m h)
    then \<exists>m'. launch_reserve True i m = Inr (m', allocated m) \<and> sessions m' i = Some (allocated m)
    else launch_reserve True i m = Inl (Wrapped i ErrDuplicateSession)"
proof -
  note inv = manager_invD [OF manager_inv_reach [OF assms(1)]]
  have phase: "FinishUnregistered \<le> p \<longleftrightarrow> \<not> p \<le> FinishFixed" for p
    by (cases p) (simp_all add: phase_order)
  have free: "sessions m i = None \<longleftrightarrow>
      (\<forall>h < allocated m. sid (session_store m h) = i \<longrightarrow> \<not> finishOnce (session_store m h) \<le> FinishFixed)"
  proof (cases "sessions m i")
    case None
    have "\<not> finishOnce (session_store m h) \<le> FinishFixed"
      if "h < allocated m" "sid (session_store m h) = i" for h
      using inv(3) [OF that(1)] that(2) None by simp
    with None show ?thesis by blast
  next
    case (Some h)
    then show ?thesis using inv(1,2) [OF Some] inv(3) [of h] by auto
  qed
  show ?thesis
    using assms(2) by (simp add: phase flip: free)
      (auto simp: launch_reserve_def reserve_id_def Let_def split: option.split)
qed

text \<open>
  Shutdown closes every session that is still registered, once each, and reports an
  error exactly when one of the closes did.
\<close>

theorem shutdown_closes_registered:
  assumes "manager_reach redact m" and "shutdown_order m hs"
  shows "distinct hs \<and>
    (\<forall>h < allocated m. h \<in> set hs \<longleftrightarrow> finishOnce (session_store m h) < FinishUnregistered) \<and>
    (Shutdown closed hs = None \<longleftrightarrow> (\<forall>h \<in> set hs. closed h = None))"
proof -
  note inv = manager_invD [OF manager_inv_reach [OF assms(1)]]
  have phase: "p < FinishUnregistered \<longleftrightarrow> p \<le> FinishFixed" for p
    by (cases p) (simp_all add: phase_order)
  have hs: "set hs = ran (sessions m)" "length hs = card (dom (sessions m))"
    using assms(2) by (simp_all add: shutdown_order_def Len_def)
  have inj: "inj_on (\<lambda>i. the (sessions m i)) (dom (sessions m))"
  proof (rule inj_onI)
    fix i j
    assume "i \<in> dom (sessions m)" "j \<in> dom (sessions m)" "the (sessions m i) = the (sessions m j)"
    then show "i = j" using inv(2) by (metis domD option.sel)
  qed
  have "ran (sessions m) = (\<lambda>i. the (sessions m i)) ` dom (sessions m)"
    by (force simp: ran_def dom_def image_iff)
  then have "card (set hs) = length hs" using hs card_image [OF inj] by simp
  then have "distinct hs" by (rule card_distinct)
  moreover have "h \<in> set hs \<longleftrightarrow> finishOnce (session_store m h) < FinishUnregistered"
    if "h < allocated m" for h
    using inv(2,3) that hs(1) by (auto simp: phase ran_def)
  moreover have "List.map_filter closed hs = [] \<longleftrightarrow> (\<forall>h \<in> set hs. closed h = None)"
    by (induction hs) (auto simp: List.map_filter_simps split: option.split)
  ultimately show ?thesis by (auto simp: Shutdown_def JoinErrors_def)
qed

subsection \<open>Witnesses\<close>

definition ex_manager :: manager where
  "ex_manager = fst (projr (launch_reserve True ''a'' NewManager))"

lemma ex_manager_reach: "manager_reach (\<lambda>x. x) ex_manager"
proof -
  have "manager_step (\<lambda>x. x) NewManager ex_manager"
    by (rule manager_step.reserve [where i = "''a''" and h = 0])
       (simp add: ex_manager_def launch_reserve_def reserve_id_def NewManager_def Let_def)
  then show ?thesis by (rule manager_reach.step [OF manager_reach.start])
qed

lemma ex_manager_fields:
  "allocated ex_manager = 1" "sid (session_store ex_manager 0) = ''a''"
  "finishOnce (session_store ex_manager 0) = FinishNot" "sessions ex_manager = [''a'' \<mapsto> 0]"
  by (simp_all add: ex_manager_def launch_reserve_def reserve_id_def NewManager_def new_session_def Let_def)

theorem registered_until_finished_witness: "sessions ex_manager ''a'' = Some 0"
  using registered_until_finished [OF ex_manager_reach, of 0]
  by (simp add: ex_manager_fields phase_order)

theorem launch_exclusive_witness:
  "launch_reserve True ''a'' ex_manager = Inl (Wrapped ''a'' ErrDuplicateSession) \<and>
   (\<exists>m'. launch_reserve True ''b'' ex_manager = Inr (m', 1))"
  using launch_exclusive [OF ex_manager_reach, of "''a''"] launch_exclusive [OF ex_manager_reach, of "''b''"]
  by (auto simp: ex_manager_fields phase_order)

theorem shutdown_closes_registered_witness:
  "shutdown_order ex_manager [0] \<and> Shutdown (\<lambda>h. None) [0] = None"
proof -
  have order: "shutdown_order ex_manager [0]"
    by (simp add: shutdown_order_def Len_def ex_manager_fields)
  with shutdown_closes_registered [OF ex_manager_reach order, of "\<lambda>h. None"] show ?thesis by simp
qed

end
