(* ===== verification/Permission_Request.thy ===== *)
theory Permission_Request
  imports Lifecycle
begin

text \<open>
  Permission requests of an ACP agent and their answers, the value side of
  \<open>acp/permission.go\<close>: reading and validating a \<open>session/request_permission\<close> request,
  and the resolution of one with its wire result and event payloads. A Go
  \<open>map[string]any\<close> is an \<open>AnyObject\<close>; copying a slice is the identity on values.
\<close>

subsection \<open>Requests\<close>

text \<open>An option kind is a string: unknown kinds are kept.\<close>

definition PermissionAllowOnce :: string where "PermissionAllowOnce = ''allow_once''"
definition PermissionAllowAlways :: string where "PermissionAllowAlways = ''allow_always''"
definition PermissionRejectOnce :: string where "PermissionRejectOnce = ''reject_once''"
definition PermissionRejectAlways :: string where "PermissionRejectAlways = ''reject_always''"

record permission_option =
  OptionID :: string
  OptionName :: string
  OptionKind :: string

record permission_tool_call =
  ToolCallID :: string
  ToolName :: string
  ToolTitle :: string
  ToolKind :: string
  ToolStatus :: string
  RawInput :: raw

record permission_request =
  ReqSessionID :: string
  ReqToolCall :: permission_tool_call
  ReqOptions :: "permission_option list"
  RawParams :: raw

definition no_option :: permission_option where
  "no_option = \<lparr>OptionID = [], OptionName = [], OptionKind = []\<rparr>"

definition no_tool_call :: permission_tool_call where
  "no_tool_call = \<lparr>ToolCallID = [], ToolName = [], ToolTitle = [], ToolKind = [],
     ToolStatus = [], RawInput = None\<rparr>"

definition option_fields :: "permission_option field list" where
  "option_fields =
     [(''optionId'', on_field OptionID OptionID_update dec_string),
      (''name'', on_field OptionName OptionName_update dec_string),
      (''kind'', on_field OptionKind OptionKind_update dec_string)]"

definition tool_call_fields :: "permission_tool_call field list" where
  "tool_call_fields =
     [(''toolCallId'', on_field ToolCallID ToolCallID_update dec_string),
      (''name'', on_field ToolName ToolName_update dec_string),
      (''title'', on_field ToolTitle ToolTitle_update dec_string),
      (''kind'', on_field ToolKind ToolKind_update dec_string),
      (''status'', on_field ToolStatus ToolStatus_update dec_string),
      (''rawInput'', on_field RawInput RawInput_update dec_raw)]"

record wire_request =
  wire_session :: string
  wire_tool :: "permission_tool_call option"
  wire_options :: "permission_option list option"

definition wire_request_fields :: "wire_request field list" where
  "wire_request_fields =
     [(''sessionId'', on_field wire_session wire_session_update dec_string),
      (''toolCall'', on_field wire_tool wire_tool_update
         (dec_struct_ptr tool_call_fields no_tool_call)),
      (''options'', on_field wire_options wire_options_update
         (dec_ptr (dec_slice (dec_struct option_fields) no_option) []))]"

text \<open>The loop over the options: the first incomplete or repeated one is the error.\<close>

fun check_options :: "string set \<Rightarrow> permission_option list \<Rightarrow> string option" where
  "check_options seen [] = None"
| "check_options seen (opt # opts) =
     (if OptionID opt = [] \<or> OptionName opt = [] \<or> OptionKind opt = [] then Some ''incomplete option''
      else if OptionID opt \<in> seen then Some ''duplicate option id''
      else check_options (insert (OptionID opt) seen) opts)"

definition parsePermissionRequest :: "raw \<Rightarrow> string + permission_request" where
  "parsePermissionRequest params =
     (let (ok, w) = unmarshal (dec_struct wire_request_fields) params
                      \<lparr>wire_session = [], wire_tool = None, wire_options = None\<rparr>
      in if \<not> ok then Inl ''invalid JSON''
         else case (wire_tool w, wire_options w) of
                (Some call, Some opts) \<Rightarrow>
                  if wire_session w = [] \<or> ToolCallID call = [] then Inl ''missing required identity''
                  else (case check_options {} opts of
                          Some e \<Rightarrow> Inl e
                        | None \<Rightarrow> Inr \<lparr>ReqSessionID = wire_session w, ReqToolCall = call,
                                     ReqOptions = opts, RawParams = params\<rparr>)
              | _ \<Rightarrow> Inl ''missing required identity'')"

text \<open>A request id is present when it is a string, a number or \<open>null\<close>.\<close>

definition DecodeJSONRPCRequestID :: "raw \<Rightarrow> any_value option" where
  "DecodeJSONRPCRequestID params =
     (case params of
        Some JNull \<Rightarrow> Some AnyNull
      | Some (JStr _ s) \<Rightarrow> Some (AnyString s)
      | Some (JNum n) \<Rightarrow> Some (AnyNumber n)
      | _ \<Rightarrow> None)"

subsection \<open>Resolutions\<close>

datatype permission_outcome = PermissionOutcomeCancelled | PermissionOutcomeSelected

fun permission_outcome_name :: "permission_outcome \<Rightarrow> string" where
  "permission_outcome_name PermissionOutcomeCancelled = ''cancelled''"
| "permission_outcome_name PermissionOutcomeSelected = ''selected''"

record resolution =
  Outcome :: permission_outcome
  Option :: permission_option
  Reason :: string
  res_diagnostic :: "string option"  \<comment> \<open>the message of a protocol diagnostic\<close>
  responseErr :: "go_error option"

definition cancelledPermission :: "string \<Rightarrow> resolution" where
  "cancelledPermission why = \<lparr>Outcome = PermissionOutcomeCancelled, Option = no_option,
     Reason = why, res_diagnostic = None, responseErr = None\<rparr>"

definition permissionFailure :: "string \<Rightarrow> string \<Rightarrow> resolution" where
  "permissionFailure why message =
     (cancelledPermission why)\<lparr>res_diagnostic :=
        Some (message @ ''; '' @ permission_outcome_name PermissionOutcomeCancelled)\<rparr>"

definition selectedPermission :: "permission_option \<Rightarrow> resolution" where
  "selectedPermission opt = \<lparr>Outcome = PermissionOutcomeSelected, Option = opt,
     Reason = ''responder selected offered option'', res_diagnostic = None, responseErr = None\<rparr>"

definition Allowed :: "resolution \<Rightarrow> bool" where
  "Allowed r \<longleftrightarrow> Outcome r = PermissionOutcomeSelected \<and>
     (OptionKind (Option r) = PermissionAllowOnce \<or> OptionKind (Option r) = PermissionAllowAlways)"

definition Result :: "resolution \<Rightarrow> any_value" where
  "Result r = AnyObject [(''outcome'', AnyObject
     ((''outcome'', AnyString (permission_outcome_name (Outcome r))) #
      (if Outcome r = PermissionOutcomeSelected
       then [(''optionId'', AnyString (OptionID (Option r)))] else [])))]"

definition DeliveryFailureEventPayload :: "any_value \<Rightarrow> any_value" where
  "DeliveryFailureEventPayload i = AnyObject
     [(''request_id'', i), (''allowed'', AnyBool False),
      (''outcome'', AnyString (permission_outcome_name PermissionOutcomeCancelled)),
      (''reason'', AnyString ''permission response delivery failed'')]"

definition ResolvedEventPayload :: "resolution \<Rightarrow> any_value \<Rightarrow> any_value" where
  "ResolvedEventPayload r i =
     (if responseErr r \<noteq> None then DeliveryFailureEventPayload i
      else AnyObject
        ([(''request_id'', i), (''allowed'', AnyBool (Allowed r)),
          (''outcome'', AnyString (permission_outcome_name (Outcome r))),
          (''reason'', AnyString (Reason r))] @
         (if Outcome r = PermissionOutcomeSelected
          then [(''option_id'', AnyString (OptionID (Option r))),
                (''option_kind'', AnyString (OptionKind (Option r)))] else [])))"

text \<open>\<open>err\<close> is what writing the response returned.\<close>

definition deliverPermissionResponse :: "resolution \<Rightarrow> go_error option \<Rightarrow> resolution" where
  "deliverPermissionResponse r err =
     (case err of
        None \<Rightarrow> r
      | Some e \<Rightarrow> r\<lparr>responseErr := Some e,
          res_diagnostic := (case res_diagnostic r of
             None \<Rightarrow> Some ''ACP permission response delivery failed; transport closed''
           | Some d \<Rightarrow> Some d)\<rparr>)"

subsection \<open>What a valid request is\<close>

lemma check_options_None_iff:
  "check_options seen opts = None \<longleftrightarrow>
     (\<forall>opt \<in> set opts. OptionID opt \<noteq> [] \<and> OptionName opt \<noteq> [] \<and> OptionKind opt \<noteq> []) \<and>
     distinct (map OptionID opts) \<and> OptionID ` set opts \<inter> seen = {}"
  by (induction opts arbitrary: seen) auto

lemma parsePermissionRequest_InrD:
  assumes "parsePermissionRequest params = Inr req"
  shows "ReqSessionID req \<noteq> []" "ToolCallID (ReqToolCall req) \<noteq> []" "RawParams req = params"
    "distinct (map OptionID (ReqOptions req))"
    "opt \<in> set (ReqOptions req) \<Longrightarrow> OptionID opt \<noteq> [] \<and> OptionName opt \<noteq> [] \<and> OptionKind opt \<noteq> []"
  using assms
  by (auto simp: parsePermissionRequest_def check_options_None_iff Let_def
      split: prod.splits option.splits if_splits)

end
