(* ===== verification/Permission.thy ===== *)
theory Permission
  imports Permission_Request Prelude
begin

text \<open>
  The permission coordinator, \<open>BestEffortPermissionRequests\<close> of \<open>acp/permission.go\<close>:
  its state and the sections of its methods that run under its mutex.
  \<open>Permission_Steps\<close> interleaves them. A turn is shared by pointer in Go, between the
  map \<open>turns\<close> and the admissions of its requests: here turns live in the store
  \<open>turn_at\<close>, and the map holds addresses. One turn is made per generation, and it
  gets the generation's number as its address. Counters are natural numbers; the
  64-bit generation and request ids do not wrap in a process's life.
\<close>

subsection \<open>State\<close>

record permission_turn =
  active :: bool
  canceled :: bool
  turn_ending :: bool
  dispatches :: int
  turn_done :: bool

record pending_permission =
  p_canceled :: bool
  committed :: bool
  p_generation :: nat

record coordinator =
  has_responder :: bool
  nextID :: nat
  pendings :: "nat \<rightharpoonup> pending_permission"
  callbacks :: int
  asyncDispatches :: int
  turn_at :: "nat \<Rightarrow> permission_turn"
  turns :: "nat \<rightharpoonup> nat"
  generation :: nat
  coordSessionID :: string
  closed :: bool

record admission =
  adm_generation :: nat
  adm_active :: bool
  adm_turn :: "nat option"
  counted :: bool
  async :: bool
  atCapacity :: bool

definition maxPermissionRequests :: int where "maxPermissionRequests = 64"

definition no_turn :: permission_turn where
  "no_turn = \<lparr>active = False, canceled = False, turn_ending = False, dispatches = 0, turn_done = False\<rparr>"

definition NewBestEffortPermissionRequests :: "bool \<Rightarrow> coordinator" where
  "NewBestEffortPermissionRequests responder = \<lparr>has_responder = responder, nextID = 0,
     pendings = Map.empty, callbacks = 0, asyncDispatches = 0, turn_at = (\<lambda>_. no_turn),
     turns = Map.empty, generation = 0, coordSessionID = [], closed = False\<rparr>"

definition SetSessionID :: "string \<Rightarrow> coordinator \<Rightarrow> coordinator" where
  "SetSessionID i p = p\<lparr>coordSessionID := i\<rparr>"

definition set_turn :: "nat \<Rightarrow> permission_turn \<Rightarrow> coordinator \<Rightarrow> coordinator" where
  "set_turn a t p = p\<lparr>turn_at := (turn_at p)(a := t)\<rparr>"

subsection \<open>Admission\<close>

definition admitPermission :: "bool \<Rightarrow> coordinator \<Rightarrow> coordinator \<times> admission" where
  "admitPermission forDispatch p =
     (let adm = \<lparr>adm_generation = generation p, adm_active = False, adm_turn = None,
                 counted = False, async = False, atCapacity = False\<rparr>
      in case turns p (generation p) of
           None \<Rightarrow> (p, adm)
         | Some a \<Rightarrow>
             if closed p \<or> \<not> active (turn_at p a) then (p, adm)
             else
               (let adm1 = adm\<lparr>adm_active := True, adm_turn := Some a\<rparr> in
                if \<not> forDispatch then (p, adm1)
                else
                  (let p1 = set_turn a ((turn_at p a)\<lparr>dispatches := dispatches (turn_at p a) + 1\<rparr>) p;
                       adm2 = adm1\<lparr>counted := True\<rparr>
                   in if asyncDispatches p1 \<ge> maxPermissionRequests
                      then (p1, adm2\<lparr>atCapacity := True\<rparr>)
                      else (p1\<lparr>asyncDispatches := asyncDispatches p1 + 1\<rparr>, adm2\<lparr>async := True\<rparr>))))"

definition closeTurnDone :: "nat \<Rightarrow> coordinator \<Rightarrow> coordinator" where
  "closeTurnDone a p =
     (let t = turn_at p a in
      if \<not> turn_ending t \<or> dispatches t \<noteq> 0 \<or> turn_done t then p
      else set_turn a (t\<lparr>turn_done := True\<rparr>) p)"

definition completeAdmission :: "admission \<Rightarrow> coordinator \<Rightarrow> coordinator" where
  "completeAdmission adm p =
     (case adm_turn adm of
        None \<Rightarrow> p
      | Some a \<Rightarrow>
          if \<not> counted adm then p
          else
            (let p1 = (if async adm then p\<lparr>asyncDispatches := asyncDispatches p - 1\<rparr> else p);
                 t = turn_at p1 a
             in closeTurnDone a (set_turn a (t\<lparr>dispatches := dispatches t - 1\<rparr>) p1)))"

subsection \<open>Answering a request\<close>

text \<open>The checks before the second section: an answer, or the request to go on with.\<close>

definition precheck :: "admission \<Rightarrow> raw \<Rightarrow> coordinator \<Rightarrow> resolution + permission_request" where
  "precheck adm params p =
     (case parsePermissionRequest params of
        Inl _ \<Rightarrow> Inl (permissionFailure ''invalid request'' ''invalid ACP permission request'')
      | Inr req \<Rightarrow>
          if coordSessionID p \<noteq> [] \<and> ReqSessionID req \<noteq> coordSessionID p
          then Inl (permissionFailure ''session mismatch'' ''ACP permission request named a different session'')
          else if \<not> has_responder p then Inl (cancelledPermission ''no responder configured'')
          else if \<not> adm_active adm then Inl (cancelledPermission ''turn not active'')
          else if atCapacity adm
          then Inl (permissionFailure ''responder capacity reached'' ''ACP permission responder capacity reached'')
          else Inr req)"

text \<open>Whether the admission's turn is still there and open to an answer.\<close>

definition turn_open :: "admission \<Rightarrow> coordinator \<Rightarrow> bool" where
  "turn_open adm p \<longleftrightarrow> \<not> closed p \<and>
     (case turns p (adm_generation adm) of
        None \<Rightarrow> False
      | Some a \<Rightarrow> adm_turn adm = Some a \<and> active (turn_at p a) \<and> \<not> canceled (turn_at p a))"

definition start_callback :: "admission \<Rightarrow> coordinator \<Rightarrow> resolution + (coordinator \<times> nat)" where
  "start_callback adm p =
     (if \<not> turn_open adm p then Inl (cancelledPermission ''turn not active'')
      else if callbacks p \<ge> maxPermissionRequests
      then Inl (permissionFailure ''responder capacity reached'' ''ACP permission responder capacity reached'')
      else
        (let i = Suc (nextID p)
         in Inr (p\<lparr>nextID := i, callbacks := callbacks p + 1,
                   pendings := (pendings p)(i \<mapsto> \<lparr>p_canceled = False, committed = False,
                                                  p_generation = adm_generation adm\<rparr>)\<rparr>, i)))"

definition callback_gone :: "coordinator \<Rightarrow> coordinator" where
  "callback_gone p = p\<lparr>callbacks := callbacks p - 1\<rparr>"

text \<open>
  What the responder returned (a panic is an error), or the error of the canceled
  context. The context of an entry is canceled exactly when the entry is. An entry is in
  the map until its own call forgets it, so \<open>decide\<close> always finds it.
\<close>

record answer =
  sel_option :: string
  sel_err :: "go_error option"

definition choose_option :: "permission_request \<Rightarrow> string \<Rightarrow> resolution" where
  "choose_option req i =
     (case find (\<lambda>opt. OptionID opt = i) (ReqOptions req) of
        Some opt \<Rightarrow> selectedPermission opt
      | None \<Rightarrow> permissionFailure ''invalid selection''
                  ''ACP permission responder returned an unoffered option'')"

definition is_context_error :: "go_error option \<Rightarrow> bool" where
  "is_context_error err =
     (case err of
        None \<Rightarrow> False
      | Some e \<Rightarrow> errors_is e CtxCanceled \<or> errors_is e CtxDeadlineExceeded)"

definition decide :: "admission \<Rightarrow> nat \<Rightarrow> permission_request \<Rightarrow> answer \<Rightarrow> coordinator \<Rightarrow>
    coordinator \<times> resolution" where
  "decide adm i req ans p =
     (case pendings p i of
        None \<Rightarrow> (p, cancelledPermission ''request cancelled'')
      | Some entry \<Rightarrow>
          (p\<lparr>pendings := (pendings p)(i \<mapsto> entry\<lparr>committed := True\<rparr>)\<rparr>,
           if p_canceled entry \<or> \<not> turn_open adm p \<or> is_context_error (sel_err ans)
           then cancelledPermission ''request cancelled''
           else if sel_err ans \<noteq> None
           then permissionFailure ''responder failed'' ''ACP permission responder failed''
           else if sel_option ans = [] then cancelledPermission ''responder cancelled''
           else choose_option req (sel_option ans)))"

definition forget_pending :: "nat \<Rightarrow> coordinator \<Rightarrow> coordinator" where
  "forget_pending i p = p\<lparr>pendings := (pendings p)(i := None)\<rparr>"

subsection \<open>Turns\<close>

text \<open>Cancel the uncommitted entries with a property; the loops over \<open>pending\<close>.\<close>

definition cancel_where :: "(pending_permission \<Rightarrow> bool) \<Rightarrow> coordinator \<Rightarrow> coordinator" where
  "cancel_where Q p = p\<lparr>pendings := (\<lambda>i. map_option
     (\<lambda>e. if Q e \<and> \<not> committed e then e\<lparr>p_canceled := True\<rparr> else e) (pendings p i))\<rparr>"

definition retire_turn :: "nat \<Rightarrow> coordinator \<Rightarrow> coordinator" where
  "retire_turn a p = closeTurnDone a (set_turn a ((turn_at p a)\<lparr>active := False, canceled := True,
     turn_ending := True\<rparr>) p)"

definition BeginTurn :: "coordinator \<Rightarrow> coordinator" where
  "BeginTurn p =
     (let p1 = (case turns p (generation p) of
                  None \<Rightarrow> p
                | Some a \<Rightarrow> if active (turn_at p a) then retire_turn a p else p);
          p2 = cancel_where (\<lambda>_. True) p1;
          g = Suc (generation p2)
      in (set_turn g (no_turn\<lparr>active := True\<rparr>) p2)\<lparr>generation := g, turns := (turns p2)(g \<mapsto> g)\<rparr>)"

definition closeTurnAdmission :: "nat \<Rightarrow> coordinator \<Rightarrow> coordinator" where
  "closeTurnAdmission g p =
     (case turns p g of
        None \<Rightarrow> p
      | Some a \<Rightarrow>
          (let p1 = set_turn a ((turn_at p a)\<lparr>active := False, turn_ending := True\<rparr>) p
           in closeTurnDone a (cancel_where (\<lambda>e. p_generation e = g) p1)))"

definition CloseTurnAdmission :: "coordinator \<Rightarrow> coordinator" where
  "CloseTurnAdmission p = closeTurnAdmission (generation p) p"

text \<open>
  \<open>EndTurn\<close>: the first section closes the current generation and returns the turn
  whose \<open>done\<close> it then waits for (\<open>None\<close>: nothing to wait for); the last one forgets it.
\<close>

definition end_turn_close :: "coordinator \<Rightarrow> coordinator \<times> (nat \<times> nat) option" where
  "end_turn_close p =
     (closeTurnAdmission (generation p) p,
      map_option (\<lambda>a. (generation p, a)) (turns p (generation p)))"

definition end_turn_forget :: "nat \<Rightarrow> nat \<Rightarrow> coordinator \<Rightarrow> coordinator" where
  "end_turn_forget g a p = (if turns p g = Some a then p\<lparr>turns := (turns p)(g := None)\<rparr> else p)"

definition CancelTurn :: "coordinator \<Rightarrow> coordinator" where
  "CancelTurn p =
     (let p1 = (case turns p (generation p) of
                  None \<Rightarrow> p
                | Some a \<Rightarrow> set_turn a ((turn_at p a)\<lparr>canceled := True\<rparr>) p)
      in cancel_where (\<lambda>e. p_generation e = generation p1) p1)"

text \<open>\<open>Close\<close> retires every turn of the map: the loop's effect on the store.\<close>

definition CloseCoordinator :: "coordinator \<Rightarrow> coordinator" where
  "CloseCoordinator p =
     cancel_where (\<lambda>_. True)
       (p\<lparr>closed := True,
         turn_at := (\<lambda>a. if a \<in> ran (turns p)
           then (let t = (turn_at p a)\<lparr>active := False, canceled := True, turn_ending := True\<rparr>
                 in t\<lparr>turn_done := (turn_done t \<or> dispatches t = 0)\<rparr>)
           else turn_at p a)\<rparr>)"

end
