(* ===== verification/Permission_Steps.thy ===== *)
theory Permission_Steps
  imports Permission
begin

text \<open>
  Concurrent permission requests of one coordinator, as a step relation. A call is one
  request: it is admitted, checked, may start a callback goroutine and wait for it,
  decides, delivers its answer and completes its admission. The callback goroutine of
  a call outlives the wait: it first sends its result, then gives its slot back. What
  the responder answers, whether a delivery fails and when a host begins, cancels, ends
  or closes is free. The adapter's response gate, a lock around the decision and the
  delivery, is left out, which only allows more interleavings.
\<close>

subsection \<open>Calls\<close>

datatype call_pc =
    Checking
  | Starting permission_request
  | Waiting nat permission_request
  | Deciding nat permission_request answer
  | Delivering resolution "nat option"
  | Forgetting resolution nat
  | Completing resolution
  | Over resolution

datatype callback_state = NoCallback | CallbackRuns | CallbackSent | CallbackLeft

record call =
  adm :: admission
  params :: raw
  pc :: call_pc
  cb :: callback_state
  reply :: "answer option"

record permissions =
  coord :: coordinator
  calls :: "call list"

definition at_call :: "nat \<Rightarrow> (call \<Rightarrow> call) \<Rightarrow> permissions \<Rightarrow> permissions" where
  "at_call k f s = s\<lparr>calls := (calls s)[k := f (calls s ! k)]\<rparr>"

definition in_coord :: "(coordinator \<Rightarrow> coordinator) \<Rightarrow> permissions \<Rightarrow> permissions" where
  "in_coord f s = s\<lparr>coord := f (coord s)\<rparr>"

text \<open>The steps of \<open>dispatchTurnRequest\<close>, \<open>Respond\<close> and \<open>respondAdmitted\<close>.\<close>

definition arrive :: "bool \<Rightarrow> raw \<Rightarrow> permissions \<Rightarrow> permissions" where
  "arrive forDispatch x s =
     (let (p, a) = admitPermission forDispatch (coord s)
      in s\<lparr>coord := p, calls := calls s @ [\<lparr>adm = a, params = x, pc = Checking, cb = NoCallback,
                                          reply = None\<rparr>]\<rparr>)"

definition check_call :: "nat \<Rightarrow> permissions \<Rightarrow> permissions" where
  "check_call k s =
     at_call k (\<lambda>c. c\<lparr>pc := (case precheck (adm c) (params c) (coord s) of
        Inl r \<Rightarrow> Delivering r None
      | Inr req \<Rightarrow> Starting req)\<rparr>) s"

definition start_call :: "nat \<Rightarrow> permission_request \<Rightarrow> permissions \<Rightarrow> permissions" where
  "start_call k req s =
     (case start_callback (adm (calls s ! k)) (coord s) of
        Inl r \<Rightarrow> at_call k (\<lambda>c. c\<lparr>pc := Delivering r None\<rparr>) s
      | Inr (p, i) \<Rightarrow> (at_call k (\<lambda>c. c\<lparr>pc := Waiting i req, cb := CallbackRuns\<rparr>) s)\<lparr>coord := p\<rparr>)"

definition decide_call :: "nat \<Rightarrow> nat \<Rightarrow> permission_request \<Rightarrow> answer \<Rightarrow> permissions \<Rightarrow> permissions" where
  "decide_call k i req ans s =
     (let (p, r) = decide (adm (calls s ! k)) i req ans (coord s)
      in (at_call k (\<lambda>c. c\<lparr>pc := Delivering r (Some i)\<rparr>) s)\<lparr>coord := p\<rparr>)"

definition deliver_call :: "nat \<Rightarrow> resolution \<Rightarrow> nat option \<Rightarrow> go_error option \<Rightarrow> permissions \<Rightarrow> permissions" where
  "deliver_call k r oi err s =
     at_call k (\<lambda>c. c\<lparr>pc := (case oi of
        Some i \<Rightarrow> Forgetting (deliverPermissionResponse r err) i
      | None \<Rightarrow> Completing (deliverPermissionResponse r err))\<rparr>) s"

inductive perm_step :: "permissions \<Rightarrow> permissions \<Rightarrow> bool" where
  arrive: "perm_step s (arrive fd x s)"
| check: "k < length (calls s) \<Longrightarrow> pc (calls s ! k) = Checking \<Longrightarrow> perm_step s (check_call k s)"
| start: "k < length (calls s) \<Longrightarrow> pc (calls s ! k) = Starting req \<Longrightarrow>
    perm_step s (start_call k req s)"
| sent: "k < length (calls s) \<Longrightarrow> cb (calls s ! k) = CallbackRuns \<Longrightarrow>
    perm_step s (at_call k (\<lambda>c. c\<lparr>cb := CallbackSent, reply := Some ans\<rparr>) s)"
| left: "k < length (calls s) \<Longrightarrow> cb (calls s ! k) = CallbackSent \<Longrightarrow>
    perm_step s (in_coord callback_gone (at_call k (\<lambda>c. c\<lparr>cb := CallbackLeft\<rparr>) s))"
| wake: "k < length (calls s) \<Longrightarrow> pc (calls s ! k) = Waiting i req \<Longrightarrow> reply (calls s ! k) = Some ans \<Longrightarrow>
    perm_step s (at_call k (\<lambda>c. c\<lparr>pc := Deciding i req ans\<rparr>) s)"
| wake_canceled: "k < length (calls s) \<Longrightarrow> pc (calls s ! k) = Waiting i req \<Longrightarrow>
    pendings (coord s) i = Some e \<Longrightarrow> p_canceled e \<Longrightarrow>
    perm_step s (at_call k (\<lambda>c. c\<lparr>pc := Deciding i req \<lparr>sel_option = [], sel_err = Some CtxCanceled\<rparr>\<rparr>) s)"
| decide: "k < length (calls s) \<Longrightarrow> pc (calls s ! k) = Deciding i req ans \<Longrightarrow>
    perm_step s (decide_call k i req ans s)"
| deliver: "k < length (calls s) \<Longrightarrow> pc (calls s ! k) = Delivering r oi \<Longrightarrow>
    perm_step s (deliver_call k r oi err s)"
| forget: "k < length (calls s) \<Longrightarrow> pc (calls s ! k) = Forgetting r i \<Longrightarrow>
    perm_step s (in_coord (forget_pending i) (at_call k (\<lambda>c. c\<lparr>pc := Completing r\<rparr>) s))"
| complete: "k < length (calls s) \<Longrightarrow> pc (calls s ! k) = Completing r \<Longrightarrow>
    perm_step s (in_coord (completeAdmission (adm (calls s ! k))) (at_call k (\<lambda>c. c\<lparr>pc := Over r\<rparr>) s))"
| begin_turn: "perm_step s (in_coord BeginTurn s)"
| close_admission: "perm_step s (in_coord CloseTurnAdmission s)"
| end_close: "perm_step s (in_coord (\<lambda>p. fst (end_turn_close p)) s)"
| end_forget: "turn_done (turn_at (coord s) a) \<Longrightarrow> perm_step s (in_coord (end_turn_forget g a) s)"
| cancel_turn: "perm_step s (in_coord CancelTurn s)"
| close_all: "perm_step s (in_coord CloseCoordinator s)"
| set_session: "perm_step s (in_coord (SetSessionID i) s)"

inductive perm_reach :: "permissions \<Rightarrow> permissions \<Rightarrow> bool" where
  start: "perm_reach s s"
| step: "perm_reach s s' \<Longrightarrow> perm_step s' s'' \<Longrightarrow> perm_reach s s''"

definition new_permissions :: "bool \<Rightarrow> permissions" where
  "new_permissions responder = \<lparr>coord = NewBestEffortPermissionRequests responder, calls = []\<rparr>"

lemma perm_reach_trans: "perm_reach s' s'' \<Longrightarrow> perm_reach s s' \<Longrightarrow> perm_reach s s''"
  by (induction rule: perm_reach.induct) (auto intro: perm_reach.step)

subsection \<open>Counting\<close>

fun over :: "call_pc \<Rightarrow> bool" where
  "over (Over r) = True"
| "over _ = False"

definition runs_callback :: "call \<Rightarrow> bool" where
  "runs_callback c \<longleftrightarrow> cb c \<in> {CallbackRuns, CallbackSent}"

definition holds_async :: "call \<Rightarrow> bool" where
  "holds_async c \<longleftrightarrow> async (adm c) \<and> \<not> over (pc c)"

definition holds_turn :: "nat \<Rightarrow> call \<Rightarrow> bool" where
  "holds_turn a c \<longleftrightarrow> counted (adm c) \<and> adm_turn (adm c) = Some a \<and> \<not> over (pc c)"

definition adm_ok :: "nat \<Rightarrow> admission \<Rightarrow> bool" where
  "adm_ok g a \<longleftrightarrow> (async a \<longrightarrow> counted a) \<and> (counted a \<longrightarrow> adm_turn a \<noteq> None) \<and>
     (adm_active a \<longleftrightarrow> adm_turn a \<noteq> None) \<and>
     (\<forall>t. adm_turn a = Some t \<longrightarrow> t = adm_generation a) \<and> adm_generation a \<le> g"

text \<open>
  \<open>inv_count\<close>: the counters of the coordinator count the calls, within their bounds.
  \<open>inv_turns\<close>: a generation's turn is at its own address; a turn that is ending is not
  active, and its \<open>done\<close> is closed exactly when it is ending with nothing in flight.
\<close>

definition inv_count :: "permissions \<Rightarrow> bool" where
  "inv_count s \<longleftrightarrow>
     callbacks (coord s) = count_of runs_callback (calls s) \<and> callbacks (coord s) \<le> 64 \<and>
     asyncDispatches (coord s) = count_of holds_async (calls s) \<and> asyncDispatches (coord s) \<le> 64 \<and>
     (\<forall>a. dispatches (turn_at (coord s) a) = count_of (holds_turn a) (calls s))"

definition turn_ok :: "permission_turn \<Rightarrow> bool" where
  "turn_ok t \<longleftrightarrow> (turn_ending t \<longrightarrow> \<not> active t) \<and>
     (turn_done t \<longleftrightarrow> turn_ending t \<and> dispatches t = 0)"

definition inv_turns :: "coordinator \<Rightarrow> bool" where
  "inv_turns p \<longleftrightarrow>
     (\<forall>g a. turns p g = Some a \<longrightarrow> a = g \<and> g \<le> generation p) \<and> (\<forall>a. turn_ok (turn_at p a)) \<and>
     (\<forall>a. a > generation p \<longrightarrow> turn_at p a = no_turn)"

definition inv_adm :: "permissions \<Rightarrow> bool" where
  "inv_adm s \<longleftrightarrow> (\<forall>c \<in> set (calls s). adm_ok (generation (coord s)) (adm c))"

subsection \<open>Operations on turns\<close>

lemma set_turn_simps [simp]:
  "callbacks (set_turn a t p) = callbacks p" "asyncDispatches (set_turn a t p) = asyncDispatches p"
  "turns (set_turn a t p) = turns p" "generation (set_turn a t p) = generation p"
  "pendings (set_turn a t p) = pendings p" "closed (set_turn a t p) = closed p"
  "nextID (set_turn a t p) = nextID p" "turn_at (set_turn a t p) = (turn_at p)(a := t)"
  by (simp_all add: set_turn_def)

lemma cancel_where_simps [simp]:
  "callbacks (cancel_where Q p) = callbacks p" "asyncDispatches (cancel_where Q p) = asyncDispatches p"
  "turns (cancel_where Q p) = turns p" "generation (cancel_where Q p) = generation p"
  "closed (cancel_where Q p) = closed p" "nextID (cancel_where Q p) = nextID p"
  "turn_at (cancel_where Q p) = turn_at p"
  by (simp_all add: cancel_where_def)

lemma closeTurnDone_simps [simp]:
  "callbacks (closeTurnDone a p) = callbacks p" "asyncDispatches (closeTurnDone a p) = asyncDispatches p"
  "turns (closeTurnDone a p) = turns p" "generation (closeTurnDone a p) = generation p"
  "pendings (closeTurnDone a p) = pendings p" "closed (closeTurnDone a p) = closed p"
  "nextID (closeTurnDone a p) = nextID p"
  by (simp_all add: closeTurnDone_def Let_def)

lemma closeTurnDone_at:
  "turn_at (closeTurnDone a p) = (turn_at p)(a := (turn_at p a)\<lparr>turn_done :=
     turn_done (turn_at p a) \<or> (turn_ending (turn_at p a) \<and> dispatches (turn_at p a) = 0)\<rparr>)"
  by (auto simp: closeTurnDone_def Let_def fun_eq_iff)

text \<open>\<open>turn_effect p q\<close>: what every operation on turns does to the counters.\<close>

definition turn_effect :: "coordinator \<Rightarrow> coordinator \<Rightarrow> bool" where
  "turn_effect p q \<longleftrightarrow> callbacks q = callbacks p \<and> asyncDispatches q = asyncDispatches p \<and>
     generation p \<le> generation q \<and> (\<forall>a. dispatches (turn_at q a) = dispatches (turn_at p a)) \<and>
     inv_turns q"

lemma inv_turnsD:
  assumes "inv_turns p"
  shows "turns p g = Some a \<Longrightarrow> a = g" "turns p g = Some a \<Longrightarrow> g \<le> generation p"
    "turn_ok (turn_at p a)" "a > generation p \<Longrightarrow> turn_at p a = no_turn"
  using assms by (auto simp: inv_turns_def)

lemma turn_allocated: "inv_turns p \<Longrightarrow> turns p g = Some a \<Longrightarrow> a \<le> generation p"
  using inv_turnsD(1,2) by blast

lemma inv_turns_set_turn:
  "inv_turns p \<Longrightarrow> a \<le> generation p \<Longrightarrow> turn_ok t \<Longrightarrow> inv_turns (set_turn a t p)"
  by (auto simp: inv_turns_def)

definition finish_turn :: "permission_turn \<Rightarrow> permission_turn" where
  "finish_turn t = (if turn_ending t \<and> dispatches t = 0 \<and> \<not> turn_done t then t\<lparr>turn_done := True\<rparr> else t)"

lemma set_closeTurnDone: "closeTurnDone a (set_turn a t p) = set_turn a (finish_turn t) p"
  by (auto simp: closeTurnDone_def finish_turn_def set_turn_def Let_def)

lemma finish_turn_ok:
  "(turn_ending t \<Longrightarrow> \<not> active t) \<Longrightarrow> (turn_done t \<Longrightarrow> turn_ending t \<and> dispatches t = 0) \<Longrightarrow>
   turn_ok (finish_turn t)"
  by (auto simp: finish_turn_def turn_ok_def)

lemma finish_turn_dispatches [simp]: "dispatches (finish_turn t) = dispatches t"
  by (simp add: finish_turn_def)

lemma set_turn_effect:
  assumes "inv_turns p" and "turns p g = Some a" and "dispatches t = dispatches (turn_at p a)"
    and "turn_ok t"
  shows "turn_effect p (set_turn a t p)"
  using inv_turns_set_turn [OF assms(1) turn_allocated [OF assms(1,2)] assms(4)] assms(3)
  by (simp add: turn_effect_def)

lemma turn_ok_done: "inv_turns p \<Longrightarrow> turn_done (turn_at p a) \<Longrightarrow> dispatches (turn_at p a) = 0"
  using inv_turnsD(3) [of p a] by (simp add: turn_ok_def)

lemma retire_effect: "inv_turns p \<Longrightarrow> turns p g = Some a \<Longrightarrow> turn_effect p (retire_turn a p)"
  unfolding retire_turn_def set_closeTurnDone
  by (intro set_turn_effect finish_turn_ok) (auto intro: turn_ok_done)

lemma cancel_where_effect: "turn_effect p q \<Longrightarrow> turn_effect p (cancel_where Q q)"
  by (simp add: turn_effect_def inv_turns_def)

lemma turn_effect_refl: "inv_turns p \<Longrightarrow> turn_effect p p"
  by (simp add: turn_effect_def)

lemma BeginTurn_effect:
  assumes "inv_turns p"
  shows "turn_effect p (BeginTurn p)"
proof -
  define q where "q = cancel_where (\<lambda>_. True) (case turns p (generation p) of
     None \<Rightarrow> p | Some a \<Rightarrow> if active (turn_at p a) then retire_turn a p else p)"
  have q: "turn_effect p q"
    unfolding q_def using assms retire_effect [OF assms]
    by (auto intro!: cancel_where_effect turn_effect_refl split: option.split)
  have eq: "BeginTurn p = (set_turn (Suc (generation q)) (no_turn\<lparr>active := True\<rparr>) q)
      \<lparr>generation := Suc (generation q), turns := (turns q)(Suc (generation q) \<mapsto> Suc (generation q))\<rparr>"
    by (simp add: BeginTurn_def q_def Let_def)
  have "inv_turns q" using q by (simp add: turn_effect_def)
  note inv = inv_turnsD [OF this]
  have fresh: "turn_at q (Suc (generation q)) = no_turn" by (rule inv(4)) simp
  have "inv_turns (BeginTurn p)"
    unfolding inv_turns_def eq using inv
    by (auto simp: turn_ok_def no_turn_def le_Suc_eq)
  moreover have "dispatches (turn_at p (Suc (generation q))) = 0"
    using q fresh by (auto simp: turn_effect_def no_turn_def split: if_splits) (metis permission_turn.select_convs(4))
  ultimately show ?thesis
    using q by (auto simp: turn_effect_def eq no_turn_def)
qed

lemma cancel_where_turn:
  "closeTurnDone a (cancel_where Q (set_turn a t p)) = cancel_where Q (set_turn a (finish_turn t) p)"
  by (auto simp: closeTurnDone_def finish_turn_def set_turn_def cancel_where_def Let_def)

lemma closeTurnAdmission_effect:
  assumes "inv_turns p"
  shows "turn_effect p (closeTurnAdmission g p)"
proof (cases "turns p g")
  case None
  with assms show ?thesis by (simp add: closeTurnAdmission_def turn_effect_refl)
next
  case (Some a)
  have "turn_effect p (cancel_where (\<lambda>e. p_generation e = g)
      (set_turn a (finish_turn ((turn_at p a)\<lparr>active := False, turn_ending := True\<rparr>)) p))"
    by (intro cancel_where_effect set_turn_effect [OF assms Some] finish_turn_ok)
       (auto intro: turn_ok_done [OF assms])
  then show ?thesis by (simp add: closeTurnAdmission_def Some Let_def cancel_where_turn)
qed

lemma CancelTurn_effect:
  assumes "inv_turns p"
  shows "turn_effect p (CancelTurn p)"
proof (cases "turns p (generation p)")
  case None
  with assms show ?thesis by (simp add: CancelTurn_def cancel_where_effect turn_effect_refl)
next
  case (Some a)
  have "turn_ok ((turn_at p a)\<lparr>canceled := True\<rparr>)"
    using inv_turnsD(3) [OF assms, of a] by (simp add: turn_ok_def)
  with assms Some show ?thesis
    by (simp add: CancelTurn_def cancel_where_effect set_turn_effect)
qed

lemma CloseCoordinator_effect:
  assumes "inv_turns p"
  shows "turn_effect p (CloseCoordinator p)"
proof -
  have "turn_at p a = no_turn \<and> a \<notin> ran (turns p)" if "generation p < a" for a
    using that inv_turnsD(4) [OF assms that] turn_allocated [OF assms] by (force simp: ran_def)
  then show ?thesis
    using inv_turnsD(1,2,3) [OF assms] unfolding CloseCoordinator_def
    by (intro cancel_where_effect) (simp add: turn_effect_def inv_turns_def turn_ok_def Let_def; blast)
qed

lemma other_effects:
  assumes "inv_turns p"
  shows "turn_effect p (end_turn_forget g a p)" "turn_effect p (SetSessionID i p)"
    "turn_effect p (forget_pending n p)"
  using assms
  by (auto simp: turn_effect_def end_turn_forget_def SetSessionID_def forget_pending_def inv_turns_def)

subsection \<open>The counters are right\<close>

definition perm_inv :: "permissions \<Rightarrow> bool" where
  "perm_inv s \<longleftrightarrow> inv_count s \<and> inv_turns (coord s) \<and> inv_adm s"

lemma adm_ok_mono: "adm_ok g a \<Longrightarrow> g \<le> g' \<Longrightarrow> adm_ok g' a"
  by (auto simp: adm_ok_def)

lemma perm_inv_effect:
  "perm_inv s \<Longrightarrow> turn_effect (coord s) (f (coord s)) \<Longrightarrow> perm_inv (in_coord f s)"
  by (auto simp: perm_inv_def turn_effect_def in_coord_def inv_count_def inv_adm_def
      intro: adm_ok_mono)

text \<open>A call moves on without touching the coordinator.\<close>

lemma at_call_simps [simp]:
  "coord (at_call k f s) = coord s" "calls (at_call k f s) = (calls s)[k := f (calls s ! k)]"
  by (simp_all add: at_call_def)

lemma in_coord_simps [simp]: "coord (in_coord f s) = f (coord s)" "calls (in_coord f s) = calls s"
  by (simp_all add: in_coord_def)

lemma perm_inv_at_call:
  assumes "perm_inv s" and k: "k < length (calls s)"
    and "adm (f (calls s ! k)) = adm (calls s ! k)"
    and "over (pc (f (calls s ! k))) = over (pc (calls s ! k))"
    and "runs_callback (f (calls s ! k)) = runs_callback (calls s ! k)"
  shows "perm_inv (at_call k f s)"
proof -
  have "holds_async (f (calls s ! k)) = holds_async (calls s ! k)"
    "\<And>a. holds_turn a (f (calls s ! k)) = holds_turn a (calls s ! k)"
    using assms(3,4) by (simp_all add: holds_async_def holds_turn_def)
  moreover have "\<forall>c \<in> set (calls (at_call k f s)). adm_ok (generation (coord s)) (adm c)"
    using assms(1,3) k set_update_subset_insert [of "calls s" k "f (calls s ! k)"]
    by (auto simp: perm_inv_def inv_adm_def)
  ultimately show ?thesis
    using assms(1,5) k by (simp add: perm_inv_def inv_count_def inv_adm_def count_of_update)
qed

lemma admit_inv:
  assumes "perm_inv s"
  shows "perm_inv (arrive fd x s)"
proof (cases "turns (coord s) (generation (coord s))")
  case None
  with assms show ?thesis
    by (auto simp: arrive_def admitPermission_def perm_inv_def inv_count_def inv_adm_def
        adm_ok_def runs_callback_def holds_async_def holds_turn_def)
next
  case (Some a)
  note inv = inv_turnsD [of "coord s"]
  have t: "inv_turns (coord s)" using assms by (simp add: perm_inv_def)
  have a: "a = generation (coord s)" using inv(1) [OF t Some] .
  show ?thesis
  proof (cases "closed (coord s) \<or> \<not> active (turn_at (coord s) a) \<or> \<not> fd")
    case True
    with assms Some a show ?thesis
      by (auto simp: arrive_def admitPermission_def perm_inv_def inv_count_def inv_adm_def
          adm_ok_def runs_callback_def holds_async_def holds_turn_def Let_def)
  next
    case False
    have "turn_ok (turn_at (coord s) a)" by (rule inv(3) [OF t])
    with False have idle: "\<not> turn_ending (turn_at (coord s) a)" "\<not> turn_done (turn_at (coord s) a)"
      by (auto simp: turn_ok_def)
    have turns': "inv_turns (set_turn a ((turn_at (coord s) a)\<lparr>dispatches := n\<rparr>) (coord s))" for n
      using t idle inv(2) [OF t Some] a by (auto simp: inv_turns_def turn_ok_def)
    show ?thesis
    proof (cases "asyncDispatches (coord s) \<ge> 64")
      case True
      with False Some assms turns' a show ?thesis
        by (auto simp: arrive_def admitPermission_def perm_inv_def inv_count_def inv_adm_def
            adm_ok_def runs_callback_def holds_async_def holds_turn_def Let_def maxPermissionRequests_def)
    next
      case room: False
      have "inv_turns ((set_turn a ((turn_at (coord s) a)\<lparr>dispatches := n\<rparr>) (coord s))\<lparr>asyncDispatches := m\<rparr>)" for n m
        using turns' [of n] by (simp add: inv_turns_def)
      with False room Some assms a show ?thesis
        by (auto simp: arrive_def admitPermission_def perm_inv_def inv_count_def inv_adm_def
            adm_ok_def runs_callback_def holds_async_def holds_turn_def Let_def maxPermissionRequests_def)
    qed
  qed
qed

lemma complete_inv:
  assumes "perm_inv s" and k: "k < length (calls s)" and pc: "pc (calls s ! k) = Completing r"
  shows "perm_inv (in_coord (completeAdmission (adm (calls s ! k))) (at_call k (\<lambda>c. c\<lparr>pc := Over r\<rparr>) s))"
proof -
  let ?c = "calls s ! k"
  have ok: "adm_ok (generation (coord s)) (adm ?c)"
    using assms(1) k by (simp add: perm_inv_def inv_adm_def)
  have t: "inv_turns (coord s)" using assms(1) by (simp add: perm_inv_def)
  have adms: "\<forall>c \<in> set ((calls s)[k := ?c\<lparr>pc := Over r\<rparr>]). adm_ok (generation (coord s)) (adm c)"
    using assms(1) k set_update_subset_insert [of "calls s" k "?c\<lparr>pc := Over r\<rparr>"]
    by (auto simp: perm_inv_def inv_adm_def)
  show ?thesis
  proof (cases "counted (adm ?c)")
    case False
    with ok have "\<not> async (adm ?c)" by (auto simp: adm_ok_def)
    with False assms adms show ?thesis
      by (auto simp: perm_inv_def inv_count_def inv_adm_def completeAdmission_def count_of_update
          runs_callback_def holds_async_def holds_turn_def split: option.split)
  next
    case True
    with ok obtain a where a: "adm_turn (adm ?c) = Some a" by (auto simp: adm_ok_def)
    have mine: "holds_turn a ?c" using True a pc by (simp add: holds_turn_def)
    have d: "dispatches (turn_at (coord s) a) = count_of (holds_turn a) (calls s)"
      using assms(1) by (simp add: perm_inv_def inv_count_def)
    have "dispatches (turn_at (coord s) a) \<noteq> 0"
      using mine k by (auto simp: d count_of_zero_iff)
    then have not_done: "\<not> turn_done (turn_at (coord s) a)"
      using inv_turnsD(3) [OF t, of a] by (auto simp: turn_ok_def)
    have a_le: "a \<le> generation (coord s)" using ok a by (auto simp: adm_ok_def)
    have inv': "inv_turns (completeAdmission (adm ?c) (coord s))"
      using t not_done a_le
      by (auto simp: completeAdmission_def a True inv_turns_def closeTurnDone_at turn_ok_def Let_def)
    show ?thesis
      using assms inv' adms a True mine
      by (auto simp: perm_inv_def inv_count_def inv_adm_def count_of_update completeAdmission_def
          closeTurnDone_at Let_def runs_callback_def holds_async_def holds_turn_def)
  qed
qed

lemma start_callback_InrD:
  assumes "start_callback a p = Inr (p', i)"
  shows "turn_open a p" "callbacks p < 64" "i = Suc (nextID p)"
    "p' = p\<lparr>nextID := i, callbacks := callbacks p + 1, pendings := (pendings p)(i \<mapsto>
        \<lparr>p_canceled = False, committed = False, p_generation = adm_generation a\<rparr>)\<rparr>"
  using assms by (auto simp: start_callback_def maxPermissionRequests_def Let_def split: if_splits)

text \<open>Steps that change the callback state of a call, or the pending entries.\<close>

lemma perm_inv_coord:
  assumes "perm_inv s" and "callbacks p = callbacks (coord s)"
    and "asyncDispatches p = asyncDispatches (coord s)" and "turn_at p = turn_at (coord s)"
    and "turns p = turns (coord s)" and "generation p = generation (coord s)"
  shows "perm_inv (s\<lparr>coord := p\<rparr>)"
  using assms by (simp add: perm_inv_def inv_count_def inv_turns_def inv_adm_def)

lemma decide_frame:
  "callbacks (fst (decide a i req ans p)) = callbacks p"
  "asyncDispatches (fst (decide a i req ans p)) = asyncDispatches p"
  "turn_at (fst (decide a i req ans p)) = turn_at p" "turns (fst (decide a i req ans p)) = turns p"
  "generation (fst (decide a i req ans p)) = generation p"
  "closed (fst (decide a i req ans p)) = closed p" "nextID (fst (decide a i req ans p)) = nextID p"
  by (simp_all add: decide_def split: option.split)

lemma start_inv:
  assumes inv: "perm_inv s" and k: "k < length (calls s)" and pc: "pc (calls s ! k) = Starting req"
    and none: "cb (calls s ! k) = NoCallback"
  shows "perm_inv (start_call k req s)"
proof (cases "start_callback (adm (calls s ! k)) (coord s)")
  case (Inl r)
  with assms show ?thesis
    by (simp add: start_call_def) (intro perm_inv_at_call; simp add: runs_callback_def)
next
  case (Inr pi)
  obtain p i where pi: "pi = (p, i)" by (cases pi)
  note p = start_callback_InrD [OF Inr [unfolded pi]]
  let ?c = "(calls s ! k)\<lparr>pc := Waiting i req, cb := CallbackRuns\<rparr>"
  have counts: "count_of runs_callback ((calls s)[k := ?c]) = count_of runs_callback (calls s) + 1"
    "count_of holds_async ((calls s)[k := ?c]) = count_of holds_async (calls s)"
    "\<And>a. count_of (holds_turn a) ((calls s)[k := ?c]) = count_of (holds_turn a) (calls s)"
    using k none pc
    by (simp_all add: count_of_update runs_callback_def holds_async_def holds_turn_def)
  have "\<forall>c \<in> set ((calls s)[k := ?c]). adm_ok (generation (coord s)) (adm c)"
    using inv k set_update_subset_insert [of "calls s" k ?c] by (auto simp: perm_inv_def inv_adm_def)
  with inv counts p show ?thesis
    by (simp add: start_call_def Inr pi perm_inv_def inv_count_def inv_turns_def inv_adm_def)
qed

lemma left_inv:
  assumes inv: "perm_inv s" and k: "k < length (calls s)" and cb: "cb (calls s ! k) = CallbackSent"
  shows "perm_inv (in_coord callback_gone (at_call k (\<lambda>c. c\<lparr>cb := CallbackLeft\<rparr>) s))"
proof -
  let ?c = "(calls s ! k)\<lparr>cb := CallbackLeft\<rparr>"
  have counts: "count_of runs_callback ((calls s)[k := ?c]) = count_of runs_callback (calls s) - 1"
    "count_of holds_async ((calls s)[k := ?c]) = count_of holds_async (calls s)"
    "\<And>a. count_of (holds_turn a) ((calls s)[k := ?c]) = count_of (holds_turn a) (calls s)"
    using k cb by (simp_all add: count_of_update runs_callback_def holds_async_def holds_turn_def)
  have "\<forall>c \<in> set ((calls s)[k := ?c]). adm_ok (generation (coord s)) (adm c)"
    using inv k set_update_subset_insert [of "calls s" k ?c] by (auto simp: perm_inv_def inv_adm_def)
  with inv counts show ?thesis
    by (simp add: perm_inv_def inv_count_def inv_turns_def inv_adm_def callback_gone_def)
qed

text \<open>A call starts its callback at most once: before that it has none.\<close>

definition inv_callback :: "permissions \<Rightarrow> bool" where
  "inv_callback s \<longleftrightarrow> (\<forall>c \<in> set (calls s).
     (pc c = Checking \<or> (\<exists>req. pc c = Starting req) \<longrightarrow> cb c = NoCallback))"

lemma inv_callback_update:
  "inv_callback s \<Longrightarrow> calls s' = (calls s)[k := c] \<Longrightarrow>
   (pc c = Checking \<or> (\<exists>req. pc c = Starting req) \<Longrightarrow> cb c = NoCallback) \<Longrightarrow> inv_callback s'"
  using set_update_subset_insert [of "calls s" k c] by (auto simp: inv_callback_def)

lemma inv_callback_nth:
  "inv_callback s \<Longrightarrow> k < length (calls s) \<Longrightarrow> pc (calls s ! k) = Checking \<or>
   (\<exists>req. pc (calls s ! k) = Starting req) \<Longrightarrow> cb (calls s ! k) = NoCallback"
  by (auto simp: inv_callback_def)

lemma inv_callback_step: "perm_step s s' \<Longrightarrow> inv_callback s \<Longrightarrow> inv_callback s'"
proof (induction rule: perm_step.induct)
  case (arrive s fd x)
  then show ?case by (auto simp: arrive_def inv_callback_def split: prod.split)
next
  case (check k s)
  show ?case
    by (rule inv_callback_update [OF check.prems, where k = k and c = "calls (check_call k s) ! k"])
       (use inv_callback_nth [OF check.prems check.hyps(1)] check.hyps in
        \<open>simp_all add: check_call_def\<close>)
next
  case (start k s req)
  show ?case
    by (cases "start_callback (adm (calls s ! k)) (coord s)")
       (auto simp: start_call_def intro: inv_callback_update [OF start.prems])
next
  case (decide k s i req ans)
  show ?case
    by (rule inv_callback_update [OF decide.prems]) (auto simp: decide_call_def split_def Let_def)
next
  case (deliver k s r oi err)
  show ?case
    by (rule inv_callback_update [OF deliver.prems])
       (auto simp: deliver_call_def split: option.splits)
next
  case (sent k s ans)
  have "cb (calls s ! k) \<noteq> NoCallback" using sent.hyps by simp
  with inv_callback_nth [OF sent.prems sent.hyps(1)] show ?case
    by (intro inv_callback_update [OF sent.prems]) auto
next
  case (left k s)
  have "cb (calls s ! k) \<noteq> NoCallback" using left.hyps by simp
  with inv_callback_nth [OF left.prems left.hyps(1)] show ?case
    by (intro inv_callback_update [OF left.prems]) auto
qed (auto intro: inv_callback_update simp: inv_callback_def
    dest!: set_update_subset_insert [THEN subsetD])

lemma perm_inv_step: "perm_step s s' \<Longrightarrow> inv_callback s \<Longrightarrow> perm_inv s \<Longrightarrow> perm_inv s'"
proof (induction rule: perm_step.induct)
  case (arrive s fd x)
  then show ?case by (intro admit_inv)
next
  case (check k s)
  have "cb (calls s ! k) = NoCallback"
    using inv_callback_nth [OF check.prems(1) check.hyps(1)] check.hyps(2) by simp
  with check show ?case
    unfolding check_call_def
    by (intro perm_inv_at_call) (auto simp: runs_callback_def split: sum.split)
next
  case (start k s req)
  then show ?case by (intro start_inv) (auto intro: inv_callback_nth)
next
  case (sent k s ans)
  then show ?case by (intro perm_inv_at_call) (simp_all add: runs_callback_def)
next
  case (left k s)
  then show ?case by (intro left_inv)
next
  case (decide k s i req ans)
  have "perm_inv (at_call k (\<lambda>c. c\<lparr>pc := Delivering (snd (decide (adm (calls s ! k)) i req ans (coord s))) (Some i)\<rparr>) s)"
    using decide by (intro perm_inv_at_call) (simp_all add: runs_callback_def)
  then show ?case
    by (simp add: decide_call_def split_def Let_def perm_inv_coord decide_frame)
next
  case (deliver k s r oi err)
  then show ?case
    unfolding deliver_call_def
    by (intro perm_inv_at_call) (auto simp: runs_callback_def split: option.split)
next
  case (forget k s r i)
  have t: "inv_turns (coord s)" using forget.prems by (simp add: perm_inv_def)
  have "perm_inv (at_call k (\<lambda>c. c\<lparr>pc := Completing r\<rparr>) s)"
    using forget by (intro perm_inv_at_call) (simp_all add: runs_callback_def)
  then show ?case by (rule perm_inv_effect) (simp add: other_effects(3) [OF t])
next
  case (complete k s r)
  then show ?case by (intro complete_inv)
next
  case (wake k s i req ans)
  then show ?case by (intro perm_inv_at_call) (simp_all add: runs_callback_def)
next
  case (wake_canceled k s i req e)
  then show ?case by (intro perm_inv_at_call) (simp_all add: runs_callback_def)
qed (rule perm_inv_effect; simp add: perm_inv_def CloseTurnAdmission_def end_turn_close_def
    BeginTurn_effect closeTurnAdmission_effect CancelTurn_effect CloseCoordinator_effect other_effects)+

lemma perm_inv_new: "perm_inv (new_permissions b)" "inv_callback (new_permissions b)"
  by (auto simp: perm_inv_def inv_count_def inv_turns_def inv_adm_def inv_callback_def turn_ok_def
      new_permissions_def NewBestEffortPermissionRequests_def no_turn_def)

lemma perm_inv_reach:
  "perm_reach s s' \<Longrightarrow> perm_inv s \<Longrightarrow> inv_callback s \<Longrightarrow> perm_inv s' \<and> inv_callback s'"
  by (induction rule: perm_reach.induct) (auto dest: perm_inv_step inv_callback_step)

end
