(* ===== verification/Permission_Properties.thy ===== *)
theory Permission_Properties
  imports Permission_Steps
begin

text \<open>
  Properties of permission requests over all interleavings: the counters and
  their bounds, the barrier of \<open>EndTurn\<close>, what a selected answer rests on, and that no
  answer is selected once its turn was canceled, closed or replaced.
\<close>

subsection \<open>Answers\<close>

fun resolution_of :: "call_pc \<Rightarrow> resolution option" where
  "resolution_of (Delivering r oi) = Some r"
| "resolution_of (Forgetting r i) = Some r"
| "resolution_of (Completing r) = Some r"
| "resolution_of (Over r) = Some r"
| "resolution_of _ = None"

fun request_of :: "call_pc \<Rightarrow> permission_request option" where
  "request_of (Starting req) = Some req"
| "request_of (Waiting i req) = Some req"
| "request_of (Deciding i req ans) = Some req"
| "request_of _ = None"

text \<open>A selected answer is an option of the valid request, named by the responder's own
  answer, for a request that was admitted to an active turn.\<close>

definition justified :: "call \<Rightarrow> resolution \<Rightarrow> bool" where
  "justified c r \<longleftrightarrow> (\<exists>req ans. parsePermissionRequest (params c) = Inr req \<and>
     Option r \<in> set (ReqOptions req) \<and> adm_active (adm c) \<and>
     reply c = Some ans \<and> sel_err ans = None \<and> sel_option ans = OptionID (Option r))"

definition call_ok :: "call \<Rightarrow> bool" where
  "call_ok c \<longleftrightarrow>
     (\<forall>req. request_of (pc c) = Some req \<longrightarrow>
        parsePermissionRequest (params c) = Inr req \<and> adm_active (adm c)) \<and>
     (\<forall>r. resolution_of (pc c) = Some r \<and> Outcome r = PermissionOutcomeSelected \<longrightarrow> justified c r) \<and>
     (\<forall>i req ans. pc c = Deciding i req ans \<longrightarrow> reply c = Some ans \<or> is_context_error (sel_err ans)) \<and>
     (cb c = CallbackRuns \<or> cb c = NoCallback \<longrightarrow> reply c = None)"

lemma precheck_InlD: "precheck a x p = Inl r \<Longrightarrow> Outcome r = PermissionOutcomeCancelled"
  by (auto simp: precheck_def permissionFailure_def cancelledPermission_def split: sum.splits if_splits)

lemma precheck_InrD:
  "precheck a x p = Inr req \<Longrightarrow> parsePermissionRequest x = Inr req \<and> adm_active a"
  by (auto simp: precheck_def split: sum.splits if_splits)

lemma start_callback_InlD: "start_callback a p = Inl r \<Longrightarrow> Outcome r = PermissionOutcomeCancelled"
  by (auto simp: start_callback_def permissionFailure_def cancelledPermission_def Let_def split: if_splits)

lemma choose_option_selected:
  assumes "Outcome (choose_option req i) = PermissionOutcomeSelected"
  shows "Option (choose_option req i) \<in> set (ReqOptions req) \<and> OptionID (Option (choose_option req i)) = i"
proof (cases "find (\<lambda>opt. OptionID opt = i) (ReqOptions req)")
  case None
  with assms show ?thesis
    by (simp add: choose_option_def permissionFailure_def cancelledPermission_def)
next
  case (Some opt)
  then have "opt \<in> set (ReqOptions req)" "OptionID opt = i" by (auto simp: find_Some_iff)
  with Some show ?thesis by (simp add: choose_option_def selectedPermission_def)
qed

lemma decide_selected:
  assumes "decide a i req ans p = (p', r)" and "Outcome r = PermissionOutcomeSelected"
  shows "turn_open a p" "sel_err ans = None" "r = choose_option req (sel_option ans)"
    "\<exists>e. pendings p i = Some e \<and> \<not> p_canceled e"
  using assms
  by (auto simp: decide_def permissionFailure_def cancelledPermission_def split: option.splits if_splits)

lemma deliver_same [simp]:
  "Outcome (deliverPermissionResponse r err) = Outcome r"
  "Option (deliverPermissionResponse r err) = Option r"
  by (simp_all add: deliverPermissionResponse_def split: option.split)

definition inv_calls :: "permissions \<Rightarrow> bool" where
  "inv_calls s \<longleftrightarrow> (\<forall>c \<in> set (calls s). call_ok c)"

lemma inv_calls_update:
  "inv_calls s \<Longrightarrow> calls s' = (calls s)[k := c] \<Longrightarrow> call_ok c \<Longrightarrow> inv_calls s'"
  using set_update_subset_insert [of "calls s" k c] by (auto simp: inv_calls_def)

lemma inv_calls_nth: "inv_calls s \<Longrightarrow> k < length (calls s) \<Longrightarrow> call_ok (calls s ! k)"
  by (simp add: inv_calls_def)

lemma inv_calls_step: "perm_step s s' \<Longrightarrow> inv_callback s \<Longrightarrow> inv_calls s \<Longrightarrow> inv_calls s'"
proof (induction rule: perm_step.induct)
  case (arrive s fd x)
  then show ?case by (auto simp: arrive_def inv_calls_def call_ok_def split: prod.split)
next
  case (check k s)
  note ok = inv_calls_nth [OF check.prems(2) check.hyps(1)]
  show ?case
  proof (cases "precheck (adm (calls s ! k)) (params (calls s ! k)) (coord s)")
    case (Inl r)
    show ?thesis
      by (rule inv_calls_update [OF check.prems(2), where k = k and c = "(calls s ! k)\<lparr>pc := Delivering r None\<rparr>"])
         (use ok precheck_InlD [OF Inl] in \<open>auto simp: check_call_def Inl call_ok_def\<close>)
  next
    case (Inr req)
    show ?thesis
      by (rule inv_calls_update [OF check.prems(2), where k = k and c = "(calls s ! k)\<lparr>pc := Starting req\<rparr>"])
         (use ok precheck_InrD [OF Inr] in \<open>auto simp: check_call_def Inr call_ok_def\<close>)
  qed
next
  case (start k s req)
  note ok = inv_calls_nth [OF start.prems(2) start.hyps(1)]
  have none: "cb (calls s ! k) = NoCallback"
    using inv_callback_nth [OF start.prems(1) start.hyps(1)] start.hyps(2) by blast
  show ?case
  proof (cases "start_callback (adm (calls s ! k)) (coord s)")
    case (Inl r)
    show ?thesis
      by (rule inv_calls_update [OF start.prems(2), where k = k and c = "(calls s ! k)\<lparr>pc := Delivering r None\<rparr>"])
         (use ok start_callback_InlD [OF Inl] in \<open>auto simp: start_call_def Inl call_ok_def\<close>)
  next
    case (Inr pi)
    obtain p i where pi: "pi = (p, i)" by (cases pi)
    show ?thesis
      by (rule inv_calls_update [OF start.prems(2), where k = k and
            c = "(calls s ! k)\<lparr>pc := Waiting i req, cb := CallbackRuns\<rparr>"])
         (use ok none start.hyps(2) in \<open>auto simp: start_call_def Inr pi call_ok_def\<close>)
  qed
next
  case (sent k s ans)
  note ok = inv_calls_nth [OF sent.prems(2) sent.hyps(1)]
  have "reply (calls s ! k) = None" using ok sent.hyps(2) by (auto simp: call_ok_def)
  with ok have "call_ok ((calls s ! k)\<lparr>cb := CallbackSent, reply := Some ans\<rparr>)"
    unfolding call_ok_def justified_def by auto
  then show ?case by (intro inv_calls_update [OF sent.prems(2)]) simp_all
next
  case (left k s)
  note ok = inv_calls_nth [OF left.prems(2) left.hyps(1)]
  then have "call_ok ((calls s ! k)\<lparr>cb := CallbackLeft\<rparr>)" by (auto simp: call_ok_def justified_def)
  then show ?case by (intro inv_calls_update [OF left.prems(2)]) simp_all
next
  case (wake k s i req ans)
  note ok = inv_calls_nth [OF wake.prems(2) wake.hyps(1)]
  then have "call_ok ((calls s ! k)\<lparr>pc := Deciding i req ans\<rparr>)"
    using wake.hyps(2,3) by (auto simp: call_ok_def)
  then show ?case by (intro inv_calls_update [OF wake.prems(2)]) simp_all
next
  case (wake_canceled k s i req e)
  note ok = inv_calls_nth [OF wake_canceled.prems(2) wake_canceled.hyps(1)]
  then have "call_ok ((calls s ! k)\<lparr>pc := Deciding i req \<lparr>sel_option = [], sel_err = Some CtxCanceled\<rparr>\<rparr>)"
    using wake_canceled.hyps(2) by (auto simp: call_ok_def is_context_error_def)
  then show ?case by (intro inv_calls_update [OF wake_canceled.prems(2)]) simp_all
next
  case (decide k s i req ans)
  note ok = inv_calls_nth [OF decide.prems(2) decide.hyps(1)]
  obtain p r where d: "Permission.decide (adm (calls s ! k)) i req ans (coord s) = (p, r)" by fastforce
  have "justified ((calls s ! k)\<lparr>pc := Delivering r (Some i)\<rparr>) r" if "Outcome r = PermissionOutcomeSelected"
  proof -
    note sel = decide_selected [OF d that]
    have "reply (calls s ! k) = Some ans"
      using ok decide.hyps(2) sel(2) by (auto simp: call_ok_def is_context_error_def)
    moreover have "parsePermissionRequest (params (calls s ! k)) = Inr req" "adm_active (adm (calls s ! k))"
      using ok decide.hyps(2) by (auto simp: call_ok_def)
    ultimately show ?thesis
      using sel(2,3) choose_option_selected [of req "sel_option ans"] that
      by (auto simp: justified_def)
  qed
  with ok have "call_ok ((calls s ! k)\<lparr>pc := Delivering r (Some i)\<rparr>)" by (auto simp: call_ok_def)
  then show ?case
    by (intro inv_calls_update [OF decide.prems(2)]) (simp_all add: decide_call_def d)
next
  case (deliver k s r oi err)
  note ok = inv_calls_nth [OF deliver.prems(2) deliver.hyps(1)]
  have "call_ok ((calls s ! k)\<lparr>pc := Forgetting (deliverPermissionResponse r err) i\<rparr>)"
    "call_ok ((calls s ! k)\<lparr>pc := Completing (deliverPermissionResponse r err)\<rparr>)" for i
    using ok deliver.hyps(2) by (auto simp: call_ok_def justified_def)
  then show ?case
    by (cases oi) (auto simp: deliver_call_def intro: inv_calls_update [OF deliver.prems(2)])
next
  case (forget k s r i)
  note ok = inv_calls_nth [OF forget.prems(2) forget.hyps(1)]
  then have "call_ok ((calls s ! k)\<lparr>pc := Completing r\<rparr>)"
    using forget.hyps(2) by (auto simp: call_ok_def justified_def)
  then show ?case by (intro inv_calls_update [OF forget.prems(2)]) simp_all
next
  case (complete k s r)
  note ok = inv_calls_nth [OF complete.prems(2) complete.hyps(1)]
  then have "call_ok ((calls s ! k)\<lparr>pc := Over r\<rparr>)"
    using complete.hyps(2) by (auto simp: call_ok_def justified_def)
  then show ?case by (intro inv_calls_update [OF complete.prems(2)]) simp_all
qed (simp_all add: inv_calls_def)

lemma inv_calls_reach:
  "perm_reach s s' \<Longrightarrow> perm_inv s \<Longrightarrow> inv_callback s \<Longrightarrow> inv_calls s \<Longrightarrow> inv_calls s'"
proof (induction rule: perm_reach.induct)
  case (step s s' s'')
  then show ?case
    using inv_calls_step [OF step.hyps(2)] perm_inv_reach [OF step.hyps(1)] by blast
qed

lemma reach_inv:
  assumes "perm_reach (new_permissions b) s"
  shows "perm_inv s" "inv_callback s" "inv_calls s"
  using perm_inv_reach [OF assms perm_inv_new] inv_calls_reach [OF assms perm_inv_new]
  by (simp_all add: inv_calls_def new_permissions_def)

subsection \<open>A turn that is over stays over\<close>

lemma turn_open_iff:
  assumes "inv_turns p"
  shows "turn_open a p \<longleftrightarrow> \<not> closed p \<and> turns p (adm_generation a) = Some (adm_generation a) \<and>
    adm_turn a = Some (adm_generation a) \<and> active (turn_at p (adm_generation a)) \<and>
    \<not> canceled (turn_at p (adm_generation a))"
  using inv_turnsD(1) [OF assms] by (auto simp: turn_open_def split: option.splits)

lemma turn_open_cong:
  "closed q = closed p \<Longrightarrow> turns q = turns p \<Longrightarrow> turn_at q = turn_at p \<Longrightarrow> turn_open a q = turn_open a p"
  by (simp add: turn_open_def split: option.split)

lemma turn_open_cancel_where [simp]: "turn_open a (cancel_where Q p) = turn_open a p"
  by (rule turn_open_cong) simp_all

lemma turn_open_set:
  "turn_open a (set_turn b t p) \<Longrightarrow>
   (active t \<and> \<not> canceled t \<Longrightarrow> active (turn_at p b) \<and> \<not> canceled (turn_at p b)) \<Longrightarrow> turn_open a p"
  by (auto simp: turn_open_def split: option.splits if_splits)

lemma finish_turn_simps [simp]:
  "active (finish_turn t) = active t" "canceled (finish_turn t) = canceled t"
  by (simp_all add: finish_turn_def)

lemma turn_open_retire: "turn_open a (retire_turn b p) \<Longrightarrow> turn_open a p"
  unfolding retire_turn_def set_closeTurnDone by (erule turn_open_set) simp

lemma turn_open_begin:
  assumes open': "turn_open a (BeginTurn p)" and inv: "inv_turns p" and gen: "adm_generation a \<le> generation p"
  shows "turn_open a p" "adm_generation a \<noteq> generation p"
proof -
  define q where "q = (case turns p (generation p) of
     None \<Rightarrow> p | Some b \<Rightarrow> if active (turn_at p b) then retire_turn b p else p)"
  have eq: "BeginTurn p = (set_turn (Suc (generation q)) (no_turn\<lparr>active := True\<rparr>) (cancel_where (\<lambda>_. True) q))
      \<lparr>generation := Suc (generation q), turns := (turns q)(Suc (generation q) \<mapsto> Suc (generation q))\<rparr>"
    by (simp add: BeginTurn_def q_def Let_def)
  have same: "generation q = generation p" "turns q = turns p"
    by (auto simp: q_def retire_turn_def split: option.split)
  have "\<not> closed q \<and> turns q (adm_generation a) = Some (adm_generation a) \<and>
      adm_turn a = Some (adm_generation a) \<and> active (turn_at q (adm_generation a)) \<and>
      \<not> canceled (turn_at q (adm_generation a))"
    using open' gen same inv_turnsD(1) [OF inv] turn_allocated [OF inv]
    by (fastforce simp: eq turn_open_def split: option.splits if_splits)
  then have q: "turn_open a q" and at: "turns p (adm_generation a) = Some (adm_generation a)"
    "active (turn_at q (adm_generation a))"
    using same by (auto simp: turn_open_def)
  show "turn_open a p"
    using q by (auto simp: q_def split: option.splits if_splits intro: turn_open_retire)
  show "adm_generation a \<noteq> generation p"
  proof
    assume "adm_generation a = generation p"
    with at(1) have "turns p (generation p) = Some (generation p)" by simp
    then have "\<not> active (turn_at q (generation p))"
      by (auto simp: q_def retire_turn_def closeTurnDone_at)
    with at(2) \<open>adm_generation a = generation p\<close> show False by simp
  qed
qed

lemma turn_open_close_admission:
  "turn_open a (closeTurnAdmission g p) \<Longrightarrow> turn_open a p \<and> (inv_turns p \<longrightarrow> adm_generation a \<noteq> g)"
  by (auto simp: closeTurnAdmission_def cancel_where_turn turn_open_def inv_turns_def Let_def
      split: option.splits if_splits)

lemma turn_open_cancel:
  "turn_open a (CancelTurn p) \<Longrightarrow> turn_open a p \<and> (inv_turns p \<longrightarrow> adm_generation a \<noteq> generation p)"
  by (auto simp: CancelTurn_def turn_open_def inv_turns_def Let_def split: option.splits if_splits)

lemma turn_open_close: "\<not> turn_open a (CloseCoordinator p)"
  by (simp add: CloseCoordinator_def) (simp add: turn_open_def)

lemma turn_open_forget: "turn_open a (end_turn_forget g b p) \<Longrightarrow> turn_open a p"
  by (auto simp: end_turn_forget_def turn_open_def split: if_splits option.splits)

lemma turn_open_admit [simp]: "turn_open a (fst (admitPermission fd p)) = turn_open a p"
  by (auto simp: admitPermission_def turn_open_def Let_def split: option.split)

lemma turn_open_complete [simp]: "turn_open a (completeAdmission b p) = turn_open a p"
  by (auto simp: completeAdmission_def turn_open_def set_closeTurnDone Let_def split: option.split)

lemma turn_open_same [simp]:
  "turn_open a (callback_gone p) = turn_open a p" "turn_open a (forget_pending i p) = turn_open a p"
  "turn_open a (SetSessionID sn p) = turn_open a p" "turn_open a (fst (decide b i req ans p)) = turn_open a p"
  by (rule turn_open_cong; simp add: callback_gone_def forget_pending_def SetSessionID_def decide_frame)+

lemma turn_open_back:
  "perm_step s s' \<Longrightarrow> turn_open a (coord s') \<Longrightarrow> inv_turns (coord s) \<Longrightarrow>
   adm_generation a \<le> generation (coord s) \<Longrightarrow> turn_open a (coord s)"
proof (induction rule: perm_step.induct)
  case (start k s req)
  show ?case
  proof (cases "start_callback (adm (calls s ! k)) (coord s)")
    case (Inl r)
    with start show ?thesis by (simp add: start_call_def)
  next
    case (Inr pi)
    obtain p i where pi: "pi = (p, i)" by (cases pi)
    have "turn_open a p = turn_open a (coord s)"
      by (rule turn_open_cong) (simp_all add: start_callback_InrD(4) [OF Inr [unfolded pi]])
    with start Inr pi show ?thesis by (simp add: start_call_def)
  qed
next
  case (begin_turn s)
  then show ?case using turn_open_begin(1) by auto
next
  case (close_admission s)
  then show ?case using turn_open_close_admission by (auto simp: CloseTurnAdmission_def)
next
  case (end_close s)
  then show ?case using turn_open_close_admission by (auto simp: end_turn_close_def)
next
  case (cancel_turn s)
  then show ?case using turn_open_cancel by auto
qed (auto simp: arrive_def check_call_def deliver_call_def decide_call_def split_def Let_def turn_open_close
    dest: turn_open_forget)

subsection \<open>Properties\<close>

text \<open>
  C27. Permission work is bounded and its counters are right. In every reachable state
  \<open>callbacks\<close> is the number of responder callbacks that have started and not returned,
  \<open>asyncDispatches\<close> the number of asynchronous dispatches not completed, and both are at
  most 64, however turns were begun, canceled and closed.
\<close>

theorem permission_work_bounded:
  assumes "perm_reach (new_permissions b) s"
  shows "callbacks (coord s) = count_of runs_callback (calls s) \<and> callbacks (coord s) \<le> 64 \<and>
    asyncDispatches (coord s) = count_of holds_async (calls s) \<and> asyncDispatches (coord s) \<le> 64"
  using reach_inv(1) [OF assms] by (simp add: perm_inv_def inv_count_def)

text \<open>
  The barrier of \<open>EndTurn\<close> is exact. A turn's \<open>done\<close>, for which \<open>EndTurn\<close> waits, is
  closed exactly when the turn is ending and every dispatched request that was admitted
  to it is over; and a turn that is ending admits no more.
\<close>

theorem end_turn_barrier:
  assumes "perm_reach (new_permissions b) s"
  shows "(turn_done (turn_at (coord s) a) \<longleftrightarrow> turn_ending (turn_at (coord s) a) \<and>
      (\<forall>c \<in> set (calls s). counted (adm c) \<and> adm_turn (adm c) = Some a \<longrightarrow> over (pc c))) \<and>
    (turn_ending (turn_at (coord s) a) \<longrightarrow>
      adm_turn (snd (admitPermission forDispatch (coord s))) \<noteq> Some a)"
proof -
  have inv: "perm_inv s" by (rule reach_inv(1) [OF assms])
  have ok: "turn_ok (turn_at (coord s) a)"
    using inv inv_turnsD(3) by (simp add: perm_inv_def)
  have "dispatches (turn_at (coord s) a) = 0 \<longleftrightarrow> (\<forall>c \<in> set (calls s). \<not> holds_turn a c)"
    using inv by (simp add: perm_inv_def inv_count_def count_of_zero_iff)
  with ok show ?thesis
    by (auto simp: turn_ok_def holds_turn_def admitPermission_def Let_def split: option.split)
qed

text \<open>
  A selected answer is one the agent offered and the host chose. When a call carries
  a selected resolution, its request was valid and admitted to an active turn, the option
  is one of the request's, and the responder returned that option's id without an error.
\<close>

theorem selected_answer_justified:
  assumes "perm_reach (new_permissions b) s" and "c \<in> set (calls s)"
    and "resolution_of (pc c) = Some r" and "Outcome r = PermissionOutcomeSelected"
  shows "\<exists>req ans. parsePermissionRequest (params c) = Inr req \<and> Option r \<in> set (ReqOptions req) \<and>
    distinct (map OptionID (ReqOptions req)) \<and> adm_active (adm c) \<and>
    reply c = Some ans \<and> sel_err ans = None \<and> sel_option ans = OptionID (Option r)"
proof -
  have "call_ok c" using reach_inv(3) [OF assms(1)] assms(2) by (simp add: inv_calls_def)
  with assms(3,4) obtain req ans where *: "parsePermissionRequest (params c) = Inr req"
    "Option r \<in> set (ReqOptions req)" "adm_active (adm c)" "reply c = Some ans"
    "sel_err ans = None" "sel_option ans = OptionID (Option r)"
    by (auto simp: call_ok_def justified_def)
  with parsePermissionRequest_InrD(4) [OF *(1)] show ?thesis by blast
qed

text \<open>A call whose turn is over never gets a selected answer.\<close>

definition declined :: "nat \<Rightarrow> admission \<Rightarrow> permissions \<Rightarrow> bool" where
  "declined k a s \<longleftrightarrow> k < length (calls s) \<and> adm (calls s ! k) = a \<and> \<not> turn_open a (coord s) \<and>
     (\<forall>r. resolution_of (pc (calls s ! k)) = Some r \<longrightarrow> Outcome r = PermissionOutcomeCancelled)"

lemma not_selected: "Outcome r \<noteq> PermissionOutcomeSelected \<Longrightarrow> Outcome r = PermissionOutcomeCancelled"
  by (cases "Outcome r") simp_all

lemma declined_step:
  assumes step: "perm_step s s'" and d: "declined k a s" and inv: "perm_inv s"
  shows "declined k a s'"
proof -
  have "adm_ok (generation (coord s)) a"
    using d inv by (auto simp: declined_def perm_inv_def inv_adm_def)
  then have closed': "\<not> turn_open a (coord s')"
    using turn_open_back [OF step] d inv by (auto simp: declined_def perm_inv_def adm_ok_def)
  have "k < length (calls s') \<and> adm (calls s' ! k) = a \<and>
      (\<forall>r. resolution_of (pc (calls s' ! k)) = Some r \<longrightarrow> Outcome r = PermissionOutcomeCancelled)"
    using step d
  proof (induction rule: perm_step.induct)
    case (check j s)
    then show ?case
      by (cases "j = k") (auto simp: declined_def check_call_def split: sum.split dest: precheck_InlD)
  next
    case (start j s req)
    then show ?case
      by (cases "j = k")
         (auto simp: declined_def start_call_def split: sum.split prod.split dest: start_callback_InlD)
  next
    case (decide j s i req ans)
    have "Outcome (snd (Permission.decide a i req ans (coord s))) = PermissionOutcomeCancelled" if "j = k"
      using decide_selected(1) [of a i req ans "coord s"] decide.prems
      by (intro not_selected) (auto simp: declined_def prod_eq_iff)
    with decide show ?case
      by (cases "j = k") (auto simp: declined_def decide_call_def split_def Let_def)
  next
    case (deliver j s r oi err)
    then show ?case
      by (cases "j = k") (auto simp: declined_def deliver_call_def split: option.split)
  qed (auto simp: declined_def arrive_def nth_append nth_list_update split: prod.split)
  with closed' show ?thesis by (simp add: declined_def)
qed

lemma declined_reach:
  "perm_reach s s' \<Longrightarrow> declined k a s \<Longrightarrow> perm_inv s \<Longrightarrow> inv_callback s \<Longrightarrow> declined k a s'"
proof (induction rule: perm_reach.induct)
  case (step s s' s'')
  then show ?case
    using declined_step [OF step.hyps(2)] perm_inv_reach [OF step.hyps(1)] by blast
qed

text \<open>
  C30. No answer is selected once its turn is canceled, closed or replaced. A call of the
  current turn that has not decided when \<open>CancelTurn\<close>, \<open>CloseTurnAdmission\<close>, \<open>BeginTurn\<close> or
  \<open>EndTurn\<close> takes the coordinator's lock, and any undecided call when \<open>Close\<close> does, is
  answered, if ever, as canceled, whatever the responder returned before or after.
\<close>

theorem cancel_wins:
  assumes "perm_reach (new_permissions b) s" and "k < length (calls s)"
    and "resolution_of (pc (calls s ! k)) = None"
    and "(f \<in> {CancelTurn, CloseTurnAdmission, BeginTurn, (\<lambda>p. fst (end_turn_close p))} \<and>
          adm_generation (adm (calls s ! k)) = generation (coord s)) \<or> f = CloseCoordinator"
    and "perm_reach (in_coord f s) s'" and "resolution_of (pc (calls s' ! k)) = Some r"
  shows "Outcome r = PermissionOutcomeCancelled"
proof -
  let ?a = "adm (calls s ! k)"
  have inv: "perm_inv s" "inv_callback s" using reach_inv [OF assms(1)] by simp_all
  then have turns: "inv_turns (coord s)" by (simp add: perm_inv_def)
  have gen: "adm_generation ?a \<le> generation (coord s)"
    using inv(1) assms(2) by (auto simp: perm_inv_def inv_adm_def adm_ok_def)
  have step: "perm_step s (in_coord f s)"
    using assms(4) perm_step.intros(12-14,16,17) by auto
  have "\<not> turn_open ?a (f (coord s))"
    using assms(4) turns gen turn_open_begin [of ?a "coord s"] turn_open_cancel [of ?a "coord s"]
      turn_open_close_admission [of ?a "generation (coord s)" "coord s"] turn_open_close
    by (auto simp: CloseTurnAdmission_def end_turn_close_def)
  then have "declined k ?a (in_coord f s)"
    using assms(2,3) by (simp add: declined_def)
  then have "declined k ?a s'"
    using declined_reach [OF assms(5)] perm_inv_step [OF step] inv_callback_step [OF step] inv by blast
  with assms(6) show ?thesis by (simp add: declined_def)
qed

subsection \<open>Witnesses\<close>

definition ex_params :: raw where
  "ex_params = Some (jobj [(''sessionId'', jstr ''s''),
     (''toolCall'', jobj [(''toolCallId'', jstr ''t'')]),
     (''options'', JArr ''[]'' [jobj [(''optionId'', jstr ''yes''), (''name'', jstr ''Yes''),
                                      (''kind'', jstr ''allow_once'')]])])"

definition ex_request :: permission_request where
  "ex_request = \<lparr>ReqSessionID = ''s'', ReqToolCall = no_tool_call\<lparr>ToolCallID := ''t''\<rparr>,
     ReqOptions = [\<lparr>OptionID = ''yes'', OptionName = ''Yes'', OptionKind = ''allow_once''\<rparr>],
     RawParams = ex_params\<rparr>"

lemma ex_parse: "parsePermissionRequest ex_params = Inr ex_request"
  by code_simp

definition ex_answer :: answer where
  "ex_answer = \<lparr>sel_option = ''yes'', sel_err = None\<rparr>"

text \<open>A turn, a dispatched request whose callback runs, and its answer on the way.\<close>

definition ex_waiting :: permissions where
  "ex_waiting = start_call 0 ex_request (check_call 0 (arrive True ex_params
     (in_coord BeginTurn (new_permissions True))))"

definition ex_sent :: permissions where
  "ex_sent = at_call 0 (\<lambda>c. c\<lparr>cb := CallbackSent, reply := Some ex_answer\<rparr>) ex_waiting"

lemmas ex_defs = ex_waiting_def ex_sent_def start_call_def check_call_def arrive_def
  in_coord_def at_call_def new_permissions_def NewBestEffortPermissionRequests_def BeginTurn_def
  admitPermission_def precheck_def start_callback_def turn_open_def set_turn_def cancel_where_def
  no_turn_def Let_def ex_parse maxPermissionRequests_def

lemma ex_waiting_eq:
  "calls ex_waiting = [\<lparr>adm = \<lparr>adm_generation = 1, adm_active = True, adm_turn = Some 1, counted = True,
       async = True, atCapacity = False\<rparr>, params = ex_params, pc = Waiting 1 ex_request,
     cb = CallbackRuns, reply = None\<rparr>]"
  "callbacks (coord ex_waiting) = 1" "asyncDispatches (coord ex_waiting) = 1"
  "generation (coord ex_waiting) = 1"
  "pendings (coord ex_waiting) = [1 \<mapsto> \<lparr>p_canceled = False, committed = False, p_generation = 1\<rparr>]"
  "turn_open \<lparr>adm_generation = 1, adm_active = True, adm_turn = Some 1, counted = True,
     async = True, atCapacity = False\<rparr> (coord ex_waiting)"
  by (simp_all add: ex_defs)

lemma ex_waiting_reach: "perm_reach (new_permissions True) ex_waiting"
proof -
  let ?s = "in_coord BeginTurn (new_permissions True)"
  let ?t = "arrive True ex_params ?s"
  have s: "perm_reach (new_permissions True) ?t"
    by (rule perm_reach.step [OF perm_reach.step [OF perm_reach.start perm_step.begin_turn] perm_step.arrive])
  have c: "perm_step ?t (check_call 0 ?t)"
    by (rule perm_step.check) (simp_all add: ex_defs)
  have "perm_step (check_call 0 ?t) ex_waiting"
    unfolding ex_waiting_def by (rule perm_step.start) (simp_all add: ex_defs)
  with s c show ?thesis by (blast intro: perm_reach.step)
qed

lemma ex_sent_step: "perm_step ex_waiting ex_sent"
  unfolding ex_sent_def by (rule perm_step.sent) (simp_all add: ex_waiting_eq)

lemma ex_sent_reach: "perm_reach (new_permissions True) ex_sent"
  by (rule perm_reach.step [OF ex_waiting_reach ex_sent_step])

text \<open>From a state where the answer has been sent, the call can decide.\<close>

definition decided :: "permissions \<Rightarrow> permissions" where
  "decided s = decide_call 0 1 ex_request ex_answer
     (at_call 0 (\<lambda>c. c\<lparr>pc := Deciding 1 ex_request ex_answer\<rparr>) s)"

lemma decided_reach:
  assumes "calls s = calls ex_sent"
  shows "perm_reach s (decided s)"
proof -
  let ?s = "at_call 0 (\<lambda>c. c\<lparr>pc := Deciding 1 ex_request ex_answer\<rparr>) s"
  have "perm_step s ?s"
    by (rule perm_step.wake) (simp_all add: assms ex_sent_def at_call_def ex_waiting_eq)
  moreover have "perm_step ?s (decided s)"
    unfolding decided_def
    by (rule perm_step.decide) (simp_all add: assms ex_sent_def at_call_def ex_waiting_eq)
  ultimately show ?thesis by (blast intro: perm_reach.intros)
qed

lemma ex_selected:
  "calls (decided ex_sent) \<noteq> []"
  "resolution_of (pc (calls (decided ex_sent) ! 0)) =
     Some (selectedPermission \<lparr>OptionID = ''yes'', OptionName = ''Yes'', OptionKind = ''allow_once''\<rparr>)"
  using ex_waiting_eq(6)
  by (simp_all add: decided_def decide_call_def decide_def ex_sent_def at_call_def ex_waiting_eq
      is_context_error_def ex_answer_def choose_option_def ex_request_def)

theorem permission_work_bounded_witness:
  "callbacks (coord ex_waiting) = 1 \<and> count_of runs_callback (calls ex_waiting) = 1"
  using permission_work_bounded [OF ex_waiting_reach] by (simp add: ex_waiting_eq)

theorem end_turn_barrier_witness:
  "\<not> turn_done (turn_at (coord ex_waiting) 1)"
  using end_turn_barrier [OF ex_waiting_reach, of 1] by (simp add: ex_waiting_eq)

theorem selected_answer_justified_witness:
  "\<exists>req. parsePermissionRequest ex_params = Inr req \<and>
     \<lparr>OptionID = ''yes'', OptionName = ''Yes'', OptionKind = ''allow_once''\<rparr> \<in> set (ReqOptions req)"
proof -
  have "params (calls (decided ex_sent) ! 0) = ex_params"
    by (simp add: decided_def decide_call_def at_call_def split_def Let_def ex_sent_def ex_waiting_eq)
  with selected_answer_justified [OF perm_reach_trans [OF decided_reach [OF refl] ex_sent_reach]
      nth_mem ex_selected(2)] ex_selected(1)
  show ?thesis by (auto simp: selectedPermission_def)
qed

theorem cancel_wins_witness:
  "\<exists>s r. perm_reach (in_coord CancelTurn ex_sent) s \<and>
     resolution_of (pc (calls s ! 0)) = Some r \<and> Outcome r = PermissionOutcomeCancelled"
proof -
  let ?s = "in_coord CancelTurn ex_sent"
  have r: "perm_reach ?s (decided ?s)"
    by (rule decided_reach) (simp add: in_coord_def)
  obtain r' where r': "resolution_of (pc (calls (decided ?s) ! 0)) = Some r'"
    by (simp add: decided_def decide_call_def at_call_def split_def Let_def in_coord_def
        ex_sent_def ex_waiting_eq)
  have "Outcome r' = PermissionOutcomeCancelled"
    by (rule cancel_wins [OF ex_sent_reach, of 0 CancelTurn, OF _ _ _ r r'])
       (simp_all add: ex_sent_def at_call_def ex_waiting_eq)
  with r r' show ?thesis by blast
qed

end
