(* ===== verification/Environment.thy ===== *)
theory Environment
  imports Go_Strings "HOL-Library.AList" "HOL-Library.Char_ord" "HOL-Library.List_Lexorder"
begin

text \<open>
  The environment of a wrapped subprocess: \<open>wrapper/environment.go\<close> and
  \<open>withPostureEnv\<close> of \<open>wrapper/posture.go\<close>. The map \<open>values\<close> of the code is an association
  list with distinct keys; the code sorts what it reads from the map, so the order in which
  Go ranges over a map does not show. Strings are ordered by their bytes.
\<close>

subsection \<open>Configuration and errors\<close>

definition EnvironmentInherit :: string where "EnvironmentInherit = ''inherit''"
definition EnvironmentMerge :: string where "EnvironmentMerge = ''merge''"
definition EnvironmentReplace :: string where "EnvironmentReplace = ''replace''"

text \<open>A \<open>nil\<close> allowlist differs from an empty one; \<open>Set\<close> and \<open>Unset\<close> are only ranged over.\<close>

record child_environment =
  Mode :: string
  Allowlist :: "string list option"
  Set :: "string list"
  Unset :: "string list"

datatype name_error = NameEmpty | NameHasEquals | NameHasNUL

text \<open>The first four wrap \<open>ErrInvalidEnvironment\<close>.\<close>

datatype env_error =
    UnknownMode string
  | BadName string nat name_error
  | NotAssignment nat
  | ValueHasNUL nat
  | ErrEnvironmentSetInInherit
  | ErrEnvironmentAllowlistInReplace

definition validateEnvironmentName :: "string \<Rightarrow> name_error option" where
  "validateEnvironmentName name =
     (if name = [] then Some NameEmpty
      else if CHR ''='' \<in> set name then Some NameHasEquals
      else if CHR 0x00 \<in> set name then Some NameHasNUL
      else None)"

definition canonicalEnvironmentName :: "string \<Rightarrow> string \<Rightarrow> string" where
  "canonicalEnvironmentName goos name = (if goos = ''windows'' then ToUpper name else name)"

fun environmentNameSet :: "string list \<Rightarrow> string \<Rightarrow> string \<Rightarrow> nat \<Rightarrow> env_error + string set" where
  "environmentNameSet [] field goos i = Inr {}"
| "environmentNameSet (name # names) field goos i =
     (case validateEnvironmentName name of
        Some e \<Rightarrow> Inl (BadName field i e)
      | None \<Rightarrow>
          (case environmentNameSet names field goos (Suc i) of
             Inl e \<Rightarrow> Inl e
           | Inr ns \<Rightarrow> Inr (insert (canonicalEnvironmentName goos name) ns)))"

subsection \<open>Resolving\<close>

type_synonym entry = "string \<times> string"
type_synonym env_values = "(string \<times> entry) list"

definition inherit_entry ::
  "string \<Rightarrow> (string \<Rightarrow> bool) \<Rightarrow> string \<Rightarrow> env_values \<Rightarrow> env_values" where
  "inherit_entry goos allowed assignment vs =
     (let (key, val, ok) = Cut_char (CHR ''='') assignment in
      if \<not> ok \<or> key = [] then vs
      else (let k = canonicalEnvironmentName goos key in
            if \<not> allowed k then vs else AList.update k (key, val) vs))"

fun set_entries :: "string \<Rightarrow> nat \<Rightarrow> string list \<Rightarrow> env_values \<Rightarrow> env_error + env_values" where
  "set_entries goos i [] vs = Inr vs"
| "set_entries goos i (assignment # rest) vs =
     (let (key, val, ok) = Cut_char (CHR ''='') assignment in
      if \<not> ok then Inl (NotAssignment i)
      else (case validateEnvironmentName key of
              Some e \<Rightarrow> Inl (BadName ''set'' i e)
            | None \<Rightarrow>
                if CHR 0x00 \<in> set val then Inl (ValueHasNUL i)
                else set_entries goos (Suc i) rest
                       (AList.update (canonicalEnvironmentName goos key) (key, val) vs)))"

definition assignment_of :: "entry \<Rightarrow> string" where
  "assignment_of e = fst e @ ''='' @ snd e"

definition render_entries :: "entry list \<Rightarrow> string list" where
  "render_entries es = map assignment_of (sort_key fst es)"

definition effective_mode :: "child_environment \<Rightarrow> string" where
  "effective_mode cfg = (if Mode cfg = [] then EnvironmentInherit else Mode cfg)"

definition resolveForOS ::
  "child_environment \<Rightarrow> string list \<Rightarrow> string \<Rightarrow> env_error + (string list \<times> bool)" where
  "resolveForOS cfg inherited goos =
     (let mode = effective_mode cfg in
      if mode \<notin> {EnvironmentInherit, EnvironmentMerge, EnvironmentReplace} then Inl (UnknownMode (Mode cfg))
      else if mode = EnvironmentInherit \<and> Set cfg \<noteq> [] then Inl ErrEnvironmentSetInInherit
      else if mode = EnvironmentReplace \<and> Allowlist cfg \<noteq> None then Inl ErrEnvironmentAllowlistInReplace
      else case environmentNameSet (case Allowlist cfg of None \<Rightarrow> [] | Some l \<Rightarrow> l) ''allowlist'' goos 0 of
        Inl e \<Rightarrow> Inl e
      | Inr allow \<Rightarrow>
        (case environmentNameSet (Unset cfg) ''unset'' goos 0 of
           Inl e \<Rightarrow> Inl e
         | Inr unset \<Rightarrow>
           (let base = (if mode = EnvironmentReplace then []
                        else fold (inherit_entry goos (\<lambda>k. Allowlist cfg = None \<or> k \<in> allow)) inherited [])
            in case set_entries goos 0 (Set cfg) base of
                 Inl e \<Rightarrow> Inl e
               | Inr vs \<Rightarrow>
                   Inr (render_entries (map snd (filter (\<lambda>e. fst e \<notin> unset) vs)),
                        Mode cfg \<noteq> [] \<or> Allowlist cfg \<noteq> None \<or> Unset cfg \<noteq> []))))"

text \<open>\<open>goos\<close> is the platform the program was built for.\<close>

definition resolvedSpecEnvironment ::
  "string \<Rightarrow> string list \<Rightarrow> string list option \<Rightarrow> env_error + (string list \<times> bool)" where
  "resolvedSpecEnvironment goos base spec =
     (case spec of
        None \<Rightarrow> Inr (base, False)
      | Some assignments \<Rightarrow>
          (case resolveForOS \<lparr>Mode = EnvironmentReplace, Allowlist = None, Set = assignments, Unset = []\<rparr>
                  [] goos of
             Inl e \<Rightarrow> Inl e
           | Inr (env, _) \<Rightarrow> Inr (env, True)))"

definition nonInheritingEmptyEnvironment :: string where
  "nonInheritingEmptyEnvironment = ''GO_AGENT_WRAPPER_EMPTY_ENVIRONMENT=1''"

text \<open>\<open>withPostureEnv\<close>: \<open>sets\<close> is a map, an association list with distinct keys.\<close>

definition withPostureEnv :: "string list \<Rightarrow> (string \<times> string) list \<Rightarrow> string list" where
  "withPostureEnv env sets =
     (if sets = [] then env
      else filter (\<lambda>kv. map_of sets (fst (Cut_char (CHR ''='') kv)) = None) env @
           map (\<lambda>name. name @ ''='' @ the (map_of sets name)) (sort (map fst sets)))"

subsection \<open>Assignments\<close>

lemma Cut_char_Some:
  "Cut_char c s = (a, b, True) \<longleftrightarrow> s = a @ c # b \<and> c \<notin> set a"
proof
  assume *: "Cut_char c s = (a, b, True)"
  then have c: "c \<in> set s" by (auto simp: Cut_char_def split: if_splits)
  then have "dropWhile (\<lambda>d. d \<noteq> c) s \<noteq> []" by (auto simp: dropWhile_eq_Nil_conv)
  then have "dropWhile (\<lambda>d. d \<noteq> c) s = c # tl (dropWhile (\<lambda>d. d \<noteq> c) s)"
    using hd_dropWhile [of "\<lambda>d. d \<noteq> c" s] by (cases "dropWhile (\<lambda>d. d \<noteq> c) s") auto
  with * c show "s = a @ c # b \<and> c \<notin> set a"
    using takeWhile_dropWhile_id [of "\<lambda>d. d \<noteq> c" s]
    by (auto simp: Cut_char_def dest: set_takeWhileD)
next
  assume "s = a @ c # b \<and> c \<notin> set a"
  then have s: "s = a @ c # b" and c: "c \<notin> set a" by simp_all
  from c have "takeWhile (\<lambda>d. d \<noteq> c) (a @ c # b) = a \<and> dropWhile (\<lambda>d. d \<noteq> c) (a @ c # b) = c # b"
    by (induction a) auto
  with s show "Cut_char c s = (a, b, True)" by (simp add: Cut_char_def)
qed

lemma Cut_assignment_of [simp]:
  "CHR ''='' \<notin> set (fst e) \<Longrightarrow> Cut_char (CHR ''='') (assignment_of e) = (fst e, snd e, True)"
  by (simp add: Cut_char_Some assignment_of_def)

lemma validateEnvironmentName_None:
  "validateEnvironmentName n = None \<longleftrightarrow> n \<noteq> [] \<and> CHR ''='' \<notin> set n \<and> CHR 0x00 \<notin> set n"
  by (simp add: validateEnvironmentName_def)

lemma environmentNameSet_Inr:
  "environmentNameSet names f goos i = Inr ns \<Longrightarrow> ns = canonicalEnvironmentName goos ` set names"
  by (induction names arbitrary: i ns) (auto split: option.splits sum.splits)

subsection \<open>What the map holds\<close>

text \<open>
  The reference: \<open>inherited_value\<close> is the last inherited entry with a canonical name,
  \<open>set_value\<close> the last one set, and \<open>env_value\<close> what the child sees.
\<close>

definition entry_of :: "string \<Rightarrow> entry option" where
  "entry_of s = (let (key, val, ok) = Cut_char (CHR ''='') s in
     if ok \<and> key \<noteq> [] then Some (key, val) else None)"

definition last_entry :: "string \<Rightarrow> string list \<Rightarrow> string \<Rightarrow> entry option" where
  "last_entry goos ss =
     map_of (rev (map (\<lambda>e. (canonicalEnvironmentName goos (fst e), e)) (List.map_filter entry_of ss)))"

definition env_value :: "string \<Rightarrow> child_environment \<Rightarrow> string list \<Rightarrow> string \<Rightarrow> entry option" where
  "env_value goos cfg inherited k =
     (if k \<in> canonicalEnvironmentName goos ` set (Unset cfg) then None
      else case last_entry goos (Set cfg) k of
        Some e \<Rightarrow> Some e
      | None \<Rightarrow>
          if effective_mode cfg = EnvironmentReplace then None
          else case Allowlist cfg of
            None \<Rightarrow> last_entry goos inherited k
          | Some names \<Rightarrow>
              if k \<in> canonicalEnvironmentName goos ` set names then last_entry goos inherited k else None)"

lemma last_entry_Cons:
  "last_entry goos (a # ss) = (case entry_of a of None \<Rightarrow> Map.empty
      | Some e \<Rightarrow> [canonicalEnvironmentName goos (fst e) \<mapsto> e]) ++ last_entry goos ss"
  by (auto simp: last_entry_def List.map_filter_simps split: option.split)

lemma last_entry_Nil [simp]: "last_entry goos [] = Map.empty"
  by (simp add: last_entry_def List.map_filter_simps)

lemma inherit_entry_eq:
  "inherit_entry goos allowed a vs = (case entry_of a of None \<Rightarrow> vs
     | Some e \<Rightarrow> if allowed (canonicalEnvironmentName goos (fst e))
                 then AList.update (canonicalEnvironmentName goos (fst e)) e vs else vs)"
  by (auto simp: inherit_entry_def entry_of_def Let_def split: prod.split)

lemma map_of_inherited:
  "map_of (fold (inherit_entry goos allowed) ss vs) =
     map_of vs ++ (last_entry goos ss |` {k. allowed k})"
proof (induction ss arbitrary: vs)
  case (Cons a ss)
  then show ?case
    by (auto simp: inherit_entry_eq last_entry_Cons AList.update_conv' map_add_def restrict_map_def
        fun_eq_iff split: option.split)
qed simp

text \<open>The entries of the map are well formed: distinct keys, each its entry's canonical name.\<close>

definition values_ok :: "string \<Rightarrow> env_values \<Rightarrow> bool" where
  "values_ok goos vs \<longleftrightarrow> distinct (map fst vs) \<and>
     (\<forall>(k, e) \<in> set vs. k = canonicalEnvironmentName goos (fst e) \<and> fst e \<noteq> [] \<and> CHR ''='' \<notin> set (fst e))"

lemma update_subset: "set (AList.update k v al) \<subseteq> insert (k, v) (set al)"
  by (induction al) auto

lemma map_of_update: "map_of (AList.update k v al) = map_of al ++ [k \<mapsto> v]"
  by (simp add: AList.update_conv')

lemma update_fresh: "k \<notin> fst ` set al \<Longrightarrow> AList.update k v al = al @ [(k, v)]"
  by (induction al) auto

lemma values_ok_update:
  "values_ok goos vs \<Longrightarrow> fst e \<noteq> [] \<Longrightarrow> CHR ''='' \<notin> set (fst e) \<Longrightarrow>
   values_ok goos (AList.update (canonicalEnvironmentName goos (fst e)) e vs)"
  using update_subset [of "canonicalEnvironmentName goos (fst e)" e vs]
  by (auto simp: values_ok_def AList.distinct_update)

lemma entry_of_Some:
  "entry_of a = Some e \<Longrightarrow> fst e \<noteq> [] \<and> CHR ''='' \<notin> set (fst e) \<and> a = assignment_of e"
  by (auto simp: entry_of_def Let_def Cut_char_Some assignment_of_def split: prod.splits if_splits)

lemma values_ok_inherit:
  "values_ok goos vs \<Longrightarrow> values_ok goos (inherit_entry goos allowed a vs)"
  using entry_of_Some [of a] values_ok_update [of goos vs]
  by (auto simp: inherit_entry_eq simp del: split_paired_All split: option.split)

lemma values_ok_inherited:
  "values_ok goos vs \<Longrightarrow> values_ok goos (fold (inherit_entry goos allowed) ss vs)"
  by (induction ss arbitrary: vs) (auto intro: values_ok_inherit)

lemma set_entries_Inr:
  "set_entries goos i ss vs = Inr vs' \<Longrightarrow>
     map_of vs' = map_of vs ++ last_entry goos ss \<and> (values_ok goos vs \<longrightarrow> values_ok goos vs')"
proof (induction ss arbitrary: i vs)
  case (Cons a ss)
  obtain key val ok where cut: "Cut_char (CHR ''='') a = (key, val, ok)" by (metis prod_cases3)
  with Cons.prems have ok: "ok" "validateEnvironmentName key = None"
    and rest: "set_entries goos (Suc i) ss
      (AList.update (canonicalEnvironmentName goos key) (key, val) vs) = Inr vs'"
    by (auto simp: Let_def split: if_splits option.splits)
  have "entry_of a = Some (key, val)"
    using cut ok by (simp add: entry_of_def validateEnvironmentName_None)
  with Cons.IH [OF rest] ok show ?case
    using values_ok_update [of goos vs "(key, val)"]
    by (simp del: fun_upd_apply add: last_entry_Cons map_of_update validateEnvironmentName_None)
qed simp

lemma set_entries_of:
  "distinct (map (canonicalEnvironmentName goos \<circ> fst) es) \<Longrightarrow>
   \<forall>e \<in> set es. validateEnvironmentName (fst e) = None \<and> CHR 0x00 \<notin> set (snd e) \<and>
      canonicalEnvironmentName goos (fst e) \<notin> fst ` set vs \<Longrightarrow>
   set_entries goos i (map assignment_of es) vs =
     Inr (vs @ map (\<lambda>e. (canonicalEnvironmentName goos (fst e), e)) es)"
proof (induction es arbitrary: i vs)
  case (Cons e es)
  have "AList.update (canonicalEnvironmentName goos (fst e)) e vs =
      vs @ [(canonicalEnvironmentName goos (fst e), e)]"
    using Cons.prems(2) by (intro update_fresh) auto
  moreover have "validateEnvironmentName (fst e) = None" "CHR 0x00 \<notin> set (snd e)"
    using Cons.prems(2) by simp_all
  moreover have "CHR ''='' \<notin> set (fst e)"
    using Cons.prems(2) by (simp add: validateEnvironmentName_None)
  moreover have "set_entries goos (Suc i) (map assignment_of es)
      (vs @ [(canonicalEnvironmentName goos (fst e), e)]) =
      Inr ((vs @ [(canonicalEnvironmentName goos (fst e), e)]) @
        map (\<lambda>e. (canonicalEnvironmentName goos (fst e), e)) es)"
    using Cons.prems by (intro Cons.IH) (auto simp: image_iff)
  ultimately show ?case by simp
qed simp

subsection \<open>What the child gets\<close>

text \<open>What \<open>render_entries\<close> is given: the surviving values.\<close>

lemma resolve_values:
  assumes "resolveForOS cfg inherited goos = Inr (env, x)"
  obtains vs where "values_ok goos vs" "map_of vs = env_value goos cfg inherited"
    "env = render_entries (map snd vs)"
proof -
  let ?allowed = "\<lambda>k. Allowlist cfg = None \<or>
      k \<in> canonicalEnvironmentName goos ` set (case Allowlist cfg of None \<Rightarrow> [] | Some l \<Rightarrow> l)"
  let ?unset = "canonicalEnvironmentName goos ` set (Unset cfg)"
  let ?base = "if effective_mode cfg = EnvironmentReplace then []
               else fold (inherit_entry goos ?allowed) inherited []"
  from assms obtain vs where vs: "set_entries goos 0 (Set cfg) ?base = Inr vs"
    and env: "env = render_entries (map snd (filter (\<lambda>e. fst e \<notin> ?unset) vs))"
    by (auto simp: resolveForOS_def Let_def dest!: environmentNameSet_Inr split: if_splits sum.splits)
  have base: "values_ok goos ?base"
    using values_ok_inherited [of goos "[]"] by (simp add: values_ok_def)
  with set_entries_Inr [OF vs] have ok: "values_ok goos vs"
    and map: "map_of vs = map_of ?base ++ last_entry goos (Set cfg)" by simp_all
  let ?vs = "filter (\<lambda>e. fst e \<notin> ?unset) vs"
  have "values_ok goos ?vs"
    using ok by (auto simp: values_ok_def distinct_map inj_on_def)
  moreover have "map_of ?vs = map_of vs |` (- ?unset)"
    using AList.restr_conv' [of "- ?unset" vs] by (simp add: AList.restrict_eq split_def)
  then have "map_of ?vs = env_value goos cfg inherited"
    by (auto simp: map env_value_def restrict_map_def map_add_def map_of_inherited fun_eq_iff
        split: option.split)
  ultimately show thesis using env that by blast
qed

lemma last_entry_Some:
  "last_entry goos ss k = Some e \<Longrightarrow>
   assignment_of e \<in> set ss \<and> k = canonicalEnvironmentName goos (fst e)"
  by (induction ss arbitrary: e)
     (auto simp: last_entry_Cons split: option.splits if_splits dest!: entry_of_Some)

lemma set_entries_no_NUL:
  "set_entries goos i ss vs = Inr vs' \<Longrightarrow> a \<in> set ss \<Longrightarrow> CHR 0x00 \<notin> set a"
  by (induction ss arbitrary: i vs)
     (auto simp: Let_def Cut_char_Some validateEnvironmentName_None
       split: prod.splits if_splits option.splits)

lemma distinct_map_insort_key:
  "distinct (map f (insort_key g x xs)) \<longleftrightarrow> f x \<notin> f ` set xs \<and> distinct (map f xs)"
  by (induction xs) (auto simp: set_insort_key)

lemma distinct_map_sort_key: "distinct (map f (sort_key g xs)) = distinct (map f xs)"
  by (induction xs) (simp_all add: distinct_map_insort_key)

text \<open>The entries behind the rendered list.\<close>

definition exact_entries :: "string \<Rightarrow> (string \<Rightarrow> entry option) \<Rightarrow> entry list \<Rightarrow> bool" where
  "exact_entries goos val es \<longleftrightarrow> sorted (map fst es) \<and>
     distinct (map (canonicalEnvironmentName goos \<circ> fst) es) \<and>
     (\<forall>e. e \<in> set es \<longleftrightarrow> val (canonicalEnvironmentName goos (fst e)) = Some e)"

lemma values_ok_key: "values_ok goos vs \<Longrightarrow> (k, e) \<in> set vs \<Longrightarrow> k = canonicalEnvironmentName goos (fst e)"
  by (auto simp: values_ok_def)

lemma values_ok_rendered:
  assumes "values_ok goos vs"
  shows "exact_entries goos (map_of vs) (sort_key fst (map snd vs))"
proof -
  have "map (canonicalEnvironmentName goos \<circ> fst \<circ> snd) vs = map fst vs"
    using values_ok_key [OF assms] by auto
  then have "distinct (map (canonicalEnvironmentName goos \<circ> fst \<circ> snd) vs)"
    using assms by (simp only: values_ok_def)
  moreover have "e \<in> snd ` set vs \<longleftrightarrow> map_of vs (canonicalEnvironmentName goos (fst e)) = Some e" for e
  proof -
    have "e \<in> snd ` set vs \<longleftrightarrow> (canonicalEnvironmentName goos (fst e), e) \<in> set vs"
      using values_ok_key [OF assms] by force
    with assms show ?thesis by (simp add: values_ok_def)
  qed
  ultimately show ?thesis by (simp add: exact_entries_def distinct_map_sort_key del: split_paired_All)
qed

lemma resolve_exact:
  assumes "resolveForOS cfg inherited goos = Inr (env, x)"
  obtains es where "env = map assignment_of es" "exact_entries goos (env_value goos cfg inherited) es"
  using values_ok_rendered by (metis assms render_entries_def resolve_values)

lemma resolve_no_NUL:
  assumes "resolveForOS cfg inherited goos = Inr (env, x)"
    and "\<forall>a \<in> set inherited. CHR 0x00 \<notin> set a"
    and "env_value goos cfg inherited k = Some e"
  shows "CHR 0x00 \<notin> set (assignment_of e)"
proof -
  from assms(1) obtain i base vs where "set_entries goos i (Set cfg) base = Inr vs"
    by (auto simp: resolveForOS_def Let_def split: if_splits sum.splits)
  then have "\<forall>a \<in> set (Set cfg). CHR 0x00 \<notin> set a" by (auto dest: set_entries_no_NUL)
  with assms(2,3) show ?thesis
    by (auto simp: env_value_def split: if_splits option.splits dest!: last_entry_Some)
qed

subsection \<open>Properties\<close>

text \<open>
  C31. The environment of the child is exactly what the contract says. For every resolved
  configuration the result is a list of assignments sorted by name, with one entry per
  canonical name, and the entry of a name is the last one set for it, else (unless the
  mode is replace) the last inherited one that the allowlist admits, and none when the name
  is unset.
\<close>

theorem child_environment_exact:
  assumes "resolveForOS cfg inherited goos = Inr (env, explicit)"
  shows "\<exists>es. env = map assignment_of es \<and> sorted (map fst es) \<and>
    distinct (map (canonicalEnvironmentName goos \<circ> fst) es) \<and>
    (\<forall>e. e \<in> set es \<longleftrightarrow>
       env_value goos cfg inherited (canonicalEnvironmentName goos (fst e)) = Some e)"
  by (rule resolve_exact [OF assms]) (auto simp: exact_entries_def)

text \<open>
  A resolved environment round-trips. Passing the environment that was resolved for a
  child back as an adapter's explicit environment gives the same list, in the same order,
  on every platform, provided the inherited entries hold no NUL byte (they are C strings).
\<close>

theorem environment_roundtrip:
  assumes "resolveForOS cfg inherited goos = Inr (env, explicit)"
    and "\<forall>a \<in> set inherited. CHR 0x00 \<notin> set a"
  shows "resolvedSpecEnvironment goos base (Some env) = Inr (env, True)"
proof -
  obtain es where env: "env = map assignment_of es"
    and es: "exact_entries goos (env_value goos cfg inherited) es"
    by (rule resolve_exact [OF assms(1)])
  obtain vs where vs: "values_ok goos vs" "map_of vs = env_value goos cfg inherited"
    by (rule resolve_values [OF assms(1)])
  have "validateEnvironmentName (fst e) = None \<and> CHR 0x00 \<notin> set (snd e)" if "e \<in> set es" for e
  proof -
    have e: "env_value goos cfg inherited (canonicalEnvironmentName goos (fst e)) = Some e"
      using es that by (simp add: exact_entries_def del: split_paired_All)
    then have "(canonicalEnvironmentName goos (fst e), e) \<in> set vs"
      by (intro map_of_SomeD) (simp add: vs(2))
    with vs(1) resolve_no_NUL [OF assms e] show ?thesis
      by (auto simp: values_ok_def assignment_of_def validateEnvironmentName_None)
  qed
  then have "set_entries goos 0 env [] = Inr (map (\<lambda>e. (canonicalEnvironmentName goos (fst e), e)) es)"
    unfolding env using es by (subst set_entries_of) (auto simp: exact_entries_def)
  then show ?thesis
    using es
    by (simp add: resolvedSpecEnvironment_def resolveForOS_def effective_mode_def render_entries_def
        EnvironmentInherit_def EnvironmentMerge_def EnvironmentReplace_def env exact_entries_def
        sort_key_id_if_sorted comp_def)
qed

subsection \<open>Witnesses\<close>

definition ex_environment :: child_environment where
  "ex_environment = \<lparr>Mode = EnvironmentMerge, Allowlist = Some [''PATH'', ''HOME''],
     Set = [''A=1'', ''A=2''], Unset = [''HOME'']\<rparr>"

lemma ex_resolved:
  "resolveForOS ex_environment [''PATH=/bin'', ''HOME=/h'', ''X=1''] ''linux'' =
     Inr ([''A=2'', ''PATH=/bin''], True)"
  by code_simp

theorem child_environment_exact_witness:
  "\<exists>es. [''A=2'', ''PATH=/bin''] = map assignment_of es \<and> sorted (map fst es)"
  using child_environment_exact [OF ex_resolved] by (elim exE conjE, intro exI conjI)

theorem environment_roundtrip_witness:
  "resolvedSpecEnvironment ''linux'' [] (Some [''A=2'', ''PATH=/bin'']) =
     Inr ([''A=2'', ''PATH=/bin''], True)"
  by (rule environment_roundtrip [OF ex_resolved]) simp

end
