(* ===== verification/Delivery.thy ===== *)
theory Delivery
  imports Go_Strings "HOL-Library.Word"
begin

text \<open>
  Delivery capabilities, \<open>adapters/delivery.go\<close> with the descriptor's vocabulary of
  \<open>adapters/adapter.go\<close>: building a capability set, asking it for a plan, and the errors.
  All named kinds are Go strings, so a value outside the declared constants can occur.
  \<open>int64\<close> generations are 64-bit words read as signed.
\<close>

subsection \<open>Vocabulary\<close>

definition ProtocolClaudeStreamJSON :: string where "ProtocolClaudeStreamJSON = ''claude-stream-json''"
definition ProtocolCodexAppServer :: string where "ProtocolCodexAppServer = ''codex-app-server''"
definition ProtocolOpenCodeNative :: string where "ProtocolOpenCodeNative = ''opencode-native''"
definition ProtocolACP :: string where "ProtocolACP = ''acp''"
definition ProtocolPTYRaw :: string where "ProtocolPTYRaw = ''pty-raw''"
definition TransportStdio :: string where "TransportStdio = ''stdio''"
definition TransportTCP :: string where "TransportTCP = ''tcp''"
definition TransportHTTPSSE :: string where "TransportHTTPSSE = ''http-sse''"
definition TransportPTY :: string where "TransportPTY = ''pty''"
definition InterruptProcess :: string where "InterruptProcess = ''process''"
definition InterruptTurn :: string where "InterruptTurn = ''turn''"
definition InterruptSteer :: string where "InterruptSteer = ''steer''"

definition DeliveryCapabilityQueue :: string where "DeliveryCapabilityQueue = ''queue''"
definition DeliveryCapabilitySendTurn :: string where "DeliveryCapabilitySendTurn = ''send_turn''"
definition DeliveryCapabilityBetweenToolCalls :: string where
  "DeliveryCapabilityBetweenToolCalls = ''between_tool_calls''"
definition DeliveryCapabilityInterrupt :: string where "DeliveryCapabilityInterrupt = ''interrupt''"
definition DeliveryCapabilityCancelTurn :: string where "DeliveryCapabilityCancelTurn = ''cancel_turn''"
definition DeliveryCapabilityLifecycleStop :: string where
  "DeliveryCapabilityLifecycleStop = ''lifecycle_stop''"

lemmas capability_defs = DeliveryCapabilityQueue_def DeliveryCapabilitySendTurn_def
  DeliveryCapabilityBetweenToolCalls_def DeliveryCapabilityInterrupt_def
  DeliveryCapabilityCancelTurn_def DeliveryCapabilityLifecycleStop_def

definition DeliveryRuntimeIdle :: string where "DeliveryRuntimeIdle = ''idle''"
definition DeliveryRuntimeBusy :: string where "DeliveryRuntimeBusy = ''busy''"
definition DeliveryRuntimeOffline :: string where "DeliveryRuntimeOffline = ''offline''"

lemmas runtime_state_defs = DeliveryRuntimeIdle_def DeliveryRuntimeBusy_def DeliveryRuntimeOffline_def

datatype receipt_stage =
  TurnSubmitted | InterruptRequested | CancelRequested | LifecycleStopIssued

fun receipt_name :: "receipt_stage \<Rightarrow> string" where
  "receipt_name TurnSubmitted = ''turn_submitted''"
| "receipt_name InterruptRequested = ''interrupt_requested''"
| "receipt_name CancelRequested = ''turn_cancel_requested''"
| "receipt_name LifecycleStopIssued = ''lifecycle_stop_issued''"

text \<open>The errors of \<open>Plan\<close>: sentinel, what is wrong, and for a capability its name and reason.\<close>

datatype delivery_error =
    CapabilityError string string
  | ErrDeliveryTargetBusy
  | ErrDeliveryTargetOffline
  | RouteStale "64 word" "64 word"
  | InvalidRequest string

subsection \<open>Capability sets\<close>

record capability_evidence =
  Capability :: string
  Mechanism :: string
  Evidence_of :: string

type_synonym capabilities = "capability_evidence list"

fun new_capabilities :: "string set \<Rightarrow> capability_evidence list \<Rightarrow> capabilities" where
  "new_capabilities seen [] = []"
| "new_capabilities seen (entry # entries) =
     (if Capability entry = [] \<or> Capability entry \<in> seen then new_capabilities seen entries
      else entry # new_capabilities (insert (Capability entry) seen) entries)"

definition NewDeliveryCapabilities :: "capability_evidence list \<Rightarrow> capabilities" where
  "NewDeliveryCapabilities = new_capabilities {}"

definition turnCancelMechanism :: "string \<Rightarrow> string \<times> string" where
  "turnCancelMechanism protocol =
     (if protocol = ProtocolClaudeStreamJSON
      then (''stream-json control_request interrupt / wrapper.CancelTurn'',
            ''agentsessions streaming-stdio TurnInterrupter: the turn fails with reason interrupted and the process keeps running'')
      else if protocol = ProtocolCodexAppServer
      then (''JSON-RPC turn/interrupt / wrapper.CancelTurn'',
            ''agentsessions jsonrpc-stdio TurnInterrupter interrupts the open turn; Codex reports turn/completed with status interrupted'')
      else if protocol = ProtocolOpenCodeNative
      then (''POST /session/{id}/abort / wrapper.CancelTurn'',
            ''agentsessions serve-http TurnInterrupter aborts the turn; the session stays'')
      else (''acp.Session.Cancel / wrapper.CancelTurn'',
            ''ACP managed session sends session/cancel without closing the session''))"

definition deliveryMechanism :: "string \<Rightarrow> string \<Rightarrow> string" where
  "deliveryMechanism protocol transport =
     (if protocol = ProtocolACP then ''ACP session/prompt''
      else if protocol = ProtocolClaudeStreamJSON then ''Claude stream-json stdin turn''
      else if protocol = ProtocolCodexAppServer then ''Codex app-server JSON-RPC turn''
      else if protocol = ProtocolOpenCodeNative then ''OpenCode HTTP/SSE turn''
      else if protocol = ProtocolPTYRaw \<and> transport = TransportPTY then ''PTY stdin turn''
      else if protocol = [] \<and> transport = [] then ''agentsessions adapter subprocess turn''
      else ''agentsessions Session.SendInput'')"

text \<open>\<open>quote\<close> is the \<open>%q\<close> verb of \<open>fmt\<close>, on which nothing below depends.\<close>

definition deliveryEvidence :: "(string \<Rightarrow> string) \<Rightarrow> string \<Rightarrow> string \<Rightarrow> string \<Rightarrow> string" where
  "deliveryEvidence quote provider protocol transport =
     (if provider = [] then ''provider'' else provider) @ '' descriptor maps protocol='' @
     quote protocol @ '' transport='' @ quote transport @
     '' to wrapper.SendInput/agentsessions delivery''"

definition DeliveryCapabilitiesForRuntime ::
  "(string \<Rightarrow> string) \<Rightarrow> string \<Rightarrow> string \<Rightarrow> string \<Rightarrow> string \<Rightarrow> bool \<Rightarrow> capabilities" where
  "DeliveryCapabilitiesForRuntime quote provider protocol transport interrupt turnScopedCancel =
     NewDeliveryCapabilities
       ([\<lparr>Capability = DeliveryCapabilitySendTurn, Mechanism = deliveryMechanism protocol transport,
          Evidence_of = deliveryEvidence quote provider protocol transport\<rparr>,
         \<lparr>Capability = DeliveryCapabilityLifecycleStop,
          Mechanism = ''agentsessions.Session.Stop / wrapper.Stop'',
          Evidence_of = ''existing wrapper lifecycle control path emits interrupt.requested/interrupt.acknowledged and calls the runtime Stop implementation''\<rparr>] @
        (if interrupt = InterruptTurn \<or> interrupt = InterruptSteer
         then [\<lparr>Capability = DeliveryCapabilityInterrupt,
                Mechanism = ''provider-native mid-turn abort before lifecycle teardown'',
                Evidence_of = ''descriptor Interrupt capability is verified as '' @ interrupt\<rparr>]
         else []) @
        (if turnScopedCancel
         then (let (mechanism, evidence) = turnCancelMechanism protocol
               in [\<lparr>Capability = DeliveryCapabilityCancelTurn, Mechanism = mechanism,
                    Evidence_of = evidence\<rparr>])
         else []))"

definition Evidence :: "capabilities \<Rightarrow> string \<Rightarrow> capability_evidence option" where
  "Evidence c capability = find (\<lambda>entry. Capability entry = capability) c"

definition Supports :: "capabilities \<Rightarrow> string \<Rightarrow> bool" where
  "Supports c capability \<longleftrightarrow> Evidence c capability \<noteq> None"

definition has_evidence :: "capability_evidence \<Rightarrow> bool" where
  "has_evidence entry \<longleftrightarrow> Mechanism entry \<noteq> [] \<and> Evidence_of entry \<noteq> []"

definition Require :: "capabilities \<Rightarrow> string \<Rightarrow> delivery_error option" where
  "Require c capability =
     (case Evidence c capability of
        None \<Rightarrow> Some (CapabilityError capability [])
      | Some entry \<Rightarrow>
          if has_evidence entry then None else Some (CapabilityError capability ''missing evidence''))"

definition Validate :: "capabilities \<Rightarrow> delivery_error option" where
  "Validate c =
     map_option (\<lambda>entry. CapabilityError (Capability entry) ''missing evidence'')
       (find (\<lambda>entry. Capability entry = [] \<or> \<not> has_evidence entry) c)"

text \<open>\<open>DeliveryCapabilityError.Error\<close>.\<close>

definition capability_error_text :: "string \<Rightarrow> string \<Rightarrow> string" where
  "capability_error_text capability why =
     ''adapters: delivery capability unsupported: '' @ capability @ '' ('' @
     (if why = [] then ''unsupported'' else why) @ '')''"

subsection \<open>Plans\<close>

record correlation =
  SessionID :: string
  ProviderSessionID :: string
  BindingID :: string
  BindingGeneration :: "64 word"
  DeliveryID :: string
  AttemptID :: string

record plan_request =
  req_Capability :: string
  RuntimeState :: string
  req_Correlation :: correlation
  RequireBindingGeneration :: bool
  ExpectedBindingGeneration :: "64 word"

record delivery_plan =
  plan_Capability :: string
  plan_Mechanism :: string
  plan_Correlation :: correlation
  Receipts :: "receipt_stage list"

definition deliveryReceipts :: "string \<Rightarrow> receipt_stage list" where
  "deliveryReceipts capability =
     (if capability = DeliveryCapabilitySendTurn then [TurnSubmitted]
      else if capability = DeliveryCapabilityInterrupt then [InterruptRequested]
      else if capability = DeliveryCapabilityCancelTurn then [CancelRequested]
      else if capability = DeliveryCapabilityLifecycleStop then [LifecycleStopIssued]
      else [])"

text \<open>The switch on the runtime state.\<close>

definition runtime_refuses :: "plan_request \<Rightarrow> delivery_error option" where
  "runtime_refuses req =
     (if RuntimeState req = DeliveryRuntimeOffline then Some ErrDeliveryTargetOffline
      else if RuntimeState req = DeliveryRuntimeBusy
      then (if req_Capability req = DeliveryCapabilitySendTurn then Some ErrDeliveryTargetBusy else None)
      else if RuntimeState req = DeliveryRuntimeIdle \<or> RuntimeState req = [] then None
      else Some (InvalidRequest ''unknown runtime state''))"

definition Plan :: "capabilities \<Rightarrow> plan_request \<Rightarrow> delivery_error + delivery_plan" where
  "Plan c req =
     (let generation = BindingGeneration (req_Correlation req) in
      if req_Capability req = [] then Inl (InvalidRequest ''capability is required'')
      else if sint generation < 0 then Inl (InvalidRequest ''binding generation is negative'')
      else if RequireBindingGeneration req \<and> generation \<noteq> ExpectedBindingGeneration req
      then Inl (RouteStale (ExpectedBindingGeneration req) generation)
      else case Evidence c (req_Capability req) of
        None \<Rightarrow> Inl (CapabilityError (req_Capability req) [])
      | Some entry \<Rightarrow>
          if \<not> has_evidence entry then Inl (CapabilityError (req_Capability req) ''missing evidence'')
          else (case runtime_refuses req of
                  Some e \<Rightarrow> Inl e
                | None \<Rightarrow> Inr \<lparr>plan_Capability = req_Capability req, plan_Mechanism = Mechanism entry,
                            plan_Correlation = req_Correlation req,
                            Receipts = deliveryReceipts (req_Capability req)\<rparr>))"

subsection \<open>Sets\<close>

lemma new_capabilities_props:
  "distinct (map Capability (new_capabilities seen es)) \<and>
   Capability ` set (new_capabilities seen es) = Capability ` set es - insert [] seen \<and>
   set (new_capabilities seen es) \<subseteq> set es"
  by (induction es arbitrary: seen) auto

lemma Evidence_first:
  assumes "capability \<noteq> []" and "capability \<notin> seen"
  shows "Evidence (new_capabilities seen es) capability = Evidence es capability"
  using assms by (induction es arbitrary: seen) (auto simp: Evidence_def)

lemma Evidence_Some: "Evidence c capability = Some e \<Longrightarrow> e \<in> set c \<and> Capability e = capability"
  by (auto simp: Evidence_def find_Some_iff)

lemma Validate_None:
  "Validate c = None \<longleftrightarrow> (\<forall>e \<in> set c. Capability e \<noteq> [] \<and> has_evidence e)"
  by (auto simp: Validate_def find_None_iff)

text \<open>A valid set supports what it requires.\<close>

lemma Validate_Require: "Validate c = None \<Longrightarrow> Require c capability = None \<longleftrightarrow> Supports c capability"
  by (auto simp: Require_def Supports_def Validate_None split: option.split dest: Evidence_Some)

lemma deliveryMechanism_not_Nil [simp]: "deliveryMechanism protocol transport \<noteq> []"
  by (simp add: deliveryMechanism_def)

lemma deliveryEvidence_not_Nil [simp]: "deliveryEvidence quote provider protocol transport \<noteq> []"
  by (simp add: deliveryEvidence_def)

lemma turnCancelMechanism_not_Nil [simp]:
  "fst (turnCancelMechanism protocol) \<noteq> []" "snd (turnCancelMechanism protocol) \<noteq> []"
  by (simp_all add: turnCancelMechanism_def)

lemma Supports_runtime:
  "Supports (DeliveryCapabilitiesForRuntime quote provider protocol transport interrupt cancel) capability \<longleftrightarrow>
     capability \<in> {DeliveryCapabilitySendTurn, DeliveryCapabilityLifecycleStop} \<union>
       (if interrupt = InterruptTurn \<or> interrupt = InterruptSteer then {DeliveryCapabilityInterrupt} else {}) \<union>
       (if cancel then {DeliveryCapabilityCancelTurn} else {})"
  by (auto simp: DeliveryCapabilitiesForRuntime_def NewDeliveryCapabilities_def
      Supports_def Evidence_def capability_defs split_def Let_def)

lemma distinct_runtime:
  "distinct (map Capability (DeliveryCapabilitiesForRuntime quote provider protocol transport interrupt cancel))"
  unfolding DeliveryCapabilitiesForRuntime_def NewDeliveryCapabilities_def
  using new_capabilities_props by blast

lemma Validate_runtime:
  "Validate (DeliveryCapabilitiesForRuntime quote provider protocol transport interrupt cancel) = None"
  by (auto simp: DeliveryCapabilitiesForRuntime_def NewDeliveryCapabilities_def Validate_None
      has_evidence_def capability_defs split_def Let_def)

end
