(* ===== verification/Wrapper_Delivery.thy ===== *)
theory Wrapper_Delivery
  imports Delivery Lifecycle
begin

text \<open>
  \<open>wrapper/delivery.go\<close>: planning a delivery against what the wrapper sees of its live
  session, with the ACP session of \<open>Lifecycle\<close> or the health an agentkit session reports.
\<close>

datatype live_state = LiveStateStopped | LiveStateProcessing | LiveStateOther string

record health_status =
  Alive :: bool
  HealthState :: live_state

record wrapper_view =
  w_sessionID :: string
  native_session :: "health_status option"
  acpSession :: "session option"
  acpProviderSessionID :: string
  w_delivery :: capabilities

text \<open>\<open>None\<close> is a nil wrapper or one without an adapter.\<close>

definition WrapperDeliveryCapabilities :: "wrapper_view option \<Rightarrow> capabilities" where
  "WrapperDeliveryCapabilities w = (case w of None \<Rightarrow> [] | Some w \<Rightarrow> w_delivery w)"

definition WrapperProviderSessionID :: "wrapper_view \<Rightarrow> string" where
  "WrapperProviderSessionID w =
     (case acpSession w of None \<Rightarrow> acpProviderSessionID w | Some s \<Rightarrow> providerSessionID s)"

definition acpDeliveryRuntimeState :: "session \<Rightarrow> string" where
  "acpDeliveryRuntimeState s =
     (if \<not> Live s then DeliveryRuntimeOffline
      else if st s = StateReady then DeliveryRuntimeIdle
      else if st s = StateProcessing then DeliveryRuntimeBusy
      else DeliveryRuntimeOffline)"

definition sessionDeliveryRuntimeState :: "health_status \<Rightarrow> string" where
  "sessionDeliveryRuntimeState hs =
     (if \<not> Alive hs \<or> HealthState hs = LiveStateStopped then DeliveryRuntimeOffline
      else if HealthState hs = LiveStateProcessing then DeliveryRuntimeBusy
      else DeliveryRuntimeIdle)"

definition deliveryRuntimeState :: "wrapper_view \<Rightarrow> string" where
  "deliveryRuntimeState w =
     (case acpSession w of
        Some s \<Rightarrow> acpDeliveryRuntimeState s
      | None \<Rightarrow>
          (case native_session w of
             Some hs \<Rightarrow> sessionDeliveryRuntimeState hs
           | None \<Rightarrow> DeliveryRuntimeOffline))"

text \<open>The defaults that \<open>PlanDelivery\<close> fills in.\<close>

definition fill_request :: "wrapper_view \<Rightarrow> plan_request \<Rightarrow> plan_request" where
  "fill_request w req =
     (let c = req_Correlation req;
          c1 = (if SessionID c = [] then c\<lparr>SessionID := w_sessionID w\<rparr> else c);
          c2 = (if ProviderSessionID c1 = []
                then c1\<lparr>ProviderSessionID := WrapperProviderSessionID w\<rparr> else c1)
      in req\<lparr>req_Correlation := c2,
             RuntimeState := (if RuntimeState req = [] then deliveryRuntimeState w else RuntimeState req)\<rparr>)"

definition PlanDelivery :: "wrapper_view option \<Rightarrow> plan_request \<Rightarrow> delivery_error + delivery_plan" where
  "PlanDelivery w req =
     Plan (WrapperDeliveryCapabilities w) (case w of None \<Rightarrow> req | Some w' \<Rightarrow> fill_request w' req)"

subsection \<open>Plans and prompts\<close>

lemma fill_request_simps [simp]:
  "req_Capability (fill_request w req) = req_Capability req"
  "RequireBindingGeneration (fill_request w req) = RequireBindingGeneration req"
  "ExpectedBindingGeneration (fill_request w req) = ExpectedBindingGeneration req"
  "BindingGeneration (req_Correlation (fill_request w req)) = BindingGeneration (req_Correlation req)"
  "RuntimeState (fill_request w req) =
     (if RuntimeState req = [] then deliveryRuntimeState w else RuntimeState req)"
  by (simp_all add: fill_request_def Let_def)

text \<open>The part of a request that does not depend on the live session.\<close>

definition request_ok :: "capabilities \<Rightarrow> plan_request \<Rightarrow> bool" where
  "request_ok c req \<longleftrightarrow> req_Capability req \<noteq> [] \<and> 0 \<le> sint (BindingGeneration (req_Correlation req)) \<and>
     (RequireBindingGeneration req \<longrightarrow>
        BindingGeneration (req_Correlation req) = ExpectedBindingGeneration req) \<and>
     Require c (req_Capability req) = None"

lemma Plan_ok:
  "request_ok c req \<Longrightarrow> runtime_refuses req = None \<Longrightarrow>
   \<exists>p. Plan c req = Inr p \<and> plan_Capability p = req_Capability req \<and>
     plan_Correlation p = req_Correlation req \<and> Receipts p = deliveryReceipts (req_Capability req)"
  by (auto simp: Plan_def request_ok_def Require_def Let_def not_less[symmetric]
      split: option.splits if_splits)

lemma Plan_refused:
  "request_ok c req \<Longrightarrow> runtime_refuses req = Some e \<Longrightarrow> Plan c req = Inl e"
  by (auto simp: Plan_def request_ok_def Require_def Let_def not_less[symmetric]
      split: option.splits if_splits)

lemma Plan_InrD:
  "Plan c req = Inr p \<Longrightarrow> request_ok c req \<and> runtime_refuses req = None"
  by (auto simp: Plan_def request_ok_def Require_def Let_def not_less split: option.splits if_splits)

lemma refuses_observed:
  assumes "RuntimeState req = []" and "req_Capability req = DeliveryCapabilitySendTurn"
    and "acpSession w = Some s"
  shows "runtime_refuses (fill_request w req) =
    (if Live s \<and> st s = StateReady then None
     else if Live s \<and> st s = StateProcessing then Some ErrDeliveryTargetBusy
     else Some ErrDeliveryTargetOffline)"
  using assms
  by (simp add: runtime_refuses_def deliveryRuntimeState_def acpDeliveryRuntimeState_def runtime_state_defs)

text \<open>
  A plan to send a turn is honest about the live ACP session. When the request leaves
  the runtime state to the wrapper and is otherwise sound, a plan is given exactly when
  the session is committed and would accept a prompt now, the target is busy exactly when
  a turn runs on a committed session, and otherwise it is offline; and the plan names the
  capability that was asked for and no stage but the submission.
\<close>

theorem delivery_plan_honest:
  assumes "acpSession w = Some s" and "RuntimeState req = []"
    and "req_Capability req = DeliveryCapabilitySendTurn" and "request_ok (w_delivery w) req"
  shows "((\<exists>p. PlanDelivery (Some w) req = Inr p) \<longleftrightarrow> launchCommitted s \<and> prompt_begin s \<noteq> None) \<and>
    (PlanDelivery (Some w) req = Inl ErrDeliveryTargetBusy \<longleftrightarrow>
       launchCommitted s \<and> st s = StateProcessing) \<and>
    (case PlanDelivery (Some w) req of
       Inr p \<Rightarrow> plan_Capability p = DeliveryCapabilitySendTurn \<and> Receipts p = [TurnSubmitted]
     | Inl e \<Rightarrow> e = ErrDeliveryTargetBusy \<or> e = ErrDeliveryTargetOffline)"
proof -
  let ?req = "fill_request w req"
  have ok: "request_ok (w_delivery w) ?req" using assms(4) by (simp add: request_ok_def)
  have plan: "PlanDelivery (Some w) req = Plan (w_delivery w) ?req"
    by (simp add: PlanDelivery_def WrapperDeliveryCapabilities_def)
  have receipts: "deliveryReceipts DeliveryCapabilitySendTurn = [TurnSubmitted]"
    by (simp add: deliveryReceipts_def)
  show ?thesis
  proof (cases "runtime_refuses ?req")
    case None
    with Plan_ok [OF ok] assms(3) receipts obtain p where "PlanDelivery (Some w) req = Inr p"
      "plan_Capability p = DeliveryCapabilitySendTurn" "Receipts p = [TurnSubmitted]"
      unfolding plan by auto
    with None show ?thesis
      by (auto simp: refuses_observed [OF assms(2,3,1)] Live_def prompt_begin_def split: if_splits)
  next
    case (Some e)
    with Plan_refused [OF ok] show ?thesis
      unfolding plan
      by (auto simp: refuses_observed [OF assms(2,3,1)] Live_def prompt_begin_def split: if_splits)
  qed
qed

subsection \<open>Witness\<close>

definition ex_view :: "session \<Rightarrow> wrapper_view" where
  "ex_view s = \<lparr>w_sessionID = ''w'', native_session = None, acpSession = Some s,
     acpProviderSessionID = [], w_delivery = DeliveryCapabilitiesForRuntime (\<lambda>x. x) ''claude''
       ProtocolACP TransportStdio InterruptTurn True\<rparr>"

definition ex_plan_request :: plan_request where
  "ex_plan_request = \<lparr>req_Capability = DeliveryCapabilitySendTurn, RuntimeState = [],
     req_Correlation = \<lparr>SessionID = [], ProviderSessionID = [], BindingID = [],
       BindingGeneration = 0, DeliveryID = ''d'', AttemptID = ''a''\<rparr>,
     RequireBindingGeneration = False, ExpectedBindingGeneration = 0\<rparr>"

theorem delivery_plan_honest_witness:
  "\<exists>p. PlanDelivery (Some (ex_view ((new_session ''a'')\<lparr>st := StateReady, launchCommitted := True\<rparr>)))
     ex_plan_request = Inr p \<and> Receipts p = [TurnSubmitted]"
proof -
  let ?s = "(new_session ''a'')\<lparr>st := StateReady, launchCommitted := True\<rparr>"
  have view: "acpSession (ex_view ?s) = Some ?s" by (simp add: ex_view_def)
  have req: "RuntimeState ex_plan_request = []" "req_Capability ex_plan_request = DeliveryCapabilitySendTurn"
    by (simp_all add: ex_plan_request_def)
  have "request_ok (w_delivery (ex_view ?s)) ex_plan_request"
    by code_simp
  from delivery_plan_honest [OF view req this]
  show ?thesis by (auto simp: prompt_begin_def split: sum.splits)
qed

end
