(* ===== verification/Wrapper_Events.thy ===== *)
theory Wrapper_Events
  imports Lifecycle "HOL-Library.AList" "HOL-Library.Word"
begin

text \<open>
  What the wrapper turns a native session's output into: \<open>wrapper/event_translator.go\<close>,
  \<open>wrapper/filter_payload.go\<close>, \<open>wrapper/policy_dispatch.go\<close> and the payload helpers at the
  end of \<open>wrapper/wrapper.go\<close>. A Go \<open>map[string]any\<close> is an association list with distinct
  keys. What the host or another module supplies (filters, the policy observer, JSON
  encoding of a tool call, the stop-reason table, the addition of two \<open>float64\<close> costs) is
  the record \<open>hooks\<close>.
\<close>

subsection \<open>Data\<close>

record tool_use =
  tu_ID :: string
  tu_Name :: string
  tu_Input :: raw

text \<open>\<open>llmtypes.Usage\<close>; \<open>'f\<close> is the type of \<open>CostUSD\<close>.\<close>

record 'f usage =
  InputTokens :: "64 word"
  OutputTokens :: "64 word"
  CacheCreationTokens :: "64 word"
  CacheReadTokens :: "64 word"
  CostUSD :: 'f
  StopReason :: string

datatype 'f pvalue =
    VStr string
  | VBool bool
  | VInt int
  | VRaw raw
  | VToolUse tool_use
  | VUsage "'f usage"
  | VMap "(string \<times> 'f pvalue) list"
  | VOther string

text \<open>An event's payload: \<open>nil\<close>, a map, or another value.\<close>

datatype 'f payload = PNil | PMap "(string \<times> 'f pvalue) list" | PValue "'f pvalue"

datatype frame_type =
    EventDelta | EventToolUse | EventError | EventDone | EventSessionID | EventThinking
  | EventUsage | EventOther string

text \<open>\<open>llmtypes.StreamEvent\<close>.\<close>

record 'f frame =
  Type :: frame_type
  Content :: string
  BlockID :: string
  Phase :: string
  ToolUse :: "tool_use option"
  FrameError :: string
  FrameSessionID :: string
  Thinking :: "raw option"
  Usage :: "'f usage option"

text \<open>\<open>provider/events.Event\<close>, as far as \<open>translateProviderEvent\<close> reads it.\<close>

datatype typed_event =
    TToolResult string bool string
  | TSubagentSpawn string raw
  | TSessionLost string string string
  | TAuthFailed string
  | TPermissionDenied string string string
  | THeartbeat "string option"  \<comment> \<open>the zero time is \<open>None\<close>\<close>
  | TOther

record observation =
  obs_Kind :: string
  Original :: string
  obs_Turn :: "nat option"

datatype recommendation =
    RecommendationNone | RecommendationNudge | RecommendationRewrite | RecommendationBlock
  | RecommendationRequestApproval | RecommendationOther string

fun recommendation_name :: "recommendation \<Rightarrow> string" where
  "recommendation_name RecommendationNone = ''observe''"
| "recommendation_name RecommendationNudge = ''nudge''"
| "recommendation_name RecommendationRewrite = ''rewrite''"
| "recommendation_name RecommendationBlock = ''block''"
| "recommendation_name RecommendationRequestApproval = ''approval''"
| "recommendation_name (RecommendationOther s) = s"

record finding =
  Recommendation :: recommendation
  RuleID :: string
  SuggestedReplacement :: string
  Message :: string

text \<open>
  \<open>Filters\<close>: kind, content and metadata to the repaired bytes, where it repaired any
  without an error; \<open>None\<close> where no pipeline is configured. \<open>PolicyObserver\<close> likewise.
\<close>

record 'f hooks =
  Filters :: "(string \<Rightarrow> string \<Rightarrow> (string \<times> string) list \<Rightarrow> string option) option"
  PolicyObserver :: "(observation \<Rightarrow> finding option) option"
  provider :: string
  marshal_tool :: "tool_use \<Rightarrow> string option"
  unmarshal_tool :: "string \<Rightarrow> tool_use option"
  NormalizeStopReason :: "string \<Rightarrow> string"
  add_cost :: "'f \<Rightarrow> 'f \<Rightarrow> 'f"

text \<open>Kinds that \<open>Runtime_Events\<close> does not name.\<close>

definition KindSessionProcessing :: event_kind where
  "KindSessionProcessing = KindOther ''session.processing''"
definition KindSessionIdle :: event_kind where "KindSessionIdle = KindOther ''session.idle''"
definition KindSessionLost :: event_kind where "KindSessionLost = KindOther ''session.lost''"
definition KindSessionAuthFailed :: event_kind where
  "KindSessionAuthFailed = KindOther ''session.auth_failed''"
definition KindSessionHeartbeat :: event_kind where
  "KindSessionHeartbeat = KindOther ''session.heartbeat''"
definition KindInterruptRequested :: event_kind where
  "KindInterruptRequested = KindOther ''interrupt.requested''"
definition KindInterruptAcknowledged :: event_kind where
  "KindInterruptAcknowledged = KindOther ''interrupt.acknowledged''"
definition KindPolicyNudge :: event_kind where "KindPolicyNudge = KindOther ''policy.nudge''"
definition KindPolicyRewrite :: event_kind where "KindPolicyRewrite = KindOther ''policy.rewrite''"
definition KindPolicyBlock :: event_kind where "KindPolicyBlock = KindOther ''policy.block''"
definition KindPolicyApprovalRequested :: event_kind where
  "KindPolicyApprovalRequested = KindOther ''policy.approval_requested''"

lemmas kind_defs = KindSessionProcessing_def KindSessionIdle_def KindSessionLost_def
  KindSessionAuthFailed_def KindSessionHeartbeat_def KindInterruptRequested_def
  KindInterruptAcknowledged_def KindPolicyNudge_def KindPolicyRewrite_def KindPolicyBlock_def
  KindPolicyApprovalRequested_def

subsection \<open>Turn kinds\<close>

fun isTurnInternal :: "event_kind \<Rightarrow> bool" where
  "isTurnInternal KindAgentDelta = True"
| "isTurnInternal KindAgentToolUse = True"
| "isTurnInternal KindAgentToolResult = True"
| "isTurnInternal KindAgentSubagentSpawn = True"
| "isTurnInternal KindAgentPermissionRequested = True"
| "isTurnInternal KindAgentPermissionResolved = True"
| "isTurnInternal KindAgentPermissionDenied = True"
| "isTurnInternal _ = False"

definition isTurnTerminal :: "event_kind \<Rightarrow> bool" where
  "isTurnTerminal kind \<longleftrightarrow> kind = KindTurnCompleted \<or> kind = KindTurnFailed"

definition isTurnScoped :: "event_kind \<Rightarrow> bool" where
  "isTurnScoped kind \<longleftrightarrow> isTurnInternal kind \<or> isTurnTerminal kind \<or> kind = KindSessionLost"

subsection \<open>Translation\<close>

definition withBlock :: "(string \<times> 'f pvalue) list \<Rightarrow> string \<Rightarrow> string \<Rightarrow> (string \<times> 'f pvalue) list" where
  "withBlock p blockID phase =
     (let p1 = (if blockID \<noteq> [] then AList.update ''block_id'' (VStr blockID) p else p)
      in if phase \<noteq> [] then AList.update ''phase'' (VStr phase) p1 else p1)"

definition translateStreamEvent :: "'f frame \<Rightarrow> (event_kind \<times> 'f payload) option" where
  "translateStreamEvent ev =
     (case Type ev of
        EventDelta \<Rightarrow>
          Some (KindAgentDelta, PMap (withBlock [(''content'', VStr (Content ev))] (BlockID ev) (Phase ev)))
      | EventToolUse \<Rightarrow>
          Some (KindAgentToolUse, PMap (case ToolUse ev of None \<Rightarrow> [] | Some t \<Rightarrow> [(''tool_use'', VToolUse t)]))
      | EventError \<Rightarrow>
          Some (KindTurnFailed, PMap [(''error'', VStr (FrameError ev)), (''stop_reason'', VStr ''error'')])
      | EventDone \<Rightarrow>
          Some (KindTurnCompleted, if Content ev \<noteq> [] then PMap [(''text'', VStr (Content ev))] else PNil)
      | EventThinking \<Rightarrow>
          Some (KindAgentDelta, PMap (withBlock
            (case Thinking ev of None \<Rightarrow> [] | Some t \<Rightarrow> [(''thinking'', VRaw t)]) (BlockID ev) ''thought''))
      | _ \<Rightarrow> None)"

text \<open>\<open>now\<close> is the clock.\<close>

fun translateProviderEvent :: "string \<Rightarrow> typed_event \<Rightarrow> (event_kind \<times> 'f payload) option" where
  "translateProviderEvent now (TToolResult i e preview) =
     Some (KindAgentToolResult, PMap [(''tool_result'',
       VMap [(''id'', VStr i), (''is_error'', VBool e), (''content_preview'', VStr preview)])])"
| "translateProviderEvent now (TSubagentSpawn tool args) =
     Some (KindAgentSubagentSpawn, PMap [(''subagent_spawn'', VMap [(''tool'', VStr tool), (''args'', VRaw args)])])"
| "translateProviderEvent now (TSessionLost requested actual why) =
     Some (KindSessionLost, PMap [(''requested_id'', VStr requested), (''actual_id'', VStr actual),
       (''reason'', VStr why)])"
| "translateProviderEvent now (TAuthFailed m) = Some (KindSessionAuthFailed, PMap [(''error'', VStr m)])"
| "translateProviderEvent now (TPermissionDenied action name i) =
     Some (KindAgentPermissionDenied, PMap ([(''action'', VStr action), (''display_name'', VStr name)] @
       (if i \<noteq> [] then [(''tool_use_id'', VStr i)] else [])))"
| "translateProviderEvent now (THeartbeat t) =
     Some (KindSessionHeartbeat, PMap [(''last_activity_at'', VOther (case t of None \<Rightarrow> now | Some t' \<Rightarrow> t'))])"
| "translateProviderEvent now TOther = None"

subsection \<open>Filters\<close>

definition filterStreamEvent :: "'f hooks \<Rightarrow> 'f frame \<Rightarrow> 'f frame" where
  "filterStreamEvent h ev =
     (case Filters h of
        None \<Rightarrow> ev
      | Some process \<Rightarrow>
          if Type ev \<in> {EventDelta, EventDone} then
            (if Content ev = [] then ev
             else case process ''agent_text'' (Content ev) [(''provider'', provider h)] of
                    None \<Rightarrow> ev
                  | Some repaired \<Rightarrow> ev\<lparr>Content := repaired\<rparr>)
          else if Type ev = EventToolUse then
            (case ToolUse ev of
               None \<Rightarrow> ev
             | Some t \<Rightarrow>
                 (case marshal_tool h t of
                    None \<Rightarrow> ev
                  | Some bytes \<Rightarrow>
                      (case process ''envelope'' bytes [(''provider'', provider h), (''tool_name'', tu_Name t)] of
                         None \<Rightarrow> ev
                       | Some repaired \<Rightarrow>
                           (case unmarshal_tool h repaired of
                              None \<Rightarrow> ev
                            | Some t' \<Rightarrow> ev\<lparr>ToolUse := Some t'\<rparr>))))
          else ev)"

definition filterToolResultPayload ::
  "'f hooks \<Rightarrow> (string \<Rightarrow> string \<Rightarrow> (string \<times> string) list \<Rightarrow> string option) \<Rightarrow>
   (string \<times> 'f pvalue) list \<Rightarrow> (string \<times> 'f pvalue) list" where
  "filterToolResultPayload h process p =
     (case map_of p ''tool_result'' of
        Some (VMap tr) \<Rightarrow>
          (let preview = (case map_of tr ''content_preview'' of Some (VStr s) \<Rightarrow> s | _ \<Rightarrow> [])
           in case process ''tool_output'' preview [(''provider'', provider h)] of
                None \<Rightarrow> p
              | Some repaired \<Rightarrow>
                  AList.update ''tool_result''
                    (VMap (AList.update ''content_preview'' (VStr repaired) tr)) p)
      | _ \<Rightarrow> p)"

definition filterPayload :: "'f hooks \<Rightarrow> event_kind \<Rightarrow> 'f payload \<Rightarrow> 'f payload" where
  "filterPayload h kind payload =
     (case (Filters h, payload) of
        (Some process, PMap p) \<Rightarrow>
          if kind = KindAgentToolResult then PMap (filterToolResultPayload h process p) else payload
      | _ \<Rightarrow> payload)"

subsection \<open>Usage and reasons\<close>

definition mergeTurnUsage :: "('f \<Rightarrow> 'f \<Rightarrow> 'f) \<Rightarrow> 'f usage option \<Rightarrow> 'f usage option \<Rightarrow> 'f usage option" where
  "mergeTurnUsage add acc u =
     (case u of
        None \<Rightarrow> acc
      | Some u \<Rightarrow>
          (case acc of
             None \<Rightarrow> Some u
           | Some t \<Rightarrow> Some \<lparr>InputTokens = InputTokens t + InputTokens u,
               OutputTokens = OutputTokens t + OutputTokens u,
               CacheCreationTokens = CacheCreationTokens t + CacheCreationTokens u,
               CacheReadTokens = CacheReadTokens t + CacheReadTokens u,
               CostUSD = add (CostUSD t) (CostUSD u),
               StopReason = (if StopReason u \<noteq> [] then StopReason u else StopReason t)\<rparr>))"

text \<open>The copy of a payload that a key is added to.\<close>

fun payload_map :: "'f payload \<Rightarrow> (string \<times> 'f pvalue) list" where
  "payload_map PNil = []"
| "payload_map (PMap p) = p"
| "payload_map (PValue v) = [(''payload'', v)]"

definition withTurnUsage :: "'f payload \<Rightarrow> 'f usage option \<Rightarrow> 'f payload" where
  "withTurnUsage payload u =
     (case u of
        None \<Rightarrow> payload
      | Some u \<Rightarrow> PMap (AList.update ''usage'' (VUsage u) (payload_map payload)))"

definition withStopReason :: "'f hooks \<Rightarrow> 'f payload \<Rightarrow> 'f usage option \<Rightarrow> 'f payload" where
  "withStopReason h payload u =
     (case u of
        None \<Rightarrow> payload
      | Some u \<Rightarrow>
          if StopReason u = [] then payload
          else if (case payload of PMap p \<Rightarrow> map_of p ''stop_reason'' \<noteq> None | _ \<Rightarrow> False) then payload
          else PMap (AList.update ''stop_reason'' (VStr (NormalizeStopReason h (StopReason u)))
                       (payload_map payload)))"

definition withInterruptedReason :: "'f payload \<Rightarrow> 'f payload" where
  "withInterruptedReason payload =
     (case payload of
        PValue v \<Rightarrow> payload
      | _ \<Rightarrow> PMap (AList.update ''reason'' (VStr ''interrupted'') (payload_map payload)))"

subsection \<open>Policy findings\<close>

fun policyRecommendationToLegacyEventKind :: "recommendation \<Rightarrow> event_kind option" where
  "policyRecommendationToLegacyEventKind RecommendationNudge = Some KindPolicyNudge"
| "policyRecommendationToLegacyEventKind RecommendationRewrite = Some KindPolicyRewrite"
| "policyRecommendationToLegacyEventKind RecommendationBlock = Some KindPolicyBlock"
| "policyRecommendationToLegacyEventKind RecommendationRequestApproval = Some KindPolicyApprovalRequested"
| "policyRecommendationToLegacyEventKind _ = None"

definition serializeToolUse :: "'f hooks \<Rightarrow> tool_use \<Rightarrow> string" where
  "serializeToolUse h t = (case marshal_tool h t of None \<Rightarrow> [] | Some s \<Rightarrow> s)"

text \<open>The policy event to emit for an observed tool call, if any.\<close>

definition observeSerializedToolUsePolicy ::
  "(observation \<Rightarrow> finding option) \<Rightarrow> string \<Rightarrow> nat option \<Rightarrow> (event_kind \<times> 'f payload) option" where
  "observeSerializedToolUsePolicy observe original turn =
     (case observe \<lparr>obs_Kind = ''tool_use'', Original = original, obs_Turn = turn\<rparr> of
        None \<Rightarrow> None
      | Some f \<Rightarrow>
          map_option (\<lambda>kind. (kind, PMap
            ([(''rule_id'', VStr (RuleID f)), (''mode'', VStr (recommendation_name (Recommendation f))),
              (''original'', VStr original)] @
             (if Message f \<noteq> [] then [(''message'', VStr (Message f))] else []) @
             (if SuggestedReplacement f \<noteq> [] then [(''replacement'', VStr (SuggestedReplacement f))] else []))))
            (policyRecommendationToLegacyEventKind (Recommendation f)))"

definition observeToolUsePolicy ::
  "'f hooks \<Rightarrow> 'f frame \<Rightarrow> nat option \<Rightarrow> (event_kind \<times> 'f payload) option" where
  "observeToolUsePolicy h ev turn =
     (case (PolicyObserver h, ToolUse ev) of
        (Some observe, Some t) \<Rightarrow> observeSerializedToolUsePolicy observe (serializeToolUse h t) turn
      | _ \<Rightarrow> None)"

subsection \<open>What the translation gives\<close>

lemma isTurnTerminal_simps [simp]:
  "isTurnTerminal KindTurnCompleted" "isTurnTerminal KindTurnFailed"
  "\<not> isTurnTerminal KindAgentDelta" "\<not> isTurnTerminal KindAgentToolUse"
  "\<not> isTurnTerminal (KindOther k)" "\<not> isTurnTerminal KindTurnStarted"
  "\<not> isTurnTerminal KindAgentPermissionRequested" "\<not> isTurnTerminal KindAgentPermissionResolved"
  by (simp_all add: isTurnTerminal_def)

lemma isTurnInternal_not_terminal: "isTurnInternal k \<Longrightarrow> \<not> isTurnTerminal k"
  by (cases k) (simp_all add: isTurnTerminal_def)

text \<open>Every stream event that is translated belongs to a turn: it is internal or terminal.\<close>

lemma translateStreamEvent_kind:
  "translateStreamEvent ev = Some (kind, p) \<Longrightarrow> isTurnInternal kind \<or> isTurnTerminal kind"
  by (auto simp: translateStreamEvent_def split: frame_type.splits)

lemma translateProviderEvent_kind:
  "translateProviderEvent now ev = Some (kind, p) \<Longrightarrow> \<not> isTurnTerminal kind \<and> kind \<noteq> KindTurnStarted"
  by (cases ev) (auto simp: kind_defs isTurnTerminal_def)

lemma policy_kind:
  "observeToolUsePolicy h ev turn = Some (kind, p) \<Longrightarrow> \<exists>k. kind = KindOther k"
  by (auto simp: observeToolUsePolicy_def observeSerializedToolUsePolicy_def kind_defs
      split: option.splits elim!: policyRecommendationToLegacyEventKind.elims)

end
