(* ===== verification/Wrapper_Turns.thy ===== *)
theory Wrapper_Turns
  imports Wrapper_Events
begin

text \<open>
  Turns of a native session: the closures of \<open>Run\<close> in \<open>wrapper/wrapper.go\<close> that frame
  turns, \<open>turnMarks\<close> and \<open>requestTurnInterrupt\<close> of \<open>wrapper/turn_interrupt.go\<close>, and
  \<open>typedQueue\<close> of \<open>wrapper/typed_order.go\<close>, with the interleaving of the goroutines that
  use them. Turn ids and event ids are made by a library that promises new, non-empty
  ids: an id is the number of the call that made it, and the empty id is \<open>None\<close>.
\<close>

subsection \<open>Turn marks\<close>

record turn_marks =
  open_turn :: "nat option"
  interrupted :: "nat option"

definition opened :: "nat \<Rightarrow> turn_marks \<Rightarrow> turn_marks" where
  "opened i m = m\<lparr>open_turn := Some i\<rparr>"

definition closed_turn :: "nat \<Rightarrow> turn_marks \<Rightarrow> turn_marks" where
  "closed_turn i m =
     (let m1 = (if open_turn m = Some i then m\<lparr>open_turn := None\<rparr> else m)
      in if interrupted m1 = Some i then m1\<lparr>interrupted := None\<rparr> else m1)"

definition markOpen :: "turn_marks \<Rightarrow> turn_marks \<times> nat option" where
  "markOpen m = (m\<lparr>interrupted := open_turn m\<rparr>, open_turn m)"

definition unmark :: "nat option \<Rightarrow> turn_marks \<Rightarrow> turn_marks" where
  "unmark i m = (if i \<noteq> None \<and> interrupted m = i then m\<lparr>interrupted := None\<rparr> else m)"

definition isInterrupted :: "nat option \<Rightarrow> turn_marks \<Rightarrow> bool" where
  "isInterrupted i m \<longleftrightarrow> i \<noteq> None \<and> interrupted m = i"

subsection \<open>Emitting\<close>

record 'f out =
  o_Kind :: event_kind
  o_Payload :: "'f payload"
  o_Turn :: "nat option"
  o_ID :: "nat option"
  o_Parent :: "nat option"

record 'f wrap =
  currentTurnID :: "nat option"
  turnUsage :: "'f usage option"
  marks :: turn_marks
  turnIDs :: nat
  eventIDs :: nat
  emitted :: "'f out list"

definition new_wrap :: "'f wrap" where
  "new_wrap = \<lparr>currentTurnID = None, turnUsage = None,
     marks = \<lparr>open_turn = None, interrupted = None\<rparr>, turnIDs = 0, eventIDs = 0, emitted = []\<rparr>"

definition emit :: "event_kind \<Rightarrow> 'f payload \<Rightarrow> nat option \<Rightarrow> nat option \<Rightarrow> nat option \<Rightarrow>
    'f wrap \<Rightarrow> 'f wrap" where
  "emit kind payload turn i parent w =
     w\<lparr>emitted := emitted w @ [\<lparr>o_Kind = kind, o_Payload = payload, o_Turn = turn, o_ID = i,
                               o_Parent = parent\<rparr>]\<rparr>"

definition new_event_id :: "'f wrap \<Rightarrow> 'f wrap \<times> nat" where
  "new_event_id w = (w\<lparr>eventIDs := Suc (eventIDs w)\<rparr>, eventIDs w)"

definition turn_payload :: "nat \<Rightarrow> 'f payload" where
  "turn_payload t = PMap [(''turn_id'', VInt (int t))]"

definition start_turn :: "'f wrap \<Rightarrow> 'f wrap" where
  "start_turn w =
     (let t = turnIDs w
      in emit KindSessionProcessing (turn_payload t) (Some t) None None
           (emit KindTurnStarted PNil (Some t) None None
             (w\<lparr>currentTurnID := Some t, turnIDs := Suc t, marks := opened t (marks w)\<rparr>)))"

definition ensure_turn :: "bool \<Rightarrow> 'f wrap \<Rightarrow> 'f wrap" where
  "ensure_turn needed w = (if currentTurnID w = None \<and> needed then start_turn w else w)"

definition scoped_turn :: "event_kind \<Rightarrow> 'f wrap \<Rightarrow> nat option" where
  "scoped_turn kind w = (if isTurnScoped kind then currentTurnID w else None)"

text \<open>A terminal event's payload: usage, stop reason, and whether \<open>CancelTurn\<close> ended it.\<close>

definition terminal_payload :: "'f hooks \<Rightarrow> event_kind \<Rightarrow> 'f payload \<Rightarrow> 'f wrap \<Rightarrow> 'f payload" where
  "terminal_payload h kind payload w =
     (let p = withStopReason h (withTurnUsage payload (turnUsage w)) (turnUsage w)
      in if kind = KindTurnFailed \<and> isInterrupted (currentTurnID w) (marks w)
         then withInterruptedReason p else p)"

definition close_mark :: "nat option \<Rightarrow> 'f wrap \<Rightarrow> 'f wrap" where
  "close_mark i w = (case i of None \<Rightarrow> w | Some t \<Rightarrow> w\<lparr>marks := closed_turn t (marks w)\<rparr>)"

definition close_open_turn :: "'f wrap \<Rightarrow> 'f wrap" where
  "close_open_turn w = close_mark (currentTurnID w) (w\<lparr>currentTurnID := None\<rparr>)"

definition emit_idle :: "nat option \<Rightarrow> 'f wrap \<Rightarrow> 'f wrap" where
  "emit_idle i w =
     (case i of None \<Rightarrow> w | Some t \<Rightarrow> emit KindSessionIdle (turn_payload t) (Some t) None None w)"

definition emit_policy :: "'f hooks \<Rightarrow> 'f frame \<Rightarrow> nat \<Rightarrow> 'f wrap \<Rightarrow> 'f wrap" where
  "emit_policy h ev eventID w =
     (case observeToolUsePolicy h ev (currentTurnID w) of
        None \<Rightarrow> w
      | Some (kind, p) \<Rightarrow> emit kind p (currentTurnID w) None (Some eventID) w)"

text \<open>
  \<open>emitObserved\<close> holds \<open>turnMu\<close> to its end, but the turn marks have a mutex of their own:
  \<open>CancelTurn\<close> may mark the open turn between any two of its calls to them. So its body
  is cut there. A \<open>turn_section\<close> says how far the translator has come: a turn was opened if
  there was none; a terminal event's payload was made, after \<open>isInterrupted\<close> was asked; the
  event was emitted, and \<open>closed\<close> is still to come. \<open>currentTurnID\<close>, which only holders of
  \<open>turnMu\<close> read, is cleared with the event. The other holders of \<open>turnMu\<close> call the marks
  at most once and read none of them, and are one step each.
\<close>

datatype 'f turn_section =
    Unlocked
  | Opened event_kind "'f payload" "'f frame"
  | Decided event_kind "'f payload" "'f frame"
  | Reported "nat option"

definition observe_open :: "'f hooks \<Rightarrow> event_kind \<Rightarrow> 'f payload \<Rightarrow> 'f frame \<Rightarrow> 'f wrap \<Rightarrow>
    'f wrap \<times> 'f turn_section" where
  "observe_open h kind payload ev w =
     (ensure_turn (isTurnInternal kind \<or> isTurnTerminal kind) w,
      Opened kind (filterPayload h kind payload) ev)"

definition observe_check :: "'f hooks \<Rightarrow> event_kind \<Rightarrow> 'f payload \<Rightarrow> 'f frame \<Rightarrow> 'f wrap \<Rightarrow>
    'f wrap \<times> 'f turn_section" where
  "observe_check h kind payload ev w =
     (if isTurnTerminal kind
      then (w\<lparr>turnUsage := None\<rparr>, Decided kind (terminal_payload h kind payload w) ev)
      else (w, Decided kind payload ev))"

definition observe_emit :: "'f hooks \<Rightarrow> event_kind \<Rightarrow> 'f payload \<Rightarrow> 'f frame \<Rightarrow> 'f wrap \<Rightarrow>
    'f wrap \<times> 'f turn_section" where
  "observe_emit h kind payload ev w =
     (let (w1, eventID) = new_event_id w;
          w2 = emit kind payload (scoped_turn kind w1) (Some eventID) None w1;
          w3 = (if kind = KindAgentToolUse then emit_policy h ev eventID w2 else w2)
      in if isTurnTerminal kind
         then (w3\<lparr>currentTurnID := None\<rparr>, Reported (currentTurnID w3)) else (w3, Unlocked))"

definition observe_close :: "nat option \<Rightarrow> 'f wrap \<Rightarrow> 'f wrap" where
  "observe_close i w = emit_idle i (close_mark i w)"

definition emitObserved :: "'f hooks \<Rightarrow> 'f turn_section \<Rightarrow> 'f wrap \<Rightarrow> 'f wrap \<times> 'f turn_section" where
  "emitObserved h c w =
     (case c of
        Unlocked \<Rightarrow> (w, Unlocked)
      | Opened kind payload ev \<Rightarrow> observe_check h kind payload ev w
      | Decided kind payload ev \<Rightarrow> observe_emit h kind payload ev w
      | Reported i \<Rightarrow> (observe_close i w, Unlocked))"

definition emitProviderObserved :: "'f hooks \<Rightarrow> event_kind \<Rightarrow> 'f payload \<Rightarrow> 'f wrap \<Rightarrow> 'f wrap" where
  "emitProviderObserved h kind payload w =
     (let w1 = ensure_turn (isTurnInternal kind) w
      in emit kind (filterPayload h kind payload) (scoped_turn kind w1) None None w1)"

definition flushOpenTurn :: "int \<Rightarrow> string option \<Rightarrow> 'f wrap \<Rightarrow> 'f wrap" where
  "flushOpenTurn exitCode waitErr w =
     (case currentTurnID w of
        None \<Rightarrow> w\<lparr>turnUsage := None\<rparr>
      | Some t \<Rightarrow>
          (let payload = PMap ([(''error'', VStr ''wrapper: process exited before the turn completed''),
                 (''reason'', VStr ''process_exited''), (''stop_reason'', VStr ''error''),
                 (''exit_code'', VInt exitCode)] @
                 (case waitErr of None \<Rightarrow> [] | Some e \<Rightarrow> [(''wait_error'', VStr e)]));
               w1 = emit KindTurnFailed (withTurnUsage payload (turnUsage w)) (Some t) None None
                      (close_open_turn w)
           in emit_idle (Some t) (w1\<lparr>turnUsage := None\<rparr>)))"

subsection \<open>Functions in the typed queue\<close>

text \<open>
  What \<open>Decide\<close> of the approval responder returned, and the payloads of the two events of a
  JSON-RPC server request.
\<close>

record approval =
  ap_Allowed :: bool
  ap_Reason :: string
  ap_Kind :: string
  MCPServer :: string
  MCPTool :: string
  MCPAllowEntry :: string
  ap_Err :: "string option"

definition resolved_payload :: "string \<Rightarrow> string \<Rightarrow> approval \<Rightarrow> 'f payload" where
  "resolved_payload method posture outcome =
     PMap ([(''method'', VStr method), (''allowed'', VBool (ap_Allowed outcome)),
            (''posture'', VStr posture), (''reason'', VStr (ap_Reason outcome))] @
       (if ap_Kind outcome \<noteq> [] then [(''kind'', VStr (ap_Kind outcome))] else []) @
       (if MCPServer outcome \<noteq> [] then [(''mcp_server'', VStr (MCPServer outcome))] else []) @
       (if MCPTool outcome \<noteq> [] then [(''mcp_tool'', VStr (MCPTool outcome))] else []) @
       (if MCPAllowEntry outcome \<noteq> [] then [(''mcp_allow_entry'', VStr (MCPAllowEntry outcome))] else []) @
       (case ap_Err outcome of None \<Rightarrow> [] | Some e \<Rightarrow> [(''error'', VStr e)]))"

datatype 'f typed_fn =
    EmitTyped event_kind "'f payload"
  | EmitPermission nat "'f payload" "'f payload"

definition typed_callback :: "string \<Rightarrow> typed_event \<Rightarrow> 'f typed_fn option" where
  "typed_callback now ev = map_option (\<lambda>(kind, payload). EmitTyped kind payload)
     (translateProviderEvent now ev)"

definition request_hook :: "string \<Rightarrow> string \<Rightarrow> raw \<Rightarrow> approval \<Rightarrow> 'f wrap \<Rightarrow> 'f wrap \<times> 'f typed_fn" where
  "request_hook posture method ps outcome w =
     (let (w1, requestID) = new_event_id w
      in (w1, EmitPermission requestID (PMap [(''method'', VStr method), (''params'', VRaw ps)])
                (resolved_payload method posture outcome)))"

text \<open>The hook's function: a section that opens a turn, then two events without the lock.\<close>

definition permission_turn_open :: "'f wrap \<Rightarrow> 'f wrap \<times> nat" where
  "permission_turn_open w =
     (let w1 = ensure_turn True w in (w1, case currentTurnID w1 of None \<Rightarrow> 0 | Some t \<Rightarrow> t))"

definition permission_emit :: "nat \<Rightarrow> nat \<Rightarrow> 'f payload \<Rightarrow> 'f payload \<Rightarrow> 'f wrap \<Rightarrow> 'f wrap" where
  "permission_emit t requestID payload answer w =
     emit KindAgentPermissionResolved answer (Some t) None (Some requestID)
       (emit KindAgentPermissionRequested payload (Some t) (Some requestID) None w)"

subsection \<open>The run of a session\<close>

text \<open>
  Goroutines: the reader of the session (agentkit) reports stream events, and typed events
  and requests through \<open>enqueue\<close>; it does one thing at a time. The translator drains the
  channel. \<open>Run\<close> closes the channel, waits for the translator, flushes and exits. Hosts
  call \<open>CancelTurn\<close>. \<open>turn_mu\<close> is where the translator stands in \<open>emitObserved\<close>; the
  others that take \<open>turnMu\<close> wait until it is \<open>Unlocked\<close>. \<open>reported\<close> and \<open>handled\<close> record what the reader reported and the
  translator handled; \<open>late\<close> that a report was refused because the channel was closed.
\<close>

datatype 'f fan_item = Stream "'f frame" | Marker

datatype 'f runner =
    Free
  | Sends  \<comment> \<open>in \<open>enqueue\<close>, the marker not yet sent\<close>
  | Resolves nat nat "'f payload" "'f payload"  \<comment> \<open>in the hook's function, after its lock\<close>

datatype run_phase = Running | Drained | Flushed | Exited

datatype interrupt_pc = IntRequested nat | IntMarked nat "nat option"

record 'f run =
  wrap :: "'f wrap"
  fanout :: "'f fan_item list"
  items :: "'f typed_fn list"
  fan_closed :: bool
  reader :: "'f runner"
  translator :: "'f runner"
  turn_mu :: "'f turn_section"
  phase :: run_phase
  interrupts :: "interrupt_pc list"
  reported :: "('f frame + 'f typed_fn) list"
  handled :: "('f frame + 'f typed_fn) list"
  late :: bool

definition fanout_cap :: nat where "fanout_cap = 128"

definition new_run :: "'f run" where
  "new_run = \<lparr>wrap = new_wrap, fanout = [], items = [], fan_closed = False, reader = Free,
     translator = Free, turn_mu = Unlocked, phase = Running, interrupts = [], reported = [], handled = [], late = False\<rparr>"

definition in_wrap :: "('f wrap \<Rightarrow> 'f wrap) \<Rightarrow> 'f run \<Rightarrow> 'f run" where
  "in_wrap f s = s\<lparr>wrap := f (wrap s)\<rparr>"

text \<open>Run a queued function: a typed event at once, a permission pair in two steps.\<close>

definition run_typed :: "'f hooks \<Rightarrow> 'f typed_fn \<Rightarrow> 'f wrap \<Rightarrow> 'f wrap \<times> 'f runner" where
  "run_typed h f w =
     (case f of
        EmitTyped kind payload \<Rightarrow> (emitProviderObserved h kind payload w, Free)
      | EmitPermission requestID payload answer \<Rightarrow>
          (let (w1, t) = permission_turn_open w in (w1, Resolves t requestID payload answer)))"

definition send_stream :: "'f frame \<Rightarrow> 'f run \<Rightarrow> 'f run" where
  "send_stream ev s = s\<lparr>fanout := fanout s @ [Stream ev], reported := reported s @ [Inl ev]\<rparr>"

definition enqueue :: "'f typed_fn \<Rightarrow> 'f run \<Rightarrow> 'f run" where
  "enqueue f s = s\<lparr>items := items s @ [f], reader := Sends, reported := reported s @ [Inr f]\<rparr>"

definition send_marker :: "'f run \<Rightarrow> 'f run" where
  "send_marker s = s\<lparr>fanout := fanout s @ [Marker], reader := Free\<rparr>"

definition refuse :: "'f hooks \<Rightarrow> 'f typed_fn \<Rightarrow> 'f run \<Rightarrow> 'f run" where
  "refuse h f s =
     (let (w1, r) = run_typed h f (wrap s) in s\<lparr>wrap := w1, reader := r, late := True\<rparr>)"

text \<open>The body of the translator's loop for a stream event.\<close>

definition translate_frame :: "'f hooks \<Rightarrow> 'f frame \<Rightarrow> 'f wrap \<Rightarrow> 'f wrap \<times> 'f turn_section" where
  "translate_frame h ev w =
     (if Type ev = EventSessionID \<and> FrameSessionID ev \<noteq> [] then (w, Unlocked)
      else if Type ev = EventUsage
      then (w\<lparr>turnUsage := mergeTurnUsage (add_cost h) (turnUsage w) (Usage ev)\<rparr>, Unlocked)
      else (let ev1 = filterStreamEvent h ev in
            case translateStreamEvent ev1 of
              None \<Rightarrow> (w, Unlocked)
            | Some (kind, payload) \<Rightarrow> observe_open h kind payload ev1 w))"

definition translate_next :: "'f hooks \<Rightarrow> 'f run \<Rightarrow> 'f run" where
  "translate_next h s =
     (case fanout s of
        [] \<Rightarrow> s
      | Stream ev # more_items \<Rightarrow>
          (let (w1, c) = translate_frame h ev (wrap s)
           in s\<lparr>wrap := w1, turn_mu := c, fanout := more_items, handled := handled s @ [Inl ev]\<rparr>)
      | Marker # more_items \<Rightarrow>
          (case items s of
             [] \<Rightarrow> s\<lparr>fanout := more_items\<rparr>
           | f # fs \<Rightarrow>
               (let (w1, r) = run_typed h f (wrap s)
                in s\<lparr>wrap := w1, fanout := more_items, items := fs, translator := r,
                     handled := handled s @ [Inr f]\<rparr>)))"

definition observe_next :: "'f hooks \<Rightarrow> 'f run \<Rightarrow> 'f run" where
  "observe_next h s =
     (let (w1, c) = emitObserved h (turn_mu s) (wrap s) in s\<lparr>wrap := w1, turn_mu := c\<rparr>)"

definition close_fanout :: "'f run \<Rightarrow> 'f run" where
  "close_fanout s = s\<lparr>fan_closed := True\<rparr>"

text \<open>\<open>requestTurnInterrupt\<close>: request, mark the open turn, and what \<open>InterruptTurn\<close> returned.\<close>

definition interrupt_request :: "'f run \<Rightarrow> 'f run" where
  "interrupt_request s =
     (let (w1, i) = new_event_id (wrap s)
      in s\<lparr>wrap := emit KindInterruptRequested (PMap [(''reason'', VStr ''turn_cancel'')]) None (Some i) None w1,
           interrupts := interrupts s @ [IntRequested i]\<rparr>)"

definition interrupt_mark :: "nat \<Rightarrow> nat \<Rightarrow> 'f run \<Rightarrow> 'f run" where
  "interrupt_mark k i s =
     (let (m, t) = markOpen (marks (wrap s))
      in s\<lparr>wrap := (wrap s)\<lparr>marks := m\<rparr>, interrupts := (interrupts s)[k := IntMarked i t]\<rparr>)"

definition interrupt_ack :: "nat option \<Rightarrow> string option \<Rightarrow> 'f payload" where
  "interrupt_ack t err =
     PMap ([(''reason'', VStr ''turn_cancel'')] @
       (case t of None \<Rightarrow> [] | Some t \<Rightarrow> [(''turn_id'', VInt (int t))]) @
       (case err of None \<Rightarrow> [] | Some e \<Rightarrow> [(''error'', VStr e)]))"

definition interrupt_done :: "nat \<Rightarrow> nat \<Rightarrow> nat option \<Rightarrow> string option \<Rightarrow> 'f run \<Rightarrow> 'f run" where
  "interrupt_done k i t err s =
     (let w1 = (if err = None then wrap s else (wrap s)\<lparr>marks := unmark t (marks (wrap s))\<rparr>)
      in s\<lparr>wrap := emit KindInterruptAcknowledged (interrupt_ack t err) None None (Some i) w1,
           interrupts := take k (interrupts s) @ drop (Suc k) (interrupts s)\<rparr>)"

definition exit_payload :: "int \<Rightarrow> string option \<Rightarrow> 'f payload" where
  "exit_payload code err =
     PMap ((''exit_code'', VInt code) # (case err of None \<Rightarrow> [] | Some e \<Rightarrow> [(''error'', VStr e)]))"

definition stop_ack :: "string \<Rightarrow> string option \<Rightarrow> 'f payload" where
  "stop_ack why err =
     PMap ((''reason'', VStr why) # (case err of None \<Rightarrow> [] | Some e \<Rightarrow> [(''error'', VStr e)]))"

text \<open>
  \<open>background\<close>: heartbeats, raw output, \<open>session.ready\<close>, interrupt requests and the like;
  \<open>stop_acknowledged\<close>: the end of \<open>requestInterrupt\<close>, after a \<open>Stop\<close> or a canceled context.
\<close>

inductive run_step :: "'f hooks \<Rightarrow> 'f run \<Rightarrow> 'f run \<Rightarrow> bool" for h where
  stream: "reader s = Free \<Longrightarrow> \<not> fan_closed s \<Longrightarrow> length (fanout s) < fanout_cap \<Longrightarrow>
    run_step h s (send_stream ev s)"
| typed: "reader s = Free \<Longrightarrow> \<not> fan_closed s \<Longrightarrow> typed_callback now ev = Some f \<Longrightarrow>
    run_step h s (enqueue f s)"
| request: "reader s = Free \<Longrightarrow> \<not> fan_closed s \<Longrightarrow> request_hook posture method ps outcome (wrap s) = (w, f) \<Longrightarrow>
    run_step h s (enqueue f (s\<lparr>wrap := w\<rparr>))"
| marker: "reader s = Sends \<Longrightarrow> length (fanout s) < fanout_cap \<Longrightarrow> run_step h s (send_marker s)"
| typed_refused: "reader s = Free \<Longrightarrow> fan_closed s \<Longrightarrow> turn_mu s = Unlocked \<Longrightarrow> typed_callback now ev = Some f \<Longrightarrow>
    run_step h s (refuse h f s)"
| request_refused: "reader s = Free \<Longrightarrow> fan_closed s \<Longrightarrow> turn_mu s = Unlocked \<Longrightarrow>
    request_hook posture method ps outcome (wrap s) = (w, f) \<Longrightarrow> run_step h s (refuse h f (s\<lparr>wrap := w\<rparr>))"
| reader_resolves: "reader s = Resolves t i p q \<Longrightarrow>
    run_step h s ((in_wrap (permission_emit t i p q) s)\<lparr>reader := Free\<rparr>)"
| translate: "translator s = Free \<Longrightarrow> turn_mu s = Unlocked \<Longrightarrow> fanout s \<noteq> [] \<Longrightarrow>
    run_step h s (translate_next h s)"
| observe: "turn_mu s \<noteq> Unlocked \<Longrightarrow> run_step h s (observe_next h s)"
| translator_resolves: "translator s = Resolves t i p q \<Longrightarrow>
    run_step h s ((in_wrap (permission_emit t i p q) s)\<lparr>translator := Free\<rparr>)"
| close_channel: "reader s \<noteq> Sends \<Longrightarrow> run_step h s (close_fanout s)"
| drained: "phase s = Running \<Longrightarrow> fan_closed s \<Longrightarrow> fanout s = [] \<Longrightarrow> translator s = Free \<Longrightarrow>
    turn_mu s = Unlocked \<Longrightarrow> run_step h s (s\<lparr>phase := Drained\<rparr>)"
| flush: "phase s = Drained \<Longrightarrow> run_step h s ((in_wrap (flushOpenTurn code err) s)\<lparr>phase := Flushed\<rparr>)"
| exited: "phase s = Flushed \<Longrightarrow>
    run_step h s ((in_wrap (emit KindProcessExited (exit_payload code err) None None None) s)\<lparr>phase := Exited\<rparr>)"
| background: "kind = KindSessionReady \<or> kind = KindOther k \<and> kind \<noteq> KindInterruptAcknowledged \<Longrightarrow>
    run_step h s (in_wrap (emit kind p None i j) s)"
| stop_acknowledged: "run_step h s (in_wrap (emit KindInterruptAcknowledged (stop_ack why err) None None j) s)"
| cancel_turn: "run_step h s (interrupt_request s)"
| cancel_mark: "k < length (interrupts s) \<Longrightarrow> interrupts s ! k = IntRequested i \<Longrightarrow>
    run_step h s (interrupt_mark k i s)"
| cancel_done: "k < length (interrupts s) \<Longrightarrow> interrupts s ! k = IntMarked i t \<Longrightarrow>
    run_step h s (interrupt_done k i t err s)"

inductive run_reach :: "'f hooks \<Rightarrow> 'f run \<Rightarrow> 'f run \<Rightarrow> bool" for h where
  start: "run_reach h s s"
| step: "run_reach h s s' \<Longrightarrow> run_step h s' s'' \<Longrightarrow> run_reach h s s''"

lemma run_reach_trans: "run_reach h s' s'' \<Longrightarrow> run_reach h s s' \<Longrightarrow> run_reach h s s''"
  by (induction rule: run_reach.induct) (auto intro: run_reach.step)

end
