(* ===== verification/Wrapper_Turn_Properties.thy ===== *)
theory Wrapper_Turn_Properties
  imports Wrapper_Turns
begin

text \<open>
  Properties of native turns over all interleavings: turns are framed, typed
  events keep their place, and an interrupted turn says so. An invariant of the emitting
  operations is an interpretation of the locale \<open>turn_invariant\<close>: it is proved on the five
  things they are made of.
\<close>

subsection \<open>Invariants of the emitting operations\<close>

definition neutral :: "event_kind \<Rightarrow> bool" where
  "neutral kind \<longleftrightarrow> \<not> isTurnInternal kind \<and> \<not> isTurnTerminal kind \<and> kind \<noteq> KindTurnStarted"

lemma neutral_simps [simp]:
  "neutral (KindOther k)" "neutral KindSessionReady" "neutral KindProcessExited"
  by (simp_all add: neutral_def isTurnTerminal_def)

definition reason_of :: "'f payload \<Rightarrow> 'f pvalue option" where
  "reason_of p = (case p of PMap m \<Rightarrow> map_of m ''reason'' | _ \<Rightarrow> None)"

definition says_why :: "'f payload \<Rightarrow> bool" where
  "says_why p \<longleftrightarrow> reason_of p \<in> {Some (VStr ''interrupted''), Some (VStr ''process_exited'')}"

text \<open>What the section under \<open>turnMu\<close> relies on at each of its steps.\<close>

definition is_map :: "'f payload \<Rightarrow> bool" where
  "is_map p \<longleftrightarrow> \<not> (\<exists>v. p = PValue v)"

definition section_ok :: "'f turn_section \<Rightarrow> nat option \<Rightarrow> bool" where
  "section_ok c cur \<longleftrightarrow>
     (case c of
        Unlocked \<Rightarrow> True
      | Opened k p ev \<Rightarrow>
          (isTurnInternal k \<or> isTurnTerminal k \<and> is_map p) \<and> cur \<noteq> None
      | Decided k p ev \<Rightarrow> (isTurnInternal k \<or> isTurnTerminal k) \<and> cur \<noteq> None
      | Reported i \<Rightarrow> i \<noteq> None \<and> cur = None)"

text \<open>
  The invariant may depend on the step of the section: \<open>inv_opened\<close> to \<open>inv_closed\<close> are its
  four steps, and \<open>inv_unlock\<close> is the end of a section whose event ends no turn.
\<close>

locale turn_invariant =
  fixes inv :: "'f turn_section \<Rightarrow> 'f wrap \<Rightarrow> bool"
  assumes inv_fields: "inv c w \<Longrightarrow> inv c (w\<lparr>turnUsage := u, eventIDs := n\<rparr>)"
    and inv_neutral: "inv c w \<Longrightarrow> neutral kind \<Longrightarrow> inv c (emit kind p turn i j w)"
    and inv_start: "inv Unlocked w \<Longrightarrow> currentTurnID w = None \<Longrightarrow> inv Unlocked (start_turn w)"
    and inv_internal: "inv c w \<Longrightarrow> currentTurnID w = Some t \<Longrightarrow> isTurnInternal kind \<Longrightarrow>
      inv c (emit kind p (Some t) i j w)"
    and inv_opened: "inv Unlocked w \<Longrightarrow> inv (Opened kind p ev) w"
    and inv_decided: "inv (Opened kind p ev) w \<Longrightarrow>
      (kind = KindTurnFailed \<Longrightarrow> isInterrupted (currentTurnID w) (marks w) \<Longrightarrow> says_why q) \<Longrightarrow>
      inv (Decided kind q ev) w"
    and inv_unlock: "inv (Decided kind p ev) w \<Longrightarrow> inv Unlocked w"
    and inv_reported: "inv (Decided kind p ev) w \<Longrightarrow> currentTurnID w = Some t \<Longrightarrow> isTurnTerminal kind \<Longrightarrow>
      inv (Reported (Some t)) ((emit kind p (Some t) i j w)\<lparr>currentTurnID := None\<rparr>)"
    and inv_closed: "inv (Reported (Some t)) w \<Longrightarrow> currentTurnID w = None \<Longrightarrow>
      inv Unlocked (w\<lparr>marks := closed_turn t (marks w)\<rparr>)"
begin

lemma inv_usage: "inv c w \<Longrightarrow> inv c (w\<lparr>turnUsage := u\<rparr>)"
  using inv_fields [where w = w and u = u and n = "eventIDs w"] by simp

lemma inv_ids: "inv c w \<Longrightarrow> inv c (w\<lparr>eventIDs := n\<rparr>)"
  using inv_fields [where w = w and u = "turnUsage w" and n = n] by simp

lemma inv_ensure: "inv Unlocked w \<Longrightarrow> inv Unlocked (ensure_turn b w)"
  by (simp add: ensure_turn_def inv_start)

end

subsection \<open>The pieces\<close>

lemma emit_simps [simp]:
  "currentTurnID (emit k p t i j w) = currentTurnID w" "turnUsage (emit k p t i j w) = turnUsage w"
  "marks (emit k p t i j w) = marks w" "turnIDs (emit k p t i j w) = turnIDs w"
  "eventIDs (emit k p t i j w) = eventIDs w"
  "emitted (emit k p t i j w) =
     emitted w @ [\<lparr>o_Kind = k, o_Payload = p, o_Turn = t, o_ID = i, o_Parent = j\<rparr>]"
  by (simp_all add: emit_def)

lemma start_turn_simps [simp]:
  "currentTurnID (start_turn w) = Some (turnIDs w)" "turnIDs (start_turn w) = Suc (turnIDs w)"
  "marks (start_turn w) = opened (turnIDs w) (marks w)"
  by (simp_all add: start_turn_def Let_def)

lemma ensure_turn_Some: "b \<Longrightarrow> \<exists>t. currentTurnID (ensure_turn b w) = Some t"
  by (cases "currentTurnID w") (simp_all add: ensure_turn_def)

lemma ensure_turn_False [simp]: "ensure_turn False w = w"
  by (simp add: ensure_turn_def)

lemma close_mark_fields [simp]:
  "currentTurnID (close_mark i w) = currentTurnID w" "turnIDs (close_mark i w) = turnIDs w"
  "emitted (close_mark i w) = emitted w"
  by (simp_all add: close_mark_def split: option.split)

lemma close_open_turn_fields [simp]: "currentTurnID (close_open_turn w) = None"
  by (simp add: close_open_turn_def)

lemma scoped_turn_terminal: "isTurnTerminal k \<Longrightarrow> scoped_turn k w = currentTurnID w"
  by (simp add: scoped_turn_def isTurnScoped_def)

lemma scoped_turn_internal: "isTurnInternal k \<Longrightarrow> scoped_turn k w = currentTurnID w"
  by (simp add: scoped_turn_def isTurnScoped_def)

lemma says_why_interrupted: "\<not> (\<exists>v. p = PValue v) \<Longrightarrow> says_why (withInterruptedReason p)"
  by (cases p) (simp_all add: says_why_def reason_of_def withInterruptedReason_def AList.update_conv')

lemma withTurnUsage_map: "\<not> (\<exists>v. p = PValue v) \<Longrightarrow> \<not> (\<exists>v. withTurnUsage p u = PValue v)"
  by (simp add: withTurnUsage_def split: option.split)

lemma withStopReason_map: "\<not> (\<exists>v. p = PValue v) \<Longrightarrow> \<not> (\<exists>v. withStopReason h p u = PValue v)"
  by (auto simp: withStopReason_def split: option.split payload.split)

lemma filterPayload_terminal [simp]: "isTurnTerminal k \<Longrightarrow> filterPayload h k p = p"
  by (auto simp: filterPayload_def isTurnTerminal_def split: option.split payload.split)

text \<open>A payload the translation gives is \<open>nil\<close> or a map.\<close>

lemma translateStreamEvent_map: "translateStreamEvent ev = Some (kind, p) \<Longrightarrow> is_map p"
  by (auto simp: translateStreamEvent_def is_map_def split: frame_type.splits if_splits)

lemma terminal_payload_says_why:
  "is_map p \<Longrightarrow> isInterrupted (currentTurnID w) (marks w) \<Longrightarrow>
   says_why (terminal_payload h KindTurnFailed p w)"
  by (simp add: terminal_payload_def Let_def is_map_def says_why_interrupted withTurnUsage_map
      withStopReason_map)

lemma flush_payload_says_why:
  "says_why (withTurnUsage (PMap ((''error'', e) # (''reason'', VStr ''process_exited'') # m)) u)"
  by (cases u) (simp_all add: withTurnUsage_def says_why_def reason_of_def AList.update_conv')

subsection \<open>What they preserve\<close>

context turn_invariant
begin

lemma inv_emit_idle: "inv c w \<Longrightarrow> inv c (emit_idle t w)"
  by (auto simp: emit_idle_def KindSessionIdle_def inv_neutral split: option.split)

lemma inv_emit_policy: "inv c w \<Longrightarrow> inv c (emit_policy h ev i w)"
  by (auto simp: emit_policy_def inv_neutral split: option.split dest: policy_kind)

lemma inv_new_event_id: "inv c w \<Longrightarrow> inv c (fst (new_event_id w))"
  by (simp add: new_event_id_def inv_ids)

lemma inv_observe_check:
  assumes "inv (Opened kind p ev) w" and "section_ok (Opened kind p ev) (currentTurnID w)"
    and "observe_check h kind p ev w = (w', c)"
  shows "inv c w'"
proof (cases "isTurnTerminal kind")
  case True
  then have "is_map p" using assms(2) isTurnInternal_not_terminal by (auto simp: section_ok_def)
  then have "inv (Decided kind (terminal_payload h kind p w) ev) w"
    by (intro inv_decided [OF assms(1)]) (simp add: terminal_payload_says_why)
  with assms(3) True show ?thesis by (auto simp: observe_check_def inv_usage)
next
  case False
  then have "inv (Decided kind p ev) w"
    by (intro inv_decided [OF assms(1)]) (simp add: isTurnTerminal_def)
  with assms(3) False show ?thesis by (auto simp: observe_check_def)
qed

lemma inv_observe_emit:
  assumes "inv (Decided kind p ev) w" and "section_ok (Decided kind p ev) (currentTurnID w)"
    and "observe_emit h kind p ev w = (w', c)"
  shows "inv c w'"
proof -
  let ?w1 = "w\<lparr>eventIDs := Suc (eventIDs w)\<rparr>"
  obtain t where t: "currentTurnID w = Some t" using assms(2) by (auto simp: section_ok_def)
  show ?thesis
  proof (cases "isTurnTerminal kind")
    case True
    have "inv (Reported (Some t))
        ((emit kind p (Some t) (Some (eventIDs w)) None ?w1)\<lparr>currentTurnID := None\<rparr>)"
      using inv_reported [OF inv_ids [OF assms(1)]] t True by simp
    moreover have "kind \<noteq> KindAgentToolUse" using True by (auto simp: isTurnTerminal_def)
    ultimately show ?thesis
      using assms(3) True t
      by (auto simp: observe_emit_def new_event_id_def Let_def scoped_turn_terminal)
  next
    case False
    then have k: "isTurnInternal kind" using assms(2) by (simp add: section_ok_def)
    have "inv Unlocked (emit kind p (Some t) (Some (eventIDs w)) None ?w1)"
      using inv_internal [OF inv_ids [OF inv_unlock [OF assms(1)]]] t k by simp
    then show ?thesis
      using assms(3) False t k
      by (auto simp: observe_emit_def new_event_id_def Let_def scoped_turn_internal inv_emit_policy
          split: if_splits)
  qed
qed

lemma inv_observe_close:
  assumes "inv (Reported i) w" and "section_ok (Reported i) (currentTurnID w)"
  shows "inv Unlocked (observe_close i w)"
  using assms by (auto simp: observe_close_def section_ok_def close_mark_def intro!: inv_emit_idle inv_closed)

lemma inv_emitObserved:
  "inv c w \<Longrightarrow> section_ok c (currentTurnID w) \<Longrightarrow> emitObserved h c w = (w', c') \<Longrightarrow> inv c' w'"
  by (cases c)
     (auto simp: emitObserved_def dest: inv_observe_check inv_observe_emit inv_observe_close)

lemma inv_emitProviderObserved:
  assumes "inv Unlocked w" and "\<not> isTurnTerminal kind" and "kind \<noteq> KindTurnStarted"
  shows "inv Unlocked (emitProviderObserved h kind p w)"
proof (cases "isTurnInternal kind")
  case True
  then obtain t where "currentTurnID (ensure_turn True w) = Some t"
    using ensure_turn_Some [of True w] by auto
  with True assms(1) show ?thesis
    by (simp add: emitProviderObserved_def Let_def scoped_turn_internal inv_internal inv_ensure)
next
  case False
  then show ?thesis
    using assms by (simp add: emitProviderObserved_def Let_def neutral_def inv_neutral)
qed

lemma inv_translate_frame:
  assumes "inv Unlocked w" and "translate_frame h ev w = (w', c)"
  shows "inv c w'"
  using assms
  by (auto simp: translate_frame_def observe_open_def Let_def inv_usage
      split: if_splits option.splits intro!: inv_opened inv_ensure)

lemma inv_flush:
  assumes "inv Unlocked w"
  shows "inv Unlocked (flushOpenTurn code err w)"
proof (cases "currentTurnID w")
  case None
  then show ?thesis using assms by (simp add: flushOpenTurn_def inv_usage)
next
  case (Some t)
  let ?m = "[(''error'', VStr ''wrapper: process exited before the turn completed''),
      (''reason'', VStr ''process_exited''), (''stop_reason'', VStr ''error''), (''exit_code'', VInt code)] @
      (case err of None \<Rightarrow> [] | Some e \<Rightarrow> [(''wait_error'', VStr e)])"
  let ?p = "withTurnUsage (PMap ?m) (turnUsage w)"
  have "inv (Decided KindTurnFailed ?p undefined) w"
    by (rule inv_decided [OF inv_opened [OF assms]]) (simp add: flush_payload_says_why)
  from inv_closed [OF inv_reported [OF this Some]]
  have "inv Unlocked ((emit KindTurnFailed ?p (Some t) None None w)
      \<lparr>currentTurnID := None, marks := closed_turn t (marks w)\<rparr>)"
    by (simp add: isTurnTerminal_def)
  also have "(emit KindTurnFailed ?p (Some t) None None w)
      \<lparr>currentTurnID := None, marks := closed_turn t (marks w)\<rparr> =
      emit KindTurnFailed ?p (Some t) None None (close_open_turn w)"
    using Some by (simp add: emit_def close_open_turn_def close_mark_def)
  finally show ?thesis
    using Some by (simp add: flushOpenTurn_def Let_def inv_emit_idle inv_usage)
qed

lemma inv_permission_open: "inv Unlocked w \<Longrightarrow> inv Unlocked (fst (permission_turn_open w))"
  by (simp add: permission_turn_open_def Let_def inv_ensure)

end

subsection \<open>Runs\<close>

fun fn_ok :: "'f typed_fn \<Rightarrow> bool" where
  "fn_ok (EmitTyped kind p) = (\<not> isTurnTerminal kind \<and> kind \<noteq> KindTurnStarted)"
| "fn_ok (EmitPermission i p q) = True"

text \<open>What every run keeps, whatever the events: how the goroutines stand to each other.\<close>

definition shape :: "'f run \<Rightarrow> bool" where
  "shape s \<longleftrightarrow> (\<forall>f \<in> set (items s). fn_ok f) \<and> translator s \<noteq> Sends \<and>
     (fan_closed s \<longrightarrow> reader s \<noteq> Sends) \<and>
     (\<forall>t i p q. reader s = Resolves t i p q \<longrightarrow> late s) \<and>
     (\<forall>t i p q. translator s = Resolves t i p q \<longrightarrow> late s \<or> currentTurnID (wrap s) = Some t) \<and>
     (phase s \<noteq> Running \<longrightarrow> translator s = Free \<and> fan_closed s \<and> fanout s = []) \<and>
     section_ok (turn_mu s) (currentTurnID (wrap s)) \<and>
     (turn_mu s \<noteq> Unlocked \<longrightarrow> translator s = Free \<and> phase s = Running) \<and>
     (phase s = Flushed \<or> phase s = Exited \<longrightarrow> late s \<or> currentTurnID (wrap s) = None)"

lemma typed_callback_ok: "typed_callback now ev = Some f \<Longrightarrow> fn_ok f"
  by (auto simp: typed_callback_def dest: translateProviderEvent_kind)

lemma request_hook_ok: "request_hook posture method ps outcome w = (w', f) \<Longrightarrow> fn_ok f"
  by (auto simp: request_hook_def Let_def new_event_id_def)

lemma request_hook_wrap:
  "request_hook posture method ps outcome w = (w', f) \<Longrightarrow> w' = fst (new_event_id w)"
  by (auto simp: request_hook_def Let_def new_event_id_def)

lemma new_event_id_turn [simp]: "currentTurnID (fst (new_event_id w)) = currentTurnID w"
  by (simp add: new_event_id_def)

lemma run_typed_resolves:
  "run_typed h f w = (w', Resolves t i p q) \<Longrightarrow> currentTurnID w' = Some t"
  using ensure_turn_Some [of True w]
  by (auto simp: run_typed_def permission_turn_open_def Let_def split: typed_fn.splits)

lemma run_typed_no_send: "run_typed h f w = (w', r) \<Longrightarrow> r \<noteq> Sends"
  by (auto simp: run_typed_def Let_def split: typed_fn.splits prod.splits)

lemma permission_emit_turn [simp]: "currentTurnID (permission_emit t i p q w) = currentTurnID w"
  by (simp add: permission_emit_def)

lemma flush_turn [simp]: "currentTurnID (flushOpenTurn code err w) = None"
  by (auto simp: flushOpenTurn_def emit_idle_def Let_def split: option.split)

lemma section_ok_Unlocked [simp]: "section_ok Unlocked cur"
  by (simp add: section_ok_def)

lemma emit_policy_turn [simp]: "currentTurnID (emit_policy h ev i w) = currentTurnID w"
  by (simp add: emit_policy_def split: option.split)

lemma translate_frame_section:
  assumes "translate_frame h ev w = (w', c)"
  shows "section_ok c (currentTurnID w')"
proof (cases "translateStreamEvent (filterStreamEvent h ev)")
  case None
  with assms show ?thesis by (auto simp: translate_frame_def split: if_splits)
next
  case (Some kp)
  then obtain kind p where kp: "translateStreamEvent (filterStreamEvent h ev) = Some (kind, p)"
    by (cases kp) simp
  have "section_ok (Opened kind (filterPayload h kind p) ev') (currentTurnID (ensure_turn True w))" for ev'
    using translateStreamEvent_kind [OF kp] translateStreamEvent_map [OF kp] ensure_turn_Some [of True w]
    by (auto simp: section_ok_def)
  with assms kp translateStreamEvent_kind [OF kp] show ?thesis
    by (auto simp: translate_frame_def observe_open_def split: if_splits)
qed

lemma emitObserved_section:
  "section_ok c (currentTurnID w) \<Longrightarrow> emitObserved h c w = (w', c') \<Longrightarrow> section_ok c' (currentTurnID w')"
  by (cases c)
     (auto simp: emitObserved_def observe_check_def observe_emit_def observe_close_def section_ok_def
       Let_def new_event_id_def split: if_splits)

lemma shape_init: "shape new_run"
  by (simp add: shape_def new_run_def)

lemma shape_step: "run_step h s s' \<Longrightarrow> shape s \<Longrightarrow> shape s'"
proof (induction rule: run_step.induct)
  case (stream s ev)
  then show ?case by (auto simp: shape_def send_stream_def)
next
  case (typed s now ev f)
  then show ?case by (auto simp: shape_def enqueue_def dest: typed_callback_ok)
next
  case (request s posture rpc ps outcome w f)
  then show ?case
    by (auto simp: shape_def enqueue_def dest: request_hook_ok request_hook_wrap)
next
  case (marker s)
  then show ?case by (auto simp: shape_def send_marker_def)
next
  case (typed_refused s now ev f)
  then show ?case
    by (auto simp: shape_def refuse_def dest: run_typed_no_send split: prod.split)
next
  case (request_refused s posture rpc ps outcome w f)
  then show ?case
    by (auto simp: shape_def refuse_def dest: run_typed_no_send split: prod.split)
next
  case (translate s)
  then show ?case
    by (auto simp: shape_def translate_next_def dest: run_typed_no_send run_typed_resolves
        translate_frame_section split: list.splits fan_item.splits prod.splits)
next
  case (observe s)
  then show ?case
    by (auto simp: shape_def observe_next_def dest: emitObserved_section split: prod.splits)
next
  case (cancel_done k s i t err)
  then show ?case by (auto simp: shape_def interrupt_done_def Let_def)
qed (auto simp: shape_def in_wrap_def close_fanout_def interrupt_request_def interrupt_mark_def
    new_event_id_def markOpen_def)

lemma shape_reach: "run_reach h s s' \<Longrightarrow> shape s \<Longrightarrow> shape s'"
  by (induction rule: run_reach.induct) (auto intro: shape_step)

lemma late_step: "run_step h s s' \<Longrightarrow> late s \<Longrightarrow> late s'"
  by (induction rule: run_step.induct)
     (auto simp: send_stream_def enqueue_def send_marker_def refuse_def translate_next_def observe_next_def
       in_wrap_def close_fanout_def interrupt_request_def interrupt_mark_def interrupt_done_def Let_def new_event_id_def
       markOpen_def split: list.splits fan_item.splits prod.splits)

text \<open>
  An invariant of runs. \<open>anywhere\<close> says that it also survives the permission events that
  a refused report emits after its turn has gone.
\<close>

locale run_invariant = turn_invariant inv for inv :: "'f turn_section \<Rightarrow> 'f wrap \<Rightarrow> bool" +
  fixes anywhere :: bool
  assumes inv_mark: "inv c w \<Longrightarrow> inv c (w\<lparr>marks := fst (markOpen (marks w))\<rparr>)"
    and inv_unmark: "inv c w \<Longrightarrow>
      inv c (emit KindInterruptAcknowledged (interrupt_ack t (Some e)) None None (Some i)
             (w\<lparr>marks := unmark t (marks w)\<rparr>))"
    and inv_permission: "anywhere \<Longrightarrow> inv c w \<Longrightarrow> inv c (permission_emit k i p q w)"
begin

lemma inv_run_typed: "inv Unlocked w \<Longrightarrow> fn_ok f \<Longrightarrow> inv Unlocked (fst (run_typed h f w))"
  by (cases f)
     (simp_all add: run_typed_def inv_emitProviderObserved permission_turn_open_def Let_def inv_ensure)

lemma inv_resolves:
  assumes "inv c w" and "anywhere \<or> currentTurnID w = Some k"
  shows "inv c (permission_emit k i p q w)"
  using assms by (auto simp: permission_emit_def inv_internal intro: inv_permission [unfolded permission_emit_def])

lemma inv_step:
  assumes "run_step h s s'" and "inv (turn_mu s) (wrap s)" and "shape s" and "anywhere \<or> \<not> late s'"
  shows "inv (turn_mu s') (wrap s')"
  using assms
proof (induction rule: run_step.induct)
  case (request s posture rpc ps outcome w f)
  then show ?case
    using request_hook_wrap [OF request.hyps(3)] inv_new_event_id [of "turn_mu s" "wrap s"] by (simp add: enqueue_def)
next
  case (typed_refused s now ev f)
  then show ?case
    using inv_run_typed [of "wrap s" f h] by (auto simp: refuse_def typed_callback_ok split: prod.split)
next
  case (request_refused s posture rpc ps outcome w f)
  then show ?case
    using inv_run_typed [of w f h] inv_new_event_id [of Unlocked "wrap s"]
    by (auto simp: refuse_def request_hook_ok dest: request_hook_wrap split: prod.split)
next
  case (reader_resolves s t i p q)
  then show ?case by (auto simp: in_wrap_def shape_def intro!: inv_resolves)
next
  case (translate s)
  then show ?case
    using inv_run_typed [of "wrap s" "hd (items s)" h]
    by (auto simp: translate_next_def shape_def dest: inv_translate_frame
        split: list.splits fan_item.splits prod.splits)
next
  case (observe s)
  then show ?case
    by (auto simp: observe_next_def shape_def dest: inv_emitObserved split: prod.splits)
next
  case (flush s code err)
  then show ?case by (auto simp: shape_def in_wrap_def inv_flush)
next
  case (translator_resolves s t i p q)
  then show ?case by (auto simp: in_wrap_def shape_def intro!: inv_resolves)
next
  case (cancel_turn s)
  then show ?case
    by (simp add: interrupt_request_def new_event_id_def KindInterruptRequested_def inv_neutral inv_ids)
next
  case (cancel_mark k s i)
  then show ?case using inv_mark [of "turn_mu s" "wrap s"] by (simp add: interrupt_mark_def markOpen_def)
next
  case (cancel_done k s i t err)
  then show ?case
    using inv_unmark [of "turn_mu s" "wrap s" t _ i]
    by (cases err) (auto simp: interrupt_done_def KindInterruptAcknowledged_def inv_neutral)
qed (auto simp: send_stream_def enqueue_def send_marker_def in_wrap_def close_fanout_def
    inv_flush inv_neutral KindInterruptAcknowledged_def)

end

subsection \<open>Frames\<close>

text \<open>
  Reading the emitted events from the start: which turn is open and which id comes next,
  or \<open>None\<close> where an event does not fit: a turn that starts while one is open, an event
  of a turn that is not the open one, an end without a turn.
\<close>

definition frame_next :: "nat option \<times> nat \<Rightarrow> 'f out \<Rightarrow> (nat option \<times> nat) option" where
  "frame_next acc e =
     (let (cur, n) = acc in
      if o_Kind e = KindTurnStarted
      then (if cur = None \<and> o_Turn e = Some n then Some (Some n, Suc n) else None)
      else if isTurnTerminal (o_Kind e)
      then (if cur \<noteq> None \<and> o_Turn e = cur then Some (None, n) else None)
      else if isTurnInternal (o_Kind e)
      then (if cur \<noteq> None \<and> o_Turn e = cur then Some (cur, n) else None)
      else Some (cur, n))"

fun frames :: "nat option \<times> nat \<Rightarrow> 'f out list \<Rightarrow> (nat option \<times> nat) option" where
  "frames acc [] = Some acc"
| "frames acc (e # es) = (case frame_next acc e of None \<Rightarrow> None | Some acc' \<Rightarrow> frames acc' es)"

definition framed :: "'f wrap \<Rightarrow> bool" where
  "framed w \<longleftrightarrow> frames (None, 0) (emitted w) = Some (currentTurnID w, turnIDs w)"

lemma frames_append:
  "frames acc (es @ es') = (case frames acc es of None \<Rightarrow> None | Some acc' \<Rightarrow> frames acc' es')"
  by (induction es arbitrary: acc) (auto split: option.split)

lemma framed_emit:
  "framed w \<Longrightarrow>
   frames (None, 0) (emitted (emit k p t i j w)) =
     frame_next (currentTurnID w, turnIDs w) \<lparr>o_Kind = k, o_Payload = p, o_Turn = t, o_ID = i, o_Parent = j\<rparr>"
  by (simp add: framed_def frames_append split: option.split)

interpretation framed: run_invariant "\<lambda>_. framed" False
proof unfold_locales
  fix w :: "'f wrap" and u n
  show "framed w \<Longrightarrow> framed (w\<lparr>turnUsage := u, eventIDs := n\<rparr>)" by (simp add: framed_def)
next
  fix w :: "'f wrap" and kind p turn i j
  assume "framed w" and "neutral kind"
  then show "framed (emit kind p turn i j w)"
    using framed_emit [of w kind p turn i j] by (simp add: framed_def frame_next_def neutral_def)
next
  fix w :: "'f wrap"
  assume "framed w" and "currentTurnID w = None"
  then show "framed (start_turn w)"
    by (simp add: framed_def start_turn_def Let_def frames_append frame_next_def
        KindSessionProcessing_def)
next
  fix w :: "'f wrap" and kind p t i j
  assume "framed w" and "currentTurnID w = Some t" and "isTurnInternal kind"
  then show "framed (emit kind p (Some t) i j w)"
    using framed_emit [of w kind p "Some t" i j] isTurnInternal_not_terminal [of kind]
    by (auto simp: framed_def frame_next_def)
next
  fix w :: "'f wrap" and kind p t i j
  assume "framed w" and "currentTurnID w = Some t" and "isTurnTerminal kind"
  then show "framed ((emit kind p (Some t) i j w)\<lparr>currentTurnID := None\<rparr>)"
    using framed_emit [of w kind p "Some t" i j]
    by (auto simp: framed_def frame_next_def isTurnTerminal_def)
next
  fix w :: "'f wrap" and t
  show "framed w \<Longrightarrow> framed (w\<lparr>marks := closed_turn t (marks w)\<rparr>)" by (simp add: framed_def)
next
  fix w :: "'f wrap"
  show "framed w \<Longrightarrow> framed (w\<lparr>marks := fst (markOpen (marks w))\<rparr>)" by (simp add: framed_def)
next
  fix w :: "'f wrap" and t e i
  show "framed w \<Longrightarrow> framed (emit KindInterruptAcknowledged (interrupt_ack t (Some e)) None None (Some i)
      (w\<lparr>marks := unmark t (marks w)\<rparr>))"
    by (simp add: framed_def frames_append frame_next_def KindInterruptAcknowledged_def)
qed simp_all

subsection \<open>Marks\<close>

text \<open>
  The mark follows the open turn, until \<open>closed\<close> also after its end was emitted; and a turn
  that was reported over is not open.
\<close>

definition marked_turn :: "'f turn_section \<Rightarrow> 'f wrap \<Rightarrow> nat option" where
  "marked_turn c w = (case c of Reported i \<Rightarrow> i | _ \<Rightarrow> currentTurnID w)"

definition marks_ok :: "'f turn_section \<Rightarrow> 'f wrap \<Rightarrow> bool" where
  "marks_ok c w \<longleftrightarrow> open_turn (marks w) = marked_turn c w \<and>
     (\<forall>i. c = Reported i \<longrightarrow> currentTurnID w = None) \<and>
     (\<forall>t. currentTurnID w = Some t \<longrightarrow> t < turnIDs w) \<and>
     (\<forall>e \<in> set (emitted w). isTurnTerminal (o_Kind e) \<longrightarrow>
        (\<exists>t. o_Turn e = Some t \<and> t < turnIDs w \<and> currentTurnID w \<noteq> Some t))"

lemma marked_turn_simps [simp]:
  "marked_turn Unlocked w = currentTurnID w" "marked_turn (Opened k p ev) w = currentTurnID w"
  "marked_turn (Decided k p ev) w = currentTurnID w" "marked_turn (Reported i) w = i"
  by (simp_all add: marked_turn_def)

lemma marked_turn_cong: "currentTurnID w' = currentTurnID w \<Longrightarrow> marked_turn c w' = marked_turn c w"
  by (cases c) simp_all

lemma marks_ok_cong:
  "currentTurnID w' = currentTurnID w \<Longrightarrow> open_turn (marks w') = open_turn (marks w) \<Longrightarrow>
   turnIDs w' = turnIDs w \<Longrightarrow> emitted w' = emitted w \<Longrightarrow> marks_ok c w \<Longrightarrow> marks_ok c w'"
  by (simp add: marks_ok_def marked_turn_cong [of w' w])

lemma closed_turn_open [simp]: "open_turn m = Some t \<Longrightarrow> open_turn (closed_turn t m) = None"
  by (simp add: closed_turn_def Let_def)

lemma unmark_open [simp]: "open_turn (unmark t m) = open_turn m"
  by (simp add: unmark_def)

lemma terminal_not_start: "isTurnTerminal k \<Longrightarrow> k \<noteq> KindTurnStarted \<and> k \<noteq> KindOther x"
  by (auto simp: isTurnTerminal_def)

lemma marks_ok_emit:
  "marks_ok c w \<Longrightarrow> \<not> isTurnTerminal k \<Longrightarrow> marks_ok c (emit k p t i j w)"
  by (simp add: marks_ok_def marked_turn_cong [of "emit k p t i j w" w])

interpretation marks: run_invariant marks_ok True
proof unfold_locales
  fix c and w :: "'f wrap" and u n
  show "marks_ok c w \<Longrightarrow> marks_ok c (w\<lparr>turnUsage := u, eventIDs := n\<rparr>)"
    by (rule marks_ok_cong [of _ w]) simp_all
next
  fix c and w :: "'f wrap" and kind p turn i j
  show "marks_ok c w \<Longrightarrow> neutral kind \<Longrightarrow> marks_ok c (emit kind p turn i j w)"
    by (simp add: marks_ok_emit neutral_def)
next
  fix w :: "'f wrap"
  show "marks_ok Unlocked w \<Longrightarrow> currentTurnID w = None \<Longrightarrow> marks_ok Unlocked (start_turn w)"
    by (fastforce simp: marks_ok_def start_turn_def Let_def opened_def KindSessionProcessing_def
        isTurnTerminal_def)
next
  fix c and w :: "'f wrap" and kind p t i j
  show "marks_ok c w \<Longrightarrow> currentTurnID w = Some t \<Longrightarrow> isTurnInternal kind \<Longrightarrow>
      marks_ok c (emit kind p (Some t) i j w)"
    by (simp add: marks_ok_emit isTurnInternal_not_terminal)
next
  fix w :: "'f wrap" and kind p ev t i j
  show "marks_ok (Decided kind p ev) w \<Longrightarrow> currentTurnID w = Some t \<Longrightarrow> isTurnTerminal kind \<Longrightarrow>
      marks_ok (Reported (Some t)) ((emit kind p (Some t) i j w)\<lparr>currentTurnID := None\<rparr>)"
    by (fastforce simp: marks_ok_def)
next
  fix w :: "'f wrap" and t
  show "marks_ok (Reported (Some t)) w \<Longrightarrow> currentTurnID w = None \<Longrightarrow>
      marks_ok Unlocked (w\<lparr>marks := closed_turn t (marks w)\<rparr>)"
    by (simp add: marks_ok_def)
next
  fix c and w :: "'f wrap"
  show "marks_ok c w \<Longrightarrow> marks_ok c (w\<lparr>marks := fst (markOpen (marks w))\<rparr>)"
    by (rule marks_ok_cong [of _ w]) (simp_all add: markOpen_def)
next
  fix c and w :: "'f wrap" and t e i
  show "marks_ok c w \<Longrightarrow> marks_ok c (emit KindInterruptAcknowledged (interrupt_ack t (Some e)) None None (Some i)
      (w\<lparr>marks := unmark t (marks w)\<rparr>))"
    by (rule marks_ok_emit, rule marks_ok_cong [of _ w])
       (simp_all add: KindInterruptAcknowledged_def isTurnTerminal_def)
next
  fix c and w :: "'f wrap" and k i p q
  show "marks_ok c w \<Longrightarrow> marks_ok c (permission_emit k i p q w)"
    by (simp add: permission_emit_def marks_ok_emit isTurnTerminal_def)
qed (simp_all add: marks_ok_def)

text \<open>
  After \<open>CancelTurn\<close> marked turn \<open>t\<close>, before its end was decided: its failure says why, or
  the interrupt failed.
\<close>

definition interrupt_failed :: "nat \<Rightarrow> 'f out list \<Rightarrow> bool" where
  "interrupt_failed t es \<longleftrightarrow> (\<exists>a \<in> set es. \<exists>e. o_Kind a = KindInterruptAcknowledged \<and>
     o_Payload a = interrupt_ack (Some t) (Some e))"

definition payload_made :: "'f turn_section \<Rightarrow> bool" where
  "payload_made c \<longleftrightarrow> (case c of Decided k p ev \<Rightarrow> True | _ \<Rightarrow> False)"

definition fails_without_reason :: "'f turn_section \<Rightarrow> bool" where
  "fails_without_reason c \<longleftrightarrow>
     (case c of Decided k p ev \<Rightarrow> k = KindTurnFailed \<and> \<not> says_why p | _ \<Rightarrow> False)"

definition told :: "nat \<Rightarrow> 'f turn_section \<Rightarrow> 'f wrap \<Rightarrow> bool" where
  "told t c w \<longleftrightarrow> marks_ok c w \<and> t < turnIDs w \<and> (\<not> interrupt_failed t (emitted w) \<longrightarrow>
     (currentTurnID w = Some t \<longrightarrow> interrupted (marks w) = Some t \<and> \<not> fails_without_reason c) \<and>
     (\<forall>e \<in> set (emitted w). o_Kind e = KindTurnFailed \<and> o_Turn e = Some t \<longrightarrow> says_why (o_Payload e)))"

lemma section_simps [simp]:
  "\<not> payload_made Unlocked" "\<not> payload_made (Opened k p ev)" "payload_made (Decided k p ev)" "\<not> payload_made (Reported i)"
  "\<not> fails_without_reason Unlocked" "\<not> fails_without_reason (Opened k p ev)"
  "\<not> fails_without_reason (Reported i)"
  "fails_without_reason (Decided k p ev) \<longleftrightarrow> k = KindTurnFailed \<and> \<not> says_why p"
  by (simp_all add: payload_made_def fails_without_reason_def)

lemma fails_payload_made: "fails_without_reason c \<Longrightarrow> payload_made c"
  by (cases c) simp_all

lemma interrupt_failed_append [simp]:
  "interrupt_failed t (es @ es') \<longleftrightarrow> interrupt_failed t es \<or> interrupt_failed t es'"
  by (auto simp: interrupt_failed_def)

lemma interrupt_failed_single:
  "interrupt_failed t [a] \<longleftrightarrow> (\<exists>e. o_Kind a = KindInterruptAcknowledged \<and>
     o_Payload a = interrupt_ack (Some t) (Some e))"
  by (simp add: interrupt_failed_def)

lemma told_emit:
  "told t c w \<Longrightarrow> \<not> isTurnTerminal k \<Longrightarrow> told t c (emit k p u i j w)"
  by (auto simp: told_def marks_ok_emit isTurnTerminal_def)

interpretation told: run_invariant "told t" True for t
proof unfold_locales
  fix c and w :: "'f wrap" and u n
  show "told t c w \<Longrightarrow> told t c (w\<lparr>turnUsage := u, eventIDs := n\<rparr>)"
    using marks.inv_fields [where c = c and w = w and u = u and n = n] by (auto simp: told_def)
next
  fix c and w :: "'f wrap" and kind p turn i j
  show "told t c w \<Longrightarrow> neutral kind \<Longrightarrow> told t c (emit kind p turn i j w)"
    by (simp add: told_emit neutral_def)
next
  fix w :: "'f wrap"
  assume "told t Unlocked w" and "currentTurnID w = None"
  then show "told t Unlocked (start_turn w)"
    using marks.inv_start [of w]
    by (auto simp: told_def start_turn_def Let_def opened_def KindSessionProcessing_def)
next
  fix c and w :: "'f wrap" and kind p u i j
  show "told t c w \<Longrightarrow> currentTurnID w = Some u \<Longrightarrow> isTurnInternal kind \<Longrightarrow>
      told t c (emit kind p (Some u) i j w)"
    by (simp add: told_emit isTurnInternal_not_terminal)
next
  fix w :: "'f wrap" and kind p ev
  show "told t Unlocked w \<Longrightarrow> told t (Opened kind p ev) w"
    using marks.inv_opened [of w kind p ev] by (auto simp: told_def)
next
  fix w :: "'f wrap" and kind ev and p q :: "'f payload"
  assume "told t (Opened kind p ev) w"
    and "kind = KindTurnFailed \<Longrightarrow> isInterrupted (currentTurnID w) (marks w) \<Longrightarrow> says_why q"
  then show "told t (Decided kind q ev) w"
    using marks.inv_decided [of kind p ev w q] by (auto simp: told_def isInterrupted_def)
next
  fix w :: "'f wrap" and kind p ev
  show "told t (Decided kind p ev) w \<Longrightarrow> told t Unlocked w"
    using marks.inv_unlock [of kind p ev w] by (auto simp: told_def)
next
  fix w :: "'f wrap" and kind p ev u i j
  show "told t (Decided kind p ev) w \<Longrightarrow> currentTurnID w = Some u \<Longrightarrow> isTurnTerminal kind \<Longrightarrow>
      told t (Reported (Some u)) ((emit kind p (Some u) i j w)\<lparr>currentTurnID := None\<rparr>)"
    using marks.inv_reported [of kind p ev w u i j] by (auto simp: told_def)
next
  fix w :: "'f wrap" and u
  show "told t (Reported (Some u)) w \<Longrightarrow> currentTurnID w = None \<Longrightarrow>
      told t Unlocked (w\<lparr>marks := closed_turn u (marks w)\<rparr>)"
    using marks.inv_closed [of u w] by (auto simp: told_def)
next
  fix c and w :: "'f wrap"
  assume "told t c w"
  then show "told t c (w\<lparr>marks := fst (markOpen (marks w))\<rparr>)"
    using marks.inv_mark [of c w]
    by (cases c) (auto simp: told_def markOpen_def marks_ok_def)
next
  fix c and w :: "'f wrap" and u e i
  assume "told t c w"
  then show "told t c (emit KindInterruptAcknowledged (interrupt_ack u (Some e)) None None (Some i)
      (w\<lparr>marks := unmark u (marks w)\<rparr>))"
    using marks.inv_unmark [of c w u e i]
    by (auto simp: told_def unmark_def interrupt_failed_single KindInterruptAcknowledged_def)
next
  fix c and w :: "'f wrap" and k i p q
  show "told t c w \<Longrightarrow> told t c (permission_emit k i p q w)"
    by (simp add: permission_emit_def told_emit isTurnTerminal_def)
qed

subsection \<open>Reachable states\<close>

lemma new_run_ok: "framed (wrap new_run)" "marks_ok (turn_mu new_run) (wrap new_run)"
  by (simp_all add: new_run_def new_wrap_def framed_def marks_ok_def)

lemma run_inv:
  "run_reach h s0 s \<Longrightarrow> s0 = new_run \<Longrightarrow>
   shape s \<and> marks_ok (turn_mu s) (wrap s) \<and> (\<not> late s \<longrightarrow> framed (wrap s))"
proof (induction rule: run_reach.induct)
  case (start s)
  then show ?case by (simp add: shape_init new_run_ok)
next
  case (step s s' s'')
  then have s': "shape s'" "marks_ok (turn_mu s') (wrap s')" "\<not> late s' \<longrightarrow> framed (wrap s')" by simp_all
  have "marks_ok (turn_mu s'') (wrap s'')"
    by (rule marks.inv_step [OF step.hyps(2) s'(2,1)]) simp
  moreover have "framed (wrap s'')" if "\<not> late s''"
    using framed.inv_step [OF step.hyps(2) _ s'(1)] s'(3) late_step [OF step.hyps(2)] that by blast
  ultimately show ?case using shape_step [OF step.hyps(2) s'(1)] by blast
qed

lemma told_reach:
  "run_reach h s s' \<Longrightarrow> told t (turn_mu s) (wrap s) \<Longrightarrow> shape s \<Longrightarrow>
   told t (turn_mu s') (wrap s') \<and> shape s'"
proof (induction rule: run_reach.induct)
  case (step s s' s'')
  then show ?case
    using told.inv_step [OF step.hyps(2)] shape_step [OF step.hyps(2)] by blast
qed simp

subsection \<open>The queue\<close>

text \<open>
  The abstract queue: what the channel and the typed queue stand for together. The k-th
  marker is the k-th function; a function whose marker is still to be sent comes last.
\<close>

fun pending :: "'f fan_item list \<Rightarrow> 'f typed_fn list \<Rightarrow> ('f frame + 'f typed_fn) list" where
  "pending [] fs = map Inr fs"
| "pending (Stream ev # xs) fs = Inl ev # pending xs fs"
| "pending (Marker # xs) [] = pending xs []"
| "pending (Marker # xs) (f # fs) = Inr f # pending xs fs"

definition markers :: "'f fan_item list \<Rightarrow> nat" where
  "markers xs = length (filter (\<lambda>x. x = Marker) xs)"

lemma markers_simps [simp]:
  "markers [] = 0" "markers (Stream ev # xs) = markers xs" "markers (Marker # xs) = Suc (markers xs)"
  "markers (xs @ ys) = markers xs + markers ys"
  by (simp_all add: markers_def)

lemma pending_stream:
  "length fs = markers xs \<Longrightarrow> pending (xs @ [Stream ev]) fs = pending xs fs @ [Inl ev]"
  by (induction xs fs rule: pending.induct) auto

lemma pending_enqueue:
  "length fs = markers xs \<Longrightarrow> pending xs (fs @ [f]) = pending xs fs @ [Inr f]"
  by (induction xs fs rule: pending.induct) auto

lemma pending_marker:
  "length fs = Suc (markers xs) \<Longrightarrow> pending (xs @ [Marker]) fs = pending xs fs"
  by (induction xs fs rule: pending.induct) (auto simp: length_Suc_conv)

definition queue_ok :: "'f run \<Rightarrow> bool" where
  "queue_ok s \<longleftrightarrow> reported s = handled s @ pending (fanout s) (items s) \<and>
     length (items s) = markers (fanout s) + (if reader s = Sends then 1 else 0)"

lemma queue_ok_step: "run_step h s s' \<Longrightarrow> shape s \<Longrightarrow> queue_ok s \<Longrightarrow> queue_ok s'"
proof (induction rule: run_step.induct)
  case (translate s)
  then show ?case
    by (auto simp: queue_ok_def translate_next_def split: list.splits fan_item.splits prod.splits)
next
  case (observe s)
  then show ?case by (auto simp: queue_ok_def observe_next_def split: prod.splits)
next
  case (typed_refused s now ev f)
  then show ?case
    by (auto simp: queue_ok_def refuse_def dest: run_typed_no_send split: prod.split)
next
  case (request_refused s posture rpc ps outcome w f)
  then show ?case
    by (auto simp: queue_ok_def refuse_def dest: run_typed_no_send split: prod.split)
qed (auto simp: queue_ok_def send_stream_def enqueue_def send_marker_def in_wrap_def close_fanout_def
    interrupt_request_def interrupt_mark_def interrupt_done_def new_event_id_def markOpen_def Let_def
    pending_stream pending_enqueue pending_marker)

lemma queue_ok_reach: "run_reach h s0 s \<Longrightarrow> s0 = new_run \<Longrightarrow> queue_ok s"
proof (induction rule: run_reach.induct)
  case (step s s' s'')
  then show ?case using queue_ok_step [OF step.hyps(2)] run_inv [OF step.hyps(1)] by blast
qed (simp add: queue_ok_def new_run_def)

subsection \<open>Properties\<close>

text \<open>
  C33. Native turns are framed. Whatever the session reports and however the goroutines
  interleave, as long as nothing is reported after the channel was closed, the emitted
  events read as turns: each starts under a new id with none open, every agent event
  names the open turn, and each ends exactly once; once the open turn was flushed (so at
  \<open>process.exited\<close>) none is left open.
\<close>

theorem native_turns_framed:
  assumes "run_reach h new_run s" and "\<not> late s"
  shows "frames (None, 0) (emitted (wrap s)) = Some (currentTurnID (wrap s), turnIDs (wrap s)) \<and>
    (phase s = Flushed \<or> phase s = Exited \<longrightarrow> currentTurnID (wrap s) = None)"
  using run_inv [OF assms(1) refl] assms(2) by (auto simp: framed_def shape_def)

text \<open>
  C34. Typed events keep their place. The channel with its markers and the queue of
  functions refine one first-in-first-out queue: what was handled, followed by what they
  still hold, is what the session reported, in that order; so when the translator is done
  everything that was reported has been handled once, in order.
\<close>

theorem typed_events_in_order:
  assumes "run_reach h new_run s"
  shows "reported s = handled s @ pending (fanout s) (items s) \<and>
    (phase s \<noteq> Running \<longrightarrow> handled s = reported s)"
proof -
  have q: "queue_ok s" by (rule queue_ok_reach [OF assms refl])
  have "shape s" using run_inv [OF assms refl] by simp
  with q show ?thesis by (auto simp: queue_ok_def shape_def)
qed

text \<open>
  C35. An interrupted turn says so. If \<open>CancelTurn\<close> marks the open turn before the translator
  has asked \<open>isInterrupted\<close> for the event that ends it, then every failure ever reported for
  that turn carries the reason \<open>interrupted\<close> (or \<open>process_exited\<close>, from the flush), whatever
  the goroutines do meanwhile and afterwards, unless an interrupt of that turn is
  acknowledged with an error.
\<close>

theorem interrupted_turn_says_why:
  assumes "run_reach h new_run s" and "currentTurnID (wrap s) = Some t"
    and "interrupted (marks (wrap s)) = Some t" and "\<not> payload_made (turn_mu s)" and "run_reach h s s'"
    and "e \<in> set (emitted (wrap s'))" and "o_Kind e = KindTurnFailed" and "o_Turn e = Some t"
  shows "says_why (o_Payload e) \<or> interrupt_failed t (emitted (wrap s'))"
proof -
  have inv: "shape s" "marks_ok (turn_mu s) (wrap s)" using run_inv [OF assms(1) refl] by simp_all
  then have "told t (turn_mu s) (wrap s)"
    using assms(2-4) fails_payload_made [of "turn_mu s"] by (fastforce simp: told_def marks_ok_def)
  with told_reach [OF assms(5)] inv(1) have "told t (turn_mu s') (wrap s')" by blast
  with assms(6-8) show ?thesis by (auto simp: told_def)
qed

text \<open>A decided failure is emitted and closes its turn, whatever mark was set meanwhile.\<close>

lemma decided_failure_closes:
  assumes mu: "turn_mu s = Decided KindTurnFailed p ev" and cur: "currentTurnID (wrap s) = Some t"
  shows "\<exists>s' rest. run_reach h s s' \<and> currentTurnID (wrap s') = None \<and>
    interrupted (marks (wrap s')) \<noteq> Some t \<and>
    emitted (wrap s') = emitted (wrap s) @ \<lparr>o_Kind = KindTurnFailed, o_Payload = p, o_Turn = Some t,
      o_ID = Some (eventIDs (wrap s)), o_Parent = None\<rparr> # rest"
proof -
  define s1 where "s1 = observe_next h s"
  define s2 where "s2 = observe_next h s1"
  note emits = s1_def observe_next_def emitObserved_def mu cur observe_emit_def new_event_id_def
    isTurnTerminal_def Let_def
  have r1: "turn_mu s1 = Reported (Some t)" "currentTurnID (wrap s1) = None" by (simp_all add: emits)
  have e1: "emitted (wrap s1) = emitted (wrap s) @ [\<lparr>o_Kind = KindTurnFailed, o_Payload = p, o_Turn = Some t,
      o_ID = Some (eventIDs (wrap s)), o_Parent = None\<rparr>]"
    by (simp add: emits scoped_turn_def isTurnScoped_def)
  have "wrap s2 = observe_close (Some t) (wrap s1)" by (simp add: s2_def observe_next_def emitObserved_def r1)
  moreover have "run_step h s s1" unfolding s1_def by (rule run_step.observe) (simp add: mu)
  moreover have "run_step h s1 s2" unfolding s2_def by (rule run_step.observe) (simp add: r1)
  moreover from calculation(2,3) have "run_reach h s s2" by (meson run_reach.start run_reach.step)
  ultimately show ?thesis
    using e1 r1(2) by (intro exI [of _ s2])
      (auto simp: observe_close_def emit_idle_def close_mark_def closed_turn_def Let_def)
qed

text \<open>
  C36. A cancel can come too late to be told and still be acknowledged. Once the translator
  has decided a failure without the reason, and has not yet closed the turn, \<open>CancelTurn\<close>
  still finds the turn open: there is a continuation in which its mark is set on that turn
  and wiped by \<open>closed\<close>, the interrupt is acknowledged for the turn without an error, and
  the turn is over with a \<open>turn.failed\<close> that does not say it was interrupted.
\<close>

theorem late_cancel_untold:
  assumes "run_reach h new_run s" and "turn_mu s = Decided KindTurnFailed p ev" and "\<not> says_why p"
    and "currentTurnID (wrap s) = Some t"
  shows "\<exists>s'. run_reach h s s' \<and> currentTurnID (wrap s') = None \<and>
    interrupted (marks (wrap s')) \<noteq> Some t \<and>
    (\<exists>a \<in> set (emitted (wrap s')). o_Kind a = KindInterruptAcknowledged \<and>
       o_Payload a = interrupt_ack (Some t) None) \<and>
    (\<exists>e \<in> set (emitted (wrap s')). o_Kind e = KindTurnFailed \<and> o_Turn e = Some t \<and>
       \<not> says_why (o_Payload e))"
proof -
  let ?n = "length (interrupts s)" and ?i = "eventIDs (wrap s)"
  have open_t: "open_turn (marks (wrap s)) = Some t"
    using run_inv [OF assms(1) refl] assms(2,4) by (simp add: marks_ok_def)
  define s1 where "s1 = interrupt_request s"
  define s2 where "s2 = interrupt_mark ?n ?i s1"
  define s3 where "s3 = interrupt_done ?n ?i (Some t) None s2"
  note defs = s1_def s2_def s3_def interrupt_request_def interrupt_mark_def interrupt_done_def
    new_event_id_def markOpen_def
  have i1: "interrupts s1 = interrupts s @ [IntRequested ?i]" by (simp add: defs)
  have i2: "interrupts s2 = interrupts s @ [IntMarked ?i (Some t)]" using open_t by (simp add: defs)
  have "run_step h s s1" unfolding s1_def by (rule run_step.cancel_turn)
  moreover have "run_step h s1 s2" unfolding s2_def by (rule run_step.cancel_mark) (simp_all add: i1)
  moreover have "run_step h s2 s3" unfolding s3_def by (rule run_step.cancel_done) (simp_all add: i2)
  ultimately have r3: "run_reach h s s3" by (meson run_reach.start run_reach.step)
  have "turn_mu s3 = Decided KindTurnFailed p ev" "currentTurnID (wrap s3) = Some t"
    using assms(2,4) by (simp_all add: defs Let_def)
  from decided_failure_closes [OF this, of h] obtain s' rest where s': "run_reach h s3 s'"
    "currentTurnID (wrap s') = None" "interrupted (marks (wrap s')) \<noteq> Some t"
    "emitted (wrap s') = emitted (wrap s3) @ \<lparr>o_Kind = KindTurnFailed, o_Payload = p, o_Turn = Some t,
      o_ID = Some (eventIDs (wrap s3)), o_Parent = None\<rparr> # rest" by blast
  moreover have "\<exists>a \<in> set (emitted (wrap s3)). o_Kind a = KindInterruptAcknowledged \<and>
      o_Payload a = interrupt_ack (Some t) None"
    by (simp add: s3_def interrupt_done_def)
  ultimately show ?thesis
    using assms(3) by (intro exI [of _ s'] conjI run_reach_trans [OF s'(1) r3]) auto
qed

subsection \<open>Witnesses\<close>

text \<open>
  Without filters or policy: the agent says something, the host cancels the turn, and the
  agent ends it with an error.
\<close>

definition ex_hooks :: "unit hooks" where
  "ex_hooks = \<lparr>Filters = None, PolicyObserver = None, provider = ''claude'',
     marshal_tool = (\<lambda>_. None), unmarshal_tool = (\<lambda>_. None), NormalizeStopReason = (\<lambda>x. x),
     add_cost = (\<lambda>x y. ())\<rparr>"

definition ex_frame :: "frame_type \<Rightarrow> unit frame" where
  "ex_frame ty = \<lparr>Type = ty, Content = ''hi'', BlockID = [], Phase = [], ToolUse = None,
     FrameError = ''stopped'', FrameSessionID = [], Thinking = None, Usage = None\<rparr>"

definition ex_reported :: "frame_type \<Rightarrow> unit run \<Rightarrow> unit run" where
  "ex_reported ty s = translate_next ex_hooks (send_stream (ex_frame ty) s)"

definition ex_run1 :: "unit run" where
  "ex_run1 = observe_next ex_hooks (observe_next ex_hooks (ex_reported EventDelta new_run))"

definition ex_run2 :: "unit run" where
  "ex_run2 = interrupt_mark 0 1 (interrupt_request ex_run1)"

definition ex_run3 :: "unit run" where
  "ex_run3 = observe_next ex_hooks (observe_next ex_hooks (observe_next ex_hooks
     (ex_reported EventError ex_run2)))"

text \<open>Here the error comes without a cancel, and the translator has decided its payload.\<close>

definition ex_run4 :: "unit run" where
  "ex_run4 = observe_next ex_hooks (ex_reported EventError ex_run1)"

lemma reported_reach:
  assumes "run_reach ex_hooks s0 s" and "reader s = Free" and "\<not> fan_closed s" and "fanout s = []"
    and "translator s = Free" and "turn_mu s = Unlocked"
  shows "run_reach ex_hooks s0 (ex_reported ty s)"
  unfolding ex_reported_def
proof (rule run_reach.step [OF run_reach.step [OF assms(1)]])
  show "run_step ex_hooks s (send_stream (ex_frame ty) s)"
    using assms by (intro run_step.stream) (simp_all add: fanout_cap_def)
  show "run_step ex_hooks (send_stream (ex_frame ty) s)
      (translate_next ex_hooks (send_stream (ex_frame ty) s))"
    using assms by (intro run_step.translate) (simp_all add: send_stream_def)
qed

lemma observe_reach:
  assumes "run_reach h s0 s"
  shows "run_reach h s0 (observe_next h s)"
proof (cases "turn_mu s = Unlocked")
  case True
  then have "observe_next h s = s" by (simp add: observe_next_def emitObserved_def)
  with assms show ?thesis by simp
qed (rule run_reach.step [OF assms run_step.observe])

lemma ex_run1_facts:
  "reader ex_run1 = Free" "\<not> fan_closed ex_run1" "fanout ex_run1 = []" "translator ex_run1 = Free"
  "turn_mu ex_run1 = Unlocked" "\<not> late ex_run1" "interrupts ex_run1 = []"
  "currentTurnID (wrap ex_run1) = Some 0" "turnIDs (wrap ex_run1) = 1" "eventIDs (wrap ex_run1) = 1"
  by code_simp+

lemma ex_run1_reach: "run_reach ex_hooks new_run ex_run1"
  unfolding ex_run1_def
  by (intro observe_reach reported_reach run_reach.start) (simp_all add: new_run_def)

lemma ex_run2_facts:
  "reader ex_run2 = Free" "\<not> fan_closed ex_run2" "fanout ex_run2 = []" "translator ex_run2 = Free"
  "turn_mu ex_run2 = Unlocked"
  "currentTurnID (wrap ex_run2) = Some 0" "interrupted (marks (wrap ex_run2)) = Some 0"
  by code_simp+

lemma ex_run2_reach: "run_reach ex_hooks new_run ex_run2"
proof (rule run_reach.step [OF run_reach.step [OF ex_run1_reach run_step.cancel_turn]])
  show "run_step ex_hooks (interrupt_request ex_run1) ex_run2"
    unfolding ex_run2_def
    by (rule run_step.cancel_mark)
       (simp_all add: interrupt_request_def new_event_id_def ex_run1_facts)
qed

lemma ex_run3_reach: "run_reach ex_hooks ex_run2 ex_run3"
  unfolding ex_run3_def
  by (intro observe_reach reported_reach run_reach.start) (simp_all add: ex_run2_facts)

lemma ex_run4_reach: "run_reach ex_hooks new_run ex_run4"
  unfolding ex_run4_def
  by (intro observe_reach reported_reach ex_run1_reach) (simp_all add: ex_run1_facts)

theorem native_turns_framed_witness:
  "frames (None, 0) (emitted (wrap ex_run1)) = Some (Some 0, 1)"
  using native_turns_framed [OF ex_run1_reach] by (simp add: ex_run1_facts)

theorem typed_events_in_order_witness:
  "reported ex_run1 = handled ex_run1 @ pending (fanout ex_run1) (items ex_run1)"
  using typed_events_in_order [OF ex_run1_reach] by blast

theorem interrupted_turn_says_why_witness:
  "\<exists>e \<in> set (emitted (wrap ex_run3)). o_Kind e = KindTurnFailed \<and>
     (says_why (o_Payload e) \<or> interrupt_failed 0 (emitted (wrap ex_run3)))"
proof -
  have "\<exists>e \<in> set (emitted (wrap ex_run3)). o_Kind e = KindTurnFailed \<and> o_Turn e = Some 0"
    by code_simp
  then obtain e where e: "e \<in> set (emitted (wrap ex_run3))" "o_Kind e = KindTurnFailed" "o_Turn e = Some 0"
    by blast
  have "\<not> payload_made (turn_mu ex_run2)" by (simp add: ex_run2_facts)
  with interrupted_turn_says_why [OF ex_run2_reach ex_run2_facts(6,7) _ ex_run3_reach e] e
  show ?thesis by blast
qed

lemma ex_run4_facts: "currentTurnID (wrap ex_run4) = Some 0" "fails_without_reason (turn_mu ex_run4)"
  by code_simp+

theorem late_cancel_untold_witness:
  "\<exists>s'. run_reach ex_hooks ex_run4 s' \<and> currentTurnID (wrap s') = None \<and>
     interrupted (marks (wrap s')) \<noteq> Some 0 \<and>
     (\<exists>a \<in> set (emitted (wrap s')). o_Kind a = KindInterruptAcknowledged \<and>
        o_Payload a = interrupt_ack (Some 0) None) \<and>
     (\<exists>e \<in> set (emitted (wrap s')). o_Kind e = KindTurnFailed \<and> o_Turn e = Some 0 \<and>
        \<not> says_why (o_Payload e))"
proof -
  obtain p ev where "turn_mu ex_run4 = Decided KindTurnFailed p ev" and "\<not> says_why p"
    using ex_run4_facts(2) by (cases "turn_mu ex_run4") auto
  then show ?thesis by (rule late_cancel_untold [OF ex_run4_reach _ _ ex_run4_facts(1)])
qed

text \<open>
  What a late report does: a tool result that the session reports after the flush opens a
  turn which nothing ends, even after \<open>process.exited\<close>.
\<close>

theorem late_report_leaves_turn_open:
  "\<exists>s. run_reach h new_run s \<and> phase s = Exited \<and> late s \<and> currentTurnID (wrap s) = Some 0"
proof -
  define s1 where "s1 = (close_fanout (new_run :: 'a run))\<lparr>phase := Drained\<rparr>"
  define s2 where "s2 = (in_wrap (flushOpenTurn 0 None) s1)\<lparr>phase := Flushed\<rparr>"
  define s3 where "s3 = (in_wrap (emit KindProcessExited (exit_payload 0 None) None None None) s2)
    \<lparr>phase := Exited\<rparr>"
  define f :: "'a typed_fn" where "f = the (typed_callback [] (TToolResult ''t'' False []))"
  note defs = s1_def s2_def s3_def new_run_def new_wrap_def close_fanout_def in_wrap_def flushOpenTurn_def
  have "run_reach h new_run s1"
    unfolding s1_def
    by (rule run_reach.step [OF run_reach.step [OF run_reach.start run_step.close_channel] run_step.drained])
       (simp_all add: new_run_def close_fanout_def)
  then have "run_reach h new_run s2"
    unfolding s2_def by (rule run_reach.step) (rule run_step.flush, simp add: s1_def)
  then have "run_reach h new_run s3"
    unfolding s3_def by (rule run_reach.step) (rule run_step.exited, simp add: s2_def)
  then have "run_reach h new_run (refuse h f s3)"
    by (rule run_reach.step)
       (rule run_step.typed_refused [where now = "[]" and ev = "TToolResult ''t'' False []"],
        simp_all add: defs f_def typed_callback_def)
  moreover have "phase (refuse h f s3) = Exited \<and> late (refuse h f s3) \<and>
      currentTurnID (wrap (refuse h f s3)) = Some 0"
    by (simp add: refuse_def run_typed_def f_def typed_callback_def emitProviderObserved_def
        ensure_turn_def defs exit_payload_def Let_def)
  ultimately show ?thesis by blast
qed

end
