(* ===== verification/Transport.thy ===== *)
theory Transport
  imports Prelude
begin

text \<open>
  \<open>acp/transport.go\<close>: the join of a client's protocol reader and its child process. The
  two producers report once each, at any time; \<open>Coordinate\<close> waits for them with two grace
  periods, which are nondeterministic choices here: a timer may fire whenever its select
  is reached. \<open>stops\<close> and \<open>kills\<close> count the calls of its two callbacks.
\<close>

subsection \<open>Results\<close>

record read_result =
  Malformed :: bool
  ReadErr :: "string option"

record process_result =
  ExitCode :: int
  ProcessErr :: "string option"

record termination_result =
  Read :: read_result
  Process :: process_result
  ProcessExpected :: bool
  ReadBeforeProcess :: bool
  Disconnected :: bool
  KilledAfterRead :: bool

definition ShouldEmitProcessExit :: "termination_result \<Rightarrow> bool" where
  "ShouldEmitProcessExit r =
     (if \<not> ProcessExpected r then False
      else if Malformed (Read r) then True
      else \<not> Disconnected r)"

subsection \<open>The coordinator\<close>

datatype coordinate_pc =
    CoordStart
  | CoordNeedRead
  | CoordGrace
  | CoordStopped
  | CoordKilled
  | CoordReturned

record transport =
  processExpected :: bool
  readDone :: "read_result option"
  readOnce :: bool
  processDone :: "process_result option"
  processOnce :: bool
  at :: coordinate_pc
  outcome :: termination_result
  stops :: nat
  kills :: nat

definition no_result :: "bool \<Rightarrow> termination_result" where
  "no_result expected = \<lparr>Read = \<lparr>Malformed = False, ReadErr = None\<rparr>,
     Process = \<lparr>ExitCode = 0, ProcessErr = None\<rparr>, ProcessExpected = expected,
     ReadBeforeProcess = False, Disconnected = False, KilledAfterRead = False\<rparr>"

definition NewTransportTermination :: "bool \<Rightarrow> transport" where
  "NewTransportTermination expected = \<lparr>processExpected = expected, readDone = None, readOnce = False,
     processDone = None, processOnce = False, at = CoordStart, outcome = no_result expected,
     stops = 0, kills = 0\<rparr>"

definition ReportRead :: "read_result \<Rightarrow> transport \<Rightarrow> transport" where
  "ReportRead r t = (if readOnce t then t else t\<lparr>readOnce := True, readDone := Some r\<rparr>)"

definition ReportProcess :: "process_result \<Rightarrow> transport \<Rightarrow> transport" where
  "ReportProcess p t = (if processOnce t then t else t\<lparr>processOnce := True, processDone := Some p\<rparr>)"

text \<open>Receiving from the two channels.\<close>

definition take_read :: "read_result \<Rightarrow> transport \<Rightarrow> transport" where
  "take_read r t = t\<lparr>readDone := None, outcome := (outcome t)\<lparr>Read := r\<rparr>\<rparr>"

definition take_process :: "process_result \<Rightarrow> transport \<Rightarrow> transport" where
  "take_process p t = t\<lparr>processDone := None, outcome := (outcome t)\<lparr>Process := p\<rparr>\<rparr>"

inductive coordinate :: "transport \<Rightarrow> transport \<Rightarrow> bool" where
  no_process: "at t = CoordStart \<Longrightarrow> \<not> processExpected t \<Longrightarrow> readDone t = Some r \<Longrightarrow>
    coordinate t ((take_read r t)\<lparr>at := CoordReturned\<rparr>)"
| process_first: "at t = CoordStart \<Longrightarrow> processExpected t \<Longrightarrow> processDone t = Some p \<Longrightarrow>
    coordinate t ((take_process p t)\<lparr>at := CoordNeedRead\<rparr>)"
| then_read: "at t = CoordNeedRead \<Longrightarrow> readDone t = Some r \<Longrightarrow>
    coordinate t ((take_read r t)\<lparr>at := CoordReturned\<rparr>)"
| read_first: "at t = CoordStart \<Longrightarrow> processExpected t \<Longrightarrow> readDone t = Some r \<Longrightarrow>
    coordinate t ((take_read r t)\<lparr>at := CoordGrace,
      outcome := (outcome (take_read r t))\<lparr>ReadBeforeProcess := True\<rparr>\<rparr>)"
| exited: "at t \<in> {CoordGrace, CoordStopped, CoordKilled} \<Longrightarrow> processDone t = Some p \<Longrightarrow>
    coordinate t ((take_process p t)\<lparr>at := CoordReturned\<rparr>)"
| grace_over: "at t = CoordGrace \<Longrightarrow>
    coordinate t (t\<lparr>at := CoordStopped, outcome := (outcome t)\<lparr>Disconnected := True\<rparr>, stops := Suc (stops t)\<rparr>)"
| kill: "at t = CoordStopped \<Longrightarrow>
    coordinate t (t\<lparr>at := CoordKilled, outcome := (outcome t)\<lparr>KilledAfterRead := True\<rparr>, kills := Suc (kills t)\<rparr>)"

inductive transport_step :: "transport \<Rightarrow> transport \<Rightarrow> bool" where
  report_read: "transport_step t (ReportRead r t)"
| report_process: "transport_step t (ReportProcess p t)"
| coordinate: "coordinate t t' \<Longrightarrow> transport_step t t'"

inductive transport_reach :: "transport \<Rightarrow> transport \<Rightarrow> bool" where
  start: "transport_reach t t"
| step: "transport_reach t t' \<Longrightarrow> transport_step t' t'' \<Longrightarrow> transport_reach t t''"

lemma transport_reach_trans:
  "transport_reach t' t'' \<Longrightarrow> transport_reach t t' \<Longrightarrow> transport_reach t t''"
  by (induction rule: transport_reach.induct) (auto intro: transport_reach.step)

subsection \<open>What holds on the way\<close>

text \<open>
  \<open>reported r p t\<close>: \<open>r\<close> and \<open>p\<close> are the first reports so far. Each is in its channel or
  already in the result.
\<close>

definition read_taken :: "transport \<Rightarrow> bool" where
  "read_taken t \<longleftrightarrow> at t \<in> {CoordGrace, CoordStopped, CoordKilled} \<or>
     at t = CoordReturned"

definition process_taken :: "transport \<Rightarrow> bool" where
  "process_taken t \<longleftrightarrow> at t = CoordNeedRead \<or> (at t = CoordReturned \<and> processExpected t)"

definition transport_ok :: "read_result option \<Rightarrow> process_result option \<Rightarrow> transport \<Rightarrow> bool" where
  "transport_ok r p t \<longleftrightarrow>
     (readOnce t \<longleftrightarrow> r \<noteq> None) \<and> (processOnce t \<longleftrightarrow> p \<noteq> None) \<and>
     (if read_taken t then r = Some (Read (outcome t)) \<and> readDone t = None else readDone t = r) \<and>
     (if process_taken t then p = Some (Process (outcome t)) \<and> processDone t = None else processDone t = p) \<and>
     ProcessExpected (outcome t) = processExpected t \<and>
     (at t \<in> {CoordNeedRead, CoordGrace, CoordStopped, CoordKilled} \<longrightarrow> processExpected t) \<and>
     (Disconnected (outcome t) \<longrightarrow> ReadBeforeProcess (outcome t) \<and> processExpected t) \<and>
     (KilledAfterRead (outcome t) \<longrightarrow> Disconnected (outcome t)) \<and>
     stops t = (if Disconnected (outcome t) then 1 else 0) \<and>
     kills t = (if KilledAfterRead (outcome t) then 1 else 0) \<and>
     (at t \<in> {CoordStart, CoordNeedRead, CoordGrace} \<longrightarrow> \<not> Disconnected (outcome t)) \<and>
     (at t \<in> {CoordStart, CoordNeedRead} \<longrightarrow> \<not> ReadBeforeProcess (outcome t)) \<and>
     (at t \<in> {CoordGrace, CoordStopped, CoordKilled} \<longrightarrow> ReadBeforeProcess (outcome t)) \<and>
     (at t = CoordStopped \<longrightarrow> Disconnected (outcome t) \<and> \<not> KilledAfterRead (outcome t)) \<and>
     (at t = CoordKilled \<longrightarrow> KilledAfterRead (outcome t))"

lemma transport_ok_new: "transport_ok None None (NewTransportTermination expected)"
  by (simp add: transport_ok_def NewTransportTermination_def no_result_def read_taken_def process_taken_def)

lemma transport_ok_coordinate: "coordinate t t' \<Longrightarrow> transport_ok r p t \<Longrightarrow> transport_ok r p t'"
  by (induction rule: coordinate.induct)
     (auto simp: transport_ok_def take_read_def take_process_def read_taken_def process_taken_def)

text \<open>The first report wins.\<close>

lemma transport_ok_read:
  "transport_ok r p t \<Longrightarrow> transport_ok (if r = None then Some x else r) p (ReportRead x t)"
  by (auto simp: transport_ok_def ReportRead_def read_taken_def process_taken_def split: if_splits)

lemma transport_ok_process:
  "transport_ok r p t \<Longrightarrow> transport_ok r (if p = None then Some x else p) (ReportProcess x t)"
  by (auto simp: transport_ok_def ReportProcess_def read_taken_def process_taken_def split: if_splits)

definition later :: "'a option \<Rightarrow> 'a option \<Rightarrow> bool" where
  "later x y \<longleftrightarrow> x = None \<or> x = y"

lemma transport_ok_reach:
  "transport_reach t t' \<Longrightarrow> transport_ok r p t \<Longrightarrow>
   \<exists>r' p'. transport_ok r' p' t' \<and> later r r' \<and> later p p'"
proof (induction rule: transport_reach.induct)
  case (step t t' t'')
  then obtain r' p' where ok: "transport_ok r' p' t'" "later r r'" "later p p'" by blast
  from step.hyps(2) show ?case
  proof cases
    case (report_read x)
    with ok transport_ok_read [OF ok(1), of x] show ?thesis by (auto simp: later_def split: if_splits)
  next
    case (report_process x)
    with ok transport_ok_process [OF ok(1), of x] show ?thesis by (auto simp: later_def split: if_splits)
  next
    case coordinate
    with ok transport_ok_coordinate show ?thesis by blast
  qed
qed (auto simp: later_def)

lemma expected_stable: "transport_reach t t' \<Longrightarrow> processExpected t' = processExpected t"
proof (induction rule: transport_reach.induct)
  case (step t t' t'')
  from step.hyps(2) have "processExpected t'' = processExpected t'"
    by cases (auto simp: ReportRead_def ReportProcess_def take_read_def take_process_def
        elim!: coordinate.cases)
  with step.IH show ?case by simp
qed simp

subsection \<open>Properties\<close>

text \<open>
  Termination is classified from joined facts. When \<open>Coordinate\<close> returns, its result
  holds the first report of the reader and, for a spawned child, the first report of the
  process; it stopped the child exactly when it calls it disconnected, and killed it
  exactly when it says so, which both need the reader to have ended first; and an exit is
  to be emitted exactly for a spawned child that was not disconnected, or whose stream was
  malformed.
\<close>

theorem termination_classified:
  assumes "transport_reach (NewTransportTermination expected) t"
    and "transport_reach (NewTransportTermination expected) t'" and "at t' = CoordReturned"
  shows "(\<not> readOnce t \<and> transport_reach (ReportRead x t) t' \<longrightarrow> Read (outcome t') = x) \<and>
    (expected \<and> \<not> processOnce t \<and> transport_reach (ReportProcess y t) t' \<longrightarrow> Process (outcome t') = y) \<and>
    (Disconnected (outcome t') \<longleftrightarrow> stops t' = 1) \<and> (KilledAfterRead (outcome t') \<longleftrightarrow> kills t' = 1) \<and>
    (kills t' = 1 \<longrightarrow> stops t' = 1) \<and> (stops t' = 1 \<longrightarrow> ReadBeforeProcess (outcome t') \<and> expected) \<and>
    (ShouldEmitProcessExit (outcome t') \<longleftrightarrow>
       expected \<and> (stops t' = 0 \<or> Malformed (Read (outcome t'))))"
proof -
  obtain r p where ok: "transport_ok r p t" using transport_ok_reach [OF assms(1) transport_ok_new] by blast
  obtain r' p' where ok': "transport_ok r' p' t'"
    using transport_ok_reach [OF assms(2) transport_ok_new] by blast
  have expected: "processExpected t' = expected"
    using expected_stable [OF assms(2)] by (simp add: NewTransportTermination_def)
  have "Read (outcome t') = x" if "\<not> readOnce t" "transport_reach (ReportRead x t) t'"
    using transport_ok_reach [OF that(2) transport_ok_read [OF ok]] that(1) ok assms(3)
    by (auto simp: transport_ok_def later_def read_taken_def)
  moreover have "Process (outcome t') = y"
    if "expected" "\<not> processOnce t" "transport_reach (ReportProcess y t) t'"
    using transport_ok_reach [OF that(3) transport_ok_process [OF ok]] that(1,2) ok assms(3) expected
    by (auto simp: transport_ok_def later_def process_taken_def)
  ultimately show ?thesis
    using ok' assms(3) expected
    by (auto simp: transport_ok_def ShouldEmitProcessExit_def)
qed

text \<open>
  \<open>Coordinate\<close> never gets stuck: once both producers have reported it can return, and it
  returns at its next receive whatever the timers do.
\<close>

lemma coordinate_progress:
  assumes "transport_ok r p t" and "r \<noteq> None" and "processExpected t \<longrightarrow> p \<noteq> None"
    and "at t \<noteq> CoordReturned"
  shows "\<exists>t'. coordinate t t' \<and> (at t' = CoordReturned \<or> at t' = CoordNeedRead \<or> at t' = CoordGrace)"
proof (cases "at t")
  case CoordStart
  then obtain x where "readDone t = Some x" using assms by (auto simp: transport_ok_def read_taken_def)
  with CoordStart show ?thesis
    by (cases "processExpected t") (fastforce intro: coordinate.no_process coordinate.read_first)+
next
  case CoordNeedRead
  then obtain x where "readDone t = Some x" using assms by (auto simp: transport_ok_def read_taken_def)
  with CoordNeedRead show ?thesis by (fastforce intro: coordinate.then_read)
next
  case CoordReturned
  with assms(4) show ?thesis by simp
qed (use assms in \<open>fastforce simp: transport_ok_def process_taken_def intro: coordinate.exited\<close>)+

subsection \<open>Witness\<close>

text \<open>A child that outlives its stream is stopped, and its exit is not reported.\<close>

definition ex_read :: read_result where "ex_read = \<lparr>Malformed = False, ReadErr = None\<rparr>"

definition ex_read_first :: transport where
  "ex_read_first = ReportRead ex_read (NewTransportTermination True)"

lemma ex_read_first_reach: "transport_reach (NewTransportTermination True) ex_read_first"
  unfolding ex_read_first_def by (rule transport_reach.step [OF transport_reach.start transport_step.report_read])

theorem termination_classified_witness:
  "\<exists>t. transport_reach ex_read_first t \<and> at t = CoordReturned \<and> stops t = 1 \<and>
     \<not> ShouldEmitProcessExit (outcome t)"
proof -
  let ?a = "(take_read ex_read ex_read_first)\<lparr>at := CoordGrace,
      outcome := (outcome (take_read ex_read ex_read_first))\<lparr>ReadBeforeProcess := True\<rparr>\<rparr>"
  let ?b = "?a\<lparr>at := CoordStopped, outcome := (outcome ?a)\<lparr>Disconnected := True\<rparr>, stops := Suc (stops ?a)\<rparr>"
  let ?p = "\<lparr>ExitCode = 0, ProcessErr = None\<rparr>"
  let ?c = "ReportProcess ?p ?b"
  let ?d = "(take_process ?p ?c)\<lparr>at := CoordReturned\<rparr>"
  note defs = ex_read_first_def ReportRead_def ReportProcess_def NewTransportTermination_def no_result_def
    take_read_def take_process_def
  have "coordinate ex_read_first ?a" by (rule coordinate.read_first) (simp_all add: defs)
  then have "transport_reach ex_read_first ?a"
    by (intro transport_reach.step [OF transport_reach.start] transport_step.coordinate)
  moreover have "coordinate ?a ?b" by (rule coordinate.grace_over) simp
  ultimately have "transport_reach ex_read_first ?b"
    by (blast intro: transport_reach.step transport_step.coordinate)
  then have "transport_reach ex_read_first ?c"
    by (rule transport_reach.step) (rule transport_step.report_process)
  moreover have "coordinate ?c ?d" by (rule coordinate.exited) (simp_all add: defs)
  ultimately have r: "transport_reach ex_read_first ?d"
    by (blast intro: transport_reach.step transport_step.coordinate)
  have "at ?d = CoordReturned" "stops ?d = 1" "\<not> Malformed (Read (outcome ?d))"
    by (simp_all add: defs ex_read_def)
  with termination_classified [OF transport_reach.start transport_reach_trans [OF r ex_read_first_reach]] r
  show ?thesis by auto
qed

end
