(* ===== verification/Stream_Lines.thy ===== *)
theory Stream_Lines
  imports Go_Strings "HOL-Library.Word"
begin

text \<open>
  \<open>wrapper/io_streams.go\<close>: the writer that turns a child's output into raw and line events.
  Its mutex makes a call of \<open>Write\<close> one step. \<open>process\<close> is the filter pipeline: kind,
  content and metadata to the repaired bytes, if it repaired any without an error.
\<close>

subsection \<open>The writer\<close>

datatype stream_out =
    RawChunk string "64 word"
  | LineOut string "64 word"

record stream_writer =
  event_name :: string
  channel :: string
  offset :: "64 word"
  lineBuf :: string
  outs :: "stream_out list"

definition newStreamWriter :: "string \<Rightarrow> string \<Rightarrow> stream_writer" where
  "newStreamWriter name ch = \<lparr>event_name = name, channel = ch, offset = 0, lineBuf = [], outs = []\<rparr>"

type_synonym pipeline = "(string \<Rightarrow> string \<Rightarrow> (string \<times> string) list \<Rightarrow> string option) option"

definition filterBytes :: "pipeline \<Rightarrow> stream_writer \<Rightarrow> string \<Rightarrow> string \<Rightarrow> string" where
  "filterBytes pl s kind b =
     (case pl of
        None \<Rightarrow> b
      | Some process \<Rightarrow>
          (case process kind b [(''event_kind'', event_name s), (''channel'', channel s)] of
             None \<Rightarrow> b
           | Some repaired \<Rightarrow> repaired))"

definition newline :: char where "newline = CHR 0x0A"

definition trim_cr :: "string \<Rightarrow> string" where
  "trim_cr line = (if line \<noteq> [] \<and> last line = CHR 0x0D then butlast line else line)"

text \<open>The loop over complete lines: the events and what stays in the buffer.\<close>

function line_loop :: "(string \<Rightarrow> string) \<Rightarrow> 64 word \<Rightarrow> string \<Rightarrow> stream_out list \<times> string" where
  "line_loop f start buf =
     (if newline \<in> set buf
      then (let line = takeWhile (\<lambda>c. c \<noteq> newline) buf;
                (os, left) = line_loop f (start + of_nat (length line) + 1) (drop (Suc (length line)) buf)
            in (LineOut (f (trim_cr line)) start # os, left))
      else ([], buf))"
  by auto

termination
  by (relation "measure (\<lambda>(f, start, buf). length buf)") (auto intro!: diff_less dest: length_pos_if_in_set)

declare line_loop.simps [simp del]

definition Write :: "pipeline \<Rightarrow> string \<Rightarrow> stream_writer \<Rightarrow> stream_writer" where
  "Write pl p s =
     (if p = [] then s
      else
        (let chunk_offset = offset s;
             raw = RawChunk (filterBytes pl s ''command_output'' p) chunk_offset;
             (os, left) = line_loop (filterBytes pl s ''command_output_line'') chunk_offset (lineBuf s @ p)
         in s\<lparr>offset := offset s + of_nat (length p), lineBuf := left, outs := outs s @ raw # os\<rparr>))"

subsection \<open>Reference\<close>

text \<open>Splitting a whole stream, one byte at a time: the complete lines and the rest.\<close>

fun split_lines :: "string \<Rightarrow> string \<Rightarrow> string list \<times> string" where
  "split_lines acc [] = ([], rev acc)"
| "split_lines acc (c # cs) =
     (if c = newline then (let (ls, r) = split_lines [] cs in (rev acc # ls, r))
      else split_lines (c # acc) cs)"

fun line_texts :: "stream_out list \<Rightarrow> string list" where
  "line_texts [] = []"
| "line_texts (LineOut t i # os) = t # line_texts os"
| "line_texts (RawChunk b i # os) = line_texts os"

fun raw_chunks :: "stream_out list \<Rightarrow> (string \<times> 64 word) list" where
  "raw_chunks [] = []"
| "raw_chunks (RawChunk b i # os) = (b, i) # raw_chunks os"
| "raw_chunks (LineOut t i # os) = raw_chunks os"

lemma texts_append [simp]: "line_texts (xs @ ys) = line_texts xs @ line_texts ys"
  by (induction xs rule: line_texts.induct) simp_all

lemma chunks_append [simp]: "raw_chunks (xs @ ys) = raw_chunks xs @ raw_chunks ys"
  by (induction xs rule: raw_chunks.induct) simp_all

lemma split_lines_acc:
  "split_lines acc cs = (case split_lines [] cs of
     ([], r) \<Rightarrow> ([], rev acc @ r) | (l # ls, r) \<Rightarrow> ((rev acc @ l) # ls, r))"
proof (induction cs arbitrary: acc)
  case (Cons c cs)
  show ?case
    using Cons [of "c # acc"] Cons [of "[c]"]
    by (auto split: prod.splits list.splits)
qed simp

lemma split_lines_append:
  "split_lines acc (xs @ ys) =
     (let (ls, r) = split_lines acc xs; (ls', r') = split_lines (rev r) ys in (ls @ ls', r'))"
  by (induction xs arbitrary: acc) (auto simp: Let_def split: prod.splits)

lemma split_lines_prefix:
  "newline \<notin> set xs \<Longrightarrow> split_lines acc (xs @ ys) = split_lines (rev xs @ acc) ys"
  by (induction xs arbitrary: acc) auto

lemma split_lines_rest: "newline \<notin> set acc \<Longrightarrow> newline \<notin> set (snd (split_lines acc cs))"
  by (induction cs arbitrary: acc) (simp_all add: split_def Let_def)

lemma line_loop_split:
  "line_texts (fst (line_loop f start buf)) = map (f \<circ> trim_cr) (fst (split_lines [] buf)) \<and>
   snd (line_loop f start buf) = snd (split_lines [] buf) \<and> raw_chunks (fst (line_loop f start buf)) = []"
proof (induction f start buf rule: line_loop.induct)
  case (1 f start buf)
  show ?case
  proof (cases "newline \<in> set buf")
    case True
    let ?line = "takeWhile (\<lambda>c. c \<noteq> newline) buf"
    have nl: "newline \<notin> set ?line" by (auto dest: set_takeWhileD)
    have "dropWhile (\<lambda>c. c \<noteq> newline) buf = newline # tl (dropWhile (\<lambda>c. c \<noteq> newline) buf)"
      using True hd_dropWhile [of "\<lambda>c. c \<noteq> newline" buf]
      by (cases "dropWhile (\<lambda>c. c \<noteq> newline) buf") (auto simp: dropWhile_eq_Nil_conv)
    then have "buf = ?line @ newline # drop (Suc (length ?line)) buf"
      by (metis append_take_drop_id dropWhile_eq_drop drop_Suc takeWhile_eq_take tl_drop)
    note buf = this
    have "split_lines [] buf = (let (ls, r) = split_lines [] (drop (Suc (length ?line)) buf) in (?line # ls, r))"
      by (subst buf) (simp add: split_lines_prefix [OF nl])
    with 1 [OF True refl] True show ?thesis
      by (simp add: line_loop.simps [of f start buf] Let_def split_def)
  next
    case False
    then show ?thesis
      using split_lines_prefix [of buf "[]" "[]"] by (simp add: line_loop.simps [of f start buf])
  qed
qed

subsection \<open>Chunks\<close>

lemma filterBytes_upd [simp]:
  "filterBytes pl (s\<lparr>offset := i, lineBuf := b, outs := os\<rparr>) = filterBytes pl s"
  by (simp add: filterBytes_def fun_eq_iff split: option.split)

definition writer_ok :: "pipeline \<Rightarrow> string \<Rightarrow> string \<Rightarrow> string list \<Rightarrow> stream_writer \<Rightarrow> bool" where
  "writer_ok pl name ch ps s \<longleftrightarrow>
     filterBytes pl s = filterBytes pl (newStreamWriter name ch) \<and>
     line_texts (outs s) =
       map (filterBytes pl (newStreamWriter name ch) ''command_output_line'' \<circ> trim_cr)
         (fst (split_lines [] (concat ps))) \<and>
     lineBuf s = snd (split_lines [] (concat ps)) \<and>
     offset s = of_nat (length (concat ps)) \<and>
     map fst (raw_chunks (outs s)) =
       map (filterBytes pl (newStreamWriter name ch) ''command_output'') (filter (\<lambda>p. p \<noteq> []) ps)"

lemma Write_ok:
  assumes "writer_ok pl name ch ps s"
  shows "writer_ok pl name ch (ps @ [p]) (Write pl p s)"
proof (cases "p = []")
  case True
  with assms show ?thesis by (simp add: writer_ok_def Write_def)
next
  case False
  let ?r = "snd (split_lines [] (concat ps))"
  have no_nl: "newline \<notin> set ?r" by (rule split_lines_rest) simp
  have "split_lines [] (?r @ p) = split_lines (rev ?r @ []) p" by (rule split_lines_prefix [OF no_nl])
  then have "split_lines [] (concat ps @ p) =
      (fst (split_lines [] (concat ps)) @ fst (split_lines [] (?r @ p)), snd (split_lines [] (?r @ p)))"
    by (simp add: split_lines_append Let_def split_def)
  with assms False show ?thesis
    using line_loop_split [of "filterBytes pl s ''command_output_line''" "offset s" "lineBuf s @ p"]
    by (simp add: writer_ok_def Write_def Let_def split_def)
qed

text \<open>
  C39. The lines do not depend on how the output was cut into writes. Whatever the chunks,
  the line events are the lines of the whole output, each without its carriage return,
  through the filter, the unfinished last line waits in the buffer, the raw events are the
  non-empty chunks through their filter, and the offset is the number of bytes written.
\<close>

theorem lines_independent_of_chunks:
  "line_texts (outs (fold (Write pl) ps (newStreamWriter name ch))) =
     map (filterBytes pl (newStreamWriter name ch) ''command_output_line'' \<circ> trim_cr)
       (fst (split_lines [] (concat ps))) \<and>
   lineBuf (fold (Write pl) ps (newStreamWriter name ch)) = snd (split_lines [] (concat ps)) \<and>
   offset (fold (Write pl) ps (newStreamWriter name ch)) = of_nat (length (concat ps)) \<and>
   map fst (raw_chunks (outs (fold (Write pl) ps (newStreamWriter name ch)))) =
     map (filterBytes pl (newStreamWriter name ch) ''command_output'') (filter (\<lambda>p. p \<noteq> []) ps)"
proof -
  have "writer_ok pl name ch ps (fold (Write pl) ps (newStreamWriter name ch))"
  proof (induction ps rule: rev_induct)
    case Nil
    show ?case by (simp add: writer_ok_def newStreamWriter_def)
  next
    case (snoc p ps)
    then show ?case using Write_ok by simp
  qed
  then show ?thesis by (simp add: writer_ok_def)
qed

end
