(* ===== verification/Sandbox.thy ===== *)
theory Sandbox
  imports Prelude
begin

text \<open>
  \<open>acp/sandbox.go\<close> and \<open>acpProtectedPolicy\<close> of \<open>wrapper/acp_lifecycle.go\<close>: confinement of a
  locally spawned ACP agent, and what is refused for one that is not. The sandbox library
  is the record \<open>library\<close>: its backend's capabilities and what applying a policy or a
  profile to the command returns. \<open>'p\<close> is the rest of a policy, which this code passes on.
  Instead of calling the host's callback the operations return what it is told.
\<close>

subsection \<open>Data\<close>

datatype confinement = ConfinementDisabled | ConfinementRequired | ConfinementOther string

record 'p policy =
  pol_ID :: string
  pol_Mode :: confinement
  pol_Backend :: string
  pol_rest :: 'p

datatype enforcement_state =
    EnforcementUnset | EnforcementFailed | EnforcementUnsupported | EnforcementConfigured
  | EnforcementApplied | EnforcementDisabled

record enforcement =
  PolicyID :: string
  PolicyMode :: confinement
  PolicyBackend :: string
  EState :: enforcement_state
  Diagnostics :: "string list"
  BackendGOOS :: string
  BackendReady :: bool
  Unsupported :: "string list"
  Disabled :: bool
  Enforced :: bool

definition no_enforcement :: enforcement where
  "no_enforcement = \<lparr>PolicyID = [], PolicyMode = ConfinementOther [], PolicyBackend = [],
     EState = EnforcementUnset, Diagnostics = [], BackendGOOS = [], BackendReady = False,
     Unsupported = [], Disabled = False, Enforced = False\<rparr>"

record profile =
  prof_ID :: string
  Net :: bool
  Subprocess :: bool
  HostFilesystem :: bool
  Protect :: "string list"

datatype apply_error = BackendUnavailable string | UnsupportedPolicy string | OtherError string

fun apply_error_text :: "apply_error \<Rightarrow> string" where
  "apply_error_text (BackendUnavailable m) = m"
| "apply_error_text (UnsupportedPolicy m) = m"
| "apply_error_text (OtherError m) = m"

record 'p library =
  goos :: string
  caps_Backend :: string
  caps_GOOS :: string
  caps_Supported :: bool
  caps_Capabilities :: "string list"
  CapWriteProtect :: string
  WithProtected :: "'p policy \<Rightarrow> string list \<Rightarrow> apply_error + 'p policy"
  ApplyResolved :: "'p policy \<Rightarrow> enforcement \<times> apply_error option"
  Apply :: "profile \<Rightarrow> string \<Rightarrow> apply_error option"
  AppliedOutcome :: "enforcement \<Rightarrow> enforcement"

record launch_command =
  lc_Binary :: string
  lc_Args :: "string list"

record 'p launch_params =
  Command :: "launch_command option"
  SandboxPolicy :: "'p policy option"
  ProtectedPaths :: "string list"
  Cwd :: string

text \<open>What an operation returned and told the callback.\<close>

record prepared =
  sb_outcome :: enforcement
  sb_err :: "apply_error option"
  sb_told :: "enforcement list"

subsection \<open>Launching\<close>

definition ResolveLaunchCommand ::
  "'p launch_params \<Rightarrow> string \<Rightarrow> string list \<Rightarrow> string + (string \<times> string list)" where
  "ResolveLaunchCommand ps defaultBinary defaultArgs =
     (case Command ps of
        None \<Rightarrow> Inr (defaultBinary, defaultArgs)
      | Some c \<Rightarrow>
          if lc_Binary c = [] then Inl ''acp: LaunchParams.Command.Binary is required''
          else Inr (lc_Binary c, lc_Args c))"

definition ProtectOnlyProfileID :: string where "ProtectOnlyProfileID = ''protect-control-plane''"

definition requiredPolicy :: "'p policy option \<Rightarrow> bool" where
  "requiredPolicy p = (case p of None \<Rightarrow> False | Some p \<Rightarrow> pol_Mode p \<noteq> ConfinementDisabled)"

fun add_paths :: "string list \<Rightarrow> string list \<Rightarrow> string list" where
  "add_paths acc [] = acc"
| "add_paths acc (path # paths) = add_paths (if path \<in> set acc then acc else acc @ [path]) paths"

definition protect_profile :: "'p launch_params \<Rightarrow> profile" where
  "protect_profile ps = \<lparr>prof_ID = ProtectOnlyProfileID, Net = True, Subprocess = True,
     HostFilesystem = True, Protect = add_paths [] (ProtectedPaths ps)\<rparr>"

definition protect_failed :: "enforcement \<Rightarrow> enforcement_state \<Rightarrow> apply_error \<Rightarrow> prepared" where
  "protect_failed out state e =
     (let out1 = out\<lparr>EState := state, Diagnostics := Diagnostics out @ [apply_error_text e]\<rparr>
      in \<lparr>sb_outcome = out1, sb_err = Some e, sb_told = [out1]\<rparr>)"

definition applyProtectOnly :: "'p library \<Rightarrow> 'p launch_params \<Rightarrow> prepared" where
  "applyProtectOnly lib ps =
     (let out = no_enforcement\<lparr>PolicyID := ProtectOnlyProfileID, PolicyMode := ConfinementRequired,
            PolicyBackend := caps_Backend lib, BackendGOOS := caps_GOOS lib,
            BackendReady := caps_Supported lib\<rparr>
      in if \<not> caps_Supported lib \<or> CapWriteProtect lib \<notin> set (caps_Capabilities lib)
         then protect_failed (out\<lparr>Unsupported := [CapWriteProtect lib]\<rparr>) EnforcementUnsupported
                (UnsupportedPolicy (''the '' @ caps_Backend lib @ '' backend on '' @ caps_GOOS lib @
                   '' cannot write-protect paths''))
         else (case Apply lib (protect_profile ps) (Cwd ps) of
                 Some e \<Rightarrow>
                   protect_failed out
                     (case e of OtherError m \<Rightarrow> EnforcementFailed | _ \<Rightarrow> EnforcementUnsupported) e
               | None \<Rightarrow>
                   \<lparr>sb_outcome = AppliedOutcome lib (out\<lparr>EState := EnforcementConfigured\<rparr>),
                    sb_err = None, sb_told = []\<rparr>))"

definition PrepareLaunchSandbox :: "'p library \<Rightarrow> 'p launch_params \<Rightarrow> prepared" where
  "PrepareLaunchSandbox lib ps =
     (if ProtectedPaths ps \<noteq> [] \<and> \<not> requiredPolicy (SandboxPolicy ps) then applyProtectOnly lib ps
      else case SandboxPolicy ps of
        None \<Rightarrow> \<lparr>sb_outcome = no_enforcement, sb_err = None, sb_told = []\<rparr>
      | Some p \<Rightarrow>
          (case (if ProtectedPaths ps \<noteq> [] then WithProtected lib p (ProtectedPaths ps) else Inr p) of
             Inl e \<Rightarrow>
               (let out = no_enforcement\<lparr>PolicyID := pol_ID p, PolicyMode := pol_Mode p,
                      PolicyBackend := pol_Backend p, EState := EnforcementFailed,
                      Diagnostics := [''protected paths: '' @ apply_error_text e],
                      BackendGOOS := goos lib\<rparr>
                in \<lparr>sb_outcome = out, sb_err = Some e, sb_told = [out]\<rparr>)
           | Inr p' \<Rightarrow>
               (case ApplyResolved lib p' of
                  (out, Some e) \<Rightarrow> \<lparr>sb_outcome = out, sb_err = Some e, sb_told = [out]\<rparr>
                | (out, None) \<Rightarrow> \<lparr>sb_outcome = out, sb_err = None, sb_told = []\<rparr>)))"

definition launchSandboxed :: "'p launch_params \<Rightarrow> bool" where
  "launchSandboxed ps \<longleftrightarrow> SandboxPolicy ps \<noteq> None \<or> ProtectedPaths ps \<noteq> []"

definition ReportLaunchSandboxStarted :: "'p launch_params \<Rightarrow> enforcement \<Rightarrow> enforcement list" where
  "ReportLaunchSandboxStarted ps out = (if launchSandboxed ps then [out] else [])"

definition ReportLaunchSandboxStartFailed ::
  "'p launch_params \<Rightarrow> enforcement \<Rightarrow> string option \<Rightarrow> enforcement list" where
  "ReportLaunchSandboxStartFailed ps out err =
     (if \<not> launchSandboxed ps then []
      else
        (let out1 = (if EState out = EnforcementApplied
                     then out\<lparr>EState := EnforcementConfigured, Enforced := False\<rparr> else out);
             out2 = (case err of None \<Rightarrow> out1
                     | Some e \<Rightarrow> out1\<lparr>Diagnostics := Diagnostics out1 @ [''process start failed: '' @ e]\<rparr>)
         in [out2]))"

text \<open>\<open>CheckRemoteSandbox\<close>: whether the launch is allowed, and what the callback is told.\<close>

definition CheckRemoteSandbox :: "'p library \<Rightarrow> 'p launch_params \<Rightarrow> bool \<times> enforcement list" where
  "CheckRemoteSandbox lib ps =
     (if \<not> launchSandboxed ps then (True, [])
      else
        (let out = no_enforcement\<lparr>BackendGOOS := goos lib\<rparr>;
             refuse = (\<lambda>out. (False, [out\<lparr>EState := EnforcementUnsupported,
               Diagnostics := Diagnostics out @
                 [''ACP endpoint is remote or pre-existing; this client cannot verify local OS confinement'']\<rparr>]))
         in case SandboxPolicy ps of
              Some p \<Rightarrow>
                (let named = out\<lparr>PolicyID := pol_ID p, PolicyMode := pol_Mode p, PolicyBackend := pol_Backend p\<rparr>
                 in if pol_Mode p \<noteq> ConfinementDisabled
                    then refuse (if ProtectedPaths ps \<noteq> [] then named\<lparr>Unsupported := [CapWriteProtect lib]\<rparr> else named)
                    else if ProtectedPaths ps \<noteq> []
                    then refuse (out\<lparr>PolicyID := ProtectOnlyProfileID, PolicyMode := ConfinementRequired,
                                     Unsupported := [CapWriteProtect lib]\<rparr>)
                    else (True, [named\<lparr>EState := EnforcementDisabled, Disabled := True,
                      Diagnostics := [''confinement explicitly disabled for remote/pre-existing ACP endpoint'']\<rparr>]))
            | None \<Rightarrow>
                refuse (out\<lparr>PolicyID := ProtectOnlyProfileID, PolicyMode := ConfinementRequired,
                            Unsupported := [CapWriteProtect lib]\<rparr>)))"

text \<open>The wrapper's check before an ACP launch; errors wrap \<open>ErrProtectedPathsUnsupported\<close>.\<close>

definition acpProtectedPolicy ::
  "'p library \<Rightarrow> 'p policy option \<Rightarrow> string list \<Rightarrow> apply_error + 'p policy option" where
  "acpProtectedPolicy lib p paths =
     (if paths = [] then Inr p
      else if \<not> caps_Supported lib \<or> CapWriteProtect lib \<notin> set (caps_Capabilities lib)
      then Inl (UnsupportedPolicy (''the '' @ caps_Backend lib @ '' sandbox backend on '' @ caps_GOOS lib @
                  '' cannot write-protect paths''))
      else case p of
        None \<Rightarrow> Inr p
      | Some q \<Rightarrow>
          if pol_Mode q = ConfinementDisabled then Inr p
          else (case WithProtected lib q paths of Inl e \<Rightarrow> Inl e | Inr q' \<Rightarrow> Inr (Some q')))"

subsection \<open>Properties\<close>

lemma set_add_paths: "set (add_paths acc paths) = set acc \<union> set paths"
  by (induction paths arbitrary: acc) auto

lemma distinct_add_paths: "distinct acc \<Longrightarrow> distinct (add_paths acc paths)"
  by (induction paths arbitrary: acc) auto

text \<open>
  C40. A launch that must be confined fails closed. When preparing it reports no error, the
  required policy was applied, with the protected paths merged in where there are any, or,
  without a required policy, the backend can write-protect and a profile protecting exactly
  those paths was applied; an error is told the host once, as the outcome that is returned;
  and an endpoint that is not spawned here is allowed only without protected paths and
  without a policy other than a disabled one.
\<close>

theorem sandbox_fails_closed:
  "(sb_err (PrepareLaunchSandbox lib ps) = None \<and> requiredPolicy (SandboxPolicy ps) \<longrightarrow>
      (\<exists>p p'. SandboxPolicy ps = Some p \<and>
         (if ProtectedPaths ps = [] then p' = p else WithProtected lib p (ProtectedPaths ps) = Inr p') \<and>
         ApplyResolved lib p' = (sb_outcome (PrepareLaunchSandbox lib ps), None))) \<and>
    (sb_err (PrepareLaunchSandbox lib ps) = None \<and> ProtectedPaths ps \<noteq> [] \<and>
        \<not> requiredPolicy (SandboxPolicy ps) \<longrightarrow>
      caps_Supported lib \<and> CapWriteProtect lib \<in> set (caps_Capabilities lib) \<and>
      Apply lib (protect_profile ps) (Cwd ps) = None \<and>
      set (Protect (protect_profile ps)) = set (ProtectedPaths ps)) \<and>
    (sb_err (PrepareLaunchSandbox lib ps) \<noteq> None \<longrightarrow>
      sb_told (PrepareLaunchSandbox lib ps) = [sb_outcome (PrepareLaunchSandbox lib ps)]) \<and>
    (fst (CheckRemoteSandbox lib ps) \<longleftrightarrow>
      ProtectedPaths ps = [] \<and> \<not> requiredPolicy (SandboxPolicy ps))"
proof (intro conjI)
  show "sb_err (PrepareLaunchSandbox lib ps) = None \<and> requiredPolicy (SandboxPolicy ps) \<longrightarrow>
      (\<exists>p p'. SandboxPolicy ps = Some p \<and>
         (if ProtectedPaths ps = [] then p' = p else WithProtected lib p (ProtectedPaths ps) = Inr p') \<and>
         ApplyResolved lib p' = (sb_outcome (PrepareLaunchSandbox lib ps), None))"
    by (auto simp: PrepareLaunchSandbox_def requiredPolicy_def Let_def
        split: option.splits sum.splits prod.splits if_splits)
  show "sb_err (PrepareLaunchSandbox lib ps) = None \<and> ProtectedPaths ps \<noteq> [] \<and>
        \<not> requiredPolicy (SandboxPolicy ps) \<longrightarrow>
      caps_Supported lib \<and> CapWriteProtect lib \<in> set (caps_Capabilities lib) \<and>
      Apply lib (protect_profile ps) (Cwd ps) = None \<and>
      set (Protect (protect_profile ps)) = set (ProtectedPaths ps)"
    by (auto simp: PrepareLaunchSandbox_def applyProtectOnly_def protect_failed_def Let_def
        protect_profile_def set_add_paths split: option.splits if_splits)
  show "sb_err (PrepareLaunchSandbox lib ps) \<noteq> None \<longrightarrow>
      sb_told (PrepareLaunchSandbox lib ps) = [sb_outcome (PrepareLaunchSandbox lib ps)]"
    by (auto simp: PrepareLaunchSandbox_def applyProtectOnly_def protect_failed_def Let_def
        split: option.splits sum.splits prod.splits if_splits)
  show "fst (CheckRemoteSandbox lib ps) \<longleftrightarrow>
      ProtectedPaths ps = [] \<and> \<not> requiredPolicy (SandboxPolicy ps)"
    by (auto simp: CheckRemoteSandbox_def launchSandboxed_def requiredPolicy_def Let_def
        split: option.split)
qed

text \<open>What the wrapper's check let through, the launcher's does not refuse for the backend.\<close>

lemma acpProtectedPolicy_backend:
  "acpProtectedPolicy lib p paths = Inr p' \<Longrightarrow> paths \<noteq> [] \<Longrightarrow>
   caps_Supported lib \<and> CapWriteProtect lib \<in> set (caps_Capabilities lib) \<and>
   requiredPolicy p = (p' \<noteq> p \<or> requiredPolicy p')"
  by (auto simp: acpProtectedPolicy_def requiredPolicy_def split: if_splits option.splits sum.splits)

subsection \<open>Witness\<close>

definition ex_library :: "unit library" where
  "ex_library = \<lparr>goos = ''linux'', caps_Backend = ''bwrap'', caps_GOOS = ''linux'',
     caps_Supported = True, caps_Capabilities = [''write-protect''], CapWriteProtect = ''write-protect'',
     WithProtected = (\<lambda>p _. Inr p),
     ApplyResolved = (\<lambda>_. (no_enforcement, None)), Apply = (\<lambda>_ _. None), AppliedOutcome = (\<lambda>x. x)\<rparr>"

definition ex_params :: "unit launch_params" where
  "ex_params = \<lparr>Command = None, SandboxPolicy = None, ProtectedPaths = [''/plans''], Cwd = ''/w''\<rparr>"

theorem sandbox_fails_closed_witness:
  "set (Protect (protect_profile ex_params)) = {''/plans''} \<and>
   \<not> fst (CheckRemoteSandbox ex_library ex_params)"
proof -
  have "sb_err (PrepareLaunchSandbox ex_library ex_params) = None" by code_simp
  then show ?thesis
    using sandbox_fails_closed [of ex_library ex_params] by (simp add: ex_params_def requiredPolicy_def)
qed

end
