(* ===== verification/Dispatch.thy ===== *)
theory Dispatch
  imports Delivery
begin

text \<open>
  How a runtime's protocol and transport select what drives it:
  \<open>wrapper/runtime_dispatch.go\<close>, the posture of \<open>wrapper/posture.go\<close>, and the default
  workspace of \<open>wrapper/wrapper.go\<close>. A runtime's modes are constants of another module,
  here constructors; a legacy token is the spelling of a mode, or \<open>adapter\<close>, or empty.
\<close>

subsection \<open>Modes and capabilities\<close>

datatype mode =
    ModePTY | ModeStreamingStdio | ModeJSONRPCStdio | ModeHTTPSSE | ModeSubprocessPerTurn
  | ModeACPStdio | ModeACPTCP | ModeOther string

datatype runtime_token = NoToken | RuntimeAdapter | RuntimeMode mode

datatype source_channel =
  ChannelPTY | ChannelStdio | ChannelJSONRPC | ChannelClaudeStreamJSON | ChannelOpenCodePlugin

record session_caps =
  PTY :: bool
  Resize :: bool
  StreamingStdio :: bool
  JsonRpcStdio :: bool
  ServeHTTP :: bool
  BinaryRequired :: bool

definition no_caps :: session_caps where
  "no_caps = \<lparr>PTY = False, Resize = False, StreamingStdio = False, JsonRpcStdio = False,
     ServeHTTP = False, BinaryRequired = False\<rparr>"

text \<open>\<open>None\<close> is \<open>ErrUnknownRuntime\<close>.\<close>

definition runtimeCaps :: "string \<Rightarrow> string \<Rightarrow> session_caps option" where
  "runtimeCaps protocol transport =
     (let caps = no_caps\<lparr>BinaryRequired := True\<rparr> in
      if protocol = ProtocolPTYRaw \<and> transport = TransportPTY then Some (caps\<lparr>PTY := True, Resize := True\<rparr>)
      else if protocol = ProtocolClaudeStreamJSON \<and> transport = TransportStdio
      then Some (caps\<lparr>StreamingStdio := True\<rparr>)
      else if protocol = ProtocolCodexAppServer \<and> transport = TransportStdio
      then Some (caps\<lparr>JsonRpcStdio := True\<rparr>)
      else if protocol = ProtocolOpenCodeNative \<and> transport = TransportHTTPSSE
      then Some (caps\<lparr>ServeHTTP := True\<rparr>)
      else if protocol = ProtocolACP \<and> transport = TransportStdio then Some (caps\<lparr>JsonRpcStdio := True\<rparr>)
      else if protocol = [] \<and> transport = [] then Some caps
      else None)"

definition capsUsesLongLivedProcess :: "session_caps \<Rightarrow> bool" where
  "capsUsesLongLivedProcess caps \<longleftrightarrow>
     PTY caps \<or> StreamingStdio caps \<or> JsonRpcStdio caps \<or> ServeHTTP caps"

definition runtimeSourceChannel :: "string \<Rightarrow> string \<Rightarrow> source_channel" where
  "runtimeSourceChannel protocol transport =
     (if protocol = ProtocolPTYRaw \<and> transport = TransportPTY then ChannelPTY
      else if protocol = ProtocolCodexAppServer \<and> transport = TransportStdio then ChannelJSONRPC
      else if protocol = ProtocolACP \<and> transport = TransportStdio then ChannelJSONRPC
      else ChannelStdio)"

definition rawSourceChannel :: "string \<Rightarrow> source_channel" where
  "rawSourceChannel transport = (if transport = TransportPTY then ChannelPTY else ChannelStdio)"

definition legacyRuntimeToken :: "string \<Rightarrow> string \<Rightarrow> runtime_token" where
  "legacyRuntimeToken protocol transport =
     (if protocol = ProtocolPTYRaw \<and> transport = TransportPTY then RuntimeMode ModePTY
      else if protocol = ProtocolClaudeStreamJSON \<and> transport = TransportStdio
      then RuntimeMode ModeStreamingStdio
      else if protocol = ProtocolCodexAppServer \<and> transport = TransportStdio
      then RuntimeMode ModeJSONRPCStdio
      else if protocol = ProtocolOpenCodeNative \<and> transport = TransportHTTPSSE
      then RuntimeMode ModeHTTPSSE
      else if protocol = ProtocolACP \<and> transport = TransportStdio then RuntimeMode ModeACPStdio
      else if protocol = ProtocolACP \<and> transport = TransportTCP then RuntimeMode ModeACPTCP
      else if protocol = [] \<and> transport = [] then RuntimeAdapter
      else NoToken)"

definition acpRuntimeToken :: "string \<Rightarrow> runtime_token" where
  "acpRuntimeToken transport =
     (if transport = TransportTCP then RuntimeMode ModeACPTCP else RuntimeMode ModeACPStdio)"

definition nativeMode :: "string \<Rightarrow> string \<Rightarrow> mode option" where
  "nativeMode protocol transport =
     (case legacyRuntimeToken protocol transport of
        NoToken \<Rightarrow> None
      | RuntimeAdapter \<Rightarrow> Some ModeSubprocessPerTurn
      | RuntimeMode m \<Rightarrow> Some m)"

subsection \<open>Posture\<close>

text \<open>A permission mode is a string of another module; \<open>default_mode\<close> is its default.\<close>

datatype posture_error = PostureConflict string string | NoPostureMapping string | RegistryError string

text \<open>\<open>prepared\<close>: the posture of the prepared execution, empty where it has none.\<close>

definition sessionPosture :: "string \<Rightarrow> string \<Rightarrow> string option \<Rightarrow> posture_error + string" where
  "sessionPosture default_mode cfg prepared =
     (case prepared of
        Some p \<Rightarrow>
          if p \<noteq> [] then (if cfg \<noteq> [] \<and> cfg \<noteq> p then Inl (PostureConflict cfg p) else Inr p)
          else if cfg \<noteq> [] then Inr cfg else Inr default_mode
      | None \<Rightarrow> if cfg \<noteq> [] then Inr cfg else Inr default_mode)"

record posture_launch =
  posture_Args :: "string list"
  posture_Env :: "(string \<times> string) list"

text \<open>The registry: looking a name up gives its posture hook.\<close>

definition nativePosture ::
  "(string \<Rightarrow> (string \<Rightarrow> mode \<Rightarrow> posture_error + posture_launch) option) \<Rightarrow> string \<Rightarrow> string \<Rightarrow>
   string \<Rightarrow> string \<Rightarrow> string \<Rightarrow> posture_error + posture_launch" where
  "nativePosture lookup adapter_name provider protocol transport posture =
     (if posture = [] then Inr \<lparr>posture_Args = [], posture_Env = []\<rparr>
      else case nativeMode protocol transport of
        None \<Rightarrow> Inl (NoPostureMapping ''no native mode'')
      | Some m \<Rightarrow>
          (case (case lookup provider of Some d \<Rightarrow> Some d | None \<Rightarrow> lookup adapter_name) of
             None \<Rightarrow> Inl (NoPostureMapping ''not a registry runtime'')
           | Some hook \<Rightarrow> hook posture m))"

text \<open>\<open>join\<close> is \<open>filepath.Join\<close>.\<close>

definition resolveWorkspaceLogPath ::
  "(string list \<Rightarrow> string) \<Rightarrow> string \<Rightarrow> string \<Rightarrow> string \<Rightarrow> string \<Rightarrow> string \<times> string" where
  "resolveWorkspaceLogPath join workdir sessionID workspaceDir logPath =
     (if workspaceDir = [] \<and> logPath = []
      then (join [workdir, ''.wrapper-workspace'', sessionID], logPath)
      else (workspaceDir, logPath))"

subsection \<open>Dispatch agrees\<close>

lemmas protocol_defs = ProtocolClaudeStreamJSON_def ProtocolCodexAppServer_def
  ProtocolOpenCodeNative_def ProtocolACP_def ProtocolPTYRaw_def TransportStdio_def TransportTCP_def
  TransportHTTPSSE_def TransportPTY_def

text \<open>
  A pair has a token exactly when the wrapper can drive it: agentkit has capabilities for
  it, or it is ACP over TCP.
\<close>

lemma if_token:
  "(if c then RuntimeMode m else x) = NoToken \<longleftrightarrow> \<not> c \<and> x = NoToken"
  "(if c then RuntimeAdapter else x) = NoToken \<longleftrightarrow> \<not> c \<and> x = NoToken"
  "(if c then Some y else z) = None \<longleftrightarrow> \<not> c \<and> z = None"
  by simp_all

lemma token_iff_driven:
  "legacyRuntimeToken protocol transport \<noteq> NoToken \<longleftrightarrow>
     runtimeCaps protocol transport \<noteq> None \<or> (protocol = ProtocolACP \<and> transport = TransportTCP)"
  unfolding legacyRuntimeToken_def runtimeCaps_def Let_def if_token by blast

lemma acpRuntimeToken_legacy:
  "transport \<in> {TransportStdio, TransportTCP} \<Longrightarrow>
   acpRuntimeToken transport = legacyRuntimeToken ProtocolACP transport"
  by (auto simp: acpRuntimeToken_def legacyRuntimeToken_def protocol_defs)

lemma sessionPosture_Inr:
  "sessionPosture d cfg prepared = Inr m \<Longrightarrow> cfg \<noteq> [] \<Longrightarrow> m = cfg"
  by (auto simp: sessionPosture_def split: option.splits if_splits)

end
