(* ===== verification/Launch.thy ===== *)
theory Launch
  imports Dispatch
begin

text \<open>
  Selecting what launches a runtime: \<open>launch/launch.go\<close>, \<open>launch/native.go\<close> and
  \<open>launch/acp.go\<close>. The registry, the go-providers adapters' methods and their constructor
  are parameters (\<open>registry\<close>, \<open>providers\<close>); of an adapter only the fields this code reads or
  sets are modelled. An ACP adapter is the options it is built with. Paths are Unix paths.
\<close>

subsection \<open>Selections\<close>

datatype runtime_id = Claude | Codex | OpenCode | Antigravity | Copilot | Pi | RuntimeOther string

fun runtime_name :: "runtime_id \<Rightarrow> string" where
  "runtime_name Claude = ''claude''"
| "runtime_name Codex = ''codex''"
| "runtime_name OpenCode = ''opencode''"
| "runtime_name Antigravity = ''antigravity''"
| "runtime_name Copilot = ''copilot''"
| "runtime_name Pi = ''pi''"
| "runtime_name (RuntimeOther s) = s"

datatype cli_kind = ClaudeAdapter | CodexAdapter | OpencodeAdapter | AntigravityAdapter | CustomAdapter string

record cli_adapter =
  cli_Kind :: cli_kind
  cli_Binary :: string
  cli_ExtraArgs :: "string list"
  cli_InputMode :: string
  cli_Bare :: bool
  cli_PTY :: bool
  cli_Mode :: string
  SkipPermissions :: bool

record selection =
  sel_Runtime :: string
  sel_Mode :: "mode option"  \<comment> \<open>\<open>None\<close> is the empty mode\<close>
  DeveloperMode :: bool
  CLIAdapter :: "cli_adapter option"
  sel_Binary :: string
  sel_ExtraArgs :: "string list"
  Port :: int

type_synonym launch_key = "runtime_id \<times> mode"

datatype launch_error = UnsupportedSelection string | InvalidSelection string

record definition_entry =
  def_ID :: runtime_id
  DefaultMode :: mode
  def_Modes :: "mode list"

record registry =
  LookupRuntime :: "string \<Rightarrow> definition_entry option"
  AllRuntimes :: "definition_entry list"

record providers =
  NewAdapter :: "runtime_id \<Rightarrow> mode \<Rightarrow> string + cli_adapter"
  cli_Name :: "cli_adapter \<Rightarrow> string"
  is_TurnInterrupter :: "cli_adapter \<Rightarrow> bool"
  is_RPCTurnInterrupter :: "cli_adapter \<Rightarrow> bool"
  is_ACP :: "mode \<Rightarrow> bool"
  Detect :: "cli_adapter \<Rightarrow> string option"
  BuildArgs :: "cli_adapter \<Rightarrow> string list"
  quoted :: "string \<Rightarrow> string"

subsection \<open>Native launches\<close>

record native_spec =
  spec_protocol :: string
  spec_transport :: string
  spec_interrupt :: string
  spec_channel :: source_channel

definition perTurn :: "source_channel \<Rightarrow> native_spec" where
  "perTurn ch = \<lparr>spec_protocol = [], spec_transport = [], spec_interrupt = InterruptProcess,
     spec_channel = ch\<rparr>"

definition nativeSpecs :: "(launch_key \<times> native_spec) list" where
  "nativeSpecs =
     [((Claude, ModeStreamingStdio), \<lparr>spec_protocol = ProtocolClaudeStreamJSON,
         spec_transport = TransportStdio, spec_interrupt = InterruptProcess,
         spec_channel = ChannelClaudeStreamJSON\<rparr>),
      ((Claude, ModeSubprocessPerTurn), perTurn ChannelClaudeStreamJSON),
      ((Codex, ModeJSONRPCStdio), \<lparr>spec_protocol = ProtocolCodexAppServer,
         spec_transport = TransportStdio, spec_interrupt = InterruptProcess,
         spec_channel = ChannelJSONRPC\<rparr>),
      ((Codex, ModeSubprocessPerTurn), perTurn ChannelStdio),
      ((OpenCode, ModeSubprocessPerTurn), perTurn ChannelStdio),
      ((OpenCode, ModeHTTPSSE), \<lparr>spec_protocol = ProtocolOpenCodeNative,
         spec_transport = TransportHTTPSSE, spec_interrupt = InterruptTurn,
         spec_channel = ChannelOpenCodePlugin\<rparr>),
      ((Antigravity, ModeSubprocessPerTurn), perTurn ChannelStdio)]"

definition pin :: "string \<Rightarrow> string \<Rightarrow> string" where
  "pin current binary = (if binary \<noteq> [] then binary else current)"

definition configure :: "cli_adapter \<Rightarrow> string \<Rightarrow> string list \<Rightarrow> launch_error + cli_adapter" where
  "configure cli binary extra =
     (if binary = [] \<and> extra = [] then Inr cli
      else case cli_Kind cli of
        CustomAdapter _ \<Rightarrow> Inl (InvalidSelection ''Binary/ExtraArgs need a go-providers adapter'')
      | _ \<Rightarrow> Inr (cli\<lparr>cli_Binary := pin (cli_Binary cli) binary,
                      cli_ExtraArgs := cli_ExtraArgs cli @ extra\<rparr>))"

text \<open>\<open>withPostureArgs\<close> of \<open>wrapper/posture.go\<close>: flags that lead the extra arguments.\<close>

definition withPostureArgs :: "cli_adapter \<Rightarrow> string list \<Rightarrow> string + cli_adapter" where
  "withPostureArgs cli args =
     (if args = [] then Inr cli
      else case cli_Kind cli of
        CustomAdapter _ \<Rightarrow> Inl ''wrapper: Config.PermissionPosture: launch flags need a go-providers adapter''
      | _ \<Rightarrow> Inr (cli\<lparr>cli_ExtraArgs := args @ cli_ExtraArgs cli\<rparr>))"

definition nativeTurnCancel :: "providers \<Rightarrow> string \<Rightarrow> cli_adapter \<Rightarrow> bool" where
  "nativeTurnCancel ps protocol cli =
     (if protocol = ProtocolClaudeStreamJSON then is_TurnInterrupter ps cli
      else if protocol = ProtocolCodexAppServer then is_RPCTurnInterrupter ps cli
      else protocol = ProtocolOpenCodeNative)"

definition validateCLIAdapter ::
  "registry \<Rightarrow> providers \<Rightarrow> launch_key \<Rightarrow> cli_adapter \<Rightarrow> launch_error option" where
  "validateCLIAdapter reg ps key cli =
     (let named = (case LookupRuntime reg (cli_Name ps cli) of
                     None \<Rightarrow> False | Some d \<Rightarrow> def_ID d = fst key);
          m = snd key;
          valid = (case cli_Kind cli of
             ClaudeAdapter \<Rightarrow>
               (let streaming = (cli_InputMode cli = ''stream-json'' \<and> \<not> cli_Bare cli \<and> \<not> cli_PTY cli);
                    per_turn = (\<not> streaming \<and> \<not> cli_PTY cli)
                in (m = ModeStreamingStdio \<and> streaming) \<or> (m = ModeSubprocessPerTurn \<and> per_turn))
           | CodexAdapter \<Rightarrow>
               (let appServer = (cli_Mode cli = ''app-server'')
                in (m = ModeJSONRPCStdio \<and> appServer) \<or> (m = ModeSubprocessPerTurn \<and> \<not> appServer))
           | OpencodeAdapter \<Rightarrow>
               (let serveHTTP = (cli_Mode cli = ''serve-http'')
                in (m = ModeHTTPSSE \<and> serveHTTP) \<or> (m = ModeSubprocessPerTurn \<and> \<not> serveHTTP))
           | _ \<Rightarrow> True)
      in if \<not> named then Some (InvalidSelection ''CLIAdapter.Name does not match the runtime'')
         else if \<not> valid then Some (InvalidSelection ''CLIAdapter does not match the mode'')
         else None)"

record native_adapter =
  na_runtime :: runtime_id
  na_spec :: native_spec
  na_delivery :: capabilities
  na_cli :: cli_adapter

definition newNative ::
  "providers \<Rightarrow> launch_key \<Rightarrow> native_spec \<Rightarrow> selection \<Rightarrow> launch_error + native_adapter" where
  "newNative ps key spec sel =
     (case NewAdapter ps (fst key) (snd key) of
        Inl e \<Rightarrow> Inl (UnsupportedSelection e)
      | Inr built \<Rightarrow>
          (let base = (case CLIAdapter sel of
                 Some cli \<Rightarrow> cli
               | None \<Rightarrow>
                   if cli_Kind built = ClaudeAdapter \<and> DeveloperMode sel
                   then built\<lparr>SkipPermissions := True\<rparr> else built)
           in case configure base (sel_Binary sel) (sel_ExtraArgs sel) of
                Inl e \<Rightarrow> Inl e
              | Inr probe \<Rightarrow>
                  Inr \<lparr>na_runtime = fst key, na_spec = spec,
                    na_delivery = DeliveryCapabilitiesForRuntime (quoted ps) (runtime_name (fst key))
                      (spec_protocol spec) (spec_transport spec) (spec_interrupt spec)
                      (nativeTurnCancel ps (spec_protocol spec) probe),
                    na_cli = probe\<rparr>))"

text \<open>\<open>nativeAdapter.Resolve\<close>: binary, arguments, environment and working directory.\<close>

definition native_Resolve ::
  "providers \<Rightarrow> native_adapter \<Rightarrow> string list \<Rightarrow> string \<Rightarrow> string \<times> string list \<times> string list \<times> string" where
  "native_Resolve ps a env cwd =
     (let binary = (case Detect ps (na_cli a) of
                      Some b \<Rightarrow> if b = [] then runtime_name (na_runtime a) else b
                    | None \<Rightarrow> runtime_name (na_runtime a))
      in (binary, BuildArgs ps (na_cli a), env, cwd))"

subsection \<open>ACP launches\<close>

datatype acp_option =
    WithDirectBinary string
  | WithBinary string
  | WithExtraArgs "string list"
  | WithTransport string
  | WithPort int

definition binary_option :: "(string \<Rightarrow> acp_option) \<Rightarrow> selection \<Rightarrow> acp_option list" where
  "binary_option f sel = (if sel_Binary sel \<noteq> [] then [f (sel_Binary sel)] else [])"

definition args_option :: "selection \<Rightarrow> acp_option list" where
  "args_option sel = (if sel_ExtraArgs sel \<noteq> [] then [WithExtraArgs (sel_ExtraArgs sel)] else [])"

definition copilotOptions :: "selection \<Rightarrow> string \<Rightarrow> acp_option list" where
  "copilotOptions sel transport =
     WithTransport transport # binary_option WithBinary sel @ args_option sel @
     (if Port sel \<noteq> 0 then [WithPort (Port sel)] else [])"

definition acpFactories :: "(launch_key \<times> (selection \<Rightarrow> acp_option list)) list" where
  "acpFactories =
     [((Claude, ModeACPStdio), \<lambda>sel. binary_option WithDirectBinary sel @ args_option sel),
      ((Codex, ModeACPStdio), \<lambda>sel. binary_option WithDirectBinary sel @ args_option sel),
      ((OpenCode, ModeACPStdio), \<lambda>sel. binary_option WithBinary sel @ args_option sel),
      ((Copilot, ModeACPStdio), \<lambda>sel. copilotOptions sel TransportStdio),
      ((Copilot, ModeACPTCP), \<lambda>sel. copilotOptions sel TransportTCP),
      ((Pi, ModeACPStdio), \<lambda>sel. binary_option WithBinary sel @ args_option sel)]"

subsection \<open>Select\<close>

datatype launched = Native native_adapter | ACP runtime_id "acp_option list"

text \<open>The table of factories: native first, then ACP, which have no key in common.\<close>

definition factory :: "providers \<Rightarrow> launch_key \<Rightarrow> (selection \<Rightarrow> launch_error + launched) option" where
  "factory ps key =
     (case map_of acpFactories key of
        Some f \<Rightarrow> Some (\<lambda>sel. Inr (ACP (fst key) (f sel)))
      | None \<Rightarrow>
          (case map_of nativeSpecs key of
             Some spec \<Rightarrow> Some (\<lambda>sel. case newNative ps key spec sel of Inl e \<Rightarrow> Inl e | Inr a \<Rightarrow> Inr (Native a))
           | None \<Rightarrow> None))"

definition is_abs :: "string \<Rightarrow> bool" where
  "is_abs path \<longleftrightarrow> starts_with ''/'' path"

fun args_valid :: "nat \<Rightarrow> string list \<Rightarrow> launch_error option" where
  "args_valid i [] = None"
| "args_valid i (arg # args) =
     (if CHR 0x00 \<in> set arg then Some (InvalidSelection ''ExtraArgs contains NUL'') else args_valid (Suc i) args)"

definition validate :: "registry \<Rightarrow> providers \<Rightarrow> selection \<Rightarrow> launch_key \<Rightarrow> launch_error option" where
  "validate reg ps sel key =
     (let acp = is_ACP ps (snd key) in
      if sel_Binary sel \<noteq> [] \<and> CHR 0x00 \<in> set (sel_Binary sel) then Some (InvalidSelection ''Binary contains NUL'')
      else if sel_Binary sel \<noteq> [] \<and> \<not> is_abs (sel_Binary sel) then Some (InvalidSelection ''Binary must be absolute'')
      else case args_valid 0 (sel_ExtraArgs sel) of
        Some e \<Rightarrow> Some e
      | None \<Rightarrow>
          if DeveloperMode sel \<and> (fst key \<noteq> Claude \<or> acp)
          then Some (InvalidSelection ''DeveloperMode is only defined for native Claude'')
          else case (case CLIAdapter sel of
              None \<Rightarrow> None
            | Some cli \<Rightarrow>
                if acp then Some (InvalidSelection ''CLIAdapter is for native modes'')
                else if DeveloperMode sel then Some (InvalidSelection ''DeveloperMode cannot be combined with CLIAdapter'')
                else validateCLIAdapter reg ps key cli) of
            Some e \<Rightarrow> Some e
          | None \<Rightarrow>
              if Port sel \<noteq> 0 \<and> snd key \<noteq> ModeACPTCP then Some (InvalidSelection ''Port is only for ACP over TCP'')
              else if Port sel < 0 \<or> Port sel > 65535 then Some (InvalidSelection ''Port out of range'')
              else None)"

definition Select :: "registry \<Rightarrow> providers \<Rightarrow> selection \<Rightarrow> launch_error + launched" where
  "Select reg ps sel =
     (case LookupRuntime reg (sel_Runtime sel) of
        None \<Rightarrow> Inl (UnsupportedSelection ''unknown runtime'')
      | Some d \<Rightarrow>
          (let m = (case sel_Mode sel of None \<Rightarrow> DefaultMode d | Some m \<Rightarrow> m) in
           if m \<notin> set (def_Modes d) then Inl (UnsupportedSelection ''unsupported mode'')
           else case factory ps (def_ID d, m) of
             None \<Rightarrow> Inl (UnsupportedSelection ''no launch factory'')
           | Some f \<Rightarrow>
               (case validate reg ps sel (def_ID d, m) of
                  Some e \<Rightarrow> Inl e
                | None \<Rightarrow> f (sel\<lparr>sel_Runtime := runtime_name (def_ID d), sel_Mode := Some m\<rparr>))))"

definition SupportedKeys :: "registry \<Rightarrow> providers \<Rightarrow> launch_key list" where
  "SupportedKeys reg ps =
     concat (map (\<lambda>d. filter (\<lambda>key. factory ps key \<noteq> None) (map (Pair (def_ID d)) (def_Modes d)))
       (AllRuntimes reg))"

subsection \<open>What is launched can be driven\<close>

definition chosen_mode :: "selection \<Rightarrow> definition_entry \<Rightarrow> mode" where
  "chosen_mode sel d = (case sel_Mode sel of None \<Rightarrow> DefaultMode d | Some m \<Rightarrow> m)"

lemma nativeSpecs_table:
  "list_all (\<lambda>(key, spec). nativeMode (spec_protocol spec) (spec_transport spec) = Some (snd key) \<and>
     runtimeCaps (spec_protocol spec) (spec_transport spec) \<noteq> None) nativeSpecs"
  by code_simp

lemma nativeSpecs_driven:
  "map_of nativeSpecs key = Some spec \<Longrightarrow>
   nativeMode (spec_protocol spec) (spec_transport spec) = Some (snd key) \<and>
   runtimeCaps (spec_protocol spec) (spec_transport spec) \<noteq> None"
  using nativeSpecs_table by (auto simp: list_all_iff dest: map_of_SomeD)

lemma acpFactories_mode:
  "map_of acpFactories key = Some f \<Longrightarrow> snd key = ModeACPStdio \<or> snd key = ModeACPTCP"
  by (auto simp: acpFactories_def split: if_splits)

lemma acpFactories_port:
  "map_of acpFactories key = Some f \<Longrightarrow> snd key = ModeACPTCP \<Longrightarrow> Port sel \<noteq> 0 \<Longrightarrow>
   WithPort (Port sel) \<in> set (f sel)"
  by (auto simp: acpFactories_def copilotOptions_def split: if_splits)

lemma configure_InrD:
  "configure cli binary extra = Inr cli' \<Longrightarrow>
   (binary \<noteq> [] \<longrightarrow> cli_Binary cli' = binary) \<and> (binary = [] \<longrightarrow> cli_Binary cli' = cli_Binary cli) \<and>
   cli_ExtraArgs cli' = cli_ExtraArgs cli @ extra"
  by (auto simp: configure_def pin_def split: if_splits cli_kind.splits)

lemma newNative_InrD:
  assumes "newNative ps key spec sel = Inr a"
  shows "na_runtime a = fst key" "na_spec a = spec"
    "Supports (na_delivery a) DeliveryCapabilityCancelTurn =
       nativeTurnCancel ps (spec_protocol spec) (na_cli a)"
    "sel_Binary sel \<noteq> [] \<Longrightarrow> cli_Binary (na_cli a) = sel_Binary sel"
    "\<exists>own. cli_ExtraArgs (na_cli a) = own @ sel_ExtraArgs sel"
proof -
  from assms obtain base where "configure base (sel_Binary sel) (sel_ExtraArgs sel) = Inr (na_cli a)"
    and a: "na_runtime a = fst key" "na_spec a = spec"
    "na_delivery a = DeliveryCapabilitiesForRuntime (quoted ps) (runtime_name (fst key))
       (spec_protocol spec) (spec_transport spec) (spec_interrupt spec)
       (nativeTurnCancel ps (spec_protocol spec) (na_cli a))"
    by (auto simp: newNative_def Let_def split: sum.splits)
  from configure_InrD [OF this(1)]
  show "sel_Binary sel \<noteq> [] \<Longrightarrow> cli_Binary (na_cli a) = sel_Binary sel"
    "\<exists>own. cli_ExtraArgs (na_cli a) = own @ sel_ExtraArgs sel" by blast+
  show "na_runtime a = fst key" "na_spec a = spec" by (fact a)+
  show "Supports (na_delivery a) DeliveryCapabilityCancelTurn =
       nativeTurnCancel ps (spec_protocol spec) (na_cli a)"
    by (simp add: a(3) Supports_runtime capability_defs)
qed

lemma validate_NoneD:
  assumes "validate reg ps sel key = None"
  shows "sel_Binary sel \<noteq> [] \<Longrightarrow> is_abs (sel_Binary sel) \<and> CHR 0x00 \<notin> set (sel_Binary sel)"
    "Port sel \<noteq> 0 \<Longrightarrow> snd key = ModeACPTCP" "0 \<le> Port sel \<and> Port sel \<le> 65535"
  using assms by (auto simp: validate_def Let_def split: if_splits option.splits)

lemma Select_InrD:
  assumes "Select reg ps sel = Inr l"
  obtains d f sel' where "LookupRuntime reg (sel_Runtime sel) = Some d"
    "chosen_mode sel d \<in> set (def_Modes d)" "factory ps (def_ID d, chosen_mode sel d) = Some f"
    "validate reg ps sel (def_ID d, chosen_mode sel d) = None" "f sel' = Inr l"
    "sel' = sel\<lparr>sel_Runtime := runtime_name (def_ID d), sel_Mode := Some (chosen_mode sel d)\<rparr>"
  using assms
  by (auto simp: Select_def chosen_mode_def Let_def split: option.splits if_splits)

text \<open>
  Whatever \<open>Select\<close> returns, the wrapper can drive. The runtime and the mode are the
  registry's; a native adapter's protocol and transport are ones the wrapper dispatches,
  under the very mode that was selected, its descriptor claims turn-scoped cancellation
  exactly where the adapter it hands over can interrupt a turn, and a pinned binary is
  absolute and is the one that runs; an ACP adapter is selected in an ACP mode only, and a
  port is passed on only over TCP.
\<close>

theorem selected_launch_is_driven:
  assumes "Select reg ps sel = Inr l"
  shows "\<exists>d. LookupRuntime reg (sel_Runtime sel) = Some d \<and> chosen_mode sel d \<in> set (def_Modes d) \<and>
    (case l of
       Native a \<Rightarrow> na_runtime a = def_ID d \<and>
         nativeMode (spec_protocol (na_spec a)) (spec_transport (na_spec a)) = Some (chosen_mode sel d) \<and>
         runtimeCaps (spec_protocol (na_spec a)) (spec_transport (na_spec a)) \<noteq> None \<and>
         Supports (na_delivery a) DeliveryCapabilityCancelTurn =
           nativeTurnCancel ps (spec_protocol (na_spec a)) (na_cli a) \<and>
         (sel_Binary sel \<noteq> [] \<longrightarrow> cli_Binary (na_cli a) = sel_Binary sel \<and> is_abs (sel_Binary sel))
     | ACP i opts \<Rightarrow> i = def_ID d \<and> chosen_mode sel d \<in> {ModeACPStdio, ModeACPTCP} \<and>
         (Port sel \<noteq> 0 \<longrightarrow> chosen_mode sel d = ModeACPTCP \<and> WithPort (Port sel) \<in> set opts))"
proof -
  obtain d f sel' where d: "LookupRuntime reg (sel_Runtime sel) = Some d"
    "chosen_mode sel d \<in> set (def_Modes d)" "factory ps (def_ID d, chosen_mode sel d) = Some f"
    "validate reg ps sel (def_ID d, chosen_mode sel d) = None" "f sel' = Inr l"
    "sel' = sel\<lparr>sel_Runtime := runtime_name (def_ID d), sel_Mode := Some (chosen_mode sel d)\<rparr>"
    by (rule Select_InrD [OF assms])
  show ?thesis
  proof (cases l)
    case (Native a)
    with d(3,5) obtain spec where spec: "map_of nativeSpecs (def_ID d, chosen_mode sel d) = Some spec"
      "newNative ps (def_ID d, chosen_mode sel d) spec sel' = Inr a"
      by (auto simp: factory_def split: option.splits sum.splits)
    with Native d nativeSpecs_driven [OF spec(1)] newNative_InrD [OF spec(2)] validate_NoneD [OF d(4)]
    show ?thesis by simp
  next
    case (ACP i opts)
    with d(3,5) obtain g where g: "map_of acpFactories (def_ID d, chosen_mode sel d) = Some g"
      "i = def_ID d" "opts = g sel'"
      by (auto simp: factory_def split: option.splits sum.splits)
    with ACP d acpFactories_mode [OF g(1)] acpFactories_port [OF g(1), of sel'] validate_NoneD [OF d(4)]
    show ?thesis by auto
  qed
qed

lemma SupportedKeys_iff:
  "key \<in> set (SupportedKeys reg ps) \<longleftrightarrow>
     (\<exists>d \<in> set (AllRuntimes reg). fst key = def_ID d \<and> snd key \<in> set (def_Modes d)) \<and>
     factory ps key \<noteq> None"
  by (cases key) (auto simp: SupportedKeys_def)

subsection \<open>Witness\<close>

definition ex_registry :: registry where
  "ex_registry = (let d = \<lparr>def_ID = Claude, DefaultMode = ModeStreamingStdio,
       def_Modes = [ModeStreamingStdio, ModeSubprocessPerTurn, ModeACPStdio]\<rparr>
     in \<lparr>LookupRuntime = (\<lambda>name. if name = ''claude'' \<or> name = ''claude-code'' then Some d else None),
         AllRuntimes = [d]\<rparr>)"

definition ex_cli :: cli_adapter where
  "ex_cli = \<lparr>cli_Kind = ClaudeAdapter, cli_Binary = [], cli_ExtraArgs = [],
     cli_InputMode = ''stream-json'', cli_Bare = False, cli_PTY = False, cli_Mode = [],
     SkipPermissions = False\<rparr>"

definition ex_providers :: providers where
  "ex_providers = \<lparr>NewAdapter = (\<lambda>_ _. Inr ex_cli), cli_Name = (\<lambda>_. ''claude''),
     is_TurnInterrupter = (\<lambda>_. True), is_RPCTurnInterrupter = (\<lambda>_. False),
     is_ACP = (\<lambda>m. m \<in> {ModeACPStdio, ModeACPTCP}), Detect = (\<lambda>_. None), BuildArgs = cli_ExtraArgs,
     quoted = (\<lambda>x. x)\<rparr>"

definition ex_selection :: selection where
  "ex_selection = \<lparr>sel_Runtime = ''claude-code'', sel_Mode = None, DeveloperMode = False,
     CLIAdapter = None, sel_Binary = ''/usr/bin/claude'', sel_ExtraArgs = [''--verbose''], Port = 0\<rparr>"

theorem selected_launch_is_driven_witness:
  "\<exists>a. Select ex_registry ex_providers ex_selection = Inr (Native a) \<and>
     cli_Binary (na_cli a) = ''/usr/bin/claude''"
proof -
  have "(case Select ex_registry ex_providers ex_selection of Inr (Native a) \<Rightarrow> True | _ \<Rightarrow> False)"
    by code_simp
  then obtain a where a: "Select ex_registry ex_providers ex_selection = Inr (Native a)"
    by (auto split: sum.splits launched.splits)
  have "sel_Binary ex_selection = ''/usr/bin/claude''" by (simp add: ex_selection_def)
  with selected_launch_is_driven [OF a] a show ?thesis by auto
qed

end
