(* ===== verification/Go_Numbers.thy ===== *)
theory Go_Numbers
  imports Json
begin

text \<open>
  Integers as the code reads and writes them: \<open>int_text\<close> is \<open>%d\<close> and the number literal
  \<open>encoding/json\<close> writes, \<open>parse_int\<close> the integer literals \<open>json.Unmarshal\<close> accepts for an
  integer, \<open>dec_int\<close> the decoder of a signed 64-bit field: a literal with a fraction or an
  exponent, or out of range, is an error and leaves the field as it is. The lemmas show
  that what is written is read back.
\<close>

definition digit :: "nat \<Rightarrow> char" where
  "digit n = char_of (48 + n)"

fun nat_text :: "nat \<Rightarrow> string" where
  "nat_text n = (if n < 10 then [digit n] else nat_text (n div 10) @ [digit (n mod 10)])"

declare nat_text.simps [simp del]

definition int_text :: "int \<Rightarrow> string" where
  "int_text i = (if i < 0 then CHR ''-'' # nat_text (nat (- i)) else nat_text (nat i))"

definition digit_value :: "char \<Rightarrow> nat option" where
  "digit_value c = (let n = of_char c :: nat in if 48 \<le> n \<and> n < 58 then Some (n - 48) else None)"

fun parse_digits :: "nat \<Rightarrow> string \<Rightarrow> nat option" where
  "parse_digits acc [] = Some acc"
| "parse_digits acc (c # s) =
     (case digit_value c of None \<Rightarrow> None | Some d \<Rightarrow> parse_digits (10 * acc + d) s)"

definition parse_int :: "string \<Rightarrow> int option" where
  "parse_int s =
     (case s of
        [] \<Rightarrow> None
      | c # ds \<Rightarrow>
          if c = CHR ''-'' then (if ds = [] then None else map_option (\<lambda>n. - int n) (parse_digits 0 ds))
          else map_option int (parse_digits 0 s))"

definition in_int64 :: "int \<Rightarrow> bool" where
  "in_int64 i \<longleftrightarrow> - (2 ^ 63) \<le> i \<and> i < 2 ^ 63"

fun dec_int :: "int decoder" where
  "dec_int (JNum s) old =
     (case parse_int s of
        None \<Rightarrow> (False, old)
      | Some i \<Rightarrow> if in_int64 i then (True, i) else (False, old))"
| "dec_int JNull old = (True, old)"
| "dec_int _ old = (False, old)"

fun dec_bool :: "bool decoder" where
  "dec_bool (JBool b) old = (True, b)"
| "dec_bool JNull old = (True, old)"
| "dec_bool _ old = (False, old)"

subsection \<open>What is written is read back\<close>

lemma digit_value_digit [simp]: "n < 10 \<Longrightarrow> digit_value (digit n) = Some n"
  by (simp add: digit_value_def digit_def of_char_of)

lemma digit_not_minus [simp]: "n < 10 \<Longrightarrow> digit n \<noteq> CHR ''-''"
proof
  assume "n < 10" and "digit n = CHR ''-''"
  then have "digit_value (CHR ''-'') = Some n" by (metis digit_value_digit)
  then show False by (simp add: digit_value_def)
qed

lemma parse_digits_append:
  "parse_digits acc (s @ t) = (case parse_digits acc s of None \<Rightarrow> None | Some a \<Rightarrow> parse_digits a t)"
  by (induction s arbitrary: acc) (auto split: option.splits)

lemma parse_nat_text: "parse_digits 0 (nat_text n) = Some n"
proof (induction n rule: nat_text.induct)
  case (1 n)
  show ?case
  proof (cases "n < 10")
    case True
    then show ?thesis by (simp add: nat_text.simps [of n])
  next
    case False
    with 1 show ?thesis by (simp add: nat_text.simps [of n] parse_digits_append)
  qed
qed

lemma nat_text_Cons: "\<exists>c ds. nat_text n = c # ds \<and> c \<noteq> CHR ''-''"
proof (induction n rule: nat_text.induct)
  case (1 n)
  show ?case
  proof (cases "n < 10")
    case True
    then show ?thesis by (simp add: nat_text.simps [of n])
  next
    case False
    with 1 obtain c ds where "nat_text (n div 10) = c # ds" "c \<noteq> CHR ''-''" by auto
    with False show ?thesis by (simp add: nat_text.simps [of n])
  qed
qed

lemma parse_int_text [simp]: "parse_int (int_text i) = Some i"
proof (cases "i < 0")
  case True
  obtain c ds where "nat_text (nat (- i)) = c # ds" using nat_text_Cons by blast
  with True parse_nat_text [of "nat (- i)"] show ?thesis by (simp add: parse_int_def int_text_def)
next
  case False
  obtain c ds where "nat_text (nat i) = c # ds" "c \<noteq> CHR ''-''" using nat_text_Cons by blast
  with False parse_nat_text [of "nat i"] show ?thesis by (simp add: parse_int_def int_text_def)
qed

lemma dec_int_text: "in_int64 i \<Longrightarrow> dec_int (JNum (int_text i)) old = (True, i)"
  by simp

end
