(* ===== verification/Acp_Protocol.thy ===== *)
theory Acp_Protocol
  imports Permission_Request Go_Numbers "HOL-Library.AList" "HOL-Library.List_Lexorder" "HOL-Library.Char_ord"
begin

text \<open>
  What an ACP client and its agent say to each other, without the state of the client:
  JSON-RPC frames and errors (\<open>acp/ndjsonclient.go\<close>), the result of \<open>initialize\<close>
  (\<open>acp/client.go\<close>), MCP servers (\<open>acp/mcp_servers.go\<close>) and the two payload helpers of
  \<open>acp/session_lost.go\<close> and \<open>acp/vocabulary.go\<close>. A Go map of strings is an association
  list with distinct keys; \<open>range\<close> over it is only used where the code sorts the keys.
\<close>

subsection \<open>Frames\<close>

record rpc_error =
  Code :: int
  rpc_Message :: string
  Data :: raw
  Component :: string

definition no_rpc_error :: rpc_error where
  "no_rpc_error = \<lparr>Code = 0, rpc_Message = [], Data = None, Component = []\<rparr>"

fun RPCError_text :: "rpc_error option \<Rightarrow> string" where
  "RPCError_text None = ''<nil rpc error>''"
| "RPCError_text (Some e) =
     (if Component e = [] then ''acp'' else Component e) @ '': jsonrpc error '' @
     int_text (Code e) @ '': '' @ rpc_Message e"

definition rpc_error_fields :: "rpc_error field list" where
  "rpc_error_fields =
     [(''code'', on_field Code Code_update dec_int),
      (''message'', on_field rpc_Message rpc_Message_update dec_string),
      (''data'', on_field Data Data_update dec_raw)]"

record rpc_frame =
  JSONRPC :: string
  frame_ID :: raw
  Method :: string
  Params :: raw
  frame_Result :: raw
  frame_Error :: "rpc_error option"

definition no_frame :: rpc_frame where
  "no_frame = \<lparr>JSONRPC = [], frame_ID = None, Method = [], Params = None, frame_Result = None,
     frame_Error = None\<rparr>"

definition rpc_frame_fields :: "rpc_frame field list" where
  "rpc_frame_fields =
     [(''jsonrpc'', on_field JSONRPC JSONRPC_update dec_string),
      (''id'', on_field frame_ID frame_ID_update dec_raw),
      (''method'', on_field Method Method_update dec_string),
      (''params'', on_field Params Params_update dec_raw),
      (''result'', on_field frame_Result frame_Result_update dec_raw),
      (''error'', on_field frame_Error frame_Error_update (dec_struct_ptr rpc_error_fields no_rpc_error))]"

text \<open>What the reader makes of a line; a line that is no JSON document is \<open>None\<close>.\<close>

datatype inbound =
    Malformed_JSON
  | Invalid_Request_ID
  | Server_Request rpc_frame
  | Notification string raw
  | Response raw raw "rpc_error option"
  | Ignored

definition classify_frame :: "raw \<Rightarrow> inbound" where
  "classify_frame line =
     (let (ok, frame) = unmarshal (dec_struct rpc_frame_fields) line no_frame
      in if \<not> ok then Malformed_JSON
         else if Method frame \<noteq> [] \<and> frame_ID frame \<noteq> None
         then (if DecodeJSONRPCRequestID (frame_ID frame) = None then Invalid_Request_ID
               else Server_Request frame)
         else if Method frame \<noteq> [] then Notification (Method frame) (Params frame)
         else if frame_ID frame \<noteq> None then Response (frame_ID frame) (frame_Result frame) (frame_Error frame)
         else Ignored)"

text \<open>The id of a response, \<open>None\<close> where it is no integer; \<open>null\<close> is read as 0.\<close>

definition response_id :: "raw \<Rightarrow> int option" where
  "response_id x = (let (ok, i) = unmarshal dec_int x 0 in if ok then Some i else None)"

text \<open>The request frame \<open>beginCall\<close> writes, and the answers to the agent's own requests.\<close>

definition request_frame :: "nat \<Rightarrow> string \<Rightarrow> any_value \<Rightarrow> any_value" where
  "request_frame i m p = AnyObject
     [(''jsonrpc'', AnyString ''2.0''), (''id'', AnyNumber (int_text (int i))),
      (''method'', AnyString m), (''params'', p)]"

definition no_handler :: "string \<Rightarrow> string \<Rightarrow> rpc_error" where
  "no_handler component m = no_rpc_error\<lparr>Code := -32601,
     rpc_Message := component @ '': no handler configured for server-initiated method '' @ m\<rparr>"

definition stream_closed :: "string \<Rightarrow> string \<Rightarrow> rpc_error" where
  "stream_closed component why = no_rpc_error\<lparr>Code := -32000, rpc_Message := why, Component := component\<rparr>"

subsection \<open>The result of initialize\<close>

record auth_method =
  auth_ID :: string
  auth_Type :: string

record initialize_result =
  ProtocolVersion :: int
  AuthMethods :: "auth_method list"
  LoadSession :: bool
  SessionClose :: bool
  MCPHTTP :: bool

record wire_initialize =
  w_version :: int
  w_auth :: "auth_method list"
  w_load :: bool
  w_http :: bool
  w_close :: raw

definition no_auth :: auth_method where "no_auth = \<lparr>auth_ID = [], auth_Type = []\<rparr>"

definition no_initialize :: wire_initialize where
  "no_initialize = \<lparr>w_version = 0, w_auth = [], w_load = False, w_http = False, w_close = None\<rparr>"

text \<open>A struct inside a struct: its members are decoded into the same record.\<close>

definition wire_initialize_fields :: "wire_initialize field list" where
  "wire_initialize_fields =
     [(''protocolVersion'', on_field w_version w_version_update dec_int),
      (''authMethods'', on_field w_auth w_auth_update
         (dec_slice (dec_struct [(''id'', on_field auth_ID auth_ID_update dec_string),
                                 (''type'', on_field auth_Type auth_Type_update dec_string)]) no_auth)),
      (''agentCapabilities'', dec_struct
         [(''loadSession'', on_field w_load w_load_update dec_bool),
          (''mcpCapabilities'', dec_struct [(''http'', on_field w_http w_http_update dec_bool)]),
          (''sessionCapabilities'', dec_struct [(''close'', on_field w_close w_close_update dec_raw)])])]"

text \<open>Whether a message is an object: it decodes into a map that is not nil.\<close>

definition is_object :: "raw \<Rightarrow> bool" where
  "is_object x = (case x of Some (JObj _ _) \<Rightarrow> True | _ \<Rightarrow> False)"

definition ParseInitializeResult :: "raw \<Rightarrow> int \<Rightarrow> string + initialize_result" where
  "ParseInitializeResult result supported =
     (if result = None then Inl ''acp: initialize returned an empty result''
      else
        (let (ok, w) = unmarshal (dec_struct wire_initialize_fields) result no_initialize
         in if \<not> ok then Inl ''acp: decode initialize result''
            else if w_version w \<noteq> supported
            then Inl (''acp: unsupported protocol version '' @ int_text (w_version w) @
                      '' (want '' @ int_text supported @ '')'')
            else Inr \<lparr>ProtocolVersion = w_version w, AuthMethods = w_auth w, LoadSession = w_load w,
                      SessionClose = (w_close w \<noteq> None \<and> is_object (w_close w)), MCPHTTP = w_http w\<rparr>))"

definition InitializeSupportsSessionClose :: "raw \<Rightarrow> bool" where
  "InitializeSupportsSessionClose result =
     (let (ok, w) = unmarshal (dec_struct [(''agentCapabilities'', dec_struct
            [(''sessionCapabilities'', dec_struct [(''close'', on_field w_close w_close_update dec_raw)])])])
            result no_initialize
      in if \<not> ok then False
         else if w_close w = None then False
         else is_object (w_close w))"

subsection \<open>MCP servers\<close>

record mcp_server =
  mcp_Name :: string
  URL :: string
  Headers :: "(string \<times> string) list"
  mcp_Command :: string
  mcp_Args :: "string list"
  mcp_Env :: "(string \<times> string) list"

datatype mcp_error = Empty_Name | Duplicate_Name string | Not_One_Transport string

definition nameValues :: "(string \<times> string) list \<Rightarrow> any_value" where
  "nameValues m = AnyArray (map (\<lambda>(k, v). AnyObject [(''name'', AnyString k), (''value'', AnyString v)])
     (sort_key fst m))"

definition http_server :: "mcp_server \<Rightarrow> any_value" where
  "http_server s = AnyObject [(''type'', AnyString ''http''), (''name'', AnyString (mcp_Name s)),
     (''url'', AnyString (URL s)), (''headers'', nameValues (Headers s))]"

definition stdio_server :: "mcp_server \<Rightarrow> any_value" where
  "stdio_server s = AnyObject [(''name'', AnyString (mcp_Name s)), (''command'', AnyString (mcp_Command s)),
     (''args'', AnyArray (map AnyString (mcp_Args s))), (''env'', nameValues (mcp_Env s))]"

text \<open>The loop: the names seen so far, and what is sent and skipped from here on.\<close>

fun mcp_loop :: "bool \<Rightarrow> string set \<Rightarrow> mcp_server list \<Rightarrow> mcp_error + (any_value list \<times> string list)" where
  "mcp_loop http seen [] = Inr ([], [])"
| "mcp_loop http seen (s # ss) =
     (if mcp_Name s = [] then Inl Empty_Name
      else if mcp_Name s \<in> seen then Inl (Duplicate_Name (mcp_Name s))
      else if (URL s \<noteq> []) = (mcp_Command s \<noteq> []) then Inl (Not_One_Transport (mcp_Name s))
      else case mcp_loop http (insert (mcp_Name s) seen) ss of
        Inl e \<Rightarrow> Inl e
      | Inr (wire, skipped) \<Rightarrow>
          if URL s \<noteq> []
          then (if http then Inr (http_server s # wire, skipped) else Inr (wire, mcp_Name s # skipped))
          else Inr (stdio_server s # wire, skipped))"

definition SessionMCPServers :: "mcp_server list \<Rightarrow> bool \<Rightarrow> mcp_error + (any_value list \<times> string list)" where
  "SessionMCPServers servers http = mcp_loop http {} servers"

fun join_with :: "string \<Rightarrow> string list \<Rightarrow> string" where
  "join_with sep [] = []"
| "join_with sep [s] = s"
| "join_with sep (s # t # ss) = s @ sep @ join_with sep (t # ss)"

text \<open>The message of the protocol diagnostic, if one is reported.\<close>

definition ReportSkippedMCPServers :: "string list \<Rightarrow> string option" where
  "ReportSkippedMCPServers skipped =
     (if skipped = [] then None
      else Some (''agent does not accept HTTP MCP servers (no mcpCapabilities.http); not sent: '' @
                 join_with '', '' skipped))"

subsection \<open>Payload helpers\<close>

definition SessionLoadUnsupportedReason :: string where
  "SessionLoadUnsupportedReason = ''agent does not support session/load; started a new session''"

definition session_lost_payload :: "string \<Rightarrow> string \<Rightarrow> string \<Rightarrow> any_value" where
  "session_lost_payload requested actual why = AnyObject
     [(''requested_id'', AnyString requested), (''actual_id'', AnyString actual), (''reason'', AnyString why)]"

definition WithBlockID :: "(string \<times> any_value) list \<Rightarrow> string \<Rightarrow> (string \<times> any_value) list" where
  "WithBlockID payload m = (if m \<noteq> [] then AList.update ''block_id'' (AnyString m) payload else payload)"

subsection \<open>Properties\<close>

text \<open>A response that echoes the id of a request is read as that id, and as no request of
  the agent's.\<close>

lemma response_id_text: "in_int64 (int i) \<Longrightarrow> response_id (Some (JNum (int_text (int i)))) = Some (int i)"
  by (simp add: response_id_def unmarshal_def)

definition mcp_ok :: "string set \<Rightarrow> mcp_server list \<Rightarrow> bool" where
  "mcp_ok seen ss \<longleftrightarrow> distinct (map mcp_Name ss) \<and>
     (\<forall>s \<in> set ss. mcp_Name s \<noteq> [] \<and> mcp_Name s \<notin> seen \<and> (URL s = []) = (mcp_Command s \<noteq> []))"

lemma mcp_ok_Cons: "mcp_ok seen (s # ss) \<longleftrightarrow> mcp_Name s \<noteq> [] \<and> mcp_Name s \<notin> seen \<and>
    (URL s = []) = (mcp_Command s \<noteq> []) \<and> mcp_ok (insert (mcp_Name s) seen) ss"
proof -
  have "mcp_Name s \<notin> mcp_Name ` set ss \<longleftrightarrow> (\<forall>x \<in> set ss. mcp_Name x \<noteq> mcp_Name s)"
    by (metis image_iff)
  then show ?thesis by (auto simp: mcp_ok_def)
qed

definition mcp_sent :: "bool \<Rightarrow> mcp_server list \<Rightarrow> any_value list" where
  "mcp_sent http ss = map (\<lambda>s. if URL s \<noteq> [] then http_server s else stdio_server s)
     (filter (\<lambda>s. http \<or> URL s = []) ss)"

lemma mcp_loop_ok:
  "mcp_ok seen ss \<Longrightarrow> mcp_loop http seen ss =
     Inr (mcp_sent http ss, map mcp_Name (filter (\<lambda>s. \<not> http \<and> URL s \<noteq> []) ss))"
proof (induction ss arbitrary: seen)
  case (Cons s ss)
  then have "mcp_ok (insert (mcp_Name s) seen) ss" by (simp add: mcp_ok_Cons)
  from Cons.IH [OF this] Cons.prems show ?case by (auto simp: mcp_ok_Cons mcp_sent_def)
qed (simp add: mcp_sent_def)

lemma mcp_loop_okD: "mcp_loop http seen ss = Inr x \<Longrightarrow> mcp_ok seen ss"
proof (induction ss arbitrary: seen x)
  case (Cons s ss)
  then obtain y where "mcp_loop http (insert (mcp_Name s) seen) ss = Inr y"
    by (auto split: if_splits sum.splits)
  from Cons.IH [OF this] Cons.prems show ?case by (auto simp: mcp_ok_Cons split: if_splits)
qed (simp add: mcp_ok_def)

lemma SessionMCPServers_Inr_iff:
  "SessionMCPServers ss http = Inr (wire, skipped) \<longleftrightarrow> mcp_ok {} ss \<and> wire = mcp_sent http ss \<and>
     skipped = map mcp_Name (filter (\<lambda>s. \<not> http \<and> URL s \<noteq> []) ss)"
  using mcp_loop_ok [of "{}" ss http] mcp_loop_okD [of http "{}" ss "(wire, skipped)"]
  by (auto simp: SessionMCPServers_def)

end
