(* ===== verification/Bridge_Handshake.thy ===== *)
theory Bridge_Handshake
  imports Acp_Protocol
begin

text \<open>
  The conversation of \<open>NDJSONBridgeClient.Launch\<close> with a started agent, \<open>acp/ndjsonclient.go\<close>:
  \<open>initialize\<close>, \<open>authenticate\<close>, \<open>session/load\<close> or \<open>session/new\<close>, and the mode and options of the
  session. What \<open>Call\<close> returns is a parameter \<open>ask\<close>: the agent may answer from
  everything it was asked before, and a call may fail. A conversation is a function from
  what was asked so far to its result, an error or a value, and what was asked then.
\<close>

subsection \<open>Conversations\<close>

type_synonym call_made = "string \<times> any_value"
type_synonym agent = "call_made list \<Rightarrow> call_made \<Rightarrow> go_error + raw"
type_synonym 'a conversation = "call_made list \<Rightarrow> (go_error + 'a) \<times> call_made list"

definition done_with :: "'a \<Rightarrow> 'a conversation" where
  "done_with x h = (Inr x, h)"

definition fails :: "go_error \<Rightarrow> 'a conversation" where
  "fails e h = (Inl e, h)"

definition andThen :: "'a conversation \<Rightarrow> ('a \<Rightarrow> 'b conversation) \<Rightarrow> 'b conversation" where
  "andThen m f h = (case m h of (Inl e, h') \<Rightarrow> (Inl e, h') | (Inr x, h') \<Rightarrow> f x h')"

text \<open>\<open>fmt.Errorf\<close> with \<open>%w\<close> around the error of a conversation.\<close>

definition wrapping :: "string \<Rightarrow> 'a conversation \<Rightarrow> 'a conversation" where
  "wrapping what m h = (case m h of (Inl e, h') \<Rightarrow> (Inl (Wrapped what e), h') | r \<Rightarrow> r)"

definition Call :: "agent \<Rightarrow> string \<Rightarrow> any_value \<Rightarrow> raw conversation" where
  "Call ask m p h = (ask h (m, p), h @ [(m, p)])"

subsection \<open>The parts of Launch\<close>

record bridge_params =
  bp_Cwd :: string
  bp_SystemPrompt :: string
  SessionIDPreset :: string
  AuthMethodID :: string
  SessionModeID :: string
  MCPServers :: "mcp_server list"
  bp_Config :: "(string \<times> any_value) list"  \<comment> \<open>a map: the keys are distinct\<close>

definition ndjsonProtocolVersion :: int where "ndjsonProtocolVersion = 1"

definition initialize_params :: any_value where
  "initialize_params = AnyObject
     [(''protocolVersion'', AnyNumber (int_text ndjsonProtocolVersion)),
      (''clientCapabilities'', AnyObject
         [(''fs'', AnyObject [(''readTextFile'', AnyBool False), (''writeTextFile'', AnyBool False)]),
          (''terminal'', AnyBool False)])]"

definition authenticate :: "agent \<Rightarrow> initialize_result \<Rightarrow> string \<Rightarrow> unit conversation" where
  "authenticate ask init methodID =
     (if methodID = [] then done_with ()
      else case find (\<lambda>m. auth_ID m = methodID) (AuthMethods init) of
        None \<Rightarrow> fails (OtherError ''authentication method was not advertised'')
      | Some m \<Rightarrow>
          if auth_Type m = ''terminal''
          then fails (OtherError ''authentication method requires an interactive terminal'')
          else andThen (Call ask ''authenticate'' (AnyObject [(''methodId'', AnyString methodID)]))
                 (\<lambda>_. done_with ()))"

fun set_options :: "agent \<Rightarrow> string \<Rightarrow> (string \<times> any_value) list \<Rightarrow> unit conversation" where
  "set_options ask i [] = done_with ()"
| "set_options ask i ((key, v) # kvs) =
     (let request = [(''sessionId'', AnyString i), (''configId'', AnyString key), (''value'', v)];
          send = (\<lambda>r. andThen (wrapping ''option'' (Call ask ''session/set_config_option'' (AnyObject r)))
                        (\<lambda>_. set_options ask i kvs))
      in case v of
           AnyString _ \<Rightarrow> send request
         | AnyBool _ \<Rightarrow> send (request @ [(''type'', AnyString ''boolean'')])
         | _ \<Rightarrow> fails (OtherError ''option has unsupported value type (want string or bool)''))"

definition configureSession :: "agent \<Rightarrow> string \<Rightarrow> bridge_params \<Rightarrow> unit conversation" where
  "configureSession ask i ps =
     andThen
       (if SessionModeID ps \<noteq> []
        then andThen (Call ask ''session/set_mode''
               (AnyObject [(''sessionId'', AnyString i), (''modeId'', AnyString (SessionModeID ps))]))
               (\<lambda>_. done_with ())
        else done_with ())
       (\<lambda>_. set_options ask i (sort_key fst (bp_Config ps)))"

definition new_session_id :: "raw \<Rightarrow> string conversation" where
  "new_session_id result =
     (let (ok, i) = unmarshal (dec_struct [(''sessionId'', \<lambda>j s. dec_string j s)]) result []
      in if \<not> ok then fails (OtherError ''decode session/new result'')
         else if i = [] then fails (OtherError ''session/new returned an empty sessionId'')
         else done_with i)"

definition newSession :: "agent \<Rightarrow> bridge_params \<Rightarrow> any_value list \<Rightarrow> string conversation" where
  "newSession ask ps servers =
     andThen (Call ask ''session/new''
         (AnyObject [(''cwd'', AnyString (bp_Cwd ps)), (''mcpServers'', AnyArray servers)]))
       new_session_id"

definition loadSession :: "agent \<Rightarrow> bridge_params \<Rightarrow> any_value list \<Rightarrow> unit conversation" where
  "loadSession ask ps servers =
     andThen (Call ask ''session/load''
         (AnyObject [(''sessionId'', AnyString (SessionIDPreset ps)), (''cwd'', AnyString (bp_Cwd ps)),
                     (''mcpServers'', AnyArray servers)]))
       (\<lambda>_. done_with ())"

subsection \<open>The whole handshake\<close>

text \<open>
  What a successful launch leaves: the session and its system prompt, whether the agent takes
  \<open>session/close\<close>, the HTTP servers it was not sent, and the events emitted at the end. On an
  error \<open>Launch\<close> closes the client and emits nothing.
\<close>

record established =
  est_sessionID :: string
  est_systemPrompt :: string
  est_sessionClose :: bool
  est_skipped :: "string list"
  est_events :: "(event_kind \<times> any_value option) list"

definition resumes :: "bridge_params \<Rightarrow> initialize_result \<Rightarrow> bool" where
  "resumes ps init \<longleftrightarrow> SessionIDPreset ps \<noteq> [] \<and> LoadSession init"

definition launch_events :: "bridge_params \<Rightarrow> initialize_result \<Rightarrow> string \<Rightarrow> (event_kind \<times> any_value option) list" where
  "launch_events ps init i =
     (if SessionIDPreset ps \<noteq> [] \<and> \<not> LoadSession init
      then [(KindOther ''session.lost'',
             Some (session_lost_payload (SessionIDPreset ps) i SessionLoadUnsupportedReason))] else [])
     @ [(KindSessionReady, None)]"

definition open_session :: "agent \<Rightarrow> bridge_params \<Rightarrow> initialize_result \<Rightarrow> any_value list \<Rightarrow> string conversation" where
  "open_session ask ps init servers =
     (if resumes ps init
      then andThen (wrapping ''session/load'' (loadSession ask ps servers)) (\<lambda>_. done_with (SessionIDPreset ps))
      else wrapping ''session/new'' (newSession ask ps servers))"

definition parse_initialize :: "raw \<Rightarrow> initialize_result conversation" where
  "parse_initialize result =
     (case ParseInitializeResult result ndjsonProtocolVersion of
        Inl e \<Rightarrow> fails (OtherError e)
      | Inr init \<Rightarrow> done_with init)"

definition mcp_servers :: "bridge_params \<Rightarrow> initialize_result \<Rightarrow> (any_value list \<times> string list) conversation" where
  "mcp_servers ps init =
     (case SessionMCPServers (MCPServers ps) (MCPHTTP init) of
        Inl e \<Rightarrow> fails (OtherError ''acp: MCP server'')
      | Inr r \<Rightarrow> done_with r)"

definition handshake :: "agent \<Rightarrow> bridge_params \<Rightarrow> established conversation" where
  "handshake ask ps =
     andThen (wrapping ''initialize'' (Call ask ''initialize'' initialize_params)) (\<lambda>result.
     andThen (wrapping ''initialize negotiation'' (parse_initialize result)) (\<lambda>init.
     andThen (wrapping ''authenticate'' (authenticate ask init (AuthMethodID ps))) (\<lambda>_.
     andThen (mcp_servers ps init) (\<lambda>(servers, skipped).
     andThen (open_session ask ps init servers) (\<lambda>i.
     andThen (wrapping ''configure session'' (configureSession ask i ps)) (\<lambda>_.
     done_with \<lparr>est_sessionID = i, est_systemPrompt = bp_SystemPrompt ps,
       est_sessionClose = SessionClose init, est_skipped = skipped,
       est_events = launch_events ps init i\<rparr>))))))"

subsection \<open>How a conversation runs\<close>

lemma andThen_Inr: "andThen m f h = (Inr y, h') \<longleftrightarrow> (\<exists>x h1. m h = (Inr x, h1) \<and> f x h1 = (Inr y, h'))"
  by (auto simp: andThen_def split: prod.splits sum.splits)

lemma wrapping_Inr [simp]: "wrapping what m h = (Inr y, h') \<longleftrightarrow> m h = (Inr y, h')"
  by (auto simp: wrapping_def split: prod.splits sum.splits)

lemma Call_Inr: "Call ask m p h = (Inr y, h') \<longleftrightarrow> ask h (m, p) = Inr y \<and> h' = h @ [(m, p)]"
  by (auto simp: Call_def)

lemma done_with_Inr [simp]: "done_with x h = (Inr y, h') \<longleftrightarrow> y = x \<and> h' = h"
  by (auto simp: done_with_def)

lemma fails_Inr [simp]: "fails e h = (Inr y, h') \<longleftrightarrow> False"
  by (simp add: fails_def)

lemmas conversation_simps = andThen_Inr Call_Inr

text \<open>\<open>speaks m k ms\<close>: from any history, a run of \<open>m\<close> that succeeds adds the calls of \<open>ms\<close>, each of
  which the agent answered without an error.\<close>

definition answered :: "agent \<Rightarrow> call_made list \<Rightarrow> call_made list \<Rightarrow> bool" where
  "answered ask h cs \<longleftrightarrow> (\<forall>n < length cs. \<exists>r. ask (h @ take n cs) (cs ! n) = Inr r)"

lemma answered_Nil [simp]: "answered ask h []"
  by (simp add: answered_def)

lemma answered_Cons: "answered ask h (c # cs) \<longleftrightarrow> (\<exists>r. ask h c = Inr r) \<and> answered ask (h @ [c]) cs"
proof
  assume *: "answered ask h (c # cs)"
  have "\<exists>r. ask ((h @ [c]) @ take n cs) (cs ! n) = Inr r" if "n < length cs" for n
    using * that by (auto simp: answered_def dest: spec [of _ "Suc n"])
  then show "(\<exists>r. ask h c = Inr r) \<and> answered ask (h @ [c]) cs"
    using * by (force simp: answered_def dest: spec [of _ "0::nat"])
next
  assume *: "(\<exists>r. ask h c = Inr r) \<and> answered ask (h @ [c]) cs"
  have "\<exists>r. ask (h @ take n (c # cs)) ((c # cs) ! n) = Inr r" if "n < length (c # cs)" for n
    using * that by (cases n) (auto simp: answered_def)
  then show "answered ask h (c # cs)" by (simp add: answered_def)
qed

lemma answered_append: "answered ask h (cs @ ds) \<longleftrightarrow> answered ask h cs \<and> answered ask (h @ cs) ds"
  by (induction cs arbitrary: h) (auto simp: answered_Cons)

definition option_calls :: "string \<Rightarrow> (string \<times> any_value) list \<Rightarrow> call_made list" where
  "option_calls i kvs = map (\<lambda>(key, v). (''session/set_config_option'', AnyObject
     ([(''sessionId'', AnyString i), (''configId'', AnyString key), (''value'', v)] @
      (case v of AnyBool _ \<Rightarrow> [(''type'', AnyString ''boolean'')] | _ \<Rightarrow> [])))) kvs"

lemma set_options_Inr:
  "set_options ask i kvs h = (Inr (), h') \<longleftrightarrow>
     (\<forall>kv \<in> set kvs. \<exists>s b. snd kv = AnyString s \<or> snd kv = AnyBool b) \<and>
     h' = h @ option_calls i kvs \<and> answered ask h (option_calls i kvs)"
proof (induction kvs arbitrary: h)
  case (Cons kv kvs)
  obtain key v where kv: "kv = (key, v)" by force
  show ?case
    by (cases v) (auto simp: kv Cons.IH conversation_simps option_calls_def answered_Cons)
qed (auto simp: option_calls_def)

lemma authenticate_Inr:
  "authenticate ask init a h = (Inr (), h') \<longleftrightarrow>
     (if a = [] then h' = h
      else \<exists>m r. find (\<lambda>m. auth_ID m = a) (AuthMethods init) = Some m \<and> auth_Type m \<noteq> ''terminal'' \<and>
        ask h (''authenticate'', AnyObject [(''methodId'', AnyString a)]) = Inr r \<and>
        h' = h @ [(''authenticate'', AnyObject [(''methodId'', AnyString a)])])"
  by (auto simp: authenticate_def conversation_simps split: option.split)

text \<open>The calls of a launch that succeeds.\<close>

definition auth_calls :: "bridge_params \<Rightarrow> call_made list" where
  "auth_calls ps = (if AuthMethodID ps = [] then []
     else [(''authenticate'', AnyObject [(''methodId'', AnyString (AuthMethodID ps))])])"

definition session_call :: "bridge_params \<Rightarrow> initialize_result \<Rightarrow> any_value list \<Rightarrow> call_made" where
  "session_call ps init servers =
     (if resumes ps init
      then (''session/load'', AnyObject [(''sessionId'', AnyString (SessionIDPreset ps)),
              (''cwd'', AnyString (bp_Cwd ps)), (''mcpServers'', AnyArray servers)])
      else (''session/new'', AnyObject [(''cwd'', AnyString (bp_Cwd ps)), (''mcpServers'', AnyArray servers)]))"

definition mode_calls :: "bridge_params \<Rightarrow> string \<Rightarrow> call_made list" where
  "mode_calls ps i = (if SessionModeID ps = [] then []
     else [(''session/set_mode'', AnyObject [(''sessionId'', AnyString i), (''modeId'', AnyString (SessionModeID ps))])])"

definition launch_script :: "bridge_params \<Rightarrow> initialize_result \<Rightarrow> string \<Rightarrow> call_made list" where
  "launch_script ps init i =
     [(''initialize'', initialize_params)] @ auth_calls ps @
     [session_call ps init (mcp_sent (MCPHTTP init) (MCPServers ps))] @
     mode_calls ps i @ option_calls i (sort_key fst (bp_Config ps))"

lemma configureSession_Inr:
  "configureSession ask i ps h = (Inr (), h') \<longleftrightarrow>
     (\<forall>kv \<in> set (bp_Config ps). \<exists>s b. snd kv = AnyString s \<or> snd kv = AnyBool b) \<and>
     h' = h @ mode_calls ps i @ option_calls i (sort_key fst (bp_Config ps)) \<and>
     answered ask h (mode_calls ps i @ option_calls i (sort_key fst (bp_Config ps)))"
  by (auto simp: configureSession_def conversation_simps set_options_Inr mode_calls_def answered_Cons)

lemma new_session_id_Inr:
  "new_session_id r h = (Inr i, h') \<longleftrightarrow>
     unmarshal (dec_struct [(''sessionId'', \<lambda>j s. dec_string j s)]) r [] = (True, i) \<and> i \<noteq> [] \<and> h' = h"
  by (cases "unmarshal (dec_struct [(''sessionId'', \<lambda>j s. dec_string j s)]) r []")
     (auto simp: new_session_id_def)

lemma open_session_Inr:
  "open_session ask ps init servers h = (Inr i, h') \<longleftrightarrow>
     (\<exists>r. ask h (session_call ps init servers) = Inr r \<and> h' = h @ [session_call ps init servers] \<and>
       (if resumes ps init then i = SessionIDPreset ps
        else i \<noteq> [] \<and> unmarshal (dec_struct [(''sessionId'', \<lambda>j s. dec_string j s)]) r [] = (True, i)))"
  by (auto simp: open_session_def loadSession_def newSession_def conversation_simps session_call_def
      new_session_id_Inr)

lemma parse_initialize_Inr:
  "parse_initialize r h = (Inr init, h') \<longleftrightarrow> ParseInitializeResult r ndjsonProtocolVersion = Inr init \<and> h' = h"
  by (auto simp: parse_initialize_def split: sum.split)

lemma mcp_servers_Inr:
  "mcp_servers ps init h = (Inr (wire, skipped), h') \<longleftrightarrow> mcp_ok {} (MCPServers ps) \<and>
     wire = mcp_sent (MCPHTTP init) (MCPServers ps) \<and>
     skipped = map mcp_Name (filter (\<lambda>s. \<not> MCPHTTP init \<and> URL s \<noteq> []) (MCPServers ps)) \<and> h' = h"
  using SessionMCPServers_Inr_iff [of "MCPServers ps" "MCPHTTP init" wire skipped]
  by (auto simp: mcp_servers_def split: sum.splits)

end
