(* ===== verification/Bridge_Client.thy ===== *)
theory Bridge_Client
  imports Bridge_Handshake Permission_Steps Transport
begin

text \<open>
  \<open>NDJSONBridgeClient\<close> of \<open>acp/ndjsonclient.go\<close>: its state and the sections of its methods
  and goroutines. It composes the permission coordinator with its calls (\<open>Permission_Steps\<close>),
  the transport coordinator (\<open>Transport\<close>) and the handshake (\<open>Bridge_Handshake\<close>). Turn ids,
  request ids and the addresses of response channels are natural numbers in the order of
  their creation; a response channel holds at most one answer, so it is an option.

  The mutex \<open>promptCloseMu\<close> is \<open>gate\<close>: a field that says who holds it. A turn is driven by
  one thread, \<open>Prompt\<close> until the request is written and a goroutine from then on; \<open>turn_pc\<close>
  is where it stands. \<open>attempted\<close> records every event given to \<open>emit\<close> while the channel was
  open, the dropped ones included.
\<close>

subsection \<open>State\<close>

datatype rpc_answer = Answer_Result raw | Answer_Error rpc_error

text \<open>The text of the error \<open>awaitCall\<close> or \<open>beginCall\<close> returned, or the result.\<close>

type_synonym turn_result = "string + raw"

datatype turn_pc =
    TurnNone
  | TurnStarting
  | TurnCalling
  | TurnWriting nat
  | TurnAwaiting nat
  | TurnEnding turn_result
  | TurnWaits nat nat turn_result  \<comment> \<open>\<open>EndTurn\<close> at \<open><-done\<close>: generation and turn\<close>
  | TurnClearing turn_result
  | TurnReporting turn_result
  | TurnReported turn_result
  | TurnOver turn_result

datatype gate_holder =
    GateFree
  | HeldByPrompt nat
  | HeldByCancel bool  \<comment> \<open>whether \<open>CancelTurn\<close> was done\<close>
  | HeldByClose
  | HeldByAnswer nat

record bridge_event =
  be_Kind :: event_kind
  be_Turn :: "nat option"
  be_Payload :: "any_value option"

datatype reader_pc =
    ReaderIdle
  | Reading
  | Stamped bridge_event
  | Admitting nat rpc_frame
  | Answering nat
  | Routing nat bool rpc_answer
  | ReaderClosing
  | ReaderFailing
  | ReaderReporting
  | ReaderDone

datatype launch_step_pc =
    LaunchFresh | LaunchTalking | LaunchOpened established | LaunchBound established
  | LaunchEmitting "(event_kind \<times> any_value option) list" | LaunchDone | LaunchFailed

datatype term_pc = TermIdle | TermRuns | TermClosed | TermStopped | TermSealing | TermWaiting | TermOver

text \<open>\<open>Close\<close>: the flag is whether it found a started process.\<close>

datatype close_pc =
    CloseFresh | CloseMarked bool | CloseSealed bool | CloseEntered bool bool | CloseTalks bool
  | CloseUngated bool | CloseFailing bool | CloseSealing | CloseWaiting | CloseReturned

datatype other_pc = OtherNone | OtherWriting | OtherAwaiting | OtherOver

record bridge_cfg =
  bc_Component :: string
  bc_Normalize :: "string \<Rightarrow> string"
  bc_Responder :: bool

record bridge =
  launchPC :: launch_step_pc
  b_closed :: bool
  b_session :: string
  b_systemPrompt :: string
  b_sessionClose :: bool
  eventsClosing :: bool
  b_events :: "bridge_event list"
  b_eventsClosed :: bool
  attempted :: "bridge_event list"
  callID :: nat
  callTable :: "nat \<rightharpoonup> bool"
  answers :: "nat \<rightharpoonup> rpc_answer"
  otherPC :: "nat \<Rightarrow> other_pc"
  inFlight :: "nat option"
  turnCount :: nat
  turnWG :: nat
  turnPC :: "nat \<Rightarrow> turn_pc"
  turnText :: "nat \<Rightarrow> string"
  wireOut :: "any_value list"
  stdinClosed :: bool
  lifetimeOver :: bool
  gate :: gate_holder
  reader :: reader_pc
  b_malformed :: bool
  askedIn :: "nat \<Rightarrow> nat option"
  askedID :: "nat \<Rightarrow> raw"
  b_term :: transport
  termPC :: term_pc
  closePC :: close_pc
  perms :: permissions

definition NewNDJSONBridgeClient :: "bridge_cfg \<Rightarrow> bridge" where
  "NewNDJSONBridgeClient cfg = \<lparr>launchPC = LaunchFresh, b_closed = False, b_session = [],
     b_systemPrompt = [], b_sessionClose = False, eventsClosing = False, b_events = [],
     b_eventsClosed = False, attempted = [], callID = 0, callTable = Map.empty, answers = Map.empty,
     otherPC = (\<lambda>_. OtherNone), inFlight = None, turnCount = 0, turnWG = 0, turnPC = (\<lambda>_. TurnNone),
     turnText = (\<lambda>_. []), wireOut = [], stdinClosed = False, lifetimeOver = False, gate = GateFree,
     reader = ReaderIdle, b_malformed = False, askedIn = (\<lambda>_. None), askedID = (\<lambda>_. None),
     b_term = NewTransportTermination True, termPC = TermIdle, closePC = CloseFresh,
     perms = new_permissions (bc_Responder cfg)\<rparr>"

subsection \<open>Events\<close>

definition eventsCapacity :: nat where "eventsCapacity = 64"

text \<open>\<open>emit\<close> drops the event where the channel is full.\<close>

definition emit_event :: "bridge_event \<Rightarrow> bridge \<Rightarrow> bridge" where
  "emit_event e s =
     (if b_eventsClosed s then s
      else if length (b_events s) < eventsCapacity
      then s\<lparr>b_events := b_events s @ [e], attempted := attempted s @ [e]\<rparr>
      else s\<lparr>attempted := attempted s @ [e]\<rparr>)"

definition event_of :: "event_kind \<Rightarrow> nat option \<Rightarrow> any_value option \<Rightarrow> bridge_event" where
  "event_of k t p = \<lparr>be_Kind = k, be_Turn = t, be_Payload = p\<rparr>"

text \<open>A JSON value as \<open>any\<close>: of members with the same key the last one stays.\<close>

fun any_of :: "json \<Rightarrow> any_value" where
  "any_of JNull = AnyNull"
| "any_of (JBool b) = AnyBool b"
| "any_of (JNum s) = AnyNumber s"
| "any_of (JStr _ s) = AnyString s"
| "any_of (JArr _ js) = AnyArray (map any_of js)"
| "any_of (JObj _ ms) = AnyObject (fold (\<lambda>(k, v). AList.update k v) (map (\<lambda>(k, v). (k, any_of v)) ms) [])"

record wire_completion =
  wc_stop :: string
  wc_usage :: raw

definition completion_payload :: "bridge_cfg \<Rightarrow> raw \<Rightarrow> any_value" where
  "completion_payload cfg result =
     (let w = snd (unmarshal (dec_struct
                [(''stopReason'', on_field wc_stop wc_stop_update dec_string),
                 (''usage'', on_field wc_usage wc_usage_update dec_raw)]) result \<lparr>wc_stop = [], wc_usage = None\<rparr>)
      in AnyObject ((''stop_reason'', AnyString (bc_Normalize cfg (wc_stop w))) #
           (case wc_usage w of None \<Rightarrow> [] | Some u \<Rightarrow> [(''usage'', any_of u)])))"

definition terminal_event :: "bridge_cfg \<Rightarrow> nat \<Rightarrow> turn_result \<Rightarrow> bridge_event" where
  "terminal_event cfg t r =
     (case r of
        Inl err \<Rightarrow> event_of KindTurnFailed (Some t)
          (Some (AnyObject [(''error'', AnyString err), (''stop_reason'', AnyString ''error'')]))
      | Inr result \<Rightarrow> event_of KindTurnCompleted (Some t) (Some (completion_payload cfg result)))"

definition is_frame :: "event_kind \<Rightarrow> bool" where
  "is_frame k \<longleftrightarrow> k \<in> {KindTurnStarted, KindTurnCompleted, KindTurnFailed}"

subsection \<open>Calls\<close>

definition dropPending :: "nat \<Rightarrow> bridge \<Rightarrow> bridge" where
  "dropPending i s = s\<lparr>callTable := (callTable s)(i := None)\<rparr>"

text \<open>The first part of \<open>beginCall\<close>: an id and its entry.\<close>

definition register_call :: "bool \<Rightarrow> bridge \<Rightarrow> bridge \<times> nat" where
  "register_call prompt s =
     (let i = Suc (callID s) in (s\<lparr>callID := i, callTable := (callTable s)(i \<mapsto> prompt)\<rparr>, i))"

definition failPending :: "bridge_cfg \<Rightarrow> string \<Rightarrow> bridge \<Rightarrow> bridge" where
  "failPending cfg why s = s\<lparr>callTable := Map.empty,
     answers := (\<lambda>i. if callTable s i \<noteq> None then Some (Answer_Error (stream_closed (bc_Component cfg) why))
                     else answers s i)\<rparr>"

definition answer_of :: "bridge_cfg \<Rightarrow> raw \<Rightarrow> rpc_error option \<Rightarrow> rpc_answer" where
  "answer_of cfg result err =
     (case err of
        Some e \<Rightarrow> Answer_Error (e\<lparr>Component := bc_Component cfg\<rparr>)
      | None \<Rightarrow> Answer_Result result)"

text \<open>What \<open>awaitCall\<close> makes of an answer.\<close>

definition result_of :: "rpc_answer \<Rightarrow> turn_result" where
  "result_of a = (case a of Answer_Result r \<Rightarrow> Inr r | Answer_Error e \<Rightarrow> Inl (RPCError_text (Some e)))"

text \<open>\<open>deliverResponse\<close>, its first section: the entry is taken, and how the reader goes on.\<close>

definition take_response :: "bridge_cfg \<Rightarrow> raw \<Rightarrow> raw \<Rightarrow> rpc_error option \<Rightarrow> bridge \<Rightarrow> bridge" where
  "take_response cfg x result err s =
     (case response_id x of
        None \<Rightarrow> s\<lparr>b_malformed := True\<rparr>
      | Some n \<Rightarrow>
          (let i = nat n in
           case (if n < 0 then None else callTable s i) of
             None \<Rightarrow> s
           | Some prompt \<Rightarrow> (dropPending i s)\<lparr>reader := Routing i prompt (answer_of cfg result err)\<rparr>))"

subsection \<open>Turns\<close>

definition set_turnPC :: "nat \<Rightarrow> turn_pc \<Rightarrow> bridge \<Rightarrow> bridge" where
  "set_turnPC t x s = s\<lparr>turnPC := (turnPC s)(t := x)\<rparr>"

definition upd_coord :: "(coordinator \<Rightarrow> coordinator) \<Rightarrow> bridge \<Rightarrow> bridge" where
  "upd_coord f s = s\<lparr>perms := in_coord f (perms s)\<rparr>"

definition prompt_text :: "string \<Rightarrow> string \<Rightarrow> string" where
  "prompt_text sys prompt = (if sys \<noteq> [] then sys @ [CHR 0x0A, CHR 0x0A] @ prompt else prompt)"

text \<open>\<open>Prompt\<close> under the gate: the guards in their order, and the admission of a turn.\<close>

definition admit_prompt :: "bridge_cfg \<Rightarrow> string \<Rightarrow> bridge \<Rightarrow> string + bridge" where
  "admit_prompt cfg prompt s =
     (if inFlight s \<noteq> None then Inl (bc_Component cfg @ '': a turn is already in flight'')
      else if b_closed s then Inl (bc_Component cfg @ '': client is closed'')
      else if eventsClosing s then Inl (bc_Component cfg @ '': the agent's transport has ended'')
      else if b_session s = [] then Inl (bc_Component cfg @ '': Prompt called before Launch established a session'')
      else
        (let t = turnCount s in
         Inr ((upd_coord BeginTurn s)\<lparr>b_systemPrompt := [], inFlight := Some t, turnCount := Suc t,
           turnWG := turnWG s + 1, turnPC := (turnPC s)(t := TurnStarting),
           turnText := (turnText s)(t := prompt_text (b_systemPrompt s) prompt), gate := HeldByPrompt t\<rparr>)))"

definition prompt_frame :: "nat \<Rightarrow> string \<Rightarrow> string \<Rightarrow> any_value" where
  "prompt_frame i session text = request_frame i ''session/prompt''
     (AnyObject [(''sessionId'', AnyString session),
        (''prompt'', AnyArray [AnyObject [(''type'', AnyString ''text''), (''text'', AnyString text)]])])"

definition cancel_frame :: "string \<Rightarrow> any_value" where
  "cancel_frame session = AnyObject
     [(''jsonrpc'', AnyString ''2.0''), (''method'', AnyString ''session/cancel''),
      (''params'', AnyObject [(''sessionId'', AnyString session)])]"

definition call_turn :: "nat \<Rightarrow> bridge \<Rightarrow> bridge" where
  "call_turn t s = (let (s1, i) = register_call True s in set_turnPC t (TurnWriting i) s1)"

definition turn_written :: "nat \<Rightarrow> nat \<Rightarrow> bridge \<Rightarrow> bridge" where
  "turn_written t i s = (set_turnPC t (TurnAwaiting i) s)\<lparr>gate := GateFree,
     wireOut := wireOut s @ [prompt_frame i (b_session s) (turnText s t)]\<rparr>"

text \<open>A failed write drops the entry; where part of the frame went out it closes the transport.\<close>

definition turn_unwritten :: "nat \<Rightarrow> nat \<Rightarrow> string \<Rightarrow> bool \<Rightarrow> bridge \<Rightarrow> bridge" where
  "turn_unwritten t i err partly s =
     (set_turnPC t (TurnEnding (Inl err)) (dropPending i s))\<lparr>stdinClosed := stdinClosed s \<or> partly\<rparr>"

text \<open>\<open>finishTurn\<close> begins with \<open>EndTurn\<close>, which may have to wait.\<close>

definition enter_end_turn :: "nat \<Rightarrow> turn_result \<Rightarrow> bridge \<Rightarrow> bridge" where
  "enter_end_turn t r s =
     (let (p, w) = end_turn_close (coord (perms s)) in
      set_turnPC t (case w of None \<Rightarrow> TurnClearing r | Some (g, a) \<Rightarrow> TurnWaits g a r)
        (upd_coord (\<lambda>_. p) s))"

definition turn_waited :: "nat \<Rightarrow> nat \<Rightarrow> nat \<Rightarrow> turn_result \<Rightarrow> bridge \<Rightarrow> bridge" where
  "turn_waited t g a r s = set_turnPC t (TurnClearing r) (upd_coord (end_turn_forget g a) s)"

definition clear_turn :: "nat \<Rightarrow> turn_result \<Rightarrow> bridge \<Rightarrow> bridge" where
  "clear_turn t r s = (set_turnPC t (TurnReporting r) s)\<lparr>inFlight :=
     (if inFlight s = Some t then None else inFlight s)\<rparr>"

definition report_turn :: "bridge_cfg \<Rightarrow> nat \<Rightarrow> turn_result \<Rightarrow> bridge \<Rightarrow> bridge" where
  "report_turn cfg t r s = set_turnPC t (TurnReported r) (emit_event (terminal_event cfg t r) s)"

text \<open>\<open>turnWG.Done\<close>, and the gate where \<open>Prompt\<close> itself ended the turn.\<close>

definition leave_turn :: "nat \<Rightarrow> turn_result \<Rightarrow> bridge \<Rightarrow> bridge" where
  "leave_turn t r s = (set_turnPC t (TurnOver r) s)\<lparr>turnWG := turnWG s - 1,
     gate := (if gate s = HeldByPrompt t then GateFree else gate s)\<rparr>"

subsection \<open>Permission requests\<close>

definition id_value :: "raw \<Rightarrow> any_value" where
  "id_value x = (case x of None \<Rightarrow> AnyNull | Some j \<Rightarrow> any_of j)"

text \<open>The frame \<open>RespondToServerRequest\<close> writes.\<close>

definition response_frame :: "raw \<Rightarrow> rpc_error + any_value \<Rightarrow> any_value" where
  "response_frame x r = AnyObject
     [(''jsonrpc'', AnyString ''2.0''), (''id'', id_value x),
      (case r of
         Inl e \<Rightarrow> (''error'', AnyObject ([(''code'', AnyNumber (int_text (Code e))),
                     (''message'', AnyString (rpc_Message e))] @
                     (case Data e of None \<Rightarrow> [] | Some d \<Rightarrow> [(''data'', any_of d)])))
       | Inr v \<Rightarrow> (''result'', v))]"

definition active_call :: "nat \<Rightarrow> bridge \<Rightarrow> bool" where
  "active_call k s \<longleftrightarrow> adm_active (adm (calls (perms s) ! k))"

definition requested_event :: "rpc_frame \<Rightarrow> nat option \<Rightarrow> bridge_event" where
  "requested_event frame t = event_of KindAgentPermissionRequested t (Some (AnyObject
     [(''request_id'', id_value (frame_ID frame)), (''method'', AnyString (Method frame)),
      (''params'', id_value (Params frame))]))"

text \<open>\<open>onAdmission\<close>: the event in the turn the request was admitted to.\<close>

definition admitted_event :: "nat \<Rightarrow> rpc_frame \<Rightarrow> bridge \<Rightarrow> bridge" where
  "admitted_event k frame s =
     (if active_call k s
      then emit_event (requested_event frame (inFlight s)) (s\<lparr>askedIn := (askedIn s)(k := inFlight s)\<rparr>)
      else s)"

definition answer_payload :: "bridge_cfg \<Rightarrow> any_value \<Rightarrow> resolution \<Rightarrow> go_error option \<Rightarrow> any_value" where
  "answer_payload cfg i r err =
     (if err \<noteq> None then DeliveryFailureEventPayload i
      else if \<not> bc_Responder cfg
      then AnyObject [(''request_id'', i), (''allowed'', AnyBool False),
             (''reason'', AnyString (bc_Component cfg @ '': no approval handler configured''))]
      else ResolvedEventPayload r i)"

text \<open>\<open>respond\<close>: the answer is written, and for an active turn an event tells of it.\<close>

definition deliver_answer ::
  "bridge_cfg \<Rightarrow> nat \<Rightarrow> resolution \<Rightarrow> nat option \<Rightarrow> go_error option \<Rightarrow> bridge \<Rightarrow> bridge" where
  "deliver_answer cfg k r oi err s =
     (let s1 = s\<lparr>perms := deliver_call k r oi err (perms s)\<rparr>;
          s2 = (if err = None
                then s1\<lparr>wireOut := wireOut s1 @ [response_frame (askedID s k) (Inr (Result r))]\<rparr> else s1)
      in if active_call k s
         then emit_event (event_of KindAgentPermissionResolved (askedIn s k)
                (Some (answer_payload cfg (id_value (askedID s k)) r err))) s2
         else s2)"

text \<open>\<open>completePermissionAdmission\<close> and \<open>after\<close>: an undelivered answer aborts the transport.\<close>

definition finish_answer :: "nat \<Rightarrow> resolution \<Rightarrow> bridge \<Rightarrow> bridge" where
  "finish_answer k r s =
     (let s1 = s\<lparr>perms := in_coord (completeAdmission (adm (calls (perms s) ! k)))
                 (at_call k (\<lambda>c. c\<lparr>pc := Over r\<rparr>) (perms s))\<rparr>
      in if responseErr r \<noteq> None then s1\<lparr>lifetimeOver := True, stdinClosed := True\<rparr> else s1)"

subsection \<open>Termination\<close>

definition exit_event :: "termination_result \<Rightarrow> bridge_event" where
  "exit_event r = event_of KindProcessExited None (Some (AnyObject
     ((''exit_code'', AnyNumber (int_text (ExitCode (Process r)))) #
      (case ProcessErr (Process r) of None \<Rightarrow> [] | Some e \<Rightarrow> [(''error'', AnyString e)]))))"

definition tell_exit :: "bridge \<Rightarrow> bridge" where
  "tell_exit s =
     (if ShouldEmitProcessExit (outcome (b_term s)) then emit_event (exit_event (outcome (b_term s))) s else s)"

end
