(* ===== verification/Bridge_Steps.thy ===== *)
theory Bridge_Steps
  imports Bridge_Client
begin

text \<open>
  The threads of a bridge client as step relations, one per group: \<open>Launch\<close>; prompts, turns and
  cancels; the protocol reader; the goroutines that answer permission requests; other
  calls and the host's receives; process exit, termination and \<open>Close\<close>. What the agent sends,
  when a write fails, a context or a timer ends, and which thread runs is free.
\<close>

subsection \<open>Launch\<close>

inductive launch_step :: "bridge_cfg \<Rightarrow> bridge \<Rightarrow> bridge \<Rightarrow> bool" for cfg where
  launch_started: "launchPC s = LaunchFresh \<Longrightarrow>
    launch_step cfg s (emit_event (event_of (KindOther ''process.started'') None (Some pid))
      (s\<lparr>launchPC := LaunchTalking, reader := Reading, termPC := TermRuns\<rparr>))"
| launch_failed: "launchPC s = LaunchFresh \<or> launchPC s = LaunchTalking \<or> launchPC s = LaunchBound est \<Longrightarrow>
    launch_step cfg s (s\<lparr>launchPC := LaunchFailed\<rparr>)"
| launch_opened: "launchPC s = LaunchTalking \<Longrightarrow> est_sessionID est \<noteq> [] \<Longrightarrow>
    launch_step cfg s (s\<lparr>launchPC := LaunchOpened est, b_session := est_sessionID est,
      b_sessionClose := est_sessionClose est\<rparr>)"
| launch_bound: "launchPC s = LaunchOpened est \<Longrightarrow>
    launch_step cfg s (upd_coord (SetSessionID (est_sessionID est)) (s\<lparr>launchPC := LaunchBound est\<rparr>))"
| launch_configured: "launchPC s = LaunchBound est \<Longrightarrow>
    launch_step cfg s (s\<lparr>launchPC := LaunchEmitting (est_events est), b_systemPrompt := est_systemPrompt est\<rparr>)"
| launch_emit: "launchPC s = LaunchEmitting ((k, p) # es) \<Longrightarrow> \<not> is_frame k \<Longrightarrow>
    launch_step cfg s (emit_event (event_of k None p) (s\<lparr>launchPC := LaunchEmitting es\<rparr>))"
| launch_returned: "launchPC s = LaunchEmitting [] \<Longrightarrow> launch_step cfg s (s\<lparr>launchPC := LaunchDone\<rparr>)"

subsection \<open>Prompts, turns and cancels\<close>

inductive turn_step :: "bridge_cfg \<Rightarrow> bridge \<Rightarrow> bridge \<Rightarrow> bool" for cfg where
  prompt: "gate s = GateFree \<Longrightarrow> admit_prompt cfg p s = Inr s' \<Longrightarrow> turn_step cfg s s'"
| prompt_refused: "gate s = GateFree \<Longrightarrow> admit_prompt cfg p s = Inl e \<Longrightarrow> turn_step cfg s s"
| started: "turnPC s t = TurnStarting \<Longrightarrow>
    turn_step cfg s (set_turnPC t TurnCalling (emit_event (event_of KindTurnStarted (Some t) None) s))"
| call: "turnPC s t = TurnCalling \<Longrightarrow> turn_step cfg s (call_turn t s)"
| written: "turnPC s t = TurnWriting i \<Longrightarrow> \<not> stdinClosed s \<Longrightarrow> turn_step cfg s (turn_written t i s)"
| unwritten: "turnPC s t = TurnWriting i \<Longrightarrow> turn_step cfg s (turn_unwritten t i err partly s)"
| answered: "turnPC s t = TurnAwaiting i \<Longrightarrow> answers s i = Some a \<Longrightarrow>
    turn_step cfg s (set_turnPC t (TurnEnding (result_of a)) s)"
| abandoned: "turnPC s t = TurnAwaiting i \<Longrightarrow> lifetimeOver s \<Longrightarrow>
    turn_step cfg s (set_turnPC t (TurnEnding (Inl ''context canceled'')) (dropPending i s))"
| enter_end_turn: "turnPC s t = TurnEnding r \<Longrightarrow> turn_step cfg s (enter_end_turn t r s)"
| waited: "turnPC s t = TurnWaits g a r \<Longrightarrow> turn_done (turn_at (coord (perms s)) a) \<Longrightarrow>
    turn_step cfg s (turn_waited t g a r s)"
| cleared: "turnPC s t = TurnClearing r \<Longrightarrow> turn_step cfg s (clear_turn t r s)"
| reported: "turnPC s t = TurnReporting r \<Longrightarrow> turn_step cfg s (report_turn cfg t r s)"
| left: "turnPC s t = TurnReported r \<Longrightarrow> turn_step cfg s (leave_turn t r s)"
| cancel: "gate s = GateFree \<Longrightarrow> b_session s \<noteq> [] \<Longrightarrow> inFlight s \<noteq> None \<Longrightarrow>
    turn_step cfg s (s\<lparr>gate := HeldByCancel False\<rparr>)"
| cancel_permissions: "gate s = HeldByCancel False \<Longrightarrow>
    turn_step cfg s (upd_coord CancelTurn (s\<lparr>gate := HeldByCancel True\<rparr>))"
| cancel_written: "gate s = HeldByCancel True \<Longrightarrow> \<not> stdinClosed s \<Longrightarrow>
    turn_step cfg s (s\<lparr>gate := GateFree, wireOut := wireOut s @ [cancel_frame (b_session s)]\<rparr>)"
| cancel_failed: "gate s = HeldByCancel True \<Longrightarrow>
    turn_step cfg s (s\<lparr>gate := GateFree, stdinClosed := True\<rparr>)"

subsection \<open>The protocol reader\<close>

inductive reader_step :: "bridge_cfg \<Rightarrow> bridge \<Rightarrow> bridge \<Rightarrow> bool" for cfg where
  bad_frame: "reader s = Reading \<Longrightarrow> classify_frame x = Malformed_JSON \<or> classify_frame x = Invalid_Request_ID \<Longrightarrow>
    reader_step cfg s (s\<lparr>b_malformed := True\<rparr>)"
| notified: "reader s = Reading \<Longrightarrow> classify_frame x = Notification m q \<Longrightarrow> \<not> is_frame k \<Longrightarrow>
    reader_step cfg s (s\<lparr>reader := Stamped (event_of k (inFlight s) p)\<rparr>)"
| emitted: "reader s = Stamped e \<Longrightarrow> reader_step cfg s (emit_event e (s\<lparr>reader := Reading\<rparr>))"
| asked: "reader s = Reading \<Longrightarrow> classify_frame x = Server_Request frame \<Longrightarrow>
    Method frame = ''session/request_permission'' \<Longrightarrow>
    reader_step cfg s (s\<lparr>reader := Admitting (length (calls (perms s))) frame,
      askedID := (askedID s)(length (calls (perms s)) := frame_ID frame),
      perms := arrive True (Params frame) (perms s)\<rparr>)"
| not_handled: "reader s = Reading \<Longrightarrow> classify_frame x = Server_Request frame \<Longrightarrow>
    Method frame \<noteq> ''session/request_permission'' \<Longrightarrow>
    reader_step cfg s (s\<lparr>wireOut := wireOut s @ [response_frame (frame_ID frame)
      (Inl (no_handler (bc_Component cfg) (Method frame)))]\<rparr>)"
| admitted: "reader s = Admitting k frame \<Longrightarrow>
    reader_step cfg s ((admitted_event k frame s)\<lparr>reader :=
      (if async (adm (calls (perms s) ! k)) then Reading else Answering k)\<rparr>)"
| answered_itself: "reader s = Answering k \<Longrightarrow> over (pc (calls (perms s) ! k)) \<Longrightarrow>
    reader_step cfg s (s\<lparr>reader := Reading\<rparr>)"
| response: "reader s = Reading \<Longrightarrow> classify_frame x = Response i result err \<Longrightarrow>
    reader_step cfg s (take_response cfg i result err s)"
| admission_closed: "reader s = Routing i True a \<Longrightarrow>
    reader_step cfg s (upd_coord CloseTurnAdmission (s\<lparr>reader := Routing i False a\<rparr>))"
| routed: "reader s = Routing i False a \<Longrightarrow>
    reader_step cfg s (s\<lparr>reader := Reading, answers := (answers s)(i \<mapsto> a)\<rparr>)"
| stream_ended: "reader s = Reading \<Longrightarrow> reader_step cfg s (s\<lparr>reader := ReaderClosing\<rparr>)"
| reader_closed: "reader s = ReaderClosing \<Longrightarrow>
    reader_step cfg s (upd_coord CloseCoordinator (s\<lparr>reader := ReaderFailing\<rparr>))"
| reader_failed: "reader s = ReaderFailing \<Longrightarrow>
    reader_step cfg s ((failPending cfg (bc_Component cfg @ '': protocol stream closed before response'') s)
      \<lparr>reader := ReaderReporting\<rparr>)"
| reader_reported: "reader s = ReaderReporting \<Longrightarrow>
    reader_step cfg s (s\<lparr>reader := ReaderDone,
      b_term := ReportRead \<lparr>Malformed = b_malformed s, ReadErr = err\<rparr> (b_term s)\<rparr>)"

subsection \<open>Answers to permission requests\<close>

text \<open>A call runs in its own goroutine once its admission was told, or on the reader. It takes
  the gate to decide and gives it back when it has forgotten its entry.\<close>

definition runs :: "nat \<Rightarrow> bridge \<Rightarrow> bool" where
  "runs k s \<longleftrightarrow> k < length (calls (perms s)) \<and>
     (case reader s of Admitting j frame \<Rightarrow> j \<noteq> k | _ \<Rightarrow> True)"

inductive answer_step :: "bridge_cfg \<Rightarrow> bridge \<Rightarrow> bridge \<Rightarrow> bool" for cfg where
  check: "runs k s \<Longrightarrow> pc (calls (perms s) ! k) = Checking \<Longrightarrow>
    answer_step cfg s (s\<lparr>perms := check_call k (perms s)\<rparr>)"
| start: "runs k s \<Longrightarrow> pc (calls (perms s) ! k) = Starting req \<Longrightarrow>
    answer_step cfg s (s\<lparr>perms := start_call k req (perms s)\<rparr>)"
| sent: "runs k s \<Longrightarrow> cb (calls (perms s) ! k) = CallbackRuns \<Longrightarrow>
    answer_step cfg s (s\<lparr>perms := at_call k (\<lambda>c. c\<lparr>cb := CallbackSent, reply := Some ans\<rparr>) (perms s)\<rparr>)"
| gone: "runs k s \<Longrightarrow> cb (calls (perms s) ! k) = CallbackSent \<Longrightarrow>
    answer_step cfg s (s\<lparr>perms := in_coord callback_gone (at_call k (\<lambda>c. c\<lparr>cb := CallbackLeft\<rparr>) (perms s))\<rparr>)"
| wake: "runs k s \<Longrightarrow> pc (calls (perms s) ! k) = Waiting i req \<Longrightarrow> reply (calls (perms s) ! k) = Some ans \<Longrightarrow>
    answer_step cfg s (s\<lparr>perms := at_call k (\<lambda>c. c\<lparr>pc := Deciding i req ans\<rparr>) (perms s)\<rparr>)"
| wake_canceled: "runs k s \<Longrightarrow> pc (calls (perms s) ! k) = Waiting i req \<Longrightarrow>
    pendings (coord (perms s)) i = Some e \<Longrightarrow> p_canceled e \<Longrightarrow>
    answer_step cfg s (s\<lparr>perms := at_call k (\<lambda>c. c\<lparr>pc := Deciding i req \<lparr>sel_option = [],
      sel_err = Some CtxCanceled\<rparr>\<rparr>) (perms s)\<rparr>)"
| decide: "runs k s \<Longrightarrow> pc (calls (perms s) ! k) = Deciding i req ans \<Longrightarrow> gate s = GateFree \<Longrightarrow>
    answer_step cfg s (s\<lparr>gate := HeldByAnswer k, perms := decide_call k i req ans (perms s)\<rparr>)"
| deliver: "runs k s \<Longrightarrow> pc (calls (perms s) ! k) = Delivering r oi \<Longrightarrow>
    answer_step cfg s (deliver_answer cfg k r oi err s)"
| forget: "runs k s \<Longrightarrow> pc (calls (perms s) ! k) = Forgetting r i \<Longrightarrow>
    answer_step cfg s (s\<lparr>gate := (if gate s = HeldByAnswer k then GateFree else gate s),
      perms := in_coord (forget_pending i) (at_call k (\<lambda>c. c\<lparr>pc := Completing r\<rparr>) (perms s))\<rparr>)"
| complete: "runs k s \<Longrightarrow> pc (calls (perms s) ! k) = Completing r \<Longrightarrow>
    answer_step cfg s (finish_answer k r s)"

subsection \<open>Other calls and the host\<close>

inductive other_step :: "bridge_cfg \<Rightarrow> bridge \<Rightarrow> bridge \<Rightarrow> bool" for cfg where
  other_begin: "register_call False s = (s', i) \<Longrightarrow>
    other_step cfg s (s'\<lparr>otherPC := (otherPC s')(i := OtherWriting)\<rparr>)"
| other_written: "otherPC s i = OtherWriting \<Longrightarrow> \<not> stdinClosed s \<Longrightarrow>
    other_step cfg s (s\<lparr>otherPC := (otherPC s)(i := OtherAwaiting),
      wireOut := wireOut s @ [request_frame i m q]\<rparr>)"
| other_unwritten: "otherPC s i = OtherWriting \<Longrightarrow>
    other_step cfg s ((dropPending i s)\<lparr>otherPC := (otherPC s)(i := OtherOver),
      stdinClosed := stdinClosed s \<or> partly\<rparr>)"
| other_answered: "otherPC s i = OtherAwaiting \<Longrightarrow> answers s i \<noteq> None \<Longrightarrow>
    other_step cfg s (s\<lparr>otherPC := (otherPC s)(i := OtherOver)\<rparr>)"
| other_abandoned: "otherPC s i = OtherAwaiting \<Longrightarrow>
    other_step cfg s ((dropPending i s)\<lparr>otherPC := (otherPC s)(i := OtherOver)\<rparr>)"
| received: "b_events s = e # es \<Longrightarrow> other_step cfg s (s\<lparr>b_events := es\<rparr>)"

subsection \<open>Exit, termination and close\<close>

inductive end_step :: "bridge_cfg \<Rightarrow> bridge \<Rightarrow> bridge \<Rightarrow> bool" for cfg where
  process_exited: "termPC s \<noteq> TermIdle \<Longrightarrow> end_step cfg s (s\<lparr>b_term := ReportProcess p (b_term s)\<rparr>)"
| coordinate: "termPC s = TermRuns \<Longrightarrow> coordinate (b_term s) x \<Longrightarrow>
    end_step cfg s (s\<lparr>b_term := x, stdinClosed := stdinClosed s \<or> stops x > stops (b_term s)\<rparr>)"
| term_closed: "termPC s = TermRuns \<Longrightarrow> at (b_term s) = CoordReturned \<Longrightarrow>
    end_step cfg s (upd_coord CloseCoordinator (s\<lparr>termPC := TermClosed\<rparr>))"
| term_stopped: "termPC s = TermClosed \<Longrightarrow> end_step cfg s (s\<lparr>termPC := TermStopped, lifetimeOver := True\<rparr>)"
| term_told: "termPC s = TermStopped \<Longrightarrow> end_step cfg s ((tell_exit s)\<lparr>termPC := TermSealing\<rparr>)"
| term_sealed: "termPC s = TermSealing \<Longrightarrow> end_step cfg s (s\<lparr>termPC := TermWaiting, eventsClosing := True\<rparr>)"
| term_over: "termPC s = TermWaiting \<Longrightarrow> turnWG s = 0 \<Longrightarrow>
    end_step cfg s (s\<lparr>termPC := TermOver, b_eventsClosed := True\<rparr>)"
| close: "closePC s = CloseFresh \<Longrightarrow>
    end_step cfg s (s\<lparr>b_closed := True, closePC := CloseMarked (termPC s \<noteq> TermIdle)\<rparr>)"
| close_permissions: "closePC s = CloseMarked saw \<Longrightarrow>
    end_step cfg s ((if saw then upd_coord CloseCoordinator s else s)\<lparr>closePC := CloseSealed saw\<rparr>)"
| close_enters: "closePC s = CloseSealed saw \<Longrightarrow> gate s = GateFree \<Longrightarrow>
    end_step cfg s (s\<lparr>gate := HeldByClose, closePC := CloseEntered saw True\<rparr>)"
| close_gives_up: "closePC s = CloseSealed saw \<Longrightarrow> end_step cfg s (s\<lparr>closePC := CloseEntered saw False\<rparr>)"
| close_lifetime: "closePC s = CloseEntered saw graceful \<Longrightarrow>
    end_step cfg s (s\<lparr>lifetimeOver := lifetimeOver s \<or> saw,
      stdinClosed := stdinClosed s \<or> (\<not> graceful \<and> saw),
      closePC := (if graceful then CloseTalks saw else CloseUngated saw)\<rparr>)"
| close_talked: "closePC s = CloseTalks saw \<Longrightarrow>
    end_step cfg s (s\<lparr>closePC := CloseUngated saw,
      gate := (if gate s = HeldByClose then GateFree else gate s)\<rparr>)"
| close_fails: "closePC s = CloseUngated saw \<Longrightarrow>
    end_step cfg s ((failPending cfg (bc_Component cfg @ '': client closed'') s)\<lparr>closePC := CloseFailing saw\<rparr>)"
| close_transport: "closePC s = CloseFailing saw \<Longrightarrow>
    end_step cfg s (s\<lparr>stdinClosed := stdinClosed s \<or> termPC s \<noteq> TermIdle,
      closePC := (if saw then CloseWaiting else CloseSealing)\<rparr>)"
| close_sealed: "closePC s = CloseSealing \<Longrightarrow> turnWG s = 0 \<Longrightarrow> eventsClosing s \<Longrightarrow>
    end_step cfg s (s\<lparr>b_eventsClosed := True, closePC := CloseReturned\<rparr>)"
| close_seals: "closePC s = CloseSealing \<Longrightarrow> end_step cfg s (s\<lparr>eventsClosing := True\<rparr>)"
| close_returns: "closePC s = CloseWaiting \<Longrightarrow> end_step cfg s (s\<lparr>closePC := CloseReturned\<rparr>)"

subsection \<open>All of them\<close>

inductive bridge_step :: "bridge_cfg \<Rightarrow> bridge \<Rightarrow> bridge \<Rightarrow> bool" for cfg where
  Launch: "launch_step cfg s s' \<Longrightarrow> bridge_step cfg s s'"
| Turn: "turn_step cfg s s' \<Longrightarrow> bridge_step cfg s s'"
| Reader: "reader_step cfg s s' \<Longrightarrow> bridge_step cfg s s'"
| Answer: "answer_step cfg s s' \<Longrightarrow> bridge_step cfg s s'"
| Other: "other_step cfg s s' \<Longrightarrow> bridge_step cfg s s'"
| End: "end_step cfg s s' \<Longrightarrow> bridge_step cfg s s'"

inductive bridge_reach :: "bridge_cfg \<Rightarrow> bridge \<Rightarrow> bridge \<Rightarrow> bool" for cfg where
  start: "bridge_reach cfg s s"
| step: "bridge_reach cfg s s' \<Longrightarrow> bridge_step cfg s' s'' \<Longrightarrow> bridge_reach cfg s s''"

lemma bridge_reach_trans: "bridge_reach cfg s' s'' \<Longrightarrow> bridge_reach cfg s s' \<Longrightarrow> bridge_reach cfg s s''"
  by (induction rule: bridge_reach.induct) (auto intro: bridge_reach.step)

end
