(* ===== verification/Bridge_Invariants.thy ===== *)
theory Bridge_Invariants
  imports Bridge_Steps
begin

text \<open>
  Invariants of a bridge client over all interleavings. A step of any group but the turns' is
  \<open>quiet\<close>: it leaves the turns as they are, adds no turn frame to the events and changes the
  permission coordinator only in ways that keep its generation, its map and its closed
  \<open>done\<close> channels. So each invariant about turns is proved once for quiet steps and then for
  the steps of a turn.
\<close>

subsection \<open>Effects on the permission coordinator\<close>

definition coord_quiet :: "coordinator \<Rightarrow> coordinator \<Rightarrow> bool" where
  "coord_quiet p q \<longleftrightarrow> generation q = generation p \<and> turns q = turns p \<and>
     (\<forall>a. turn_done (turn_at p a) \<longrightarrow> turn_done (turn_at q a))"

lemma coord_quiet_refl [simp]: "coord_quiet p p"
  by (simp add: coord_quiet_def)

lemma coord_quiet_trans: "coord_quiet p q \<Longrightarrow> coord_quiet q r \<Longrightarrow> coord_quiet p r"
  by (auto simp: coord_quiet_def)

lemma coord_quiet_closeTurnDone: "coord_quiet p (closeTurnDone a p)"
  by (auto simp: coord_quiet_def closeTurnDone_def Let_def set_turn_def)

lemma coord_quiet_set_turn:
  "(turn_done (turn_at p a) \<Longrightarrow> turn_done t) \<Longrightarrow> coord_quiet p (set_turn a t p)"
  by (simp add: coord_quiet_def)

lemma coord_quiet_cancel_where: "coord_quiet p q \<Longrightarrow> coord_quiet p (cancel_where Q q)"
  by (simp add: coord_quiet_def)

lemma coord_quiet_admit: "coord_quiet p (fst (admitPermission fd p))"
  by (auto simp: admitPermission_def coord_quiet_def Let_def split: option.split)

lemma coord_quiet_complete: "coord_quiet p (completeAdmission a p)"
proof (cases "adm_turn a")
  case (Some t)
  have "coord_quiet p (p\<lparr>asyncDispatches := n\<rparr>)" for n by (simp add: coord_quiet_def)
  then have 1: "coord_quiet p (if async a then p\<lparr>asyncDispatches := asyncDispatches p - 1\<rparr> else p)" by simp
  show ?thesis
    unfolding completeAdmission_def Let_def Some
    by (auto intro!: coord_quiet_trans [OF 1] coord_quiet_trans [OF _ coord_quiet_closeTurnDone]
        coord_quiet_set_turn)
qed (simp add: completeAdmission_def)

lemma coord_quiet_start: "start_callback a p = Inr (q, i) \<Longrightarrow> coord_quiet p q"
  by (auto simp: start_callback_def coord_quiet_def Let_def split: if_splits)

lemma coord_quiet_decide: "coord_quiet p (fst (decide a i req ans p))"
  by (auto simp: decide_def coord_quiet_def split: option.split)

lemma coord_quiet_simple:
  "coord_quiet p (callback_gone p)" "coord_quiet p (forget_pending i p)" "coord_quiet p (SetSessionID j p)"
  by (simp_all add: coord_quiet_def callback_gone_def forget_pending_def SetSessionID_def)

lemma coord_quiet_closeTurnAdmission: "coord_quiet p (closeTurnAdmission g p)"
proof (cases "turns p g")
  case (Some a)
  then show ?thesis
    by (auto simp: closeTurnAdmission_def Let_def
        intro!: coord_quiet_trans [OF _ coord_quiet_closeTurnDone] coord_quiet_cancel_where coord_quiet_set_turn)
qed (simp add: closeTurnAdmission_def)

lemma coord_quiet_CancelTurn: "coord_quiet p (CancelTurn p)"
  by (auto simp: CancelTurn_def Let_def intro!: coord_quiet_cancel_where coord_quiet_set_turn split: option.split)

lemma coord_quiet_CloseCoordinator: "coord_quiet p (CloseCoordinator p)"
  unfolding CloseCoordinator_def
  by (rule coord_quiet_cancel_where) (auto simp: coord_quiet_def Let_def)

lemmas coord_quiet_ops = coord_quiet_refl coord_quiet_admit coord_quiet_complete coord_quiet_start
  coord_quiet_decide coord_quiet_simple coord_quiet_closeTurnAdmission coord_quiet_CancelTurn
  coord_quiet_CloseCoordinator

lemma coord_quiet_calls:
  "coord_quiet (coord x) (coord (arrive fd q x))"
  "coord_quiet (coord x) (coord (check_call k x))"
  "coord_quiet (coord x) (coord (start_call k req x))"
  "coord_quiet (coord x) (coord (decide_call k i req ans x))"
  "coord_quiet (coord x) (coord (deliver_call k r oi err x))"
  using coord_quiet_admit [of "coord x" fd] coord_quiet_decide [of "coord x" "adm (calls x ! k)" i req ans]
  by (auto simp: arrive_def check_call_def start_call_def decide_call_def deliver_call_def split_def Let_def
      dest: coord_quiet_start split: sum.split)

subsection \<open>Fields that operations leave alone\<close>

lemma emit_event_simps [simp]:
  "launchPC (emit_event e s) = launchPC s" "eventsClosing (emit_event e s) = eventsClosing s"
  "b_eventsClosed (emit_event e s) = b_eventsClosed s" "callTable (emit_event e s) = callTable s"
  "callID (emit_event e s) = callID s" "answers (emit_event e s) = answers s"
  "otherPC (emit_event e s) = otherPC s" "inFlight (emit_event e s) = inFlight s"
  "turnCount (emit_event e s) = turnCount s" "turnWG (emit_event e s) = turnWG s"
  "turnPC (emit_event e s) = turnPC s" "gate (emit_event e s) = gate s" "reader (emit_event e s) = reader s"
  "b_term (emit_event e s) = b_term s" "termPC (emit_event e s) = termPC s"
  "closePC (emit_event e s) = closePC s" "perms (emit_event e s) = perms s"
  "b_closed (emit_event e s) = b_closed s" "b_session (emit_event e s) = b_session s"
  "lifetimeOver (emit_event e s) = lifetimeOver s" "stdinClosed (emit_event e s) = stdinClosed s"
  by (simp_all add: emit_event_def)

lemma attempted_emit [simp]:
  "attempted (emit_event e s) = (if b_eventsClosed s then attempted s else attempted s @ [e])"
  by (simp add: emit_event_def)

lemma set_turnPC_simps [simp]:
  "turnPC (set_turnPC t x s) = (turnPC s)(t := x)" "inFlight (set_turnPC t x s) = inFlight s"
  "turnCount (set_turnPC t x s) = turnCount s" "turnWG (set_turnPC t x s) = turnWG s"
  "gate (set_turnPC t x s) = gate s" "eventsClosing (set_turnPC t x s) = eventsClosing s"
  "b_eventsClosed (set_turnPC t x s) = b_eventsClosed s" "attempted (set_turnPC t x s) = attempted s"
  "perms (set_turnPC t x s) = perms s" "reader (set_turnPC t x s) = reader s"
  "termPC (set_turnPC t x s) = termPC s" "callTable (set_turnPC t x s) = callTable s"
  "callID (set_turnPC t x s) = callID s" "answers (set_turnPC t x s) = answers s"
  "otherPC (set_turnPC t x s) = otherPC s" "closePC (set_turnPC t x s) = closePC s"
  "launchPC (set_turnPC t x s) = launchPC s"
  by (simp_all add: set_turnPC_def)

lemma upd_coord_simps [simp]:
  "turnPC (upd_coord f s) = turnPC s" "inFlight (upd_coord f s) = inFlight s"
  "turnCount (upd_coord f s) = turnCount s" "turnWG (upd_coord f s) = turnWG s"
  "gate (upd_coord f s) = gate s" "eventsClosing (upd_coord f s) = eventsClosing s"
  "b_eventsClosed (upd_coord f s) = b_eventsClosed s" "attempted (upd_coord f s) = attempted s"
  "perms (upd_coord f s) = in_coord f (perms s)" "reader (upd_coord f s) = reader s"
  "termPC (upd_coord f s) = termPC s" "callTable (upd_coord f s) = callTable s"
  "callID (upd_coord f s) = callID s" "answers (upd_coord f s) = answers s"
  "otherPC (upd_coord f s) = otherPC s" "closePC (upd_coord f s) = closePC s"
  "launchPC (upd_coord f s) = launchPC s"
  by (simp_all add: upd_coord_def)

lemma dropPending_simps [simp]:
  "turnPC (dropPending i s) = turnPC s" "inFlight (dropPending i s) = inFlight s"
  "turnCount (dropPending i s) = turnCount s" "turnWG (dropPending i s) = turnWG s"
  "gate (dropPending i s) = gate s" "eventsClosing (dropPending i s) = eventsClosing s"
  "b_eventsClosed (dropPending i s) = b_eventsClosed s" "attempted (dropPending i s) = attempted s"
  "perms (dropPending i s) = perms s" "reader (dropPending i s) = reader s"
  "termPC (dropPending i s) = termPC s" "callTable (dropPending i s) = (callTable s)(i := None)"
  "callID (dropPending i s) = callID s" "answers (dropPending i s) = answers s"
  "otherPC (dropPending i s) = otherPC s" "closePC (dropPending i s) = closePC s"
  "launchPC (dropPending i s) = launchPC s"
  by (simp_all add: dropPending_def)

subsection \<open>Quiet steps\<close>

definition adds_no_frame :: "bridge \<Rightarrow> bridge \<Rightarrow> bool" where
  "adds_no_frame s s' \<longleftrightarrow> (\<exists>es. attempted s' = attempted s @ es \<and> list_all (\<lambda>e. \<not> is_frame (be_Kind e)) es)"

definition quiet :: "bridge \<Rightarrow> bridge \<Rightarrow> bool" where
  "quiet s s' \<longleftrightarrow> turnPC s' = turnPC s \<and> inFlight s' = inFlight s \<and> turnCount s' = turnCount s \<and>
     turnWG s' = turnWG s \<and> (\<forall>t. gate s' = HeldByPrompt t \<longleftrightarrow> gate s = HeldByPrompt t) \<and>
     (eventsClosing s \<longrightarrow> eventsClosing s') \<and> (b_eventsClosed s \<longrightarrow> b_eventsClosed s') \<and>
     (b_eventsClosed s' \<longrightarrow> b_eventsClosed s \<or> turnWG s = 0 \<and> eventsClosing s') \<and>
     adds_no_frame s s' \<and> coord_quiet (coord (perms s)) (coord (perms s'))"

definition inv_plain :: "bridge \<Rightarrow> bool" where
  "inv_plain s \<longleftrightarrow> (\<forall>e. reader s = Stamped e \<longrightarrow> \<not> is_frame (be_Kind e)) \<and>
     (termPC s = TermWaiting \<longrightarrow> eventsClosing s)"

lemma adds_no_frame_same: "attempted s' = attempted s \<Longrightarrow> adds_no_frame s s'"
  by (simp add: adds_no_frame_def)

lemma adds_no_frame_one:
  "attempted s' = (if b then attempted s else attempted s @ [e]) \<Longrightarrow> \<not> is_frame (be_Kind e) \<Longrightarrow> adds_no_frame s s'"
  by (cases b) (auto simp: adds_no_frame_def)

lemma event_kind_simps [simp]:
  "be_Kind (event_of k t p) = k" "be_Turn (event_of k t p) = t"
  "\<not> is_frame KindAgentPermissionRequested" "\<not> is_frame KindAgentPermissionResolved"
  "\<not> is_frame KindProcessExited" "\<not> is_frame (KindOther x)" "is_frame KindTurnStarted"
  by (simp_all add: event_of_def is_frame_def)

lemma launch_quiet: "launch_step cfg s s' \<Longrightarrow> quiet s s'"
  by (induction rule: launch_step.induct)
     (auto simp: quiet_def coord_quiet_simple adds_no_frame_def)

lemma take_response_quiet: "quiet s (take_response cfg x result err s)"
  by (auto simp: take_response_def quiet_def adds_no_frame_same Let_def split: option.split)

lemma admitted_event_quiet: "quiet s ((admitted_event k frame s)\<lparr>reader := x\<rparr>)"
  by (auto simp: admitted_event_def quiet_def adds_no_frame_def requested_event_def)

lemma reader_quiet: "reader_step cfg s s' \<Longrightarrow> inv_plain s \<Longrightarrow> quiet s s'"
proof (induction rule: reader_step.induct)
  case (response s x result err i)
  show ?case by (rule take_response_quiet)
next
  case (admitted s k frame)
  show ?case by (rule admitted_event_quiet)
qed (auto simp: quiet_def adds_no_frame_def inv_plain_def coord_quiet_ops coord_quiet_calls
      CloseTurnAdmission_def failPending_def)

lemma deliver_quiet: "quiet s (deliver_answer cfg k r oi err s)"
  by (auto simp: deliver_answer_def quiet_def adds_no_frame_def coord_quiet_calls Let_def)

lemma answer_quiet: "answer_step cfg s s' \<Longrightarrow> quiet s s'"
proof (induction rule: answer_step.induct)
  case (deliver k s r oi err)
  show ?case by (rule deliver_quiet)
qed (auto simp: quiet_def adds_no_frame_same coord_quiet_ops coord_quiet_calls finish_answer_def Let_def)

lemma other_quiet: "other_step cfg s s' \<Longrightarrow> quiet s s'"
  by (induction rule: other_step.induct)
     (auto simp: quiet_def adds_no_frame_same register_call_def Let_def)

lemma tell_exit_quiet: "quiet s ((tell_exit s)\<lparr>termPC := x\<rparr>)"
  by (auto simp: tell_exit_def quiet_def adds_no_frame_def exit_event_def)

lemma end_quiet: "end_step cfg s s' \<Longrightarrow> inv_plain s \<Longrightarrow> quiet s s'"
proof (induction rule: end_step.induct)
  case (term_told s)
  show ?case by (rule tell_exit_quiet)
qed (auto simp: quiet_def adds_no_frame_same coord_quiet_ops inv_plain_def failPending_def)

lemma inv_plain_turn: "turn_step cfg s s' \<Longrightarrow> reader s' = reader s \<and> termPC s' = termPC s \<and> eventsClosing s' = eventsClosing s"
  by (induction rule: turn_step.induct)
     (auto simp: admit_prompt_def call_turn_def register_call_def turn_written_def turn_unwritten_def
        enter_end_turn_def turn_waited_def clear_turn_def report_turn_def leave_turn_def Let_def split_def
        split: if_splits)

lemma inv_plain_reader: "reader_step cfg s s' \<Longrightarrow> inv_plain s \<Longrightarrow> inv_plain s'"
  by (induction rule: reader_step.induct)
     (auto simp: inv_plain_def take_response_def admitted_event_def failPending_def Let_def
        split: option.split)

lemma inv_plain_end: "end_step cfg s s' \<Longrightarrow> inv_plain s \<Longrightarrow> inv_plain s'"
  by (induction rule: end_step.induct) (auto simp: inv_plain_def tell_exit_def failPending_def)

lemma inv_plain_launch: "launch_step cfg s s' \<Longrightarrow> inv_plain s \<Longrightarrow> inv_plain s'"
  by (induction rule: launch_step.induct) (auto simp: inv_plain_def)

lemma inv_plain_others:
  "answer_step cfg s s' \<Longrightarrow> reader s' = reader s \<and> termPC s' = termPC s \<and> eventsClosing s' = eventsClosing s"
  "other_step cfg s s' \<Longrightarrow> reader s' = reader s \<and> termPC s' = termPC s \<and> eventsClosing s' = eventsClosing s"
proof -
  show "answer_step cfg s s' \<Longrightarrow> reader s' = reader s \<and> termPC s' = termPC s \<and> eventsClosing s' = eventsClosing s"
    by (induction rule: answer_step.induct) (auto simp: deliver_answer_def finish_answer_def Let_def)
  show "other_step cfg s s' \<Longrightarrow> reader s' = reader s \<and> termPC s' = termPC s \<and> eventsClosing s' = eventsClosing s"
    by (induction rule: other_step.induct) (auto simp: register_call_def Let_def)
qed

lemma inv_plain_step: "bridge_step cfg s s' \<Longrightarrow> inv_plain s \<Longrightarrow> inv_plain s'"
proof (induction rule: bridge_step.induct)
  case (Turn s s')
  then show ?case using inv_plain_turn [OF Turn.hyps] by (simp add: inv_plain_def)
next
  case (Answer s s')
  then show ?case using inv_plain_others(1) [OF Answer.hyps] by (simp add: inv_plain_def)
next
  case (Other s s')
  then show ?case using inv_plain_others(2) [OF Other.hyps] by (simp add: inv_plain_def)
qed (blast intro: inv_plain_reader inv_plain_end inv_plain_launch)+

lemma inv_plain_reach: "bridge_reach cfg (NewNDJSONBridgeClient cfg) s \<Longrightarrow> inv_plain s"
  by (induction "NewNDJSONBridgeClient cfg" s rule: bridge_reach.induct)
     (auto simp: inv_plain_def NewNDJSONBridgeClient_def dest: inv_plain_step [unfolded inv_plain_def])

lemma step_kinds: "bridge_step cfg s s' \<Longrightarrow> inv_plain s \<Longrightarrow> quiet s s' \<or> turn_step cfg s s'"
  by (induction rule: bridge_step.induct)
     (auto intro: launch_quiet reader_quiet answer_quiet other_quiet end_quiet)

text \<open>
  An invariant \<open>I\<close> of a bridge client, given what is known of every reachable state: it holds
  of a new client, and quiet steps and the steps of turns keep it.
\<close>

locale bridge_invariant =
  fixes cfg :: bridge_cfg
    and K :: "bridge \<Rightarrow> bool"
    and I :: "bridge \<Rightarrow> bool"
  assumes known: "bridge_reach cfg (NewNDJSONBridgeClient cfg) s \<Longrightarrow> K s"
    and fresh: "I (NewNDJSONBridgeClient cfg)"
    and quietly: "K s \<Longrightarrow> I s \<Longrightarrow> quiet s s' \<Longrightarrow> I s'"
    and turning: "K s \<Longrightarrow> I s \<Longrightarrow> turn_step cfg s s' \<Longrightarrow> I s'"
begin

lemma reachable: "bridge_reach cfg (NewNDJSONBridgeClient cfg) s \<Longrightarrow> I s"
proof (induction "NewNDJSONBridgeClient cfg" s rule: bridge_reach.induct)
  case start
  show ?case by (rule fresh)
next
  case (step s' s'')
  from step_kinds [OF step.hyps(3) inv_plain_reach [OF step.hyps(1)]] show ?case
    using known [OF step.hyps(1)] step.hyps(2) quietly turning by blast
qed

end

end
