(* ===== verification/Bridge_Turns.thy ===== *)
theory Bridge_Turns
  imports Bridge_Invariants
begin

text \<open>
  The turns of a bridge client over all its interleavings: how they are counted and which is
  in flight, the barrier of permission requests each of them passes before it ends, and
  what the events say of it.
\<close>

subsection \<open>Turns\<close>

fun live :: "turn_pc \<Rightarrow> bool" where
  "live TurnNone = False"
| "live (TurnOver r) = False"
| "live _ = True"

fun prompting :: "turn_pc \<Rightarrow> bool" where
  "prompting TurnStarting = True"
| "prompting TurnCalling = True"
| "prompting (TurnWriting i) = True"
| "prompting _ = False"

fun unended :: "turn_pc \<Rightarrow> bool" where
  "unended TurnStarting = True"
| "unended TurnCalling = True"
| "unended (TurnWriting i) = True"
| "unended (TurnAwaiting i) = True"
| "unended (TurnEnding r) = True"
| "unended (TurnWaits g a r) = True"
| "unended _ = False"

fun flying :: "turn_pc \<Rightarrow> bool" where
  "flying (TurnClearing r) = True"
| "flying x = unended x"

fun past_barrier :: "turn_pc \<Rightarrow> bool" where
  "past_barrier TurnNone = False"
| "past_barrier x = (\<not> unended x)"

text \<open>
  \<open>inv_turn\<close>: turn ids are handed out in order, the wait group counts the turns that are not
  over, the turn in flight is the newest one and the only one, and a prompt that has not
  written its request holds the gate.
\<close>

definition inv_turn :: "bridge \<Rightarrow> bool" where
  "inv_turn s \<longleftrightarrow>
     (\<forall>t. turnPC s t = TurnNone \<longleftrightarrow> turnCount s \<le> t) \<and>
     turnWG s = card {t. live (turnPC s t)} \<and>
     (\<forall>t. flying (turnPC s t) \<longleftrightarrow> inFlight s = Some t) \<and>
     (\<forall>t. inFlight s = Some t \<longrightarrow> Suc t = turnCount s) \<and>
     (\<forall>t. prompting (turnPC s t) \<longrightarrow> gate s = HeldByPrompt t) \<and>
     (\<forall>t. gate s = HeldByPrompt t \<longrightarrow> live (turnPC s t))"

lemma inv_turnD:
  assumes "inv_turn s"
  shows "turnPC s t = TurnNone \<longleftrightarrow> turnCount s \<le> t" "live (turnPC s t) \<Longrightarrow> t < turnCount s"
    "turnWG s = card {t. live (turnPC s t)}" "flying (turnPC s t) \<longleftrightarrow> inFlight s = Some t"
    "inFlight s = Some t \<Longrightarrow> Suc t = turnCount s" "prompting (turnPC s t) \<Longrightarrow> gate s = HeldByPrompt t"
    "gate s = HeldByPrompt t \<Longrightarrow> live (turnPC s t)"
proof -
  show 1: "turnPC s t = TurnNone \<longleftrightarrow> turnCount s \<le> t" using assms by (simp add: inv_turn_def)
  show "live (turnPC s t) \<Longrightarrow> t < turnCount s" using 1 by (cases "turnCount s \<le> t") auto
qed (use assms in \<open>simp_all add: inv_turn_def\<close>)

lemma live_finite: "inv_turn s \<Longrightarrow> finite {t. live (turnPC s t)}"
  by (rule finite_subset [of _ "{..<turnCount s}"]) (auto dest: inv_turnD(2))

text \<open>A step that moves one turn between two places where it is alive.\<close>

lemma live_set_same:
  "live (turnPC s t) \<Longrightarrow> live x \<Longrightarrow> {u. live (((turnPC s)(t := x)) u)} = {u. live (turnPC s u)}"
  by auto

lemma inv_turn_move:
  assumes inv: "inv_turn s" and l: "live (turnPC s t)" "live x"
    and pc: "turnPC s' = (turnPC s)(t := x)" "turnCount s' = turnCount s" "turnWG s' = turnWG s"
    and fl: "flying x = flying (turnPC s t)" "inFlight s' = inFlight s"
    and g: "prompting x \<Longrightarrow> prompting (turnPC s t) \<and> gate s' = gate s"
      "\<And>u. u \<noteq> t \<Longrightarrow> gate s' = HeldByPrompt u \<longleftrightarrow> gate s = HeldByPrompt u"
  shows "inv_turn s'"
  unfolding inv_turn_def
proof (intro conjI allI impI)
  note D = inv_turnD [OF inv]
  show "turnPC s' u = TurnNone \<longleftrightarrow> turnCount s' \<le> u" for u
    using D(1) [of u] D(2) [OF l(1)] l pc by auto
  show "turnWG s' = card {u. live (turnPC s' u)}"
    using D(3) live_set_same [OF l] pc by simp
  show "flying (turnPC s' u) \<longleftrightarrow> inFlight s' = Some u" for u
    using D(4) [of u] fl pc by (cases "u = t") auto
  show "Suc u = turnCount s'" if "inFlight s' = Some u" for u
    using that D(5) [of u] fl pc by simp
  show "gate s' = HeldByPrompt u" if "prompting (turnPC s' u)" for u
    using that D(6) [of u] g pc by (cases "u = t") auto
  show "live (turnPC s' u)" if "gate s' = HeldByPrompt u" for u
    using that D(7) [of u] g(2) [of u] l pc by (cases "u = t") auto
qed

lemma turn_alive: "inv_turn s \<Longrightarrow> live (turnPC s t) \<Longrightarrow> 0 < turnWG s"
  using live_finite [of s] inv_turnD(3) [of s] by (auto simp: card_gt_0_iff)

lemma inv_turn_new: "inv_turn (NewNDJSONBridgeClient cfg)"
  by (simp add: inv_turn_def NewNDJSONBridgeClient_def)

lemma inv_turn_quiet: "inv_turn s \<Longrightarrow> quiet s s' \<Longrightarrow> inv_turn s'"
  by (simp add: inv_turn_def quiet_def)

lemma inv_turn_admit:
  assumes "inv_turn s" and "gate s = GateFree" and "admit_prompt cfg p s = Inr s'"
  shows "inv_turn s'"
proof -
  let ?t = "turnCount s"
  have s': "turnPC s' = (turnPC s)(?t := TurnStarting)" "inFlight s = None" "inFlight s' = Some ?t"
    "turnCount s' = Suc ?t" "turnWG s' = Suc (turnWG s)" "gate s' = HeldByPrompt ?t"
    using assms(3) by (auto simp: admit_prompt_def Let_def split: if_splits)
  have none: "turnPC s t = TurnNone \<longleftrightarrow> ?t \<le> t" for t using assms(1) by (simp add: inv_turn_def)
  have "{u. live (turnPC s' u)} = insert ?t {u. live (turnPC s u)}" using s'(1) by auto
  moreover have "finite {u. live (turnPC s u)}" "?t \<notin> {u. live (turnPC s u)}"
    using live_finite [OF assms(1)] none [of ?t] by auto
  ultimately have card: "turnWG s' = card {u. live (turnPC s' u)}"
    using assms(1) s'(5) by (simp add: inv_turn_def)
  have calm: "\<not> flying (turnPC s u)" "\<not> prompting (turnPC s u)" for u
    using assms(1,2) s'(2) by (auto simp: inv_turn_def)
  show ?thesis
    using none card calm s' by (auto simp: inv_turn_def le_Suc_eq not_le less_Suc_eq)
qed

lemma inv_turn_leave:
  assumes "inv_turn s" and "turnPC s t = TurnReported r"
  shows "inv_turn (leave_turn t r s)"
proof -
  note D = inv_turnD [OF assms(1)]
  have alive: "live (turnPC s t)" "\<not> flying (turnPC s t)" "\<not> prompting (turnPC s t)" using assms(2) by auto
  have "{u. live (turnPC (leave_turn t r s) u)} = {u. live (turnPC s u)} - {t}"
    by (auto simp: leave_turn_def)
  then have card: "turnWG (leave_turn t r s) = card {u. live (turnPC (leave_turn t r s) u)}"
    using D(3) live_finite [OF assms(1)] alive by (simp add: leave_turn_def)
  have fields: "turnPC (leave_turn t r s) = (turnPC s)(t := TurnOver r)"
    "inFlight (leave_turn t r s) = inFlight s" "turnCount (leave_turn t r s) = turnCount s"
    "gate (leave_turn t r s) = (if gate s = HeldByPrompt t then GateFree else gate s)"
    by (simp_all add: leave_turn_def)
  show ?thesis
    unfolding inv_turn_def
  proof (intro conjI allI impI)
    show "turnPC (leave_turn t r s) u = TurnNone \<longleftrightarrow> turnCount (leave_turn t r s) \<le> u" for u
      using D(1) [of u] D(2) [OF alive(1)] by (auto simp: fields)
    show "flying (turnPC (leave_turn t r s) u) \<longleftrightarrow> inFlight (leave_turn t r s) = Some u" for u
      using D(4) [of u] alive by (cases "u = t") (auto simp: fields)
    show "prompting (turnPC (leave_turn t r s) u) \<Longrightarrow> gate (leave_turn t r s) = HeldByPrompt u" for u
      using D(6) [of u] by (cases "u = t") (auto simp: fields)
    show "gate (leave_turn t r s) = HeldByPrompt u \<Longrightarrow> live (turnPC (leave_turn t r s) u)" for u
      using D(7) [of u] by (cases "u = t") (auto simp: fields split: if_splits)
  qed (use D(5) card in \<open>simp_all add: fields\<close>)
qed

lemma inv_turn_clear:
  assumes "inv_turn s" and "turnPC s t = TurnClearing r"
  shows "inv_turn (clear_turn t r s)"
proof -
  note D = inv_turnD [OF assms(1)]
  have alive: "live (turnPC s t)" "inFlight s = Some t" using assms(2) D(4) [of t] by auto
  have fields: "turnPC (clear_turn t r s) = (turnPC s)(t := TurnReporting r)"
    "inFlight (clear_turn t r s) = None" "turnCount (clear_turn t r s) = turnCount s"
    "gate (clear_turn t r s) = gate s" "turnWG (clear_turn t r s) = turnWG s"
    using alive by (simp_all add: clear_turn_def)
  show ?thesis
    unfolding inv_turn_def
  proof (intro conjI allI impI)
    show "turnPC (clear_turn t r s) u = TurnNone \<longleftrightarrow> turnCount (clear_turn t r s) \<le> u" for u
      using D(1) [of u] D(2) [OF alive(1)] by (auto simp: fields)
    show "turnWG (clear_turn t r s) = card {u. live (turnPC (clear_turn t r s) u)}"
      using D(3) live_set_same [OF alive(1), of "TurnReporting r"] by (simp add: fields)
    show "flying (turnPC (clear_turn t r s) u) \<longleftrightarrow> inFlight (clear_turn t r s) = Some u" for u
      using D(4) [of u] alive by (cases "u = t") (auto simp: fields)
    show "prompting (turnPC (clear_turn t r s) u) \<Longrightarrow> gate (clear_turn t r s) = HeldByPrompt u" for u
      using D(6) [of u] by (cases "u = t") (auto simp: fields)
    show "gate (clear_turn t r s) = HeldByPrompt u \<Longrightarrow> live (turnPC (clear_turn t r s) u)" for u
      using D(7) [of u] by (cases "u = t") (auto simp: fields)
  qed (simp add: fields)
qed

lemma inv_turn_turn: "turn_step cfg s s' \<Longrightarrow> inv_turn s \<Longrightarrow> inv_turn s'"
proof (induction rule: turn_step.induct)
  case (prompt s p s')
  then show ?case by (blast intro: inv_turn_admit)
next
  case (left s t r)
  then show ?case by (blast intro: inv_turn_leave)
next
  case (started s t)
  show ?case
    by (rule inv_turn_move [where s = s and t = t and x = TurnCalling]) (use started in simp_all)
next
  case (call s t)
  show ?case
    by (rule inv_turn_move [where s = s and t = t and x = "TurnWriting (Suc (callID s))"])
       (use call in \<open>simp_all add: call_turn_def register_call_def Let_def\<close>)
next
  case (written s t i)
  show ?case
    by (rule inv_turn_move [where s = s and t = t and x = "TurnAwaiting i"])
       (use written inv_turnD(6) [of s t] in \<open>simp_all add: turn_written_def\<close>)
next
  case (unwritten s t i err partly)
  show ?case
    by (rule inv_turn_move [where s = s and t = t and x = "TurnEnding (Inl err)"])
       (use unwritten in \<open>simp_all add: turn_unwritten_def\<close>)
next
  case (answered s t i a)
  show ?case
    by (rule inv_turn_move [where s = s and t = t and x = "TurnEnding (result_of a)"])
       (use answered in \<open>simp_all\<close>)
next
  case (abandoned s t i)
  show ?case
    by (rule inv_turn_move [where s = s and t = t and x = "TurnEnding (Inl ''context canceled'')"])
       (use abandoned in \<open>simp_all\<close>)
next
  case (enter_end_turn s t r)
  obtain x where x: "turnPC (enter_end_turn t r s) = (turnPC s)(t := x)" "x = TurnClearing r \<or> (\<exists>g a. x = TurnWaits g a r)"
    by (auto simp: enter_end_turn_def split_def Let_def split: option.split)
  show ?case
    by (rule inv_turn_move [where s = s and t = t and x = x])
       (use enter_end_turn x in \<open>auto simp: enter_end_turn_def split_def Let_def\<close>)
next
  case (waited s t g a r)
  show ?case
    by (rule inv_turn_move [where s = s and t = t and x = "TurnClearing r"])
       (use waited in \<open>simp_all add: turn_waited_def\<close>)
next
  case (cleared s t r)
  then show ?case by (blast intro: inv_turn_clear)
next
  case (reported s t r)
  show ?case
    by (rule inv_turn_move [where s = s and t = t and x = "TurnReported r"])
       (use reported in \<open>simp_all add: report_turn_def\<close>)
qed (auto simp: inv_turn_def)

interpretation turns: bridge_invariant cfg "\<lambda>_. True" inv_turn for cfg
  by unfold_locales (auto intro: inv_turn_new inv_turn_quiet inv_turn_turn)

lemmas turnsD = inv_turnD [OF turns.reachable]

subsection \<open>Closing the events\<close>

text \<open>The events are closed only when no turn is left and no turn can be admitted.\<close>

definition inv_closed :: "bridge \<Rightarrow> bool" where
  "inv_closed s \<longleftrightarrow> (b_eventsClosed s \<longrightarrow> turnWG s = 0 \<and> eventsClosing s)"

lemma inv_closed_turn: "turn_step cfg s s' \<Longrightarrow> inv_turn s \<Longrightarrow> inv_closed s \<Longrightarrow> inv_closed s'"
  by (induction rule: turn_step.induct)
     (auto simp: inv_closed_def admit_prompt_def call_turn_def register_call_def turn_written_def
        turn_unwritten_def enter_end_turn_def turn_waited_def clear_turn_def report_turn_def leave_turn_def
        Let_def split_def split: if_splits)

interpretation closing: bridge_invariant cfg inv_turn inv_closed for cfg
proof
  show "bridge_reach cfg (NewNDJSONBridgeClient cfg) s \<Longrightarrow> inv_turn s" for s by (rule turns.reachable)
  show "inv_closed (NewNDJSONBridgeClient cfg)" by (simp add: inv_closed_def NewNDJSONBridgeClient_def)
  show "inv_closed s \<Longrightarrow> quiet s s' \<Longrightarrow> inv_closed s'" for s s' by (auto simp: inv_closed_def quiet_def)
  show "inv_turn s \<Longrightarrow> inv_closed s \<Longrightarrow> turn_step cfg s s' \<Longrightarrow> inv_closed s'" for s s'
    by (rule inv_closed_turn)
qed

lemma open_while_alive: "inv_turn s \<Longrightarrow> inv_closed s \<Longrightarrow> live (turnPC s t) \<Longrightarrow> \<not> b_eventsClosed s"
  using turn_alive [of s t] by (auto simp: inv_closed_def)

subsection \<open>What the events say of a turn\<close>

definition frames_of :: "nat \<Rightarrow> bridge_event list \<Rightarrow> bridge_event list" where
  "frames_of t es = filter (\<lambda>e. be_Turn e = Some t \<and> is_frame (be_Kind e)) es"

definition start_event :: "nat \<Rightarrow> bridge_event" where
  "start_event t = event_of KindTurnStarted (Some t) None"

fun told_of :: "bridge_cfg \<Rightarrow> nat \<Rightarrow> turn_pc \<Rightarrow> bridge_event list" where
  "told_of cfg t TurnNone = []"
| "told_of cfg t TurnStarting = []"
| "told_of cfg t (TurnReported r) = [start_event t, terminal_event cfg t r]"
| "told_of cfg t (TurnOver r) = [start_event t, terminal_event cfg t r]"
| "told_of cfg t _ = [start_event t]"

definition inv_told :: "bridge_cfg \<Rightarrow> bridge \<Rightarrow> bool" where
  "inv_told cfg s \<longleftrightarrow> (\<forall>t. frames_of t (attempted s) = told_of cfg t (turnPC s t))"

lemma terminal_event_fields [simp]:
  "be_Turn (terminal_event cfg t r) = Some t" "is_frame (be_Kind (terminal_event cfg t r))"
  by (simp_all add: terminal_event_def event_of_def is_frame_def split: sum.split)

lemma frames_of_append [simp]: "frames_of t (es @ fs) = frames_of t es @ frames_of t fs"
  by (simp add: frames_of_def)

lemma frames_of_one [simp]:
  "frames_of u [event_of KindTurnStarted (Some t) None] = (if u = t then [start_event t] else [])"
  "frames_of u [terminal_event cfg t r] = (if u = t then [terminal_event cfg t r] else [])"
  by (auto simp: frames_of_def start_event_def event_of_def)

lemma inv_told_quiet: "inv_told cfg s \<Longrightarrow> quiet s s' \<Longrightarrow> inv_told cfg s'"
  by (auto simp: inv_told_def quiet_def adds_no_frame_def frames_of_def list_all_iff filter_empty_conv)

lemma inv_told_move:
  assumes "inv_told cfg s" and "turnPC s' = (turnPC s)(t := x)" and "told_of cfg t x = told_of cfg t (turnPC s t) @ ys"
    and "\<And>u. frames_of u (attempted s') = frames_of u (attempted s) @ (if u = t then ys else [])"
  shows "inv_told cfg s'"
  using assms by (auto simp: inv_told_def)

lemma inv_told_turn:
  assumes "turn_step cfg s s'" and "inv_turn s" "inv_closed s" "inv_told cfg s"
  shows "inv_told cfg s'"
  using assms
proof (induction rule: turn_step.induct)
  case (prompt s p s')
  have "turnPC s' = (turnPC s)(turnCount s := TurnStarting)" "attempted s' = attempted s"
    using prompt.hyps(2) by (auto simp: admit_prompt_def Let_def split: if_splits)
  moreover have "turnPC s (turnCount s) = TurnNone" using inv_turnD(1) [OF prompt.prems(1)] by simp
  ultimately show ?case
    using inv_told_move [where ys = "[]", OF prompt.prems(3), of s' "turnCount s" TurnStarting] by simp
next
  case (started s t)
  show ?case
    by (rule inv_told_move [where s = s and t = t and x = TurnCalling and ys = "[start_event t]"])
       (use started open_while_alive [of s t] in simp_all)
next
  case (call s t)
  show ?case
    by (rule inv_told_move [where s = s and t = t and x = "TurnWriting (Suc (callID s))" and ys = "[]"])
       (use call in \<open>simp_all add: call_turn_def register_call_def Let_def\<close>)
next
  case (written s t i)
  show ?case
    by (rule inv_told_move [where s = s and t = t and x = "TurnAwaiting i" and ys = "[]"])
       (use written in \<open>simp_all add: turn_written_def\<close>)
next
  case (unwritten s t i err partly)
  show ?case
    by (rule inv_told_move [where s = s and t = t and x = "TurnEnding (Inl err)" and ys = "[]"])
       (use unwritten in \<open>simp_all add: turn_unwritten_def\<close>)
next
  case (answered s t i a)
  show ?case
    by (rule inv_told_move [where s = s and t = t and x = "TurnEnding (result_of a)" and ys = "[]"])
       (use answered in simp_all)
next
  case (abandoned s t i)
  show ?case
    by (rule inv_told_move [where s = s and t = t and x = "TurnEnding (Inl ''context canceled'')" and ys = "[]"])
       (use abandoned in simp_all)
next
  case (enter_end_turn s t r)
  obtain x where x: "turnPC (enter_end_turn t r s) = (turnPC s)(t := x)" "x = TurnClearing r \<or> (\<exists>g a. x = TurnWaits g a r)"
    by (auto simp: enter_end_turn_def split_def Let_def split: option.split)
  show ?case
    by (rule inv_told_move [where s = s and t = t and x = x and ys = "[]"])
       (use enter_end_turn x in \<open>auto simp: enter_end_turn_def split_def Let_def\<close>)
next
  case (waited s t g a r)
  show ?case
    by (rule inv_told_move [where s = s and t = t and x = "TurnClearing r" and ys = "[]"])
       (use waited in \<open>simp_all add: turn_waited_def\<close>)
next
  case (cleared s t r)
  show ?case
    by (rule inv_told_move [where s = s and t = t and x = "TurnReporting r" and ys = "[]"])
       (use cleared in \<open>simp_all add: clear_turn_def\<close>)
next
  case (reported s t r)
  show ?case
    by (rule inv_told_move [where s = s and t = t and x = "TurnReported r" and ys = "[terminal_event cfg t r]"])
       (use reported open_while_alive [of s t] in \<open>simp_all add: report_turn_def\<close>)
next
  case (left s t r)
  show ?case
    by (rule inv_told_move [where s = s and t = t and x = "TurnOver r" and ys = "[]"])
       (use left in \<open>simp_all add: leave_turn_def\<close>)
qed (auto simp: inv_told_def)

interpretation telling: bridge_invariant cfg "\<lambda>s. inv_turn s \<and> inv_closed s" "inv_told cfg" for cfg
proof
  show "bridge_reach cfg (NewNDJSONBridgeClient cfg) s \<Longrightarrow> inv_turn s \<and> inv_closed s" for s
    by (simp add: turns.reachable closing.reachable)
  show "inv_told cfg (NewNDJSONBridgeClient cfg)"
    by (simp add: inv_told_def NewNDJSONBridgeClient_def frames_of_def)
  show "inv_told cfg s \<Longrightarrow> quiet s s' \<Longrightarrow> inv_told cfg s'" for s s' by (rule inv_told_quiet)
  show "inv_turn s \<and> inv_closed s \<Longrightarrow> inv_told cfg s \<Longrightarrow> turn_step cfg s s' \<Longrightarrow> inv_told cfg s'" for s s'
    by (blast intro: inv_told_turn)
qed

end
