(* ===== verification/Bridge_Barrier.thy ===== *)
theory Bridge_Barrier
  imports Bridge_Turns
begin

text \<open>
  A bridge client and its permission coordinator. The client drives the coordinator only
  through the steps of \<open>Permission_Steps\<close>, so everything proved of those holds here; a turn
  is the coordinator's generation of the same number, and it ends only when the generation's
  \<open>done\<close> channel is closed.
\<close>

subsection \<open>The client refines the permission steps\<close>

definition perm_follows :: "bridge \<Rightarrow> bridge \<Rightarrow> bool" where
  "perm_follows s s' \<longleftrightarrow> perms s' = perms s \<or> perm_step (perms s) (perms s')"

lemma follows_launch: "launch_step cfg s s' \<Longrightarrow> perm_follows s s'"
  by (induction rule: launch_step.induct) (auto simp: perm_follows_def intro: perm_step.set_session)

lemma follows_turn: "turn_step cfg s s' \<Longrightarrow> perm_follows s s'"
proof (induction rule: turn_step.induct)
  case (enter_end_turn s t r)
  have "perms (enter_end_turn t r s) = in_coord (\<lambda>p. fst (end_turn_close p)) (perms s)"
    by (simp add: enter_end_turn_def split_def Let_def in_coord_def)
  then show ?case by (simp add: perm_follows_def perm_step.end_close)
qed (auto simp: perm_follows_def admit_prompt_def call_turn_def register_call_def turn_written_def
      turn_unwritten_def turn_waited_def clear_turn_def report_turn_def leave_turn_def Let_def
      intro: perm_step.begin_turn perm_step.end_forget perm_step.cancel_turn split: if_splits)

lemma follows_reader: "reader_step cfg s s' \<Longrightarrow> perm_follows s s'"
  by (induction rule: reader_step.induct)
     (auto simp: perm_follows_def take_response_def admitted_event_def failPending_def Let_def
        intro: perm_step.arrive perm_step.close_admission perm_step.close_all split: option.split)

lemma follows_answer: "answer_step cfg s s' \<Longrightarrow> perm_follows s s'"
proof (induction rule: answer_step.induct)
  case (deliver k s r oi err)
  then have "perm_step (perms s) (deliver_call k r oi err (perms s))"
    by (intro perm_step.deliver) (auto simp: runs_def)
  moreover have "perms (deliver_answer cfg k r oi err s) = deliver_call k r oi err (perms s)"
    by (simp add: deliver_answer_def Let_def)
  ultimately show ?case by (simp add: perm_follows_def)
next
  case (complete k s r)
  then show ?case
    using perm_step.complete [of k "perms s" r]
    by (simp add: perm_follows_def finish_answer_def Let_def runs_def)
qed (auto simp: perm_follows_def runs_def intro: perm_step.intros)

lemma follows_other: "other_step cfg s s' \<Longrightarrow> perm_follows s s'"
  by (induction rule: other_step.induct) (auto simp: perm_follows_def register_call_def Let_def)

lemma follows_end: "end_step cfg s s' \<Longrightarrow> perm_follows s s'"
  by (induction rule: end_step.induct)
     (auto simp: perm_follows_def tell_exit_def failPending_def intro: perm_step.close_all)

lemma follows_step: "bridge_step cfg s s' \<Longrightarrow> perm_follows s s'"
  by (induction rule: bridge_step.induct)
     (blast intro: follows_launch follows_turn follows_reader follows_answer follows_other follows_end)+

lemma follows_reach: "bridge_reach cfg s s' \<Longrightarrow> perm_reach (perms s) (perms s')"
proof (induction rule: bridge_reach.induct)
  case (step s s' s'')
  from follows_step [OF step.hyps(2)] step.IH show ?case
    by (auto simp: perm_follows_def intro: perm_reach.step)
qed (rule perm_reach.start)

lemma bridge_perm_inv: "bridge_reach cfg (NewNDJSONBridgeClient cfg) s \<Longrightarrow> perm_inv (perms s)"
  using follows_reach perm_inv_reach perm_inv_new by (fastforce simp: NewNDJSONBridgeClient_def)

subsection \<open>The barrier\<close>

fun waits_own :: "nat \<Rightarrow> turn_pc \<Rightarrow> bool" where
  "waits_own t (TurnWaits g a r) = (g = Suc t \<and> a = Suc t)"
| "waits_own t _ = True"

definition inv_barrier :: "bridge \<Rightarrow> bool" where
  "inv_barrier s \<longleftrightarrow> generation (coord (perms s)) = turnCount s \<and>
     (\<forall>t. unended (turnPC s t) \<longrightarrow> turns (coord (perms s)) (Suc t) = Some (Suc t)) \<and>
     (\<forall>t. waits_own t (turnPC s t)) \<and>
     (\<forall>t. past_barrier (turnPC s t) \<longrightarrow> turn_done (turn_at (coord (perms s)) (Suc t)))"

lemma inv_barrierD:
  assumes "inv_barrier s"
  shows "generation (coord (perms s)) = turnCount s" "waits_own t (turnPC s t)"
    "unended (turnPC s t) \<Longrightarrow> turns (coord (perms s)) (Suc t) = Some (Suc t)"
    "past_barrier (turnPC s t) \<Longrightarrow> turn_done (turn_at (coord (perms s)) (Suc t))"
  using assms by (simp_all add: inv_barrier_def)

lemma inv_barrier_quiet: "inv_barrier s \<Longrightarrow> quiet s s' \<Longrightarrow> inv_barrier s'"
  by (auto simp: inv_barrier_def quiet_def coord_quiet_def)

lemma inv_barrier_move:
  assumes "inv_barrier s" and "turnPC s' = (turnPC s)(t := x)" "turnCount s' = turnCount s"
    and "perms s' = perms s" and "waits_own t x"
    and "unended x \<Longrightarrow> unended (turnPC s t)" "past_barrier x \<Longrightarrow> past_barrier (turnPC s t)"
  shows "inv_barrier s'"
  using assms unfolding inv_barrier_def by (simp split: if_splits)

lemma BeginTurn_turns:
  "generation (BeginTurn p) = Suc (generation p)"
  "turns (BeginTurn p) = (turns p)(Suc (generation p) \<mapsto> Suc (generation p))"
  "a \<noteq> Suc (generation p) \<Longrightarrow> turn_done (turn_at p a) \<Longrightarrow> turn_done (turn_at (BeginTurn p) a)"
  by (auto simp: BeginTurn_def retire_turn_def closeTurnDone_def Let_def split: option.split)

lemma inv_barrier_admit:
  assumes "inv_turn s" "inv_barrier s" and "admit_prompt cfg p s = Inr s'"
  shows "inv_barrier s'"
proof -
  let ?t = "turnCount s"
  have s': "turnPC s' = (turnPC s)(?t := TurnStarting)" "turnCount s' = Suc ?t"
    "coord (perms s') = BeginTurn (coord (perms s))" "inFlight s = None"
    using assms(3) by (auto simp: admit_prompt_def Let_def split: if_splits)
  have "t < ?t" if "past_barrier (turnPC s t)" for t
    using that inv_turnD(1) [OF assms(1), of t] by (cases "turnCount s \<le> t") auto
  moreover have "\<not> unended (turnPC s t)" for t
    using inv_turnD(4) [OF assms(1), of t] s'(4) by (cases "turnPC s t") auto
  ultimately show ?thesis
    using assms(2) by (auto simp: inv_barrier_def s' BeginTurn_turns)
qed

lemma inv_barrier_end_turn:
  assumes "inv_turn s" "inv_barrier s" and "turnPC s t = TurnEnding r"
  shows "inv_barrier (enter_end_turn t r s)" "turnPC (enter_end_turn t r s) = (turnPC s)(t := TurnWaits (Suc t) (Suc t) r)"
proof -
  let ?p = "coord (perms s)"
  have "inFlight s = Some t" using inv_turnD(4) [OF assms(1), of t] assms(3) by simp
  then have g: "generation ?p = Suc t" "turns ?p (Suc t) = Some (Suc t)"
    using inv_turnD(5) [OF assms(1), of t] inv_barrierD(1) [OF assms(2)] inv_barrierD(3) [OF assms(2), of t] assms(3) by simp_all
  have fields: "turnPC (enter_end_turn t r s) = (turnPC s)(t := TurnWaits (Suc t) (Suc t) r)"
    "turnCount (enter_end_turn t r s) = turnCount s"
    "coord (perms (enter_end_turn t r s)) = closeTurnAdmission (Suc t) ?p"
    using g by (simp_all add: enter_end_turn_def end_turn_close_def)
  show "turnPC (enter_end_turn t r s) = (turnPC s)(t := TurnWaits (Suc t) (Suc t) r)" by (rule fields(1))
  have "coord_quiet ?p (closeTurnAdmission (Suc t) ?p)" by (rule coord_quiet_closeTurnAdmission)
  with assms(2,3) g show "inv_barrier (enter_end_turn t r s)"
    by (auto simp: inv_barrier_def fields coord_quiet_def)
qed

lemma inv_barrier_waited:
  assumes "inv_turn s" "inv_barrier s" and "turnPC s t = TurnWaits g a r"
    and "turn_done (turn_at (coord (perms s)) a)"
  shows "inv_barrier (turn_waited t g a r s)"
proof -
  have ga: "g = Suc t" "a = Suc t" using inv_barrierD(2) [OF assms(2), of t] assms(3) by simp_all
  have "inFlight s = Some t" using inv_turnD(4) [OF assms(1), of t] assms(3) by simp
  then have alone: "\<not> unended (turnPC s u)" if "u \<noteq> t" for u
    using that inv_turnD(4) [OF assms(1), of u] by (cases "turnPC s u") auto
  have fields: "turnPC (turn_waited t g a r s) = (turnPC s)(t := TurnClearing r)"
    "turnCount (turn_waited t g a r s) = turnCount s"
    "coord (perms (turn_waited t g a r s)) = end_turn_forget g a (coord (perms s))"
    by (simp_all add: turn_waited_def)
  have same: "generation (end_turn_forget g a p) = generation p" "turn_at (end_turn_forget g a p) = turn_at p" for p
    by (simp_all add: end_turn_forget_def)
  show ?thesis
    using assms(2,4) alone ga unfolding inv_barrier_def fields same by auto
qed

lemma inv_barrier_turn:
  assumes "turn_step cfg s s'" and "inv_turn s" "inv_barrier s"
  shows "inv_barrier s'"
  using assms
proof (induction rule: turn_step.induct)
  case (prompt s p s')
  then show ?case by (blast intro: inv_barrier_admit)
next
  case (enter_end_turn s t r)
  then show ?case by (blast intro: inv_barrier_end_turn)
next
  case (waited s t g a r)
  then show ?case by (blast intro: inv_barrier_waited)
next
  case (cancel_permissions s)
  then show ?case
    using coord_quiet_CancelTurn [of "coord (perms s)"] by (auto simp: inv_barrier_def coord_quiet_def)
next
  case (started s t)
  show ?case by (rule inv_barrier_move [where s = s and t = t and x = TurnCalling]) (use started in simp_all)
next
  case (call s t)
  show ?case
    by (rule inv_barrier_move [where s = s and t = t and x = "TurnWriting (Suc (callID s))"])
       (use call in \<open>simp_all add: call_turn_def register_call_def Let_def\<close>)
next
  case (written s t i)
  show ?case
    by (rule inv_barrier_move [where s = s and t = t and x = "TurnAwaiting i"])
       (use written in \<open>simp_all add: turn_written_def\<close>)
next
  case (unwritten s t i err partly)
  show ?case
    by (rule inv_barrier_move [where s = s and t = t and x = "TurnEnding (Inl err)"])
       (use unwritten in \<open>simp_all add: turn_unwritten_def\<close>)
next
  case (answered s t i a)
  show ?case
    by (rule inv_barrier_move [where s = s and t = t and x = "TurnEnding (result_of a)"])
       (use answered in simp_all)
next
  case (abandoned s t i)
  show ?case
    by (rule inv_barrier_move [where s = s and t = t and x = "TurnEnding (Inl ''context canceled'')"])
       (use abandoned in simp_all)
next
  case (cleared s t r)
  show ?case
    by (rule inv_barrier_move [where s = s and t = t and x = "TurnReporting r"])
       (use cleared in \<open>simp_all add: clear_turn_def\<close>)
next
  case (reported s t r)
  show ?case
    by (rule inv_barrier_move [where s = s and t = t and x = "TurnReported r"])
       (use reported in \<open>simp_all add: report_turn_def\<close>)
next
  case (left s t r)
  show ?case
    by (rule inv_barrier_move [where s = s and t = t and x = "TurnOver r"])
       (use left in \<open>simp_all add: leave_turn_def\<close>)
qed (auto simp: inv_barrier_def)

interpretation barrier: bridge_invariant cfg inv_turn inv_barrier for cfg
proof
  show "bridge_reach cfg (NewNDJSONBridgeClient cfg) s \<Longrightarrow> inv_turn s" for s by (rule turns.reachable)
  show "inv_barrier (NewNDJSONBridgeClient cfg)"
    by (simp add: inv_barrier_def NewNDJSONBridgeClient_def new_permissions_def NewBestEffortPermissionRequests_def)
  show "inv_barrier s \<Longrightarrow> quiet s s' \<Longrightarrow> inv_barrier s'" for s s' by (rule inv_barrier_quiet)
  show "inv_turn s \<Longrightarrow> inv_barrier s \<Longrightarrow> turn_step cfg s s' \<Longrightarrow> inv_barrier s'" for s s'
    by (rule inv_barrier_turn)
qed

text \<open>A turn past its barrier has no permission request in flight.\<close>

lemma past_barrier_over:
  assumes "bridge_reach cfg (NewNDJSONBridgeClient cfg) s" and "past_barrier (turnPC s t)"
    and "c \<in> set (calls (perms s))" "counted (adm c)" "adm_turn (adm c) = Some (Suc t)"
  shows "over (pc c)"
proof -
  have inv: "inv_turns (coord (perms s))" "inv_count (perms s)"
    using bridge_perm_inv [OF assms(1)] by (simp_all add: perm_inv_def)
  have "turn_done (turn_at (coord (perms s)) (Suc t))"
    using barrier.reachable [OF assms(1)] assms(2) by (simp add: inv_barrier_def)
  then have "dispatches (turn_at (coord (perms s)) (Suc t)) = 0" by (rule turn_ok_done [OF inv(1)])
  then have "count_of (holds_turn (Suc t)) (calls (perms s)) = 0" using inv(2) by (simp add: inv_count_def)
  then have "\<not> holds_turn (Suc t) c" using assms(3) by (simp add: count_of_zero_iff)
  with assms(4,5) show ?thesis by (simp add: holds_turn_def)
qed

end
