(* ===== verification/Bridge_Stuck.thy ===== *)
theory Bridge_Stuck
  imports Bridge_Barrier Permission_Properties
begin

text \<open>
  The one way a turn never ends. \<open>Prompt\<close> holds the gate \<open>promptCloseMu\<close> while it writes its
  request. Where the write fails it calls \<open>finishTurn\<close>, whose \<open>EndTurn\<close> waits for the permission
  requests of the turn, still holding the gate; a request that has started its callback
  takes the same gate before it answers. So each waits for the other, and nothing the
  agent, the host or \<open>Close\<close> does changes it.
\<close>

fun wants_gate :: "call_pc \<Rightarrow> bool" where
  "wants_gate (Waiting i req) = True"
| "wants_gate (Deciding i req ans) = True"
| "wants_gate _ = False"

fun waits_barrier :: "turn_pc \<Rightarrow> bool" where
  "waits_barrier (TurnWaits g a r) = True"
| "waits_barrier _ = False"

definition blocked_call :: "nat \<Rightarrow> nat \<Rightarrow> permissions \<Rightarrow> bool" where
  "blocked_call t k q \<longleftrightarrow> k < length (calls q) \<and> wants_gate (pc (calls q ! k)) \<and>
     counted (adm (calls q ! k)) \<and> adm_turn (adm (calls q ! k)) = Some (Suc t)"

definition stuck :: "nat \<Rightarrow> nat \<Rightarrow> bridge \<Rightarrow> bool" where
  "stuck t k s \<longleftrightarrow> gate s = HeldByPrompt t \<and> waits_barrier (turnPC s t) \<and> blocked_call t k (perms s)"

lemma blocked_calls_same: "calls q' = calls q \<Longrightarrow> blocked_call t k q \<Longrightarrow> blocked_call t k q'"
  by (simp add: blocked_call_def)

lemma blocked_coord [simp]:
  "blocked_call t k (q\<lparr>coord := p\<rparr>) = blocked_call t k q" "blocked_call t k (in_coord f q) = blocked_call t k q"
  by (simp_all add: blocked_call_def)

lemma blocked_at_call:
  "blocked_call t k q \<Longrightarrow> (j = k \<Longrightarrow> wants_gate (pc (f (calls q ! k))) \<and> adm (f (calls q ! k)) = adm (calls q ! k)) \<Longrightarrow>
   blocked_call t k (at_call j f q)"
  by (cases "j = k") (auto simp: blocked_call_def at_call_def)

lemma blocked_wants: "blocked_call t k q \<Longrightarrow> wants_gate (pc (calls q ! k))"
  by (simp add: blocked_call_def)

lemma blocked_append: "calls q' = calls q @ cs \<Longrightarrow> blocked_call t k q \<Longrightarrow> blocked_call t k q'"
  by (simp add: blocked_call_def nth_append)

lemma blocked_arrive: "blocked_call t k q \<Longrightarrow> blocked_call t k (arrive fd x q)"
  by (erule blocked_append [rotated]) (simp add: arrive_def split_def Let_def)

text \<open>The turn cannot pass its barrier while the call is blocked.\<close>

lemma blocked_not_done:
  assumes "perm_inv q" and "blocked_call t k q"
  shows "\<not> turn_done (turn_at (coord q) (Suc t))"
proof
  assume finished: "turn_done (turn_at (coord q) (Suc t))"
  have inv: "inv_turns (coord q)" "inv_count q" using assms(1) by (simp_all add: perm_inv_def)
  have "calls q ! k \<in> set (calls q)" using assms(2) by (simp add: blocked_call_def)
  moreover have "count_of (holds_turn (Suc t)) (calls q) = 0"
    using turn_ok_done [OF inv(1) finished] inv(2) by (simp add: inv_count_def)
  ultimately have "\<not> holds_turn (Suc t) (calls q ! k)" by (simp add: count_of_zero_iff)
  with assms(2) show False
    by (cases "pc (calls q ! k)") (auto simp: blocked_call_def holds_turn_def)
qed

lemma stuck_turn:
  assumes "turn_step cfg s s'" and "inv_turn s" "inv_barrier s" "perm_inv (perms s)" "stuck t k s"
  shows "stuck t k s'"
  using assms
proof (induction rule: turn_step.induct)
  case (written s u i)
  then have "gate s = HeldByPrompt u" using inv_turnD(6) [of s u] by simp
  with written show ?case by (auto simp: stuck_def)
next
  case (enter_end_turn s u r)
  then have "u \<noteq> t" by (auto simp: stuck_def)
  moreover have "calls (perms (enter_end_turn u r s)) = calls (perms s)"
    by (simp add: enter_end_turn_def split_def Let_def)
  ultimately show ?case
    using enter_end_turn.prems(4) by (auto simp: stuck_def enter_end_turn_def split_def Let_def intro: blocked_calls_same)
next
  case (waited s u g a r)
  have "u \<noteq> t"
  proof
    assume "u = t"
    then have "a = Suc t" using inv_barrierD(2) [OF waited.prems(2), of t] waited.hyps(1) by simp
    with waited blocked_not_done [of "perms s" t k] show False by (simp add: stuck_def)
  qed
  with waited.prems(4) show ?case by (auto simp: stuck_def turn_waited_def intro: blocked_calls_same)
next
  case (left s u r)
  then show ?case by (auto simp: stuck_def leave_turn_def)
qed (auto simp: stuck_def call_turn_def register_call_def turn_unwritten_def clear_turn_def report_turn_def
      Let_def)

lemma stuck_answer:
  assumes "answer_step cfg s s'" and "stuck t k s"
  shows "stuck t k s'"
  using assms
proof (induction rule: answer_step.induct)
  case (start j s req)
  have "j \<noteq> k" using start by (auto simp: stuck_def blocked_call_def)
  with start.prems show ?case
    by (auto simp: stuck_def start_call_def intro: blocked_at_call split: sum.split)
next
  case (deliver j s r oi err)
  have "j \<noteq> k" using deliver by (auto simp: stuck_def blocked_call_def)
  with deliver.prems show ?case
    by (auto simp: stuck_def deliver_answer_def deliver_call_def Let_def intro: blocked_at_call)
next
  case (forget j s r i)
  have "j \<noteq> k" using forget by (auto simp: stuck_def blocked_call_def)
  with forget.prems show ?case
    by (auto simp: stuck_def intro!: blocked_at_call)
next
  case (complete j s r)
  have "j \<noteq> k" using complete by (auto simp: stuck_def blocked_call_def)
  with complete.prems show ?case
    by (auto simp: stuck_def finish_answer_def Let_def
        intro!: blocked_at_call)
next
  case (check j s)
  have "j \<noteq> k" using check by (auto simp: stuck_def blocked_call_def)
  with check.prems show ?case by (auto simp: stuck_def check_call_def intro: blocked_at_call)
qed (auto simp: stuck_def blocked_wants intro!: blocked_at_call)

lemma stuck_reader: "reader_step cfg s s' \<Longrightarrow> stuck t k s \<Longrightarrow> stuck t k s'"
  by (induction rule: reader_step.induct)
     (auto simp: stuck_def take_response_def admitted_event_def failPending_def Let_def
        intro: blocked_arrive split: option.split)

lemma stuck_others:
  "launch_step cfg s s' \<Longrightarrow> stuck t k s \<Longrightarrow> stuck t k s'"
  "other_step cfg s s' \<Longrightarrow> stuck t k s \<Longrightarrow> stuck t k s'"
  "end_step cfg s s' \<Longrightarrow> stuck t k s \<Longrightarrow> stuck t k s'"
proof -
  show "launch_step cfg s s' \<Longrightarrow> stuck t k s \<Longrightarrow> stuck t k s'"
    by (induction rule: launch_step.induct) (auto simp: stuck_def)
  show "other_step cfg s s' \<Longrightarrow> stuck t k s \<Longrightarrow> stuck t k s'"
    by (induction rule: other_step.induct) (auto simp: stuck_def register_call_def Let_def)
  show "end_step cfg s s' \<Longrightarrow> stuck t k s \<Longrightarrow> stuck t k s'"
    by (induction rule: end_step.induct) (auto simp: stuck_def tell_exit_def failPending_def)
qed

lemma stuck_step:
  assumes "bridge_step cfg s s'" and "bridge_reach cfg (NewNDJSONBridgeClient cfg) s" and "stuck t k s"
  shows "stuck t k s'"
  using assms(1)
proof cases
  case Turn
  then show ?thesis
    by (rule stuck_turn)
       (use assms(2,3) turns.reachable barrier.reachable bridge_perm_inv in blast)+
next
  case Answer
  then show ?thesis using assms(3) by (rule stuck_answer)
next
  case Reader
  then show ?thesis using assms(3) by (rule stuck_reader)
qed (use assms(3) stuck_others in blast)+

lemma stuck_forever:
  assumes "bridge_reach cfg s s'" and "bridge_reach cfg (NewNDJSONBridgeClient cfg) s" and "stuck t k s"
  shows "stuck t k s'"
  using assms
proof (induction rule: bridge_reach.induct)
  case (step s s' s'')
  then have "bridge_reach cfg (NewNDJSONBridgeClient cfg) s'" by (blast intro: bridge_reach_trans)
  with step show ?case by (blast intro: stuck_step)
qed simp

lemma stuck_open:
  assumes "bridge_reach cfg (NewNDJSONBridgeClient cfg) s" and "stuck t k s"
  shows "\<not> b_eventsClosed s" "inFlight s = Some t"
proof -
  have "live (turnPC s t)" "flying (turnPC s t)"
    using assms(2) by (cases "turnPC s t"; simp add: stuck_def)+
  then show "\<not> b_eventsClosed s" "inFlight s = Some t"
    using assms(1) open_while_alive turns.reachable closing.reachable inv_turnD(4) by blast+
qed

subsection \<open>A run that gets stuck\<close>

definition ex_cfg :: bridge_cfg where
  "ex_cfg = \<lparr>bc_Component = ''claudeacp'', bc_Normalize = (\<lambda>x. x), bc_Responder = True\<rparr>"

definition ex_est :: established where
  "ex_est = \<lparr>est_sessionID = ''s'', est_systemPrompt = [], est_sessionClose = False, est_skipped = [],
     est_events = [(KindSessionReady, None)]\<rparr>"

definition ex_ask :: raw where
  "ex_ask = Some (jobj [(''id'', JNum ''7''), (''method'', jstr ''session/request_permission''),
     (''params'', the ex_params)])"

definition ex_frame :: rpc_frame where
  "ex_frame = no_frame\<lparr>frame_ID := Some (JNum ''7''), Method := ''session/request_permission'', Params := ex_params\<rparr>"

lemma ex_classify: "classify_frame ex_ask = Server_Request ex_frame"
  by code_simp

text \<open>The client after the launch opened its session, and the turn whose prompt is about to be
  written while a permission request waits for its callback.\<close>

definition ex_opened :: bridge where
  "ex_opened =
     (emit_event (event_of (KindOther ''process.started'') None (Some AnyNull))
       ((NewNDJSONBridgeClient ex_cfg)\<lparr>launchPC := LaunchTalking, reader := Reading, termPC := TermRuns\<rparr>))
     \<lparr>launchPC := LaunchOpened ex_est, b_session := est_sessionID ex_est, b_sessionClose := est_sessionClose ex_est\<rparr>"

lemma ex_opened_reach: "bridge_reach ex_cfg (NewNDJSONBridgeClient ex_cfg) ex_opened"
proof -
  let ?s = "emit_event (event_of (KindOther ''process.started'') None (Some AnyNull))
       ((NewNDJSONBridgeClient ex_cfg)\<lparr>launchPC := LaunchTalking, reader := Reading, termPC := TermRuns\<rparr>)"
  have 1: "bridge_step ex_cfg (NewNDJSONBridgeClient ex_cfg) ?s"
    by (rule Launch, rule launch_started) (simp add: NewNDJSONBridgeClient_def)
  have "bridge_step ex_cfg ?s ex_opened"
    unfolding ex_opened_def by (rule Launch, rule launch_opened) (simp_all add: ex_est_def)
  with 1 show ?thesis by (blast intro: bridge_reach.intros)
qed

lemma ex_opened_fields:
  "gate ex_opened = GateFree" "inFlight ex_opened = None" "turnCount ex_opened = 0" "b_closed ex_opened = False"
  "eventsClosing ex_opened = False" "b_session ex_opened = ''s''" "reader ex_opened = Reading"
  "perms ex_opened = new_permissions True" "callID ex_opened = 0" "turnPC ex_opened = (\<lambda>_. TurnNone)"
  "turnWG ex_opened = 0" "stdinClosed ex_opened = False"
  by (simp_all add: ex_opened_def NewNDJSONBridgeClient_def emit_event_def ex_est_def ex_cfg_def eventsCapacity_def)

definition ex_prompted :: bridge where
  "ex_prompted = (case admit_prompt ex_cfg ''hi'' ex_opened of Inr s \<Rightarrow> s | Inl _ \<Rightarrow> ex_opened)"

lemma ex_admit: "admit_prompt ex_cfg ''hi'' ex_opened = Inr ex_prompted"
  by (simp add: ex_prompted_def admit_prompt_def ex_opened_fields Let_def)

lemma ex_prompted_fields:
  "gate ex_prompted = HeldByPrompt 0" "inFlight ex_prompted = Some 0" "reader ex_prompted = Reading"
  "perms ex_prompted = in_coord BeginTurn (new_permissions True)" "callID ex_prompted = 0"
  "turnPC ex_prompted = (\<lambda>_. TurnNone)(0 := TurnStarting)"
  by (simp_all add: ex_prompted_def admit_prompt_def ex_opened_fields Let_def)

definition ex_calling :: bridge where
  "ex_calling = call_turn 0 (set_turnPC 0 TurnCalling (emit_event (event_of KindTurnStarted (Some 0) None) ex_prompted))"

lemma ex_calling_reach: "bridge_reach ex_cfg (NewNDJSONBridgeClient ex_cfg) ex_calling"
proof -
  have 1: "bridge_step ex_cfg ex_opened ex_prompted"
    by (rule Turn, rule turn_step.prompt [OF _ ex_admit]) (simp add: ex_opened_fields)
  have 2: "bridge_step ex_cfg ex_prompted
      (set_turnPC 0 TurnCalling (emit_event (event_of KindTurnStarted (Some 0) None) ex_prompted))"
    by (rule Turn, rule turn_step.started) (simp add: ex_prompted_fields)
  have 3: "bridge_step ex_cfg (set_turnPC 0 TurnCalling (emit_event (event_of KindTurnStarted (Some 0) None) ex_prompted))
      ex_calling"
    unfolding ex_calling_def by (rule Turn, rule turn_step.call) simp
  show ?thesis by (rule bridge_reach.step [OF bridge_reach.step [OF bridge_reach.step [OF ex_opened_reach 1] 2] 3])
qed

lemma ex_calling_fields:
  "gate ex_calling = HeldByPrompt 0" "inFlight ex_calling = Some 0" "reader ex_calling = Reading"
  "perms ex_calling = in_coord BeginTurn (new_permissions True)" "turnPC ex_calling 0 = TurnWriting 1"
  by (simp_all add: ex_calling_def call_turn_def register_call_def Let_def ex_prompted_fields)

definition ex_asked :: bridge where
  "ex_asked = ex_calling\<lparr>reader := Admitting 0 ex_frame, askedID := (askedID ex_calling)(0 := Some (JNum ''7'')),
     perms := arrive True ex_params (in_coord BeginTurn (new_permissions True))\<rparr>"

definition ex_waits :: bridge where
  "ex_waits = ((admitted_event 0 ex_frame ex_asked)\<lparr>reader := Reading\<rparr>)\<lparr>perms := ex_waiting\<rparr>"

lemma ex_waits_reach: "bridge_reach ex_cfg (NewNDJSONBridgeClient ex_cfg) ex_waits"
proof -
  let ?q = "arrive True ex_params (in_coord BeginTurn (new_permissions True))"
  let ?t = "(admitted_event 0 ex_frame ex_asked)\<lparr>reader := Reading\<rparr>"
  have q: "calls (perms ex_calling) = []" by (simp add: ex_calling_fields new_permissions_def)
  have frame: "frame_ID ex_frame = Some (JNum ''7'')" "Params ex_frame = ex_params"
    "Method ex_frame = ''session/request_permission''"
    by (simp_all add: ex_frame_def)
  have 1: "bridge_step ex_cfg ex_calling ex_asked"
    using reader_step.asked [OF _ ex_classify frame(3), of ex_calling ex_cfg] Reader
    by (simp add: ex_asked_def ex_calling_fields q frame new_permissions_def)
  have async: "async (adm (calls (perms ex_asked) ! 0))"
    by (simp add: ex_asked_def ex_defs)
  have 2: "bridge_step ex_cfg ex_asked ?t"
    using reader_step.admitted [of ex_asked 0 ex_frame ex_cfg] async Reader by (simp add: ex_asked_def)
  have perms: "perms ?t = ?q" by (simp add: admitted_event_def ex_asked_def)
  have 3: "bridge_step ex_cfg ?t (?t\<lparr>perms := check_call 0 (perms ?t)\<rparr>)"
    by (rule Answer, rule answer_step.check) (simp_all add: runs_def perms, simp_all add: ex_defs)
  let ?u = "?t\<lparr>perms := check_call 0 ?q\<rparr>"
  have "bridge_step ex_cfg ?u (?u\<lparr>perms := start_call 0 ex_request (perms ?u)\<rparr>)"
    by (rule Answer, rule answer_step.start) (simp_all add: runs_def, simp_all add: ex_defs)
  moreover have "?u\<lparr>perms := start_call 0 ex_request (perms ?u)\<rparr> = ex_waits"
    by (simp add: ex_waits_def ex_waiting_def)
  ultimately have 4: "bridge_step ex_cfg ?u ex_waits" by simp
  from 3 have 3: "bridge_step ex_cfg ?t ?u" by (simp add: perms)
  show ?thesis
    by (rule bridge_reach.step [OF bridge_reach.step [OF bridge_reach.step [OF bridge_reach.step
          [OF ex_calling_reach 1] 2] 3] 4])
qed

lemma ex_waits_fields:
  "gate ex_waits = HeldByPrompt 0" "turnPC ex_waits 0 = TurnWriting 1" "perms ex_waits = ex_waiting"
  by (simp_all add: ex_waits_def admitted_event_def ex_asked_def ex_calling_fields)

definition ex_stuck :: bridge where
  "ex_stuck = enter_end_turn 0 (Inl ''context deadline exceeded'')
     (turn_unwritten 0 1 ''context deadline exceeded'' False ex_waits)"

lemma ex_stuck_reach: "bridge_reach ex_cfg (NewNDJSONBridgeClient ex_cfg) ex_stuck"
proof -
  let ?s = "turn_unwritten 0 1 ''context deadline exceeded'' False ex_waits"
  have 1: "bridge_step ex_cfg ex_waits ?s"
    by (rule Turn, rule turn_step.unwritten) (simp add: ex_waits_fields)
  have "bridge_step ex_cfg ?s ex_stuck"
    unfolding ex_stuck_def by (rule Turn, rule turn_step.enter_end_turn) (simp add: turn_unwritten_def)
  with 1 ex_waits_reach show ?thesis by (blast intro: bridge_reach.step)
qed

lemma ex_stuck_stuck: "stuck 0 0 ex_stuck"
proof -
  let ?s = "turn_unwritten 0 1 ''context deadline exceeded'' False ex_waits"
  have s: "bridge_reach ex_cfg (NewNDJSONBridgeClient ex_cfg) ?s"
    by (rule bridge_reach.step [OF ex_waits_reach], rule Turn, rule turn_step.unwritten) (simp add: ex_waits_fields)
  have pc: "turnPC ?s 0 = TurnEnding (Inl ''context deadline exceeded'')" by (simp add: turn_unwritten_def)
  have "turnPC ex_stuck 0 = TurnWaits 1 1 (Inl ''context deadline exceeded'')"
    using inv_barrier_end_turn(2) [OF turns.reachable [OF s] barrier.reachable [OF s] pc]
    by (simp add: ex_stuck_def)
  moreover have "gate ex_stuck = HeldByPrompt 0"
    by (simp add: ex_stuck_def enter_end_turn_def split_def Let_def turn_unwritten_def ex_waits_fields)
  moreover have "calls (perms ex_stuck) = calls ex_waiting"
    by (simp add: ex_stuck_def enter_end_turn_def split_def Let_def turn_unwritten_def ex_waits_fields)
  ultimately show ?thesis by (simp add: stuck_def blocked_call_def ex_waiting_eq)
qed

end
