(* ===== verification/Bridge_Calls.thy ===== *)
theory Bridge_Calls
  imports Bridge_Invariants
begin

text \<open>
  The requests a bridge client has sent: an entry of the table waits for the answer of its
  id, which comes at most once, from the agent's response or from \<open>failPending\<close>.
\<close>

subsection \<open>Calls are answered once\<close>

fun routed_to :: "reader_pc \<Rightarrow> nat option" where
  "routed_to (Routing i p a) = Some i"
| "routed_to _ = None"

definition inv_table :: "bridge \<Rightarrow> bool" where
  "inv_table s \<longleftrightarrow>
     (\<forall>i. callTable s i \<noteq> None \<longrightarrow> i \<le> callID s \<and> answers s i = None) \<and>
     (\<forall>i. answers s i \<noteq> None \<longrightarrow> i \<le> callID s) \<and>
     (\<forall>i. routed_to (reader s) = Some i \<longrightarrow> i \<le> callID s \<and> callTable s i = None \<and> answers s i = None)"

lemma inv_table_cong:
  "callTable s' = callTable s \<Longrightarrow> answers s' = answers s \<Longrightarrow> callID s' = callID s \<Longrightarrow> reader s' = reader s \<Longrightarrow>
   inv_table s \<Longrightarrow> inv_table s'"
  by (simp add: inv_table_def)

text \<open>A step answers calls that had no answer, and leaves the answers there are.\<close>

definition answers_kept :: "bridge \<Rightarrow> bridge \<Rightarrow> bool" where
  "answers_kept s s' \<longleftrightarrow> (\<forall>i a. answers s i = Some a \<longrightarrow> answers s' i = Some a)"

definition calls_keep :: "bridge \<Rightarrow> bridge \<Rightarrow> bool" where
  "calls_keep s s' \<longleftrightarrow> inv_table s' \<and> answers_kept s s'"

lemma register_keeps: "inv_table s \<Longrightarrow> inv_table (fst (register_call p s))"
  by (fastforce simp: inv_table_def register_call_def Let_def)

lemma drop_keeps: "inv_table s \<Longrightarrow> inv_table (dropPending i s)"
  by (auto simp: inv_table_def)

lemma fail_keeps:
  "inv_table s \<Longrightarrow> (\<And>i p a. x \<noteq> Routing i p a) \<Longrightarrow> calls_keep s ((failPending cfg why s)\<lparr>reader := x\<rparr>)"
  by (cases x) (auto simp: calls_keep_def inv_table_def answers_kept_def failPending_def)

lemma fail_keeps_reader: "inv_table s \<Longrightarrow> calls_keep s ((failPending cfg why s)\<lparr>closePC := y\<rparr>)"
  by (auto simp: calls_keep_def inv_table_def answers_kept_def failPending_def)

lemma calls_keep_same:
  "inv_table s' \<Longrightarrow> answers s' = answers s \<Longrightarrow> calls_keep s s'"
  by (simp add: calls_keep_def answers_kept_def)

lemma calls_turn: "turn_step cfg s s' \<Longrightarrow> inv_table s \<Longrightarrow> calls_keep s s'"
proof (induction rule: turn_step.induct)
  case (call s t)
  have "answers (call_turn t s) = answers s"
    by (simp add: call_turn_def register_call_def Let_def)
  moreover have "inv_table (call_turn t s)"
    by (rule inv_table_cong [OF _ _ _ _ register_keeps [OF call.prems, of True]])
       (simp_all add: call_turn_def register_call_def Let_def)
  ultimately show ?case by (rule calls_keep_same [rotated])
next
  case (unwritten s t i err partly)
  have "inv_table (turn_unwritten t i err partly s)"
    by (rule inv_table_cong [OF _ _ _ _ drop_keeps [OF unwritten.prems, of i]])
       (simp_all add: turn_unwritten_def)
  then show ?case by (rule calls_keep_same) (simp add: turn_unwritten_def)
next
  case (abandoned s t i)
  have "inv_table (set_turnPC t (TurnEnding (Inl ''context canceled'')) (dropPending i s))"
    by (rule inv_table_cong [OF _ _ _ _ drop_keeps [OF abandoned.prems, of i]]) simp_all
  then show ?case by (rule calls_keep_same) simp
qed (auto intro!: calls_keep_same intro: inv_table_cong [rotated 4]
      simp: admit_prompt_def turn_written_def enter_end_turn_def turn_waited_def clear_turn_def
        report_turn_def leave_turn_def Let_def split_def split: if_splits)

lemma take_response_keeps: "inv_table s \<Longrightarrow> reader s = Reading \<Longrightarrow> inv_table (take_response cfg x result err s)"
  by (auto simp: take_response_def inv_table_def Let_def split: option.splits if_splits)

lemma calls_reader: "reader_step cfg s s' \<Longrightarrow> inv_table s \<Longrightarrow> calls_keep s s'"
proof (induction rule: reader_step.induct)
  case (response s x result err i)
  then show ?case
    by (intro calls_keep_same take_response_keeps)
       (auto simp: take_response_def Let_def split: option.splits)
next
  case (reader_failed s)
  then show ?case by (intro fail_keeps) simp_all
next
  case (admitted s k frame)
  then show ?case
    by (intro calls_keep_same) (auto simp: inv_table_def admitted_event_def)
qed (auto simp: calls_keep_def inv_table_def answers_kept_def)

lemma calls_end: "end_step cfg s s' \<Longrightarrow> inv_table s \<Longrightarrow> calls_keep s s'"
proof (induction rule: end_step.induct)
  case (close_fails s saw)
  then show ?case by (intro fail_keeps_reader)
qed (auto intro!: calls_keep_same intro: inv_table_cong [rotated 4] simp: tell_exit_def)

lemma calls_other: "other_step cfg s s' \<Longrightarrow> inv_table s \<Longrightarrow> calls_keep s s'"
proof (induction rule: other_step.induct)
  case (other_begin s s' i)
  then have "inv_table s'" using register_keeps [of s False] by simp
  then have "inv_table (s'\<lparr>otherPC := (otherPC s')(i := OtherWriting)\<rparr>)"
    by (rule inv_table_cong [rotated 4]) simp_all
  then show ?case
    by (rule calls_keep_same) (use other_begin.hyps in \<open>auto simp: register_call_def Let_def\<close>)
next
  case (other_unwritten s i partly)
  have "inv_table ((dropPending i s)\<lparr>otherPC := (otherPC s)(i := OtherOver), stdinClosed := stdinClosed s \<or> partly\<rparr>)"
    by (rule inv_table_cong [OF _ _ _ _ drop_keeps [OF other_unwritten.prems, of i]]) simp_all
  then show ?case by (rule calls_keep_same) simp
next
  case (other_abandoned s i)
  have "inv_table ((dropPending i s)\<lparr>otherPC := (otherPC s)(i := OtherOver)\<rparr>)"
    by (rule inv_table_cong [OF _ _ _ _ drop_keeps [OF other_abandoned.prems, of i]]) simp_all
  then show ?case by (rule calls_keep_same) simp
qed (auto intro!: calls_keep_same intro: inv_table_cong [rotated 4])

lemma calls_launch: "launch_step cfg s s' \<Longrightarrow> inv_table s \<Longrightarrow> calls_keep s s'"
  by (induction rule: launch_step.induct) (auto simp: calls_keep_def inv_table_def answers_kept_def)

lemma calls_answer: "answer_step cfg s s' \<Longrightarrow> inv_table s \<Longrightarrow> calls_keep s s'"
  by (induction rule: answer_step.induct)
     (auto intro!: calls_keep_same intro: inv_table_cong [rotated 4]
        simp: deliver_answer_def finish_answer_def Let_def)

lemma calls_step: "bridge_step cfg s s' \<Longrightarrow> inv_table s \<Longrightarrow> calls_keep s s'"
  by (induction rule: bridge_step.induct)
     (blast intro: calls_launch calls_turn calls_reader calls_answer calls_other calls_end)+

lemma inv_table_reach: "bridge_reach cfg (NewNDJSONBridgeClient cfg) s \<Longrightarrow> inv_table s"
proof (induction "NewNDJSONBridgeClient cfg" s rule: bridge_reach.induct)
  case start
  show ?case by (simp add: inv_table_def NewNDJSONBridgeClient_def)
next
  case (step s' s'')
  then show ?case using calls_step by (auto simp: calls_keep_def)
qed

end
