(* ===== verification/Bridge_Answers.thy ===== *)
theory Bridge_Answers
  imports Bridge_Barrier
begin

text \<open>
  The answers to permission requests and the events of a bridge client. A request that counts
  for a turn is told in that turn when it is admitted, and when its answer has been delivered,
  the event of its resolution was given to \<open>emit\<close> in that turn and the answer was written,
  unless the event tells of a failed delivery.
\<close>

subsection \<open>A request under way keeps its turn in flight\<close>

definition counts_for :: "nat \<Rightarrow> call \<Rightarrow> bool" where
  "counts_for t c \<longleftrightarrow> counted (adm c) \<and> adm_turn (adm c) = Some (Suc t)"

lemma counted_flies:
  assumes "bridge_reach cfg (NewNDJSONBridgeClient cfg) s" and "c \<in> set (calls (perms s))"
    and "counts_for t c" and "\<not> over (pc c)"
  shows "inFlight s = Some t" "\<not> b_eventsClosed s"
proof -
  have "adm_ok (generation (coord (perms s))) (adm c)"
    using bridge_perm_inv [OF assms(1)] assms(2) by (simp add: perm_inv_def inv_adm_def)
  then have "Suc t \<le> turnCount s"
    using assms(3) inv_barrierD(1) [OF barrier.reachable [OF assms(1)]]
    by (auto simp: adm_ok_def counts_for_def)
  then have "turnPC s t \<noteq> TurnNone" using turnsD(1) [OF assms(1), of t] by simp
  moreover have "\<not> past_barrier (turnPC s t)"
    using past_barrier_over [OF assms(1) _ assms(2)] assms(3,4) by (auto simp: counts_for_def)
  ultimately have u: "unended (turnPC s t)" by (cases "turnPC s t") simp_all
  then have "flying (turnPC s t)" "live (turnPC s t)" by (cases "turnPC s t"; simp)+
  then show "inFlight s = Some t" "\<not> b_eventsClosed s"
    using turnsD(4) [OF assms(1)] open_while_alive turns.reachable [OF assms(1)] closing.reachable [OF assms(1)]
    by blast+
qed

lemma counts_active:
  "bridge_reach cfg (NewNDJSONBridgeClient cfg) s \<Longrightarrow> k < length (calls (perms s)) \<Longrightarrow>
   counts_for t (calls (perms s) ! k) \<Longrightarrow> active_call k s"
  using bridge_perm_inv [of cfg s] nth_mem [of k "calls (perms s)"]
  by (fastforce simp: perm_inv_def inv_adm_def adm_ok_def counts_for_def active_call_def)

subsection \<open>What has been told of a request\<close>

fun delivered :: "call_pc \<Rightarrow> bool" where
  "delivered (Forgetting r i) = True"
| "delivered (Completing r) = True"
| "delivered (Over r) = True"
| "delivered _ = False"

lemma over_delivered: "over x \<Longrightarrow> delivered x"
  by (cases x) simp_all

definition resolved_event :: "bridge_cfg \<Rightarrow> nat \<Rightarrow> raw \<Rightarrow> resolution \<Rightarrow> go_error option \<Rightarrow> bridge_event" where
  "resolved_event cfg t i r err =
     event_of KindAgentPermissionResolved (Some t) (Some (answer_payload cfg (id_value i) r err))"

text \<open>The event of the resolution is out, and the answer, or the event tells that it is not.\<close>

definition resolved :: "bridge_cfg \<Rightarrow> nat \<Rightarrow> raw \<Rightarrow> bridge \<Rightarrow> bool" where
  "resolved cfg t i s \<longleftrightarrow> (\<exists>r err. resolved_event cfg t i r err \<in> set (attempted s) \<and>
     (err = None \<longrightarrow> response_frame i (Inr (Result r)) \<in> set (wireOut s)))"

definition requested :: "nat \<Rightarrow> raw \<Rightarrow> bridge \<Rightarrow> bool" where
  "requested t i s \<longleftrightarrow> (\<exists>frame. frame_ID frame = i \<and> requested_event frame (Some t) \<in> set (attempted s))"

definition at_admission :: "nat \<Rightarrow> bridge \<Rightarrow> bool" where
  "at_admission k s \<longleftrightarrow> (\<exists>frame. reader s = Admitting k frame)"

definition call_told :: "bridge_cfg \<Rightarrow> bridge \<Rightarrow> nat \<Rightarrow> bool" where
  "call_told cfg s k \<longleftrightarrow>
     (at_admission k s \<longrightarrow> pc (calls (perms s) ! k) = Checking) \<and>
     (\<forall>t. counts_for t (calls (perms s) ! k) \<longrightarrow>
       (\<not> at_admission k s \<longrightarrow> askedIn s k = Some t \<and> requested t (askedID s k) s) \<and>
       (delivered (pc (calls (perms s) ! k)) \<longrightarrow> resolved cfg t (askedID s k) s))"

definition inv_answers :: "bridge_cfg \<Rightarrow> bridge \<Rightarrow> bool" where
  "inv_answers cfg s \<longleftrightarrow>
     (\<forall>k < length (calls (perms s)). call_told cfg s k) \<and>
     (\<forall>k frame. reader s = Admitting k frame \<longrightarrow> k < length (calls (perms s)) \<and> frame_ID frame = askedID s k) \<and>
     (launchPC s = LaunchFresh \<longrightarrow> reader s = ReaderIdle)"

subsection \<open>Steps that say nothing of requests\<close>

text \<open>Events and lines are only added; what was recorded of requests stays.\<close>

definition adds :: "bridge \<Rightarrow> bridge \<Rightarrow> bool" where
  "adds s s' \<longleftrightarrow> set (attempted s) \<subseteq> set (attempted s') \<and> set (wireOut s) \<subseteq> set (wireOut s')"

lemma adds_resolved: "adds s s' \<Longrightarrow> resolved cfg t i s \<Longrightarrow> resolved cfg t i s'"
  unfolding adds_def resolved_def by blast

lemma adds_requested: "adds s s' \<Longrightarrow> requested t i s \<Longrightarrow> requested t i s'"
  unfolding adds_def requested_def by blast

lemma recorded_simps [simp]:
  "wireOut (emit_event e s) = wireOut s" "askedIn (emit_event e s) = askedIn s"
  "askedID (emit_event e s) = askedID s"
  "wireOut (dropPending i s) = wireOut s" "askedIn (dropPending i s) = askedIn s"
  "askedID (dropPending i s) = askedID s"
  "wireOut (upd_coord f s) = wireOut s" "askedIn (upd_coord f s) = askedIn s" "askedID (upd_coord f s) = askedID s"
  "wireOut (set_turnPC t x s) = wireOut s" "askedIn (set_turnPC t x s) = askedIn s"
  "askedID (set_turnPC t x s) = askedID s"
  by (simp_all add: emit_event_def dropPending_def upd_coord_def set_turnPC_def)

lemma adds_emit [simp]: "adds s (emit_event e s)"
  by (auto simp: adds_def)

lemma adds_more: "attempted s' = attempted s \<Longrightarrow> wireOut s' = wireOut s @ ws \<Longrightarrow> adds s s'"
  by (simp add: adds_def)

lemma call_told_keep:
  assumes "call_told cfg s k" "adds s s'" "adm (calls (perms s') ! k) = adm (calls (perms s) ! k)"
    "askedIn s' k = askedIn s k" "askedID s' k = askedID s k" "at_admission k s' = at_admission k s"
    "at_admission k s \<Longrightarrow> pc (calls (perms s') ! k) = pc (calls (perms s) ! k)"
    "delivered (pc (calls (perms s') ! k)) \<Longrightarrow> delivered (pc (calls (perms s) ! k))"
  shows "call_told cfg s' k"
  using assms(1,3-8) adds_resolved [OF assms(2)] adds_requested [OF assms(2)]
  by (simp add: call_told_def counts_for_def)

definition leaves :: "bridge \<Rightarrow> bridge \<Rightarrow> bool" where
  "leaves s s' \<longleftrightarrow> adds s s' \<and> calls (perms s') = calls (perms s) \<and> askedIn s' = askedIn s \<and>
     askedID s' = askedID s \<and> (launchPC s' = LaunchFresh \<longrightarrow> launchPC s = LaunchFresh \<and> reader s' = reader s) \<and>
     (reader s' = reader s \<or> (\<forall>k. \<not> at_admission k s \<and> \<not> at_admission k s'))"

lemma leaves_admission: "leaves s s' \<Longrightarrow> at_admission k s' = at_admission k s"
  unfolding leaves_def at_admission_def by (elim conjE disjE) simp_all

lemma leaves_inv:
  assumes "leaves s s'" and "inv_answers cfg s"
  shows "inv_answers cfg s'"
proof -
  have "call_told cfg s' k" if "k < length (calls (perms s'))" for k
  proof (rule call_told_keep [where s = s])
    show "call_told cfg s k" using assms that by (simp add: inv_answers_def leaves_def)
  qed (use assms leaves_admission [OF assms(1), of k] in \<open>simp_all add: leaves_def\<close>)
  moreover have "k < length (calls (perms s')) \<and> frame_ID frame = askedID s' k"
    if "reader s' = Admitting k frame" for k frame
  proof -
    have "reader s = Admitting k frame"
      using that assms(1) by (auto simp: leaves_def at_admission_def)
    then show ?thesis using assms by (simp add: inv_answers_def leaves_def)
  qed
  ultimately show ?thesis using assms by (auto simp: inv_answers_def leaves_def)
qed

lemma leaves_launch:
  assumes "launch_step cfg s s'" and "inv_answers cfg s"
  shows "leaves s s'"
  using assms
  by (induction rule: launch_step.induct)
     (auto simp: leaves_def adds_def at_admission_def inv_answers_def)

lemma leaves_turn: "turn_step cfg s s' \<Longrightarrow> leaves s s'"
  by (induction rule: turn_step.induct)
     (auto simp: leaves_def adds_def admit_prompt_def call_turn_def register_call_def turn_written_def
        turn_unwritten_def enter_end_turn_def turn_waited_def clear_turn_def report_turn_def leave_turn_def
        in_coord_def Let_def split_def split: if_splits)

lemma leaves_other: "other_step cfg s s' \<Longrightarrow> leaves s s'"
  by (induction rule: other_step.induct) (auto simp: leaves_def adds_def register_call_def Let_def)

lemma leaves_end: "end_step cfg s s' \<Longrightarrow> leaves s s'"
  by (induction rule: end_step.induct) (auto simp: leaves_def adds_def tell_exit_def failPending_def in_coord_def)

subsection \<open>The reader\<close>

lemma arrive_calls: "\<exists>c. calls (arrive fd x q) = calls q @ [c] \<and> pc c = Checking"
  by (simp add: arrive_def split_def Let_def)

lemma inv_answers_asked:
  assumes "inv_answers cfg s" and "reader s = Reading" and "frame_ID frame = i"
    and s': "s' = s\<lparr>reader := Admitting (length (calls (perms s))) frame,
      askedID := (askedID s)(length (calls (perms s)) := i), perms := arrive True x (perms s)\<rparr>"
  shows "inv_answers cfg s'"
proof -
  let ?n = "length (calls (perms s))"
  obtain c where c: "calls (perms s') = calls (perms s) @ [c]" "pc c = Checking"
    using arrive_calls [of True x "perms s"] s' by auto
  have "call_told cfg s' k" if "k < ?n" for k
  proof (rule call_told_keep [where s = s])
    show "call_told cfg s k" using assms(1) that by (simp add: inv_answers_def)
  qed (use that c assms(2) in \<open>simp_all add: s' at_admission_def adds_def nth_append\<close>)
  moreover have "call_told cfg s' ?n"
    using c by (simp add: call_told_def at_admission_def s')
  ultimately have "\<forall>k < length (calls (perms s')). call_told cfg s' k"
    using c by (auto simp: less_Suc_eq)
  then show ?thesis using assms c by (auto simp: inv_answers_def)
qed

lemma inv_answers_admitted:
  assumes "bridge_reach cfg (NewNDJSONBridgeClient cfg) s" and "inv_answers cfg s"
    and "reader s = Admitting k frame" and x: "\<And>j f. x \<noteq> Admitting j f"
  shows "inv_answers cfg ((admitted_event k frame s)\<lparr>reader := x\<rparr>)"
proof -
  let ?s' = "(admitted_event k frame s)\<lparr>reader := x\<rparr>"
  have fields: "calls (perms ?s') = calls (perms s)" "askedID ?s' = askedID s" "launchPC ?s' = launchPC s"
    "adds s ?s'" "\<And>j. j \<noteq> k \<Longrightarrow> askedIn ?s' j = askedIn s j" "\<And>j. \<not> at_admission j ?s'"
    using x by (auto simp: admitted_event_def adds_def at_admission_def)
  have k: "k < length (calls (perms s))" "frame_ID frame = askedID s k" "pc (calls (perms s) ! k) = Checking"
    using assms(2,3) by (auto simp: inv_answers_def call_told_def at_admission_def)
  have "call_told cfg ?s' j" if "j < length (calls (perms s))" "j \<noteq> k" for j
  proof (rule call_told_keep [where s = s])
    show "call_told cfg s j" using assms(2) that by (simp add: inv_answers_def)
  qed (use that assms(3) fields in \<open>simp_all add: at_admission_def\<close>)
  moreover have "call_told cfg ?s' k"
  proof -
    have "askedIn ?s' k = Some t \<and> requested t (askedID s k) ?s'" if "counts_for t (calls (perms s) ! k)" for t
    proof -
      have "inFlight s = Some t" "\<not> b_eventsClosed s"
        using counted_flies [OF assms(1) nth_mem [OF k(1)] that] k(3) by simp_all
      moreover have "active_call k s" by (rule counts_active [OF assms(1) k(1) that])
      ultimately show ?thesis using k(2) by (auto simp: admitted_event_def requested_def)
    qed
    then show ?thesis using fields k(3) by (simp add: call_told_def)
  qed
  ultimately have "\<forall>j < length (calls (perms ?s')). call_told cfg ?s' j" using fields(1) by metis
  moreover have "launchPC s \<noteq> LaunchFresh" using assms(2,3) by (auto simp: inv_answers_def)
  ultimately show ?thesis using fields x by (simp add: inv_answers_def)
qed

lemma leaves_reading:
  assumes "inv_answers cfg s" "reader s \<noteq> ReaderIdle" "\<And>k. \<not> at_admission k s" "\<And>k. \<not> at_admission k s'"
    and "adds s s'" "calls (perms s') = calls (perms s)" "askedIn s' = askedIn s" "askedID s' = askedID s"
    and "launchPC s' = launchPC s"
  shows "inv_answers cfg s'"
proof (rule leaves_inv [OF _ assms(1)])
  have "launchPC s \<noteq> LaunchFresh" using assms(1,2) by (auto simp: inv_answers_def)
  with assms show "leaves s s'" by (simp add: leaves_def)
qed

lemma take_response_answers:
  "attempted (take_response cfg i result err s) = attempted s"
  "wireOut (take_response cfg i result err s) = wireOut s" "perms (take_response cfg i result err s) = perms s"
  "askedIn (take_response cfg i result err s) = askedIn s" "askedID (take_response cfg i result err s) = askedID s"
  "launchPC (take_response cfg i result err s) = launchPC s"
  "reader s = Reading \<Longrightarrow> \<not> at_admission k (take_response cfg i result err s)"
  by (simp_all add: take_response_def Let_def at_admission_def split: option.split)

lemma inv_answers_reader:
  assumes "reader_step cfg s s'" and "bridge_reach cfg (NewNDJSONBridgeClient cfg) s" and "inv_answers cfg s"
  shows "inv_answers cfg s'"
  using assms
proof (induction rule: reader_step.induct)
  case (asked s x frame)
  show ?case by (rule inv_answers_asked [OF asked.prems(2) asked.hyps(1) refl refl])
next
  case (admitted s k frame)
  show ?case by (rule inv_answers_admitted [OF admitted.prems admitted.hyps]) simp
next
  case (response s x i result err)
  show ?case
    by (rule leaves_reading [OF response.prems(2)])
       (use response.hyps(1) in \<open>simp_all add: take_response_answers adds_def, simp_all add: at_admission_def\<close>)
next
  case (bad_frame s x)
  show ?case by (rule leaves_reading [OF bad_frame.prems(2)])
      (use bad_frame.hyps(1) in \<open>simp_all add: at_admission_def adds_def\<close>)
next
  case (notified s x m q k p)
  show ?case by (rule leaves_reading [OF notified.prems(2)])
      (use notified.hyps(1) in \<open>simp_all add: at_admission_def adds_def\<close>)
next
  case (emitted s e)
  show ?case by (rule leaves_reading [OF emitted.prems(2)])
      (use emitted.hyps(1) in \<open>auto simp: at_admission_def adds_def\<close>)
next
  case (not_handled s x frame)
  show ?case by (rule leaves_reading [OF not_handled.prems(2)])
      (use not_handled.hyps(1) in \<open>auto simp: at_admission_def adds_def\<close>)
next
  case (answered_itself s k)
  show ?case by (rule leaves_reading [OF answered_itself.prems(2)])
      (use answered_itself.hyps(1) in \<open>simp_all add: at_admission_def adds_def\<close>)
next
  case (admission_closed s i a)
  show ?case by (rule leaves_reading [OF admission_closed.prems(2)])
      (use admission_closed.hyps(1) in \<open>simp_all add: at_admission_def adds_def in_coord_def\<close>)
next
  case (routed s i a)
  show ?case by (rule leaves_reading [OF routed.prems(2)])
      (use routed.hyps(1) in \<open>simp_all add: at_admission_def adds_def\<close>)
next
  case (stream_ended s)
  show ?case by (rule leaves_reading [OF stream_ended.prems(2)])
      (use stream_ended.hyps(1) in \<open>simp_all add: at_admission_def adds_def\<close>)
next
  case (reader_closed s)
  show ?case by (rule leaves_reading [OF reader_closed.prems(2)])
      (use reader_closed.hyps(1) in \<open>simp_all add: at_admission_def adds_def in_coord_def\<close>)
next
  case (reader_failed s)
  show ?case by (rule leaves_reading [OF reader_failed.prems(2)])
      (use reader_failed.hyps(1) in \<open>simp_all add: at_admission_def adds_def failPending_def\<close>)
next
  case (reader_reported s err)
  show ?case by (rule leaves_reading [OF reader_reported.prems(2)])
      (use reader_reported.hyps(1) in \<open>simp_all add: at_admission_def adds_def\<close>)
qed

subsection \<open>The answers\<close>

lemma inv_answers_at:
  assumes "inv_answers cfg s" "runs k s" "adds s s'"
    and "calls (perms s') = (calls (perms s))[k := c]" "adm c = adm (calls (perms s) ! k)"
    and "reader s' = reader s" "askedIn s' = askedIn s" "askedID s' = askedID s" "launchPC s' = launchPC s"
    and "\<And>t. delivered (pc c) \<Longrightarrow> counts_for t (calls (perms s) ! k) \<Longrightarrow> resolved cfg t (askedID s k) s'"
  shows "inv_answers cfg s'"
proof -
  have adm: "at_admission j s' = at_admission j s" for j using assms(6) by (simp add: at_admission_def)
  have k: "k < length (calls (perms s))" "\<not> at_admission k s"
    using assms(2) by (auto simp: runs_def at_admission_def)
  have told: "call_told cfg s j" if "j < length (calls (perms s))" for j
    using assms(1) that by (simp add: inv_answers_def)
  have "call_told cfg s' j" if "j < length (calls (perms s))" "j \<noteq> k" for j
    by (rule call_told_keep [where s = s]) (use that assms told adm in simp_all)
  moreover have "call_told cfg s' k"
    using told [OF k(1)] k assms(4,5,7,8,10) adm [of k] adds_requested [OF assms(3)]
    by (simp add: call_told_def counts_for_def)
  ultimately have "\<forall>j < length (calls (perms s')). call_told cfg s' j" using assms(4) by (metis length_list_update)
  then show ?thesis using assms by (simp add: inv_answers_def)
qed

lemma inv_answers_deliver:
  assumes "bridge_reach cfg (NewNDJSONBridgeClient cfg) s" "inv_answers cfg s" "runs k s"
    and "pc (calls (perms s) ! k) = Delivering r oi"
  shows "inv_answers cfg (deliver_answer cfg k r oi err s)"
proof (rule inv_answers_at [OF assms(2,3)])
  let ?s' = "deliver_answer cfg k r oi err s"
  have k: "k < length (calls (perms s))" "\<not> at_admission k s"
    using assms(3) by (auto simp: runs_def at_admission_def)
  show "adds s ?s'" by (auto simp: deliver_answer_def adds_def Let_def)
  show "calls (perms ?s') = (calls (perms s))[k := calls (perms ?s') ! k]"
    "adm (calls (perms ?s') ! k) = adm (calls (perms s) ! k)"
    using k(1) by (simp_all add: deliver_answer_def deliver_call_def at_call_def Let_def)
  show "resolved cfg t (askedID s k) ?s'" if "counts_for t (calls (perms s) ! k)" for t
  proof -
    have "\<not> b_eventsClosed s" using counted_flies [OF assms(1) nth_mem [OF k(1)] that] assms(4) by simp
    moreover have "active_call k s" by (rule counts_active [OF assms(1) k(1) that])
    moreover have "askedIn s k = Some t"
      using assms(2) k that by (auto simp: inv_answers_def call_told_def)
    ultimately have "resolved_event cfg t (askedID s k) r err \<in> set (attempted ?s')"
      "err = None \<Longrightarrow> response_frame (askedID s k) (Inr (Result r)) \<in> set (wireOut ?s')"
      by (simp_all add: deliver_answer_def resolved_event_def Let_def)
    then show ?thesis unfolding resolved_def by blast
  qed
qed (simp_all add: deliver_answer_def Let_def)

lemma inv_answers_moved:
  assumes "inv_answers cfg s" "runs k s"
    and "calls (perms s') = (calls (perms s))[k := f (calls (perms s) ! k)]" "\<And>c. adm (f c) = adm c"
    and "delivered (pc (f (calls (perms s) ! k))) \<Longrightarrow> delivered (pc (calls (perms s) ! k))"
    and "reader s' = reader s" "askedIn s' = askedIn s" "askedID s' = askedID s" "launchPC s' = launchPC s"
    and "attempted s' = attempted s" "wireOut s' = wireOut s"
  shows "inv_answers cfg s'"
proof (rule inv_answers_at [OF assms(1,2) _ assms(3,4,6-9)])
  show "adds s s'" using assms(10,11) by (simp add: adds_def)
  show "resolved cfg t (askedID s k) s'"
    if "delivered (pc (f (calls (perms s) ! k)))" "counts_for t (calls (perms s) ! k)" for t
    using assms(1,2,5,10,11) that
    by (auto simp: inv_answers_def call_told_def runs_def resolved_def)
qed

lemma start_call_calls:
  "\<exists>f. calls (start_call k req q) = (calls q)[k := f (calls q ! k)] \<and> (\<forall>c. adm (f c) = adm c) \<and>
     \<not> delivered (pc (f (calls q ! k)))"
  by (cases "start_callback (adm (calls q ! k)) (coord q)")
     (auto simp: start_call_def at_call_def intro: exI [of _ "\<lambda>c. c\<lparr>pc := Delivering r None\<rparr>" for r]
        exI [of _ "\<lambda>c. c\<lparr>pc := Waiting i req, cb := CallbackRuns\<rparr>" for i])

lemma inv_answers_answer:
  assumes "answer_step cfg s s'" and "bridge_reach cfg (NewNDJSONBridgeClient cfg) s" and "inv_answers cfg s"
  shows "inv_answers cfg s'"
  using assms
proof (induction rule: answer_step.induct)
  case (deliver k s r oi err)
  then show ?case by (intro inv_answers_deliver)
next
  case (check k s)
  show ?case
    by (rule inv_answers_moved [OF check.prems(2) check.hyps(1), where f = "\<lambda>c. c\<lparr>pc :=
        (case precheck (adm c) (params c) (coord (perms s)) of
           Inl r \<Rightarrow> Delivering r None | Inr req \<Rightarrow> Starting req)\<rparr>"])
       (auto simp: check_call_def at_call_def split: sum.splits)
next
  case (start k s req)
  obtain f where "calls (start_call k req (perms s)) = (calls (perms s))[k := f (calls (perms s) ! k)]"
    "\<And>c. adm (f c) = adm c" "\<not> delivered (pc (f (calls (perms s) ! k)))"
    using start_call_calls by metis
  then show ?case
    by (intro inv_answers_moved [OF start.prems(2) start.hyps(1), where f = f]) simp_all
next
  case (sent k s ans)
  show ?case
    by (rule inv_answers_moved [OF sent.prems(2) sent.hyps(1), where f = "\<lambda>c. c\<lparr>cb := CallbackSent, reply := Some ans\<rparr>"]) (auto simp: at_call_def)
next
  case (gone k s)
  show ?case
    by (rule inv_answers_moved [OF gone.prems(2) gone.hyps(1), where f = "\<lambda>c. c\<lparr>cb := CallbackLeft\<rparr>"]) (auto simp: at_call_def in_coord_def)
next
  case (wake k s i req ans)
  show ?case
    by (rule inv_answers_moved [OF wake.prems(2) wake.hyps(1), where f = "\<lambda>c. c\<lparr>pc := Deciding i req ans\<rparr>"]) (auto simp: at_call_def)
next
  case (wake_canceled k s i req e)
  show ?case
    by (rule inv_answers_moved [OF wake_canceled.prems(2) wake_canceled.hyps(1), where f = "\<lambda>c. c\<lparr>pc := Deciding i req \<lparr>sel_option = [], sel_err = Some CtxCanceled\<rparr>\<rparr>"]) (auto simp: at_call_def)
next
  case (decide k s i req ans)
  show ?case
    by (rule inv_answers_moved [OF decide.prems(2) decide.hyps(1), where f = "\<lambda>c. c\<lparr>pc := Delivering (snd (decide (adm (calls (perms s) ! k)) i req ans (coord (perms s)))) (Some i)\<rparr>"])
       (auto simp: decide_call_def at_call_def split_def Let_def)
next
  case (forget k s r i)
  show ?case
    by (rule inv_answers_moved [OF forget.prems(2) forget.hyps(1), where f = "\<lambda>c. c\<lparr>pc := Completing r\<rparr>"])
       (use forget.hyps(2) in \<open>auto simp: at_call_def in_coord_def\<close>)
next
  case (complete k s r)
  show ?case
    by (rule inv_answers_moved [OF complete.prems(2) complete.hyps(1), where f = "\<lambda>c. c\<lparr>pc := Over r\<rparr>"])
       (use complete.hyps(2) in \<open>auto simp: at_call_def in_coord_def finish_answer_def Let_def\<close>)
qed

subsection \<open>Reachable states\<close>

lemma inv_answers_step:
  assumes "bridge_step cfg s s'" and "bridge_reach cfg (NewNDJSONBridgeClient cfg) s" and "inv_answers cfg s"
  shows "inv_answers cfg s'"
  using assms(1)
proof cases
  case Reader
  then show ?thesis using assms(2,3) by (rule inv_answers_reader)
next
  case Answer
  then show ?thesis using assms(2,3) by (rule inv_answers_answer)
qed (use assms(3) leaves_inv leaves_launch leaves_turn leaves_other leaves_end in blast)+

lemma inv_answers_reach: "bridge_reach cfg (NewNDJSONBridgeClient cfg) s \<Longrightarrow> inv_answers cfg s"
proof (induction "NewNDJSONBridgeClient cfg" s rule: bridge_reach.induct)
  case start
  show ?case by (simp add: inv_answers_def NewNDJSONBridgeClient_def new_permissions_def)
next
  case (step s' s'')
  then show ?case by (blast intro: inv_answers_step)
qed

lemma over_resolved:
  assumes "bridge_reach cfg (NewNDJSONBridgeClient cfg) s" and "k < length (calls (perms s))"
    and "counts_for t (calls (perms s) ! k)" and "over (pc (calls (perms s) ! k))"
  shows "requested t (askedID s k) s \<and> resolved cfg t (askedID s k) s"
proof -
  have told: "call_told cfg s k"
    using inv_answers_reach [OF assms(1)] assms(2) by (simp add: inv_answers_def)
  moreover have "\<not> at_admission k s"
    using told assms(4) by (cases "pc (calls (perms s) ! k)") (auto simp: call_told_def)
  ultimately show ?thesis
    using assms(3) over_delivered [OF assms(4)] by (auto simp: call_told_def)
qed

end
