(* ===== verification/Bridge_Properties.thy ===== *)
theory Bridge_Properties
  imports Bridge_Stuck Bridge_Calls Bridge_Answers
begin

text \<open>
  Properties of the bridge client over all its interleavings:
  what it tells of its turns, permission answers and the end of their turn, what is left when
  the events are closed, the single answer of each call, the refinement of the permission
  steps, the script of a launch; and the one way a turn never ends.
\<close>

text \<open>
  C5. A turn of an ACP agent is told exactly once. Of the events given to \<open>emit\<close>, those that
  start or end turn \<open>t\<close> are none before \<open>turn.started\<close>, then that one alone, and then that one
  and one terminal event with the turn's result, in this order; at most one turn is in flight,
  and it is the newest.
\<close>

theorem bridge_turns_told:
  assumes "bridge_reach cfg (NewNDJSONBridgeClient cfg) s"
  shows "frames_of t (attempted s) = told_of cfg t (turnPC s t) \<and>
    (turnPC s t = TurnOver r \<longrightarrow> frames_of t (attempted s) = [start_event t, terminal_event cfg t r]) \<and>
    (flying (turnPC s t) \<longleftrightarrow> inFlight s = Some t) \<and> (inFlight s = Some t \<longrightarrow> Suc t = turnCount s)"
proof -
  have told: "frames_of t (attempted s) = told_of cfg t (turnPC s t)"
    using telling.reachable [OF assms] by (simp add: inv_told_def)
  then show ?thesis using turnsD(4,5) [OF assms] by simp
qed

text \<open>
  C10. Permission answers come before the end of their turn. Once a turn has passed its barrier,
  so before its result is told, every permission request that was admitted to the turn and
  counted for it is over: the event that it was requested and the event of its resolution, both
  in that turn and under the id the agent gave it, were given to \<open>emit\<close> while the channel was
  open; and the answer the event tells was written to the agent, unless the delivery failed
  with an error, which is then what the event tells.
\<close>

theorem permission_before_turn_end:
  assumes "bridge_reach cfg (NewNDJSONBridgeClient cfg) s" and "past_barrier (turnPC s t)"
    and "k < length (calls (perms s))" and "counted (adm (calls (perms s) ! k))"
    and "adm_turn (adm (calls (perms s) ! k)) = Some (Suc t)"
  shows "over (pc (calls (perms s) ! k)) \<and>
    (\<exists>frame. frame_ID frame = askedID s k \<and> requested_event frame (Some t) \<in> set (attempted s)) \<and>
    (\<exists>r err. event_of KindAgentPermissionResolved (Some t)
        (Some (answer_payload cfg (id_value (askedID s k)) r err)) \<in> set (attempted s) \<and>
      (err = None \<longrightarrow> response_frame (askedID s k) (Inr (Result r)) \<in> set (wireOut s)))"
proof -
  have over: "over (pc (calls (perms s) ! k))"
    using past_barrier_over [OF assms(1,2) nth_mem [OF assms(3)] assms(4,5)] .
  have "counts_for t (calls (perms s) ! k)" using assms(4,5) by (simp add: counts_for_def)
  from over_resolved [OF assms(1,3) this over] over show ?thesis
    by (auto simp: requested_def resolved_def resolved_event_def)
qed

lemma sealed_step:
  assumes "bridge_step cfg s s'" and "inv_plain s" "eventsClosing s"
  shows "eventsClosing s' \<and> turnCount s' = turnCount s"
  using step_kinds [OF assms(1,2)]
proof
  assume "turn_step cfg s s'"
  then show ?thesis using assms(3)
    by (induction rule: turn_step.induct)
       (auto simp: admit_prompt_def call_turn_def register_call_def turn_written_def turn_unwritten_def
          enter_end_turn_def turn_waited_def clear_turn_def report_turn_def leave_turn_def Let_def split_def
          split: if_splits)
qed (use assms(3) in \<open>simp add: quiet_def\<close>)

lemma sealed_reach:
  "bridge_reach cfg s s' \<Longrightarrow> inv_plain s \<Longrightarrow> eventsClosing s \<Longrightarrow>
   inv_plain s' \<and> eventsClosing s' \<and> turnCount s' = turnCount s"
  by (induction rule: bridge_reach.induct) (auto dest: sealed_step inv_plain_step)

text \<open>
  C11. No end of a turn is lost to the close. When the events channel is closed every turn that
  was ever admitted is over, so its terminal event was given to \<open>emit\<close> before; and from the
  moment the close begins to wait no turn is admitted any more, so the wait group is never
  added to under its wait.
\<close>

theorem events_close_after_turns:
  assumes "bridge_reach cfg (NewNDJSONBridgeClient cfg) s"
  shows "(b_eventsClosed s \<longrightarrow> eventsClosing s \<and> (t < turnCount s \<longrightarrow> (\<exists>r. turnPC s t = TurnOver r))) \<and>
    (eventsClosing s \<and> bridge_reach cfg s s' \<longrightarrow> turnCount s' = turnCount s)"
proof -
  have inv: "inv_turn s" "inv_closed s" using assms turns.reachable closing.reachable by blast+
  have "\<exists>r. turnPC s t = TurnOver r" if "b_eventsClosed s" "t < turnCount s"
  proof -
    have "\<not> live (turnPC s t)" using open_while_alive [OF inv, of t] that(1) by blast
    moreover have "turnPC s t \<noteq> TurnNone" using inv_turnD(1) [OF inv(1), of t] that(2) by simp
    ultimately show ?thesis by (cases "turnPC s t") simp_all
  qed
  with inv(2) sealed_reach [OF _ inv_plain_reach [OF assms]] show ?thesis by (auto simp: inv_closed_def)
qed

text \<open>
  C12. A prompt that cannot be written may never return. There is a run in which a prompt's
  write fails while a permission request of its turn waits for its callback, and from there
  on, whatever the agent, the host, \<open>Close\<close> or the end of the process does, the turn stays in
  flight at the barrier of \<open>EndTurn\<close>, the gate stays taken and the events are never closed.
\<close>

theorem failed_prompt_hangs:
  "\<exists>s. bridge_reach ex_cfg (NewNDJSONBridgeClient ex_cfg) s \<and>
    (\<forall>s'. bridge_reach ex_cfg s s' \<longrightarrow> inFlight s' = Some 0 \<and> waits_barrier (turnPC s' 0) \<and>
       gate s' = HeldByPrompt 0 \<and> \<not> b_eventsClosed s')"
proof (intro exI conjI allI impI)
  show "bridge_reach ex_cfg (NewNDJSONBridgeClient ex_cfg) ex_stuck" by (rule ex_stuck_reach)
  fix s' assume s': "bridge_reach ex_cfg ex_stuck s'"
  have stuck: "stuck 0 0 s'" by (rule stuck_forever [OF s' ex_stuck_reach ex_stuck_stuck])
  then show "waits_barrier (turnPC s' 0)" "gate s' = HeldByPrompt 0" by (simp_all add: stuck_def)
  show "inFlight s' = Some 0" "\<not> b_eventsClosed s'"
    using stuck_open [OF bridge_reach_trans [OF s' ex_stuck_reach] stuck] by simp_all
qed

lemma answers_stay:
  "bridge_reach cfg s s' \<Longrightarrow> inv_table s \<Longrightarrow> inv_table s' \<and> answers_kept s s'"
proof (induction rule: bridge_reach.induct)
  case (step s s' s'')
  then show ?case using calls_step [OF step.hyps(2)] by (auto simp: calls_keep_def answers_kept_def)
qed (simp add: answers_kept_def)

text \<open>
  C17. Each call gets one answer, its own. A call in the table has no answer yet; an answer
  once given never changes; and a response that echoes the id of a call in the table, in the
  decimal form in which the request was sent, is routed to that call and removes its entry.
\<close>

theorem calls_answered_once:
  assumes "bridge_reach cfg (NewNDJSONBridgeClient cfg) s"
  shows "(callTable s i \<noteq> None \<longrightarrow> answers s i = None) \<and>
    (answers s i = Some a \<and> bridge_reach cfg s s' \<longrightarrow> answers s' i = Some a) \<and>
    (callTable s i = Some prompt \<and> in_int64 (int i) \<longrightarrow>
       take_response cfg (Some (JNum (int_text (int i)))) result err s =
         (dropPending i s)\<lparr>reader := Routing i prompt (answer_of cfg result err)\<rparr>)"
  using inv_table_reach [OF assms] answers_stay [OF _ inv_table_reach [OF assms]]
  by (auto simp: inv_table_def answers_kept_def take_response_def response_id_text)

text \<open>
  The bridge client refines the permission steps. Each of its steps leaves the permission
  coordinator and its calls as they are or is one of their steps, so what is proved of those
  holds of the client; and a turn of the client is the coordinator's generation of the same
  number, open in its map until the turn has passed its barrier.
\<close>

theorem bridge_refines_permissions:
  assumes "bridge_reach cfg (NewNDJSONBridgeClient cfg) s"
  shows "perm_reach (new_permissions (bc_Responder cfg)) (perms s) \<and>
    generation (coord (perms s)) = turnCount s \<and>
    (unended (turnPC s t) \<longrightarrow> turns (coord (perms s)) (Suc t) = Some (Suc t)) \<and>
    (bridge_step cfg s s' \<longrightarrow> perms s' = perms s \<or> perm_step (perms s) (perms s'))"
  using follows_reach [OF assms] barrier.reachable [OF assms] follows_step [of cfg s s']
  by (simp add: NewNDJSONBridgeClient_def inv_barrier_def perm_follows_def)

text \<open>
  A launch that succeeds followed its script. The agent was asked to initialize, to
  authenticate exactly when a method was named, to load the preset session exactly when it
  can and to open a new one otherwise, to set a mode if one was named, and each option in the
  order of the keys; every call was answered without an error; the session is the preset one
  where it was loaded; and \<open>session.lost\<close> precedes \<open>session.ready\<close> exactly when a preset could
  not be loaded.
\<close>

theorem launch_scripted:
  assumes "handshake ask ps [] = (Inr est, h)"
  shows "\<exists>r init. ask [] (''initialize'', initialize_params) = Inr r \<and>
    ParseInitializeResult r ndjsonProtocolVersion = Inr init \<and>
    h = launch_script ps init (est_sessionID est) \<and> answered ask [] h \<and>
    est_sessionID est \<noteq> [] \<and> (resumes ps init \<longrightarrow> est_sessionID est = SessionIDPreset ps) \<and>
    est_sessionClose est = SessionClose init \<and> est_systemPrompt est = bp_SystemPrompt ps \<and>
    est_events est = launch_events ps init (est_sessionID est)"
proof -
  obtain r init servers skipped i h1 h2 where
    1: "ask [] (''initialize'', initialize_params) = Inr r"
      "ParseInitializeResult r ndjsonProtocolVersion = Inr init"
    and 2: "authenticate ask init (AuthMethodID ps) [(''initialize'', initialize_params)] = (Inr (), h1)"
      "mcp_servers ps init h1 = (Inr (servers, skipped), h1)"
      "open_session ask ps init servers h1 = (Inr i, h2)"
      "configureSession ask i ps h2 = (Inr (), h)"
    and est: "est = \<lparr>est_sessionID = i, est_systemPrompt = bp_SystemPrompt ps,
       est_sessionClose = SessionClose init, est_skipped = skipped, est_events = launch_events ps init i\<rparr>"
    using assms
    by (auto simp: handshake_def conversation_simps parse_initialize_Inr mcp_servers_Inr)
  have h1: "h1 = [(''initialize'', initialize_params)] @ auth_calls ps"
    "answered ask [] h1"
    using 1 2(1) by (auto simp: authenticate_Inr auth_calls_def answered_Cons split: if_splits)
  have servers: "servers = mcp_sent (MCPHTTP init) (MCPServers ps)"
    using 2(2) by (simp add: mcp_servers_Inr)
  have h2: "h2 = h1 @ [session_call ps init servers]" "answered ask h1 [session_call ps init servers]"
    "i \<noteq> []" "resumes ps init \<Longrightarrow> i = SessionIDPreset ps"
    using 2(3) by (auto simp: open_session_Inr answered_Cons resumes_def split: if_splits)
  show ?thesis
    using 1 2(4) h1 h2 est
    by (auto simp: configureSession_Inr launch_script_def servers answered_append answered_Cons)
qed

subsection \<open>Witnesses\<close>

theorem bridge_turns_told_witness: "frames_of 0 (attempted ex_stuck) = [start_event 0]"
proof -
  obtain g a r where "turnPC ex_stuck 0 = TurnWaits g a r"
    using ex_stuck_stuck by (cases "turnPC ex_stuck 0") (simp_all add: stuck_def)
  then show ?thesis using bridge_turns_told [OF ex_stuck_reach, of 0] by simp
qed

theorem failed_prompt_hangs_witness:
  "\<exists>s. bridge_reach ex_cfg (NewNDJSONBridgeClient ex_cfg) s \<and> inFlight s = Some 0 \<and> \<not> b_eventsClosed s"
  using failed_prompt_hangs bridge_reach.start by blast

text \<open>
  A turn in which the agent made a permission request without parameters: it is refused, the
  refusal is written, and then the prompt cannot be written and the turn ends.
\<close>

definition ex_bad_frame :: rpc_frame where
  "ex_bad_frame = no_frame\<lparr>frame_ID := Some (JNum ''7''), Method := ''session/request_permission''\<rparr>"

lemma ex_bad_classify:
  "classify_frame (Some (jobj [(''id'', JNum ''7''), (''method'', jstr ''session/request_permission'')])) =
     Server_Request ex_bad_frame"
  by code_simp

definition ex_refusal :: resolution where
  "ex_refusal = permissionFailure ''invalid request'' ''invalid ACP permission request''"

definition ex_bad_asked :: bridge where
  "ex_bad_asked = ex_calling\<lparr>reader := Admitting 0 ex_bad_frame,
     askedID := (askedID ex_calling)(0 := Some (JNum ''7'')),
     perms := arrive True None (in_coord BeginTurn (new_permissions True))\<rparr>"

definition ex_bad_admitted :: bridge where
  "ex_bad_admitted = (admitted_event 0 ex_bad_frame ex_bad_asked)\<lparr>reader := Reading\<rparr>"

definition ex_bad_checked :: bridge where
  "ex_bad_checked = ex_bad_admitted\<lparr>perms := check_call 0 (perms ex_bad_admitted)\<rparr>"

definition ex_bad_told :: bridge where
  "ex_bad_told = deliver_answer ex_cfg 0 ex_refusal None None ex_bad_checked"

definition ex_bad_over :: bridge where
  "ex_bad_over = finish_answer 0 (deliverPermissionResponse ex_refusal None) ex_bad_told"

definition ex_waited :: bridge where
  "ex_waited = turn_waited 0 1 1 (Inl ''broken pipe'')
     (enter_end_turn 0 (Inl ''broken pipe'') (turn_unwritten 0 1 ''broken pipe'' True ex_bad_over))"

lemma ex_bad_facts:
  "reader ex_bad_asked = Admitting 0 ex_bad_frame" "async (adm (calls (perms ex_bad_asked) ! 0))"
  "runs 0 ex_bad_admitted" "pc (calls (perms ex_bad_admitted) ! 0) = Checking"
  "runs 0 ex_bad_checked" "pc (calls (perms ex_bad_checked) ! 0) = Delivering ex_refusal None"
  "runs 0 ex_bad_told"
  "pc (calls (perms ex_bad_told) ! 0) = Completing (deliverPermissionResponse ex_refusal None)"
  "turnPC ex_bad_over 0 = TurnWriting 1"
  by code_simp+

lemma ex_bad_over_reach: "bridge_reach ex_cfg (NewNDJSONBridgeClient ex_cfg) ex_bad_over"
proof -
  have calls: "calls (perms ex_calling) = []" by (simp add: ex_calling_fields new_permissions_def)
  have frame: "frame_ID ex_bad_frame = Some (JNum ''7'')" "Params ex_bad_frame = None"
    "Method ex_bad_frame = ''session/request_permission''"
    by (simp_all add: ex_bad_frame_def no_frame_def)
  have 1: "bridge_step ex_cfg ex_calling ex_bad_asked"
    using reader_step.asked [OF _ ex_bad_classify frame(3), of ex_calling ex_cfg] Reader
    by (simp add: ex_bad_asked_def ex_calling_fields calls frame new_permissions_def)
  have 2: "bridge_step ex_cfg ex_bad_asked ex_bad_admitted"
    using reader_step.admitted [OF ex_bad_facts(1), of ex_cfg] ex_bad_facts(2) Reader
    by (simp add: ex_bad_admitted_def)
  have 3: "bridge_step ex_cfg ex_bad_admitted ex_bad_checked"
    unfolding ex_bad_checked_def by (rule Answer, rule answer_step.check) (rule ex_bad_facts)+
  have 4: "bridge_step ex_cfg ex_bad_checked ex_bad_told"
    unfolding ex_bad_told_def by (rule Answer, rule answer_step.deliver) (rule ex_bad_facts)+
  have 5: "bridge_step ex_cfg ex_bad_told ex_bad_over"
    unfolding ex_bad_over_def by (rule Answer, rule answer_step.complete) (rule ex_bad_facts)+
  show ?thesis
    by (rule bridge_reach.step [OF bridge_reach.step [OF bridge_reach.step [OF bridge_reach.step
          [OF bridge_reach.step [OF ex_calling_reach 1] 2] 3] 4] 5])
qed

lemma ex_waited_facts:
  "turnPC (turn_unwritten 0 1 ''broken pipe'' True ex_bad_over) 0 = TurnEnding (Inl ''broken pipe'')"
  "turnPC (enter_end_turn 0 (Inl ''broken pipe'') (turn_unwritten 0 1 ''broken pipe'' True ex_bad_over)) 0 =
     TurnWaits 1 1 (Inl ''broken pipe'')"
  "turn_done (turn_at (coord (perms (enter_end_turn 0 (Inl ''broken pipe'')
     (turn_unwritten 0 1 ''broken pipe'' True ex_bad_over)))) 1)"
  "turnPC ex_waited 0 = TurnClearing (Inl ''broken pipe'')" "length (calls (perms ex_waited)) = 1"
  "counted (adm (calls (perms ex_waited) ! 0))" "adm_turn (adm (calls (perms ex_waited) ! 0)) = Some (Suc 0)"
  "askedID ex_waited 0 = Some (JNum ''7'')"
  by code_simp+

lemma ex_waited_reach: "bridge_reach ex_cfg (NewNDJSONBridgeClient ex_cfg) ex_waited"
proof -
  let ?u = "turn_unwritten 0 1 ''broken pipe'' True ex_bad_over"
  have 1: "bridge_step ex_cfg ex_bad_over ?u"
    by (rule Turn, rule turn_step.unwritten) (rule ex_bad_facts)
  have 2: "bridge_step ex_cfg ?u (enter_end_turn 0 (Inl ''broken pipe'') ?u)"
    by (rule Turn, rule turn_step.enter_end_turn) (rule ex_waited_facts)
  have 3: "bridge_step ex_cfg (enter_end_turn 0 (Inl ''broken pipe'') ?u) ex_waited"
    unfolding ex_waited_def by (rule Turn, rule turn_step.waited) (rule ex_waited_facts)+
  show ?thesis
    by (rule bridge_reach.step [OF bridge_reach.step [OF bridge_reach.step [OF ex_bad_over_reach 1] 2] 3])
qed

theorem permission_before_turn_end_witness:
  "(\<exists>frame. frame_ID frame = Some (JNum ''7'') \<and> requested_event frame (Some 0) \<in> set (attempted ex_waited)) \<and>
   (\<exists>r err. event_of KindAgentPermissionResolved (Some 0)
      (Some (answer_payload ex_cfg (id_value (Some (JNum ''7''))) r err)) \<in> set (attempted ex_waited))"
proof -
  have "past_barrier (turnPC ex_waited 0)" "0 < length (calls (perms ex_waited))"
    by (simp_all add: ex_waited_facts)
  from permission_before_turn_end [OF ex_waited_reach this ex_waited_facts(6,7)] show ?thesis
    by (simp add: ex_waited_facts) blast
qed

text \<open>A close before the launch closes the events at once.\<close>

lemma close_fresh:
  assumes "closePC s = CloseFresh" "termPC s = TermIdle" "turnWG s = 0"
  shows "\<exists>s'. bridge_reach cfg s s' \<and> b_eventsClosed s' \<and> turnCount s' = turnCount s"
proof -
  let ?a = "s\<lparr>b_closed := True, closePC := CloseMarked False\<rparr>"
  let ?b = "?a\<lparr>closePC := CloseSealed False\<rparr>"
  let ?c = "?b\<lparr>closePC := CloseEntered False False\<rparr>"
  let ?d = "?c\<lparr>lifetimeOver := lifetimeOver s, stdinClosed := stdinClosed s, closePC := CloseUngated False\<rparr>"
  let ?e = "(failPending cfg (bc_Component cfg @ '': client closed'') ?d)\<lparr>closePC := CloseFailing False\<rparr>"
  let ?f = "?e\<lparr>stdinClosed := stdinClosed s, closePC := CloseSealing\<rparr>"
  let ?g = "?f\<lparr>eventsClosing := True\<rparr>"
  let ?h = "?g\<lparr>b_eventsClosed := True, closePC := CloseReturned\<rparr>"
  have 1: "bridge_step cfg s ?a" using End [OF end_step.close [OF assms(1), of cfg]] assms(2) by simp
  have 2: "bridge_step cfg ?a ?b" using End [OF end_step.close_permissions [of ?a False cfg]] by simp
  have 3: "bridge_step cfg ?b ?c" using End [OF end_step.close_gives_up [of ?b False cfg]] by simp
  have 4: "bridge_step cfg ?c ?d" using End [OF end_step.close_lifetime [of ?c False False cfg]] by simp
  have 5: "bridge_step cfg ?d ?e" using End [OF end_step.close_fails [of ?d False cfg]] by simp
  have 6: "bridge_step cfg ?e ?f"
    using End [OF end_step.close_transport [of ?e False cfg]] assms(2) by (simp add: failPending_def)
  have 7: "bridge_step cfg ?f ?g" using End [OF end_step.close_seals [of ?f cfg]] by simp
  have 8: "bridge_step cfg ?g ?h"
    using End [OF end_step.close_sealed [of ?g cfg]] assms(3) by (simp add: failPending_def)
  have "bridge_reach cfg s ?h" by (intro bridge_reach.step [OF _ 8] bridge_reach.step [OF _ 7]
      bridge_reach.step [OF _ 6] bridge_reach.step [OF _ 5] bridge_reach.step [OF _ 4]
      bridge_reach.step [OF _ 3] bridge_reach.step [OF _ 2] bridge_reach.step [OF _ 1] bridge_reach.start)
  then show ?thesis by (intro exI [of _ ?h]) (simp add: failPending_def)
qed

theorem events_close_after_turns_witness:
  "\<exists>s. bridge_reach ex_cfg (NewNDJSONBridgeClient ex_cfg) s \<and> b_eventsClosed s \<and> eventsClosing s"
proof -
  obtain s where s: "bridge_reach ex_cfg (NewNDJSONBridgeClient ex_cfg) s" "b_eventsClosed s"
    using close_fresh [of "NewNDJSONBridgeClient ex_cfg" ex_cfg] by (auto simp: NewNDJSONBridgeClient_def)
  with events_close_after_turns [OF s(1), of 0 s] show ?thesis by blast
qed

theorem calls_answered_once_witness:
  "reader (take_response ex_cfg (Some (JNum ''1'')) None None ex_calling) = Routing 1 True (Answer_Result None)"
proof -
  have "callTable ex_calling 1 = Some True"
    by (simp add: ex_calling_def call_turn_def register_call_def Let_def ex_prompted_fields)
  moreover have "int_text (int 1) = ''1''" by code_simp
  ultimately show ?thesis
    using calls_answered_once [OF ex_calling_reach, where i = 1 and prompt = True and result = None and err = None]
    by (simp add: in_int64_def answer_of_def)
qed

theorem bridge_refines_permissions_witness:
  "perm_reach (new_permissions True) ex_waiting \<and> generation (coord ex_waiting) = 1"
  using bridge_refines_permissions [OF ex_waits_reach, of 0] ex_waiting_eq(4)
  by (simp add: ex_waits_fields ex_cfg_def)

definition ex_agent :: agent where
  "ex_agent h c = (if fst c = ''initialize'' then Inr (Some (jobj [(''protocolVersion'', JNum ''1'')]))
     else if fst c = ''session/new'' then Inr (Some (jobj [(''sessionId'', jstr ''s1'')]))
     else Inr None)"

definition ex_launch :: bridge_params where
  "ex_launch = \<lparr>bp_Cwd = ''/w'', bp_SystemPrompt = [], SessionIDPreset = ''old'', AuthMethodID = [],
     SessionModeID = ''plan'', MCPServers = [], bp_Config = [(''fast'', AnyBool True)]\<rparr>"

lemma ex_handshake:
  "(case handshake ex_agent ex_launch [] of
      (Inl e, h) \<Rightarrow> None
    | (Inr est, h) \<Rightarrow> Some (map fst h, map fst (est_events est))) =
   Some ([''initialize'', ''session/new'', ''session/set_mode'', ''session/set_config_option''],
     [KindOther ''session.lost'', KindSessionReady])"
  by code_simp

theorem launch_scripted_witness:
  "\<exists>est h. handshake ex_agent ex_launch [] = (Inr est, h) \<and> est_sessionID est \<noteq> [] \<and>
     map fst h = [''initialize'', ''session/new'', ''session/set_mode'', ''session/set_config_option''] \<and>
     map fst (est_events est) = [KindOther ''session.lost'', KindSessionReady]"
proof -
  obtain est h where r: "handshake ex_agent ex_launch [] = (Inr est, h)"
    "map fst h = [''initialize'', ''session/new'', ''session/set_mode'', ''session/set_config_option'']"
    "map fst (est_events est) = [KindOther ''session.lost'', KindSessionReady]"
    using ex_handshake by (auto split: prod.splits sum.splits)
  moreover have "est_sessionID est \<noteq> []" using launch_scripted [OF r(1)] by blast
  ultimately show ?thesis by (intro exI [of _ est] exI [of _ h]) simp
qed

end
