(* ===== verification/Acp_Updates.thy ===== *)
theory Acp_Updates
  imports Bridge_Client Runtime_Events
begin

text \<open>
  What the ACP adapters make of a notification of their agent: \<open>translate.go\<close> of \<open>claudeacp\<close>,
  \<open>codexacp\<close>, \<open>opencodeacp\<close>, \<open>piacp\<close> and \<open>copilotacp\<close>, with the wire types of the last and its
  \<open>ParseLine\<close>. Each translation is a function from the method and the parameters to the kind
  and payload of the event that is emitted, if one is; the client stamps the turn in flight
  on it. A Go map is an association list with distinct keys; \<open>marshal\<close> writes its members in
  the order of the keys, as \<open>encoding/json\<close> does.
\<close>

subsection \<open>What the updates share\<close>

record update_envelope =
  uv_session :: string
  uv_update :: raw

definition envelope_fields :: "update_envelope field list" where
  "envelope_fields =
     [(''sessionId'', on_field uv_session uv_session_update dec_string),
      (''update'', on_field uv_update uv_update_update dec_raw)]"

text \<open>The kind of a \<open>session/update\<close> and the update itself.\<close>

definition session_update :: "string \<Rightarrow> raw \<Rightarrow> (string \<times> raw) option" where
  "session_update m ps =
     (if m \<noteq> ''session/update'' then None
      else
        (let (ok, v) = unmarshal (dec_struct envelope_fields) ps \<lparr>uv_session = [], uv_update = None\<rparr>
         in if \<not> ok then None
            else
              (let (ok', k) = unmarshal (dec_struct [(''sessionUpdate'', \<lambda>j s. dec_string j s)]) (uv_update v) []
               in if ok' then Some (k, uv_update v) else None)))"

record chunk =
  ck_message :: string
  ck_type :: string
  ck_text :: string

definition no_chunk :: chunk where "no_chunk = \<lparr>ck_message = [], ck_type = [], ck_text = []\<rparr>"

text \<open>The nested struct \<open>Content struct {Type, Text}\<close> is held as its fields. Copilot names the
  id of a thought differently, so its name is an argument.\<close>

definition chunk_fields :: "string \<Rightarrow> chunk field list" where
  "chunk_fields id_name =
     [(id_name, on_field ck_message ck_message_update dec_string),
      (''content'', dec_struct
         [(''type'', on_field ck_type ck_type_update dec_string),
          (''text'', on_field ck_text ck_text_update dec_string)])]"

type_synonym translated = "(event_kind \<times> any_value) option"

definition delta_event :: "string \<Rightarrow> string \<Rightarrow> string \<Rightarrow> translated" where
  "delta_event phase txt message = Some (KindAgentDelta, AnyObject (WithBlockID
     [(''content'', AnyString txt), (''phase'', AnyString phase)] message))"

definition chunk_event :: "string \<Rightarrow> raw \<Rightarrow> translated" where
  "chunk_event phase u =
     (let (ok, v) = unmarshal (dec_struct (chunk_fields ''messageId'')) u no_chunk
      in if ok then delta_event phase (ck_text v) (ck_message v) else None)"

text \<open>A raw member that was sent, under the name it gets.\<close>

definition raw_member :: "string \<Rightarrow> raw \<Rightarrow> (string \<times> any_value) list" where
  "raw_member k x = (case x of None \<Rightarrow> [] | Some j \<Rightarrow> [(k, any_of j)])"

definition text_member :: "string \<Rightarrow> string \<Rightarrow> (string \<times> any_value) list" where
  "text_member k s = (if s = [] then [] else [(k, AnyString s)])"

record tool_update =
  tu_id :: string
  tu_title :: string
  tu_kind :: string
  tu_status :: string
  tu_input :: raw
  tu_output :: raw

definition no_tool_update :: tool_update where
  "no_tool_update = \<lparr>tu_id = [], tu_title = [], tu_kind = [], tu_status = [], tu_input = None, tu_output = None\<rparr>"

definition tool_fields :: "tool_update field list" where
  "tool_fields =
     [(''toolCallId'', on_field tu_id tu_id_update dec_string),
      (''title'', on_field tu_title tu_title_update dec_string),
      (''kind'', on_field tu_kind tu_kind_update dec_string),
      (''status'', on_field tu_status tu_status_update dec_string),
      (''rawInput'', on_field tu_input tu_input_update dec_raw)]"

definition tool_call_event :: "raw \<Rightarrow> translated" where
  "tool_call_event u =
     (let (ok, v) = unmarshal (dec_struct tool_fields) u no_tool_update
      in if ok then Some (KindAgentToolUse, AnyObject
           ([(''tool_call_id'', AnyString (tu_id v)), (''title'', AnyString (tu_title v)),
             (''kind'', AnyString (tu_kind v)), (''status'', AnyString (tu_status v))] @
            raw_member ''raw_input'' (tu_input v)))
         else None)"

text \<open>The fields of an update of a tool call, with the name under which its output comes.\<close>

definition tool_result_fields :: "tool_update field list" where
  "tool_result_fields = tool_fields @ [(''rawOutput'', on_field tu_output tu_output_update dec_raw)]"

text \<open>\<open>mustMarshal\<close>. \<open>quote\<close> is how a string is written; strings that were decoded from a
  document are valid and read back as they are.\<close>

fun marshal :: "(string \<Rightarrow> string) \<Rightarrow> any_value \<Rightarrow> json" where
  "marshal quote AnyNull = JNull"
| "marshal quote (AnyBool b) = JBool b"
| "marshal quote (AnyNumber s) = JNum s"
| "marshal quote (AnyString s) = JStr (quote s) s"
| "marshal quote (AnyArray vs) =
     (let js = map (marshal quote) vs in JArr (''['' @ Join (map json_text js) '','' @ '']'') js)"
| "marshal quote (AnyObject kvs) =
     (let ms = sort_key fst (map (\<lambda>(k, v). (k, marshal quote v)) kvs)
      in JObj (''{'' @ Join (map (\<lambda>(k, j). quote k @ '':'' @ json_text j) ms) '','' @ ''}'') ms)"

subsection \<open>Claude\<close>

definition claude_result_event :: "raw \<Rightarrow> translated" where
  "claude_result_event u =
     (let (ok, v) = unmarshal (dec_struct tool_result_fields) u no_tool_update
      in if ok then Some (KindAgentToolResult, AnyObject
           ([(''tool_call_id'', AnyString (tu_id v))] @
            (if tu_status v \<noteq> [] then [(''status'', AnyString (tu_status v)),
               (''is_error'', AnyBool (tu_status v = ''failed''))] else []) @
            text_member ''title'' (tu_title v) @ raw_member ''result'' (tu_output v)))
         else None)"

definition claude_notification :: "string \<Rightarrow> raw \<Rightarrow> translated" where
  "claude_notification m ps =
     (case session_update m ps of
        None \<Rightarrow> None
      | Some (k, u) \<Rightarrow>
          if k = ''agent_message_chunk'' then chunk_event ''message'' u
          else if k = ''agent_thought_chunk'' then chunk_event ''thought'' u
          else if k = ''tool_call'' then tool_call_event u
          else if k = ''tool_call_update'' then claude_result_event u
          else None)"

subsection \<open>Codex\<close>

definition codex_result_event :: "raw \<Rightarrow> translated" where
  "codex_result_event u =
     (let (ok, v) = unmarshal (dec_struct tool_result_fields) u no_tool_update
      in if ok then Some (KindAgentToolResult, AnyObject
           ([(''tool_call_id'', AnyString (tu_id v)), (''status'', AnyString (tu_status v))] @
            text_member ''title'' (tu_title v) @ raw_member ''result'' (tu_output v)))
         else None)"

definition codex_notification :: "string \<Rightarrow> raw \<Rightarrow> translated" where
  "codex_notification m ps =
     (case session_update m ps of
        None \<Rightarrow> None
      | Some (k, u) \<Rightarrow>
          if k = ''agent_message_chunk'' then chunk_event ''message'' u
          else if k = ''agent_thought_chunk'' then chunk_event ''thought'' u
          else if k = ''tool_call'' then tool_call_event u
          else if k = ''tool_call_update'' then codex_result_event u
          else None)"

subsection \<open>OpenCode\<close>

record opencode_thought =
  ot_message :: string
  ot_thought :: string

definition opencode_thought_event :: "raw \<Rightarrow> translated" where
  "opencode_thought_event u =
     (let (ok, v) = unmarshal (dec_struct
            [(''messageId'', on_field ot_message ot_message_update dec_string),
             (''thought'', on_field ot_thought ot_thought_update dec_string)]) u \<lparr>ot_message = [], ot_thought = []\<rparr>
      in if ok then delta_event ''thought'' (ot_thought v) (ot_message v) else None)"

record opencode_result = tool_update +
  tu_isError :: "bool option"

definition opencode_result_fields :: "opencode_result field list" where
  "opencode_result_fields =
     [(''toolCallId'', on_field tu_id tu_id_update dec_string),
      (''status'', on_field tu_status tu_status_update dec_string),
      (''kind'', on_field tu_kind tu_kind_update dec_string),
      (''title'', on_field tu_title tu_title_update dec_string),
      (''rawInput'', on_field tu_input tu_input_update dec_raw),
      (''result'', on_field tu_output tu_output_update dec_raw),
      (''isError'', on_field tu_isError tu_isError_update dec_bool_ptr)]"

definition opencode_result_event :: "raw \<Rightarrow> translated" where
  "opencode_result_event u =
     (let (ok, v) = unmarshal (dec_struct opencode_result_fields) u
            (tool_update.extend no_tool_update \<lparr>tu_isError = None\<rparr>)
      in if ok then Some (KindAgentToolResult, AnyObject
           ([(''tool_call_id'', AnyString (tu_id v)), (''status'', AnyString (tu_status v))] @
            text_member ''title'' (tu_title v) @
            (case tu_isError v of None \<Rightarrow> [] | Some b \<Rightarrow> [(''is_error'', AnyBool b)]) @
            raw_member ''result'' (tu_output v)))
         else None)"

definition opencode_notification :: "string \<Rightarrow> raw \<Rightarrow> translated" where
  "opencode_notification m ps =
     (case session_update m ps of
        None \<Rightarrow> None
      | Some (k, u) \<Rightarrow>
          if k = ''agent_message_chunk'' then chunk_event ''message'' u
          else if k = ''agent_thought_chunk'' then opencode_thought_event u
          else if k = ''tool_call'' then tool_call_event u
          else if k = ''tool_call_update'' then opencode_result_event u
          else None)"

subsection \<open>Pi\<close>

record pi_call = tool_update +
  tu_locations :: "string list"

text \<open>A location is held as its one field, the path.\<close>

definition pi_call_event :: "raw \<Rightarrow> translated" where
  "pi_call_event u =
     (let (ok, v) = unmarshal (dec_struct
            [(''toolCallId'', on_field tu_id tu_id_update dec_string),
             (''title'', on_field tu_title tu_title_update dec_string),
             (''kind'', on_field tu_kind tu_kind_update dec_string),
             (''status'', on_field tu_status tu_status_update dec_string),
             (''locations'', on_field tu_locations tu_locations_update
                (dec_slice (dec_struct [(''path'', \<lambda>j s. dec_string j s)]) [])),
             (''rawInput'', on_field tu_input tu_input_update dec_raw)]) u
            (tool_update.extend no_tool_update \<lparr>tu_locations = []\<rparr>)
      in if ok then Some (KindAgentToolUse, AnyObject
           ([(''tool_call_id'', AnyString (tu_id v)), (''title'', AnyString (tu_title v)),
             (''kind'', AnyString (tu_kind v)), (''status'', AnyString (tu_status v))] @
            (if tu_locations v \<noteq> []
             then [(''locations'', AnyArray (map AnyString (tu_locations v)))] else []) @
            raw_member ''raw_input'' (tu_input v)))
         else None)"

record terminal_output =
  to_id :: string
  to_data :: string

record terminal_exit =
  te_id :: string
  te_code :: "int option"
  te_signal :: "string option"

record pi_result = tool_update +
  tu_terminal :: "terminal_output option"
  tu_exit :: "terminal_exit option"

definition pi_result_fields :: "pi_result field list" where
  "pi_result_fields =
     [(''toolCallId'', on_field tu_id tu_id_update dec_string),
      (''status'', on_field tu_status tu_status_update dec_string),
      (''title'', on_field tu_title tu_title_update dec_string),
      (''content'', on_field tu_output tu_output_update dec_raw),
      (''_meta'', dec_struct
         [(''terminal_output'', on_field tu_terminal tu_terminal_update (dec_struct_ptr
             [(''terminal_id'', on_field to_id to_id_update dec_string),
              (''data'', on_field to_data to_data_update dec_string)] \<lparr>to_id = [], to_data = []\<rparr>)),
          (''terminal_exit'', on_field tu_exit tu_exit_update (dec_struct_ptr
             [(''terminal_id'', on_field te_id te_id_update dec_string),
              (''exit_code'', on_field te_code te_code_update (dec_ptr dec_int 0)),
              (''signal'', on_field te_signal te_signal_update (dec_ptr dec_string []))]
             \<lparr>te_id = [], te_code = None, te_signal = None\<rparr>))])]"

definition exit_members :: "terminal_exit \<Rightarrow> (string \<times> any_value) list" where
  "exit_members e =
     (case te_code e of None \<Rightarrow> [] | Some n \<Rightarrow> [(''exit_code'', AnyNumber (int_text n))]) @
     (case te_signal e of None \<Rightarrow> [] | Some s \<Rightarrow> [(''signal'', AnyString s)])"

definition pi_result_event :: "raw \<Rightarrow> translated" where
  "pi_result_event u =
     (let (ok, v) = unmarshal (dec_struct pi_result_fields) u
            (tool_update.extend no_tool_update \<lparr>tu_terminal = None, tu_exit = None\<rparr>)
      in if ok then Some (KindAgentToolResult, AnyObject
           ([(''tool_call_id'', AnyString (tu_id v)), (''status'', AnyString (tu_status v))] @
            text_member ''title'' (tu_title v) @ raw_member ''result'' (tu_output v) @
            (case tu_terminal v of None \<Rightarrow> [] | Some o' \<Rightarrow> [(''terminal_output'', AnyString (to_data o'))]) @
            (case tu_exit v of None \<Rightarrow> [] | Some e \<Rightarrow> [(''terminal_exit'', AnyObject (exit_members e))])))
         else None)"

definition pi_notification :: "string \<Rightarrow> raw \<Rightarrow> translated" where
  "pi_notification m ps =
     (case session_update m ps of
        None \<Rightarrow> None
      | Some (k, u) \<Rightarrow>
          if k = ''agent_message_chunk'' then chunk_event ''message'' u
          else if k = ''agent_thought_chunk'' then chunk_event ''thought'' u
          else if k = ''tool_call'' then pi_call_event u
          else if k = ''tool_call_update'' then pi_result_event u
          else None)"

subsection \<open>Copilot\<close>

datatype acp_update =
    UpdateDelta string string  \<comment> \<open>text, block id\<close>
  | UpdateThinking string string
  | UpdateToolUse string string string string  \<comment> \<open>id, name, kind, status\<close>
  | UpdateToolResult string string string  \<comment> \<open>id, status, text\<close>

text \<open>A content block is held as its text; its type is decoded and not used.\<close>

definition dec_content_text :: "string decoder" where
  "dec_content_text j s =
     (let (ok, c) = dec_struct
        [(''type'', on_field ck_type ck_type_update dec_string),
         (''text'', on_field ck_text ck_text_update dec_string)] j (no_chunk\<lparr>ck_text := s\<rparr>)
      in (ok, ck_text c))"

record copilot_result =
  cr_id :: string
  cr_status :: string
  cr_content :: "string list"

definition parse_chunk :: "string \<Rightarrow> (string \<Rightarrow> string \<Rightarrow> acp_update) \<Rightarrow> raw \<Rightarrow> acp_update option" where
  "parse_chunk id_name f u =
     (let (ok, v) = unmarshal (dec_struct (chunk_fields id_name)) u no_chunk
      in if \<not> ok \<or> ck_text v = [] then None else Some (f (ck_text v) (ck_message v)))"

definition parseSessionUpdate :: "raw \<Rightarrow> acp_update option" where
  "parseSessionUpdate u =
     (let (ok, k) = unmarshal (dec_struct [(''sessionUpdate'', \<lambda>j s. dec_string j s)]) u []
      in if \<not> ok then None
         else if k = ''agent_message_chunk'' then parse_chunk ''messageId'' UpdateDelta u
         else if k = ''agent_thought_chunk'' then parse_chunk ''thoughtId'' UpdateThinking u
         else if k = ''tool_call''
         then (let (ok', v) = unmarshal (dec_struct (butlast tool_fields)) u no_tool_update
               in if ok' then Some (UpdateToolUse (tu_id v) (tu_title v) (tu_kind v) (tu_status v)) else None)
         else if k = ''tool_call_update''
         then (let (ok', v) = unmarshal (dec_struct
                     [(''toolCallId'', on_field cr_id cr_id_update dec_string),
                      (''status'', on_field cr_status cr_status_update dec_string),
                      (''content'', on_field cr_content cr_content_update (dec_slice dec_content_text []))]) u
                     \<lparr>cr_id = [], cr_status = [], cr_content = []\<rparr>
               in if ok' then Some (UpdateToolResult (cr_id v) (cr_status v) (concat (cr_content v))) else None)
         else None)"

fun acpUpdateToRuntimeEvent :: "acp_update \<Rightarrow> event_kind \<times> any_value" where
  "acpUpdateToRuntimeEvent (UpdateDelta txt blk) = (KindAgentDelta, AnyObject (WithBlockID
     [(''content'', AnyString txt), (''phase'', AnyString ''message'')] blk))"
| "acpUpdateToRuntimeEvent (UpdateThinking txt blk) = (KindAgentDelta, AnyObject (WithBlockID
     [(''content'', AnyString txt), (''thinking'', AnyBool True), (''phase'', AnyString ''thought'')] blk))"
| "acpUpdateToRuntimeEvent (UpdateToolUse i name k status) = (KindAgentToolUse, AnyObject
     [(''tool_use'', AnyObject [(''id'', AnyString i), (''name'', AnyString name),
        (''kind'', AnyString k), (''status'', AnyString status)])])"
| "acpUpdateToRuntimeEvent (UpdateToolResult i status txt) = (KindAgentToolResult, AnyObject
     [(''tool_result'', AnyObject [(''id'', AnyString i), (''status'', AnyString status),
        (''content_preview'', AnyString txt)])])"

fun acpUpdateToStreamEvent :: "acp_update \<Rightarrow> stream_event option" where
  "acpUpdateToStreamEvent (UpdateDelta txt blk) = Some (SDelta txt blk [])"
| "acpUpdateToStreamEvent (UpdateThinking txt blk) = Some SThinking"
| "acpUpdateToStreamEvent (UpdateToolUse i name k status) = Some (SToolUse (Some (i, name, None)))"
| "acpUpdateToStreamEvent (UpdateToolResult i status txt) = None"

definition copilot_params :: "raw \<Rightarrow> acp_update option" where
  "copilot_params ps =
     (let (ok, v) = unmarshal (dec_struct envelope_fields) ps \<lparr>uv_session = [], uv_update = None\<rparr>
      in if ok then parseSessionUpdate (uv_update v) else None)"

definition copilot_notification :: "string \<Rightarrow> raw \<Rightarrow> translated" where
  "copilot_notification m ps =
     (if m \<noteq> ''session/update'' then None else map_option acpUpdateToRuntimeEvent (copilot_params ps))"

text \<open>The frame \<open>ParseLine\<close> decodes has a numeric id.\<close>

record copilot_frame =
  cf_JSONRPC :: string
  cf_ID :: "int option"
  cf_Method :: string
  cf_Params :: raw
  cf_Result :: raw
  cf_Error :: "rpc_error option"

definition copilot_frame_fields :: "copilot_frame field list" where
  "copilot_frame_fields =
     [(''jsonrpc'', on_field cf_JSONRPC cf_JSONRPC_update dec_string),
      (''id'', on_field cf_ID cf_ID_update (dec_ptr dec_int 0)),
      (''method'', on_field cf_Method cf_Method_update dec_string),
      (''params'', on_field cf_Params cf_Params_update dec_raw),
      (''result'', on_field cf_Result cf_Result_update dec_raw),
      (''error'', on_field cf_Error cf_Error_update (dec_struct_ptr rpc_error_fields no_rpc_error))]"

definition ParseLine :: "raw \<Rightarrow> stream_event list" where
  "ParseLine line =
     (let (ok, f) = unmarshal (dec_struct copilot_frame_fields) line
            \<lparr>cf_JSONRPC = [], cf_ID = None, cf_Method = [], cf_Params = None, cf_Result = None, cf_Error = None\<rparr>
      in if \<not> ok \<or> cf_Method f \<noteq> ''session/update'' then []
         else case copilot_params (cf_Params f) of
             None \<Rightarrow> []
           | Some u \<Rightarrow> (case acpUpdateToStreamEvent u of None \<Rightarrow> [] | Some e \<Rightarrow> [e]))"

end
