(* ===== verification/Acp_Update_Properties.thy ===== *)
theory Acp_Update_Properties
  imports Acp_Updates Bridge_Steps Feed
begin

text \<open>
  What \<open>turnoutput\<close> makes of the events the ACP adapters emit. The interface is the locale
  \<open>acp_translation\<close>: what the bridge client and the reducer rely on in a translation of
  notifications. Each of the five adapters is an interpretation of it. The lemmas on tool
  updates say when the reducer takes one for the result of its call.
\<close>

subsection \<open>Reading a marshalled payload\<close>

text \<open>Members without a field do not matter, in whatever order they are written.\<close>

lemma dec_members_known:
  "dec_members fs ms r = dec_members fs (filter (\<lambda>m. field_for fs (fst m) \<noteq> None) ms) r"
  by (induction fs ms r rule: dec_members.induct) (auto split: option.split prod.split)

definition known_members :: "'r field list \<Rightarrow> (string \<Rightarrow> string) \<Rightarrow> (string \<times> any_value) list \<Rightarrow> (string \<times> json) list" where
  "known_members fs quote kvs =
     map (\<lambda>(k, v). (k, marshal quote v)) (filter (\<lambda>m. field_for fs (fst m) \<noteq> None) kvs)"

lemma known_members_append [simp]:
  "known_members fs q (xs @ ys) = known_members fs q xs @ known_members fs q ys"
  "known_members fs q [] = []"
  "known_members fs q ((k, v) # xs) =
     (if field_for fs k = None then known_members fs q xs else (k, marshal q v) # known_members fs q xs)"
  by (simp_all add: known_members_def)

lemma known_members_text [simp]:
  "known_members fs q (text_member k s) =
     (if field_for fs k = None \<or> s = [] then [] else [(k, JStr (q s) s)])"
  by (simp add: text_member_def)

lemma known_members_raw [simp]:
  "field_for fs k = None \<Longrightarrow> known_members fs q (raw_member k x) = []"
  by (simp add: raw_member_def split: option.split)

lemma unmarshal_object:
  "unmarshal (dec_struct fs) (Some (marshal q (AnyObject kvs))) r =
     dec_members fs (sort_key fst (known_members fs q kvs)) r"
proof -
  have "filter (\<lambda>m. field_for fs (fst m) \<noteq> None) (map (\<lambda>(k, v). (k, marshal q v)) kvs) = known_members fs q kvs"
    by (simp add: known_members_def filter_map comp_def split_def)
  moreover have "unmarshal (dec_struct fs) (Some (marshal q (AnyObject kvs))) r =
      dec_members fs (sort_key fst (map (\<lambda>(k, v). (k, marshal q v)) kvs)) r"
    by (simp add: unmarshal_def Let_def)
  ultimately show ?thesis
    by (subst (asm) dec_members_known) (simp add: filter_sort)
qed

lemma dec_object_ptr:
  "dec_struct_ptr fs zero (marshal q (AnyObject kvs)) None =
     (let (ok, r) = dec_members fs (sort_key fst (known_members fs q kvs)) zero in (ok, Some r))"
  using unmarshal_object [of fs q kvs zero] by (simp add: unmarshal_def Let_def)

declare marshal.simps(6) [simp del]

text \<open>The fields the reducer's structs have, and have not, for the members that are sent.\<close>

lemma delta_fields [simp]:
  "field_for delta_payload_fields ''content'' = Some (on_field dl_content dl_content_update dec_string)"
  "field_for delta_payload_fields ''phase'' = Some (on_field dl_phase dl_phase_update dec_string)"
  "field_for delta_payload_fields ''block_id'' = Some (on_field dl_block_id dl_block_id_update dec_string)"
  "field_for delta_payload_fields ''thinking'' = Some (on_field dl_thinking dl_thinking_update dec_raw)"
  by (simp_all add: field_for_def delta_payload_fields_def ascii_lower_def)

lemma result_fields [simp]:
  "field_for result_payload_fields ''tool_call_id'' = Some (on_field ri_id ri_id_update dec_string)"
  "field_for result_payload_fields ''status'' = Some (on_field ri_status ri_status_update dec_string)"
  "field_for result_payload_fields ''is_error'' = Some (on_field ri_is_error ri_is_error_update dec_bool_ptr)"
  "field_for result_payload_fields ''tool_result'' = Some (on_field rs_nested rs_nested_update
     (dec_struct_ptr (result_item_fields ''id'') no_result_item))"
  "field_for result_payload_fields ''title'' = None" "field_for result_payload_fields ''result'' = None"
  "field_for result_payload_fields ''terminal_output'' = None"
  "field_for result_payload_fields ''terminal_exit'' = None"
  by (simp_all add: field_for_def result_payload_fields_def ascii_lower_def)

lemma nested_fields [simp]:
  "field_for (result_item_fields ''id'') ''id'' = Some (on_field ri_id ri_id_update dec_string)"
  "field_for (result_item_fields ''id'') ''status'' = Some (on_field ri_status ri_status_update dec_string)"
  "field_for (result_item_fields ''id'') ''content_preview'' = None"
  by (simp_all add: field_for_def result_item_fields_def ascii_lower_def)

lemma phases [simp]:
  "\<not> isThought ''message''" "isThought ''thought''" "\<not> isFinalPhase ''message''"
  "\<not> truthy None" "truthy (Some (JBool True))"
  by (code_simp, code_simp, code_simp, code_simp, code_simp)

lemma delta_read:
  "on_delta (Some (marshal q (AnyObject (WithBlockID [(''content'', AnyString x), (''phase'', AnyString ''message'')] m)))) t
     = addDelta t x m False"
  "on_delta (Some (marshal q (AnyObject (WithBlockID [(''content'', AnyString x), (''phase'', AnyString ''thought'')] m)))) t = t"
  "on_delta (Some (marshal q (AnyObject (WithBlockID [(''content'', AnyString x), (''thinking'', AnyBool True),
     (''phase'', AnyString ''thought'')] m)))) t = t"
  by (simp_all add: on_delta_def WithBlockID_def unmarshal_object no_delta_payload_def on_field_def)

subsection \<open>Updates of tool calls\<close>

text \<open>What an update says by its status alone.\<close>

definition status_outcome :: "string \<Rightarrow> string \<Rightarrow> string \<times> bool \<times> bool" where
  "status_outcome i status =
     (if status = ''failed'' then (i, True, True) else (i, False, status = ''completed''))"

lemmas result_read = toolResultOutcome_def unmarshal_object no_result_item_def result_item.defs
  status_outcome_def on_field_def Let_def

lemma codex_result_read:
  assumes "unmarshal (dec_struct tool_result_fields) u no_tool_update = (True, v)"
  shows "\<exists>p. codex_result_event u = Some (KindAgentToolResult, p) \<and>
    toolResultOutcome (Some (marshal q p)) = status_outcome (tu_id v) (tu_status v)"
  using assms by (simp add: codex_result_event_def result_read)

lemma claude_result_read:
  assumes "unmarshal (dec_struct tool_result_fields) u no_tool_update = (True, v)"
  shows "\<exists>p. claude_result_event u = Some (KindAgentToolResult, p) \<and>
    toolResultOutcome (Some (marshal q p)) = (tu_id v, tu_status v = ''failed'', tu_status v \<noteq> [])"
  using assms by (simp add: claude_result_event_def result_read)

lemma opencode_result_read:
  assumes "unmarshal (dec_struct opencode_result_fields) u
      (tool_update.extend no_tool_update \<lparr>tu_isError = None\<rparr>) = (True, v)"
  shows "\<exists>p. opencode_result_event u = Some (KindAgentToolResult, p) \<and>
    toolResultOutcome (Some (marshal q p)) =
      (case tu_isError v of Some b \<Rightarrow> (tu_id v, b, True) | None \<Rightarrow> status_outcome (tu_id v) (tu_status v))"
  using assms by (cases "tu_isError v") (simp_all add: opencode_result_event_def result_read)

lemma pi_result_read:
  assumes "unmarshal (dec_struct pi_result_fields) u
      (tool_update.extend no_tool_update \<lparr>tu_terminal = None, tu_exit = None\<rparr>) = (True, v)"
  shows "\<exists>p. pi_result_event u = Some (KindAgentToolResult, p) \<and>
    toolResultOutcome (Some (marshal q p)) = status_outcome (tu_id v) (tu_status v)"
  using assms by (cases "tu_terminal v"; cases "tu_exit v") (simp_all add: pi_result_event_def result_read)

lemma copilot_result_read:
  "toolResultOutcome (Some (marshal q (snd (acpUpdateToRuntimeEvent (UpdateToolResult i status x))))) =
     status_outcome i status"
  by (simp add: result_read dec_object_ptr)

text \<open>The first result of a call stays; later ones change nothing.\<close>

lemma toolIndex_tools: "tools t' = tools t \<Longrightarrow> toolIndex t' i = toolIndex t i"
  by (rule toolIndex_cong) simp

text \<open>Where the facts of a call are kept, until they are written.\<close>

fun kept_at :: "turn \<Rightarrow> string \<Rightarrow> facts_ref \<Rightarrow> bool" where
  "kept_at t i (InTool k) = (toolIndex t i = Some k)"
| "kept_at t i (InEarly j) = (j = i \<and> toolIndex t i = None \<and> early t i \<noteq> None)"

lemma kept_at_iff: "kept_at t i ref \<Longrightarrow> factsFor t i = (t, ref)"
  by (cases ref) (auto simp: factsFor_def)

lemma tools_forgetEarly [simp]: "tools (forgetEarly t j) = tools t"
  by (simp add: forgetEarly_def)

lemma factsFor_kept: "factsFor t i = (t1, ref) \<Longrightarrow> kept_at t1 i ref"
proof (cases "toolIndex t i")
  case None
  assume f: "factsFor t i = (t1, ref)"
  show ?thesis
  proof (cases "early t i")
    case None
    let ?t = "if length (earlyOrder t) \<ge> maxEarly then forgetEarly t (hd (earlyOrder t)) else t"
    have t1: "t1 = ?t\<lparr>early := (early ?t)(i \<mapsto> no_facts), earlyOrder := earlyOrder ?t @ [i]\<rparr>" "ref = InEarly i"
      using f None \<open>toolIndex t i = None\<close> by (simp_all only: factsFor_def option.case Let_def prod.inject)
    have "tools t1 = tools t" by (simp add: t1(1))
    then have "toolIndex t1 i = None" using \<open>toolIndex t i = None\<close> toolIndex_tools [of t1 t i] by simp
    moreover have "early t1 i \<noteq> None" by (simp add: t1(1))
    ultimately show ?thesis using t1(2) by simp
  qed (use f None in \<open>auto simp: factsFor_def\<close>)
qed (auto simp: factsFor_def)

lemma write_kept:
  assumes "kept_at t i ref"
  shows "kept_at (write_facts (t\<lparr>seq := n\<rparr>) ref f) i ref"
    and "read_facts (write_facts (t\<lparr>seq := n\<rparr>) ref f) ref = f"
proof -
  have "map tool_id (tools (write_facts (t\<lparr>seq := n\<rparr>) ref f)) = map tool_id (tools t)"
    using assms toolIndex_SomeD(1) by (cases ref) (auto simp: map_update list_update_same_conv)
  then have "toolIndex (write_facts (t\<lparr>seq := n\<rparr>) ref f) i = toolIndex t i" by (rule toolIndex_cong)
  then show "kept_at (write_facts (t\<lparr>seq := n\<rparr>) ref f) i ref" using assms by (cases ref) auto
  show "read_facts (write_facts (t\<lparr>seq := n\<rparr>) ref f) ref = f"
    using assms toolIndex_SomeD(1) by (cases ref) auto
qed

lemma toolResult_again: "toolResult (toolResult t i e) i e' = toolResult t i e"
proof -
  obtain t1 ref where f: "factsFor t i = (t1, ref)" by (cases "factsFor t i")
  note kept = factsFor_kept [OF f]
  show ?thesis
  proof (cases "i = [] \<or> hasResult (read_facts t1 ref)")
    case True
    then show ?thesis using f kept_at_iff [OF kept] by (auto simp: toolResult_def)
  next
    case False
    define g where "g = (read_facts t1 ref)\<lparr>result := \<lparr>isError = e, oseq = seq t1 + 1\<rparr>, hasResult := True\<rparr>"
    let ?w = "write_facts (t1\<lparr>seq := seq t1 + 1\<rparr>) ref g"
    have "toolResult t i e = ?w" using False f by (simp add: toolResult_def Let_def g_def)
    moreover have "toolResult ?w i e' = ?w"
      using kept_at_iff [OF write_kept(1) [OF kept]] write_kept(2) [OF kept]
      by (simp add: toolResult_def g_def)
    ultimately show ?thesis by simp
  qed
qed

lemma toolResult_boundary: "toolResult (boundary t) i e = boundary (toolResult t i e)"
proof -
  obtain t1 ref where f: "factsFor t i = (t1, ref)" by (cases "factsFor t i")
  have "factsFor (boundary t) i = (boundary t1, ref)"
    using f toolIndex_tools [of "boundary t" t i]
    by (auto simp: factsFor_def forgetEarly_def boundary_def Let_def split: option.splits)
  moreover have "read_facts (boundary t1) ref = read_facts t1 ref" by (cases ref) (simp_all add: boundary_def)
  moreover have "write_facts ((boundary t1)\<lparr>seq := n\<rparr>) ref g = boundary (write_facts (t1\<lparr>seq := n\<rparr>) ref g)" for n g
    by (cases ref) (simp_all add: boundary_def)
  ultimately show ?thesis using f by (simp add: toolResult_def Let_def boundary_def)
qed

subsection \<open>The interface of a translation\<close>

text \<open>
  What the bridge client relies on (no event of a notification frames a turn), and the
  reducer (the text of a message comes as a delta with its block id, a thought adds nothing).
\<close>

locale acp_translation =
  fixes translate :: "string \<Rightarrow> raw \<Rightarrow> translated"
  assumes emitted_kind: "translate m ps = Some (k, p) \<Longrightarrow> k \<in> {KindAgentDelta, KindAgentToolUse, KindAgentToolResult}"
    and message_told: "session_update m ps = Some (''agent_message_chunk'', u) \<Longrightarrow>
      unmarshal (dec_struct (chunk_fields ''messageId'')) u no_chunk = (True, v) \<Longrightarrow> ck_text v \<noteq> [] \<Longrightarrow>
      translate m ps = delta_event ''message'' (ck_text v) (ck_message v)"
    and thought_marked: "session_update m ps = Some (''agent_thought_chunk'', u) \<Longrightarrow>
      translate m ps = Some (k, p) \<Longrightarrow> k = KindAgentDelta \<and> on_delta (Some (marshal q p)) t = t"
begin

lemma no_frame: "translate m ps = Some (k, p) \<Longrightarrow> \<not> is_frame k"
  using emitted_kind by (fastforce simp: is_frame_def)

text \<open>A notification is a step of the client's reader.\<close>

lemma notification_step:
  assumes "reader s = Reading" "classify_frame x = Notification m ps" "translate m ps = Some (k, p)"
  shows "reader_step cfg s (s\<lparr>reader := Stamped (event_of k (inFlight s) (Some p))\<rparr>)"
  by (rule reader_step.notified [OF assms(1,2) no_frame [OF assms(3)]])

lemma message_observed:
  assumes "session_update m ps = Some (''agent_message_chunk'', u)"
    "unmarshal (dec_struct (chunk_fields ''messageId'')) u no_chunk = (True, v)" "ck_text v \<noteq> []"
    "translate m ps = Some (ev_Kind ev, p)" "ev_Payload ev = Some (marshal q p)"
  shows "Observe L r ev =
    (in_body (identify r ev) (ev_TurnID ev) (\<lambda>t. addDelta t (ck_text v) (ck_message v) False), None)"
proof -
  have "ev_Kind ev = KindAgentDelta" "p = AnyObject (WithBlockID
      [(''content'', AnyString (ck_text v)), (''phase'', AnyString ''message'')] (ck_message v))"
    using message_told [OF assms(1-3)] assms(4) by (auto simp: delta_event_def)
  then show ?thesis by (simp add: Observe_def assms(5) delta_read [abs_def])
qed

lemma thought_observed:
  assumes "session_update m ps = Some (''agent_thought_chunk'', u)"
    "translate m ps = Some (ev_Kind ev, p)" "ev_Payload ev = Some (marshal q p)"
  shows "Observe L r ev = (in_body (identify r ev) (ev_TurnID ev) (\<lambda>t. t), None)"
proof -
  have "ev_Kind ev = KindAgentDelta" "on_delta (Some (marshal q p)) = (\<lambda>t. t)"
    using thought_marked [OF assms(1,2)] by auto
  then show ?thesis by (simp add: Observe_def assms(3))
qed

end

lemmas notification_defs = claude_notification_def codex_notification_def opencode_notification_def
  pi_notification_def copilot_notification_def

lemmas event_defs = chunk_event_def delta_event_def tool_call_event_def claude_result_event_def
  codex_result_event_def opencode_thought_event_def opencode_result_event_def pi_call_event_def
  pi_result_event_def Let_def split_def

interpretation claude: acp_translation claude_notification
  by unfold_locales (auto simp: notification_defs event_defs delta_read split: option.splits if_splits)

interpretation codex: acp_translation codex_notification
  by unfold_locales (auto simp: notification_defs event_defs delta_read split: option.splits if_splits)

interpretation opencode: acp_translation opencode_notification
  by unfold_locales (auto simp: notification_defs event_defs delta_read split: option.splits if_splits)

interpretation pi: acp_translation pi_notification
  by unfold_locales (auto simp: notification_defs event_defs delta_read split: option.splits if_splits)

text \<open>Copilot's parser reads the kind again.\<close>

lemma copilot_params_update:
  assumes "session_update ''session/update'' ps = Some (k, u)"
  shows "copilot_params ps = parseSessionUpdate u"
    and "unmarshal (dec_struct [(''sessionUpdate'', \<lambda>j s. dec_string j s)]) u [] = (True, k)"
  using assms by (auto simp: session_update_def copilot_params_def split: if_splits prod.splits)

interpretation copilot: acp_translation copilot_notification
proof
  fix m ps k p
  assume "copilot_notification m ps = Some (k, p)"
  then obtain u where "acpUpdateToRuntimeEvent u = (k, p)"
    by (auto simp: copilot_notification_def split: if_splits)
  then show "k \<in> {KindAgentDelta, KindAgentToolUse, KindAgentToolResult}" by (cases u) auto
next
  fix m ps u v
  assume u: "session_update m ps = Some (''agent_message_chunk'', u)"
    and v: "unmarshal (dec_struct (chunk_fields ''messageId'')) u no_chunk = (True, v)" "ck_text v \<noteq> []"
  then have "m = ''session/update''" by (auto simp: session_update_def split: if_splits)
  with u v copilot_params_update [of ps] show "copilot_notification m ps = delta_event ''message'' (ck_text v) (ck_message v)"
    by (simp add: copilot_notification_def parseSessionUpdate_def parse_chunk_def delta_event_def)
next
  fix m ps u k p q t
  assume u: "session_update m ps = Some (''agent_thought_chunk'', u)" and p: "copilot_notification m ps = Some (k, p)"
  then have "m = ''session/update''" by (auto simp: session_update_def split: if_splits)
  with u p copilot_params_update [of ps] show "k = KindAgentDelta \<and> on_delta (Some (marshal q p)) t = t"
    by (auto simp: copilot_notification_def parseSessionUpdate_def parse_chunk_def delta_read
        Let_def split_def split: if_splits)
qed

subsection \<open>All five adapters\<close>

datatype acp_agent = ClaudeACP | CodexACP | OpenCodeACP | PiACP | CopilotACP

fun notification_of :: "acp_agent \<Rightarrow> string \<Rightarrow> raw \<Rightarrow> translated" where
  "notification_of ClaudeACP = claude_notification"
| "notification_of CodexACP = codex_notification"
| "notification_of OpenCodeACP = opencode_notification"
| "notification_of PiACP = pi_notification"
| "notification_of CopilotACP = copilot_notification"

interpretation agents: acp_translation "notification_of a" for a
  by (cases a) (simp_all add: claude.acp_translation_axioms codex.acp_translation_axioms
    opencode.acp_translation_axioms pi.acp_translation_axioms copilot.acp_translation_axioms)

text \<open>The id, status and error flag of an update of a tool call, where it decodes.\<close>

definition if_decoded :: "bool \<times> 'a \<Rightarrow> 'a option" where
  "if_decoded x = (if fst x then Some (snd x) else None)"

fun tool_update_of :: "acp_agent \<Rightarrow> raw \<Rightarrow> (string \<times> string \<times> bool option) option" where
  "tool_update_of OpenCodeACP u = map_option (\<lambda>v. (tu_id v, tu_status v, tu_isError v))
     (if_decoded (unmarshal (dec_struct opencode_result_fields) u
        (tool_update.extend no_tool_update \<lparr>tu_isError = None\<rparr>)))"
| "tool_update_of PiACP u = map_option (\<lambda>v. (tu_id v, tu_status v, None))
     (if_decoded (unmarshal (dec_struct pi_result_fields) u
        (tool_update.extend no_tool_update \<lparr>tu_terminal = None, tu_exit = None\<rparr>)))"
| "tool_update_of CopilotACP u = (case parseSessionUpdate u of
       Some (UpdateToolResult i status x) \<Rightarrow> Some (i, status, None) | _ \<Rightarrow> None)"
| "tool_update_of _ u = map_option (\<lambda>v. (tu_id v, tu_status v, None))
     (if_decoded (unmarshal (dec_struct tool_result_fields) u no_tool_update))"

definition update_outcome :: "acp_agent \<Rightarrow> string \<Rightarrow> string \<Rightarrow> bool option \<Rightarrow> string \<times> bool \<times> bool" where
  "update_outcome a i status flag =
     (case flag of
        Some b \<Rightarrow> (i, b, True)
      | None \<Rightarrow> if a = ClaudeACP then (i, status = ''failed'', status \<noteq> []) else status_outcome i status)"

text \<open>
  An update of a tool call is read as the result of the call exactly when it says completed
  or failed (or, of OpenCode, carries the flag), except that of a Claude agent every update
  with a status is.
\<close>

lemma tool_update_read:
  assumes "session_update m ps = Some (''tool_call_update'', u)" "tool_update_of a u = Some (i, status, flag)"
  shows "\<exists>p. notification_of a m ps = Some (KindAgentToolResult, p) \<and>
    toolResultOutcome (Some (marshal q p)) = update_outcome a i status flag"
proof (cases a)
  case CopilotACP
  have "m = ''session/update''" using assms(1) by (auto simp: session_update_def split: if_splits)
  moreover obtain x where "parseSessionUpdate u = Some (UpdateToolResult i status x)" "flag = None"
    using assms(2) CopilotACP by (auto split: option.splits acp_update.splits)
  ultimately show ?thesis using CopilotACP assms(1) copilot_params_update(1) [of ps] copilot_result_read
    by (simp add: copilot_notification_def update_outcome_def)
next
  case ClaudeACP
  then obtain v where "unmarshal (dec_struct tool_result_fields) u no_tool_update = (True, v)"
    "i = tu_id v" "status = tu_status v" "flag = None"
    using assms(2) by (cases "unmarshal (dec_struct tool_result_fields) u no_tool_update")
      (auto simp: if_decoded_def split: if_splits)
  with claude_result_read [of u v q] assms(1) ClaudeACP show ?thesis
    by (auto simp: claude_notification_def update_outcome_def)
next
  case CodexACP
  then obtain v where "unmarshal (dec_struct tool_result_fields) u no_tool_update = (True, v)"
    "i = tu_id v" "status = tu_status v" "flag = None"
    using assms(2) by (cases "unmarshal (dec_struct tool_result_fields) u no_tool_update")
      (auto simp: if_decoded_def split: if_splits)
  with codex_result_read [of u v q] assms(1) CodexACP show ?thesis
    by (auto simp: codex_notification_def update_outcome_def)
next
  case OpenCodeACP
  let ?d = "unmarshal (dec_struct opencode_result_fields) u (tool_update.extend no_tool_update \<lparr>tu_isError = None\<rparr>)"
  obtain v where "?d = (True, v)" "i = tu_id v" "status = tu_status v" "flag = tu_isError v"
    using assms(2) OpenCodeACP by (cases ?d) (auto simp: if_decoded_def split: if_splits)
  with opencode_result_read [of u v q] assms(1) OpenCodeACP show ?thesis
    by (auto simp: opencode_notification_def update_outcome_def)
next
  case PiACP
  let ?d = "unmarshal (dec_struct pi_result_fields) u (tool_update.extend no_tool_update \<lparr>tu_terminal = None, tu_exit = None\<rparr>)"
  obtain v where "?d = (True, v)" "i = tu_id v" "status = tu_status v" "flag = None"
    using assms(2) PiACP by (cases ?d) (auto simp: if_decoded_def split: if_splits)
  with pi_result_read [of u v q] assms(1) PiACP show ?thesis
    by (auto simp: pi_notification_def update_outcome_def)
qed

text \<open>
  C16. What an ACP agent says is what \<open>turnoutput\<close> collects, whichever of the five adapters
  drives it. A message chunk is emitted as a delta which adds exactly its text, under its
  message id, to the turn it is stamped with; whatever is emitted for a thought leaves the
  text of that turn alone; neither ends the turn.
\<close>

theorem acp_text_observed:
  assumes "session_update m ps = Some (''agent_message_chunk'', u)"
    and "unmarshal (dec_struct (chunk_fields ''messageId'')) u no_chunk = (True, v)" and "ck_text v \<noteq> []"
  shows "(\<exists>p. notification_of a m ps = Some (KindAgentDelta, p) \<and>
      (ev_Kind ev = KindAgentDelta \<and> ev_Payload ev = Some (marshal q p) \<longrightarrow>
       Observe L r ev = (in_body (identify r ev) (ev_TurnID ev)
         (\<lambda>t. addDelta t (ck_text v) (ck_message v) False), None))) \<and>
    (session_update m' ps' = Some (''agent_thought_chunk'', u') \<and>
       notification_of a m' ps' = Some (ev_Kind ev, p') \<and> ev_Payload ev = Some (marshal q p') \<longrightarrow>
       Observe L r ev = (in_body (identify r ev) (ev_TurnID ev) (\<lambda>t. t), None))"
proof -
  obtain p where "notification_of a m ps = Some (KindAgentDelta, p)"
    using agents.message_told [OF assms] by (simp add: delta_event_def)
  then show ?thesis
    using agents.message_observed [OF assms, of a ev p q L r]
      agents.thought_observed [of m' ps' u' a ev p' q L r] by auto
qed

text \<open>
  C21. A failed tool call of a Claude agent can pass for one that worked. An update that only
  reports progress carries \<open>is_error\<close>, which the reducer takes for the result of the call;
  the failure that follows then changes nothing. Of a Codex agent the same two updates leave
  the failure as the result.
\<close>

theorem claude_progress_hides_failure:
  assumes "session_update m ps = Some (''tool_call_update'', u)"
    and "tool_update_of ClaudeACP u = Some (i, ''in_progress'', None)"
    and "session_update m' ps' = Some (''tool_call_update'', u')"
    and "tool_update_of ClaudeACP u' = Some (i, ''failed'', None)"
  shows "\<exists>p p' c c'. claude_notification m ps = Some (KindAgentToolResult, p) \<and>
    claude_notification m' ps' = Some (KindAgentToolResult, p') \<and>
    on_tool_result (Some (marshal q p')) (on_tool_result (Some (marshal q p)) t) = toolResult (boundary t) i False \<and>
    codex_notification m ps = Some (KindAgentToolResult, c) \<and>
    codex_notification m' ps' = Some (KindAgentToolResult, c') \<and>
    on_tool_result (Some (marshal q c')) (on_tool_result (Some (marshal q c)) t) = toolResult (boundary t) i True"
proof -
  have codex: "tool_update_of CodexACP u = Some (i, ''in_progress'', None)"
    "tool_update_of CodexACP u' = Some (i, ''failed'', None)" using assms(2,4) by simp_all
  have [simp]: "boundary (boundary s) = boundary s" for s by (simp add: boundary_def)
  show ?thesis
    using tool_update_read [OF assms(1,2), of q] tool_update_read [OF assms(3,4), of q]
      tool_update_read [OF assms(1) codex(1), of q] tool_update_read [OF assms(3) codex(2), of q]
    by (auto simp: on_tool_result_def update_outcome_def status_outcome_def toolResult_again
        toolResult_boundary [symmetric] Let_def)
qed

subsection \<open>Witnesses\<close>

definition ex_update :: "(string \<times> json) list \<Rightarrow> raw" where
  "ex_update ms = Some (jobj [(''sessionId'', jstr ''s1''), (''update'', jobj ms)])"

definition ex_message :: "(string \<times> json) list" where
  "ex_message = [(''sessionUpdate'', jstr ''agent_message_chunk''), (''messageId'', jstr ''m1''),
     (''content'', jobj [(''type'', jstr ''text''), (''text'', jstr ''hi'')])]"

theorem acp_text_observed_witness:
  "\<exists>p. pi_notification ''session/update'' (ex_update ex_message) = Some (KindAgentDelta, p)"
proof -
  have u: "session_update ''session/update'' (ex_update ex_message) = Some (''agent_message_chunk'', Some (jobj ex_message))"
    by code_simp
  have c: "unmarshal (dec_struct (chunk_fields ''messageId'')) (Some (jobj ex_message)) no_chunk =
      (True, \<lparr>ck_message = ''m1'', ck_type = ''text'', ck_text = ''hi''\<rparr>)"
    by code_simp
  have t: "ck_text \<lparr>ck_message = ''m1'', ck_type = ''text'', ck_text = ''hi''\<rparr> \<noteq> []" by simp
  have "\<exists>p. notification_of PiACP ''session/update'' (ex_update ex_message) = Some (KindAgentDelta, p)"
    using acp_text_observed [OF u c t, where a = PiACP] by blast
  then show ?thesis by simp
qed

definition ex_status :: "string \<Rightarrow> (string \<times> json) list" where
  "ex_status status = [(''sessionUpdate'', jstr ''tool_call_update''), (''toolCallId'', jstr ''t1''), (''status'', jstr status)]"

theorem claude_progress_hides_failure_witness:
  "\<exists>p. claude_notification ''session/update'' (ex_update (ex_status ''failed'')) = Some (KindAgentToolResult, p)"
proof -
  have "session_update ''session/update'' (ex_update (ex_status ''in_progress'')) =
      Some (''tool_call_update'', Some (jobj (ex_status ''in_progress'')))"
    "tool_update_of ClaudeACP (Some (jobj (ex_status ''in_progress''))) = Some (''t1'', ''in_progress'', None)"
    "session_update ''session/update'' (ex_update (ex_status ''failed'')) =
      Some (''tool_call_update'', Some (jobj (ex_status ''failed'')))"
    "tool_update_of ClaudeACP (Some (jobj (ex_status ''failed''))) = Some (''t1'', ''failed'', None)"
    by (code_simp, code_simp, code_simp, code_simp)
  from claude_progress_hides_failure [OF this] show ?thesis by blast
qed

end
