(* ===== verification/Acp_Adapters.thy ===== *)
theory Acp_Adapters
  imports Launch Go_Numbers
begin

text \<open>
  The adapters of \<open>adapters/\<close>: their options, the command each resolves, what it
  describes, and what \<open>Resolve\<close>, \<open>Detect\<close> and \<open>BuildArgs\<close> report. \<open>os.Getenv\<close> and
  \<open>exec.LookPath\<close> are parameters (an unset variable is the empty string), and so is the
  probe of a file in a directory, which returns the absolute path where the file may be run.
  An option is a function on the record it mutates.
\<close>

subsection \<open>What adapters have in common\<close>

record resolve_context =
  rc_Cwd :: string
  rc_Env :: "string list"
  rc_PTY :: bool

record spec =
  Binary :: string
  Args :: "string list"
  spec_Env :: "string list"
  spec_Cwd :: string

record descriptor =
  Provider :: string
  Protocol :: string
  Transport :: string
  Interrupt :: string
  Channels :: "source_channel list"
  Delivery :: capabilities

datatype adapter_error = ErrPTYUnsupported string

definition spec_for :: "string \<Rightarrow> resolve_context \<Rightarrow> string \<times> string list \<Rightarrow> adapter_error + spec" where
  "spec_for component rc cmd =
     (if rc_PTY rc then Inl (ErrPTYUnsupported component)
      else Inr \<lparr>Binary = fst cmd, Args = snd cmd, spec_Env = rc_Env rc, spec_Cwd = rc_Cwd rc\<rparr>)"

text \<open>\<open>acp.DescriptorFor\<close>, of a client that can interrupt a turn.\<close>

definition DescriptorFor :: "(string \<Rightarrow> string) \<Rightarrow> string \<Rightarrow> string \<Rightarrow> string \<Rightarrow> descriptor" where
  "DescriptorFor quote interrupt provider transport =
     \<lparr>Provider = provider, Protocol = ProtocolACP, Transport = transport, Interrupt = interrupt,
      Channels = [ChannelJSONRPC],
      Delivery = DeliveryCapabilitiesForRuntime quote provider ProtocolACP transport interrupt True\<rparr>"

definition InterruptCapability :: string where "InterruptCapability = InterruptTurn"

text \<open>A binary and extra arguments: all that some adapters can be told.\<close>

record plain =
  ad_binary :: string
  ad_extra :: "string list"

definition no_plain :: plain where "no_plain = \<lparr>ad_binary = [], ad_extra = []\<rparr>"

fun plain_option :: "acp_option \<Rightarrow> plain \<Rightarrow> plain" where
  "plain_option (WithBinary b) a = a\<lparr>ad_binary := b\<rparr>"
| "plain_option (WithExtraArgs xs) a = a\<lparr>ad_extra := ad_extra a @ xs\<rparr>"
| "plain_option _ a = a"

definition New_plain :: "acp_option list \<Rightarrow> plain" where
  "New_plain opts = fold plain_option opts no_plain"

definition pick_binary :: "string list \<Rightarrow> string" where
  "pick_binary bs = (case filter (\<lambda>b. b \<noteq> []) bs of [] \<Rightarrow> [] | b # _ \<Rightarrow> b)"

subsection \<open>Claude through its bridge\<close>

record claude_acp =
  npxBinary :: string
  bridgePackage :: string
  directBinary :: string
  cl_extraArgs :: "string list"

fun claude_option :: "acp_option \<Rightarrow> claude_acp \<Rightarrow> claude_acp" where
  "claude_option (WithDirectBinary b) a = a\<lparr>directBinary := b\<rparr>"
| "claude_option (WithExtraArgs xs) a = a\<lparr>cl_extraArgs := cl_extraArgs a @ xs\<rparr>"
| "claude_option _ a = a"

definition WithNpxBinary :: "string \<Rightarrow> claude_acp \<Rightarrow> claude_acp" where
  "WithNpxBinary b a = a\<lparr>npxBinary := b\<rparr>"

definition WithBridgePackage :: "string \<Rightarrow> claude_acp \<Rightarrow> claude_acp" where
  "WithBridgePackage p a = a\<lparr>bridgePackage := p\<rparr>"

definition no_claude_acp :: claude_acp where
  "no_claude_acp = \<lparr>npxBinary = [], bridgePackage = [], directBinary = [], cl_extraArgs = []\<rparr>"

definition New_claude_acp :: "acp_option list \<Rightarrow> claude_acp" where
  "New_claude_acp opts = fold claude_option opts no_claude_acp"

text \<open>\<open>newClient\<close> hands over what is set; the client's record has the same fields.\<close>

definition claude_newClient :: "claude_acp \<Rightarrow> claude_acp" where
  "claude_newClient a =
     (let set_npx = (if npxBinary a \<noteq> [] then [WithNpxBinary (npxBinary a)] else []);
          set_package = (if bridgePackage a \<noteq> [] then [WithBridgePackage (bridgePackage a)] else []);
          set_direct = (if directBinary a \<noteq> [] then [claude_option (WithDirectBinary (directBinary a))] else []);
          set_args = (if cl_extraArgs a \<noteq> [] then [claude_option (WithExtraArgs (cl_extraArgs a))] else [])
      in fold (\<lambda>f. f) (set_npx @ set_package @ set_direct @ set_args) no_claude_acp)"

definition claude_resolveCommand :: "(string \<Rightarrow> string) \<Rightarrow> claude_acp \<Rightarrow> string \<times> string list" where
  "claude_resolveCommand getenv c =
     (if directBinary c \<noteq> [] then (directBinary c, cl_extraArgs c)
      else if getenv ''CLAUDE_ACP_BRIDGE_PATH'' \<noteq> [] then (getenv ''CLAUDE_ACP_BRIDGE_PATH'', cl_extraArgs c)
      else
        (let npx = (if npxBinary c \<noteq> [] then npxBinary c
                    else if getenv ''CLAUDE_ACP_NPX_PATH'' \<noteq> [] then getenv ''CLAUDE_ACP_NPX_PATH'' else ''npx'');
             pkg = (if bridgePackage c \<noteq> [] then bridgePackage c
                    else if getenv ''CLAUDE_ACP_BRIDGE_PACKAGE'' \<noteq> [] then getenv ''CLAUDE_ACP_BRIDGE_PACKAGE''
                    else ''@agentclientprotocol/claude-agent-acp'')
         in (npx, [''-y'', pkg] @ cl_extraArgs c)))"

definition claude_acp_Resolve :: "(string \<Rightarrow> string) \<Rightarrow> claude_acp \<Rightarrow> resolve_context \<Rightarrow> adapter_error + spec" where
  "claude_acp_Resolve getenv a rc = spec_for ''claudeacp'' rc (claude_resolveCommand getenv (claude_newClient a))"

definition claude_acp_Describe :: "(string \<Rightarrow> string) \<Rightarrow> descriptor" where
  "claude_acp_Describe quote = DescriptorFor quote InterruptCapability ''claude'' TransportStdio"

definition claude_acp_Detect :: "(string \<Rightarrow> string) \<Rightarrow> (string \<Rightarrow> string option) \<Rightarrow> claude_acp \<Rightarrow> string option" where
  "claude_acp_Detect getenv lookPath a = lookPath (fst (claude_resolveCommand getenv (claude_newClient a)))"

definition claude_acp_BuildArgs :: "(string \<Rightarrow> string) \<Rightarrow> claude_acp \<Rightarrow> string list" where
  "claude_acp_BuildArgs getenv a = snd (claude_resolveCommand getenv (claude_newClient a))"

subsection \<open>Codex through its bridge\<close>

record codex_client =
  cc_bridgeBinary :: string
  cc_directBinary :: string
  cc_bridgeVersion :: string
  cc_bridgePkgSpec :: string
  cc_extraArgs :: "string list"
  cc_codexBinary :: string

record codex_acp = codex_client +
  bridgeVersionSet :: bool

definition no_codex_acp :: codex_acp where
  "no_codex_acp = \<lparr>cc_bridgeBinary = [], cc_directBinary = [], cc_bridgeVersion = [], cc_bridgePkgSpec = [],
     cc_extraArgs = [], cc_codexBinary = [], bridgeVersionSet = False\<rparr>"

fun codex_option :: "acp_option \<Rightarrow> codex_acp \<Rightarrow> codex_acp" where
  "codex_option (WithDirectBinary b) a = a\<lparr>cc_directBinary := b\<rparr>"
| "codex_option (WithBinary b) a = a\<lparr>cc_bridgeBinary := b\<rparr>"
| "codex_option (WithExtraArgs xs) a = a\<lparr>cc_extraArgs := cc_extraArgs a @ xs\<rparr>"
| "codex_option _ a = a"

definition WithBridgeVersion :: "string \<Rightarrow> codex_acp \<Rightarrow> codex_acp" where
  "WithBridgeVersion v a = a\<lparr>cc_bridgeVersion := v, bridgeVersionSet := True\<rparr>"

definition WithBridgePackageSpec :: "string \<Rightarrow> codex_acp \<Rightarrow> codex_acp" where
  "WithBridgePackageSpec p a = a\<lparr>cc_bridgePkgSpec := p\<rparr>"

definition WithCodexBinary :: "string \<Rightarrow> codex_acp \<Rightarrow> codex_acp" where
  "WithCodexBinary b a = a\<lparr>cc_codexBinary := b\<rparr>"

definition New_codex_acp :: "acp_option list \<Rightarrow> codex_acp" where
  "New_codex_acp opts = fold codex_option opts no_codex_acp"

definition defaultBridgePackage :: string where "defaultBridgePackage = ''@agentclientprotocol/codex-acp''"
definition defaultBridgeVersion :: string where "defaultBridgeVersion = ''1.6.2''"

text \<open>A client starts from the pinned version; an explicit one, even empty, replaces it.\<close>

definition codex_newClient :: "codex_acp \<Rightarrow> codex_client" where
  "codex_newClient a = \<lparr>cc_bridgeBinary = cc_bridgeBinary a, cc_directBinary = cc_directBinary a,
     cc_bridgeVersion = (if bridgeVersionSet a then cc_bridgeVersion a else defaultBridgeVersion),
     cc_bridgePkgSpec = cc_bridgePkgSpec a, cc_extraArgs = cc_extraArgs a, cc_codexBinary = cc_codexBinary a\<rparr>"

definition resolveBridgeCommand :: "codex_client \<Rightarrow> string \<times> string list" where
  "resolveBridgeCommand c =
     (if cc_directBinary c \<noteq> [] then (cc_directBinary c, cc_extraArgs c)
      else
        (let binary = (if cc_bridgeBinary c = [] then ''npx'' else cc_bridgeBinary c);
             pkg = (if cc_bridgePkgSpec c \<noteq> [] then cc_bridgePkgSpec c
                    else defaultBridgePackage @
                      (if cc_bridgeVersion c \<noteq> [] then ''@'' @ cc_bridgeVersion c else []))
         in (binary, [''-y'', pkg] @ cc_extraArgs c)))"

definition codex_acp_Resolve :: "codex_acp \<Rightarrow> resolve_context \<Rightarrow> adapter_error + spec" where
  "codex_acp_Resolve a rc = spec_for ''codexacp'' rc (resolveBridgeCommand (codex_newClient a))"

definition codex_acp_Describe :: "(string \<Rightarrow> string) \<Rightarrow> descriptor" where
  "codex_acp_Describe quote = DescriptorFor quote InterruptCapability ''codex'' TransportStdio"

definition codex_acp_Detect :: "(string \<Rightarrow> string option) \<Rightarrow> codex_acp \<Rightarrow> string option" where
  "codex_acp_Detect lookPath a = lookPath (fst (resolveBridgeCommand (codex_newClient a)))"

definition codex_acp_BuildArgs :: "codex_acp \<Rightarrow> string list" where
  "codex_acp_BuildArgs a = snd (resolveBridgeCommand (codex_newClient a))"

subsection \<open>The environment of the Codex bridge\<close>

definition environmentNamesEqual :: "string \<Rightarrow> string \<Rightarrow> string \<Rightarrow> bool" where
  "environmentNamesEqual goos left right = (if goos = ''windows'' then EqualFold left right else left = right)"

text \<open>The last assignment of the name; empty where there is none.\<close>

definition environmentValue :: "string \<Rightarrow> string list \<Rightarrow> string \<Rightarrow> string" where
  "environmentValue goos env name =
     fold (\<lambda>assignment old.
        (let (key, candidate, ok) = Cut_char (CHR ''='') assignment
         in if \<not> ok \<or> \<not> environmentNamesEqual goos key name then old else candidate)) env []"

text \<open>\<open>filepath.SplitList\<close>: on Windows a separator between quotes does not count, and
  quotes are removed.\<close>

fun split_list :: "char \<Rightarrow> bool \<Rightarrow> bool \<Rightarrow> string \<Rightarrow> string \<Rightarrow> string list" where
  "split_list sep quotes inside cur [] = [cur]"
| "split_list sep quotes inside cur (c # cs) =
     (if quotes \<and> c = CHR 0x22 then split_list sep quotes (\<not> inside) cur cs
      else if c = sep \<and> \<not> inside then cur # split_list sep quotes inside [] cs
      else split_list sep quotes inside (cur @ [c]) cs)"

definition SplitList :: "string \<Rightarrow> string \<Rightarrow> string list" where
  "SplitList goos path =
     (if path = [] then []
      else if goos = ''windows'' then split_list (CHR '';'') True False [] path
      else split_list (CHR '':'') False False [] path)"

definition executable_extensions :: "string \<Rightarrow> string list \<Rightarrow> string \<Rightarrow> string list" where
  "executable_extensions goos env name =
     (if goos = ''windows'' \<and> CHR ''.'' \<notin> set name
      then (case SplitList goos (environmentValue goos env ''PATHEXT'') of
              [] \<Rightarrow> [''.com'', ''.exe'', ''.bat'', ''.cmd'']
            | es \<Rightarrow> es)
      else [[]])"

text \<open>The first directory and extension that have the file; the name has no separator.\<close>

definition executableInEnvironmentPath ::
  "(string \<Rightarrow> string \<Rightarrow> string option) \<Rightarrow> string \<Rightarrow> string \<Rightarrow> string list \<Rightarrow> string" where
  "executableInEnvironmentPath probe goos name env =
     (let pathValue = environmentValue goos env ''PATH'';
          candidates = concat (map (\<lambda>dir. map (\<lambda>ext. (if dir = [] then ''.'' else dir, name @ ext))
             (executable_extensions goos env name)) (SplitList goos pathValue))
      in if pathValue = [] then []
         else case find (\<lambda>(d, f). probe d f \<noteq> None) candidates of
             None \<Rightarrow> []
           | Some (d, f) \<Rightarrow> the (probe d f))"

definition resolveCodexPath ::
  "(string \<Rightarrow> string \<Rightarrow> string option) \<Rightarrow> string \<Rightarrow> codex_client \<Rightarrow> string list \<Rightarrow> string" where
  "resolveCodexPath probe goos c env =
     (if cc_codexBinary c \<noteq> [] then cc_codexBinary c
      else if environmentValue goos env ''CODEX_CLI_PATH'' \<noteq> [] then environmentValue goos env ''CODEX_CLI_PATH''
      else executableInEnvironmentPath probe goos ''codex'' env)"

definition names_variable :: "string \<Rightarrow> string \<Rightarrow> string \<Rightarrow> bool" where
  "names_variable goos name kv =
     (let (key, v, ok) = Cut_char (CHR ''='') kv in ok \<and> environmentNamesEqual goos key name)"

text \<open>
  A Go slice of strings: \<open>None\<close> is nil. \<open>append([]string(nil), xs...)\<close> copies, and is nil where
  there is nothing to copy. A nil environment stands for the process's own, here \<open>environ\<close>.
\<close>

type_synonym go_strings = "string list option"

fun copied :: "go_strings \<Rightarrow> go_strings" where
  "copied (Some (x # xs)) = Some (x # xs)"
| "copied _ = None"

definition elems :: "go_strings \<Rightarrow> string list" where
  "elems xs = (case xs of None \<Rightarrow> [] | Some ys \<Rightarrow> ys)"

definition buildEnvForOS ::
  "(string \<Rightarrow> string \<Rightarrow> string option) \<Rightarrow> string list \<Rightarrow> codex_client \<Rightarrow> go_strings \<Rightarrow> string \<Rightarrow> go_strings" where
  "buildEnvForOS probe environ c paramsEnv goos =
     (let env = (if paramsEnv = None then Some environ else copied paramsEnv);
          path = resolveCodexPath probe goos c (elems env)
      in if list_ex (names_variable goos ''CODEX_PATH'') (elems env) then env
         else if path \<noteq> [] then Some (elems env @ [''CODEX_PATH='' @ path]) else env)"

text \<open>A launch command of the host's own is given its environment as it is.\<close>

definition launchEnv ::
  "(string \<Rightarrow> string \<Rightarrow> string option) \<Rightarrow> string list \<Rightarrow> codex_client \<Rightarrow> bool \<Rightarrow> go_strings \<Rightarrow> string \<Rightarrow> go_strings" where
  "launchEnv probe environ c own_command paramsEnv goos =
     (if own_command then copied paramsEnv else buildEnvForOS probe environ c paramsEnv goos)"

text \<open>The environment of the spawned agent: without an explicit one it inherits \<open>environ\<close>.\<close>

definition spawned_env :: "string list \<Rightarrow> go_strings \<Rightarrow> string list" where
  "spawned_env environ env = (case env of None \<Rightarrow> environ | Some e \<Rightarrow> e)"

subsection \<open>OpenCode and Pi\<close>

text \<open>What \<open>Client.Launch\<close> spawns, and what \<open>Resolve\<close> reports, which does not look at the
  environment.\<close>

definition opencode_command :: "(string \<Rightarrow> string) \<Rightarrow> plain \<Rightarrow> string \<times> string list" where
  "opencode_command getenv c =
     (pick_binary [ad_binary c, getenv ''OPENCODE_CLI_PATH'', ''opencode''], ''acp'' # ad_extra c)"

definition opencode_acp_Resolve :: "plain \<Rightarrow> resolve_context \<Rightarrow> adapter_error + spec" where
  "opencode_acp_Resolve a rc =
     spec_for ''opencodeacp'' rc (if ad_binary a = [] then ''opencode'' else ad_binary a, ''acp'' # ad_extra a)"

definition opencode_acp_Describe :: "(string \<Rightarrow> string) \<Rightarrow> descriptor" where
  "opencode_acp_Describe quote = DescriptorFor quote InterruptCapability ''opencode'' TransportStdio"

definition opencode_acp_Detect :: "(string \<Rightarrow> string) \<Rightarrow> (string \<Rightarrow> string option) \<Rightarrow> plain \<Rightarrow> string option" where
  "opencode_acp_Detect getenv lookPath a =
     (if ad_binary a \<noteq> [] then Some (ad_binary a)
      else if getenv ''OPENCODE_CLI_PATH'' \<noteq> [] then Some (getenv ''OPENCODE_CLI_PATH'')
      else lookPath ''opencode'')"

definition opencode_acp_BuildArgs :: "plain \<Rightarrow> string list" where
  "opencode_acp_BuildArgs a = ''acp'' # ad_extra a"

definition pi_command :: "(string \<Rightarrow> string) \<Rightarrow> plain \<Rightarrow> string \<times> string list" where
  "pi_command getenv c =
     (if ad_binary c \<noteq> [] then (ad_binary c, ad_extra c)
      else if getenv ''PIACP_CLI_PATH'' \<noteq> [] then (getenv ''PIACP_CLI_PATH'', ad_extra c)
      else (''npx'', [''-y'', ''pi-acp''] @ ad_extra c))"

definition pi_acp_Resolve :: "plain \<Rightarrow> resolve_context \<Rightarrow> adapter_error + spec" where
  "pi_acp_Resolve a rc =
     spec_for ''piacp'' rc
       (if ad_binary a = [] then (''npx'', [''-y'', ''pi-acp''] @ ad_extra a) else (ad_binary a, ad_extra a))"

definition pi_acp_Describe :: "(string \<Rightarrow> string) \<Rightarrow> descriptor" where
  "pi_acp_Describe quote = DescriptorFor quote InterruptCapability ''pi'' TransportStdio"

definition pi_acp_Detect :: "(string \<Rightarrow> string) \<Rightarrow> (string \<Rightarrow> string option) \<Rightarrow> plain \<Rightarrow> string option" where
  "pi_acp_Detect getenv lookPath a =
     (if ad_binary a \<noteq> [] then Some (ad_binary a)
      else if getenv ''PIACP_CLI_PATH'' \<noteq> [] then Some (getenv ''PIACP_CLI_PATH'')
      else lookPath ''npx'')"

definition pi_acp_BuildArgs :: "(string \<Rightarrow> string) \<Rightarrow> plain \<Rightarrow> string list" where
  "pi_acp_BuildArgs getenv a =
     (if ad_binary a \<noteq> [] \<or> getenv ''PIACP_CLI_PATH'' \<noteq> [] then ad_extra a
      else [''-y'', ''pi-acp''] @ ad_extra a)"

subsection \<open>Copilot\<close>

record copilot_adapter = plain +
  ca_transport :: string
  ca_port :: int

fun copilot_option :: "acp_option \<Rightarrow> copilot_adapter \<Rightarrow> copilot_adapter" where
  "copilot_option (WithBinary b) a = a\<lparr>ad_binary := b\<rparr>"
| "copilot_option (WithExtraArgs xs) a = a\<lparr>ad_extra := ad_extra a @ xs\<rparr>"
| "copilot_option (WithTransport t) a = a\<lparr>ca_transport := t\<rparr>"
| "copilot_option (WithPort n) a = a\<lparr>ca_port := n\<rparr>"
| "copilot_option (WithDirectBinary b) a = a"

definition New_copilot :: "acp_option list \<Rightarrow> copilot_adapter" where
  "New_copilot opts = fold copilot_option opts
     \<lparr>ad_binary = [], ad_extra = [], ca_transport = TransportStdio, ca_port = 0\<rparr>"

text \<open>A client is given the port only for TCP.\<close>

definition copilot_ACPClient :: "copilot_adapter \<Rightarrow> copilot_adapter" where
  "copilot_ACPClient a =
     \<lparr>ad_binary = ad_binary a, ad_extra = ad_extra a, ca_transport = ca_transport a,
      ca_port = (if ca_transport a = TransportTCP then ca_port a else 0)\<rparr>"

text \<open>What \<open>startStdio\<close> and \<open>startTCP\<close> spawn; \<open>free\<close> is the port that is picked for port 0.\<close>

definition copilot_command :: "int \<Rightarrow> copilot_adapter \<Rightarrow> string \<times> string list" where
  "copilot_command free c =
     (pick_binary [ad_binary c, ''copilot''],
      ''--acp'' # (if ca_transport c = TransportTCP
                   then [''--port'', int_text (if ca_port c = 0 then free else ca_port c)] else []) @ ad_extra c)"

definition copilot_Resolve :: "copilot_adapter \<Rightarrow> resolve_context \<Rightarrow> adapter_error + spec" where
  "copilot_Resolve a rc =
     spec_for ''copilotacp'' rc (if ad_binary a = [] then ''copilot'' else ad_binary a,
       ''--acp'' # (if ca_transport a = TransportTCP then [''--port'', int_text (ca_port a)] else []) @ ad_extra a)"

definition copilot_Describe :: "(string \<Rightarrow> string) \<Rightarrow> copilot_adapter \<Rightarrow> descriptor" where
  "copilot_Describe quote a = DescriptorFor quote InterruptCapability ''copilot'' (ca_transport a)"

definition copilot_Detect :: "(string \<Rightarrow> string) \<Rightarrow> (string \<Rightarrow> string option) \<Rightarrow> copilot_adapter \<Rightarrow> string option" where
  "copilot_Detect getenv lookPath a =
     (if ad_binary a \<noteq> [] then Some (ad_binary a)
      else if getenv ''COPILOT_CLI_PATH'' \<noteq> [] then Some (getenv ''COPILOT_CLI_PATH'')
      else lookPath ''copilot'')"

definition copilot_BuildArgs :: "copilot_adapter \<Rightarrow> string list" where
  "copilot_BuildArgs a =
     ''--acp'' # (if ca_transport a = TransportTCP then [''--port'', int_text (ca_port a)] else []) @ ad_extra a"

subsection \<open>The native adapters\<close>

definition native_descriptor ::
  "(string \<Rightarrow> string) \<Rightarrow> string \<Rightarrow> string \<Rightarrow> string \<Rightarrow> string \<Rightarrow> source_channel \<Rightarrow> descriptor" where
  "native_descriptor quote provider protocol transport interrupt channel =
     \<lparr>Provider = provider, Protocol = protocol, Transport = transport, Interrupt = interrupt,
      Channels = [channel],
      Delivery = DeliveryCapabilitiesForRuntime quote provider protocol transport interrupt True\<rparr>"

definition claude_Describe :: "(string \<Rightarrow> string) \<Rightarrow> descriptor" where
  "claude_Describe quote = native_descriptor quote ''claude'' ProtocolClaudeStreamJSON TransportStdio
     InterruptProcess ChannelClaudeStreamJSON"

definition claude_Resolve :: "plain \<Rightarrow> resolve_context \<Rightarrow> adapter_error + spec" where
  "claude_Resolve a rc = spec_for ''claude'' rc (if ad_binary a = [] then ''claude'' else ad_binary a,
     [''-p'', ''--input-format'', ''stream-json'', ''--output-format'', ''stream-json'', ''--verbose''] @ ad_extra a)"

definition codex_Describe :: "(string \<Rightarrow> string) \<Rightarrow> descriptor" where
  "codex_Describe quote = native_descriptor quote ''codex'' ProtocolCodexAppServer TransportStdio
     InterruptProcess ChannelJSONRPC"

definition codex_Resolve :: "plain \<Rightarrow> resolve_context \<Rightarrow> adapter_error + spec" where
  "codex_Resolve a rc = spec_for ''codex'' rc (if ad_binary a = [] then ''codex'' else ad_binary a,
     ''app-server'' # ad_extra a)"

definition opencode_Describe :: "(string \<Rightarrow> string) \<Rightarrow> descriptor" where
  "opencode_Describe quote = native_descriptor quote ''opencode'' ProtocolOpenCodeNative TransportHTTPSSE
     InterruptTurn ChannelOpenCodePlugin"

definition opencode_Resolve :: "plain \<Rightarrow> resolve_context \<Rightarrow> adapter_error + spec" where
  "opencode_Resolve a rc = spec_for ''opencode'' rc (if ad_binary a = [] then ''opencode'' else ad_binary a,
     [''serve'', ''--port'', ''0'', ''--hostname'', ''127.0.0.1''] @ ad_extra a)"

subsection \<open>Properties\<close>

lemma claude_newClient_same [simp]: "claude_newClient a = a"
  by (cases a) (simp add: claude_newClient_def WithNpxBinary_def WithBridgePackage_def no_claude_acp_def)

lemma pick_binary_simps [simp]:
  "b \<noteq> [] \<Longrightarrow> pick_binary (b # bs) = b" "pick_binary ([] # bs) = pick_binary bs"
  by (simp_all add: pick_binary_def)

text \<open>\<open>Resolve\<close> reports what is spawned, except that for OpenCode and Pi it does not see a
  binary named by the environment.\<close>

lemma resolve_is_command:
  assumes "\<not> rc_PTY rc"
  shows "claude_acp_Resolve getenv a1 rc = spec_for ''claudeacp'' rc (claude_resolveCommand getenv a1)"
    "getenv ''OPENCODE_CLI_PATH'' = [] \<or> ad_binary a3 \<noteq> [] \<Longrightarrow>
       opencode_acp_Resolve a3 rc = spec_for ''opencodeacp'' rc (opencode_command getenv a3)"
    "getenv ''PIACP_CLI_PATH'' = [] \<or> ad_binary a4 \<noteq> [] \<Longrightarrow>
       pi_acp_Resolve a4 rc = spec_for ''piacp'' rc (pi_command getenv a4)"
    "ca_port a5 \<noteq> 0 \<or> ca_transport a5 \<noteq> TransportTCP \<Longrightarrow>
       copilot_Resolve a5 rc = spec_for ''copilotacp'' rc (copilot_command free (copilot_ACPClient a5))"
  by (auto simp: claude_acp_Resolve_def opencode_acp_Resolve_def opencode_command_def
      pi_acp_Resolve_def pi_command_def copilot_Resolve_def copilot_command_def copilot_ACPClient_def
      pick_binary_def)

text \<open>Every adapter's descriptor offers to cancel a turn, an ACP one also to interrupt it.\<close>

lemma descriptors_cancel:
  "d \<in> {claude_acp_Describe q, codex_acp_Describe q, opencode_acp_Describe q, pi_acp_Describe q,
     copilot_Describe q a, claude_Describe q, codex_Describe q, opencode_Describe q} \<Longrightarrow>
   Supports (Delivery d) DeliveryCapabilityCancelTurn \<and> Supports (Delivery d) DeliveryCapabilitySendTurn \<and>
   (Protocol d = ProtocolACP \<longrightarrow> Supports (Delivery d) DeliveryCapabilityInterrupt)"
  by (auto simp: claude_acp_Describe_def codex_acp_Describe_def opencode_acp_Describe_def pi_acp_Describe_def
      copilot_Describe_def claude_Describe_def codex_Describe_def opencode_Describe_def native_descriptor_def
      DescriptorFor_def InterruptCapability_def Supports_runtime capability_defs
      ProtocolACP_def ProtocolClaudeStreamJSON_def ProtocolCodexAppServer_def ProtocolOpenCodeNative_def)

text \<open>The bridge of Codex gets the caller's \<open>CODEX_PATH\<close>, else the one that was resolved from
  the same environment.\<close>

lemma environmentValue_snoc:
  "environmentValue goos (env @ [kv]) name =
     (if names_variable goos name kv then fst (snd (Cut_char (CHR ''='') kv)) else environmentValue goos env name)"
  by (simp add: environmentValue_def names_variable_def split_def Let_def)

lemma environmentValue_unset:
  "\<not> list_ex (names_variable goos name) env \<Longrightarrow> environmentValue goos env name = []"
  by (induction env rule: rev_induct)
     (simp_all add: environmentValue_snoc, simp add: environmentValue_def)

lemma codex_path_assigned: "names_variable goos ''CODEX_PATH'' (''CODEX_PATH='' @ path)"
  "fst (snd (Cut_char (CHR ''='') (''CODEX_PATH='' @ path))) = path"
  by (simp_all add: names_variable_def Cut_char_def environmentNamesEqual_def EqualFold_def)

lemma elems_copied [simp]: "elems (copied xs) = elems xs"
  by (cases xs rule: copied.cases) (simp_all add: elems_def)

lemma codex_path:
  assumes "env = (case paramsEnv of None \<Rightarrow> environ | Some e \<Rightarrow> e)"
  shows "environmentValue goos (elems (buildEnvForOS probe environ c paramsEnv goos)) ''CODEX_PATH'' =
      (if list_ex (names_variable goos ''CODEX_PATH'') env then environmentValue goos env ''CODEX_PATH''
       else resolveCodexPath probe goos c env) \<and>
    (\<exists>added. elems (buildEnvForOS probe environ c paramsEnv goos) = env @ added \<and> length added \<le> 1)"
proof -
  have "elems (if paramsEnv = None then Some environ else copied paramsEnv) = env"
    using assms by (cases paramsEnv) (simp_all, simp_all add: elems_def)
  moreover have "elems (Some xs) = xs" for xs by (simp add: elems_def)
  ultimately show ?thesis
    using codex_path_assigned(1) [of goos "resolveCodexPath probe goos c env"]
      codex_path_assigned(2) [of "resolveCodexPath probe goos c env"]
    by (auto simp: buildEnvForOS_def Let_def environmentValue_snoc environmentValue_unset)
qed

text \<open>An environment that is not empty is the agent's, with at most \<open>CODEX_PATH\<close> added; but an
  empty one is lost by the copy, so the agent inherits the host's.\<close>

lemma codex_environment_kept:
  "e \<noteq> [] \<Longrightarrow> \<exists>added. spawned_env environ (launchEnv probe environ c own (Some e) goos) = e @ added \<and> length added \<le> 1"
  by (cases e) (auto simp: launchEnv_def buildEnvForOS_def spawned_env_def elems_def Let_def)

lemma codex_empty_environment:
  "spawned_env environ (launchEnv probe environ c True (Some []) goos) = environ"
  "resolveCodexPath probe goos c [] = [] \<Longrightarrow>
     spawned_env environ (launchEnv probe environ c False (Some []) goos) = environ"
  by (simp_all add: launchEnv_def buildEnvForOS_def spawned_env_def elems_def Let_def)

subsection \<open>From a selection to a process\<close>

text \<open>The command that \<open>Launch\<close> of the client of an ACP selection spawns.\<close>

fun acp_command :: "(string \<Rightarrow> string) \<Rightarrow> int \<Rightarrow> runtime_id \<Rightarrow> acp_option list \<Rightarrow> string \<times> string list" where
  "acp_command getenv free Claude opts = claude_resolveCommand getenv (claude_newClient (New_claude_acp opts))"
| "acp_command getenv free Codex opts = resolveBridgeCommand (codex_newClient (New_codex_acp opts))"
| "acp_command getenv free OpenCode opts = opencode_command getenv (New_plain opts)"
| "acp_command getenv free Pi opts = pi_command getenv (New_plain opts)"
| "acp_command getenv free Copilot opts = copilot_command free (copilot_ACPClient (New_copilot opts))"
| "acp_command getenv free _ opts = ([], [])"

definition own_args :: "int \<Rightarrow> runtime_id \<Rightarrow> mode \<Rightarrow> int \<Rightarrow> string list" where
  "own_args free rt m port =
     (case rt of
        OpenCode \<Rightarrow> [''acp'']
      | Copilot \<Rightarrow> ''--acp'' # (if m = ModeACPTCP then [''--port'', int_text (if port = 0 then free else port)] else [])
      | _ \<Rightarrow> [])"

lemmas New_defs = New_claude_acp_def no_claude_acp_def New_codex_acp_def no_codex_acp_def New_plain_def
  no_plain_def New_copilot_def copilot_ACPClient_def

lemmas command_defs = claude_resolveCommand_def resolveBridgeCommand_def codex_newClient_def
  opencode_command_def pi_command_def copilot_command_def

lemma acp_factory_command:
  assumes "map_of acpFactories (rt, m) = Some f"
  shows "sel_Binary sel \<noteq> [] \<Longrightarrow>
      acp_command getenv free rt (f sel) = (sel_Binary sel, own_args free rt m (Port sel) @ sel_ExtraArgs sel)"
    "\<exists>pre. snd (acp_command getenv free rt (f sel)) = pre @ sel_ExtraArgs sel"
  using assms
  by (auto simp: acpFactories_def binary_option_def args_option_def copilotOptions_def own_args_def
      New_defs command_defs TransportStdio_def TransportTCP_def Let_def split: if_splits)

text \<open>
  C32. A pinned ACP binary is the one that runs. Where a selection names a binary, the
  client of the adapter it selects spawns exactly that binary, whatever the environment
  variables and the defaults of the adapter say, with the arguments that put the agent into
  its ACP mode (and on the selected port) before the selection's own; and the
  selection's arguments always come last and complete.
\<close>

theorem selected_binary_is_spawned:
  assumes "Select reg ps sel = Inr (ACP rt opts)"
  shows "(sel_Binary sel \<noteq> [] \<longrightarrow> (\<exists>m. acp_command getenv free rt opts =
      (sel_Binary sel, own_args free rt m (Port sel) @ sel_ExtraArgs sel) \<and>
      (\<exists>d. LookupRuntime reg (sel_Runtime sel) = Some d \<and> m = chosen_mode sel d))) \<and>
    (\<exists>pre. snd (acp_command getenv free rt opts) = pre @ sel_ExtraArgs sel)"
proof -
  obtain d f sel' where d: "LookupRuntime reg (sel_Runtime sel) = Some d"
    "factory ps (def_ID d, chosen_mode sel d) = Some f" "f sel' = Inr (ACP rt opts)"
    "sel' = sel\<lparr>sel_Runtime := runtime_name (def_ID d), sel_Mode := Some (chosen_mode sel d)\<rparr>"
    by (rule Select_InrD [OF assms])
  then obtain g where g: "map_of acpFactories (def_ID d, chosen_mode sel d) = Some g" "rt = def_ID d" "opts = g sel'"
    by (auto simp: factory_def split: option.splits sum.splits)
  with d acp_factory_command [OF g(1), where sel = sel' and getenv = getenv and free = free] show ?thesis by auto
qed

definition ex_acp_selection :: selection where
  "ex_acp_selection = ex_selection\<lparr>sel_Mode := Some ModeACPStdio\<rparr>"

theorem selected_binary_is_spawned_witness:
  "\<exists>opts. Select ex_registry ex_providers ex_acp_selection = Inr (ACP Claude opts) \<and>
     acp_command (\<lambda>_. ''/other'') 0 Claude opts = (''/usr/bin/claude'', [''--verbose''])"
proof -
  have s: "Select ex_registry ex_providers ex_acp_selection =
      Inr (ACP Claude [WithDirectBinary ''/usr/bin/claude'', WithExtraArgs [''--verbose'']])"
    by code_simp
  have "sel_Binary ex_acp_selection = ''/usr/bin/claude''" "sel_ExtraArgs ex_acp_selection = [''--verbose'']"
    by (code_simp, code_simp)
  with s selected_binary_is_spawned [OF s, of "\<lambda>_. ''/other''" 0] show ?thesis
    by (auto simp: own_args_def)
qed

end
