(* ===== verification/Wrapper_Start.thy ===== *)
theory Wrapper_Start
  imports Acp_Adapters Environment Sandbox Wrapper_Events
begin

text \<open>
  How a run begins: \<open>New\<close> and the start-up of \<open>Run\<close> in \<open>wrapper/wrapper.go\<close>, prepared
  executions (\<open>wrapper/prepared.go\<close>), the planter, and the start-up of \<open>runACP\<close>
  (\<open>wrapper/acp_lifecycle.go\<close>). agentkit's resolution of a prepared execution, the adapter's
  \<open>Resolve\<close>, the planter, the sandbox library and the registry's posture are parameters.
  A start-up is a function to its error or the options of the launch, with the kinds of the
  events emitted before.
\<close>

subsection \<open>Prepared executions\<close>

text \<open>\<open>pe_Env\<close> is a map; \<open>'p\<close> is the resolved sandbox policy. The launch template and the
  materialization report are opaque.\<close>

record 'm prepared_execution =
  pe_Argv :: "string list"
  pe_Env :: "(string \<times> string) list"
  pe_CWD :: string
  pe_Posture :: string
  Materialization :: "'m option"

record prepare_request =
  ProjectRoot :: string
  RootCWD :: string
  BootRoot :: string
  ProjectionCWD :: string

datatype prepare_error =
    ErrPreparedExecutionConflict | InvalidPrepared string | ResolveFailed string

definition defaultBootDir :: "(string list \<Rightarrow> string) \<Rightarrow> string \<Rightarrow> string \<Rightarrow> string \<Rightarrow> string" where
  "defaultBootDir join bootDir workdir sessionID =
     (if bootDir \<noteq> [] then bootDir else join [workdir, ''.wrapper-boot'', sessionID])"

text \<open>The defaults a request is given.\<close>

definition fill_roots :: "string \<Rightarrow> string \<Rightarrow> prepare_request \<Rightarrow> prepare_request" where
  "fill_roots workdir bootDir req =
     (let req1 = (if ProjectRoot req = [] then req\<lparr>ProjectRoot := workdir\<rparr> else req);
          req2 = (if RootCWD req1 = [] then req1\<lparr>RootCWD := workdir\<rparr> else req1);
          req3 = (if BootRoot req2 = [] then req2\<lparr>BootRoot := bootDir\<rparr> else req2)
      in if ProjectionCWD req3 = [] then req3\<lparr>ProjectionCWD := RootCWD req3\<rparr> else req3)"

definition resolvePreparedExecution ::
  "('m prepared_execution \<Rightarrow> string option) \<Rightarrow> (prepare_request \<Rightarrow> string + 'm prepared_execution) \<Rightarrow>
   string \<Rightarrow> string \<Rightarrow> 'm prepared_execution option \<Rightarrow> prepare_request option \<Rightarrow>
   prepare_error + 'm prepared_execution option" where
  "resolvePreparedExecution check resolve workdir bootDir execution request =
     (case (execution, request) of
        (Some _, Some _) \<Rightarrow> Inl ErrPreparedExecutionConflict
      | (Some p, None) \<Rightarrow> (case check p of Some e \<Rightarrow> Inl (InvalidPrepared e) | None \<Rightarrow> Inr (Some p))
      | (None, None) \<Rightarrow> Inr None
      | (None, Some req) \<Rightarrow>
          (case resolve (fill_roots workdir bootDir req) of
             Inl e \<Rightarrow> Inl (ResolveFailed e)
           | Inr p \<Rightarrow> (case check p of Some e \<Rightarrow> Inl (InvalidPrepared e) | None \<Rightarrow> Inr (Some p))))"

definition assignments :: "(string \<times> string) list \<Rightarrow> string list" where
  "assignments env = map (\<lambda>(k, v). k @ ''='' @ v) (sort_key fst env)"

definition preparedEnvSlice :: "'m prepared_execution option \<Rightarrow> go_strings" where
  "preparedEnvSlice prepared = (case prepared of None \<Rightarrow> None | Some p \<Rightarrow> Some (assignments (pe_Env p)))"

text \<open>A validated execution has an argument vector.\<close>

definition preparedLaunchCommand :: "'m prepared_execution option \<Rightarrow> launch_command option" where
  "preparedLaunchCommand prepared =
     (case prepared of None \<Rightarrow> None | Some p \<Rightarrow> Some \<lparr>lc_Binary = hd (pe_Argv p), lc_Args = tl (pe_Argv p)\<rparr>)"

subsection \<open>The adapter of a prepared execution\<close>

text \<open>
  What the session runtimes consult on an adapter; an interface it may lack is an option. \<open>'e\<close>
  are its events, \<open>'i\<close> and \<open>'r\<close> the two turn interrupters.
\<close>

record ('e, 'i, 'r) cli =
  cli_name :: string
  cli_Detect :: "string option"
  cli_BuildArgs :: "string \<Rightarrow> string \<Rightarrow> string \<Rightarrow> string list"
  cli_ParseLine :: "string \<Rightarrow> 'e list"
  EventParser :: "(string \<Rightarrow> 'e list) option"
  SessionLostClassifier :: "(string \<Rightarrow> bool) option"
  AuthFailureClassifier :: "(string \<Rightarrow> bool) option"
  SessionResumeVerifier :: "bool option"
  Preflighter :: "string option option"  \<comment> \<open>its error, if it has one\<close>
  TurnInterrupter :: "'i option"
  RPCTurnInterrupter :: "'r option"
  BootDirProvider :: bool

text \<open>\<open>template\<close> resolves the launch template for a turn: prompt, system prompt, session.\<close>

definition prepared_cli ::
  "string \<Rightarrow> (string \<Rightarrow> string \<Rightarrow> string \<Rightarrow> string list option) option \<Rightarrow> ('e, 'i, 'r) cli \<Rightarrow> ('e, 'i, 'r) cli" where
  "prepared_cli binary template inner = \<lparr>
     cli_name = cli_name inner,
     cli_Detect = (if binary \<noteq> [] then Some binary else None),
     cli_BuildArgs = (\<lambda>prompt sys session. case template of None \<Rightarrow> []
        | Some t \<Rightarrow> (case t prompt sys session of None \<Rightarrow> [] | Some args \<Rightarrow> args)),
     cli_ParseLine = cli_ParseLine inner,
     EventParser = Some (case EventParser inner of None \<Rightarrow> (\<lambda>_. []) | Some p \<Rightarrow> p),
     SessionLostClassifier = Some (case SessionLostClassifier inner of None \<Rightarrow> (\<lambda>_. False) | Some c \<Rightarrow> c),
     AuthFailureClassifier = Some (case AuthFailureClassifier inner of None \<Rightarrow> (\<lambda>_. False) | Some c \<Rightarrow> c),
     SessionResumeVerifier = Some (case SessionResumeVerifier inner of None \<Rightarrow> False | Some b \<Rightarrow> b),
     Preflighter = Some (case Preflighter inner of None \<Rightarrow> None | Some e \<Rightarrow> e),
     TurnInterrupter = TurnInterrupter inner,
     RPCTurnInterrupter = (if TurnInterrupter inner \<noteq> None then None else RPCTurnInterrupter inner),
     BootDirProvider = False\<rparr>"

definition preparedCLIAdapter ::
  "('m prepared_execution \<Rightarrow> string option) \<Rightarrow> (string \<Rightarrow> string \<Rightarrow> string \<Rightarrow> string list option) option \<Rightarrow>
   ('e, 'i, 'r) cli \<Rightarrow> 'm prepared_execution option \<Rightarrow> string + ('e, 'i, 'r) cli" where
  "preparedCLIAdapter check template inner prepared =
     (case prepared of
        None \<Rightarrow> Inr inner
      | Some p \<Rightarrow>
          (case check p of Some e \<Rightarrow> Inl e | None \<Rightarrow> Inr (prepared_cli (hd (pe_Argv p)) template inner)))"

subsection \<open>Planting\<close>

definition KindPlantStarted :: event_kind where "KindPlantStarted = KindOther ''plant.started''"
definition KindPlantCompleted :: event_kind where "KindPlantCompleted = KindOther ''plant.completed''"

text \<open>The planter: whether the boot directory could be made, and the planter's own error.\<close>

record planter =
  mkdir_error :: "string option"
  plant_error :: "string option"

definition runPlanter :: "planter option \<Rightarrow> string option \<times> event_kind list" where
  "runPlanter pl =
     (case pl of
        None \<Rightarrow> (None, [])
      | Some x \<Rightarrow>
          (case mkdir_error x of
             Some e \<Rightarrow> (Some e, [])
           | None \<Rightarrow> (plant_error x, [KindPlantStarted, KindPlantCompleted])))"

text \<open>\<open>emitPreparedMaterialization\<close> and the choice between the two.\<close>

definition plant_step :: "'m prepared_execution option \<Rightarrow> planter option \<Rightarrow> string option \<times> event_kind list" where
  "plant_step prepared pl =
     (case prepared of
        Some p \<Rightarrow> (if Materialization p \<noteq> None then (None, [KindPlantCompleted]) else runPlanter pl)
      | None \<Rightarrow> runPlanter pl)"

subsection \<open>What is reported of the files and of the sandbox\<close>

datatype change = ChangeUnchanged | ChangeConflict | ChangeOther string

text \<open>Of a materialization handle: its root, its report, the paths of its manifest.\<close>

record materialization =
  TargetRoot :: string
  Operation :: string
  Complete :: bool
  manifest :: "string list"
  Changes :: "(string \<times> change) list"

record plant_report =
  pr_boot_dir :: string
  pr_operation :: string
  pr_complete :: bool
  planned_files :: "string list"
  written_files :: "string list"
  unchanged_files :: "string list"
  conflict_files :: "string list"
  planted_files :: "string list"

definition materializationPayload :: "(string list \<Rightarrow> string) \<Rightarrow> (string \<Rightarrow> string) \<Rightarrow> materialization \<Rightarrow> plant_report" where
  "materializationPayload join from_slash h =
     (let at = (\<lambda>path. join [TargetRoot h, from_slash path]);
          written = map (at \<circ> fst) (filter (\<lambda>c. snd c \<notin> {ChangeUnchanged, ChangeConflict}) (Changes h))
      in \<lparr>pr_boot_dir = TargetRoot h, pr_operation = Operation h, pr_complete = Complete h,
          planned_files = map at (manifest h), written_files = written,
          unchanged_files = map (at \<circ> fst) (filter (\<lambda>c. snd c = ChangeUnchanged) (Changes h)),
          conflict_files = map (at \<circ> fst) (filter (\<lambda>c. snd c = ChangeConflict) (Changes h)),
          planted_files = written\<rparr>)"

text \<open>The payload of \<open>sandbox.applied\<close>: the outcome, its unsupported capabilities as words.\<close>

definition KindSandboxApplied :: event_kind where "KindSandboxApplied = KindOther ''sandbox.applied''"
definition KindProcessStarted :: event_kind where "KindProcessStarted = KindOther ''process.started''"

record sandbox_report =
  sr_outcome :: enforcement
  sr_legacy :: bool
  sr_applied :: bool
  sr_error :: string

definition emitACPSandboxOutcome :: "enforcement \<Rightarrow> sandbox_report" where
  "emitACPSandboxOutcome out = \<lparr>sr_outcome = out, sr_legacy = False, sr_applied = Enforced out, sr_error = []\<rparr>"

text \<open>A session runtime's own outcome also says whether a legacy profile made it, and its error.\<close>

definition sandboxOutcomePayload :: "enforcement \<Rightarrow> bool \<Rightarrow> string \<Rightarrow> sandbox_report" where
  "sandboxOutcomePayload out legacy errText =
     \<lparr>sr_outcome = out, sr_legacy = legacy, sr_applied = Enforced out, sr_error = errText\<rparr>"

text \<open>An error of the start that is a sandbox error is told with its outcome; another is not.\<close>

definition emitRuntimeStartSandboxError :: "(string \<times> (enforcement \<times> bool) option) \<Rightarrow> sandbox_report list" where
  "emitRuntimeStartSandboxError err =
     (case snd err of None \<Rightarrow> [] | Some (out, legacy) \<Rightarrow> [sandboxOutcomePayload out legacy (fst err)])"

subsection \<open>Configuring a wrapper\<close>

text \<open>The host's configuration, as far as a start-up reads it.\<close>

record ('m, 'p) wrapper_config =
  cfg_App :: string
  cfg_Workdir :: string
  cfg_SessionID :: string
  cfg_Environment :: child_environment
  cfg_SandboxPolicy :: "'p policy option"
  cfg_SandboxProfile :: string  \<comment> \<open>its id\<close>
  cfg_ProtectedPaths :: "string list"
  cfg_BootDir :: string
  cfg_PreparedExecution :: "'m prepared_execution option"
  cfg_PrepareRequest :: "prepare_request option"
  cfg_Planter :: "planter option"
  cfg_PermissionPosture :: string
  cfg_WorkspaceDir :: string
  cfg_LogPath :: string
  cfg_SystemPrompt :: string
  cfg_SessionIDPreset :: string

text \<open>The adapter, its \<open>Resolve\<close> to the environment it wants for a boot directory: \<open>RuntimeAdapter\<close> and \<open>acp.ClientAdapter\<close> are interfaces it may lack.\<close>

record adapter =
  wa_Name :: string
  wa_Describe :: descriptor
  wa_Resolve :: "string \<Rightarrow> resolve_context \<Rightarrow> string + string list option"
  wa_CLIAdapter :: "cli_adapter option"
  wa_ACPClient :: bool

record ('m, 'p, 'e, 'i, 'r) host =
  host_goos :: string
  host_environ :: "string list"
  host_join :: "string list \<Rightarrow> string"
  host_session_id :: string  \<comment> \<open>the library's new session id\<close>
  host_check :: "'m prepared_execution \<Rightarrow> string option"
  host_prepare :: "prepare_request \<Rightarrow> string + 'm prepared_execution"
  host_template :: "(string \<Rightarrow> string \<Rightarrow> string \<Rightarrow> string list option) option"
  host_policy :: "'m prepared_execution \<Rightarrow> string \<Rightarrow> string + 'p policy option"
  host_posture :: "string \<Rightarrow> (string \<Rightarrow> mode \<Rightarrow> posture_error + posture_launch) option"
  host_default_mode :: string
  host_valid_mode :: "string \<Rightarrow> string option"
  host_valid_mcp :: "string option"  \<comment> \<open>the error of the configured allowlist\<close>
  host_cli :: "cli_adapter \<Rightarrow> ('e, 'i, 'r) cli"  \<comment> \<open>the behaviour of the provider's adapter\<close>
  host_runtime :: "('e, 'i, 'r) cli \<Rightarrow> session_caps \<Rightarrow> string option"  \<comment> \<open>error of making and preparing the runtime\<close>
  host_library :: "'p library"

datatype start_error =
    AppRequired | BadPosture string | BadMCPAllow string | PathNotAbsolute string | BadEnvironment env_error
  | AdapterNotRuntime string | AdapterNotACPClient string | WorkdirRequired
  | ErrUnknownRuntime string string
  | PolicyAndProfile | PreparedAndPolicy | ErrPreparedPlantConflict | ErrACPSandboxProfileUnsupported
  | PreparedFailed prepare_error | PreparedPolicy string
  | AdapterResolve string | AdapterEnvironment env_error
  | PermissionPosture posture_error | PlantFailed string | PostureArgs string | PreparedAdapter string
  | RuntimeFailed string | SessionPosture posture_error
  | ErrProtectedPathsUnsupported apply_error

text \<open>\<open>New\<close>, for an adapter and an activity bridge that are given: the session id.\<close>

definition New :: "('m, 'p, 'e, 'i, 'r) host \<Rightarrow> ('m, 'p) wrapper_config \<Rightarrow> start_error + string" where
  "New h cfg =
     (if cfg_App cfg = [] then Inl AppRequired
      else case host_valid_mode h (cfg_PermissionPosture cfg) of
        Some e \<Rightarrow> Inl (BadPosture e)
      | None \<Rightarrow>
          (case host_valid_mcp h of
             Some e \<Rightarrow> Inl (BadMCPAllow e)
           | None \<Rightarrow>
               (case filter (\<lambda>path. \<not> is_abs path) (cfg_ProtectedPaths cfg) of
                  path # _ \<Rightarrow> Inl (PathNotAbsolute path)
                | [] \<Rightarrow>
                    (case resolveForOS (cfg_Environment cfg) [] (host_goos h) of
                       Inl e \<Rightarrow> Inl (BadEnvironment e)
                     | Inr _ \<Rightarrow> Inr (if cfg_SessionID cfg = [] then host_session_id h else cfg_SessionID cfg)))))"

subsection \<open>Starting\<close>

text \<open>
  A start-up is its error or what it launches, with the kinds of the events it emitted.
  \<open>attempt\<close> is the \<open>if err != nil { return err }\<close> of the code, with the error it wraps.
\<close>

type_synonym 'a started = "(start_error + 'a) \<times> event_kind list"

definition refuse_start :: "start_error \<Rightarrow> 'a started" where
  "refuse_start e = (Inl e, [])"

definition attempt :: "('x \<Rightarrow> start_error) \<Rightarrow> 'x + 'b \<Rightarrow> ('b \<Rightarrow> 'a started) \<Rightarrow> 'a started" where
  "attempt wrap r k = (case r of Inl e \<Rightarrow> (Inl (wrap e), []) | Inr b \<Rightarrow> k b)"

definition unless_error :: "('x \<Rightarrow> start_error) \<Rightarrow> 'x option \<Rightarrow> 'a started \<Rightarrow> 'a started" where
  "unless_error wrap e k = (case e of Some x \<Rightarrow> (Inl (wrap x), []) | None \<Rightarrow> k)"

text \<open>Plant, and go on unless it failed.\<close>

definition planting :: "'m prepared_execution option \<Rightarrow> planter option \<Rightarrow> 'a started \<Rightarrow> 'a started" where
  "planting prepared pl k =
     (let (e, evs) = plant_step prepared pl;
          (r, more) = unless_error PlantFailed e k
      in (r, evs @ more))"

text \<open>The prepared execution and the conflicts it may be in, common to both paths.\<close>

definition prepare_step ::
  "('m, 'p, 'e, 'i, 'r) host \<Rightarrow> ('m, 'p) wrapper_config \<Rightarrow> string \<Rightarrow> ('m prepared_execution option \<Rightarrow> 'a started) \<Rightarrow> 'a started" where
  "prepare_step h cfg bootDir k =
     attempt PreparedFailed
       (resolvePreparedExecution (host_check h) (host_prepare h) (cfg_Workdir cfg) bootDir
          (cfg_PreparedExecution cfg) (cfg_PrepareRequest cfg))
       (\<lambda>prepared.
          if prepared \<noteq> None \<and> cfg_SandboxPolicy cfg \<noteq> None then refuse_start PreparedAndPolicy
          else if (case prepared of None \<Rightarrow> False | Some p \<Rightarrow> Materialization p \<noteq> None) \<and> cfg_Planter cfg \<noteq> None
          then refuse_start ErrPreparedPlantConflict
          else k prepared)"

definition adapter_environment ::
  "('m, 'p, 'e, 'i, 'r) host \<Rightarrow> adapter \<Rightarrow> string \<Rightarrow> resolve_context \<Rightarrow> (string list \<times> bool \<Rightarrow> 'a started) \<Rightarrow> 'a started" where
  "adapter_environment h ad bootDir rc k =
     attempt AdapterResolve (wa_Resolve ad bootDir rc)
       (\<lambda>env. attempt AdapterEnvironment (resolvedSpecEnvironment (host_goos h) (rc_Env rc) env) k)"

text \<open>An empty environment that was asked for is kept from meaning the host's.\<close>

definition keep_empty :: "bool \<Rightarrow> string list \<Rightarrow> string list" where
  "keep_empty wanted env = (if env = [] \<and> wanted then [nonInheritingEmptyEnvironment] else env)"

text \<open>The start-up of a native session, up to the \<open>Start\<close> of its runtime.\<close>

record ('m, 'p, 'e, 'i, 'r) native_launch =
  nl_token :: runtime_token
  nl_source :: source_channel
  nl_raw_source :: source_channel
  nl_caps :: session_caps
  nl_cli :: "('e, 'i, 'r) cli"
  nl_Env :: "string list"
  nl_WorkspaceDir :: string
  nl_LogPath :: string
  nl_Prepared :: "'m prepared_execution option"
  nl_SandboxPolicy :: "'p policy option"
  nl_approvals :: string

definition native_environment ::
  "('m, 'p, 'e, 'i, 'r) host \<Rightarrow> ('m, 'p) wrapper_config \<Rightarrow> adapter \<Rightarrow> string \<Rightarrow> session_caps \<Rightarrow> string list \<Rightarrow> bool \<Rightarrow>
   'm prepared_execution option \<Rightarrow> (string list \<times> string list \<Rightarrow> 'a started) \<Rightarrow> 'a started" where
  "native_environment h cfg ad bootDir caps baseEnv explicit prepared k =
     (case prepared of
        Some _ \<Rightarrow> k (baseEnv, [])
      | None \<Rightarrow>
          adapter_environment h ad bootDir
            \<lparr>rc_Cwd = cfg_Workdir cfg, rc_Env = baseEnv, rc_PTY = PTY caps\<rparr>
            (\<lambda>(env, adapterExplicit).
               attempt PermissionPosture
                 (nativePosture (host_posture h) (wa_Name ad) (Provider (wa_Describe ad))
                    (Protocol (wa_Describe ad)) (Transport (wa_Describe ad)) (cfg_PermissionPosture cfg))
                 (\<lambda>posture. k (withPostureEnv
                    (keep_empty ((explicit \<or> adapterExplicit) \<and> capsUsesLongLivedProcess caps) env)
                    (posture_Env posture), posture_Args posture))))"

definition prepared_adapter ::
  "('m, 'p, 'e, 'i, 'r) host \<Rightarrow> cli_adapter \<Rightarrow> string list \<Rightarrow> session_caps \<Rightarrow> 'm prepared_execution option \<Rightarrow>
   (('e, 'i, 'r) cli \<Rightarrow> 'a started) \<Rightarrow> 'a started" where
  "prepared_adapter h cli args caps prepared k =
     attempt PostureArgs (withPostureArgs cli args)
       (\<lambda>cli1. attempt PreparedAdapter (preparedCLIAdapter (host_check h) (host_template h) (host_cli h cli1) prepared)
          (\<lambda>cli2. unless_error RuntimeFailed (host_runtime h cli2 caps) (k cli2)))"

definition native_start ::
  "('m, 'p, 'e, 'i, 'r) host \<Rightarrow> ('m, 'p) wrapper_config \<Rightarrow> string \<Rightarrow> adapter \<Rightarrow> string list \<Rightarrow> bool \<Rightarrow>
   ('m, 'p, 'e, 'i, 'r) native_launch started" where
  "native_start h cfg sessionID ad baseEnv explicit =
     (let desc = wa_Describe ad; bootDir = defaultBootDir (host_join h) (cfg_BootDir cfg) (cfg_Workdir cfg) sessionID
      in case wa_CLIAdapter ad of
        None \<Rightarrow> refuse_start (AdapterNotRuntime (wa_Name ad))
      | Some cli \<Rightarrow>
          if cfg_Workdir cfg = [] then refuse_start WorkdirRequired
          else case runtimeCaps (Protocol desc) (Transport desc) of
            None \<Rightarrow> refuse_start (ErrUnknownRuntime (Protocol desc) (Transport desc))
          | Some caps \<Rightarrow>
              if cfg_SandboxPolicy cfg \<noteq> None \<and> cfg_SandboxProfile cfg \<noteq> [] then refuse_start PolicyAndProfile
              else prepare_step h cfg bootDir (\<lambda>prepared.
                native_environment h cfg ad bootDir caps baseEnv explicit prepared (\<lambda>(childEnv, args).
                  planting prepared (cfg_Planter cfg)
                    (prepared_adapter h cli args caps prepared (\<lambda>cli'.
                      let (workspaceDir, logPath) = resolveWorkspaceLogPath (host_join h) (cfg_Workdir cfg) sessionID
                            (cfg_WorkspaceDir cfg) (cfg_LogPath cfg)
                      in attempt SessionPosture
                           (sessionPosture (host_default_mode h) (cfg_PermissionPosture cfg)
                              (map_option pe_Posture prepared))
                           (\<lambda>posture. (Inr \<lparr>nl_token = legacyRuntimeToken (Protocol desc) (Transport desc),
                              nl_source = runtimeSourceChannel (Protocol desc) (Transport desc),
                              nl_raw_source = rawSourceChannel (Transport desc), nl_caps = caps, nl_cli = cli',
                              nl_Env = childEnv, nl_WorkspaceDir = workspaceDir, nl_LogPath = logPath,
                              nl_Prepared = prepared, nl_SandboxPolicy = cfg_SandboxPolicy cfg,
                              nl_approvals = posture\<rparr>, [])))))))"

text \<open>The start-up of an ACP session, up to \<open>Launch\<close> of its manager.\<close>

record ('m, 'p) acp_launch =
  al_token :: runtime_token
  al_params :: "'p launch_params"
  al_Env :: go_strings
  al_SystemPrompt :: string
  al_SessionIDPreset :: string

definition acp_environment ::
  "('m, 'p, 'e, 'i, 'r) host \<Rightarrow> ('m, 'p) wrapper_config \<Rightarrow> adapter \<Rightarrow> string \<Rightarrow> string list \<Rightarrow> bool \<Rightarrow>
   'm prepared_execution option \<Rightarrow> (string \<times> go_strings \<times> 'p policy option \<Rightarrow> 'a started) \<Rightarrow> 'a started" where
  "acp_environment h cfg ad bootDir baseEnv explicit prepared k =
     (case prepared of
        Some p \<Rightarrow> attempt PreparedPolicy (host_policy h p (pe_CWD p))
          (\<lambda>pol. k (pe_CWD p, preparedEnvSlice prepared, pol))
      | None \<Rightarrow>
          adapter_environment h ad bootDir \<lparr>rc_Cwd = cfg_Workdir cfg, rc_Env = baseEnv, rc_PTY = False\<rparr>
            (\<lambda>(env, adapterExplicit). k (cfg_Workdir cfg, Some (keep_empty (explicit \<or> adapterExplicit) env),
               cfg_SandboxPolicy cfg)))"

definition acp_start ::
  "('m, 'p, 'e, 'i, 'r) host \<Rightarrow> ('m, 'p) wrapper_config \<Rightarrow> string \<Rightarrow> adapter \<Rightarrow> string list \<Rightarrow> bool \<Rightarrow> ('m, 'p) acp_launch started" where
  "acp_start h cfg sessionID ad baseEnv explicit =
     (let desc = wa_Describe ad; bootDir = defaultBootDir (host_join h) (cfg_BootDir cfg) (cfg_Workdir cfg) sessionID
      in if cfg_Workdir cfg = [] then refuse_start WorkdirRequired
         else if Transport desc \<noteq> TransportStdio \<and> Transport desc \<noteq> TransportTCP
         then refuse_start (ErrUnknownRuntime (Protocol desc) (Transport desc))
         else if cfg_SandboxProfile cfg \<noteq> [] then refuse_start ErrACPSandboxProfileUnsupported
         else if \<not> wa_ACPClient ad then refuse_start (AdapterNotACPClient (wa_Name ad))
         else prepare_step h cfg bootDir (\<lambda>prepared.
           acp_environment h cfg ad bootDir baseEnv explicit prepared (\<lambda>(cwd, env, pol).
             planting prepared (cfg_Planter cfg)
               (attempt ErrProtectedPathsUnsupported (acpProtectedPolicy (host_library h) pol (cfg_ProtectedPaths cfg))
                  (\<lambda>protected. (Inr \<lparr>al_token = acpRuntimeToken (Transport desc),
                     al_params = \<lparr>Command = preparedLaunchCommand prepared, SandboxPolicy = protected,
                        ProtectedPaths = cfg_ProtectedPaths cfg, Cwd = cwd\<rparr>,
                     al_Env = env, al_SystemPrompt = cfg_SystemPrompt cfg,
                     al_SessionIDPreset = cfg_SessionIDPreset cfg\<rparr>, []))))))"

text \<open>\<open>Run\<close>: the environment first, then the path the adapter's protocol selects.\<close>

definition Run_start ::
  "('m, 'p, 'e, 'i, 'r) host \<Rightarrow> ('m, 'p) wrapper_config \<Rightarrow> string \<Rightarrow> adapter \<Rightarrow>
   (('m, 'p) acp_launch + ('m, 'p, 'e, 'i, 'r) native_launch) started" where
  "Run_start h cfg sessionID ad =
     attempt BadEnvironment (resolveForOS (cfg_Environment cfg) (host_environ h) (host_goos h))
       (\<lambda>(baseEnv, explicit).
          if Protocol (wa_Describe ad) = ProtocolACP
          then (case acp_start h cfg sessionID ad baseEnv explicit of (r, evs) \<Rightarrow> (map_sum id Inl r, evs))
          else (case native_start h cfg sessionID ad baseEnv explicit of (r, evs) \<Rightarrow> (map_sum id Inr r, evs)))"

subsection \<open>What a start-up keeps\<close>

lemma attempt_Inr: "fst (attempt wrap r k) = Inr x \<longleftrightarrow> (\<exists>b. r = Inr b \<and> fst (k b) = Inr x)"
  by (cases r) (auto simp: attempt_def)

lemma unless_error_Inr: "fst (unless_error wrap e k) = Inr x \<longleftrightarrow> e = None \<and> fst k = Inr x"
  by (cases e) (auto simp: unless_error_def)

lemma planting_Inr:
  "fst (planting prepared pl k) = Inr x \<longleftrightarrow> fst (plant_step prepared pl) = None \<and> fst k = Inr x"
  by (auto simp: planting_def unless_error_Inr split: prod.splits) (metis fst_conv unless_error_Inr)+

lemma prepare_step_Inr:
  "fst (prepare_step h cfg bootDir k) = Inr x \<longleftrightarrow>
     (\<exists>prepared. resolvePreparedExecution (host_check h) (host_prepare h) (cfg_Workdir cfg) bootDir
          (cfg_PreparedExecution cfg) (cfg_PrepareRequest cfg) = Inr prepared \<and>
        (prepared \<noteq> None \<longrightarrow> cfg_SandboxPolicy cfg = None) \<and>
        ((\<exists>p. prepared = Some p \<and> Materialization p \<noteq> None) \<longrightarrow> cfg_Planter cfg = None) \<and>
        fst (k prepared) = Inr x)"
  unfolding prepare_step_def attempt_Inr
  by (rule ex_cong1) (auto simp: refuse_start_def split: option.splits if_splits)

lemmas start_Inr = attempt_Inr unless_error_Inr planting_Inr prepare_step_Inr

text \<open>A prepared execution is checked, and comes from the configuration or the resolver.\<close>

lemma resolvePreparedExecution_Some:
  "resolvePreparedExecution check resolve workdir bootDir execution request = Inr (Some p) \<Longrightarrow>
   check p = None \<and> (execution = Some p \<and> request = None \<or>
     execution = None \<and> (\<exists>req. request = Some req \<and> resolve (fill_roots workdir bootDir req) = Inr p))"
  by (auto simp: resolvePreparedExecution_def split: option.splits sum.splits)

lemma resolvePreparedExecution_None:
  "resolvePreparedExecution check resolve workdir bootDir execution request = Inr None \<longleftrightarrow>
   execution = None \<and> request = None"
  by (auto simp: resolvePreparedExecution_def split: option.splits sum.splits)

lemma assignments_empty [simp]: "assignments env = [] \<longleftrightarrow> env = []"
  by (auto simp: assignments_def dest: arg_cong [where f = length])

lemma assignments_Nil [simp]: "assignments [] = []"
  by (simp add: assignments_def)

text \<open>The environment of an ACP launch is never nil.\<close>

definition acp_prepared :: "('m, 'p, 'e, 'i, 'r) host \<Rightarrow> ('m, 'p) wrapper_config \<Rightarrow> string \<Rightarrow> prepare_error + 'm prepared_execution option" where
  "acp_prepared h cfg sessionID =
     resolvePreparedExecution (host_check h) (host_prepare h) (cfg_Workdir cfg)
       (defaultBootDir (host_join h) (cfg_BootDir cfg) (cfg_Workdir cfg) sessionID)
       (cfg_PreparedExecution cfg) (cfg_PrepareRequest cfg)"

lemma keep_empty_nonempty: "wanted \<Longrightarrow> keep_empty wanted env \<noteq> []"
  by (simp add: keep_empty_def)

lemma acp_environment_Inr:
  "fst (acp_environment h cfg ad bootDir baseEnv explicit prepared k) = Inr l \<Longrightarrow>
   \<exists>env pol. fst (k ((case prepared of None \<Rightarrow> cfg_Workdir cfg | Some p \<Rightarrow> pe_CWD p), Some env, pol)) = Inr l \<and>
     (case prepared of None \<Rightarrow> explicit \<longrightarrow> env \<noteq> [] | Some p \<Rightarrow> env = assignments (pe_Env p))"
  by (auto simp: acp_environment_def adapter_environment_def attempt_Inr preparedEnvSlice_def
      keep_empty_nonempty split: option.splits prod.splits intro: exI)

lemma acp_start_Inr:
  assumes "fst (acp_start h cfg sessionID ad baseEnv explicit) = Inr l"
  shows "\<exists>prepared env. acp_prepared h cfg sessionID = Inr prepared \<and>
    Command (al_params l) = preparedLaunchCommand prepared \<and> al_Env l = Some env \<and>
    (case prepared of None \<Rightarrow> explicit \<longrightarrow> env \<noteq> []
     | Some p \<Rightarrow> env = assignments (pe_Env p) \<and> Cwd (al_params l) = pe_CWD p)"
proof -
  from assms obtain prepared where p: "acp_prepared h cfg sessionID = Inr prepared"
    and k: "fst (acp_environment h cfg ad (defaultBootDir (host_join h) (cfg_BootDir cfg) (cfg_Workdir cfg) sessionID)
       baseEnv explicit prepared (\<lambda>(cwd, env, pol). planting prepared (cfg_Planter cfg)
         (attempt ErrProtectedPathsUnsupported (acpProtectedPolicy (host_library h) pol (cfg_ProtectedPaths cfg))
            (\<lambda>protected. (Inr \<lparr>al_token = acpRuntimeToken (Transport (wa_Describe ad)),
               al_params = \<lparr>Command = preparedLaunchCommand prepared, SandboxPolicy = protected,
                  ProtectedPaths = cfg_ProtectedPaths cfg, Cwd = cwd\<rparr>,
               al_Env = env, al_SystemPrompt = cfg_SystemPrompt cfg,
               al_SessionIDPreset = cfg_SessionIDPreset cfg\<rparr>, []))))) = Inr l"
    unfolding acp_start_def Let_def
    by (auto simp: prepare_step_Inr acp_prepared_def refuse_start_def split: if_splits)
  from acp_environment_Inr [OF k] p show ?thesis
    by (cases prepared) (auto simp: planting_Inr attempt_Inr)
qed

text \<open>
  C28. The environment of an ACP agent is what was asked for, with one exception. A start-up
  that succeeds gives the client an environment that is not nil, which a client that
  spawns the agent with it passes on exactly: for a prepared execution the assignments it
  was prepared with, sorted by name, whatever the host's own environment and configuration;
  otherwise, where an environment was configured, never an empty one, so that nothing of the
  host's is inherited. But the Codex client, which copies the environment of a prepared
  command, loses an empty one: the agent of an execution prepared with no variables at all
  runs with the environment of the host, and only such a one does.
\<close>

theorem prepared_environment_spawned:
  assumes "fst (acp_start h cfg sessionID ad baseEnv explicit) = Inr l"
  shows "(case acp_prepared h cfg sessionID of
      Inl _ \<Rightarrow> False
    | Inr None \<Rightarrow> Command (al_params l) = None \<and> (explicit \<longrightarrow> (\<exists>a env. al_Env l = Some (a # env)))
    | Inr (Some p) \<Rightarrow>
        Command (al_params l) = Some \<lparr>lc_Binary = hd (pe_Argv p), lc_Args = tl (pe_Argv p)\<rparr> \<and>
        spawned_env environ (al_Env l) = assignments (pe_Env p) \<and>
        spawned_env environ (launchEnv probe environ c True (al_Env l) os) =
          (if pe_Env p = [] then environ else assignments (pe_Env p)))"
proof -
  obtain prepared env where l: "acp_prepared h cfg sessionID = Inr prepared"
    "Command (al_params l) = preparedLaunchCommand prepared" "al_Env l = Some env"
    "case prepared of None \<Rightarrow> explicit \<longrightarrow> env \<noteq> [] | Some p \<Rightarrow> env = assignments (pe_Env p)"
    using acp_start_Inr [OF assms] by (force split: option.splits)
  show ?thesis
  proof (cases prepared)
    case None
    with None l show ?thesis by (auto simp: preparedLaunchCommand_def neq_Nil_conv)
  next
    case (Some p)
    have "spawned_env environ (launchEnv probe environ c True (Some (assignments (pe_Env p))) os) =
        (if pe_Env p = [] then environ else assignments (pe_Env p))"
      by (cases "assignments (pe_Env p)") (auto simp: launchEnv_def spawned_env_def)
    with Some l show ?thesis by (simp add: preparedLaunchCommand_def spawned_env_def)
  qed
qed

definition ex_execution :: "unit prepared_execution" where
  "ex_execution = \<lparr>pe_Argv = [''/bin/agent'', ''--acp''], pe_Env = [], pe_CWD = ''/w'', pe_Posture = [],
     Materialization = None\<rparr>"

definition ex_host :: "(unit, unit, unit, unit, unit) host" where
  "ex_host = \<lparr>host_goos = ''linux'', host_environ = [''TOKEN=secret''], host_join = concat,
     host_session_id = ''s1'', host_check = (\<lambda>_. None), host_prepare = (\<lambda>_. Inl ''none''), host_template = None,
     host_policy = (\<lambda>_ _. Inr None), host_posture = (\<lambda>_. None), host_default_mode = ''ask'',
     host_valid_mode = (\<lambda>_. None), host_valid_mcp = None,
     host_cli = (\<lambda>_. \<lparr>cli_name = [], cli_Detect = None, cli_BuildArgs = (\<lambda>_ _ _. []), cli_ParseLine = (\<lambda>_. []),
       EventParser = None, SessionLostClassifier = None, AuthFailureClassifier = None,
       SessionResumeVerifier = None, Preflighter = None, TurnInterrupter = None, RPCTurnInterrupter = None,
       BootDirProvider = False\<rparr>),
     host_runtime = (\<lambda>_ _. None), host_library = ex_library\<rparr>"

definition ex_config :: "(unit, unit) wrapper_config" where
  "ex_config = \<lparr>cfg_App = ''app'', cfg_Workdir = ''/w'', cfg_SessionID = [],
     cfg_Environment = \<lparr>Mode = [], Allowlist = None, Set = [], Unset = []\<rparr>,
     cfg_SandboxPolicy = None, cfg_SandboxProfile = [], cfg_ProtectedPaths = [], cfg_BootDir = [],
     cfg_PreparedExecution = Some ex_execution, cfg_PrepareRequest = None, cfg_Planter = None,
     cfg_PermissionPosture = [], cfg_WorkspaceDir = [], cfg_LogPath = [], cfg_SystemPrompt = [],
     cfg_SessionIDPreset = []\<rparr>"

definition ex_acp_adapter :: adapter where
  "ex_acp_adapter = \<lparr>wa_Name = ''codex-acp'', wa_Describe = codex_acp_Describe (\<lambda>s. s),
     wa_Resolve = (\<lambda>_ rc. Inr (Some (rc_Env rc))), wa_CLIAdapter = None, wa_ACPClient = True\<rparr>"

definition ex_bridge :: codex_client where
  "ex_bridge = codex_newClient (New_codex_acp [])"

theorem prepared_environment_spawned_witness:
  "\<exists>l. fst (acp_start ex_host ex_config ''s1'' ex_acp_adapter [] False) = Inr l \<and>
     spawned_env [''TOKEN=secret''] (al_Env l) = [] \<and>
     spawned_env [''TOKEN=secret''] (launchEnv (\<lambda>_ _. None) [''TOKEN=secret''] ex_bridge True (al_Env l) ''linux'') =
       [''TOKEN=secret'']"
proof -
  have "isl (fst (acp_start ex_host ex_config ''s1'' ex_acp_adapter [] False)) = False" by code_simp
  then obtain l where l: "fst (acp_start ex_host ex_config ''s1'' ex_acp_adapter [] False) = Inr l"
    by (cases "fst (acp_start ex_host ex_config ''s1'' ex_acp_adapter [] False)") auto
  have p: "acp_prepared ex_host ex_config ''s1'' = Inr (Some ex_execution)" by code_simp
  have e: "pe_Env ex_execution = []" by (simp add: ex_execution_def)
  with l prepared_environment_spawned [OF l, of "[''TOKEN=secret'']" "\<lambda>_ _. None" ex_bridge "''linux''"] p e
  show ?thesis by auto
qed

end
