(* ===== verification/Wrapper_Acp.thy ===== *)
theory Wrapper_Acp
  imports Lifecycle_Steps Wrapper_Events
begin

text \<open>
  \<open>Run\<close> of an ACP session, from the committed launch to its return: \<open>runACP\<close> and
  \<open>requestACPInterrupt\<close> of \<open>wrapper/acp_lifecycle.go\<close>, and \<open>SendInput\<close>, \<open>Stop\<close>,
  \<open>CancelTurn\<close>, \<open>ProviderSessionID\<close> and \<open>ACPSnapshot\<close> of \<open>wrapper/wrapper.go\<close>. The managed
  session is the one of \<open>Lifecycle\<close>, whose own goroutines go on beside those of the wrapper:
  \<open>Run\<close> itself, the one that forwards events, the one that watches the context, and the
  host's calls. One step is one section under a lock, one event emitted, one channel
  operation or one call of the session. Heartbeats only add events and are left out.
\<close>

subsection \<open>What is emitted\<close>

text \<open>An event's id is the session's own or a new one of the library, here numbered.\<close>

datatype event_id = NoID | Given string | New nat

datatype acp_payload =
    NilPayload
  | Forwarded json
  | TurnID string
  | Reason string "go_error option"
  | Bytes string
  | Policy finding
  | Outcome outcome_kind "go_error option"

record acp_out =
  ao_Kind :: event_kind
  ao_Payload :: acp_payload
  ao_ID :: event_id
  ao_Parent :: event_id
  ao_Turn :: string

definition KindStdinWrite :: event_kind where "KindStdinWrite = KindOther ''stdin.write''"

definition plain_out :: "event_kind \<Rightarrow> acp_payload \<Rightarrow> acp_out" where
  "plain_out kind p = \<lparr>ao_Kind = kind, ao_Payload = p, ao_ID = NoID, ao_Parent = NoID, ao_Turn = []\<rparr>"

definition given :: "string \<Rightarrow> event_id" where
  "given i = (if i = [] then NoID else Given i)"

definition observeACPToolUsePolicy ::
  "(string \<Rightarrow> string \<Rightarrow> finding option) option \<Rightarrow> raw \<Rightarrow> event_id \<Rightarrow> string \<Rightarrow> acp_out list" where
  "observeACPToolUsePolicy observer payload eventID turn =
     (case observer of
        None \<Rightarrow> []
      | Some observe \<Rightarrow>
          (case observe (raw_text payload) turn of
             None \<Rightarrow> []
           | Some f \<Rightarrow>
               (case policyRecommendationToLegacyEventKind (Recommendation f) of
                  None \<Rightarrow> []
                | Some kind \<Rightarrow> [\<lparr>ao_Kind = kind, ao_Payload = Policy f, ao_ID = NoID, ao_Parent = eventID, ao_Turn = turn\<rparr>])))"

text \<open>What the forwarding goroutine emits for an event of the session; \<open>n\<close> numbers a new id.\<close>

definition turn_follow_up :: "event \<Rightarrow> acp_out list" where
  "turn_follow_up ev =
     (case ev_Kind ev of
        KindTurnStarted \<Rightarrow> [(plain_out KindSessionProcessing (TurnID (ev_TurnID ev)))\<lparr>ao_Turn := ev_TurnID ev\<rparr>]
      | KindTurnCompleted \<Rightarrow> [(plain_out KindSessionIdle (TurnID (ev_TurnID ev)))\<lparr>ao_Turn := ev_TurnID ev\<rparr>]
      | KindTurnFailed \<Rightarrow> [(plain_out KindSessionIdle (TurnID (ev_TurnID ev)))\<lparr>ao_Turn := ev_TurnID ev\<rparr>]
      | _ \<Rightarrow> [])"

definition forward_outs :: "(string \<Rightarrow> string \<Rightarrow> finding option) option \<Rightarrow> event \<times> nat \<Rightarrow> acp_out list" where
  "forward_outs observer evn =
     (let (ev, n) = evn; eventID = (if ev_ID ev = [] then New n else Given (ev_ID ev))
      in \<lparr>ao_Kind = ev_Kind ev,
          ao_Payload = (case ev_Payload ev of None \<Rightarrow> NilPayload | Some j \<Rightarrow> Forwarded j),
          ao_ID = eventID, ao_Parent = given (ev_ParentID ev), ao_Turn = ev_TurnID ev\<rparr> #
         turn_follow_up ev @
         (if ev_Kind ev = KindAgentToolUse
          then observeACPToolUsePolicy observer (ev_Payload ev) eventID (ev_TurnID ev) else []))"

subsection \<open>The state of a run\<close>

text \<open>Where each goroutine stands. \<open>closing\<close>: the interrupt closes the session, not just its
  turn; \<open>watching\<close>: it is the watcher's, whose context never ends. Before \<open>Run\<close> starts the
  forwarder and the watcher they are idle.\<close>

datatype forward_pc = ForwardIdle | ForwardReading | ForwardEmitting "acp_out list" | ForwardDone

datatype input_pc = InputAdmitted string | InputWritten | InputPrompting

datatype interrupt_stage = Requested | Closing | Answered "go_error option"

record interrupt =
  in_ID :: nat
  in_Reason :: string
  in_closing :: bool
  in_watching :: bool
  in_stage :: interrupt_stage

datatype watch_pc = WatchIdle | Watching | WatchInterrupts | WatchDone

text \<open>
  \<open>Run\<close> itself. With \<open>AutoFireFirstTurn\<close> it prompts the session before anything else
  (\<open>RunFirst\<close>); where that prompt fails it closes the session and returns (\<open>RunAborted\<close>),
  past everything that \<open>RunWaiting\<close> to \<open>RunReturned\<close> stand for.
\<close>

datatype acp_phase =
    RunFirst | RunFirstPrompting | RunFirstFailed | RunFirstClosing | RunFirstClearing | RunAborted |
    RunWaiting | RunStopping | RunJoined | RunDraining | RunEvents | RunFinal | RunClearing | RunReturned

text \<open>\<open>received\<close> and \<open>forwarded\<close> record what the forwarder took and emitted.\<close>

record acp_run =
  sess :: session
  outs :: "acp_out list"
  newIDs :: nat
  forwarder :: forward_pc
  sawExit :: bool
  emitterProvider :: string
  acpSession :: bool
  acpProviderSessionID :: string
  inputsClosed :: bool
  inputs :: "input_pc list"
  interrupts :: "interrupt list"
  watcher :: watch_pc
  main :: acp_phase
  received :: "(event \<times> nat) list"
  forwarded :: "acp_out list"

text \<open>The goroutines of the forwarder and the watcher are started, and \<open>Run\<close> waits.\<close>

definition start_forwarding :: "acp_run \<Rightarrow> acp_run" where
  "start_forwarding r = r\<lparr>forwarder := ForwardReading, watcher := Watching, main := RunWaiting\<rparr>"

text \<open>
  As the launch left it: \<open>Commit\<close> stored the session and its provider's id. \<open>auto\<close> is
  \<open>AutoFireFirstTurn\<close>.
\<close>

definition new_acp_run :: "bool \<Rightarrow> session \<Rightarrow> acp_run" where
  "new_acp_run auto s =
     (let r = \<lparr>sess = s, outs = [], newIDs = 0, forwarder = ForwardIdle, sawExit = False,
        emitterProvider = providerSessionID s, acpSession = True, acpProviderSessionID = providerSessionID s,
        inputsClosed = False, inputs = [], interrupts = [], watcher = WatchIdle, main = RunFirst,
        received = [], forwarded = []\<rparr>
      in if auto then r else start_forwarding r)"

definition emit_out :: "acp_out \<Rightarrow> acp_run \<Rightarrow> acp_run" where
  "emit_out ao r = r\<lparr>outs := outs r @ [ao]\<rparr>"

definition remove_at :: "nat \<Rightarrow> 'a list \<Rightarrow> 'a list" where
  "remove_at k xs = take k xs @ drop (Suc k) xs"

subsection \<open>The first prompt\<close>

definition first_prompt :: "acp_run \<Rightarrow> acp_run" where
  "first_prompt r =
     (case prompt_begin (sess r) of
        None \<Rightarrow> r\<lparr>main := RunFirstFailed\<rparr>
      | Some s' \<Rightarrow> r\<lparr>sess := s', main := RunFirstPrompting\<rparr>)"

definition first_return :: "go_error option \<Rightarrow> acp_run \<Rightarrow> acp_run" where
  "first_return err r =
     (let r1 = r\<lparr>sess := fst (prompt_return err (sess r))\<rparr>
      in if err = None then start_forwarding r1 else r1\<lparr>main := RunFirstFailed\<rparr>)"

subsection \<open>Forwarding\<close>

text \<open>Take an event of the session, then emit what it calls for one by one.\<close>

definition forward_take :: "(string \<Rightarrow> string \<Rightarrow> finding option) option \<Rightarrow> acp_run \<Rightarrow> acp_run" where
  "forward_take observer r =
     (case events (sess r) of
        [] \<Rightarrow> r
      | ev # evs \<Rightarrow>
          r\<lparr>sess := (sess r)\<lparr>events := evs\<rparr>,
            emitterProvider := (if providerSessionID (sess r) \<noteq> [] then providerSessionID (sess r) else emitterProvider r),
            newIDs := Suc (newIDs r), forwarder := ForwardEmitting (forward_outs observer (ev, newIDs r)),
            received := received r @ [(ev, newIDs r)]\<rparr>)"

definition forward_emit :: "acp_run \<Rightarrow> acp_run" where
  "forward_emit r =
     (case forwarder r of
        ForwardEmitting (ao # aos) \<Rightarrow>
          (emit_out ao r)\<lparr>sawExit := (sawExit r \<or> ao_Kind ao = KindProcessExited),
             forwarder := ForwardEmitting aos, forwarded := forwarded r @ [ao]\<rparr>
      | ForwardEmitting [] \<Rightarrow> r\<lparr>forwarder := ForwardReading\<rparr>
      | _ \<Rightarrow> r)"

subsection \<open>Input\<close>

text \<open>\<open>None\<close> is \<open>ErrSessionNotStarted\<close>.\<close>

definition input_admit :: "string \<Rightarrow> acp_run \<Rightarrow> acp_run option" where
  "input_admit data r =
     (if inputsClosed r then None
      else if \<not> acpSession r then None
      else Some (r\<lparr>inputs := inputs r @ [InputAdmitted data]\<rparr>))"

definition input_write :: "nat \<Rightarrow> string \<Rightarrow> acp_run \<Rightarrow> acp_run" where
  "input_write k data r = (emit_out (plain_out KindStdinWrite (Bytes data)) r)\<lparr>inputs := (inputs r)[k := InputWritten]\<rparr>"

text \<open>\<open>Prompt\<close> refuses where the session is not ready; else its client is asked, and answers.\<close>

definition input_prompt :: "nat \<Rightarrow> acp_run \<Rightarrow> acp_run" where
  "input_prompt k r =
     (case prompt_begin (sess r) of
        None \<Rightarrow> r\<lparr>inputs := remove_at k (inputs r)\<rparr>
      | Some s' \<Rightarrow> r\<lparr>sess := s', inputs := (inputs r)[k := InputPrompting]\<rparr>)"

definition input_return :: "nat \<Rightarrow> go_error option \<Rightarrow> acp_run \<Rightarrow> acp_run" where
  "input_return k err r = r\<lparr>sess := fst (prompt_return err (sess r)), inputs := remove_at k (inputs r)\<rparr>"

definition closeInputAdmission :: "acp_run \<Rightarrow> acp_run" where
  "closeInputAdmission r = r\<lparr>inputsClosed := True\<rparr>"

subsection \<open>Interrupts\<close>

definition acp_interrupt_request :: "string \<Rightarrow> bool \<Rightarrow> bool \<Rightarrow> acp_run \<Rightarrow> acp_run" where
  "acp_interrupt_request why closing watching r =
     (emit_out ((plain_out KindInterruptRequested (Reason why None))\<lparr>ao_ID := New (newIDs r)\<rparr>) r)
       \<lparr>newIDs := Suc (newIDs r),
        interrupts := interrupts r @ [\<lparr>in_ID = newIDs r, in_Reason = why, in_closing = closing,
          in_watching = watching, in_stage = Requested\<rparr>]\<rparr>"

definition interrupt_stage_at :: "nat \<Rightarrow> interrupt_stage \<Rightarrow> acp_run \<Rightarrow> acp_run" where
  "interrupt_stage_at k stage r = r\<lparr>interrupts := (interrupts r)[k := (interrupts r ! k)\<lparr>in_stage := stage\<rparr>]\<rparr>"

definition acp_interrupt_ack :: "nat \<Rightarrow> go_error option \<Rightarrow> acp_run \<Rightarrow> acp_run" where
  "acp_interrupt_ack k err r =
     (let i = interrupts r ! k
      in (emit_out ((plain_out KindInterruptAcknowledged (Reason (in_Reason i) err))\<lparr>ao_Parent := New (in_ID i)\<rparr>) r)
           \<lparr>interrupts := remove_at k (interrupts r),
            watcher := (if in_watching i then WatchDone else watcher r)\<rparr>)"

subsection \<open>The end of a run\<close>

definition final_exit :: "acp_run \<Rightarrow> acp_run" where
  "final_exit r =
     (if sawExit r then r
      else emit_out (plain_out KindProcessExited (Outcome (terminalOutcome (sess r)) (serr (sess r)))) r)"

definition clearACPSession :: "acp_run \<Rightarrow> acp_run" where
  "clearACPSession r =
     (if \<not> acpSession r then r
      else r\<lparr>acpSession := False,
             acpProviderSessionID := (if providerSessionID (sess r) \<noteq> [] then providerSessionID (sess r)
                                      else acpProviderSessionID r)\<rparr>)"

definition run_result :: "go_error option \<Rightarrow> acp_run \<Rightarrow> go_error option" where
  "run_result ctxErr r =
     (case wait_result (sess r) of
        Some (Some e) \<Rightarrow> Some (Wrapped ''wrapper: ACP session ended: '' e)
      | _ \<Rightarrow> ctxErr)"

definition ProviderSessionID :: "acp_run \<Rightarrow> string" where
  "ProviderSessionID r = (if acpSession r then providerSessionID (sess r) else acpProviderSessionID r)"

definition ACPSnapshot :: "acp_run \<Rightarrow> (session_state \<times> outcome_kind \<times> go_error option) option" where
  "ACPSnapshot r = (if acpSession r then Some (st (sess r), terminalOutcome (sess r), serr (sess r)) else None)"

subsection \<open>Steps\<close>

text \<open>
  \<open>session\<close>: any step of the session but a receive, which is the forwarder's. The watcher
  may see the canceled context until \<open>Run\<close> tells it to stop; \<open>Run\<close> then waits for it.
\<close>

inductive acp_run_step ::
  "(string \<Rightarrow> string \<Rightarrow> finding option) option \<Rightarrow> (string \<Rightarrow> string) \<Rightarrow> acp_run \<Rightarrow> acp_run \<Rightarrow> bool" for observer redact where
  session: "session_step redact (sess r) s' \<Longrightarrow> events s' = events (sess r) @ evs \<Longrightarrow>
    acp_run_step observer redact r (r\<lparr>sess := s'\<rparr>)"
| first_prompted: "main r = RunFirst \<Longrightarrow> acp_run_step observer redact r (first_prompt r)"
| first_returned: "main r = RunFirstPrompting \<Longrightarrow> acp_run_step observer redact r (first_return err r)"
| first_close: "main r = RunFirstFailed \<Longrightarrow>
    acp_run_step observer redact r (r\<lparr>sess := close_request (sess r), main := RunFirstClosing\<rparr>)"
| first_closed: "main r = RunFirstClosing \<Longrightarrow> close_result (sess r) = Some err \<Longrightarrow>
    acp_run_step observer redact r (r\<lparr>main := RunFirstClearing\<rparr>)"
| first_clear: "main r = RunFirstClearing \<Longrightarrow>
    acp_run_step observer redact r ((clearACPSession r)\<lparr>main := RunAborted\<rparr>)"
| take_event: "forwarder r = ForwardReading \<Longrightarrow> events (sess r) \<noteq> [] \<Longrightarrow>
    acp_run_step observer redact r (forward_take observer r)"
| emit_event: "forwarder r = ForwardEmitting aos \<Longrightarrow> acp_run_step observer redact r (forward_emit r)"
| events_over: "forwarder r = ForwardReading \<Longrightarrow> events (sess r) = [] \<Longrightarrow> eventsClosed (sess r) \<Longrightarrow>
    acp_run_step observer redact r (r\<lparr>forwarder := ForwardDone\<rparr>)"
| admit: "input_admit data r = Some r' \<Longrightarrow> acp_run_step observer redact r r'"
| write_input: "k < length (inputs r) \<Longrightarrow> inputs r ! k = InputAdmitted data \<Longrightarrow>
    acp_run_step observer redact r (input_write k data r)"
| prompt_input: "k < length (inputs r) \<Longrightarrow> inputs r ! k = InputWritten \<Longrightarrow>
    acp_run_step observer redact r (input_prompt k r)"
| return_input: "k < length (inputs r) \<Longrightarrow> inputs r ! k = InputPrompting \<Longrightarrow>
    acp_run_step observer redact r (input_return k err r)"
| stop: "acpSession r \<Longrightarrow> acp_run_step observer redact r (acp_interrupt_request ''user_stop'' True False r)"
| cancel_turn: "acpSession r \<Longrightarrow> acp_run_step observer redact r (acp_interrupt_request ''turn_cancel'' False False r)"
| context_over: "watcher r = Watching \<Longrightarrow>
    acp_run_step observer redact r ((acp_interrupt_request ''ctx_cancel'' True True r)\<lparr>watcher := WatchInterrupts\<rparr>)"
| close_session: "k < length (interrupts r) \<Longrightarrow> in_stage (interrupts r ! k) = Requested \<Longrightarrow> in_closing (interrupts r ! k) \<Longrightarrow>
    acp_run_step observer redact r (interrupt_stage_at k Closing (r\<lparr>sess := close_request (sess r)\<rparr>))"
| closed_session: "k < length (interrupts r) \<Longrightarrow> in_stage (interrupts r ! k) = Closing \<Longrightarrow>
    close_result (sess r) = Some err \<or> \<not> in_watching (interrupts r ! k) \<and> err = Some ctxErr \<Longrightarrow>
    acp_run_step observer redact r (interrupt_stage_at k (Answered err) r)"
| cancel_session: "k < length (interrupts r) \<Longrightarrow> in_stage (interrupts r ! k) = Requested \<Longrightarrow>
    \<not> in_closing (interrupts r ! k) \<Longrightarrow>
    acp_run_step observer redact r (interrupt_stage_at k (Answered (cancel_session err (sess r))) r)"
| acknowledge: "k < length (interrupts r) \<Longrightarrow> in_stage (interrupts r ! k) = Answered err \<Longrightarrow>
    acp_run_step observer redact r (acp_interrupt_ack k err r)"
| waited: "main r = RunWaiting \<Longrightarrow> wait_result (sess r) = Some err \<Longrightarrow>
    acp_run_step observer redact r (r\<lparr>main := RunStopping\<rparr>)"
| stop_watcher: "main r = RunStopping \<Longrightarrow> watcher r = Watching \<Longrightarrow>
    acp_run_step observer redact r (r\<lparr>watcher := WatchDone\<rparr>)"
| joined: "main r = RunStopping \<Longrightarrow> watcher r = WatchDone \<Longrightarrow>
    acp_run_step observer redact r (r\<lparr>main := RunJoined\<rparr>)"
| close_inputs: "main r = RunJoined \<Longrightarrow>
    acp_run_step observer redact r ((closeInputAdmission r)\<lparr>main := RunDraining\<rparr>)"
| inputs_over: "main r = RunDraining \<Longrightarrow> inputs r = [] \<Longrightarrow>
    acp_run_step observer redact r (r\<lparr>main := RunEvents\<rparr>)"
| events_done: "main r = RunEvents \<Longrightarrow> forwarder r = ForwardDone \<Longrightarrow>
    acp_run_step observer redact r (r\<lparr>main := RunFinal\<rparr>)"
| final: "main r = RunFinal \<Longrightarrow> acp_run_step observer redact r ((final_exit r)\<lparr>main := RunClearing\<rparr>)"
| clear: "main r = RunClearing \<Longrightarrow> acp_run_step observer redact r ((clearACPSession r)\<lparr>main := RunReturned\<rparr>)"

inductive acp_run_reach ::
  "(string \<Rightarrow> string \<Rightarrow> finding option) option \<Rightarrow> (string \<Rightarrow> string) \<Rightarrow> acp_run \<Rightarrow> acp_run \<Rightarrow> bool"
  for observer redact where
  start: "acp_run_reach observer redact r r"
| step: "acp_run_reach observer redact r r' \<Longrightarrow> acp_run_step observer redact r' r'' \<Longrightarrow>
    acp_run_reach observer redact r r''"

lemma acp_run_reach_trans:
  "acp_run_reach observer redact r' r'' \<Longrightarrow> acp_run_reach observer redact r r' \<Longrightarrow>
   acp_run_reach observer redact r r''"
  by (induction rule: acp_run_reach.induct) (auto intro: acp_run_reach.step)

subsection \<open>The session inside\<close>

text \<open>What the run does to its session is a step of it, or nothing.\<close>

lemma acp_run_session:
  "acp_run_step observer redact r r' \<Longrightarrow>
   sess r' = sess r \<or> session_step redact (sess r) (sess r') \<or>
   (\<exists>err. sess r' = fst (prompt_return err (sess r)))"
proof (induction rule: acp_run_step.induct)
  case (take_event r)
  then have "sess (forward_take observer r) = (sess r)\<lparr>events := tl (events (sess r))\<rparr>"
    by (auto simp: forward_take_def split: list.split)
  moreover have "session_step redact (sess r) ((sess r)\<lparr>events := tl (events (sess r))\<rparr>)"
    using take_event by (intro session_step.receive_event)
  ultimately show ?case by simp
next
  case (prompt_input k r)
  then show ?case by (auto simp: input_prompt_def split: option.split intro: session_step.prompt)
next
  case (first_prompted r)
  then show ?case by (auto simp: first_prompt_def split: option.split intro: session_step.prompt)
next
  case (first_returned r err)
  then show ?case by (auto simp: first_return_def start_forwarding_def Let_def)
next
  case (first_close r)
  then show ?case by (auto intro: session_step.close)
next
  case (close_session k r)
  then show ?case by (auto simp: interrupt_stage_at_def intro: session_step.close)
qed (auto simp: forward_emit_def emit_out_def input_admit_def input_write_def input_return_def
    acp_interrupt_request_def interrupt_stage_at_def acp_interrupt_ack_def Let_def closeInputAdmission_def
    final_exit_def clearACPSession_def split: forward_pc.splits list.splits if_splits)

lemma session_inv_prompt_return: "session_inv s \<Longrightarrow> session_inv (fst (prompt_return err s))"
  by (cases err; cases "st s")
    (auto simp: session_inv_def inv_once_def inv_launch_def inv_finish_def inv_state_def inv_ready_def
      prompt_return_def Let_def)

lemma acp_run_session_inv:
  "acp_run_reach observer redact r r' \<Longrightarrow> session_inv (sess r) \<Longrightarrow> session_inv (sess r')"
  by (induction rule: acp_run_reach.induct)
    (auto dest!: acp_run_session intro: session_inv_step session_inv_prompt_return)

end
