(* ===== verification/Wrapper_Acp_Properties.thy ===== *)
theory Wrapper_Acp_Properties
  imports Wrapper_Acp Lifecycle_Properties "HOL-Library.Sublist"
begin

text \<open>
  What a run of \<open>Wrapper_Acp\<close> tells its host: every event the session published, in order,
  and one \<open>process.exited\<close> at least; and what it no longer does once it has returned.
\<close>

subsection \<open>What the session publishes is received\<close>

lemma publish_events:
  "\<exists>xs. published (publish ev s) = published s @ xs \<and> events (publish ev s) = events s @ xs \<and>
     (eventsClosed s \<longrightarrow> xs = [])"
  by (auto simp: publish_def)

lemma observeEvent_events [simp]: "events (observeEvent redact i ev s) = events s"
  by (simp add: section_defs split: event_kind.split option.split)

lemma emit_stage_events [simp]: "events (emit_stage k s) = events s"
  by (auto simp: emit_stage_def Let_def split: prod.split emitter_pc.split)

lemma prompt_return_frame [simp]:
  "events (fst (prompt_return err s)) = events s" "published (fst (prompt_return err s)) = published s"
  "eventsClosed (fst (prompt_return err s)) = eventsClosed s"
  by (cases err; simp add: prompt_return_def Let_def)+

lemma session_step_published:
  "session_step redact s s' \<Longrightarrow> events s' = events s @ evs \<Longrightarrow>
   published s' = published s @ evs \<and> (eventsClosed s \<longrightarrow> evs = [])"
proof (induction rule: session_step.induct)
  case (publish s ev)
  obtain xs where "published (Lifecycle.publish ev s) = published s @ xs" "events (Lifecycle.publish ev s) = events s @ xs"
    "eventsClosed s \<longrightarrow> xs = []"
    using publish_events [of ev s] by blast
  with publish.prems show ?case by simp
next
  case (receive_event s)
  then have "length (tl (events s)) = length (events s @ evs)" by simp
  with receive_event.hyps show ?case by (cases "events s") auto
qed (auto simp: step_defs Let_def split: option.splits if_splits)

lemma session_step_eventsClosed: "session_step redact s s' \<Longrightarrow> eventsClosed s \<Longrightarrow> eventsClosed s'"
  by (induction rule: session_step.induct) (auto simp: step_defs Let_def split: option.splits if_splits)

fun pending :: "forward_pc \<Rightarrow> acp_out list" where
  "pending (ForwardEmitting aos) = aos"
| "pending _ = []"

definition inv_received :: "acp_run \<Rightarrow> bool" where
  "inv_received r \<longleftrightarrow> published (sess r) = map fst (received r) @ events (sess r) \<and>
     (forwarder r = ForwardDone \<longrightarrow> eventsClosed (sess r) \<and> events (sess r) = [])"

definition is_exit :: "acp_out \<Rightarrow> bool" where
  "is_exit ao \<longleftrightarrow> ao_Kind ao = KindProcessExited"

definition inv_forwarded :: "(string \<Rightarrow> string \<Rightarrow> finding option) option \<Rightarrow> acp_run \<Rightarrow> bool" where
  "inv_forwarded observer r \<longleftrightarrow>
     forwarded r @ pending (forwarder r) = concat (map (forward_outs observer) (received r)) \<and>
     subseq (forwarded r) (outs r) \<and> (sawExit r \<longleftrightarrow> list_ex is_exit (forwarded r))"

text \<open>\<open>early\<close>: \<open>Run\<close> has not come to start the forwarder, and after an abort never does.\<close>

definition early :: "acp_phase \<Rightarrow> bool" where
  "early m \<longleftrightarrow> m \<in> {RunFirst, RunFirstPrompting, RunFirstFailed, RunFirstClosing, RunFirstClearing, RunAborted}"

lemma early_simps [simp]:
  "early RunFirst" "early RunFirstPrompting" "early RunFirstFailed" "early RunFirstClosing"
  "early RunFirstClearing" "early RunAborted" "\<not> early RunWaiting" "\<not> early RunStopping" "\<not> early RunJoined"
  "\<not> early RunDraining" "\<not> early RunEvents" "\<not> early RunFinal" "\<not> early RunClearing" "\<not> early RunReturned"
  by (simp_all add: early_def)

fun phase_of :: "acp_phase \<Rightarrow> nat" where
  "phase_of RunWaiting = 0"
| "phase_of RunStopping = 1"
| "phase_of RunJoined = 2"
| "phase_of RunDraining = 3"
| "phase_of RunEvents = 4"
| "phase_of RunFinal = 5"
| "phase_of RunClearing = 6"
| "phase_of RunReturned = 7"
| "phase_of _ = 0"

definition inv_main :: "acp_run \<Rightarrow> bool" where
  "inv_main r \<longleftrightarrow>
     (3 \<le> phase_of (main r) \<longrightarrow> inputsClosed r) \<and> (4 \<le> phase_of (main r) \<longrightarrow> inputs r = []) \<and>
     (5 \<le> phase_of (main r) \<longrightarrow> forwarder r = ForwardDone) \<and>
     (2 \<le> phase_of (main r) \<longrightarrow> watcher r = WatchDone) \<and>
     (1 \<le> phase_of (main r) \<longrightarrow> doneClosed (sess r)) \<and>
     (acpSession r \<longleftrightarrow> main r \<noteq> RunReturned \<and> main r \<noteq> RunAborted)"

text \<open>What the host's own calls emit.\<close>

definition host_out :: "acp_out \<Rightarrow> bool" where
  "host_out ao \<longleftrightarrow> ao_Kind ao \<in> {KindStdinWrite, KindInterruptRequested, KindInterruptAcknowledged}"

definition inv_early :: "bool \<Rightarrow> acp_run \<Rightarrow> bool" where
  "inv_early auto r \<longleftrightarrow> (early (main r) \<longleftrightarrow> forwarder r = ForwardIdle) \<and>
     (early (main r) \<longleftrightarrow> watcher r = WatchIdle) \<and>
     (early (main r) \<longrightarrow> auto \<and> list_all host_out (outs r) \<and> (\<forall>i \<in> set (interrupts r). \<not> in_watching i))"

definition inv_exits :: "acp_run \<Rightarrow> bool" where
  "inv_exits r \<longleftrightarrow> length (filter is_exit (outs r)) =
     (if 6 \<le> phase_of (main r) then max 1 (length (filter is_exit (forwarded r)))
      else length (filter is_exit (forwarded r)))"

lemmas run_defs = emit_out_def input_admit_def input_write_def input_prompt_def input_return_def
  acp_interrupt_request_def interrupt_stage_at_def acp_interrupt_ack_def closeInputAdmission_def
  final_exit_def clearACPSession_def plain_out_def start_forwarding_def first_return_def Let_def

lemma inv_received_step:
  "acp_run_step observer redact r r' \<Longrightarrow> inv_received r \<Longrightarrow> inv_received r'"
proof (induction rule: acp_run_step.induct)
  case (session r s' evs)
  with session_step_published [OF session.hyps] session_step_eventsClosed [OF session.hyps(1)]
  show ?case by (auto simp: inv_received_def)
next
  case (take_event r)
  then show ?case by (auto simp: inv_received_def forward_take_def neq_Nil_conv)
next
  case (emit_event r aos)
  then show ?case by (auto simp: inv_received_def forward_emit_def emit_out_def split: list.split)
next
  case (prompt_input k r)
  then show ?case by (auto simp: inv_received_def input_prompt_def prompt_begin_def split: if_splits)
next
  case (first_prompted r)
  then show ?case by (auto simp: inv_received_def first_prompt_def prompt_begin_def split: if_splits)
next
  case (first_close r)
  then show ?case by (simp add: inv_received_def close_request_def Let_def)
next
  case (close_session k r)
  then show ?case by (simp add: inv_received_def interrupt_stage_at_def close_request_def Let_def)
qed (auto simp: inv_received_def run_defs split: if_splits)

lemma inv_forwarded_step:
  "acp_run_step observer redact r r' \<Longrightarrow> inv_forwarded observer r \<Longrightarrow> inv_early auto r \<Longrightarrow>
   inv_forwarded observer r'"
proof (induction rule: acp_run_step.induct)
  case (take_event r)
  then show ?case by (auto simp: inv_forwarded_def forward_take_def neq_Nil_conv)
next
  case (emit_event r aos)
  then show ?case
    by (cases aos) (auto simp: inv_forwarded_def forward_emit_def emit_out_def is_exit_def intro: list_emb_append_mono)
next
  case (prompt_input k r)
  then show ?case by (auto simp: inv_forwarded_def input_prompt_def split: option.split)
next
  case (first_prompted r)
  then show ?case by (auto simp: inv_forwarded_def first_prompt_def split: option.split)
next
  case (first_returned r err)
  then have "forwarder r = ForwardIdle" by (simp add: inv_early_def)
  with first_returned show ?case by (auto simp: inv_forwarded_def first_return_def start_forwarding_def Let_def)
qed (auto simp: inv_forwarded_def run_defs split: if_splits)

lemma session_step_done: "session_step redact s s' \<Longrightarrow> doneClosed s \<Longrightarrow> doneClosed s'"
  by (induction rule: session_step.induct) (auto simp: step_defs Let_def split: option.splits if_splits)

lemma prompt_return_done [simp]: "doneClosed (fst (prompt_return err s)) = doneClosed s"
  by (cases err; simp add: prompt_return_def Let_def)

lemma acp_run_done:
  "acp_run_step observer redact r r' \<Longrightarrow> doneClosed (sess r) \<Longrightarrow> doneClosed (sess r')"
  using acp_run_session [of observer redact r r'] by (auto dest: session_step_done)

lemma forward_emit_frame [simp]:
  "main (forward_emit r) = main r" "inputs (forward_emit r) = inputs r" "sess (forward_emit r) = sess r"
  "inputsClosed (forward_emit r) = inputsClosed r" "watcher (forward_emit r) = watcher r"
  "acpSession (forward_emit r) = acpSession r"
  by (auto simp: forward_emit_def emit_out_def split: forward_pc.split list.split)

lemma forward_take_frame [simp]:
  "main (forward_take observer r) = main r" "inputs (forward_take observer r) = inputs r"
  "doneClosed (sess (forward_take observer r)) = doneClosed (sess r)"
  "inputsClosed (forward_take observer r) = inputsClosed r" "watcher (forward_take observer r) = watcher r"
  "acpSession (forward_take observer r) = acpSession r" "outs (forward_take observer r) = outs r"
  "forwarded (forward_take observer r) = forwarded r"
  by (auto simp: forward_take_def split: list.split)

lemma inv_main_step:
  assumes "acp_run_step observer redact r r'" and "inv_main r" and "inv_early auto r"
  shows "inv_main r'"
proof -
  have d: "doneClosed (sess r) \<longrightarrow> doneClosed (sess r')" using acp_run_done [OF assms(1)] by blast
  from assms d show ?thesis
  proof (induction rule: acp_run_step.induct)
    case (prompt_input k r)
    then show ?case
      by (cases "prompt_begin (sess r)") (auto simp: inv_main_def input_prompt_def remove_at_def)
  next
    case (first_prompted r)
    then show ?case by (cases "prompt_begin (sess r)") (auto simp: inv_main_def first_prompt_def)
  next
    case (waited r err)
    then show ?case by (auto simp: inv_main_def wait_result_def split: if_splits)
  next
    case (emit_event r aos)
    then have "forwarder r \<noteq> ForwardDone" by simp
    with emit_event show ?case by (auto simp: inv_main_def)
  next
    case (take_event r)
    then have "forwarder r \<noteq> ForwardDone" by simp
    with take_event show ?case by (auto simp: inv_main_def)
  qed (auto simp: inv_main_def run_defs remove_at_def split: if_splits)
qed

lemma is_exit_simps [simp]:
  "\<not> is_exit (plain_out (KindOther k) p)" "is_exit (plain_out KindProcessExited p)"
  "is_exit (ao\<lparr>ao_ID := i\<rparr>) = is_exit ao" "is_exit (ao\<lparr>ao_Parent := i\<rparr>) = is_exit ao"
  "is_exit (ao\<lparr>ao_Turn := t\<rparr>) = is_exit ao"
  by (simp_all add: is_exit_def plain_out_def)

lemma host_out_simps [simp]:
  "host_out (plain_out KindStdinWrite p)" "host_out (plain_out KindInterruptRequested p)"
  "host_out (plain_out KindInterruptAcknowledged p)"
  "host_out (ao\<lparr>ao_ID := i\<rparr>) = host_out ao" "host_out (ao\<lparr>ao_Parent := i\<rparr>) = host_out ao"
  by (simp_all add: host_out_def plain_out_def)

lemma interrupts_stage_early:
  "\<forall>i \<in> set xs. \<not> in_watching i \<Longrightarrow> k < length xs \<Longrightarrow>
   \<forall>i \<in> set (xs[k := (xs ! k)\<lparr>in_stage := stage\<rparr>]). \<not> in_watching i"
  by (auto dest!: set_update_subset_insert [THEN subsetD])

lemma inv_early_step:
  "acp_run_step observer redact r r' \<Longrightarrow> inv_early auto r \<Longrightarrow> inv_early auto r'"
proof (induction rule: acp_run_step.induct)
  case (take_event r)
  then show ?case by (auto simp: inv_early_def forward_take_def split: list.split)
next
  case (emit_event r aos)
  then show ?case by (cases aos) (auto simp: inv_early_def forward_emit_def emit_out_def)
next
  case (prompt_input k r)
  then show ?case by (auto simp: inv_early_def input_prompt_def split: option.split)
next
  case (first_prompted r)
  then show ?case by (auto simp: inv_early_def first_prompt_def split: option.split)
next
  case (close_session k r)
  then show ?case by (auto simp: inv_early_def interrupt_stage_at_def interrupts_stage_early)
next
  case (closed_session k r err ctxErr)
  then show ?case by (auto simp: inv_early_def interrupt_stage_at_def interrupts_stage_early)
next
  case (cancel_session k r err)
  then show ?case by (auto simp: inv_early_def interrupt_stage_at_def interrupts_stage_early)
next
  case (acknowledge k r err)
  have "in_watching (interrupts r ! k) \<Longrightarrow> \<not> early (main r)"
    using acknowledge by (auto simp: inv_early_def)
  with acknowledge show ?case
    by (auto simp: inv_early_def acp_interrupt_ack_def emit_out_def Let_def remove_at_def
        dest: in_set_takeD in_set_dropD)
next
  case (final r)
  then show ?case by (auto simp: inv_early_def final_exit_def emit_out_def)
qed (auto simp: inv_early_def emit_out_def input_admit_def input_write_def input_return_def
    acp_interrupt_request_def closeInputAdmission_def clearACPSession_def first_return_def start_forwarding_def
    Let_def split: if_splits)

lemma inv_exits_step:
  "acp_run_step observer redact r r' \<Longrightarrow> inv_forwarded observer r \<Longrightarrow> inv_main r \<Longrightarrow> inv_exits r \<Longrightarrow> inv_exits r'"
proof (induction rule: acp_run_step.induct)
  case (emit_event r aos)
  then have "phase_of (main r) < 5" by (auto simp: inv_main_def)
  with emit_event show ?case
    by (cases aos) (auto simp: inv_exits_def forward_emit_def emit_out_def)
next
  case (take_event r)
  then show ?case by (simp add: inv_exits_def)
next
  case (prompt_input k r)
  then show ?case by (auto simp: inv_exits_def input_prompt_def split: option.split)
next
  case (first_prompted r)
  then show ?case by (auto simp: inv_exits_def first_prompt_def split: option.split)
next
  case (final r)
  then have "filter is_exit (forwarded r) = [] \<longleftrightarrow> \<not> sawExit r"
    by (auto simp: inv_forwarded_def list_ex_iff filter_empty_conv)
  with final show ?case
    by (cases "filter is_exit (forwarded r)") (auto simp: inv_exits_def final_exit_def emit_out_def)
qed (auto simp: inv_exits_def emit_out_def input_admit_def input_write_def input_return_def
    acp_interrupt_request_def interrupt_stage_at_def acp_interrupt_ack_def closeInputAdmission_def
    clearACPSession_def first_return_def start_forwarding_def Let_def KindStdinWrite_def kind_defs
    split: if_splits)

definition acp_inv :: "(string \<Rightarrow> string \<Rightarrow> finding option) option \<Rightarrow> bool \<Rightarrow> acp_run \<Rightarrow> bool" where
  "acp_inv observer auto r \<longleftrightarrow> inv_received r \<and> inv_forwarded observer r \<and> inv_main r \<and> inv_exits r \<and>
     inv_early auto r"

lemma new_acp_run_sess [simp]: "sess (new_acp_run auto s) = s"
  by (simp add: new_acp_run_def start_forwarding_def Let_def)

lemma acp_inv_new: "published s = events s \<Longrightarrow> acp_inv observer auto (new_acp_run auto s)"
  by (cases auto)
    (simp_all add: acp_inv_def inv_received_def inv_forwarded_def inv_main_def inv_exits_def inv_early_def
      new_acp_run_def start_forwarding_def Let_def)

lemma acp_inv_reach:
  "acp_run_reach observer redact r r' \<Longrightarrow> acp_inv observer auto r \<Longrightarrow> acp_inv observer auto r'"
  unfolding acp_inv_def
  by (induction rule: acp_run_reach.induct)
    (auto intro: inv_received_step inv_forwarded_step inv_main_step inv_exits_step inv_early_step)

text \<open>An event of the session is an exit exactly where what is forwarded of it is.\<close>

lemma policy_not_exit: "filter is_exit (observeACPToolUsePolicy observer p i t) = []"
  by (auto simp: observeACPToolUsePolicy_def is_exit_def kind_defs
      split: option.split elim!: policyRecommendationToLegacyEventKind.elims)

lemma forward_outs_exits:
  "length (filter is_exit (forward_outs observer evn)) = (if ev_Kind (fst evn) = KindProcessExited then 1 else 0)"
  by (cases evn; cases "ev_Kind (fst evn)")
    (simp_all add: forward_outs_def turn_follow_up_def Let_def policy_not_exit kind_defs, simp_all add: is_exit_def)

lemma forwarded_exits:
  "length (filter is_exit (concat (map (forward_outs observer) evns))) =
     length (filter (\<lambda>ev. ev_Kind ev = KindProcessExited) (map fst evns))"
  by (induction evns) (auto simp: forward_outs_exits)

subsection \<open>A run whose session is done can return\<close>

definition inv_watch :: "acp_run \<Rightarrow> bool" where
  "inv_watch r \<longleftrightarrow> (watcher r = WatchInterrupts \<longrightarrow> (\<exists>i \<in> set (interrupts r). in_watching i)) \<and>
     (\<forall>i \<in> set (interrupts r). in_watching i \<longrightarrow> in_closing i)"

lemma remove_at_set: "k < length xs \<Longrightarrow> set xs \<subseteq> insert (xs ! k) (set (remove_at k xs))"
  by (subst id_take_nth_drop [of k xs]) (auto simp: remove_at_def)

lemma set_remove_at: "set (remove_at k xs) \<subseteq> set xs"
  by (auto simp: remove_at_def dest: in_set_takeD in_set_dropD)

text \<open>An interrupt whose stage changes stays where it is.\<close>

lemma inv_watch_stage:
  assumes "inv_watch r" "k < length (interrupts r)" "interrupts r' = interrupts r" "watcher r' = watcher r"
  shows "inv_watch (interrupt_stage_at k stage r')"
proof -
  have *: "in_watching ((interrupts r)[k := (interrupts r ! k)\<lparr>in_stage := stage\<rparr>] ! j) = in_watching (interrupts r ! j)"
    "in_closing ((interrupts r)[k := (interrupts r ! k)\<lparr>in_stage := stage\<rparr>] ! j) = in_closing (interrupts r ! j)"
    if "j < length (interrupts r)" for j
    using that assms(2) by (cases "j = k"; simp)+
  from assms show ?thesis
    by (auto simp: inv_watch_def interrupt_stage_at_def Bex_def Ball_def in_set_conv_nth *)
qed

lemma inv_watch_step: "acp_run_step observer redact r r' \<Longrightarrow> inv_watch r \<Longrightarrow> inv_watch r'"
proof (induction rule: acp_run_step.induct)
  case (acknowledge k r err)
  have "set (interrupts r) \<subseteq> insert (interrupts r ! k) (set (remove_at k (interrupts r)))"
    by (rule remove_at_set [OF acknowledge.hyps(1)])
  with acknowledge set_remove_at [of k "interrupts r"] show ?case
    by (auto simp: inv_watch_def acp_interrupt_ack_def emit_out_def Let_def)
next
  case (close_session k r)
  then show ?case by (intro inv_watch_stage) auto
next
  case (closed_session k r err ctxErr)
  then show ?case by (intro inv_watch_stage) auto
next
  case (cancel_session k r err)
  then show ?case by (intro inv_watch_stage) auto
next
  case (prompt_input k r)
  then show ?case by (auto simp: inv_watch_def input_prompt_def split: option.split)
next
  case (take_event r)
  then show ?case by (auto simp: inv_watch_def forward_take_def split: list.split)
next
  case (emit_event r aos)
  then show ?case by (auto simp: inv_watch_def forward_emit_def emit_out_def split: list.split)
next
  case (first_prompted r)
  then show ?case by (auto simp: inv_watch_def first_prompt_def split: option.split)
qed (auto simp: inv_watch_def run_defs split: if_splits)

lemma run_one: "acp_run_step observer redact r r' \<Longrightarrow> acp_run_reach observer redact r r'"
  by (rule acp_run_reach.step [OF acp_run_reach.start])

lemma run_then: "acp_run_step observer redact r r' \<Longrightarrow> acp_run_reach observer redact r' r'' \<Longrightarrow> acp_run_reach observer redact r r''"
  by (rule acp_run_reach_trans [OF _ run_one])

lemma watch_joins:
  assumes "main r = RunStopping" "watcher r \<noteq> WatchIdle" "inv_watch r" "doneClosed (sess r)" "closeOnce (sess r) = OnceDone"
  shows "\<exists>r'. acp_run_reach observer redact r r' \<and> main r' = RunStopping \<and> watcher r' = WatchDone"
proof (cases "watcher r")
  case Watching
  with run_one [OF acp_run_step.stop_watcher, OF assms(1)] assms(1) show ?thesis by fastforce
next
  case WatchDone
  with assms(1) show ?thesis using acp_run_reach.start by blast
next
  case WatchInterrupts
  with assms(3) obtain k where k: "k < length (interrupts r)" "in_watching (interrupts r ! k)" "in_closing (interrupts r ! k)"
    by (auto simp: inv_watch_def in_set_conv_nth) (metis nth_mem)
  have ack: "\<exists>r'. acp_run_reach observer redact q r' \<and> main r' = RunStopping \<and> watcher r' = WatchDone"
    if "main q = RunStopping" "k < length (interrupts q)" "in_watching (interrupts q ! k)"
      "in_stage (interrupts q ! k) = Answered err" for q err
    using run_one [OF acp_run_step.acknowledge, OF that(2,4)] that
    by (intro exI [of _ "acp_interrupt_ack k err q"]) (auto simp: acp_interrupt_ack_def emit_out_def Let_def)
  have closing: "\<exists>r'. acp_run_reach observer redact q r' \<and> main r' = RunStopping \<and> watcher r' = WatchDone"
    if q: "main q = RunStopping" "k < length (interrupts q)" "in_watching (interrupts q ! k)"
      "in_stage (interrupts q ! k) = Closing" "doneClosed (sess q)" "closeOnce (sess q) = OnceDone" for q
  proof -
    have "close_result (sess q) = Some (closeErr (sess q))" using q by (simp add: close_result_def)
    then have "acp_run_step observer redact q (interrupt_stage_at k (Answered (closeErr (sess q))) q)"
      using q by (intro acp_run_step.closed_session) auto
    moreover have "\<exists>r'. acp_run_reach observer redact (interrupt_stage_at k (Answered (closeErr (sess q))) q) r' \<and>
        main r' = RunStopping \<and> watcher r' = WatchDone"
      by (rule ack) (use q in \<open>simp_all add: interrupt_stage_at_def\<close>)
    ultimately show ?thesis using run_then by blast
  qed
  show ?thesis
  proof (cases "in_stage (interrupts r ! k)")
    case Requested
    let ?q = "interrupt_stage_at k Closing (r\<lparr>sess := close_request (sess r)\<rparr>)"
    have "acp_run_step observer redact r ?q"
      using k Requested by (intro acp_run_step.close_session) auto
    moreover have "\<exists>r'. acp_run_reach observer redact ?q r' \<and> main r' = RunStopping \<and> watcher r' = WatchDone"
      by (rule closing) (use k assms in \<open>simp_all add: interrupt_stage_at_def close_request_def Let_def\<close>)
    ultimately show ?thesis using run_then by blast
  next
    case Closing
    with closing [of r] k assms show ?thesis by blast
  next
    case (Answered err)
    with ack [of r] k assms show ?thesis by blast
  qed
next
  case WatchIdle
  with assms(2) show ?thesis by simp
qed

fun input_weight :: "input_pc \<Rightarrow> nat" where
  "input_weight (InputAdmitted data) = 3"
| "input_weight InputWritten = 2"
| "input_weight InputPrompting = 1"

lemma inputs_leave:
  "\<exists>r'. acp_run_reach observer redact r r' \<and> main r' = main r \<and> inputs r' = []"
proof (induction "sum_list (map input_weight (inputs r))"
    arbitrary: r rule: less_induct)
  case less
  show ?case
  proof (cases "inputs r")
    case Nil
    then show ?thesis using acp_run_reach.start by blast
  next
    case (Cons pc pcs)
    obtain r' where "acp_run_step observer redact r r'" "main r' = main r"
      "(sum_list (map input_weight (inputs r'))) <
       (sum_list (map input_weight (inputs r)))"
    proof (cases pc)
      case (InputAdmitted d)
      show ?thesis
        by (rule that [OF acp_run_step.write_input [where k = 0 and data = d]])
          (simp_all add: Cons InputAdmitted input_write_def emit_out_def)
    next
      case InputWritten
      show ?thesis
        by (rule that [OF acp_run_step.prompt_input [where k = 0]])
          (simp_all add: Cons InputWritten input_prompt_def remove_at_def split: option.split)
    next
      case InputPrompting
      show ?thesis
        by (rule that [OF acp_run_step.return_input [where k = 0]])
          (simp_all add: Cons InputPrompting input_return_def remove_at_def)
    qed
    with less.hyps [of r'] show ?thesis using run_then by metis
  qed
qed

fun forward_weight :: "forward_pc \<Rightarrow> nat" where
  "forward_weight ForwardDone = 0"
| "forward_weight ForwardReading = 1"
| "forward_weight ForwardIdle = 0"
| "forward_weight (ForwardEmitting aos) = length aos + 2"

definition events_weight :: "(string \<Rightarrow> string \<Rightarrow> finding option) option \<Rightarrow> event list \<Rightarrow> nat" where
  "events_weight observer evs = sum_list (map (\<lambda>ev. length (forward_outs observer (ev, 0)) + 3) evs)"

lemma forwarder_ends:
  assumes "eventsClosed (sess r)" and "forwarder r \<noteq> ForwardIdle"
  shows "\<exists>r'. acp_run_reach observer redact r r' \<and> main r' = main r \<and> forwarder r' = ForwardDone"
  using assms
proof (induction "forward_weight (forwarder r) + events_weight observer (events (sess r))"
    arbitrary: r rule: less_induct)
  case less
  show ?case
  proof (cases "forwarder r")
    case ForwardDone
    then show ?thesis using acp_run_reach.start by blast
  next
    case ForwardReading
    show ?thesis
    proof (cases "events (sess r)")
      case Nil
      with run_one [OF acp_run_step.events_over, OF ForwardReading Nil less.prems(1)]
      show ?thesis by (intro exI [of _ "r\<lparr>forwarder := ForwardDone\<rparr>"]) simp
    next
      case (Cons ev evs)
      have len: "length (forward_outs observer (ev, n)) = length (forward_outs observer (ev, 0))" for n
        by (auto simp: forward_outs_def Let_def observeACPToolUsePolicy_def split: option.split)
      have "\<exists>r'. acp_run_reach observer redact (forward_take observer r) r' \<and>
          main r' = main (forward_take observer r) \<and> forwarder r' = ForwardDone"
        by (rule less.hyps)
          (use ForwardReading Cons less.prems len [of "newIDs r"] in \<open>simp_all add: forward_take_def events_weight_def\<close>)
      moreover have "acp_run_step observer redact r (forward_take observer r)"
        using ForwardReading Cons by (intro acp_run_step.take_event) auto
      ultimately show ?thesis using run_then by (metis forward_take_frame(1))
    qed
  next
    case (ForwardEmitting aos)
    have "acp_run_step observer redact r (forward_emit r)"
      by (rule acp_run_step.emit_event [OF ForwardEmitting])
    then show ?thesis
      using less.hyps [of "forward_emit r"] less.prems ForwardEmitting run_then [of observer redact r "forward_emit r"]
      by (cases aos) (auto simp: forward_emit_def emit_out_def)
  next
    case ForwardIdle
    with less.prems(2) show ?thesis by simp
  qed
qed

text \<open>
  C22. A run tells its host everything, unless its first prompt fails. Take a session whose
  launch was committed with none of its events received, and any interleaving of its
  goroutines with the wrapper's. When \<open>Run\<close> has returned past its wait for the session, every
  event the session published was emitted, in the order of publication, each with its
  follow-up events; there are as many \<open>process.exited\<close> events as the session published, but
  at least one, so one was added exactly where the session reported none; and no input is
  under way. The other return, \<open>RunAborted\<close>, needs \<open>AutoFireFirstTurn\<close>: the first prompt
  failed, and then none of the session's events was emitted and no \<open>process.exited\<close> either,
  only \<open>stdin.write\<close> and interrupt events of the host's own calls. After both, input is refused.
\<close>

theorem acp_run_tells_everything:
  assumes "published s = events s"
    and "acp_run_reach observer redact (new_acp_run auto s) r"
    and "main r = RunReturned \<or> main r = RunAborted"
  shows "input_admit data r = None \<and>
    (if main r = RunReturned
     then \<exists>evns. map fst evns = published (sess r) \<and>
        subseq (concat (map (forward_outs observer) evns)) (outs r) \<and>
        length (filter is_exit (outs r)) =
          max 1 (length (filter (\<lambda>ev. ev_Kind ev = KindProcessExited) (published (sess r)))) \<and>
        inputs r = []
     else auto \<and> list_all host_out (outs r))"
proof (cases "main r = RunReturned")
  case True
  have inv: "acp_inv observer auto r" using acp_inv_reach [OF assms(2) acp_inv_new [OF assms(1)]] .
  then have fwd: "forwarder r = ForwardDone" and ins: "inputs r = []" "inputsClosed r"
    using True by (auto simp: acp_inv_def inv_main_def)
  with inv have pub: "published (sess r) = map fst (received r)"
    and all: "forwarded r = concat (map (forward_outs observer) (received r))" "subseq (forwarded r) (outs r)"
    by (auto simp: acp_inv_def inv_received_def inv_forwarded_def)
  have "length (filter is_exit (outs r)) = max 1 (length (filter is_exit (forwarded r)))"
    using inv True by (simp add: acp_inv_def inv_exits_def)
  with pub all ins True show ?thesis
    by (auto simp: forwarded_exits input_admit_def intro!: exI [of _ "received r"])
next
  case False
  with assms(3) acp_inv_reach [OF assms(2) acp_inv_new [OF assms(1)]]
  show ?thesis by (auto simp: acp_inv_def inv_main_def inv_early_def input_admit_def)
qed

subsection \<open>Returning\<close>

text \<open>A run whose session is done, with what the proof needs of it; it stays so.\<close>

definition run_over :: "acp_run \<Rightarrow> bool" where
  "run_over r \<longleftrightarrow> session_inv (sess r) \<and> doneClosed (sess r) \<and> inv_watch r \<and>
     (\<exists>auto. inv_early auto r) \<and> \<not> early (main r)"

lemma not_early_step: "acp_run_step observer redact r r' \<Longrightarrow> \<not> early (main r) \<Longrightarrow> \<not> early (main r')"
  by (induction rule: acp_run_step.induct)
    (auto simp: run_defs input_prompt_def split: option.splits if_splits)

lemma run_over_reach: "acp_run_reach observer redact r r' \<Longrightarrow> run_over r \<Longrightarrow> run_over r'"
proof (induction rule: acp_run_reach.induct)
  case (step r r' r'')
  then have "session_inv (sess r'')"
    using acp_run_session [OF step.hyps(2)]
    by (auto simp: run_over_def intro: session_inv_step session_inv_prompt_return)
  with step show ?case
    by (auto simp: run_over_def intro: inv_watch_step acp_run_done inv_early_step dest: not_early_step)
qed

lemma run_overD:
  assumes "run_over r"
  shows "eventsClosed (sess r)" "closeOnce (sess r) = OnceDone" "wait_result (sess r) = Some (serr (sess r))"
    "forwarder r \<noteq> ForwardIdle" "watcher r \<noteq> WatchIdle" "\<not> early (main r)"
  using assms
  by (auto simp: run_over_def inv_early_def session_inv_def inv_finish_def phase_order wait_result_def)

lemma run_advances:
  assumes "run_over r" "main r \<noteq> RunReturned"
  shows "\<exists>r'. acp_run_reach observer redact r r' \<and> phase_of (main r) < phase_of (main r')"
proof (cases "main r")
  case RunWaiting
  have "acp_run_step observer redact r (r\<lparr>main := RunStopping\<rparr>)"
    by (rule acp_run_step.waited [OF RunWaiting run_overD(3) [OF assms(1)]])
  then show ?thesis using RunWaiting by (intro exI [of _ "r\<lparr>main := RunStopping\<rparr>"]) (auto intro: run_one)
next
  case RunStopping
  obtain q where q: "acp_run_reach observer redact r q" "main q = RunStopping" "watcher q = WatchDone"
    using watch_joins [OF RunStopping] assms(1) run_overD(2,5) [OF assms(1)] by (auto simp: run_over_def)
  with acp_run_reach.step [OF q(1) acp_run_step.joined] RunStopping show ?thesis by fastforce
next
  case RunJoined
  have "acp_run_step observer redact r ((closeInputAdmission r)\<lparr>main := RunDraining\<rparr>)"
    by (rule acp_run_step.close_inputs [OF RunJoined])
  then show ?thesis using RunJoined
    by (intro exI [of _ "(closeInputAdmission r)\<lparr>main := RunDraining\<rparr>"]) (auto intro: run_one)
next
  case RunDraining
  obtain q where q: "acp_run_reach observer redact r q" "main q = RunDraining" "inputs q = []"
    using inputs_leave [of observer redact r] RunDraining by auto
  with acp_run_reach.step [OF q(1) acp_run_step.inputs_over] RunDraining show ?thesis by fastforce
next
  case RunEvents
  obtain q where q: "acp_run_reach observer redact r q" "main q = RunEvents" "forwarder q = ForwardDone"
    using forwarder_ends [OF run_overD(1,4) [OF assms(1)], of observer redact] RunEvents by auto
  with acp_run_reach.step [OF q(1) acp_run_step.events_done] RunEvents show ?thesis by fastforce
next
  case RunFinal
  have "acp_run_step observer redact r ((final_exit r)\<lparr>main := RunClearing\<rparr>)"
    by (rule acp_run_step.final [OF RunFinal])
  then show ?thesis using RunFinal
    by (intro exI [of _ "(final_exit r)\<lparr>main := RunClearing\<rparr>"]) (auto intro: run_one)
next
  case RunClearing
  have "acp_run_step observer redact r ((clearACPSession r)\<lparr>main := RunReturned\<rparr>)"
    by (rule acp_run_step.clear [OF RunClearing])
  then show ?thesis using RunClearing
    by (intro exI [of _ "(clearACPSession r)\<lparr>main := RunReturned\<rparr>"]) (auto intro: run_one)
next
  case RunReturned
  with assms(2) show ?thesis by simp
qed (use run_overD(6) [OF assms(1)] in simp_all)

lemma run_returns:
  "run_over r \<Longrightarrow> \<exists>r'. acp_run_reach observer redact r r' \<and> main r' = RunReturned"
proof (induction "7 - phase_of (main r)" arbitrary: r rule: less_induct)
  case less
  show ?case
  proof (cases "main r = RunReturned")
    case True
    then show ?thesis using acp_run_reach.start by blast
  next
    case False
    obtain q where q: "acp_run_reach observer redact r q" "phase_of (main r) < phase_of (main q)"
      using run_advances [OF less.prems False] by blast
    have "phase_of (main q) \<le> 7" by (cases "main q") simp_all
    with q less.hyps [of q] run_over_reach [OF q(1) less.prems] show ?thesis
      using acp_run_reach_trans [of observer redact q _ r] by (metis diff_less_mono2 less_le_trans)
  qed
qed

subsection \<open>Witnesses\<close>

text \<open>A committed session that is idle is closed in these steps, and none of its events is lost.\<close>

definition quiet_step :: "session \<Rightarrow> session \<Rightarrow> bool" where
  "quiet_step s s' \<longleftrightarrow> session_step (\<lambda>x. x) s s' \<and> events s' = events s"

lemma quiet_reach: "quiet_step\<^sup>*\<^sup>* s s' \<Longrightarrow> session_reach (\<lambda>x. x) s s'"
  by (induction rule: rtranclp_induct) (auto simp: quiet_step_def intro: session_reach.intros)

lemma quiet_run:
  "quiet_step\<^sup>*\<^sup>* s s' \<Longrightarrow> sess r = s \<Longrightarrow> acp_run_reach observer (\<lambda>x. x) r (r\<lparr>sess := s'\<rparr>)"
proof (induction rule: rtranclp_induct)
  case base
  then have "r\<lparr>sess := s\<rparr> = r" by simp
  then show ?case using acp_run_reach.start [of observer "\<lambda>x. x" r] by simp
next
  case (step s' s'')
  have "acp_run_step observer (\<lambda>x. x) (r\<lparr>sess := s'\<rparr>) ((r\<lparr>sess := s'\<rparr>)\<lparr>sess := s''\<rparr>)"
    by (rule acp_run_step.session [where evs = "[]"]) (use step.hyps(2) in \<open>simp_all add: quiet_step_def\<close>)
  with acp_run_reach.step [OF step.IH [OF step.prems]] show ?case by simp
qed

lemma closes_quietly:
  assumes "closeOnce s = OnceFresh" "launchDone s" "drain s = DrainReading" "finishOnce s = FinishNot"
    "emitters s = []"
  shows "\<exists>s'. quiet_step\<^sup>*\<^sup>* (close_request s) s' \<and> doneClosed s' \<and> closeOnce s' = OnceDone \<and>
    published s' = published s \<and> events s' = events s"
proof -
  let ?s1 = "close_request s"
  let ?s2 = "close_client_call ?s1"
  let ?s3 = "close_client_return None ?s2"
  let ?s4 = "?s3\<lparr>drain := DrainEnded\<rparr>"
  let ?s5 = "?s4\<lparr>finishOnce := FinishClosing\<rparr>"
  let ?s6 = "(fix_terminal ?s5)\<lparr>finishOnce := FinishFixed\<rparr>"
  let ?s7 = "?s6\<lparr>finishOnce := FinishUnregistered\<rparr>"
  let ?s8 = "(close_events ?s7)\<lparr>finishOnce := FinishEvents\<rparr>"
  let ?s9 = "(close_diagnostics ?s8)\<lparr>finishOnce := FinishDiagnostics\<rparr>"
  let ?s10 = "(close_done ?s9)\<lparr>finishOnce := FinishDone\<rparr>"
  note simps = assms step_defs Let_def
  have 2: "session_step (\<lambda>x. x) ?s1 ?s2" by (rule session_step.client_close) (simp_all add: simps)
  have 3: "session_step (\<lambda>x. x) ?s2 ?s3" by (rule session_step.client_closed) (simp add: simps)
  have 4: "session_step (\<lambda>x. x) ?s3 ?s4" by (rule session_step.eof) (simp add: simps)
  have 5: "session_step (\<lambda>x. x) ?s4 ?s5" by (rule session_step.finish_start) (simp_all add: simps)
  have 6: "session_step (\<lambda>x. x) ?s5 ?s6" by (rule session_step.finish_fix) (simp_all add: simps)
  have 7: "session_step (\<lambda>x. x) ?s6 ?s7" by (rule session_step.finish_unregister) simp
  have 8: "session_step (\<lambda>x. x) ?s7 ?s8" by (rule session_step.finish_events) simp
  have 9: "session_step (\<lambda>x. x) ?s8 ?s9" by (rule session_step.finish_diagnostics) simp
  have 10: "session_step (\<lambda>x. x) ?s9 ?s10" by (rule session_step.finish_done) (simp_all add: simps)
  note ev = quiet_step_def step_defs Let_def
  have "quiet_step ?s1 ?s2" "quiet_step ?s2 ?s3" "quiet_step ?s3 ?s4" "quiet_step ?s4 ?s5"
    "quiet_step ?s5 ?s6" "quiet_step ?s6 ?s7" "quiet_step ?s7 ?s8" "quiet_step ?s8 ?s9" "quiet_step ?s9 ?s10"
    using 2 3 4 5 6 7 8 9 10 unfolding quiet_step_def
    by (auto simp: close_client_call_def close_client_return_def fix_terminal_def close_events_def
        close_diagnostics_def close_done_def Let_def)
  then have "quiet_step\<^sup>*\<^sup>* ?s1 ?s10"
    by (meson converse_rtranclp_into_rtranclp rtranclp.rtrancl_refl)
  moreover have "doneClosed ?s10" "closeOnce ?s10 = OnceDone" "published ?s10 = published s" "events ?s10 = events s"
    by (simp_all add: simps)
  ultimately show ?thesis by blast
qed

text \<open>
  Two runs: a session closed right after its launch, which published nothing, and one whose
  client refuses the first prompt after the session has published an event.
\<close>

definition ex_event :: event where
  "ex_event = \<lparr>ev_ID = ''e1'', ev_ParentID = [], ev_Kind = KindOther ''session.metadata'', ev_SessionID = [],
     ev_TurnID = [], ev_Provider = [], ev_Payload = None\<rparr>"

definition ex_told :: session where
  "ex_told = Lifecycle.publish ex_event (launched ''a'')"

lemma closed_run:
  "\<exists>s r. session_reach (\<lambda>x. x) (new_session ''a'') s \<and> published s = events s \<and>
     acp_run_reach None (\<lambda>x. x) (new_acp_run False s) r \<and> main r = RunReturned"
proof -
  obtain s where s: "quiet_step\<^sup>*\<^sup>* (close_request (launched ''a'')) s" "doneClosed s"
    "published s = []" "events s = []"
    using closes_quietly [of "launched ''a''"] by (auto simp: launched_def new_session_def)
  have "session_reach (\<lambda>x. x) (new_session ''a'') (close_request (launched ''a''))"
    by (rule session_reach.step [OF launched_reach session_step.close])
  from reach_trans [OF quiet_reach [OF s(1)] this] have reach: "session_reach (\<lambda>x. x) (new_session ''a'') s" .
  have "run_over (new_acp_run False s)"
    using s session_inv_reach [OF reach session_inv_new]
    by (auto simp: run_over_def new_acp_run_def start_forwarding_def inv_watch_def inv_early_def Let_def)
  then show ?thesis using run_returns reach s by metis
qed

lemma aborted_run:
  "\<exists>r. acp_run_reach None (\<lambda>x. x) (new_acp_run True ex_told) r \<and> main r = RunAborted"
proof -
  let ?r0 = "new_acp_run True ex_told"
  let ?r1 = "first_prompt ?r0"
  let ?r2 = "first_return (Some (OtherError ''refused'')) ?r1"
  let ?s2 = "sess ?r2"
  let ?r3 = "?r2\<lparr>sess := close_request ?s2, main := RunFirstClosing\<rparr>"
  note init = new_acp_run_def ex_told_def launched_def new_session_def first_prompt_def prompt_begin_def
    first_return_def prompt_return_def publish_def eventsCap_def Let_def
  have 1: "acp_run_step None (\<lambda>x. x) ?r0 ?r1" by (rule acp_run_step.first_prompted) (simp add: init)
  have 2: "acp_run_step None (\<lambda>x. x) ?r1 ?r2" by (rule acp_run_step.first_returned) (simp add: init)
  have 3: "acp_run_step None (\<lambda>x. x) ?r2 ?r3" by (rule acp_run_step.first_close) (simp add: init)
  have idle: "closeOnce ?s2 = OnceFresh" "launchDone ?s2" "drain ?s2 = DrainReading"
    "finishOnce ?s2 = FinishNot" "emitters ?s2 = []"
    by (simp_all add: init)
  obtain s where s: "quiet_step\<^sup>*\<^sup>* (close_request ?s2) s" "doneClosed s" "closeOnce s = OnceDone"
    using closes_quietly [OF idle] by blast
  let ?r4 = "?r3\<lparr>sess := s\<rparr>"
  let ?r5 = "?r4\<lparr>main := RunFirstClearing\<rparr>"
  let ?r6 = "(clearACPSession ?r5)\<lparr>main := RunAborted\<rparr>"
  have "acp_run_reach None (\<lambda>x. x) ?r3 ?r4" by (rule quiet_run [OF s(1)]) simp
  moreover have "acp_run_step None (\<lambda>x. x) ?r4 ?r5"
    by (rule acp_run_step.first_closed [where err = "closeErr s"]) (simp_all add: close_result_def s)
  moreover have "acp_run_step None (\<lambda>x. x) ?r5 ?r6" by (rule acp_run_step.first_clear) simp
  ultimately have "acp_run_reach None (\<lambda>x. x) ?r3 ?r6" by (blast intro: acp_run_reach.step)
  with 1 2 3 have "acp_run_reach None (\<lambda>x. x) ?r0 ?r6" by (blast intro: run_then)
  then show ?thesis by (intro exI [of _ ?r6]) simp
qed

theorem acp_run_tells_everything_witness:
  "(\<exists>s r. session_reach (\<lambda>x. x) (new_session ''a'') s \<and> acp_run_reach None (\<lambda>x. x) (new_acp_run False s) r \<and>
      main r = RunReturned \<and> filter is_exit (outs r) \<noteq> []) \<and>
   (\<exists>r. acp_run_reach None (\<lambda>x. x) (new_acp_run True ex_told) r \<and> main r = RunAborted \<and>
      events ex_told = [ex_event] \<and> list_all host_out (outs r))"
proof
  obtain s r where s: "session_reach (\<lambda>x. x) (new_session ''a'') s" "published s = events s"
    and r: "acp_run_reach None (\<lambda>x. x) (new_acp_run False s) r" "main r = RunReturned"
    using closed_run by blast
  from acp_run_tells_everything [OF s(2) r(1), where data = "''x''"] r(2)
  have "filter is_exit (outs r) \<noteq> []" by auto
  with s r show "\<exists>s r. session_reach (\<lambda>x. x) (new_session ''a'') s \<and>
      acp_run_reach None (\<lambda>x. x) (new_acp_run False s) r \<and> main r = RunReturned \<and> filter is_exit (outs r) \<noteq> []"
    by blast
next
  have told: "published ex_told = events ex_told" "events ex_told = [ex_event]"
    by (simp_all add: ex_told_def publish_def launched_def new_session_def eventsCap_def)
  obtain r where r: "acp_run_reach None (\<lambda>x. x) (new_acp_run True ex_told) r" "main r = RunAborted"
    using aborted_run by blast
  with acp_run_tells_everything [OF told(1) r(1), where data = "''x''"] told(2)
  show "\<exists>r. acp_run_reach None (\<lambda>x. x) (new_acp_run True ex_told) r \<and> main r = RunAborted \<and>
      events ex_told = [ex_event] \<and> list_all host_out (outs r)" by auto
qed

end
