(* ===== verification/Copilot_Client.thy ===== *)
theory Copilot_Client
  imports Bridge_Client
begin

text \<open>
  The client of GitHub Copilot, \<open>adapters/copilotacp/client.go\<close>: its state and the sections of
  its methods and goroutines. It has a connection of its own, a child's pipes or a socket,
  and shares with the bridge client only what a frame is, the permission coordinator and the
  transport coordinator; so the data of \<open>Bridge_Client\<close> are used again and the state is new.
  Turn ids, request ids and response channels are numbers in the order of their creation.
  Where no responder is configured the coordinator is nil: it is one that is never asked.
\<close>

subsection \<open>State\<close>

text \<open>What a response channel gives: a frame, or nothing where it was closed.\<close>

datatype wire_answer = WireResult raw | WireError rpc_error | WireClosed

text \<open>A turn: \<open>Prompt\<close> until its request is written, then \<open>awaitPromptResult\<close>; where the write
  fails, \<open>Prompt\<close> tells of the turn, leaves the wait group and only then ends the turn.\<close>

datatype copilot_turn_pc =
    CopilotNone
  | CopilotStarting
  | CopilotCalling
  | CopilotWriting nat
  | CopilotAwaiting nat
  | CopilotEnding wire_answer
  | CopilotWaits nat nat wire_answer
  | CopilotClearing wire_answer
  | CopilotReporting wire_answer
  | CopilotReported wire_answer
  | CopilotFailing string
  | CopilotFailed string
  | CopilotFailEnding string
  | CopilotFailWaits nat nat string
  | CopilotFailClearing string
  | CopilotOver "string + wire_answer"

datatype copilot_launch_pc =
    CopilotFresh | CopilotCalled | CopilotConnected | CopilotStarted | CopilotTalking
  | CopilotNegotiated | CopilotOpened string | CopilotBound | CopilotLaunched | CopilotUnlaunched

text \<open>\<open>Close\<close>: the flags are whether it found permissions and a started connection.\<close>

datatype copilot_close_pc =
    CloseNot | CloseAsked bool bool | CloseQuieted bool | CloseGated bool | CloseForced bool
  | CloseCuts bool | CloseDrains | CloseSeals | CloseOver

record copilot =
  cp_launch :: copilot_launch_pc
  cp_spawned :: bool
  cp_closed :: bool
  cp_session :: string
  cp_systemPrompt :: string
  cp_sessionClose :: bool
  cp_eventsClosing :: bool
  cp_events :: "bridge_event list"
  cp_eventsClosed :: bool
  cp_attempted :: "bridge_event list"
  cp_nextID :: nat
  cp_pending :: "nat \<rightharpoonup> bool"
  cp_answers :: "nat \<rightharpoonup> wire_answer"
  cp_otherPC :: "nat \<Rightarrow> other_pc"
  cp_inFlight :: "nat option"
  cp_turns :: nat
  cp_turnWG :: nat
  cp_turnPC :: "nat \<Rightarrow> copilot_turn_pc"
  cp_text :: "nat \<Rightarrow> string"
  cp_wire :: "any_value list"
  cp_conn :: bool
  cp_once :: bool
  transportClosed :: bool
  cp_gate :: gate_holder
  cp_reader :: reader_pc
  cp_malformed :: bool
  cp_askedIn :: "nat \<Rightarrow> nat option"
  cp_askedID :: "nat \<Rightarrow> raw"
  cp_term :: transport
  cp_termPC :: term_pc
  cp_close :: copilot_close_pc
  cp_perms :: permissions

definition NewCopilotClient :: "bool \<Rightarrow> bool \<Rightarrow> copilot" where
  "NewCopilotClient responder spawned = \<lparr>cp_launch = CopilotFresh, cp_spawned = spawned, cp_closed = False,
     cp_session = [], cp_systemPrompt = [], cp_sessionClose = False, cp_eventsClosing = False, cp_events = [],
     cp_eventsClosed = False, cp_attempted = [], cp_nextID = 0, cp_pending = Map.empty, cp_answers = Map.empty,
     cp_otherPC = (\<lambda>_. OtherNone), cp_inFlight = None, cp_turns = 0, cp_turnWG = 0,
     cp_turnPC = (\<lambda>_. CopilotNone), cp_text = (\<lambda>_. []), cp_wire = [], cp_conn = False, cp_once = False,
     transportClosed = False,
     cp_gate = GateFree, cp_reader = ReaderIdle, cp_malformed = False, cp_askedIn = (\<lambda>_. None),
     cp_askedID = (\<lambda>_. None), cp_term = NewTransportTermination spawned, cp_termPC = TermIdle,
     cp_close = CloseNot, cp_perms = new_permissions responder\<rparr>"

subsection \<open>Events\<close>

definition pushEvent :: "bridge_event \<Rightarrow> copilot \<Rightarrow> copilot" where
  "pushEvent e s =
     (if cp_eventsClosed s then s
      else if length (cp_events s) < eventsCapacity
      then s\<lparr>cp_events := cp_events s @ [e], cp_attempted := cp_attempted s @ [e]\<rparr>
      else s\<lparr>cp_attempted := cp_attempted s @ [e]\<rparr>)"

definition stop_reason_of :: "raw \<Rightarrow> string" where
  "stop_reason_of result = snd (unmarshal (dec_struct [(''stopReason'', \<lambda>j s. dec_string j s)]) result [])"

text \<open>The event of \<open>awaitPromptResult\<close>; \<open>norm_stop\<close> is \<open>llmtypes.NormalizeStopReason\<close>.\<close>

definition prompt_event :: "(string \<Rightarrow> string) \<Rightarrow> nat \<Rightarrow> wire_answer \<Rightarrow> bridge_event" where
  "prompt_event norm_stop t a =
     (let failed = (\<lambda>e. event_of KindTurnFailed (Some t)
            (Some (AnyObject [(''error'', AnyString e), (''stop_reason'', AnyString ''error'')])))
      in case a of
           WireClosed \<Rightarrow> failed ''connection closed before session/prompt response''
         | WireError e \<Rightarrow> failed (rpc_Message e)
         | WireResult r \<Rightarrow> event_of KindTurnCompleted (Some t)
             (Some (AnyObject [(''stop_reason'', AnyString (norm_stop (stop_reason_of r)))])))"

definition failTurn :: "nat \<Rightarrow> string \<Rightarrow> bridge_event" where
  "failTurn t err = event_of KindTurnFailed (Some t) (Some (AnyObject [(''error'', AnyString err)]))"

subsection \<open>The transport\<close>

text \<open>\<open>closeTransport\<close> runs once: it closes the connection there is then. The model closes it
  with the once.\<close>

definition closeTransport :: "copilot \<Rightarrow> copilot" where
  "closeTransport s = (if cp_once s then s else s\<lparr>cp_once := True, transportClosed := cp_conn s\<rparr>)"

definition close_if :: "bool \<Rightarrow> copilot \<Rightarrow> copilot" where
  "close_if b s = (if b then closeTransport s else s)"

subsection \<open>Calls\<close>

definition drop_call :: "nat \<Rightarrow> copilot \<Rightarrow> copilot" where
  "drop_call i s = s\<lparr>cp_pending := (cp_pending s)(i := None)\<rparr>"

definition begin_call :: "bool \<Rightarrow> copilot \<Rightarrow> copilot \<times> nat" where
  "begin_call prompt s =
     (let i = Suc (cp_nextID s) in (s\<lparr>cp_nextID := i, cp_pending := (cp_pending s)(i \<mapsto> prompt)\<rparr>, i))"

definition wire_answer_of :: "raw \<Rightarrow> rpc_error option \<Rightarrow> rpc_answer" where
  "wire_answer_of result err = (case err of Some e \<Rightarrow> Answer_Error e | None \<Rightarrow> Answer_Result result)"

fun wire_of :: "rpc_answer \<Rightarrow> wire_answer" where
  "wire_of (Answer_Result r) = WireResult r"
| "wire_of (Answer_Error e) = WireError e"

text \<open>\<open>deliverResponse\<close> up to its first blocking point, with the id \<open>handleLine\<close> read.\<close>

definition copilot_response :: "raw \<Rightarrow> raw \<Rightarrow> rpc_error option \<Rightarrow> copilot \<Rightarrow> copilot" where
  "copilot_response x result err s =
     (case response_id x of
        None \<Rightarrow> s\<lparr>cp_malformed := True\<rparr>
      | Some n \<Rightarrow>
          (let i = nat n in
           case (if n < 0 then None else cp_pending s i) of
             None \<Rightarrow> s
           | Some prompt \<Rightarrow> (drop_call i s)\<lparr>cp_reader := Routing i prompt (wire_answer_of result err)\<rparr>))"

text \<open>\<open>onReaderClosed\<close> closes every channel of the table.\<close>

definition onReaderClosed :: "copilot \<Rightarrow> copilot" where
  "onReaderClosed s = s\<lparr>cp_pending := Map.empty,
     cp_answers := (\<lambda>i. if cp_pending s i \<noteq> None then Some WireClosed else cp_answers s i)\<rparr>"

subsection \<open>Turns\<close>

definition copilot_at :: "nat \<Rightarrow> copilot_turn_pc \<Rightarrow> copilot \<Rightarrow> copilot" where
  "copilot_at t x s = s\<lparr>cp_turnPC := (cp_turnPC s)(t := x)\<rparr>"

definition copilot_coord :: "(coordinator \<Rightarrow> coordinator) \<Rightarrow> copilot \<Rightarrow> copilot" where
  "copilot_coord f s = s\<lparr>cp_perms := in_coord f (cp_perms s)\<rparr>"

datatype copilot_error = ClientClosed | TransportEnded | ErrNotLaunched | ErrTurnInFlight

definition copilot_prompt :: "string \<Rightarrow> copilot \<Rightarrow> copilot_error + copilot" where
  "copilot_prompt prompt s =
     (if cp_closed s then Inl ClientClosed
      else if cp_eventsClosing s then Inl TransportEnded
      else if cp_session s = [] then Inl ErrNotLaunched
      else if cp_inFlight s \<noteq> None then Inl ErrTurnInFlight
      else
        (let t = cp_turns s in
         Inr ((copilot_coord BeginTurn s)\<lparr>cp_systemPrompt := [], cp_inFlight := Some t, cp_turns := Suc t,
           cp_turnWG := cp_turnWG s + 1, cp_turnPC := (cp_turnPC s)(t := CopilotStarting),
           cp_text := (cp_text s)(t := prompt_text (cp_systemPrompt s) prompt), cp_gate := HeldByPrompt t\<rparr>)))"

definition copilot_call :: "nat \<Rightarrow> copilot \<Rightarrow> copilot" where
  "copilot_call t s = (let (s1, i) = begin_call True s in copilot_at t (CopilotWriting i) s1)"

definition copilot_written :: "nat \<Rightarrow> nat \<Rightarrow> copilot \<Rightarrow> copilot" where
  "copilot_written t i s = (copilot_at t (CopilotAwaiting i) s)\<lparr>cp_gate := GateFree,
     cp_wire := cp_wire s @ [prompt_frame i (cp_session s) (cp_text s t)]\<rparr>"

text \<open>A failed write drops the entry; where part of the frame went out it closes the transport.\<close>

definition copilot_unwritten :: "nat \<Rightarrow> nat \<Rightarrow> string \<Rightarrow> bool \<Rightarrow> copilot \<Rightarrow> copilot" where
  "copilot_unwritten t i err partly s =
     close_if partly (copilot_at t (CopilotFailing (''copilotacp: session/prompt: '' @ err)) (drop_call i s))"

text \<open>\<open>endTurn\<close>: \<open>EndTurn\<close> of the permissions, which may have to wait, and the turn cleared.\<close>

definition copilot_end_turn ::
  "nat \<Rightarrow> copilot_turn_pc \<Rightarrow> (nat \<Rightarrow> nat \<Rightarrow> copilot_turn_pc) \<Rightarrow> copilot \<Rightarrow> copilot" where
  "copilot_end_turn t clearing waits s =
     (let (p, w) = end_turn_close (coord (cp_perms s)) in
      copilot_at t (case w of None \<Rightarrow> clearing | Some (g, a) \<Rightarrow> waits g a) (copilot_coord (\<lambda>_. p) s))"

definition copilot_waited :: "nat \<Rightarrow> nat \<Rightarrow> nat \<Rightarrow> copilot_turn_pc \<Rightarrow> copilot \<Rightarrow> copilot" where
  "copilot_waited t g a clearing s = copilot_at t clearing (copilot_coord (end_turn_forget g a) s)"

definition copilot_clear :: "nat \<Rightarrow> copilot_turn_pc \<Rightarrow> copilot \<Rightarrow> copilot" where
  "copilot_clear t x s = (copilot_at t x s)\<lparr>cp_inFlight := None\<rparr>"

definition copilot_report :: "(string \<Rightarrow> string) \<Rightarrow> nat \<Rightarrow> wire_answer \<Rightarrow> copilot \<Rightarrow> copilot" where
  "copilot_report norm_stop t a s = copilot_at t (CopilotReported a) (pushEvent (prompt_event norm_stop t a) s)"

definition copilot_left :: "nat \<Rightarrow> copilot_turn_pc \<Rightarrow> copilot \<Rightarrow> copilot" where
  "copilot_left t x s = (copilot_at t x s)\<lparr>cp_turnWG := cp_turnWG s - 1\<rparr>"

text \<open>The end of a prompt that failed: the turn is cleared and the gate given back.\<close>

definition copilot_failed :: "nat \<Rightarrow> string \<Rightarrow> copilot \<Rightarrow> copilot" where
  "copilot_failed t err s = (copilot_clear t (CopilotOver (Inl err)) s)\<lparr>cp_gate :=
     (if cp_gate s = HeldByPrompt t then GateFree else cp_gate s)\<rparr>"

subsection \<open>Requests of the agent\<close>

definition respondUnsupported :: "string \<Rightarrow> rpc_error" where
  "respondUnsupported m = no_rpc_error\<lparr>Code := -32601,
     rpc_Message := ''copilotacp: no handler for server-initiated method '' @ m\<rparr>"

definition copilot_active :: "nat \<Rightarrow> copilot \<Rightarrow> bool" where
  "copilot_active k s \<longleftrightarrow> adm_active (adm (calls (cp_perms s) ! k))"

definition copilot_admitted :: "nat \<Rightarrow> rpc_frame \<Rightarrow> copilot \<Rightarrow> copilot" where
  "copilot_admitted k frame s =
     (if copilot_active k s
      then pushEvent (requested_event frame (cp_inFlight s)) (s\<lparr>cp_askedIn := (cp_askedIn s)(k := cp_inFlight s)\<rparr>)
      else s)"

definition copilot_deliver ::
  "nat \<Rightarrow> resolution \<Rightarrow> nat option \<Rightarrow> go_error option \<Rightarrow> copilot \<Rightarrow> copilot" where
  "copilot_deliver k r oi err s =
     (let s1 = s\<lparr>cp_perms := deliver_call k r oi err (cp_perms s)\<rparr>;
          s2 = (if err = None
                then s1\<lparr>cp_wire := cp_wire s1 @ [response_frame (cp_askedID s k) (Inr (Result r))]\<rparr> else s1);
          i = id_value (cp_askedID s k)
      in if copilot_active k s
         then pushEvent (event_of KindAgentPermissionResolved (cp_askedIn s k)
                (Some (if err \<noteq> None then DeliveryFailureEventPayload i else ResolvedEventPayload r i))) s2
         else s2)"

text \<open>The end of a request; an undelivered answer runs \<open>abortPermissionTransport\<close>.\<close>

definition copilot_finish :: "nat \<Rightarrow> resolution \<Rightarrow> copilot \<Rightarrow> copilot" where
  "copilot_finish k r s =
     (let s1 = s\<lparr>cp_perms := in_coord (completeAdmission (adm (calls (cp_perms s) ! k)))
                 (at_call k (\<lambda>c. c\<lparr>pc := Over r\<rparr>) (cp_perms s))\<rparr>
      in close_if (responseErr r \<noteq> None) s1)"

subsection \<open>Termination\<close>

definition copilot_tell_exit :: "copilot \<Rightarrow> copilot" where
  "copilot_tell_exit s =
     (if ShouldEmitProcessExit (outcome (cp_term s)) then pushEvent (exit_event (outcome (cp_term s))) s else s)"

subsection \<open>The handshake\<close>

text \<open>\<open>Launch\<close> after the connection is there, as a conversation with any agent. The parts it has
  in common with the bridge client are the ones of \<open>Bridge_Handshake\<close>.\<close>

definition copilot_initialize_params :: "string \<Rightarrow> string \<Rightarrow> any_value" where
  "copilot_initialize_params name version = AnyObject
     [(''protocolVersion'', AnyNumber ''1''),
      (''clientCapabilities'', AnyObject
         [(''fs'', AnyObject [(''readTextFile'', AnyBool False), (''writeTextFile'', AnyBool False)]),
          (''terminal'', AnyBool False)]),
      (''clientInfo'', AnyObject [(''name'', AnyString name), (''version'', AnyString version)])]"

definition copilot_session_id :: "raw \<Rightarrow> string conversation" where
  "copilot_session_id result =
     (let (ok, i) = unmarshal (dec_struct [(''sessionId'', \<lambda>j s. dec_string j s)]) result []
      in if \<not> ok \<or> i = [] then fails (OtherError ''session/new: response missing sessionId'') else done_with i)"

definition copilot_open :: "agent \<Rightarrow> bridge_params \<Rightarrow> initialize_result \<Rightarrow> any_value list \<Rightarrow> string conversation" where
  "copilot_open ask ps init servers =
     (if resumes ps init
      then andThen (wrapping ''session/load'' (loadSession ask ps servers)) (\<lambda>_. done_with (SessionIDPreset ps))
      else andThen (wrapping ''session/new'' (Call ask ''session/new''
             (AnyObject [(''cwd'', AnyString (bp_Cwd ps)), (''mcpServers'', AnyArray servers)])))
           copilot_session_id)"

definition copilot_handshake :: "agent \<Rightarrow> string \<Rightarrow> string \<Rightarrow> bridge_params \<Rightarrow> established conversation" where
  "copilot_handshake ask name version ps =
     andThen (wrapping ''initialize'' (Call ask ''initialize'' (copilot_initialize_params name version))) (\<lambda>result.
     andThen (wrapping ''initialize negotiation'' (parse_initialize result)) (\<lambda>init.
     andThen (wrapping ''authenticate'' (authenticate ask init (AuthMethodID ps))) (\<lambda>_.
     andThen (mcp_servers ps init) (\<lambda>(servers, skipped).
     andThen (copilot_open ask ps init servers) (\<lambda>i.
     andThen (wrapping ''configure session'' (configureSession ask i ps)) (\<lambda>_.
     done_with \<lparr>est_sessionID = i, est_systemPrompt = bp_SystemPrompt ps,
       est_sessionClose = SessionClose init, est_skipped = skipped,
       est_events = [(KindSessionReady, None)]\<rparr>))))))"

end
