(* ===== verification/Copilot_Steps.thy ===== *)
theory Copilot_Steps
  imports Copilot_Client Bridge_Steps
begin

text \<open>
  The threads of the Copilot client as step relations: \<open>Launch\<close>; prompts, turns and cancels;
  the reader; the goroutines that answer permission requests; other calls and the host's
  receives; process exit, termination and \<open>Close\<close>. As in \<open>Bridge_Steps\<close>, what the agent sends,
  when a write fails or a timer ends, and which thread runs is free.
\<close>

subsection \<open>Launch\<close>

inductive copilot_launches :: "copilot \<Rightarrow> copilot \<Rightarrow> bool" where
  called: "cp_launch s = CopilotFresh \<Longrightarrow> copilot_launches s (s\<lparr>cp_launch := CopilotCalled\<rparr>)"
| connected: "cp_launch s = CopilotCalled \<Longrightarrow>
    copilot_launches s (s\<lparr>cp_launch := CopilotConnected, cp_conn := True\<rparr>)"
| launch_started: "cp_launch s = CopilotConnected \<Longrightarrow>
    copilot_launches s (s\<lparr>cp_launch := CopilotStarted, cp_reader := Reading\<rparr>)"
| launch_told: "cp_launch s = CopilotStarted \<Longrightarrow>
    copilot_launches s ((if cp_spawned s
        then pushEvent (event_of (KindOther ''process.started'') None (Some (AnyObject [(''pid'', pid)]))) s
        else s)\<lparr>cp_launch := CopilotTalking, cp_termPC := TermRuns\<rparr>)"
| negotiated: "cp_launch s = CopilotTalking \<Longrightarrow>
    copilot_launches s (s\<lparr>cp_launch := CopilotNegotiated, cp_sessionClose := b\<rparr>)"
| opened: "cp_launch s = CopilotNegotiated \<Longrightarrow> i \<noteq> [] \<Longrightarrow>
    copilot_launches s (s\<lparr>cp_launch := CopilotOpened i, cp_session := i, cp_systemPrompt := sys\<rparr>)"
| bound: "cp_launch s = CopilotOpened i \<Longrightarrow>
    copilot_launches s (copilot_coord (SetSessionID i) (s\<lparr>cp_launch := CopilotBound\<rparr>))"
| ready: "cp_launch s = CopilotBound \<Longrightarrow>
    copilot_launches s (pushEvent (event_of KindSessionReady None None) (s\<lparr>cp_launch := CopilotLaunched\<rparr>))"
| not_launched: "cp_launch s \<in> {CopilotCalled, CopilotTalking, CopilotNegotiated, CopilotBound} \<Longrightarrow>
    copilot_launches s (s\<lparr>cp_launch := CopilotUnlaunched\<rparr>)"

subsection \<open>Prompts, turns and cancels\<close>

inductive copilot_turns :: "(string \<Rightarrow> string) \<Rightarrow> copilot \<Rightarrow> copilot \<Rightarrow> bool" for norm_stop where
  prompt: "cp_gate s = GateFree \<Longrightarrow> copilot_prompt p s = Inr s' \<Longrightarrow> copilot_turns norm_stop s s'"
| prompt_refused: "cp_gate s = GateFree \<Longrightarrow> copilot_prompt p s = Inl e \<Longrightarrow> copilot_turns norm_stop s s"
| started: "cp_turnPC s t = CopilotStarting \<Longrightarrow>
    copilot_turns norm_stop s (copilot_at t CopilotCalling (pushEvent (event_of KindTurnStarted (Some t) None) s))"
| call: "cp_turnPC s t = CopilotCalling \<Longrightarrow> copilot_turns norm_stop s (copilot_call t s)"
| written: "cp_turnPC s t = CopilotWriting i \<Longrightarrow> \<not> transportClosed s \<Longrightarrow>
    copilot_turns norm_stop s (copilot_written t i s)"
| unwritten: "cp_turnPC s t = CopilotWriting i \<Longrightarrow> copilot_turns norm_stop s (copilot_unwritten t i err partly s)"
| answered: "cp_turnPC s t = CopilotAwaiting i \<Longrightarrow> cp_answers s i = Some a \<Longrightarrow>
    copilot_turns norm_stop s (copilot_at t (CopilotEnding a) s)"
| ends: "cp_turnPC s t = CopilotEnding a \<Longrightarrow>
    copilot_turns norm_stop s (copilot_end_turn t (CopilotClearing a) (\<lambda>g b. CopilotWaits g b a) s)"
| waited: "cp_turnPC s t = CopilotWaits g b a \<Longrightarrow> turn_done (turn_at (coord (cp_perms s)) b) \<Longrightarrow>
    copilot_turns norm_stop s (copilot_waited t g b (CopilotClearing a) s)"
| cleared: "cp_turnPC s t = CopilotClearing a \<Longrightarrow>
    copilot_turns norm_stop s (copilot_clear t (CopilotReporting a) s)"
| reported: "cp_turnPC s t = CopilotReporting a \<Longrightarrow> copilot_turns norm_stop s (copilot_report norm_stop t a s)"
| left: "cp_turnPC s t = CopilotReported a \<Longrightarrow> copilot_turns norm_stop s (copilot_left t (CopilotOver (Inr a)) s)"
| failed: "cp_turnPC s t = CopilotFailing e \<Longrightarrow>
    copilot_turns norm_stop s (copilot_at t (CopilotFailed e) (pushEvent (failTurn t e) s))"
| failed_left: "cp_turnPC s t = CopilotFailed e \<Longrightarrow>
    copilot_turns norm_stop s (copilot_left t (CopilotFailEnding e) s)"
| failed_ends: "cp_turnPC s t = CopilotFailEnding e \<Longrightarrow>
    copilot_turns norm_stop s (copilot_end_turn t (CopilotFailClearing e) (\<lambda>g b. CopilotFailWaits g b e) s)"
| failed_waited: "cp_turnPC s t = CopilotFailWaits g b e \<Longrightarrow> turn_done (turn_at (coord (cp_perms s)) b) \<Longrightarrow>
    copilot_turns norm_stop s (copilot_waited t g b (CopilotFailClearing e) s)"
| failed_cleared: "cp_turnPC s t = CopilotFailClearing e \<Longrightarrow> copilot_turns norm_stop s (copilot_failed t e s)"
| cancel: "cp_gate s = GateFree \<Longrightarrow> cp_session s \<noteq> [] \<Longrightarrow> cp_inFlight s \<noteq> None \<Longrightarrow>
    copilot_turns norm_stop s (s\<lparr>cp_gate := HeldByCancel False\<rparr>)"
| cancel_permissions: "cp_gate s = HeldByCancel False \<Longrightarrow>
    copilot_turns norm_stop s (copilot_coord CancelTurn (s\<lparr>cp_gate := HeldByCancel True\<rparr>))"
| cancel_written: "cp_gate s = HeldByCancel True \<Longrightarrow> \<not> transportClosed s \<Longrightarrow>
    copilot_turns norm_stop s (s\<lparr>cp_gate := GateFree, cp_wire := cp_wire s @ [cancel_frame (cp_session s)]\<rparr>)"
| cancel_failed: "cp_gate s = HeldByCancel True \<Longrightarrow>
    copilot_turns norm_stop s (closeTransport (s\<lparr>cp_gate := GateFree\<rparr>))"

subsection \<open>The reader\<close>

text \<open>A permission request is dispatched where a responder was configured, and declined with
  every other request of the agent where none was.\<close>

definition dispatches_request :: "rpc_frame \<Rightarrow> copilot \<Rightarrow> bool" where
  "dispatches_request frame s \<longleftrightarrow>
     Method frame = ''session/request_permission'' \<and> has_responder (coord (cp_perms s))"

inductive copilot_reads :: "copilot \<Rightarrow> copilot \<Rightarrow> bool" where
  bad_frame: "cp_reader s = Reading \<Longrightarrow> classify_frame x = Malformed_JSON \<or> classify_frame x = Invalid_Request_ID \<Longrightarrow>
    copilot_reads s (s\<lparr>cp_malformed := True\<rparr>)"
| notified: "cp_reader s = Reading \<Longrightarrow> classify_frame x = Notification m q \<Longrightarrow> \<not> is_frame k \<Longrightarrow>
    copilot_reads s (s\<lparr>cp_reader := Stamped (event_of k (cp_inFlight s) p)\<rparr>)"
| emitted: "cp_reader s = Stamped e \<Longrightarrow> copilot_reads s (pushEvent e (s\<lparr>cp_reader := Reading\<rparr>))"
| asked: "cp_reader s = Reading \<Longrightarrow> classify_frame x = Server_Request frame \<Longrightarrow> dispatches_request frame s \<Longrightarrow>
    copilot_reads s (s\<lparr>cp_reader := Admitting (length (calls (cp_perms s))) frame,
      cp_askedID := (cp_askedID s)(length (calls (cp_perms s)) := frame_ID frame),
      cp_perms := arrive True (Params frame) (cp_perms s)\<rparr>)"
| not_handled: "cp_reader s = Reading \<Longrightarrow> classify_frame x = Server_Request frame \<Longrightarrow>
    \<not> dispatches_request frame s \<Longrightarrow>
    copilot_reads s (s\<lparr>cp_wire := cp_wire s @ [response_frame (frame_ID frame) (Inl (respondUnsupported (Method frame)))]\<rparr>)"
| admitted: "cp_reader s = Admitting k frame \<Longrightarrow>
    copilot_reads s ((copilot_admitted k frame s)\<lparr>cp_reader :=
      (if async (adm (calls (cp_perms s) ! k)) then Reading else Answering k)\<rparr>)"
| answered_itself: "cp_reader s = Answering k \<Longrightarrow> over (pc (calls (cp_perms s) ! k)) \<Longrightarrow>
    copilot_reads s (s\<lparr>cp_reader := Reading\<rparr>)"
| response: "cp_reader s = Reading \<Longrightarrow> classify_frame x = Response i result err \<Longrightarrow>
    copilot_reads s (copilot_response i result err s)"
| admission_closed: "cp_reader s = Routing i True a \<Longrightarrow>
    copilot_reads s (copilot_coord CloseTurnAdmission (s\<lparr>cp_reader := Routing i False a\<rparr>))"
| routed: "cp_reader s = Routing i False a \<Longrightarrow>
    copilot_reads s (s\<lparr>cp_reader := Reading, cp_answers := (cp_answers s)(i \<mapsto> wire_of a)\<rparr>)"
| stream_ended: "cp_reader s = Reading \<Longrightarrow> copilot_reads s (s\<lparr>cp_reader := ReaderClosing\<rparr>)"
| reader_closed: "cp_reader s = ReaderClosing \<Longrightarrow>
    copilot_reads s (copilot_coord CloseCoordinator (s\<lparr>cp_reader := ReaderFailing\<rparr>))"
| reader_failed: "cp_reader s = ReaderFailing \<Longrightarrow>
    copilot_reads s ((onReaderClosed s)\<lparr>cp_reader := ReaderReporting\<rparr>)"
| reader_reported: "cp_reader s = ReaderReporting \<Longrightarrow>
    copilot_reads s (s\<lparr>cp_reader := ReaderDone,
      cp_term := ReportRead \<lparr>Malformed = cp_malformed s, ReadErr = err\<rparr> (cp_term s)\<rparr>)"

subsection \<open>Answers to permission requests\<close>

text \<open>The moves of a request that need nothing of the client.\<close>

inductive call_moves :: "nat \<Rightarrow> permissions \<Rightarrow> permissions \<Rightarrow> bool" for k where
  check: "pc (calls p ! k) = Checking \<Longrightarrow> call_moves k p (check_call k p)"
| start: "pc (calls p ! k) = Starting req \<Longrightarrow> call_moves k p (start_call k req p)"
| sent: "cb (calls p ! k) = CallbackRuns \<Longrightarrow>
    call_moves k p (at_call k (\<lambda>c. c\<lparr>cb := CallbackSent, reply := Some ans\<rparr>) p)"
| gone: "cb (calls p ! k) = CallbackSent \<Longrightarrow>
    call_moves k p (in_coord callback_gone (at_call k (\<lambda>c. c\<lparr>cb := CallbackLeft\<rparr>) p))"
| wake: "pc (calls p ! k) = Waiting i req \<Longrightarrow> reply (calls p ! k) = Some ans \<Longrightarrow>
    call_moves k p (at_call k (\<lambda>c. c\<lparr>pc := Deciding i req ans\<rparr>) p)"
| wake_canceled: "pc (calls p ! k) = Waiting i req \<Longrightarrow> pendings (coord p) i = Some e \<Longrightarrow> p_canceled e \<Longrightarrow>
    call_moves k p (at_call k (\<lambda>c. c\<lparr>pc := Deciding i req \<lparr>sel_option = [], sel_err = Some CtxCanceled\<rparr>\<rparr>) p)"

definition copilot_runs :: "nat \<Rightarrow> copilot \<Rightarrow> bool" where
  "copilot_runs k s \<longleftrightarrow> k < length (calls (cp_perms s)) \<and>
     (case cp_reader s of Admitting j frame \<Rightarrow> j \<noteq> k | _ \<Rightarrow> True)"

inductive copilot_answering :: "copilot \<Rightarrow> copilot \<Rightarrow> bool" where
  moves: "copilot_runs k s \<Longrightarrow> call_moves k (cp_perms s) p \<Longrightarrow> copilot_answering s (s\<lparr>cp_perms := p\<rparr>)"
| decide: "copilot_runs k s \<Longrightarrow> pc (calls (cp_perms s) ! k) = Deciding i req ans \<Longrightarrow> cp_gate s = GateFree \<Longrightarrow>
    copilot_answering s (s\<lparr>cp_gate := HeldByAnswer k, cp_perms := decide_call k i req ans (cp_perms s)\<rparr>)"
| deliver: "copilot_runs k s \<Longrightarrow> pc (calls (cp_perms s) ! k) = Delivering r oi \<Longrightarrow>
    copilot_answering s (copilot_deliver k r oi err s)"
| forget: "copilot_runs k s \<Longrightarrow> pc (calls (cp_perms s) ! k) = Forgetting r i \<Longrightarrow>
    copilot_answering s (s\<lparr>cp_gate := (if cp_gate s = HeldByAnswer k then GateFree else cp_gate s),
      cp_perms := in_coord (forget_pending i) (at_call k (\<lambda>c. c\<lparr>pc := Completing r\<rparr>) (cp_perms s))\<rparr>)"
| complete: "copilot_runs k s \<Longrightarrow> pc (calls (cp_perms s) ! k) = Completing r \<Longrightarrow>
    copilot_answering s (copilot_finish k r s)"

subsection \<open>Other calls and the host\<close>

inductive copilot_others :: "copilot \<Rightarrow> copilot \<Rightarrow> bool" where
  other_begin: "begin_call False s = (s', i) \<Longrightarrow>
    copilot_others s (s'\<lparr>cp_otherPC := (cp_otherPC s')(i := OtherWriting)\<rparr>)"
| other_written: "cp_otherPC s i = OtherWriting \<Longrightarrow> \<not> transportClosed s \<Longrightarrow>
    copilot_others s (s\<lparr>cp_otherPC := (cp_otherPC s)(i := OtherAwaiting),
      cp_wire := cp_wire s @ [request_frame i m q]\<rparr>)"
| other_unwritten: "cp_otherPC s i = OtherWriting \<Longrightarrow>
    copilot_others s (close_if partly ((drop_call i s)\<lparr>cp_otherPC := (cp_otherPC s)(i := OtherOver)\<rparr>))"
| other_answered: "cp_otherPC s i = OtherAwaiting \<Longrightarrow> cp_answers s i \<noteq> None \<Longrightarrow>
    copilot_others s (s\<lparr>cp_otherPC := (cp_otherPC s)(i := OtherOver)\<rparr>)"
| other_abandoned: "cp_otherPC s i = OtherAwaiting \<Longrightarrow>
    copilot_others s ((drop_call i s)\<lparr>cp_otherPC := (cp_otherPC s)(i := OtherOver)\<rparr>)"
| received: "cp_events s = e # es \<Longrightarrow> copilot_others s (s\<lparr>cp_events := es\<rparr>)"

subsection \<open>Exit, termination and close\<close>

text \<open>\<open>eventsOnce\<close> is taken by the coordinator or by a \<open>Close\<close> that found nothing started; sealing
  and closing twice changes nothing, so both may take these steps.\<close>

inductive copilot_ends :: "copilot \<Rightarrow> copilot \<Rightarrow> bool" where
  process_exited: "cp_spawned s \<Longrightarrow> cp_termPC s \<noteq> TermIdle \<Longrightarrow>
    copilot_ends s (s\<lparr>cp_term := ReportProcess p (cp_term s)\<rparr>)"
| coordinate: "cp_termPC s = TermRuns \<Longrightarrow> coordinate (cp_term s) x \<Longrightarrow>
    copilot_ends s (close_if (stops x > stops (cp_term s)) (s\<lparr>cp_term := x\<rparr>))"
| term_closed: "cp_termPC s = TermRuns \<Longrightarrow> at (cp_term s) = CoordReturned \<Longrightarrow>
    copilot_ends s (copilot_coord CloseCoordinator (s\<lparr>cp_termPC := TermClosed\<rparr>))"
| term_told: "cp_termPC s = TermClosed \<Longrightarrow> copilot_ends s ((copilot_tell_exit s)\<lparr>cp_termPC := TermSealing\<rparr>)"
| term_sealed: "cp_termPC s = TermSealing \<Longrightarrow>
    copilot_ends s (s\<lparr>cp_termPC := TermWaiting, cp_eventsClosing := True\<rparr>)"
| term_over: "cp_termPC s = TermWaiting \<Longrightarrow> cp_turnWG s = 0 \<Longrightarrow>
    copilot_ends s (s\<lparr>cp_termPC := TermOver, cp_eventsClosed := True\<rparr>)"
| close: "cp_close s = CloseNot \<Longrightarrow>
    copilot_ends s (s\<lparr>cp_closed := True, cp_close := CloseAsked (cp_launch s \<noteq> CopilotFresh)
      (cp_reader s \<noteq> ReaderIdle)\<rparr>)"
| close_permissions: "cp_close s = CloseAsked found saw \<Longrightarrow>
    copilot_ends s ((if found then copilot_coord CloseCoordinator s else s)\<lparr>cp_close := CloseQuieted saw\<rparr>)"
| close_enters: "cp_close s = CloseQuieted saw \<Longrightarrow> cp_gate s = GateFree \<Longrightarrow>
    copilot_ends s (s\<lparr>cp_gate := HeldByClose, cp_close := CloseGated saw\<rparr>)"
| close_gives_up: "cp_close s = CloseQuieted saw \<Longrightarrow> copilot_ends s (s\<lparr>cp_close := CloseForced saw\<rparr>)"
| close_forces: "cp_close s = CloseForced saw \<Longrightarrow> copilot_ends s (closeTransport (s\<lparr>cp_close := CloseCuts saw\<rparr>))"
| close_talked: "cp_close s = CloseGated saw \<Longrightarrow>
    copilot_ends s (s\<lparr>cp_close := CloseCuts saw,
      cp_gate := (if cp_gate s = HeldByClose then GateFree else cp_gate s)\<rparr>)"
| close_cuts: "cp_close s = CloseCuts saw \<Longrightarrow>
    copilot_ends s (closeTransport (s\<lparr>cp_close := (if saw then CloseDrains else CloseSeals)\<rparr>))"
| close_seals: "cp_close s = CloseSeals \<Longrightarrow> copilot_ends s (s\<lparr>cp_eventsClosing := True\<rparr>)"
| close_sealed: "cp_close s = CloseSeals \<Longrightarrow> cp_eventsClosing s \<Longrightarrow> cp_turnWG s = 0 \<Longrightarrow>
    copilot_ends s (s\<lparr>cp_eventsClosed := True, cp_close := CloseOver\<rparr>)"
| close_returns: "cp_close s = CloseDrains \<Longrightarrow> copilot_ends s (s\<lparr>cp_close := CloseOver\<rparr>)"

subsection \<open>All of them\<close>

inductive copilot_step :: "(string \<Rightarrow> string) \<Rightarrow> copilot \<Rightarrow> copilot \<Rightarrow> bool" for norm_stop where
  Launches: "copilot_launches s s' \<Longrightarrow> copilot_step norm_stop s s'"
| Turns: "copilot_turns norm_stop s s' \<Longrightarrow> copilot_step norm_stop s s'"
| Reads: "copilot_reads s s' \<Longrightarrow> copilot_step norm_stop s s'"
| Answering: "copilot_answering s s' \<Longrightarrow> copilot_step norm_stop s s'"
| Others: "copilot_others s s' \<Longrightarrow> copilot_step norm_stop s s'"
| Ends: "copilot_ends s s' \<Longrightarrow> copilot_step norm_stop s s'"

inductive copilot_reach :: "(string \<Rightarrow> string) \<Rightarrow> copilot \<Rightarrow> copilot \<Rightarrow> bool" for norm_stop where
  start: "copilot_reach norm_stop s s"
| step: "copilot_reach norm_stop s s' \<Longrightarrow> copilot_step norm_stop s' s'' \<Longrightarrow> copilot_reach norm_stop s s''"

lemma copilot_reach_trans:
  "copilot_reach norm_stop s' s'' \<Longrightarrow> copilot_reach norm_stop s s' \<Longrightarrow> copilot_reach norm_stop s s''"
  by (induction rule: copilot_reach.induct) (auto intro: copilot_reach.step)

end
