(* ===== verification/Copilot_Turns.thy ===== *)
theory Copilot_Turns
  imports Copilot_Steps Bridge_Turns
begin

text \<open>
  The turns of the Copilot client over all its interleavings. As for the bridge client, a step
  of any group but the turns' is \<open>calm\<close>: it leaves the turns as they are, adds no turn frame
  to the events and is quiet to the permission coordinator. A turn whose prompt could not be written is told of and leaves the wait
  group before it ends, so what the wait group counts and what is in flight differ.
\<close>

subsection \<open>Effects in one form\<close>

lemma pushEvent_eq:
  "pushEvent e s = s\<lparr>cp_events := (if cp_eventsClosed s \<or> eventsCapacity \<le> length (cp_events s) then cp_events s
       else cp_events s @ [e]),
     cp_attempted := (if cp_eventsClosed s then cp_attempted s else cp_attempted s @ [e])\<rparr>"
  by (simp add: pushEvent_def)

lemma close_if_eq:
  "close_if b s = s\<lparr>cp_once := cp_once s \<or> b,
     transportClosed := (if b \<and> \<not> cp_once s then cp_conn s else transportClosed s)\<rparr>"
  by (simp add: close_if_def closeTransport_def)

lemma closeTransport_eq:
  "closeTransport s = s\<lparr>cp_once := True, transportClosed := (if cp_once s then transportClosed s else cp_conn s)\<rparr>"
  using close_if_eq [of True s] by (simp add: close_if_def)

lemma copilot_end_turn_eq:
  "copilot_end_turn t x w s = s\<lparr>cp_perms := in_coord (\<lambda>p. fst (end_turn_close p)) (cp_perms s),
     cp_turnPC := (cp_turnPC s)(t := (case snd (end_turn_close (coord (cp_perms s))) of None \<Rightarrow> x | Some (g, a) \<Rightarrow> w g a))\<rparr>"
  by (simp add: copilot_end_turn_def copilot_at_def copilot_coord_def split_def in_coord_def Let_def)

lemmas copilot_effects = pushEvent_eq close_if_eq closeTransport_eq copilot_end_turn_eq copilot_at_def
  copilot_coord_def copilot_call_def begin_call_def drop_call_def copilot_written_def copilot_unwritten_def
  copilot_waited_def copilot_clear_def copilot_report_def copilot_left_def copilot_failed_def Let_def

lemmas copilot_others_effects = pushEvent_eq close_if_eq closeTransport_eq copilot_coord_def begin_call_def
  drop_call_def onReaderClosed_def copilot_admitted_def copilot_deliver_def copilot_finish_def
  copilot_tell_exit_def Let_def

subsection \<open>Calm steps\<close>

definition pushes_no_frame :: "copilot \<Rightarrow> copilot \<Rightarrow> bool" where
  "pushes_no_frame s s' \<longleftrightarrow> (\<exists>es. cp_attempted s' = cp_attempted s @ es \<and> list_all (\<lambda>e. \<not> is_frame (be_Kind e)) es)"

definition calm :: "copilot \<Rightarrow> copilot \<Rightarrow> bool" where
  "calm s s' \<longleftrightarrow> cp_turnPC s' = cp_turnPC s \<and> cp_inFlight s' = cp_inFlight s \<and> cp_turns s' = cp_turns s \<and>
     cp_turnWG s' = cp_turnWG s \<and> (\<forall>t. cp_gate s' = HeldByPrompt t \<longleftrightarrow> cp_gate s = HeldByPrompt t) \<and>
     (cp_eventsClosing s \<longrightarrow> cp_eventsClosing s') \<and> (cp_eventsClosed s \<longrightarrow> cp_eventsClosed s') \<and>
     (cp_eventsClosed s' \<longrightarrow> cp_eventsClosed s \<or> cp_turnWG s = 0 \<and> cp_eventsClosing s') \<and> pushes_no_frame s s' \<and>
     coord_quiet (coord (cp_perms s)) (coord (cp_perms s'))"

text \<open>What the reader has stamped is no turn frame; the waiting coordinator has sealed.\<close>

definition cp_plain :: "copilot \<Rightarrow> bool" where
  "cp_plain s \<longleftrightarrow> (\<forall>e. cp_reader s = Stamped e \<longrightarrow> \<not> is_frame (be_Kind e)) \<and>
     (cp_termPC s = TermWaiting \<longrightarrow> cp_eventsClosing s)"

lemma no_frame_kinds [simp]: "\<not> is_frame KindSessionReady"
  by (simp add: is_frame_def)

lemma launches_calm: "copilot_launches s s' \<Longrightarrow> calm s s'"
  by (induction rule: copilot_launches.induct) (auto simp: calm_def pushes_no_frame_def copilot_others_effects coord_quiet_simple)

lemma response_calm: "calm s (copilot_response x result err s)"
  by (auto simp: copilot_response_def calm_def pushes_no_frame_def drop_call_def Let_def split: option.split)

lemma reads_calm: "copilot_reads s s' \<Longrightarrow> cp_plain s \<Longrightarrow> calm s s'"
proof (induction rule: copilot_reads.induct)
  case (response s x i result err)
  show ?case by (rule response_calm)
qed (auto simp: calm_def pushes_no_frame_def cp_plain_def copilot_others_effects requested_event_def coord_quiet_ops
      coord_quiet_calls CloseTurnAdmission_def)

lemma call_moves_quiet: "call_moves k p q \<Longrightarrow> coord_quiet (coord p) (coord q)"
  by (induction rule: call_moves.induct) (auto simp: coord_quiet_ops coord_quiet_calls)

lemma answering_calm: "copilot_answering s s' \<Longrightarrow> calm s s'"
  by (induction rule: copilot_answering.induct)
     (auto simp: calm_def pushes_no_frame_def copilot_others_effects coord_quiet_ops coord_quiet_calls
        call_moves_quiet)

lemma others_calm: "copilot_others s s' \<Longrightarrow> calm s s'"
  by (induction rule: copilot_others.induct) (auto simp: calm_def pushes_no_frame_def copilot_others_effects)

lemma ends_calm: "copilot_ends s s' \<Longrightarrow> cp_plain s \<Longrightarrow> calm s s'"
  by (induction rule: copilot_ends.induct)
     (auto simp: calm_def pushes_no_frame_def cp_plain_def copilot_others_effects exit_event_def coord_quiet_ops)

lemma turns_keep: "copilot_turns norm_stop s s' \<Longrightarrow>
  cp_reader s' = cp_reader s \<and> cp_termPC s' = cp_termPC s \<and> cp_eventsClosing s' = cp_eventsClosing s"
  by (induction rule: copilot_turns.induct)
     (auto simp: copilot_effects copilot_prompt_def split: if_splits)

lemma cp_plain_step: "copilot_step norm_stop s s' \<Longrightarrow> cp_plain s \<Longrightarrow> cp_plain s'"
proof (induction rule: copilot_step.induct)
  case (Launches s s')
  then show ?case
    by (induction rule: copilot_launches.induct) (auto simp: cp_plain_def copilot_others_effects)
next
  case (Turns s s')
  then show ?case using turns_keep [OF Turns.hyps] by (simp add: cp_plain_def)
next
  case (Reads s s')
  then show ?case
    by (induction rule: copilot_reads.induct)
       (auto simp: cp_plain_def copilot_others_effects copilot_response_def split: option.split)
next
  case (Answering s s')
  then show ?case
    by (induction rule: copilot_answering.induct) (auto simp: cp_plain_def copilot_others_effects)
next
  case (Others s s')
  then show ?case by (induction rule: copilot_others.induct) (auto simp: cp_plain_def copilot_others_effects)
next
  case (Ends s s')
  then show ?case by (induction rule: copilot_ends.induct) (auto simp: cp_plain_def copilot_others_effects)
qed

lemma copilot_kinds: "copilot_step norm_stop s s' \<Longrightarrow> cp_plain s \<Longrightarrow> calm s s' \<or> copilot_turns norm_stop s s'"
  by (induction rule: copilot_step.induct)
     (auto intro: launches_calm reads_calm answering_calm others_calm ends_calm)

text \<open>Invariants of the client, as for the bridge: known facts, the start, calm steps, turns.\<close>

locale copilot_invariant =
  fixes norm_stop :: "string \<Rightarrow> string"
    and responder :: bool
    and spawned :: bool
    and K :: "copilot \<Rightarrow> bool"
    and I :: "copilot \<Rightarrow> bool"
  assumes known: "copilot_reach norm_stop (NewCopilotClient responder spawned) s \<Longrightarrow> K s"
    and fresh: "I (NewCopilotClient responder spawned)"
    and calmly: "K s \<Longrightarrow> I s \<Longrightarrow> calm s s' \<Longrightarrow> I s'"
    and turning: "K s \<Longrightarrow> I s \<Longrightarrow> copilot_turns norm_stop s s' \<Longrightarrow> I s'"
begin

lemma plain_reachable: "copilot_reach norm_stop (NewCopilotClient responder spawned) s \<Longrightarrow> cp_plain s"
  by (induction "NewCopilotClient responder spawned" s rule: copilot_reach.induct)
     (auto simp: cp_plain_def NewCopilotClient_def dest: cp_plain_step [unfolded cp_plain_def])

lemma reachable: "copilot_reach norm_stop (NewCopilotClient responder spawned) s \<Longrightarrow> I s"
proof (induction "NewCopilotClient responder spawned" s rule: copilot_reach.induct)
  case start
  show ?case by (rule fresh)
next
  case (step s' s'')
  from copilot_kinds [OF step.hyps(3) plain_reachable [OF step.hyps(1)]] show ?case
    using known [OF step.hyps(1)] step.hyps(2) calmly turning by blast
qed

end

subsection \<open>Turns\<close>

fun counted_turn :: "copilot_turn_pc \<Rightarrow> bool" where
  "counted_turn CopilotNone = False"
| "counted_turn (CopilotOver r) = False"
| "counted_turn (CopilotFailEnding e) = False"
| "counted_turn (CopilotFailWaits g a e) = False"
| "counted_turn (CopilotFailClearing e) = False"
| "counted_turn _ = True"

fun prompting_turn :: "copilot_turn_pc \<Rightarrow> bool" where
  "prompting_turn CopilotStarting = True"
| "prompting_turn CopilotCalling = True"
| "prompting_turn (CopilotWriting i) = True"
| "prompting_turn (CopilotFailing e) = True"
| "prompting_turn (CopilotFailed e) = True"
| "prompting_turn (CopilotFailEnding e) = True"
| "prompting_turn (CopilotFailWaits g a e) = True"
| "prompting_turn (CopilotFailClearing e) = True"
| "prompting_turn _ = False"

fun flying_turn :: "copilot_turn_pc \<Rightarrow> bool" where
  "flying_turn (CopilotAwaiting i) = True"
| "flying_turn (CopilotEnding a) = True"
| "flying_turn (CopilotWaits g b a) = True"
| "flying_turn (CopilotClearing a) = True"
| "flying_turn x = prompting_turn x"

definition cp_inv_turn :: "copilot \<Rightarrow> bool" where
  "cp_inv_turn s \<longleftrightarrow>
     (\<forall>t. cp_turnPC s t = CopilotNone \<longleftrightarrow> cp_turns s \<le> t) \<and>
     cp_turnWG s = card {t. counted_turn (cp_turnPC s t)} \<and>
     (\<forall>t. flying_turn (cp_turnPC s t) \<longleftrightarrow> cp_inFlight s = Some t) \<and>
     (\<forall>t. cp_inFlight s = Some t \<longrightarrow> Suc t = cp_turns s) \<and>
     (\<forall>t. prompting_turn (cp_turnPC s t) \<longleftrightarrow> cp_gate s = HeldByPrompt t)"

lemma cp_inv_turnD:
  assumes "cp_inv_turn s"
  shows "cp_turnPC s t = CopilotNone \<longleftrightarrow> cp_turns s \<le> t" "cp_turnPC s t \<noteq> CopilotNone \<Longrightarrow> t < cp_turns s"
    "cp_turnWG s = card {t. counted_turn (cp_turnPC s t)}" "flying_turn (cp_turnPC s t) \<longleftrightarrow> cp_inFlight s = Some t"
    "cp_inFlight s = Some t \<Longrightarrow> Suc t = cp_turns s" "prompting_turn (cp_turnPC s t) \<longleftrightarrow> cp_gate s = HeldByPrompt t"
proof -
  show 1: "cp_turnPC s t = CopilotNone \<longleftrightarrow> cp_turns s \<le> t" using assms by (simp add: cp_inv_turn_def)
  show "cp_turnPC s t \<noteq> CopilotNone \<Longrightarrow> t < cp_turns s" using 1 by (cases "cp_turns s \<le> t") auto
qed (use assms in \<open>simp_all add: cp_inv_turn_def\<close>)

lemma counted_finite: "cp_inv_turn s \<Longrightarrow> finite {t. counted_turn (cp_turnPC s t)}"
  by (rule finite_subset [of _ "{..<cp_turns s}"]) (auto, metis counted_turn.simps(1) cp_inv_turnD(2))

lemma counted_positive: "cp_inv_turn s \<Longrightarrow> counted_turn (cp_turnPC s t) \<Longrightarrow> 0 < cp_turnWG s"
  using counted_finite [of s] cp_inv_turnD(3) [of s] by (auto simp: card_gt_0_iff)

text \<open>A step that moves one turn. What it counts, whether it is in flight and whether it holds
  the gate follow from where it goes.\<close>

lemma cp_inv_turn_move:
  assumes inv: "cp_inv_turn s" and pc: "cp_turnPC s t \<noteq> CopilotNone" "x \<noteq> CopilotNone"
    "cp_turnPC s' = (cp_turnPC s)(t := x)" "cp_turns s' = cp_turns s"
    and wg: "counted_turn x \<Longrightarrow> counted_turn (cp_turnPC s t)"
      "cp_turnWG s' = cp_turnWG s - (if counted_turn (cp_turnPC s t) \<and> \<not> counted_turn x then 1 else 0)"
    and fl: "flying_turn x \<Longrightarrow> flying_turn (cp_turnPC s t)"
      "cp_inFlight s' = (if flying_turn (cp_turnPC s t) \<and> \<not> flying_turn x then None else cp_inFlight s)"
    and g: "prompting_turn x \<Longrightarrow> prompting_turn (cp_turnPC s t)"
      "cp_gate s' = (if prompting_turn (cp_turnPC s t) \<and> \<not> prompting_turn x then GateFree else cp_gate s)"
  shows "cp_inv_turn s'"
proof -
  note D = cp_inv_turnD [OF inv]
  have old: "t < cp_turns s" using D(2) pc(1) by blast
  have wg': "cp_turnWG s' = card {u. counted_turn (cp_turnPC s' u)}"
  proof (cases "counted_turn (cp_turnPC s t) \<and> \<not> counted_turn x")
    case True
    have "{u. counted_turn (cp_turnPC s' u)} = {u. counted_turn (cp_turnPC s u)} - {t}"
      using True pc(3) by auto
    then show ?thesis using True D(3) wg counted_finite [OF inv] by simp
  next
    case False
    have "{u. counted_turn (cp_turnPC s' u)} = {u. counted_turn (cp_turnPC s u)}"
      using False wg(1) pc(3) by auto
    then show ?thesis using False D(3) wg(2) by auto
  qed
  have fly: "flying_turn (cp_turnPC s' u) \<longleftrightarrow> cp_inFlight s' = Some u" for u
    using D(4) [of u] D(4) [of t] fl pc(3) by (cases "u = t") auto
  have gate: "prompting_turn (cp_turnPC s' u) \<longleftrightarrow> cp_gate s' = HeldByPrompt u" for u
    using D(6) [of u] D(6) [of t] g pc(3) by (cases "u = t") auto
  show ?thesis
    using D(1) D(5) old pc fl(2) wg' fly gate by (auto simp: cp_inv_turn_def split: if_splits)
qed

lemma cp_inv_turn_new: "cp_inv_turn (NewCopilotClient b c)"
  by (simp add: cp_inv_turn_def NewCopilotClient_def)

lemma cp_inv_turn_calm: "cp_inv_turn s \<Longrightarrow> calm s s' \<Longrightarrow> cp_inv_turn s'"
  by (simp add: cp_inv_turn_def calm_def)

lemma copilot_prompt_InrD:
  assumes "copilot_prompt p s = Inr s'"
  shows "cp_turnPC s' = (cp_turnPC s)(cp_turns s := CopilotStarting)" "cp_inFlight s = None"
    "cp_inFlight s' = Some (cp_turns s)" "cp_turns s' = Suc (cp_turns s)" "cp_turnWG s' = Suc (cp_turnWG s)"
    "cp_gate s' = HeldByPrompt (cp_turns s)" "\<not> cp_eventsClosing s" "cp_attempted s' = cp_attempted s"
    "cp_eventsClosed s' = cp_eventsClosed s" "cp_perms s' = in_coord BeginTurn (cp_perms s)" "\<not> cp_closed s"
  using assms by (auto simp: copilot_prompt_def copilot_coord_def Let_def split: if_splits)

lemma cp_inv_turn_prompt:
  assumes inv: "cp_inv_turn s" and "cp_gate s = GateFree" and p: "copilot_prompt p s = Inr s'"
  shows "cp_inv_turn s'"
proof -
  let ?t = "cp_turns s"
  note s' = copilot_prompt_InrD [OF p] and D = cp_inv_turnD [OF inv]
  have "{u. counted_turn (cp_turnPC s' u)} = insert ?t {u. counted_turn (cp_turnPC s u)}" using s'(1) by auto
  moreover have "?t \<notin> {u. counted_turn (cp_turnPC s u)}" using D(1) [of ?t] by simp
  ultimately have card: "cp_turnWG s' = card {u. counted_turn (cp_turnPC s' u)}"
    using D(3) s'(5) counted_finite [OF inv] by simp
  have idle: "\<not> flying_turn (cp_turnPC s u)" "\<not> prompting_turn (cp_turnPC s u)" for u
    using D(4,6) [of u] s'(2) assms(2) by simp_all
  show ?thesis
    using D(1) card idle s' by (auto simp: cp_inv_turn_def le_Suc_eq not_le less_Suc_eq)
qed

lemma end_turn_goes:
  obtains y where "cp_turnPC (copilot_end_turn t x w s) = (cp_turnPC s)(t := y)" "y = x \<or> (\<exists>g b. y = w g b)"
proof (cases "snd (end_turn_close (coord (cp_perms s)))")
  case None
  then show ?thesis using that [of x] by (simp add: copilot_end_turn_eq)
next
  case (Some ga)
  then show ?thesis using that [of "w (fst ga) (snd ga)"] by (auto simp: copilot_end_turn_eq split_def)
qed

lemma cp_inv_turn_turns: "copilot_turns norm_stop s s' \<Longrightarrow> cp_inv_turn s \<Longrightarrow> cp_inv_turn s'"
proof (induction rule: copilot_turns.induct)
  case (prompt s p s')
  then show ?case by (blast intro: cp_inv_turn_prompt)
next
  case (started s t)
  show ?case by (rule cp_inv_turn_move [OF started.prems, where t = t and x = CopilotCalling])
      (use started.hyps in \<open>simp_all add: copilot_effects\<close>)
next
  case (call s t)
  show ?case by (rule cp_inv_turn_move [OF call.prems, where t = t and x = "CopilotWriting (Suc (cp_nextID s))"])
      (use call.hyps in \<open>simp_all add: copilot_effects\<close>)
next
  case (written s t i)
  show ?case by (rule cp_inv_turn_move [OF written.prems, where t = t and x = "CopilotAwaiting i"])
      (use written.hyps in \<open>simp_all add: copilot_effects\<close>)
next
  case (unwritten s t i err partly)
  show ?case by (rule cp_inv_turn_move [OF unwritten.prems, where t = t
        and x = "CopilotFailing (''copilotacp: session/prompt: '' @ err)"])
      (use unwritten.hyps in \<open>simp_all add: copilot_effects\<close>)
next
  case (answered s t i a)
  show ?case by (rule cp_inv_turn_move [OF answered.prems, where t = t and x = "CopilotEnding a"])
      (use answered.hyps in \<open>simp_all add: copilot_effects\<close>)
next
  case (ends s t a)
  obtain y where "cp_turnPC (copilot_end_turn t (CopilotClearing a) (\<lambda>g b. CopilotWaits g b a) s) = (cp_turnPC s)(t := y)"
    "y = CopilotClearing a \<or> (\<exists>g b. y = CopilotWaits g b a)"
    by (rule end_turn_goes)
  then show ?case
    by (intro cp_inv_turn_move [OF ends.prems, where t = t and x = y])
       (use ends.hyps in \<open>auto simp: copilot_end_turn_eq\<close>)
next
  case (waited s t g b a)
  show ?case by (rule cp_inv_turn_move [OF waited.prems, where t = t and x = "CopilotClearing a"])
      (use waited.hyps in \<open>simp_all add: copilot_effects\<close>)
next
  case (cleared s t a)
  show ?case by (rule cp_inv_turn_move [OF cleared.prems, where t = t and x = "CopilotReporting a"])
      (use cleared.hyps in \<open>simp_all add: copilot_effects\<close>)
next
  case (reported s t a)
  show ?case by (rule cp_inv_turn_move [OF reported.prems, where t = t and x = "CopilotReported a"])
      (use reported.hyps in \<open>simp_all add: copilot_effects\<close>)
next
  case (left s t a)
  show ?case by (rule cp_inv_turn_move [OF left.prems, where t = t and x = "CopilotOver (Inr a)"])
      (use left.hyps in \<open>simp_all add: copilot_effects\<close>)
next
  case (failed s t e)
  show ?case by (rule cp_inv_turn_move [OF failed.prems, where t = t and x = "CopilotFailed e"])
      (use failed.hyps in \<open>simp_all add: copilot_effects\<close>)
next
  case (failed_left s t e)
  show ?case by (rule cp_inv_turn_move [OF failed_left.prems, where t = t and x = "CopilotFailEnding e"])
      (use failed_left.hyps in \<open>simp_all add: copilot_effects\<close>)
next
  case (failed_ends s t e)
  obtain y where "cp_turnPC (copilot_end_turn t (CopilotFailClearing e) (\<lambda>g b. CopilotFailWaits g b e) s) = (cp_turnPC s)(t := y)"
    "y = CopilotFailClearing e \<or> (\<exists>g b. y = CopilotFailWaits g b e)"
    by (rule end_turn_goes)
  then show ?case
    by (intro cp_inv_turn_move [OF failed_ends.prems, where t = t and x = y])
       (use failed_ends.hyps in \<open>auto simp: copilot_end_turn_eq\<close>)
next
  case (failed_waited s t g b e)
  show ?case by (rule cp_inv_turn_move [OF failed_waited.prems, where t = t and x = "CopilotFailClearing e"])
      (use failed_waited.hyps in \<open>simp_all add: copilot_effects\<close>)
next
  case (failed_cleared s t e)
  have "cp_gate s = HeldByPrompt t" using failed_cleared cp_inv_turnD(6) [of s t] by simp
  then show ?case
    by (intro cp_inv_turn_move [OF failed_cleared.prems, where t = t and x = "CopilotOver (Inl e)"])
       (use failed_cleared.hyps in \<open>simp_all add: copilot_effects\<close>)
qed (auto simp: cp_inv_turn_def copilot_effects)

interpretation cp_turn: copilot_invariant norm_stop responder spawned "\<lambda>_. True" cp_inv_turn
  for norm_stop responder spawned
  by unfold_locales (auto intro: cp_inv_turn_new cp_inv_turn_calm cp_inv_turn_turns)

subsection \<open>Closing the events\<close>

definition cp_inv_closed :: "copilot \<Rightarrow> bool" where
  "cp_inv_closed s \<longleftrightarrow> (cp_eventsClosed s \<longrightarrow> cp_turnWG s = 0 \<and> cp_eventsClosing s)"

lemma cp_inv_closed_turns: "copilot_turns norm_stop s s' \<Longrightarrow> cp_inv_closed s \<Longrightarrow> cp_inv_closed s'"
  by (induction rule: copilot_turns.induct)
     (auto simp: cp_inv_closed_def copilot_effects copilot_prompt_def split: if_splits)

interpretation cp_closing: copilot_invariant norm_stop responder spawned "\<lambda>_. True" cp_inv_closed
  for norm_stop responder spawned
proof
  show "cp_inv_closed (NewCopilotClient responder spawned)"
    by (simp add: cp_inv_closed_def NewCopilotClient_def)
  show "cp_inv_closed s \<Longrightarrow> calm s s' \<Longrightarrow> cp_inv_closed s'" for s s'
    by (auto simp: cp_inv_closed_def calm_def)
  show "cp_inv_closed s \<Longrightarrow> copilot_turns norm_stop s s' \<Longrightarrow> cp_inv_closed s'" for s s'
    by (rule cp_inv_closed_turns)
qed simp

lemma cp_open_while_counted:
  "cp_inv_turn s \<Longrightarrow> cp_inv_closed s \<Longrightarrow> counted_turn (cp_turnPC s t) \<Longrightarrow> \<not> cp_eventsClosed s"
  using counted_positive [of s t] by (auto simp: cp_inv_closed_def)

subsection \<open>What the events say of a turn\<close>

fun copilot_told :: "(string \<Rightarrow> string) \<Rightarrow> nat \<Rightarrow> copilot_turn_pc \<Rightarrow> bridge_event list" where
  "copilot_told norm_stop t CopilotNone = []"
| "copilot_told norm_stop t CopilotStarting = []"
| "copilot_told norm_stop t (CopilotReported a) = [start_event t, prompt_event norm_stop t a]"
| "copilot_told norm_stop t (CopilotFailed e) = [start_event t, failTurn t e]"
| "copilot_told norm_stop t (CopilotFailEnding e) = [start_event t, failTurn t e]"
| "copilot_told norm_stop t (CopilotFailWaits g b e) = [start_event t, failTurn t e]"
| "copilot_told norm_stop t (CopilotFailClearing e) = [start_event t, failTurn t e]"
| "copilot_told norm_stop t (CopilotOver (Inl e)) = [start_event t, failTurn t e]"
| "copilot_told norm_stop t (CopilotOver (Inr a)) = [start_event t, prompt_event norm_stop t a]"
| "copilot_told norm_stop t _ = [start_event t]"

definition cp_inv_told :: "(string \<Rightarrow> string) \<Rightarrow> copilot \<Rightarrow> bool" where
  "cp_inv_told norm_stop s \<longleftrightarrow> (\<forall>t. frames_of t (cp_attempted s) = copilot_told norm_stop t (cp_turnPC s t))"

lemma frames_of_terminal [simp]:
  "frames_of u [prompt_event norm_stop t a] = (if u = t then [prompt_event norm_stop t a] else [])"
  "frames_of u [failTurn t e] = (if u = t then [failTurn t e] else [])"
  by (auto simp: frames_of_def prompt_event_def failTurn_def event_of_def is_frame_def Let_def
      split: wire_answer.split)

lemma cp_inv_told_calm: "cp_inv_told norm_stop s \<Longrightarrow> calm s s' \<Longrightarrow> cp_inv_told norm_stop s'"
  by (auto simp: cp_inv_told_def calm_def pushes_no_frame_def frames_of_def list_all_iff filter_empty_conv)

lemma cp_inv_told_move:
  assumes "cp_inv_told norm_stop s" and "cp_turnPC s' = (cp_turnPC s)(t := x)"
    and "copilot_told norm_stop t x = copilot_told norm_stop t (cp_turnPC s t) @ ys"
    and "cp_attempted s' = cp_attempted s @ ys" and "\<And>u. frames_of u ys = (if u = t then ys else [])"
  shows "cp_inv_told norm_stop s'"
  using assms by (auto simp: cp_inv_told_def)

lemma frames_of_none [simp]: "frames_of u [] = []"
  by (simp add: frames_of_def)

lemma frames_of_start [simp]: "frames_of u [start_event t] = (if u = t then [start_event t] else [])"
  using frames_of_one(1) [of u t] by (simp add: start_event_def)

lemma cp_inv_told_turns:
  assumes "copilot_turns norm_stop s s'" and "cp_inv_turn s" "cp_inv_closed s" "cp_inv_told norm_stop s"
  shows "cp_inv_told norm_stop s'"
  using assms
proof (induction rule: copilot_turns.induct)
  case (prompt s p s')
  have "cp_turnPC s (cp_turns s) = CopilotNone" using cp_inv_turnD(1) [OF prompt.prems(1)] by simp
  with prompt show ?case
    by (intro cp_inv_told_move [OF prompt.prems(3), where t = "cp_turns s" and x = CopilotStarting and ys = "[]"])
       (simp_all add: copilot_prompt_InrD [OF prompt.hyps(2)])
next
  case (started s t)
  show ?case
    by (rule cp_inv_told_move [OF started.prems(3), where t = t and x = CopilotCalling and ys = "[start_event t]"])
       (use started cp_open_while_counted [of s t] in \<open>simp_all add: copilot_effects start_event_def [symmetric]\<close>)
next
  case (reported s t a)
  show ?case
    by (rule cp_inv_told_move [OF reported.prems(3), where t = t and x = "CopilotReported a"
          and ys = "[prompt_event norm_stop t a]"])
       (use reported cp_open_while_counted [of s t] in \<open>simp_all add: copilot_effects\<close>)
next
  case (failed s t e)
  show ?case
    by (rule cp_inv_told_move [OF failed.prems(3), where t = t and x = "CopilotFailed e" and ys = "[failTurn t e]"])
       (use failed cp_open_while_counted [of s t] in \<open>simp_all add: copilot_effects\<close>)
next
  case (ends s t a)
  obtain y where "cp_turnPC (copilot_end_turn t (CopilotClearing a) (\<lambda>g b. CopilotWaits g b a) s) = (cp_turnPC s)(t := y)"
    "y = CopilotClearing a \<or> (\<exists>g b. y = CopilotWaits g b a)"
    by (rule end_turn_goes)
  then show ?case
    by (intro cp_inv_told_move [OF ends.prems(3), where t = t and x = y and ys = "[]"])
       (use ends.hyps in \<open>auto simp: copilot_end_turn_eq\<close>)
next
  case (failed_ends s t e)
  obtain y where "cp_turnPC (copilot_end_turn t (CopilotFailClearing e) (\<lambda>g b. CopilotFailWaits g b e) s) = (cp_turnPC s)(t := y)"
    "y = CopilotFailClearing e \<or> (\<exists>g b. y = CopilotFailWaits g b e)"
    by (rule end_turn_goes)
  then show ?case
    by (intro cp_inv_told_move [OF failed_ends.prems(3), where t = t and x = y and ys = "[]"])
       (use failed_ends.hyps in \<open>auto simp: copilot_end_turn_eq\<close>)
qed (simp_all add: cp_inv_told_def copilot_effects)

interpretation cp_telling: copilot_invariant norm_stop responder spawned
    "\<lambda>s. cp_inv_turn s \<and> cp_inv_closed s" "cp_inv_told norm_stop"
  for norm_stop responder spawned
proof
  show "copilot_reach norm_stop (NewCopilotClient responder spawned) s \<Longrightarrow> cp_inv_turn s \<and> cp_inv_closed s" for s
    by (simp add: cp_turn.reachable cp_closing.reachable)
  show "cp_inv_told norm_stop (NewCopilotClient responder spawned)"
    by (simp add: cp_inv_told_def NewCopilotClient_def)
  show "cp_inv_told norm_stop s \<Longrightarrow> calm s s' \<Longrightarrow> cp_inv_told norm_stop s'" for s s'
    by (rule cp_inv_told_calm)
  show "cp_inv_turn s \<and> cp_inv_closed s \<Longrightarrow> cp_inv_told norm_stop s \<Longrightarrow> copilot_turns norm_stop s s' \<Longrightarrow>
      cp_inv_told norm_stop s'" for s s'
    by (blast intro: cp_inv_told_turns)
qed

end
