(* ===== verification/Copilot_Barrier.thy ===== *)
theory Copilot_Barrier
  imports Copilot_Turns Bridge_Barrier
begin

text \<open>
  The Copilot client and its permission coordinator. Like the bridge client it drives the
  coordinator only through the steps of \<open>Permission_Steps\<close>, and a turn is the coordinator's
  generation of the same number; an answered turn is told of only when the generation's
  \<open>done\<close> channel is closed.
\<close>

subsection \<open>The client refines the permission steps\<close>

definition cp_follows :: "copilot \<Rightarrow> copilot \<Rightarrow> bool" where
  "cp_follows s s' \<longleftrightarrow> cp_perms s' = cp_perms s \<or> perm_step (cp_perms s) (cp_perms s')"

lemma moves_follow: "call_moves k p q \<Longrightarrow> k < length (calls p) \<Longrightarrow> perm_step p q"
  by (induction rule: call_moves.induct) (auto intro: perm_step.intros)

lemma cp_follows_turns: "copilot_turns norm_stop s s' \<Longrightarrow> cp_follows s s'"
  by (induction rule: copilot_turns.induct)
     (auto simp: cp_follows_def copilot_effects dest!: copilot_prompt_InrD(10)
        intro: perm_step.begin_turn perm_step.end_close perm_step.end_forget perm_step.cancel_turn)

lemma cp_follows_reads: "copilot_reads s s' \<Longrightarrow> cp_follows s s'"
  by (induction rule: copilot_reads.induct)
     (auto simp: cp_follows_def copilot_response_def copilot_others_effects
        intro: perm_step.arrive perm_step.close_admission perm_step.close_all split: option.split)

lemma cp_follows_answering: "copilot_answering s s' \<Longrightarrow> cp_follows s s'"
proof (induction rule: copilot_answering.induct)
  case (deliver k s r oi err)
  then show ?case
    by (auto simp: cp_follows_def copilot_others_effects copilot_runs_def intro: perm_step.deliver)
qed (auto simp: cp_follows_def copilot_others_effects copilot_runs_def
      intro: moves_follow perm_step.decide perm_step.forget perm_step.complete)

lemma cp_follows_step: "copilot_step norm_stop s s' \<Longrightarrow> cp_follows s s'"
proof (induction rule: copilot_step.induct)
  case (Launches s s')
  then show ?case
    by (induction rule: copilot_launches.induct)
       (auto simp: cp_follows_def copilot_others_effects intro: perm_step.set_session)
next
  case (Others s s')
  then show ?case
    by (induction rule: copilot_others.induct) (auto simp: cp_follows_def copilot_others_effects)
next
  case (Ends s s')
  then show ?case
    by (induction rule: copilot_ends.induct)
       (auto simp: cp_follows_def copilot_others_effects intro: perm_step.close_all)
qed (blast intro: cp_follows_turns cp_follows_reads cp_follows_answering)+

lemma cp_follows_reach: "copilot_reach norm_stop s s' \<Longrightarrow> perm_reach (cp_perms s) (cp_perms s')"
proof (induction rule: copilot_reach.induct)
  case (step s s' s'')
  from cp_follows_step [OF step.hyps(2)] step.IH show ?case
    by (auto simp: cp_follows_def intro: perm_reach.step)
qed (rule perm_reach.start)

lemma cp_perm_inv: "copilot_reach norm_stop (NewCopilotClient b c) s \<Longrightarrow> perm_inv (cp_perms s)"
  using cp_follows_reach perm_inv_reach perm_inv_new by (fastforce simp: NewCopilotClient_def)

subsection \<open>The barrier\<close>

fun unended_turn :: "copilot_turn_pc \<Rightarrow> bool" where
  "unended_turn (CopilotAwaiting i) = True"
| "unended_turn (CopilotEnding a) = True"
| "unended_turn (CopilotWaits g b a) = True"
| "unended_turn (CopilotFailClearing e) = False"
| "unended_turn x = prompting_turn x"

fun ended_turn :: "copilot_turn_pc \<Rightarrow> bool" where
  "ended_turn CopilotNone = False"
| "ended_turn x = (\<not> unended_turn x)"

fun waits_own_turn :: "nat \<Rightarrow> copilot_turn_pc \<Rightarrow> bool" where
  "waits_own_turn t (CopilotWaits g b a) = (g = Suc t \<and> b = Suc t)"
| "waits_own_turn t (CopilotFailWaits g b e) = (g = Suc t \<and> b = Suc t)"
| "waits_own_turn t _ = True"

lemma unended_flying: "unended_turn x \<Longrightarrow> flying_turn x"
  by (cases x) simp_all

definition cp_inv_barrier :: "copilot \<Rightarrow> bool" where
  "cp_inv_barrier s \<longleftrightarrow> generation (coord (cp_perms s)) = cp_turns s \<and>
     (\<forall>t. unended_turn (cp_turnPC s t) \<longrightarrow> turns (coord (cp_perms s)) (Suc t) = Some (Suc t)) \<and>
     (\<forall>t. waits_own_turn t (cp_turnPC s t)) \<and>
     (\<forall>t. ended_turn (cp_turnPC s t) \<longrightarrow> turn_done (turn_at (coord (cp_perms s)) (Suc t)))"

lemma cp_inv_barrierD:
  assumes "cp_inv_barrier s"
  shows "generation (coord (cp_perms s)) = cp_turns s" "waits_own_turn t (cp_turnPC s t)"
    "unended_turn (cp_turnPC s t) \<Longrightarrow> turns (coord (cp_perms s)) (Suc t) = Some (Suc t)"
    "ended_turn (cp_turnPC s t) \<Longrightarrow> turn_done (turn_at (coord (cp_perms s)) (Suc t))"
  using assms by (simp_all add: cp_inv_barrier_def)

lemma cp_inv_barrier_move:
  assumes "cp_inv_barrier s" and "cp_turnPC s' = (cp_turnPC s)(t := x)" "cp_turns s' = cp_turns s"
    and "coord_quiet (coord (cp_perms s)) (coord (cp_perms s'))" and "waits_own_turn t x"
    and "unended_turn x \<Longrightarrow> unended_turn (cp_turnPC s t)" "ended_turn x \<Longrightarrow> ended_turn (cp_turnPC s t)"
  shows "cp_inv_barrier s'"
  using assms unfolding cp_inv_barrier_def coord_quiet_def by (simp split: if_splits)

lemma cp_inv_barrier_prompt:
  assumes inv: "cp_inv_turn s" "cp_inv_barrier s" and p: "copilot_prompt p s = Inr s'"
  shows "cp_inv_barrier s'"
proof -
  note s' = copilot_prompt_InrD [OF p]
  have old: "t < cp_turns s" if "ended_turn (cp_turnPC s t)" for t
    using that cp_inv_turnD(2) [OF inv(1), of t] by (cases "cp_turnPC s t = CopilotNone") auto
  moreover have "\<not> unended_turn (cp_turnPC s t)" for t
    using cp_inv_turnD(4) [OF inv(1), of t] s'(2) unended_flying by auto
  ultimately show ?thesis
    using inv(2) by (auto simp: cp_inv_barrier_def s' BeginTurn_turns)
qed

text \<open>\<open>EndTurn\<close> of a turn in flight waits for its own generation.\<close>

lemma cp_end_turn_own:
  assumes inv: "cp_inv_turn s" "cp_inv_barrier s" and un: "unended_turn (cp_turnPC s t)"
  shows "copilot_end_turn t x w s = s\<lparr>cp_perms := in_coord (closeTurnAdmission (Suc t)) (cp_perms s),
    cp_turnPC := (cp_turnPC s)(t := w (Suc t) (Suc t))\<rparr>"
proof -
  have "cp_inFlight s = Some t" using cp_inv_turnD(4) [OF inv(1), of t] un unended_flying by blast
  then have "generation (coord (cp_perms s)) = Suc t"
    using cp_inv_turnD(5) [OF inv(1), of t] cp_inv_barrierD(1) [OF inv(2)] by simp
  moreover have "turns (coord (cp_perms s)) (Suc t) = Some (Suc t)" by (rule cp_inv_barrierD(3) [OF inv(2) un])
  ultimately show ?thesis by (simp add: copilot_end_turn_eq end_turn_close_def in_coord_def)
qed

lemma cp_inv_barrier_ends:
  assumes inv: "cp_inv_turn s" "cp_inv_barrier s" and un: "unended_turn (cp_turnPC s t)"
    and w: "waits_own_turn t (w (Suc t) (Suc t))" "\<not> ended_turn (w (Suc t) (Suc t))"
  shows "cp_inv_barrier (copilot_end_turn t x w s)"
  by (rule cp_inv_barrier_move [OF inv(2), where t = t and x = "w (Suc t) (Suc t)"])
     (simp_all add: cp_end_turn_own [OF inv un] un w coord_quiet_closeTurnAdmission)

lemma cp_inv_barrier_waited:
  assumes inv: "cp_inv_turn s" "cp_inv_barrier s" and un: "unended_turn (cp_turnPC s t)"
    and ga: "g = Suc t" "b = Suc t" and d: "turn_done (turn_at (coord (cp_perms s)) b)"
    and x: "\<not> unended_turn x" "waits_own_turn t x"
  shows "cp_inv_barrier (copilot_waited t g b x s)"
proof -
  have "cp_inFlight s = Some t" using cp_inv_turnD(4) [OF inv(1), of t] un unended_flying by blast
  then have alone: "\<not> unended_turn (cp_turnPC s u)" if "u \<noteq> t" for u
    using that cp_inv_turnD(4) [OF inv(1), of u] unended_flying by auto
  have same: "generation (end_turn_forget h a p) = generation p" "turn_at (end_turn_forget h a p) = turn_at p" for h a p
    by (simp_all add: end_turn_forget_def)
  show ?thesis
    using inv(2) d alone ga x by (auto simp: cp_inv_barrier_def copilot_effects same)
qed

lemma cp_inv_barrier_turns:
  assumes "copilot_turns norm_stop s s'" and "cp_inv_turn s" "cp_inv_barrier s"
  shows "cp_inv_barrier s'"
  using assms
proof (induction rule: copilot_turns.induct)
  case (prompt s p s')
  then show ?case by (blast intro: cp_inv_barrier_prompt)
next
  case (ends s t a)
  then show ?case by (intro cp_inv_barrier_ends) simp_all
next
  case (failed_ends s t e)
  then show ?case by (intro cp_inv_barrier_ends) simp_all
next
  case (waited s t g b a)
  then show ?case
    using cp_inv_barrierD(2) [OF waited.prems(2), of t] by (intro cp_inv_barrier_waited) simp_all
next
  case (failed_waited s t g b e)
  then show ?case
    using cp_inv_barrierD(2) [OF failed_waited.prems(2), of t] by (intro cp_inv_barrier_waited) simp_all
next
  case (cancel_permissions s)
  then show ?case
    using coord_quiet_CancelTurn [of "coord (cp_perms s)"]
    by (auto simp: cp_inv_barrier_def coord_quiet_def copilot_coord_def)
next
  case (failed_cleared s t e)
  show ?case
    by (rule cp_inv_barrier_move [OF failed_cleared.prems(2), where t = t and x = "CopilotOver (Inl e)"])
       (use failed_cleared.hyps in \<open>simp_all add: copilot_effects\<close>)
next
  case (unwritten s t i err partly)
  show ?case
    by (rule cp_inv_barrier_move [OF unwritten.prems(2), where t = t
          and x = "CopilotFailing (''copilotacp: session/prompt: '' @ err)"])
       (use unwritten.hyps in \<open>simp_all add: copilot_effects\<close>)
qed (auto simp: cp_inv_barrier_def copilot_effects)

interpretation cp_barrier: copilot_invariant norm_stop responder spawned cp_inv_turn cp_inv_barrier
  for norm_stop responder spawned
proof
  show "copilot_reach norm_stop (NewCopilotClient responder spawned) s \<Longrightarrow> cp_inv_turn s" for s
    by (rule cp_turn.reachable)
  show "cp_inv_barrier (NewCopilotClient responder spawned)"
    by (simp add: cp_inv_barrier_def NewCopilotClient_def new_permissions_def NewBestEffortPermissionRequests_def)
  show "cp_inv_barrier s \<Longrightarrow> calm s s' \<Longrightarrow> cp_inv_barrier s'" for s s'
    by (auto simp: cp_inv_barrier_def calm_def coord_quiet_def)
  show "cp_inv_turn s \<Longrightarrow> cp_inv_barrier s \<Longrightarrow> copilot_turns norm_stop s s' \<Longrightarrow> cp_inv_barrier s'" for s s'
    by (rule cp_inv_barrier_turns)
qed

lemma cp_ended_over:
  assumes s: "copilot_reach norm_stop (NewCopilotClient b c) s" and "ended_turn (cp_turnPC s t)"
    and "x \<in> set (calls (cp_perms s))" "counted (adm x)" "adm_turn (adm x) = Some (Suc t)"
  shows "over (pc x)"
proof -
  have inv: "inv_turns (coord (cp_perms s))" "inv_count (cp_perms s)"
    using cp_perm_inv [OF s] by (simp_all add: perm_inv_def)
  have "turn_done (turn_at (coord (cp_perms s)) (Suc t))"
    using cp_barrier.reachable [OF s] assms(2) by (simp add: cp_inv_barrier_def)
  then have "dispatches (turn_at (coord (cp_perms s)) (Suc t)) = 0" by (rule turn_ok_done [OF inv(1)])
  then have "count_of (holds_turn (Suc t)) (calls (cp_perms s)) = 0" using inv(2) by (simp add: inv_count_def)
  then have "\<not> holds_turn (Suc t) x" using assms(3) by (simp add: count_of_zero_iff)
  with assms(4,5) show ?thesis by (simp add: holds_turn_def)
qed

end
