(* ===== verification/Copilot_Lost.thy ===== *)
theory Copilot_Lost
  imports Copilot_Barrier
begin

text \<open>
  Two states of the Copilot client that no step leaves. A prompt whose request is registered
  after \<open>onReaderClosed\<close> emptied the table is answered by nobody: there is no reader any more
  and, unlike the bridge client, no lifetime that ends the wait. And a \<open>Close\<close> that comes
  before the connection is there spends the once of \<open>closeTransport\<close> on nothing, so nothing
  closes the connection that \<open>Launch\<close> then makes.
\<close>

subsection \<open>A turn nobody answers\<close>

definition lost_turn :: "nat \<Rightarrow> nat \<Rightarrow> copilot \<Rightarrow> bool" where
  "lost_turn t i s \<longleftrightarrow> cp_turnPC s t = CopilotAwaiting i \<and> cp_answers s i = None \<and>
     cp_reader s \<in> {ReaderReporting, ReaderDone}"

lemma lost_turns: "copilot_turns norm_stop s s' \<Longrightarrow> cp_inv_turn s \<Longrightarrow> lost_turn t i s \<Longrightarrow> lost_turn t i s'"
proof (induction rule: copilot_turns.induct)
  case (prompt s p s')
  have "cp_turnPC s (cp_turns s) = CopilotNone" using cp_inv_turnD(1) [OF prompt.prems(1)] by simp
  with prompt.prems(2) have "t \<noteq> cp_turns s" by (auto simp: lost_turn_def)
  with prompt show ?case
    by (auto simp: lost_turn_def copilot_prompt_def copilot_coord_def Let_def split: if_splits)
qed (auto simp: lost_turn_def copilot_effects)

lemma lost_others:
  "copilot_launches s s' \<Longrightarrow> lost_turn t i s \<Longrightarrow> cp_launch s \<noteq> CopilotConnected \<Longrightarrow> lost_turn t i s'"
  "copilot_answering s s' \<Longrightarrow> lost_turn t i s \<Longrightarrow> lost_turn t i s'"
  "copilot_others s s' \<Longrightarrow> lost_turn t i s \<Longrightarrow> lost_turn t i s'"
  "copilot_ends s s' \<Longrightarrow> lost_turn t i s \<Longrightarrow> lost_turn t i s'"
  "copilot_reads s s' \<Longrightarrow> lost_turn t i s \<Longrightarrow> lost_turn t i s'"
proof -
  show "copilot_launches s s' \<Longrightarrow> lost_turn t i s \<Longrightarrow> cp_launch s \<noteq> CopilotConnected \<Longrightarrow> lost_turn t i s'"
    by (induction rule: copilot_launches.induct) (auto simp: lost_turn_def copilot_others_effects)
  show "copilot_answering s s' \<Longrightarrow> lost_turn t i s \<Longrightarrow> lost_turn t i s'"
    by (induction rule: copilot_answering.induct) (auto simp: lost_turn_def copilot_others_effects)
  show "copilot_others s s' \<Longrightarrow> lost_turn t i s \<Longrightarrow> lost_turn t i s'"
    by (induction rule: copilot_others.induct) (auto simp: lost_turn_def copilot_others_effects)
  show "copilot_ends s s' \<Longrightarrow> lost_turn t i s \<Longrightarrow> lost_turn t i s'"
    by (induction rule: copilot_ends.induct) (auto simp: lost_turn_def copilot_others_effects)
  show "copilot_reads s s' \<Longrightarrow> lost_turn t i s \<Longrightarrow> lost_turn t i s'"
    by (induction rule: copilot_reads.induct) (auto simp: lost_turn_def copilot_others_effects)
qed

text \<open>The reader starts once: before the launch reached it, it idles.\<close>

definition cp_inv_reader :: "copilot \<Rightarrow> bool" where
  "cp_inv_reader s \<longleftrightarrow> (cp_launch s \<in> {CopilotFresh, CopilotCalled, CopilotConnected} \<longrightarrow> cp_reader s = ReaderIdle)"

lemma cp_inv_reader_step: "copilot_step norm_stop s s' \<Longrightarrow> cp_inv_reader s \<Longrightarrow> cp_inv_reader s'"
proof (induction rule: copilot_step.induct)
  case (Launches s s')
  then show ?case
    by (induction rule: copilot_launches.induct) (auto simp: cp_inv_reader_def copilot_others_effects)
next
  case (Turns s s')
  then show ?case
    by (induction rule: copilot_turns.induct)
       (auto simp: cp_inv_reader_def copilot_effects copilot_prompt_def split: if_splits)
next
  case (Reads s s')
  then show ?case
    by (induction rule: copilot_reads.induct)
       (auto simp: cp_inv_reader_def copilot_others_effects copilot_response_def split: option.splits)
next
  case (Answering s s')
  then show ?case
    by (induction rule: copilot_answering.induct) (auto simp: cp_inv_reader_def copilot_others_effects)
next
  case (Others s s')
  then show ?case
    by (induction rule: copilot_others.induct) (auto simp: cp_inv_reader_def copilot_others_effects)
next
  case (Ends s s')
  then show ?case
    by (induction rule: copilot_ends.induct) (auto simp: cp_inv_reader_def copilot_others_effects)
qed

lemma cp_inv_reader_reach: "copilot_reach norm_stop (NewCopilotClient b c) s \<Longrightarrow> cp_inv_reader s"
  by (induction "NewCopilotClient b c" s rule: copilot_reach.induct)
     (auto simp: cp_inv_reader_def NewCopilotClient_def dest: cp_inv_reader_step [unfolded cp_inv_reader_def])

lemma lost_step:
  assumes "copilot_step norm_stop s s'" and "cp_inv_turn s" "cp_inv_reader s" "lost_turn t i s"
  shows "lost_turn t i s'"
  using assms(1)
proof cases
  case Launches
  have "cp_launch s \<noteq> CopilotConnected" using assms(3,4) by (auto simp: cp_inv_reader_def lost_turn_def)
  with Launches assms(4) show ?thesis by (blast intro: lost_others(1))
qed (blast intro: lost_turns [OF _ assms(2,4)] lost_others(2,3,4,5) [OF _ assms(4)])+

lemma lost_forever:
  assumes "copilot_reach norm_stop s s'" and "copilot_reach norm_stop (NewCopilotClient b c) s" "lost_turn t i s"
  shows "lost_turn t i s'"
  using assms
proof (induction rule: copilot_reach.induct)
  case (step s s' s'')
  then have "copilot_reach norm_stop (NewCopilotClient b c) s'" by (blast intro: copilot_reach_trans)
  with step show ?case by (blast intro: lost_step cp_turn.reachable cp_inv_reader_reach)
qed

text \<open>What it means for the host.\<close>

lemma lost_means:
  assumes "copilot_reach norm_stop (NewCopilotClient b c) s" and "lost_turn t i s"
  shows "cp_inFlight s = Some t" "\<not> cp_eventsClosed s" "frames_of t (cp_attempted s) = [start_event t]"
    "\<exists>e. copilot_prompt p s = Inl e"
proof -
  have pc: "cp_turnPC s t = CopilotAwaiting i" using assms(2) by (simp add: lost_turn_def)
  show 1: "cp_inFlight s = Some t" using cp_inv_turnD(4) [OF cp_turn.reachable [OF assms(1)], of t] pc by simp
  show "\<not> cp_eventsClosed s"
    using cp_open_while_counted [OF cp_turn.reachable [OF assms(1)] cp_closing.reachable [OF assms(1)], of t] pc by simp
  show "frames_of t (cp_attempted s) = [start_event t]"
    using cp_telling.reachable [OF assms(1)] pc by (simp add: cp_inv_told_def)
  show "\<exists>e. copilot_prompt p s = Inl e" using 1 by (simp add: copilot_prompt_def)
qed

subsection \<open>A connection nobody closes\<close>

lemma once_spent:
  assumes "copilot_step norm_stop s s'" and "cp_once s \<and> \<not> transportClosed s \<and> cp_closed s"
  shows "cp_once s' \<and> \<not> transportClosed s' \<and> cp_closed s'"
  using assms
proof (induction rule: copilot_step.induct)
  case (Launches s s')
  then show ?case by (induction rule: copilot_launches.induct) (auto simp: copilot_others_effects)
next
  case (Turns s s')
  then show ?case
    by (induction rule: copilot_turns.induct) (auto simp: copilot_effects copilot_prompt_def split: if_splits)
next
  case (Reads s s')
  then show ?case
    by (induction rule: copilot_reads.induct)
       (auto simp: copilot_others_effects copilot_response_def split: option.splits)
next
  case (Answering s s')
  then show ?case by (induction rule: copilot_answering.induct) (auto simp: copilot_others_effects)
next
  case (Others s s')
  then show ?case by (induction rule: copilot_others.induct) (auto simp: copilot_others_effects)
next
  case (Ends s s')
  then show ?case by (induction rule: copilot_ends.induct) (auto simp: copilot_others_effects)
qed

lemma once_spent_forever:
  "copilot_reach norm_stop s s' \<Longrightarrow> cp_once s \<and> \<not> transportClosed s \<and> cp_closed s \<Longrightarrow>
   cp_once s' \<and> \<not> transportClosed s' \<and> cp_closed s'"
proof (induction rule: copilot_reach.induct)
  case (step s s' s'')
  from once_spent [OF step.hyps(2)] step show ?case by blast
qed

subsection \<open>Runs\<close>

lemma launch_steps:
  assumes "copilot_launches s s'" shows "copilot_reach norm_stop s s'"
  using copilot_reach.step [OF copilot_reach.start Launches [OF assms]] .

text \<open>A launch with any agent that answers: the fields a later prompt depends on.\<close>

lemma launch_runs:
  assumes "cp_launch s = CopilotFresh" "cp_eventsClosed s = e" and i: "i \<noteq> []"
  shows "\<exists>s'. copilot_reach norm_stop s s' \<and> cp_launch s' = CopilotLaunched \<and> cp_reader s' = Reading \<and>
    cp_session s' = i \<and> cp_conn s' \<and> cp_once s' = cp_once s \<and> transportClosed s' = transportClosed s \<and>
    cp_closed s' = cp_closed s \<and> cp_close s' = cp_close s \<and> cp_gate s' = cp_gate s \<and> cp_inFlight s' = cp_inFlight s \<and>
    cp_turns s' = cp_turns s \<and> cp_eventsClosing s' = cp_eventsClosing s \<and> cp_answers s' = cp_answers s \<and>
    cp_pending s' = cp_pending s \<and> cp_nextID s' = cp_nextID s"
proof -
  let ?a = "s\<lparr>cp_launch := CopilotCalled\<rparr>"
  let ?b = "?a\<lparr>cp_launch := CopilotConnected, cp_conn := True\<rparr>"
  let ?c = "?b\<lparr>cp_launch := CopilotStarted, cp_reader := Reading\<rparr>"
  let ?d = "(if cp_spawned ?c
      then pushEvent (event_of (KindOther ''process.started'') None (Some (AnyObject [(''pid'', AnyNull)]))) ?c
      else ?c)\<lparr>cp_launch := CopilotTalking, cp_termPC := TermRuns\<rparr>"
  let ?e = "?d\<lparr>cp_launch := CopilotNegotiated, cp_sessionClose := False\<rparr>"
  let ?f = "?e\<lparr>cp_launch := CopilotOpened i, cp_session := i, cp_systemPrompt := []\<rparr>"
  let ?g = "copilot_coord (SetSessionID i) (?f\<lparr>cp_launch := CopilotBound\<rparr>)"
  let ?h = "pushEvent (event_of KindSessionReady None None) (?g\<lparr>cp_launch := CopilotLaunched\<rparr>)"
  have 1: "copilot_launches s ?a" by (rule copilot_launches.called) (rule assms(1))
  have 2: "copilot_launches ?a ?b" by (rule copilot_launches.connected) simp
  have 3: "copilot_launches ?b ?c" by (rule copilot_launches.launch_started) simp
  have 4: "copilot_launches ?c ?d" by (rule copilot_launches.launch_told) simp
  have 5: "copilot_launches ?d ?e" by (rule copilot_launches.negotiated) simp
  have 6: "copilot_launches ?e ?f" by (rule copilot_launches.opened) (simp_all add: i)
  have 7: "copilot_launches ?f ?g" by (rule copilot_launches.bound) simp
  have 8: "copilot_launches ?g ?h" by (rule copilot_launches.ready) (simp add: copilot_coord_def)
  have "copilot_reach norm_stop s ?h"
    by (intro copilot_reach_trans [OF launch_steps [OF 8]] copilot_reach_trans [OF launch_steps [OF 7]]
        copilot_reach_trans [OF launch_steps [OF 6]] copilot_reach_trans [OF launch_steps [OF 5]]
        copilot_reach_trans [OF launch_steps [OF 4]] copilot_reach_trans [OF launch_steps [OF 3]]
        copilot_reach_trans [OF launch_steps [OF 2]] launch_steps [OF 1])
  then show ?thesis
    by (intro exI [of _ ?h]) (simp add: pushEvent_eq copilot_coord_def)
qed

text \<open>After the end of the stream, and before the events are sealed, a prompt is still admitted
  and its request still written.\<close>

lemma lost_runs:
  assumes "cp_reader s = Reading" "cp_session s \<noteq> []" "cp_gate s = GateFree" "cp_inFlight s = None"
    "\<not> cp_closed s" "\<not> cp_eventsClosing s" "\<not> transportClosed s" "cp_answers s = Map.empty" "cp_pending s = Map.empty"
  shows "\<exists>s'. copilot_reach norm_stop s s' \<and> lost_turn (cp_turns s) (Suc (cp_nextID s)) s'"
proof -
  let ?t = "cp_turns s" and ?i = "Suc (cp_nextID s)"
  let ?a = "s\<lparr>cp_reader := ReaderClosing\<rparr>"
  let ?b = "copilot_coord CloseCoordinator (?a\<lparr>cp_reader := ReaderFailing\<rparr>)"
  let ?c = "(onReaderClosed ?b)\<lparr>cp_reader := ReaderReporting\<rparr>"
  obtain d where p: "copilot_prompt ''hi'' ?c = Inr d"
    using assms by (simp add: copilot_prompt_def onReaderClosed_def copilot_coord_def Let_def)
  let ?e = "copilot_at ?t CopilotCalling (pushEvent (event_of KindTurnStarted (Some ?t) None) d)"
  let ?f = "copilot_call ?t ?e"
  let ?g = "copilot_written ?t ?i ?f"
  have d: "cp_turnPC d ?t = CopilotStarting" "cp_nextID d = cp_nextID s" "\<not> transportClosed d"
    "cp_reader d = ReaderReporting" "cp_answers d = Map.empty"
    using p assms by (auto simp: copilot_prompt_def onReaderClosed_def copilot_coord_def Let_def split: if_splits)
  have 1: "copilot_step norm_stop s ?a" by (rule Reads, rule copilot_reads.stream_ended) (rule assms(1))
  have 2: "copilot_step norm_stop ?a ?b" by (rule Reads, rule copilot_reads.reader_closed) simp
  have 3: "copilot_step norm_stop ?b ?c" by (rule Reads, rule copilot_reads.reader_failed) (simp add: copilot_coord_def)
  have 4: "copilot_step norm_stop ?c d"
    by (rule Turns, rule copilot_turns.prompt [OF _ p]) (simp add: copilot_coord_def onReaderClosed_def assms(3))
  have 5: "copilot_step norm_stop d ?e" by (rule Turns, rule copilot_turns.started) (rule d(1))
  have 6: "copilot_step norm_stop ?e ?f" by (rule Turns, rule copilot_turns.call) (simp add: copilot_effects)
  have 7: "copilot_step norm_stop ?f ?g"
    by (rule Turns, rule copilot_turns.written) (simp_all add: copilot_effects d)
  have "copilot_reach norm_stop s ?g"
    by (rule copilot_reach.step [OF copilot_reach.step [OF copilot_reach.step [OF copilot_reach.step [OF
          copilot_reach.step [OF copilot_reach.step [OF copilot_reach.step [OF copilot_reach.start 1] 2] 3] 4] 5] 6] 7])
  moreover have "lost_turn ?t ?i ?g" by (simp add: lost_turn_def copilot_effects d)
  ultimately show ?thesis by blast
qed

text \<open>A close before the launch, with nothing to close, returns after it closed the events.\<close>

lemma close_runs:
  assumes "cp_close s = CloseNot" "cp_launch s = CopilotFresh" "cp_reader s = ReaderIdle" "\<not> cp_conn s"
    "\<not> cp_once s" "\<not> transportClosed s" "cp_turnWG s = 0"
  shows "\<exists>s'. copilot_reach norm_stop s s' \<and> cp_close s' = CloseOver \<and> cp_launch s' = CopilotFresh \<and>
    cp_closed s' \<and> cp_once s' \<and> \<not> transportClosed s' \<and> cp_eventsClosed s'"
proof -
  let ?a = "s\<lparr>cp_closed := True, cp_close := CloseAsked False False\<rparr>"
  let ?b = "?a\<lparr>cp_close := CloseQuieted False\<rparr>"
  let ?c = "?b\<lparr>cp_close := CloseForced False\<rparr>"
  let ?d = "closeTransport (?c\<lparr>cp_close := CloseCuts False\<rparr>)"
  let ?e = "closeTransport (?d\<lparr>cp_close := CloseSeals\<rparr>)"
  let ?f = "?e\<lparr>cp_eventsClosing := True\<rparr>"
  let ?g = "?f\<lparr>cp_eventsClosed := True, cp_close := CloseOver\<rparr>"
  have 1: "copilot_step norm_stop s ?a"
    using Ends [OF copilot_ends.close [OF assms(1)]] assms(2,3) by simp
  have 2: "copilot_step norm_stop ?a ?b"
    using Ends [OF copilot_ends.close_permissions [of ?a False False]] by simp
  have 3: "copilot_step norm_stop ?b ?c" using Ends [OF copilot_ends.close_gives_up [of ?b False]] by simp
  have 4: "copilot_step norm_stop ?c ?d" by (rule Ends, rule copilot_ends.close_forces) simp
  have 5: "copilot_step norm_stop ?d ?e"
    using Ends [OF copilot_ends.close_cuts [of ?d False]] by (simp add: closeTransport_eq)
  have 6: "copilot_step norm_stop ?e ?f" by (rule Ends, rule copilot_ends.close_seals) (simp add: closeTransport_eq)
  have 7: "copilot_step norm_stop ?f ?g"
    by (rule Ends, rule copilot_ends.close_sealed) (simp_all add: closeTransport_eq assms(7))
  have "copilot_reach norm_stop s ?g"
    by (rule copilot_reach.step [OF copilot_reach.step [OF copilot_reach.step [OF copilot_reach.step [OF
          copilot_reach.step [OF copilot_reach.step [OF copilot_reach.step [OF copilot_reach.start 1] 2] 3] 4] 5] 6] 7])
  then show ?thesis by (intro exI [of _ ?g]) (simp add: closeTransport_eq assms)
qed

end
