(* ===== verification/Copilot_Properties.thy ===== *)
theory Copilot_Properties
  imports Copilot_Lost Bridge_Properties
begin

text \<open>
  Properties of the Copilot client over all its interleavings: what it tells of its turns and
  in which order with their permission requests, a prompt that is lost, a close that is
  overtaken by the launch, and the script of a launch.
\<close>

text \<open>
  C24. A turn of a Copilot agent is told exactly once. Of the events given to \<open>pushEvent\<close> while
  the channel was open, those that start or end turn \<open>t\<close> are those its place says: none,
  \<open>turn.started\<close>, or that and one terminal event, the failure of its write or what the answer
  of its own request says. The turn in flight is the one between its admission and the end of
  \<open>endTurn\<close>; the events are open while a turn the wait group counts is under way; and past
  \<open>EndTurn\<close> every permission request that was dispatched in the turn is over.
\<close>

theorem copilot_turns_told:
  assumes "copilot_reach norm_stop (NewCopilotClient responder spawned) s"
  shows "frames_of t (cp_attempted s) = copilot_told norm_stop t (cp_turnPC s t) \<and>
    (flying_turn (cp_turnPC s t) \<longleftrightarrow> cp_inFlight s = Some t) \<and>
    (cp_eventsClosed s \<longrightarrow> \<not> counted_turn (cp_turnPC s t)) \<and>
    (ended_turn (cp_turnPC s t) \<longrightarrow>
      list_all (\<lambda>c. over (pc c)) (filter (\<lambda>c. counted (adm c) \<and> adm_turn (adm c) = Some (Suc t)) (calls (cp_perms s))))"
proof -
  have inv: "cp_inv_turn s" "cp_inv_closed s" "cp_inv_told norm_stop s"
    using assms by (rule cp_turn.reachable cp_closing.reachable cp_telling.reachable)+
  have "list_all (\<lambda>c. over (pc c)) (filter (\<lambda>c. counted (adm c) \<and> adm_turn (adm c) = Some (Suc t)) (calls (cp_perms s)))"
    if "ended_turn (cp_turnPC s t)"
    using cp_ended_over [OF assms, of t] that by (auto simp: list_all_iff)
  moreover have "\<not> counted_turn (cp_turnPC s t)" if "cp_eventsClosed s"
    using cp_open_while_counted [OF inv(1,2), of t] that by blast
  ultimately show ?thesis using inv(3) cp_inv_turnD(4) [OF inv(1), of t] by (auto simp: cp_inv_told_def)
qed

lemma lost_run:
  "\<exists>s. copilot_reach norm_stop (NewCopilotClient b c) s \<and> lost_turn 0 1 s"
proof -
  let ?new = "NewCopilotClient b c"
  obtain s where s: "copilot_reach norm_stop ?new s" "cp_reader s = Reading" "cp_session s \<noteq> []" "cp_gate s = GateFree"
    "cp_inFlight s = None" "\<not> cp_closed s" "\<not> cp_eventsClosing s" "\<not> transportClosed s" "cp_answers s = Map.empty"
    "cp_pending s = Map.empty" and first: "cp_turns s = 0" "cp_nextID s = 0"
    using launch_runs [of ?new False "''s''" norm_stop] by (auto simp: NewCopilotClient_def)
  obtain u where u: "copilot_reach norm_stop s u" "lost_turn (cp_turns s) (Suc (cp_nextID s)) u"
    using lost_runs [OF s(2-10)] by blast
  have "copilot_reach norm_stop ?new u" using u(1) s(1) by (rule copilot_reach_trans)
  then show ?thesis using u(2) first by auto
qed

text \<open>
  C18. A prompt can be lost for ever. There is a run in which a prompt is admitted after the
  reader of the agent's stream ended and before the events are sealed, and its request is
  written; and from there on, whatever the agent, the host, \<open>Close\<close> or the end of the process
  does, the turn is in flight with nothing told of it but its start, the events are never
  closed and every further prompt is refused.
\<close>

theorem copilot_prompt_lost:
  "\<exists>s t. copilot_reach norm_stop (NewCopilotClient responder spawned) s \<and>
    (\<forall>s' p. copilot_reach norm_stop s s' \<longrightarrow> cp_inFlight s' = Some t \<and>
       frames_of t (cp_attempted s') = [start_event t] \<and> \<not> cp_eventsClosed s' \<and> (\<exists>e. copilot_prompt p s' = Inl e))"
proof -
  let ?new = "NewCopilotClient responder spawned"
  obtain u where u': "copilot_reach norm_stop ?new u" and u: "lost_turn 0 1 u"
    using lost_run [of norm_stop responder spawned] by blast
  have "cp_inFlight s' = Some 0 \<and> frames_of 0 (cp_attempted s') = [start_event 0] \<and> \<not> cp_eventsClosed s' \<and>
      (\<exists>e. copilot_prompt p s' = Inl e)" if r: "copilot_reach norm_stop u s'" for s' p
    using lost_means [OF copilot_reach_trans [OF r u'] lost_forever [OF r u' u]] by simp
  with u' show ?thesis by blast
qed

text \<open>
  C9. A close can be overtaken by the launch. There is a run in which \<open>Close\<close> has returned and
  the launch then succeeds, and from there on nothing closes the connection: the client is
  closed, its one \<open>Close\<close> and its one \<open>closeTransport\<close> are spent, and the transport stays open
  in every later state.
\<close>

theorem copilot_close_overtaken:
  "\<exists>s. copilot_reach norm_stop (NewCopilotClient responder spawned) s \<and> cp_close s = CloseOver \<and>
    cp_launch s = CopilotLaunched \<and> cp_conn s \<and>
    (\<forall>s'. copilot_reach norm_stop s s' \<longrightarrow> cp_closed s' \<and> \<not> transportClosed s')"
proof -
  let ?new = "NewCopilotClient responder spawned"
  obtain s where s: "copilot_reach norm_stop ?new s" "cp_close s = CloseOver" "cp_launch s = CopilotFresh"
    "cp_closed s" "cp_once s" "\<not> transportClosed s"
    using close_runs [of ?new norm_stop] by (auto simp: NewCopilotClient_def)
  obtain u where u: "copilot_reach norm_stop s u" "cp_launch u = CopilotLaunched" "cp_conn u"
    "cp_close u = CloseOver" "cp_closed u" "cp_once u" "\<not> transportClosed u"
    using launch_runs [OF s(3) refl, of "''s''" norm_stop] s by auto
  have "copilot_reach norm_stop ?new u" using u(1) s(1) by (rule copilot_reach_trans)
  then show ?thesis using once_spent_forever [of norm_stop u] u(2-7) by blast
qed

subsection \<open>The script of a launch\<close>

text \<open>The agent is asked what the bridge client would ask, but for the parameters of \<open>initialize\<close>;
  a preset that cannot be loaded is not told of.\<close>

lemma copilot_session_id_Inr:
  "copilot_session_id r h = (Inr i, h') \<longleftrightarrow>
     unmarshal (dec_struct [(''sessionId'', \<lambda>j s. dec_string j s)]) r [] = (True, i) \<and> i \<noteq> [] \<and> h' = h"
  by (cases "unmarshal (dec_struct [(''sessionId'', \<lambda>j s. dec_string j s)]) r []")
     (auto simp: copilot_session_id_def)

lemma copilot_open_Inr:
  "copilot_open ask ps init servers h = (Inr i, h') \<longleftrightarrow>
     (\<exists>r. ask h (session_call ps init servers) = Inr r \<and> h' = h @ [session_call ps init servers] \<and>
       (if resumes ps init then i = SessionIDPreset ps
        else i \<noteq> [] \<and> unmarshal (dec_struct [(''sessionId'', \<lambda>j s. dec_string j s)]) r [] = (True, i)))"
  by (auto simp: copilot_open_def loadSession_def conversation_simps session_call_def copilot_session_id_Inr)

theorem copilot_launch_scripted:
  assumes "copilot_handshake ask name version ps [] = (Inr est, h)"
  shows "\<exists>init. h = (''initialize'', copilot_initialize_params name version) # tl (launch_script ps init (est_sessionID est)) \<and>
    answered ask [] h \<and> est_sessionID est \<noteq> [] \<and> (resumes ps init \<longrightarrow> est_sessionID est = SessionIDPreset ps) \<and>
    est_sessionClose est = SessionClose init \<and> est_systemPrompt est = bp_SystemPrompt ps"
proof -
  let ?c = "(''initialize'', copilot_initialize_params name version)"
  obtain r init servers skipped i h1 h2 where
    1: "ask [] ?c = Inr r"
    and 2: "authenticate ask init (AuthMethodID ps) [?c] = (Inr (), h1)"
      "mcp_servers ps init h1 = (Inr (servers, skipped), h1)"
      "copilot_open ask ps init servers h1 = (Inr i, h2)"
      "configureSession ask i ps h2 = (Inr (), h)"
    and est: "est = \<lparr>est_sessionID = i, est_systemPrompt = bp_SystemPrompt ps,
       est_sessionClose = SessionClose init, est_skipped = skipped, est_events = [(KindSessionReady, None)]\<rparr>"
    using assms
    by (auto simp: copilot_handshake_def conversation_simps parse_initialize_Inr mcp_servers_Inr)
  have h1: "h1 = [?c] @ auth_calls ps" "answered ask [] h1"
    using 1 2(1) by (auto simp: authenticate_Inr auth_calls_def answered_Cons split: if_splits)
  have servers: "servers = mcp_sent (MCPHTTP init) (MCPServers ps)"
    using 2(2) by (simp add: mcp_servers_Inr)
  have h2: "h2 = h1 @ [session_call ps init servers]" "answered ask h1 [session_call ps init servers]"
    "i \<noteq> []" "resumes ps init \<Longrightarrow> i = SessionIDPreset ps"
    using 2(3) by (auto simp: copilot_open_Inr answered_Cons resumes_def split: if_splits)
  show ?thesis
    using 2(4) h1 h2 est
    by (auto simp: configureSession_Inr launch_script_def servers answered_append answered_Cons)
qed

subsection \<open>Witnesses\<close>

theorem copilot_turns_told_witness:
  "\<exists>s. copilot_reach id (NewCopilotClient True True) s \<and> frames_of 0 (cp_attempted s) = [start_event 0] \<and>
    cp_inFlight s = Some 0"
proof -
  obtain s where s: "copilot_reach id (NewCopilotClient True True) s" "lost_turn 0 1 s"
    using lost_run [of id True True] by blast
  then have "cp_turnPC s 0 = CopilotAwaiting 1" by (simp add: lost_turn_def)
  with copilot_turns_told [OF s(1), of 0] s(1) show ?thesis by (intro exI [of _ s]) simp
qed

theorem copilot_prompt_lost_witness:
  "\<exists>s t. copilot_reach id (NewCopilotClient True True) s \<and> cp_inFlight s = Some t \<and> \<not> cp_eventsClosed s"
  using copilot_prompt_lost [where norm_stop = id and responder = True and spawned = True] copilot_reach.start
  by blast

theorem copilot_close_overtaken_witness:
  "\<exists>s. copilot_reach id (NewCopilotClient True False) s \<and> cp_close s = CloseOver \<and> cp_conn s \<and> \<not> transportClosed s"
  using copilot_close_overtaken [where norm_stop = id and responder = True and spawned = False] copilot_reach.start
  by blast

end
