(* ===== verification/Snapshot_Paths.thy ===== *)
theory Snapshot_Paths
  imports Go_Numbers Go_Strings "HOL-Library.AList" "HOL-Library.List_Lexorder" "HOL-Library.Char_ord"
begin

text \<open>
  The pure parts of \<open>snapshot/shadowgit.go\<close> and \<open>snapshot/types.go\<close>: Go's \<open>path.Clean\<close> and
  \<open>filepath.Join\<close> on Unix, the checks of targets and restore paths, pathspecs, what git prints
  and how it is read, the names of snapshot refs, and the isolated environment.
\<close>

subsection \<open>Paths\<close>

fun split_on :: "char \<Rightarrow> string \<Rightarrow> string list" where
  "split_on x [] = [[]]"
| "split_on x (c # s) =
     (if c = x then [] # split_on x s
      else case split_on x s of [] \<Rightarrow> [[c]] | p # ps \<Rightarrow> (c # p) # ps)"

text \<open>The components of \<open>path.Clean\<close>; the accumulator holds the ones kept so far, last first.\<close>

fun clean_parts :: "bool \<Rightarrow> string list \<Rightarrow> string list \<Rightarrow> string list" where
  "clean_parts rooted acc [] = rev acc"
| "clean_parts rooted acc (p # ps) =
     (if p = [] \<or> p = ''.'' then clean_parts rooted acc ps
      else if p = ''..'' then
        (case acc of
           [] \<Rightarrow> clean_parts rooted (if rooted then [] else [''..'']) ps
         | a # as \<Rightarrow> clean_parts rooted (if a = ''..'' then ''..'' # acc else as) ps)
      else clean_parts rooted (p # acc) ps)"

definition IsAbs :: "string \<Rightarrow> bool" where
  "IsAbs s \<longleftrightarrow> s \<noteq> [] \<and> hd s = CHR ''/''"

definition parts_of :: "string \<Rightarrow> string list" where
  "parts_of s = clean_parts (IsAbs s) [] (split_on (CHR ''/'') s)"

definition Clean :: "string \<Rightarrow> string" where
  "Clean s = (if s = [] then ''.''
     else if IsAbs s then CHR ''/'' # Join (parts_of s) ''/''
     else if parts_of s = [] then ''.'' else Join (parts_of s) ''/'')"

definition JoinUnder :: "string \<Rightarrow> string \<Rightarrow> string" where
  "JoinUnder root rel =
     (if root = [] then (if rel = [] then [] else Clean rel)
      else if rel = [] then Clean root else Clean (root @ ''/'' @ rel))"

definition Dir :: "string \<Rightarrow> string" where
  "Dir p = Clean (rev (dropWhile (\<lambda>c. c \<noteq> CHR ''/'') (rev p)))"

subsection \<open>Targets and path references\<close>

record target =
  tg_ID :: string
  tg_Root :: string
  IncludePaths :: "string list"

definition validate_target :: "target \<Rightarrow> bool" where
  "validate_target t \<longleftrightarrow> TrimSpace (tg_ID t) \<noteq> [] \<and> TrimSpace (tg_Root t) \<noteq> []"

definition pathRefSep :: char where "pathRefSep = CHR 0x00"

definition JoinPath :: "string \<Rightarrow> string \<Rightarrow> string" where
  "JoinPath i rel = i @ [pathRefSep] @ rel"

definition SplitPath :: "string \<Rightarrow> (string \<times> string) option" where
  "SplitPath s = (let (i, rel, found) = Cut_char pathRefSep s in if found then Some (i, rel) else None)"

text \<open>\<open>groupPathsByTarget\<close>: the targets in the order they are first seen, each with its paths.\<close>

fun group_loop :: "(string \<times> string list) list \<Rightarrow> string list \<Rightarrow> (string \<times> string list) list option" where
  "group_loop acc [] = Some acc"
| "group_loop acc (p # ps) =
     (case SplitPath p of
        None \<Rightarrow> None
      | Some (i, rel) \<Rightarrow>
          group_loop (AList.update i ((case map_of acc i of None \<Rightarrow> [] | Some rs \<Rightarrow> rs) @ [rel]) acc) ps)"

definition groupPathsByTarget :: "string list \<Rightarrow> (string \<times> string list) list option" where
  "groupPathsByTarget ps = group_loop [] ps"

definition validateRestorePath :: "string \<Rightarrow> bool" where
  "validateRestorePath rel \<longleftrightarrow> rel \<noteq> [] \<and>
     (let cleaned = Clean rel in
      cleaned \<noteq> ''.'' \<and> cleaned \<noteq> ''..'' \<and> \<not> starts_with ''../'' cleaned \<and> \<not> IsAbs cleaned)"

subsection \<open>What is captured\<close>

fun includes_loop :: "string list \<Rightarrow> string list \<Rightarrow> string list" where
  "includes_loop out [] = out"
| "includes_loop out (p # ps) =
     (let q = Trim_char (CHR ''/'') (TrimSpace p)
      in if q = [] \<or> q = ''.'' then [] else includes_loop (out @ [q]) ps)"

definition normalizeIncludes :: "string list \<Rightarrow> string list" where
  "normalizeIncludes ps = includes_loop [] ps"

definition gitMetadataExcludes :: "string list" where
  "gitMetadataExcludes = ['':(exclude).git'', '':(exclude,glob)**/.git'']"

definition buildPathspecs :: "string list \<Rightarrow> string list \<Rightarrow> string list" where
  "buildPathspecs includes oversize =
     (if includes = [] then [''.''] else includes) @ gitMetadataExcludes @ map ((@) '':(exclude)'') oversize"

subsection \<open>What git prints\<close>

definition newline_char :: char where "newline_char = CHR 0x0A"

definition splitLines :: "string \<Rightarrow> string list" where
  "splitLines b =
     (let s = rev (dropWhile (\<lambda>c. c = newline_char) (rev b))
      in if s = [] then [] else split_on newline_char s)"

datatype change_kind = ChangeAdded | ChangeModified | ChangeDeleted | ChangeUnchanged

definition changeKindFromStatus :: "string \<Rightarrow> change_kind option" where
  "changeKindFromStatus code =
     (case code of
        [] \<Rightarrow> None
      | c # _ \<Rightarrow>
          if c = CHR ''A'' then Some ChangeAdded
          else if c = CHR ''M'' then Some ChangeModified
          else if c = CHR ''D'' then Some ChangeDeleted else None)"

fun name_status :: "string list \<Rightarrow> (string \<times> change_kind) list option" where
  "name_status [] = Some []"
| "name_status (l # ls) =
     (case Cut_char (CHR 0x09) l of
        (code, path, found) \<Rightarrow>
          if \<not> found then None
          else (case changeKindFromStatus code of
                  None \<Rightarrow> None
                | Some k \<Rightarrow> map_option ((#) (path, k)) (name_status ls)))"

definition parseNameStatus :: "string \<Rightarrow> (string \<times> change_kind) list option" where
  "parseNameStatus out = map_option (sort_key fst) (name_status (splitLines out))"

fun fields_from :: "string \<Rightarrow> string \<Rightarrow> string list" where
  "fields_from cur [] = (if cur = [] then [] else [rev cur])"
| "fields_from cur (c # s) =
     (case find (\<lambda>w. starts_with w (c # s)) white_space of
        Some w \<Rightarrow> (if cur = [] then [] else [rev cur]) @ fields_from [] (drop (length w - 1) s)
      | None \<Rightarrow> fields_from (c # cur) s)"

definition Fields :: "string \<Rightarrow> string list" where
  "Fields s = fields_from [] s"

text \<open>The line of \<open>git ls-tree\<close> as \<open>blobAt\<close> reads it: hash and mode, nothing, or an error.\<close>

definition read_tree_line :: "string \<Rightarrow> (string \<times> string) option option" where
  "read_tree_line out =
     (let line = TrimSpace out in
      if line = [] then Some None
      else case Cut_char (CHR 0x09) line of
        (before, _, found) \<Rightarrow>
          if \<not> found then None
          else (case Fields before of
                  [mode, kind, hash] \<Rightarrow> Some (Some (hash, mode))
                | _ \<Rightarrow> None))"

definition classifyRestore :: "bool \<Rightarrow> bool \<Rightarrow> string \<Rightarrow> string \<Rightarrow> change_kind" where
  "classifyRestore curExists snapExists curHash snapHash =
     (if \<not> curExists \<and> \<not> snapExists then ChangeUnchanged
      else if \<not> curExists \<and> snapExists then ChangeAdded
      else if curExists \<and> \<not> snapExists then ChangeDeleted
      else if curHash = snapHash then ChangeUnchanged else ChangeModified)"

definition unionKeys :: "(string \<times> 'a) list \<Rightarrow> (string \<times> 'a) list \<Rightarrow> string list" where
  "unionKeys a b = sort (remdups (map fst a @ map fst b))"

subsection \<open>Snapshot refs\<close>

definition snapshotRefPrefix :: string where "snapshotRefPrefix = ''refs/snapshots/''"

definition zero_padded :: "nat \<Rightarrow> string \<Rightarrow> string" where
  "zero_padded n ds = replicate (n - length ds) (CHR ''0'') @ ds"

text \<open>\<open>%020d\<close> counts the sign into the width.\<close>

definition padded20 :: "int \<Rightarrow> string" where
  "padded20 i = (if i < 0 then CHR ''-'' # zero_padded 19 (nat_text (nat (- i))) else zero_padded 20 (nat_text (nat i)))"

definition snapshotRefName :: "int \<Rightarrow> string \<Rightarrow> string" where
  "snapshotRefName nanos nonce = snapshotRefPrefix @ padded20 nanos @ ''-'' @ nonce"

text \<open>\<open>strconv.ParseInt(s, 10, 64)\<close> also takes a plus sign.\<close>

definition ParseInt64 :: "string \<Rightarrow> int option" where
  "ParseInt64 s =
     (case (case s of c # ds \<Rightarrow> if c = CHR ''+'' then (if ds = [] then None else map_option int (parse_digits 0 ds)) else parse_int s
             | [] \<Rightarrow> None) of
        Some i \<Rightarrow> if in_int64 i then Some i else None
      | None \<Rightarrow> None)"

definition TrimPrefix :: "string \<Rightarrow> string \<Rightarrow> string" where
  "TrimPrefix s p = (if starts_with p s then drop (length p) s else s)"

definition parseSnapshotRefTimestamp :: "string \<Rightarrow> int option" where
  "parseSnapshotRefTimestamp ref =
     (case Cut_char (CHR ''-'') (TrimPrefix ref snapshotRefPrefix) of
        (digits, _, found) \<Rightarrow> if found then ParseInt64 digits else None)"

subsection \<open>The environment of git\<close>

definition isolatedEnv :: "string list \<Rightarrow> string list \<Rightarrow> string list" where
  "isolatedEnv environ extra = filter (\<lambda>kv. \<not> starts_with ''GIT_'' kv) environ @ extra"

subsection \<open>Round trips\<close>

lemma split_join_path: "pathRefSep \<notin> set i \<Longrightarrow> SplitPath (JoinPath i rel) = Some (i, rel)"
  by (simp add: SplitPath_def JoinPath_def Cut_char_def takeWhile_append dropWhile_append)

lemma SplitPath_Some: "SplitPath s = Some (i, rel) \<Longrightarrow> s = JoinPath i rel \<and> pathRefSep \<notin> set i"
proof -
  assume a: "SplitPath s = Some (i, rel)"
  then have "pathRefSep \<in> set s" and i: "i = takeWhile (\<lambda>d. d \<noteq> pathRefSep) s"
    and rel: "rel = tl (dropWhile (\<lambda>d. d \<noteq> pathRefSep) s)"
    by (auto simp: SplitPath_def Cut_char_def split: if_splits)
  then have "dropWhile (\<lambda>d. d \<noteq> pathRefSep) s \<noteq> []" "hd (dropWhile (\<lambda>d. d \<noteq> pathRefSep) s) = pathRefSep"
    using hd_dropWhile [of "\<lambda>d. d \<noteq> pathRefSep" s] by auto
  then have "dropWhile (\<lambda>d. d \<noteq> pathRefSep) s = pathRefSep # rel" using rel by (metis list.collapse)
  then show ?thesis
    using i takeWhile_dropWhile_id [of "\<lambda>d. d \<noteq> pathRefSep" s] set_takeWhileD [of pathRefSep _ s]
    by (auto simp: JoinPath_def)
qed

lemma parse_zeros: "parse_digits 0 (replicate n (CHR ''0'') @ ds) = parse_digits 0 ds"
proof -
  have "parse_digits 0 (replicate n (CHR ''0'')) = Some 0"
    by (induction n) (simp_all add: digit_value_def)
  then show ?thesis by (simp add: parse_digits_append)
qed

lemma nat_text_digits: "set (nat_text n) \<subseteq> digit ` {..<10}"
proof (induction n rule: nat_text.induct)
  case (1 n)
  show ?case
  proof (cases "n < 10")
    case True
    then show ?thesis by (simp add: nat_text.simps [of n])
  next
    case False
    with 1 show ?thesis by (auto simp: nat_text.simps [of n])
  qed
qed

lemma not_a_digit:
  assumes "\<And>k. k < 10 \<Longrightarrow> digit k \<noteq> c" shows "c \<notin> set (nat_text n)"
proof
  assume "c \<in> set (nat_text n)"
  then have "c \<in> digit ` {..<10}" using nat_text_digits [of n] by (rule rev_subsetD)
  then show False using assms by auto
qed

lemma digit_sign: "CHR ''-'' \<notin> set (nat_text n)" "CHR ''+'' \<notin> set (nat_text n)"
proof -
  have "digit k \<noteq> CHR ''+''" if "k < 10" for k
    using digit_value_digit [OF that] by (auto simp: digit_value_def)
  then show "CHR ''+'' \<notin> set (nat_text n)" by (rule not_a_digit)
qed (simp add: not_a_digit)

lemma snapshot_ref_roundtrip:
  assumes "0 \<le> i" "in_int64 i"
  shows "parseSnapshotRefTimestamp (snapshotRefName i nonce) = Some i"
proof -
  let ?ds = "zero_padded 20 (nat_text (nat i))"
  obtain c ds where ds: "?ds = c # ds" "c \<noteq> CHR ''-''" "c \<noteq> CHR ''+''"
  proof (cases ?ds)
    case Nil
    then show ?thesis using nat_text_Cons [of "nat i"] by (auto simp: zero_padded_def)
  next
    case (Cons c ds)
    then have "c \<in> set ?ds" by simp
    then have "c \<in> set (nat_text (nat i)) \<or> c = CHR ''0''" by (auto simp: zero_padded_def)
    then show ?thesis using digit_sign [of "nat i"] Cons that by auto
  qed
  have no: "CHR ''-'' \<notin> set ?ds" using digit_sign [of "nat i"] by (auto simp: zero_padded_def)
  have "parse_digits 0 ?ds = Some (nat i)" by (simp add: zero_padded_def parse_zeros parse_nat_text)
  then have "parse_int ?ds = Some i" using ds assms(1) by (simp add: parse_int_def)
  then have "ParseInt64 ?ds = Some i" using ds assms(2) by (simp add: ParseInt64_def)
  then show ?thesis
    using no assms(1)
    by (simp add: parseSnapshotRefTimestamp_def snapshotRefName_def padded20_def TrimPrefix_def Cut_char_def
        starts_with_iff takeWhile_append dropWhile_append)
qed

subsection \<open>Restore paths stay below the root\<close>

lemma clean_parts_append: "clean_parts r acc (xs @ ys) = clean_parts r (rev (clean_parts r acc xs)) ys"
proof (induction r acc xs rule: clean_parts.induct)
  case (2 r acc p ps)
  then show ?case by (cases acc) auto
qed simp

lemma split_on_not_Nil [simp]: "split_on x s \<noteq> []"
  by (induction s) (auto split: list.split)

lemma split_on_append: "split_on x (s @ x # t) = split_on x s @ split_on x t"
proof (induction s)
  case (Cons c s)
  then show ?case by (cases "split_on x s") auto
qed simp

text \<open>Once a climb out of the start is kept, it stays in front.\<close>

lemma climbed: "acc \<noteq> [] \<Longrightarrow> last acc = ''..'' \<Longrightarrow> \<exists>ps. clean_parts False acc xs = ''..'' # ps"
proof (induction xs arbitrary: acc)
  case Nil
  then show ?case by (metis append_butlast_last_id clean_parts.simps(1) rev_eq_Cons_iff rev_rev_ident)
next
  case (Cons p xs)
  show ?case
  proof (cases "p = ''..''")
    case True
    obtain a as where acc: "acc = a # as" using Cons.prems(1) by (cases acc) auto
    have "as \<noteq> [] \<and> last as = ''..''" if "a \<noteq> ''..''" using Cons.prems(2) that acc by (cases as) auto
    then show ?thesis using Cons.IH [of "''..'' # acc"] Cons.IH [of as] Cons.prems acc True by auto
  next
    case False
    then show ?thesis using Cons.IH [of acc] Cons.IH [of "p # acc"] Cons.prems by auto
  qed
qed

lemma below:
  assumes "''..'' \<notin> set acc" and "\<forall>ps. clean_parts False acc xs \<noteq> ''..'' # ps"
  shows "clean_parts r (acc @ base) xs = rev base @ clean_parts False acc xs \<and> ''..'' \<notin> set (clean_parts False acc xs)"
  using assms
proof (induction xs arbitrary: acc)
  case (Cons p xs)
  show ?case
  proof (cases "p = ''..''")
    case True
    show ?thesis
    proof (cases acc)
      case Nil
      then show ?thesis using Cons.prems(2) True climbed [of "[''..'']" xs] by auto
    next
      case (Cons a as)
      then show ?thesis using Cons.IH [of as] Cons.prems True by auto
    qed
  next
    case False
    then show ?thesis using Cons.IH [of acc] Cons.IH [of "p # acc"] Cons.prems by auto
  qed
qed simp

lemma Join_starts: "starts_with ''../'' (Join (''..'' # p # ps) ''/'')"
  by (simp add: starts_with_iff)

lemma restore_path_parts:
  assumes "validateRestorePath rel"
  shows "\<not> IsAbs rel" "rel \<noteq> []" "parts_of rel \<noteq> []" "\<forall>ps. parts_of rel \<noteq> ''..'' # ps"
proof -
  show "rel \<noteq> []" "\<not> IsAbs rel" using assms by (auto simp: validateRestorePath_def Clean_def IsAbs_def Let_def split: if_splits)
  with assms have c: "Clean rel \<noteq> ''.''" "Clean rel \<noteq> ''..''" "\<not> starts_with ''../'' (Clean rel)"
    by (simp_all add: validateRestorePath_def Let_def)
  then show p: "parts_of rel \<noteq> []" using \<open>\<not> IsAbs rel\<close> \<open>rel \<noteq> []\<close> by (auto simp: Clean_def)
  show "\<forall>ps. parts_of rel \<noteq> ''..'' # ps"
  proof (intro allI notI)
    fix ps assume ps: "parts_of rel = ''..'' # ps"
    then have "Clean rel = Join (''..'' # ps) ''/''" using \<open>\<not> IsAbs rel\<close> \<open>rel \<noteq> []\<close> by (simp add: Clean_def)
    then show False using c Join_starts by (cases ps) auto
  qed
qed

lemma joined_below:
  assumes "validateRestorePath rel" and "root \<noteq> []"
  shows "parts_of (root @ ''/'' @ rel) = parts_of root @ parts_of rel" "''..'' \<notin> set (parts_of rel)"
proof -
  note rel = restore_path_parts [OF assms(1)]
  have abs: "IsAbs (root @ ''/'' @ rel) = IsAbs root" using assms(2) by (simp add: IsAbs_def)
  have "clean_parts (IsAbs root) ([] @ rev (parts_of root)) (split_on (CHR ''/'') rel) =
      rev (rev (parts_of root)) @ clean_parts False [] (split_on (CHR ''/'') rel) \<and>
      ''..'' \<notin> set (clean_parts False [] (split_on (CHR ''/'') rel))"
    by (rule below) (use rel in \<open>simp_all add: parts_of_def\<close>)
  then show "parts_of (root @ ''/'' @ rel) = parts_of root @ parts_of rel" "''..'' \<notin> set (parts_of rel)"
    using abs rel(1) split_on_append [of "CHR ''/''" root rel]
    by (simp_all add: parts_of_def clean_parts_append)
qed

end
