(* ===== verification/Snapshot_Store.thy ===== *)
theory Snapshot_Store
  imports Snapshot_Paths
begin

text \<open>
  \<open>snapshot/shadowgit.go\<close>: the operations of \<open>ShadowGit\<close> on a disk and a git binary. The disk maps
  cleaned absolute paths to nodes; the last component of a path is followed through symbolic
  links where the system call does, links among the directories on the way are not. The git
  binary is a parameter: what it answers may depend on everything it was asked before, and it
  may change the disk; so are the faults of the system calls, the hashes, the clock, the nonce
  and the encoding of \<open>meta.json\<close>. An operation runs in the state-and-error monad \<open>job\<close>; the
  per-target mutexes make operations on one target take turns, and are left out.
\<close>

subsection \<open>Disk\<close>

datatype node = Directory | Regular string bool | Link string

type_synonym disk = "(string \<times> node) list"

datatype os_op = OpLstat | OpStat | OpReadlink | OpRead | OpWrite | OpMkdir | OpRemove | OpSymlink | OpRemoveAll

datatype os_error = NotExist | OSError string

type_synonym faults = "os_op \<Rightarrow> string \<Rightarrow> string option"

text \<open>A chain of more than 40 links is an error, as on Linux.\<close>

fun follow :: "nat \<Rightarrow> disk \<Rightarrow> string \<Rightarrow> string option" where
  "follow 0 d p = None"
| "follow (Suc n) d p =
     (case map_of d p of
        Some (Link l) \<Rightarrow> follow n d (if IsAbs l then Clean l else JoinUnder (Dir p) l)
      | _ \<Rightarrow> Some p)"

definition max_links :: nat where "max_links = 40"

definition faulty :: "faults \<Rightarrow> os_op \<Rightarrow> string \<Rightarrow> os_error + 'a \<Rightarrow> os_error + 'a" where
  "faulty f op p r = (case f op p of Some e \<Rightarrow> Inl (OSError e) | None \<Rightarrow> r)"

definition Lstat :: "faults \<Rightarrow> disk \<Rightarrow> string \<Rightarrow> os_error + node" where
  "Lstat f d p = faulty f OpLstat p (case map_of d p of None \<Rightarrow> Inl NotExist | Some n \<Rightarrow> Inr n)"

definition Stat :: "faults \<Rightarrow> disk \<Rightarrow> string \<Rightarrow> os_error + node" where
  "Stat f d p = faulty f OpStat p
     (case follow max_links d p of
        None \<Rightarrow> Inl (OSError ''too many links'')
      | Some q \<Rightarrow> (case map_of d q of None \<Rightarrow> Inl NotExist | Some n \<Rightarrow> Inr n))"

definition ReadFile :: "faults \<Rightarrow> disk \<Rightarrow> string \<Rightarrow> os_error + string" where
  "ReadFile f d p = faulty f OpRead p
     (case follow max_links d p of
        None \<Rightarrow> Inl (OSError ''too many links'')
      | Some q \<Rightarrow>
          (case map_of d q of
             Some (Regular c x) \<Rightarrow> Inr c
           | None \<Rightarrow> Inl NotExist
           | _ \<Rightarrow> Inl (OSError ''is a directory'')))"

text \<open>\<open>os.WriteFile\<close> follows links, truncates what is there and keeps its permissions.\<close>

definition WriteFile :: "faults \<Rightarrow> string \<Rightarrow> string \<Rightarrow> bool \<Rightarrow> disk \<Rightarrow> os_error + disk" where
  "WriteFile f p c x d = faulty f OpWrite p
     (case follow max_links d p of
        None \<Rightarrow> Inl (OSError ''too many links'')
      | Some q \<Rightarrow>
          (case map_of d q of
             Some (Regular c' x') \<Rightarrow> Inr (AList.update q (Regular c x') d)
           | Some _ \<Rightarrow> Inl (OSError ''is a directory'')
           | None \<Rightarrow>
               if map_of d (Dir q) = Some Directory then Inr (AList.update q (Regular c x) d)
               else Inl NotExist))"

definition is_below :: "string \<Rightarrow> string \<Rightarrow> bool" where
  "is_below p q \<longleftrightarrow> starts_with (p @ ''/'') q"

definition Remove :: "faults \<Rightarrow> string \<Rightarrow> disk \<Rightarrow> os_error + disk" where
  "Remove f p d = faulty f OpRemove p
     (case map_of d p of
        None \<Rightarrow> Inl NotExist
      | Some Directory \<Rightarrow>
          if list_ex (\<lambda>(q, _). is_below p q) d then Inl (OSError ''directory not empty'') else Inr (AList.delete p d)
      | Some _ \<Rightarrow> Inr (AList.delete p d))"

definition RemoveAll :: "faults \<Rightarrow> string \<Rightarrow> disk \<Rightarrow> os_error + disk" where
  "RemoveAll f p d = faulty f OpRemoveAll p (Inr (filter (\<lambda>(q, _). q \<noteq> p \<and> \<not> is_below p q) d))"

definition Symlink :: "faults \<Rightarrow> string \<Rightarrow> string \<Rightarrow> disk \<Rightarrow> os_error + disk" where
  "Symlink f l p d = faulty f OpSymlink p
     (if map_of d p \<noteq> None then Inl (OSError ''file exists'')
      else if map_of d (Dir p) = Some Directory then Inr (AList.update p (Link l) d) else Inl NotExist)"

text \<open>\<open>os.MkdirAll\<close>, from the top of the path down.\<close>

fun prefixes_of :: "string list \<Rightarrow> string list list" where
  "prefixes_of [] = []"
| "prefixes_of (p # ps) = [p] # map ((#) p) (prefixes_of ps)"

definition directories_to :: "string \<Rightarrow> string list" where
  "directories_to p = map (\<lambda>ps. CHR ''/'' # Join ps ''/'') (prefixes_of (parts_of p))"

fun make_dirs :: "faults \<Rightarrow> string list \<Rightarrow> disk \<Rightarrow> os_error + disk" where
  "make_dirs f [] d = Inr d"
| "make_dirs f (p # ps) d =
     (case Stat f d p of
        Inr Directory \<Rightarrow> make_dirs f ps d
      | Inr _ \<Rightarrow> Inl (OSError ''not a directory'')
      | Inl e \<Rightarrow>
          (case faulty f OpMkdir p (if map_of d p = None then Inr () else Inl (OSError ''file exists'')) of
             Inl e' \<Rightarrow> Inl e'
           | Inr _ \<Rightarrow> make_dirs f ps (AList.update p Directory d)))"

definition MkdirAll :: "faults \<Rightarrow> string \<Rightarrow> disk \<Rightarrow> os_error + disk" where
  "MkdirAll f p d = make_dirs f (directories_to p) d"

subsection \<open>Git and the other outside\<close>

record git_run =
  run_dir :: string
  run_env :: "string list"
  run_args :: "string list"

record world =
  on_disk :: disk
  runs_made :: "git_run list"

record outside =
  environ :: "string list"
  git :: "git_run list \<Rightarrow> git_run \<Rightarrow> disk \<Rightarrow> (string + string) \<times> disk"
  os_faults :: faults
  sha256hex :: "string \<Rightarrow> string"
  sha1hex :: "string \<Rightarrow> string"
  marshal_meta :: "string \<Rightarrow> string"
  unmarshal_meta :: "string \<Rightarrow> string option"
  clock :: "git_run list \<Rightarrow> int"
  nonce_of :: "git_run list \<Rightarrow> string option"

record shadow_git =
  baseDir :: string
  maxUntrackedBytes :: int

definition DefaultMaxUntrackedFileSize :: int where "DefaultMaxUntrackedFileSize = 2 * 1024 * 1024"

definition emptyTreeHash :: string where "emptyTreeHash = ''4b825dc642cb6eb9a060e54bf8d69288fbee4904''"

subsection \<open>Jobs\<close>

text \<open>\<open>StoreUnavailable\<close> is what wraps \<open>ErrShadowStoreUnavailable\<close>.\<close>

datatype store_failure =
    NoBaseDir | BaseDirFailed os_error | NoGitBinary | StatFailed os_error | CreateFailed os_error | InitFailed string
  | MetaUnwritten os_error | MetaUnreadable os_error | MetaUnparsable | KeyCollision string | NoStore
  | PurgeFailed os_error

datatype snap_error =
    StoreUnavailable store_failure
  | InvalidTarget
  | RootUnavailable
  | GitFailed string string
  | NoNonce
  | NotInSet string
  | NotAPathRef
  | UnsafePath string
  | BadOutput string
  | IsDirectory string
  | FileFailed os_op os_error

definition infrastructure :: "snap_error \<Rightarrow> bool" where
  "infrastructure e = (case e of StoreUnavailable _ \<Rightarrow> True | _ \<Rightarrow> False)"

type_synonym 'a job = "world \<Rightarrow> (snap_error + 'a) \<times> world"

definition job_done :: "'a \<Rightarrow> 'a job" where
  "job_done x w = (Inr x, w)"

definition job_fail :: "snap_error \<Rightarrow> 'a job" where
  "job_fail e w = (Inl e, w)"

definition job_then :: "'a job \<Rightarrow> ('a \<Rightarrow> 'b job) \<Rightarrow> 'b job" where
  "job_then m f w = (case m w of (Inl e, w') \<Rightarrow> (Inl e, w') | (Inr x, w') \<Rightarrow> f x w')"

definition job_look :: "(disk \<Rightarrow> snap_error + 'a) \<Rightarrow> 'a job" where
  "job_look f w = (f (on_disk w), w)"

definition job_change :: "(os_error \<Rightarrow> snap_error) \<Rightarrow> (disk \<Rightarrow> os_error + disk) \<Rightarrow> unit job" where
  "job_change wrong f w =
     (case f (on_disk w) of Inl e \<Rightarrow> (Inl (wrong e), w) | Inr d \<Rightarrow> (Inr (), w\<lparr>on_disk := d\<rparr>))"

subsection \<open>Running git\<close>

definition runGitRaw :: "outside \<Rightarrow> (string \<Rightarrow> snap_error) \<Rightarrow> string \<Rightarrow> string list \<Rightarrow> string list \<Rightarrow> string job" where
  "runGitRaw x wrong cwd extra args w =
     (let r = \<lparr>run_dir = cwd, run_env = isolatedEnv (environ x) extra, run_args = args\<rparr>;
          (out, d) = git x (runs_made w) r (on_disk w);
          w' = w\<lparr>on_disk := d, runs_made := runs_made w @ [r]\<rparr>
      in (case out of Inl e \<Rightarrow> Inl (wrong e) | Inr s \<Rightarrow> Inr s, w'))"

definition runGit ::
  "outside \<Rightarrow> shadow_git \<Rightarrow> string \<Rightarrow> string \<Rightarrow> string \<Rightarrow> string list \<Rightarrow> string list \<Rightarrow> string job" where
  "runGit x sg step gitDir workTree extra args =
     runGitRaw x (GitFailed step) (baseDir sg) extra
       ((''--git-dir='' @ gitDir) # (if workTree \<noteq> [] then [''--work-tree='' @ workTree] else []) @ args)"

subsection \<open>The store of a target\<close>

definition shadowKeyDir :: "outside \<Rightarrow> shadow_git \<Rightarrow> string \<Rightarrow> string" where
  "shadowKeyDir x sg i = JoinUnder (JoinUnder (baseDir sg) ''targets'') (take 32 (sha256hex x i))"

definition gitDirFor :: "outside \<Rightarrow> shadow_git \<Rightarrow> string \<Rightarrow> string" where
  "gitDirFor x sg i = JoinUnder (shadowKeyDir x sg i) ''shadow.git''"

definition metaPath :: "outside \<Rightarrow> shadow_git \<Rightarrow> string \<Rightarrow> string" where
  "metaPath x sg i = JoinUnder (shadowKeyDir x sg i) ''meta.json''"

definition verifyMeta :: "outside \<Rightarrow> shadow_git \<Rightarrow> string \<Rightarrow> disk \<Rightarrow> store_failure option" where
  "verifyMeta x sg i d =
     (case ReadFile (os_faults x) d (metaPath x sg i) of
        Inl e \<Rightarrow> Some (MetaUnreadable e)
      | Inr b \<Rightarrow>
          (case unmarshal_meta x b of
             None \<Rightarrow> Some MetaUnparsable
           | Some j \<Rightarrow> if j \<noteq> i then Some (KeyCollision j) else None))"

definition ensureShadowRepo :: "outside \<Rightarrow> shadow_git \<Rightarrow> string \<Rightarrow> string job" where
  "ensureShadowRepo x sg i w =
     (let root = shadowKeyDir x sg i; gitDir = gitDirFor x sg i;
          create = job_then (job_change (StoreUnavailable \<circ> CreateFailed) (MkdirAll (os_faults x) root)) (\<lambda>_.
            job_then (runGitRaw x (StoreUnavailable \<circ> InitFailed) root []
               [''-c'', ''init.defaultBranch=snapshot'', ''init'', ''--quiet'', ''--bare'', gitDir]) (\<lambda>_.
            job_then (job_change (StoreUnavailable \<circ> MetaUnwritten)
               (WriteFile (os_faults x) (metaPath x sg i) (marshal_meta x i) False)) (\<lambda>_.
            job_done gitDir)))
      in case Stat (os_faults x) (on_disk w) gitDir of
           Inr Directory \<Rightarrow>
             (case verifyMeta x sg i (on_disk w) of
                Some e \<Rightarrow> job_fail (StoreUnavailable e) w
              | None \<Rightarrow> job_done gitDir w)
         | Inl (OSError e) \<Rightarrow> job_fail (StoreUnavailable (StatFailed (OSError e))) w
         | _ \<Rightarrow> create w)"

definition openShadowRepo :: "outside \<Rightarrow> shadow_git \<Rightarrow> string \<Rightarrow> string job" where
  "openShadowRepo x sg i =
     job_look (\<lambda>d. case Stat (os_faults x) d (gitDirFor x sg i) of
        Inr Directory \<Rightarrow>
          (case verifyMeta x sg i d of Some e \<Rightarrow> Inl (StoreUnavailable e) | None \<Rightarrow> Inr (gitDirFor x sg i))
      | _ \<Rightarrow> Inl (StoreUnavailable NoStore))"

text \<open>\<open>NewShadowGit\<close>: \<open>abs\<close> is \<open>filepath.Abs\<close>, \<open>runnable\<close> whether \<open>exec.LookPath\<close> finds the binary.\<close>

definition NewShadowGit ::
  "outside \<Rightarrow> (string \<Rightarrow> string) \<Rightarrow> bool \<Rightarrow> int option \<Rightarrow> string \<Rightarrow> shadow_git job" where
  "NewShadowGit x abs_path runnable limit base =
     (if TrimSpace base = [] then job_fail (StoreUnavailable NoBaseDir)
      else job_then (job_change (StoreUnavailable \<circ> BaseDirFailed) (MkdirAll (os_faults x) (abs_path base))) (\<lambda>_.
        if \<not> runnable then job_fail (StoreUnavailable NoGitBinary)
        else job_done \<lparr>baseDir = abs_path base, maxUntrackedBytes =
          (case limit of Some n \<Rightarrow> if n > 0 then n else DefaultMaxUntrackedFileSize | None \<Rightarrow> DefaultMaxUntrackedFileSize)\<rparr>))"

subsection \<open>Capture\<close>

datatype skip_reason = SkipGitMetadata | SkipOversizeUntracked

record skipped_path =
  sk_Path :: string
  sk_Reason :: skip_reason
  SizeBytes :: int

record root_snapshot =
  rs_Target :: string
  rs_Root :: string
  TreeHash :: string
  CommitHash :: string
  Skipped :: "skipped_path list"
  rs_Err :: "snap_error option"

type_synonym snapshot_set = "(string \<times> root_snapshot) list"

fun oversize :: "faults \<Rightarrow> int \<Rightarrow> string \<Rightarrow> disk \<Rightarrow> string list \<Rightarrow> skipped_path list" where
  "oversize f limit root d [] = []"
| "oversize f limit root d (rel # rels) =
     (case Lstat f d (JoinUnder root rel) of
        Inr (Regular c ex) \<Rightarrow>
          if int (length c) > limit
          then \<lparr>sk_Path = rel, sk_Reason = SkipOversizeUntracked, SizeBytes = int (length c)\<rparr> # oversize f limit root d rels
          else oversize f limit root d rels
      | _ \<Rightarrow> oversize f limit root d rels)"

definition detectOversizeUntracked ::
  "outside \<Rightarrow> shadow_git \<Rightarrow> string \<Rightarrow> string \<Rightarrow> string list \<Rightarrow> skipped_path list job" where
  "detectOversizeUntracked x sg gitDir root includes =
     job_then (runGit x sg ''ls-files'' gitDir root []
         ([''ls-files'', ''--others'', ''--exclude-standard'', ''--''] @ (if includes = [] then [''.''] else includes)))
       (\<lambda>out. job_look (\<lambda>d. Inr (oversize (os_faults x) (maxUntrackedBytes sg) root d (splitLines out))))"

definition commit_identity :: "string list" where
  "commit_identity = [''GIT_AUTHOR_NAME=nanite-snapshot'', ''GIT_AUTHOR_EMAIL=snapshot@localhost'',
     ''GIT_COMMITTER_NAME=nanite-snapshot'', ''GIT_COMMITTER_EMAIL=snapshot@localhost'']"

definition mint_ref :: "outside \<Rightarrow> string job" where
  "mint_ref x w =
     (case nonce_of x (runs_made w) of
        None \<Rightarrow> (Inl NoNonce, w)
      | Some n \<Rightarrow> (Inr (snapshotRefName (clock x (runs_made w)) n), w))"

definition captureOne :: "outside \<Rightarrow> shadow_git \<Rightarrow> target \<Rightarrow> root_snapshot job" where
  "captureOne x sg t =
     (let root = tg_Root t; includes = normalizeIncludes (IncludePaths t) in
      job_then (ensureShadowRepo x sg (tg_ID t)) (\<lambda>gitDir.
      job_then (job_look (\<lambda>d. case Stat (os_faults x) d root of Inr Directory \<Rightarrow> Inr () | _ \<Rightarrow> Inl RootUnavailable)) (\<lambda>_.
      job_then (detectOversizeUntracked x sg gitDir root includes) (\<lambda>skipped.
      job_then (runGit x sg ''add'' gitDir root []
         ([''add'', ''-A'', ''--''] @ buildPathspecs includes (map sk_Path skipped))) (\<lambda>_.
      job_then (runGit x sg ''write-tree'' gitDir root [] [''write-tree'']) (\<lambda>tree.
      job_then (runGit x sg ''commit-tree'' gitDir [] commit_identity
         [''commit-tree'', TrimSpace tree, ''-m'', ''snapshot capture'']) (\<lambda>commit.
      job_then (mint_ref x) (\<lambda>ref.
      job_then (runGit x sg ''update-ref'' gitDir [] [] [''update-ref'', ref, TrimSpace commit]) (\<lambda>_.
      job_done \<lparr>rs_Target = tg_ID t, rs_Root = root, TreeHash = TrimSpace tree, CommitHash = TrimSpace commit,
        Skipped = skipped, rs_Err = None\<rparr>)))))))))"

definition failed_root :: "target \<Rightarrow> snap_error \<Rightarrow> root_snapshot" where
  "failed_root t e = \<lparr>rs_Target = tg_ID t, rs_Root = tg_Root t, TreeHash = [], CommitHash = [], Skipped = [],
     rs_Err = Some e\<rparr>"

text \<open>\<open>Capture\<close>: the set and the joined infrastructure errors.\<close>

fun capture_loop ::
  "outside \<Rightarrow> shadow_git \<Rightarrow> target list \<Rightarrow> snapshot_set \<Rightarrow> snap_error list \<Rightarrow> world \<Rightarrow>
   (snapshot_set \<times> snap_error list) \<times> world" where
  "capture_loop x sg [] snaps errs w = ((snaps, errs), w)"
| "capture_loop x sg (t # ts) snaps errs w =
     (if \<not> validate_target t
      then capture_loop x sg ts (AList.update (tg_ID t) (failed_root t InvalidTarget) snaps) errs w
      else case captureOne x sg t w of
             (Inl e, w') \<Rightarrow>
               if infrastructure e then capture_loop x sg ts snaps (errs @ [e]) w'
               else capture_loop x sg ts (AList.update (tg_ID t) (failed_root t e) snaps) errs w'
           | (Inr rs, w') \<Rightarrow> capture_loop x sg ts (AList.update (tg_ID t) rs snaps) errs w')"

definition Capture ::
  "outside \<Rightarrow> shadow_git \<Rightarrow> target list \<Rightarrow> world \<Rightarrow> (snapshot_set \<times> snap_error list) \<times> world" where
  "Capture x sg ts w = capture_loop x sg ts [] [] w"

subsection \<open>Objects\<close>

definition blobAt :: "outside \<Rightarrow> shadow_git \<Rightarrow> string \<Rightarrow> string \<Rightarrow> string \<Rightarrow> (string \<times> string) option job" where
  "blobAt x sg gitDir tree rel =
     (if tree = [] then job_done None
      else job_then (runGit x sg ''ls-tree'' gitDir [] [] [''ls-tree'', ''-r'', ''--full-tree'', tree, ''--'', rel])
        (\<lambda>out. case read_tree_line out of None \<Rightarrow> job_fail (BadOutput out) | Some b \<Rightarrow> job_done b))"

definition catBlob :: "outside \<Rightarrow> shadow_git \<Rightarrow> string \<Rightarrow> string \<Rightarrow> string job" where
  "catBlob x sg gitDir hash = runGit x sg ''cat-file'' gitDir [] [] [''cat-file'', ''-p'', hash]"

definition gitBlobHash :: "outside \<Rightarrow> string \<Rightarrow> string" where
  "gitBlobHash x content = sha1hex x (''blob '' @ nat_text (length content) @ [CHR 0x00] @ content)"

definition currentBlobHash :: "outside \<Rightarrow> string \<Rightarrow> string \<Rightarrow> disk \<Rightarrow> snap_error + string option" where
  "currentBlobHash x root rel d =
     (let full = JoinUnder root rel in
      case Lstat (os_faults x) d full of
        Inl NotExist \<Rightarrow> Inr None
      | Inl e \<Rightarrow> Inl (FileFailed OpLstat e)
      | Inr (Link l) \<Rightarrow>
          (case os_faults x OpReadlink full of
             Some e \<Rightarrow> Inl (FileFailed OpReadlink (OSError e))
           | None \<Rightarrow> Inr (Some (gitBlobHash x l)))
      | Inr Directory \<Rightarrow> Inl (IsDirectory full)
      | Inr (Regular _ _) \<Rightarrow>
          (case ReadFile (os_faults x) d full of
             Inl e \<Rightarrow> Inl (FileFailed OpRead e)
           | Inr c \<Rightarrow> Inr (Some (gitBlobHash x c))))"

subsection \<open>Diff\<close>

definition tree_of :: "snapshot_set \<Rightarrow> string \<Rightarrow> string" where
  "tree_of snaps i =
     (case map_of snaps i of Some rs \<Rightarrow> if TreeHash rs \<noteq> [] then TreeHash rs else emptyTreeHash | None \<Rightarrow> emptyTreeHash)"

definition root_of :: "snapshot_set \<Rightarrow> snapshot_set \<Rightarrow> string \<Rightarrow> string" where
  "root_of from to i =
     (let root = (\<lambda>snaps. case map_of snaps i of Some rs \<Rightarrow> rs_Root rs | None \<Rightarrow> [])
      in if root to = [] then root from else root to)"

definition diff_root ::
  "outside \<Rightarrow> shadow_git \<Rightarrow> snapshot_set \<Rightarrow> snapshot_set \<Rightarrow> string \<Rightarrow> (string \<times> (string \<times> change_kind) list) job" where
  "diff_root x sg from to i =
     job_then (openShadowRepo x sg i) (\<lambda>gitDir.
     job_then (runGit x sg ''diff-tree'' gitDir [] []
        [''diff-tree'', ''-r'', ''--no-commit-id'', ''--name-status'', tree_of from i, tree_of to i]) (\<lambda>out.
     case parseNameStatus out of
       None \<Rightarrow> job_fail (BadOutput out)
     | Some files \<Rightarrow> job_done (root_of from to i, files)))"

fun diff_loop ::
  "outside \<Rightarrow> shadow_git \<Rightarrow> snapshot_set \<Rightarrow> snapshot_set \<Rightarrow> string list \<Rightarrow>
   (string \<times> string \<times> (string \<times> change_kind) list) list job" where
  "diff_loop x sg from to [] = job_done []"
| "diff_loop x sg from to (i # is) =
     job_then (diff_root x sg from to i) (\<lambda>r. job_then (diff_loop x sg from to is) (\<lambda>rs. job_done ((i, r) # rs)))"

definition Diff where
  "Diff x sg from to = diff_loop x sg from to (unionKeys from to)"

subsection \<open>Preview\<close>

record restore_change =
  rc_Path :: string
  rc_Kind :: change_kind
  CurrentHash :: string
  SnapshotHash :: string

definition preview_one :: "outside \<Rightarrow> shadow_git \<Rightarrow> string \<Rightarrow> root_snapshot \<Rightarrow> string \<Rightarrow> restore_change job" where
  "preview_one x sg gitDir rs rel =
     (if \<not> validateRestorePath rel then job_fail (UnsafePath rel)
      else job_then (blobAt x sg gitDir (TreeHash rs) rel) (\<lambda>snap.
        job_then (job_look (currentBlobHash x (rs_Root rs) rel)) (\<lambda>cur.
        let curHash = (case cur of Some h \<Rightarrow> h | None \<Rightarrow> []); snapHash = (case snap of Some (h, _) \<Rightarrow> h | None \<Rightarrow> [])
        in job_done \<lparr>rc_Path = rel, rc_Kind = classifyRestore (cur \<noteq> None) (snap \<noteq> None) curHash snapHash,
             CurrentHash = curHash, SnapshotHash = snapHash\<rparr>)))"

fun preview_paths ::
  "outside \<Rightarrow> shadow_git \<Rightarrow> string \<Rightarrow> root_snapshot \<Rightarrow> string list \<Rightarrow> restore_change list job" where
  "preview_paths x sg gitDir rs [] = job_done []"
| "preview_paths x sg gitDir rs (rel # rels) =
     job_then (preview_one x sg gitDir rs rel) (\<lambda>c.
     job_then (preview_paths x sg gitDir rs rels) (\<lambda>cs. job_done (c # cs)))"

fun preview_targets ::
  "outside \<Rightarrow> shadow_git \<Rightarrow> snapshot_set \<Rightarrow> (string \<times> string list) list \<Rightarrow>
   (string \<times> string \<times> restore_change list) list job" where
  "preview_targets x sg snaps [] = job_done []"
| "preview_targets x sg snaps ((i, rels) # gs) =
     (case map_of snaps i of
        None \<Rightarrow> job_fail (NotInSet i)
      | Some rs \<Rightarrow>
          job_then (openShadowRepo x sg i) (\<lambda>gitDir.
          job_then (preview_paths x sg gitDir rs rels) (\<lambda>cs.
          job_then (preview_targets x sg snaps gs) (\<lambda>ps. job_done ((i, rs_Root rs, cs) # ps)))))"

definition Preview where
  "Preview x sg snaps paths =
     (case groupPathsByTarget paths of None \<Rightarrow> job_fail NotAPathRef | Some gs \<Rightarrow> preview_targets x sg snaps gs)"

subsection \<open>Restore\<close>

definition remove_restored :: "outside \<Rightarrow> string \<Rightarrow> unit job" where
  "remove_restored x full =
     job_change (FileFailed OpRemove)
       (\<lambda>d. case Remove (os_faults x) full d of Inl NotExist \<Rightarrow> Inr d | r \<Rightarrow> r)"

definition write_restored :: "outside \<Rightarrow> string \<Rightarrow> string \<Rightarrow> string \<Rightarrow> unit job" where
  "write_restored x full mode content =
     job_then (job_change (FileFailed OpMkdir) (MkdirAll (os_faults x) (Dir full))) (\<lambda>_.
     if mode = ''120000''
     then job_then (job_change (FileFailed OpRemove)
            (\<lambda>d. case Remove (os_faults x) full d of Inl _ \<Rightarrow> Inr d | Inr d' \<Rightarrow> Inr d')) (\<lambda>_.
          job_change (FileFailed OpSymlink) (Symlink (os_faults x) content full))
     else job_change (FileFailed OpWrite) (WriteFile (os_faults x) full content (mode = ''100755'')))"

definition restoreOne :: "outside \<Rightarrow> shadow_git \<Rightarrow> string \<Rightarrow> root_snapshot \<Rightarrow> string \<Rightarrow> unit job" where
  "restoreOne x sg gitDir rs rel =
     (if \<not> validateRestorePath rel then job_fail (UnsafePath rel)
      else
        (let full = JoinUnder (rs_Root rs) rel in
         job_then (blobAt x sg gitDir (TreeHash rs) rel) (\<lambda>snap.
         job_then (job_look (currentBlobHash x (rs_Root rs) rel)) (\<lambda>cur.
         case snap of
           None \<Rightarrow> if cur = None then job_done () else remove_restored x full
         | Some (hash, mode) \<Rightarrow>
             if cur = Some hash then job_done ()
             else job_then (catBlob x sg gitDir hash) (write_restored x full mode)))))"

fun restore_paths ::
  "outside \<Rightarrow> shadow_git \<Rightarrow> string \<Rightarrow> root_snapshot \<Rightarrow> string list \<Rightarrow> snap_error list \<Rightarrow> world \<Rightarrow> snap_error list \<times> world" where
  "restore_paths x sg gitDir rs [] errs w = (errs, w)"
| "restore_paths x sg gitDir rs (rel # rels) errs w =
     (case restoreOne x sg gitDir rs rel w of
        (Inl e, w') \<Rightarrow> restore_paths x sg gitDir rs rels (errs @ [e]) w'
      | (Inr _, w') \<Rightarrow> restore_paths x sg gitDir rs rels errs w')"

fun restore_targets ::
  "outside \<Rightarrow> shadow_git \<Rightarrow> snapshot_set \<Rightarrow> (string \<times> string list) list \<Rightarrow> snap_error list \<Rightarrow> world \<Rightarrow>
   snap_error list \<times> world" where
  "restore_targets x sg snaps [] errs w = (errs, w)"
| "restore_targets x sg snaps ((i, rels) # gs) errs w =
     (case map_of snaps i of
        None \<Rightarrow> restore_targets x sg snaps gs (errs @ [NotInSet i]) w
      | Some rs \<Rightarrow>
          (case openShadowRepo x sg i w of
             (Inl e, w') \<Rightarrow> restore_targets x sg snaps gs (errs @ [e]) w'
           | (Inr gitDir, w') \<Rightarrow>
               (case restore_paths x sg gitDir rs rels errs w' of
                  (errs', w'') \<Rightarrow> restore_targets x sg snaps gs errs' w'')))"

definition Restore ::
  "outside \<Rightarrow> shadow_git \<Rightarrow> snapshot_set \<Rightarrow> string list \<Rightarrow> world \<Rightarrow> snap_error list \<times> world" where
  "Restore x sg snaps paths w =
     (case groupPathsByTarget paths of None \<Rightarrow> ([NotAPathRef], w) | Some gs \<Rightarrow> restore_targets x sg snaps gs [] w)"

subsection \<open>Cleanup and purge\<close>

record cleanup_policy =
  MaxAge :: int
  MaxSnapshotSets :: int

record cleanup_result =
  cr_Target :: string
  Removed :: nat
  RemainingCount :: nat

definition ref_entries :: "string \<Rightarrow> (string \<times> int) list" where
  "ref_entries out = List.map_filter (\<lambda>ref. map_option (Pair ref) (parseSnapshotRefTimestamp ref)) (splitLines out)"

text \<open>Newest first; entries of the same time are in no certain order in Go and in the order of the
  refs here. Ages are exact here, \<open>Time.Sub\<close> saturates at 292 years.\<close>

definition newest_first :: "(string \<times> int) list \<Rightarrow> (string \<times> int) list" where
  "newest_first es = sort_key (\<lambda>e. - snd e) es"

definition refs_to_remove :: "cleanup_policy \<Rightarrow> int \<Rightarrow> (string \<times> int) list \<Rightarrow> string list" where
  "refs_to_remove policy now es =
     map (\<lambda>(i, e). fst e)
       (filter (\<lambda>(i, e). MaxAge policy > 0 \<and> now - snd e > MaxAge policy \<or>
                         MaxSnapshotSets policy > 0 \<and> int i \<ge> MaxSnapshotSets policy)
          (enumerate 0 (newest_first es)))"

fun delete_refs :: "outside \<Rightarrow> shadow_git \<Rightarrow> string \<Rightarrow> string list \<Rightarrow> unit job" where
  "delete_refs x sg gitDir [] = job_done ()"
| "delete_refs x sg gitDir (ref # refs) =
     job_then (runGit x sg ''update-ref -d'' gitDir [] [] [''update-ref'', ''-d'', ref]) (\<lambda>_.
     delete_refs x sg gitDir refs)"

definition job_now :: "outside \<Rightarrow> int job" where
  "job_now x w = (Inr (clock x (runs_made w)), w)"

definition Cleanup :: "outside \<Rightarrow> shadow_git \<Rightarrow> string \<Rightarrow> cleanup_policy \<Rightarrow> cleanup_result job" where
  "Cleanup x sg i policy =
     job_then (openShadowRepo x sg i) (\<lambda>gitDir.
     job_then (runGit x sg ''for-each-ref'' gitDir [] [] [''for-each-ref'', ''--format=%(refname)'', snapshotRefPrefix]) (\<lambda>out.
     job_then (job_now x) (\<lambda>now.
     let es = ref_entries out; gone = refs_to_remove policy now es in
     job_then (delete_refs x sg gitDir gone) (\<lambda>_.
     job_then (if gone \<noteq> [] then runGit x sg ''gc'' gitDir [] []
         [''-c'', ''gc.reflogExpire=now'', ''-c'', ''gc.reflogExpireUnreachable=now'', ''gc'', ''--prune=now'', ''--quiet'']
       else job_done []) (\<lambda>_.
     job_done \<lparr>cr_Target = i, Removed = length gone, RemainingCount = length es - length gone\<rparr>)))))"

definition Purge :: "outside \<Rightarrow> shadow_git \<Rightarrow> string \<Rightarrow> unit job" where
  "Purge x sg i =
     job_change (StoreUnavailable \<circ> PurgeFailed) (RemoveAll (os_faults x) (shadowKeyDir x sg i))"

end
