(* ===== verification/Snapshot_Jobs.thy ===== *)
theory Snapshot_Jobs
  imports Snapshot_Store
begin

text \<open>
  How the jobs of \<open>Snapshot_Store\<close> run: what a job that succeeds went through, which git runs an
  operation makes, what the system calls leave alone, and which refs a cleanup removes.
\<close>

named_theorems job_rules \<open>a job only makes runs of a kind\<close>

subsection \<open>Results\<close>

lemma job_then_Inr: "job_then m f w = (Inr y, w') \<longleftrightarrow> (\<exists>x w1. m w = (Inr x, w1) \<and> f x w1 = (Inr y, w'))"
  by (auto simp: job_then_def split: prod.splits sum.splits)

lemma job_then_run: "m w = (Inr x, w1) \<Longrightarrow> job_then m f w = f x w1"
  by (simp add: job_then_def)

lemma job_done_Inr [simp]: "job_done x w = (Inr y, w') \<longleftrightarrow> y = x \<and> w' = w"
  by (auto simp: job_done_def)

lemma job_fail_Inr [simp]: "job_fail e w = (Inr y, w') \<longleftrightarrow> False"
  by (simp add: job_fail_def)

lemma job_look_Inr [simp]: "job_look f w = (Inr y, w') \<longleftrightarrow> f (on_disk w) = Inr y \<and> w' = w"
  by (auto simp: job_look_def)

lemma job_change_Inr [simp]:
  "job_change wrong f w = (Inr u, w') \<longleftrightarrow> (\<exists>d. f (on_disk w) = Inr d \<and> w' = w\<lparr>on_disk := d\<rparr>)"
  by (auto simp: job_change_def split: sum.splits)

lemmas job_simps = job_then_Inr job_done_Inr job_fail_Inr job_look_Inr job_change_Inr

subsection \<open>Git runs\<close>

definition only_runs :: "(git_run \<Rightarrow> bool) \<Rightarrow> 'a job \<Rightarrow> bool" where
  "only_runs P m \<longleftrightarrow> (\<forall>w r w'. m w = (r, w') \<longrightarrow> (\<exists>rs. runs_made w' = runs_made w @ rs \<and> list_all P rs))"

lemma only_runsI: "(\<And>w r w'. m w = (r, w') \<Longrightarrow> runs_made w' = runs_made w) \<Longrightarrow> only_runs P m"
  unfolding only_runs_def by (metis append_Nil2 list.pred_inject(1))

lemma only_runs_quiet [job_rules]:
  "only_runs P (job_done x)" "only_runs P (job_fail e)" "only_runs P (job_look f)" "only_runs P (job_change g h)"
  by (auto intro!: only_runsI simp: job_done_def job_fail_def job_look_def job_change_def split: sum.splits)

lemma only_runs_then:
  assumes "only_runs P m" and "\<And>x w w'. m w = (Inr x, w') \<Longrightarrow> only_runs P (f x)"
  shows "only_runs P (job_then m f)"
  unfolding only_runs_def
proof (intro allI impI)
  fix w r w' assume a: "job_then m f w = (r, w')"
  obtain q w1 where m: "m w = (q, w1)" by force
  obtain rs where rs: "runs_made w1 = runs_made w @ rs" "list_all P rs"
    using assms(1) m unfolding only_runs_def by blast
  show "\<exists>rs. runs_made w' = runs_made w @ rs \<and> list_all P rs"
  proof (cases q)
    case (Inl e)
    then show ?thesis using a m rs by (auto simp: job_then_def)
  next
    case (Inr x)
    then obtain rs' where "runs_made w' = runs_made w1 @ rs'" "list_all P rs'"
      using a m assms(2) [of w x w1] unfolding only_runs_def by (fastforce simp: job_then_def)
    then show ?thesis using rs by (intro exI [of _ "rs @ rs'"]) simp
  qed
qed

lemma only_runs_then_any [job_rules]:
  "only_runs P m \<Longrightarrow> (\<And>x. only_runs P (f x)) \<Longrightarrow> only_runs P (job_then m f)"
  by (rule only_runs_then)

lemma only_runs_raw:
  "P \<lparr>run_dir = cwd, run_env = isolatedEnv (environ x) extra, run_args = args\<rparr> \<Longrightarrow>
   only_runs P (runGitRaw x wrong cwd extra args)"
  by (auto simp: only_runs_def runGitRaw_def Let_def split: prod.splits)

text \<open>A run of git on the store of target \<open>i\<close>: in the base directory or the store, with no \<open>GIT_\<close>
  variable but the identity of the commits, and on the git directory of that target.\<close>

definition isolated_run :: "outside \<Rightarrow> shadow_git \<Rightarrow> string \<Rightarrow> git_run \<Rightarrow> bool" where
  "isolated_run x sg i r \<longleftrightarrow>
     list_all (\<lambda>kv. starts_with ''GIT_'' kv \<longrightarrow> kv \<in> set commit_identity) (run_env r) \<and>
     (run_dir r = baseDir sg \<and> hd (run_args r) = ''--git-dir='' @ gitDirFor x sg i \<or>
      run_dir r = shadowKeyDir x sg i \<and>
      run_args r = [''-c'', ''init.defaultBranch=snapshot'', ''init'', ''--quiet'', ''--bare'', gitDirFor x sg i])"

lemma isolated_env: "list_all (\<lambda>kv. starts_with ''GIT_'' kv \<longrightarrow> kv \<in> set commit_identity)
    (isolatedEnv base extra)" if "set extra \<subseteq> set commit_identity"
  using that by (auto simp: isolatedEnv_def list_all_iff)

lemma only_runs_git [job_rules]:
  "set extra \<subseteq> set commit_identity \<Longrightarrow>
   only_runs (isolated_run x sg i) (runGit x sg step (gitDirFor x sg i) tree extra args)"
  unfolding runGit_def
  by (rule only_runs_raw) (auto simp: isolated_run_def isolated_env)

lemma only_runs_init [job_rules]:
  "only_runs (isolated_run x sg i) (runGitRaw x wrong (shadowKeyDir x sg i) []
     [''-c'', ''init.defaultBranch=snapshot'', ''init'', ''--quiet'', ''--bare'', gitDirFor x sg i])"
  by (rule only_runs_raw) (auto simp: isolated_run_def isolated_env)

lemma openShadowRepo_is: "openShadowRepo x sg i w = (Inr g, w') \<Longrightarrow> g = gitDirFor x sg i \<and> w' = w"
  by (auto simp: openShadowRepo_def split: sum.splits node.splits option.splits)

lemma ensureShadowRepo_is: "ensureShadowRepo x sg i w = (Inr g, w') \<Longrightarrow> g = gitDirFor x sg i"
  by (auto simp: ensureShadowRepo_def Let_def job_simps split: sum.splits node.splits option.splits os_error.splits)

lemma only_runs_ensure: "only_runs (isolated_run x sg i) (ensureShadowRepo x sg i)"
proof -
  have create: "only_runs (isolated_run x sg i)
     (job_then (job_change (StoreUnavailable \<circ> CreateFailed) (MkdirAll (os_faults x) (shadowKeyDir x sg i))) (\<lambda>_.
            job_then (runGitRaw x (StoreUnavailable \<circ> InitFailed) (shadowKeyDir x sg i) []
               [''-c'', ''init.defaultBranch=snapshot'', ''init'', ''--quiet'', ''--bare'', gitDirFor x sg i]) (\<lambda>_.
            job_then (job_change (StoreUnavailable \<circ> MetaUnwritten)
               (WriteFile (os_faults x) (metaPath x sg i) (marshal_meta x i) False)) (\<lambda>_.
            job_done (gitDirFor x sg i)))))"
    by (intro job_rules)
  show ?thesis
    unfolding only_runs_def
  proof (intro allI impI)
    fix w r w' assume a: "ensureShadowRepo x sg i w = (r, w')"
    show "\<exists>rs. runs_made w' = runs_made w @ rs \<and> list_all (isolated_run x sg i) rs"
    proof (cases "w' = w")
      case True
      then show ?thesis by auto
    next
      case False
      with a have "job_then (job_change (StoreUnavailable \<circ> CreateFailed) (MkdirAll (os_faults x) (shadowKeyDir x sg i))) (\<lambda>_.
            job_then (runGitRaw x (StoreUnavailable \<circ> InitFailed) (shadowKeyDir x sg i) []
               [''-c'', ''init.defaultBranch=snapshot'', ''init'', ''--quiet'', ''--bare'', gitDirFor x sg i]) (\<lambda>_.
            job_then (job_change (StoreUnavailable \<circ> MetaUnwritten)
               (WriteFile (os_faults x) (metaPath x sg i) (marshal_meta x i) False)) (\<lambda>_.
            job_done (gitDirFor x sg i)))) w = (r, w')"
        by (auto simp: ensureShadowRepo_def Let_def job_done_def job_fail_def
            split: sum.splits node.splits option.splits os_error.splits)
      with create show ?thesis unfolding only_runs_def by blast
    qed
  qed
qed

lemma only_runs_open [job_rules]: "only_runs P (openShadowRepo x sg i)"
  unfolding openShadowRepo_def by (rule job_rules)

text \<open>The git directory an operation goes on with is the one of its target.\<close>

lemma only_runs_opened [job_rules]:
  "only_runs P (f (gitDirFor x sg i)) \<Longrightarrow> only_runs P (job_then (openShadowRepo x sg i) f)"
  by (rule only_runs_then [OF only_runs_open]) (auto dest: openShadowRepo_is)

lemma only_runs_ensured [job_rules]:
  "only_runs (isolated_run x sg i) (f (gitDirFor x sg i)) \<Longrightarrow>
   only_runs (isolated_run x sg i) (job_then (ensureShadowRepo x sg i) f)"
  by (rule only_runs_then [OF only_runs_ensure]) (auto dest: ensureShadowRepo_is)

lemma only_runs_mint [job_rules]: "only_runs P (mint_ref x)" "only_runs P (job_now x)"
  by (auto intro!: only_runsI simp: mint_ref_def job_now_def split: option.splits)

lemma only_runs_captureOne: "only_runs (isolated_run x sg (tg_ID t)) (captureOne x sg t)"
  unfolding captureOne_def detectOversizeUntracked_def Let_def by (intro job_rules) auto

lemma only_runs_blobAt [job_rules]: "only_runs (isolated_run x sg i) (blobAt x sg (gitDirFor x sg i) tree rel)"
proof -
  have "only_runs (isolated_run x sg i) (case read_tree_line out of None \<Rightarrow> job_fail (BadOutput out) | Some b \<Rightarrow> job_done b)" for out
    by (cases "read_tree_line out") (auto intro: job_rules)
  then show ?thesis unfolding blobAt_def by (cases "tree = []") (auto intro!: job_rules)
qed

lemma only_runs_diff_root: "only_runs (isolated_run x sg i) (diff_root x sg from to i)"
proof -
  have "only_runs (isolated_run x sg i) (case parseNameStatus out of None \<Rightarrow> job_fail (BadOutput out)
      | Some files \<Rightarrow> job_done (root_of from to i, files))" for out
    by (cases "parseNameStatus out") (auto intro: job_rules)
  then show ?thesis by (auto simp: diff_root_def intro!: job_rules)
qed

lemma only_runs_preview_one [job_rules]: "only_runs (isolated_run x sg i) (preview_one x sg (gitDirFor x sg i) rs rel)"
  unfolding preview_one_def Let_def
  by (cases "validateRestorePath rel") (auto intro!: job_rules)

lemma only_runs_preview_paths:
  "only_runs (isolated_run x sg i) (preview_paths x sg (gitDirFor x sg i) rs rels)"
  by (induction rels) (auto intro!: job_rules)

lemma only_runs_restoreOne: "only_runs (isolated_run x sg i) (restoreOne x sg (gitDirFor x sg i) rs rel)"
proof -
  have w: "only_runs (isolated_run x sg i) (write_restored x full mode content)" for full mode content
    unfolding write_restored_def by (cases "mode = ''120000''") (auto intro!: job_rules)
  have c: "only_runs (isolated_run x sg i) (job_then (catBlob x sg (gitDirFor x sg i) hash) (write_restored x full mode))"
    for hash full mode
    unfolding catBlob_def by (intro job_rules w) auto
  have "only_runs (isolated_run x sg i) (case snap of
           None \<Rightarrow> if cur = None then job_done () else remove_restored x full
         | Some (hash, mode) \<Rightarrow>
             if cur = Some hash then job_done ()
             else job_then (catBlob x sg (gitDirFor x sg i) hash) (write_restored x full mode))" for snap cur full
    by (auto simp: remove_restored_def job_rules c split: option.split)
  then show ?thesis
    unfolding restoreOne_def Let_def by (cases "validateRestorePath rel") (auto intro!: job_rules)
qed

lemma only_runs_cleanup: "only_runs (isolated_run x sg i) (Cleanup x sg i policy)"
proof -
  have "only_runs (isolated_run x sg i) (delete_refs x sg (gitDirFor x sg i) refs)" for refs
    by (induction refs) (auto intro!: job_rules)
  then show ?thesis unfolding Cleanup_def Let_def by (auto intro!: job_rules)
qed

lemma restore_paths_runs:
  "restore_paths x sg (gitDirFor x sg i) rs rels errs w = (errs', w') \<Longrightarrow>
   \<exists>rs. runs_made w' = runs_made w @ rs \<and> list_all (isolated_run x sg i) rs"
proof (induction rels arbitrary: errs w)
  case (Cons rel rels)
  obtain r w1 where one: "restoreOne x sg (gitDirFor x sg i) rs rel w = (r, w1)" by force
  then obtain rs1 where rs1: "runs_made w1 = runs_made w @ rs1" "list_all (isolated_run x sg i) rs1"
    using only_runs_restoreOne [of x sg i rs rel] unfolding only_runs_def by blast
  obtain errs1 where "restore_paths x sg (gitDirFor x sg i) rs rels errs1 w1 = (errs', w')"
    using Cons.prems one by (cases r) auto
  then obtain rs2 where "runs_made w' = runs_made w1 @ rs2" "list_all (isolated_run x sg i) rs2"
    using Cons.IH by blast
  then show ?case using rs1 by (intro exI [of _ "rs1 @ rs2"]) simp
qed simp

subsection \<open>Runs of several targets\<close>

text \<open>
  The runs of an operation on targets \<open>ids\<close>, taken in that order: first those on the store of
  the first target, then those on the second's, and so on; a target may have none.
\<close>

definition attributed :: "outside \<Rightarrow> shadow_git \<Rightarrow> string list \<Rightarrow> git_run list \<Rightarrow> bool" where
  "attributed x sg ids rs \<longleftrightarrow>
     (\<exists>rss. rs = concat rss \<and> list_all2 (\<lambda>i rs. list_all (isolated_run x sg i) rs) ids rss)"

lemma attributed_Nil [simp]: "attributed x sg [] []"
  by (simp add: attributed_def)

lemma attributed_Cons:
  assumes "list_all (isolated_run x sg i) rs1" and "attributed x sg ids rs2"
  shows "attributed x sg (i # ids) (rs1 @ rs2)"
proof -
  obtain rss where "rs2 = concat rss" "list_all2 (\<lambda>i rs. list_all (isolated_run x sg i) rs) ids rss"
    using assms(2) unfolding attributed_def by blast
  with assms(1) show ?thesis unfolding attributed_def by (intro exI [of _ "rs1 # rss"]) simp
qed

lemma attributed_none [simp]: "attributed x sg ids []"
proof (induction ids)
  case (Cons i ids)
  then show ?case using attributed_Cons [of x sg i "[]" ids "[]"] by simp
qed simp

lemma attributed_skip: "attributed x sg ids rs \<Longrightarrow> attributed x sg (i # ids) rs"
  using attributed_Cons [of x sg i "[]" ids rs] by simp

lemma attributed_single: "list_all (isolated_run x sg i) rs \<Longrightarrow> attributed x sg [i] rs"
  using attributed_Cons [of x sg i rs "[]" "[]"] by simp

definition makes_runs :: "outside \<Rightarrow> shadow_git \<Rightarrow> string list \<Rightarrow> (world \<Rightarrow> 'r \<times> world) \<Rightarrow> bool" where
  "makes_runs x sg ids m \<longleftrightarrow>
     (\<forall>w. \<exists>rs. runs_made (snd (m w)) = runs_made w @ rs \<and> attributed x sg ids rs)"

lemma makes_runsI:
  "(\<And>w r w'. m w = (r, w') \<Longrightarrow> \<exists>rs. runs_made w' = runs_made w @ rs \<and> attributed x sg ids rs) \<Longrightarrow>
   makes_runs x sg ids m"
  unfolding makes_runs_def by (metis prod.collapse)

lemma makes_runsD:
  "makes_runs x sg ids m \<Longrightarrow> m w = (r, w') \<Longrightarrow>
   \<exists>rs. runs_made w' = runs_made w @ rs \<and> attributed x sg ids rs"
  unfolding makes_runs_def by (metis snd_conv)

lemma only_runs_makes: "only_runs (isolated_run x sg i) m \<Longrightarrow> makes_runs x sg [i] m"
  unfolding only_runs_def by (rule makes_runsI) (blast intro: attributed_single)

lemma quiet_makes_runs: "only_runs (\<lambda>_. False) m \<Longrightarrow> makes_runs x sg ids m"
  by (rule makes_runsI) (fastforce simp: only_runs_def list_all_iff)

text \<open>One target's part first, then the others'; what follows them makes no runs.\<close>

lemma makes_runs_then:
  assumes "only_runs (isolated_run x sg i) m" and "\<And>a. makes_runs x sg ids (f a)"
  shows "makes_runs x sg (i # ids) (job_then m f)"
proof (rule makes_runsI)
  fix w r w' assume a: "job_then m f w = (r, w')"
  obtain q w1 where m: "m w = (q, w1)" by force
  obtain rs where rs: "runs_made w1 = runs_made w @ rs" "list_all (isolated_run x sg i) rs"
    using assms(1) m unfolding only_runs_def by blast
  show "\<exists>rs. runs_made w' = runs_made w @ rs \<and> attributed x sg (i # ids) rs"
  proof (cases q)
    case (Inl e)
    then show ?thesis
      using a m rs attributed_Cons [OF rs(2) attributed_none] by (auto simp: job_then_def)
  next
    case (Inr b)
    then have "f b w1 = (r, w')" using a m by (simp add: job_then_def)
    then obtain rs' where "runs_made w' = runs_made w1 @ rs'" "attributed x sg ids rs'"
      using makes_runsD [OF assms(2)] by blast
    then show ?thesis using rs attributed_Cons by (intro exI [of _ "rs @ rs'"]) simp
  qed
qed

lemma makes_runs_done:
  assumes "makes_runs x sg ids m"
  shows "makes_runs x sg ids (job_then m (\<lambda>a. job_done (g a)))"
  using assms unfolding makes_runs_def
  by (auto simp: job_then_def job_done_def split: prod.splits sum.splits) (metis snd_conv)+

lemma makes_runs_opened:
  assumes "makes_runs x sg ids (f (gitDirFor x sg i))"
  shows "makes_runs x sg ids (job_then (openShadowRepo x sg i) f)"
proof (rule makes_runsI)
  fix w r w' assume a: "job_then (openShadowRepo x sg i) f w = (r, w')"
  show "\<exists>rs. runs_made w' = runs_made w @ rs \<and> attributed x sg ids rs"
  proof (cases "fst (openShadowRepo x sg i w)")
    case (Inl e)
    then have "w' = w" using a by (auto simp: job_then_def openShadowRepo_def job_look_def split: prod.splits)
    then show ?thesis by (intro exI [of _ "[]"]) simp
  next
    case (Inr d)
    then obtain w1 where "openShadowRepo x sg i w = (Inr d, w1)" by (metis prod.collapse)
    moreover from this have "d = gitDirFor x sg i" "w1 = w" using openShadowRepo_is by blast+
    ultimately have "f (gitDirFor x sg i) w = (r, w')" using a by (simp add: job_then_def)
    then show ?thesis by (rule makes_runsD [OF assms])
  qed
qed

lemma diff_runs: "makes_runs x sg (unionKeys from to) (Diff x sg from to)"
proof -
  have "makes_runs x sg ids (diff_loop x sg from to ids)" for ids
  proof (induction ids)
    case Nil
    show ?case by (simp add: quiet_makes_runs job_rules)
  next
    case (Cons i ids)
    then show ?case by (auto intro!: makes_runs_then only_runs_diff_root makes_runs_done)
  qed
  then show ?thesis by (simp add: Diff_def)
qed

text \<open>The targets of path references, in the order the operations take them.\<close>

definition path_targets :: "string list \<Rightarrow> string list" where
  "path_targets paths = (case groupPathsByTarget paths of None \<Rightarrow> [] | Some gs \<Rightarrow> map fst gs)"

lemma preview_runs: "makes_runs x sg (path_targets paths) (Preview x sg snaps paths)"
proof -
  have "makes_runs x sg (map fst gs) (preview_targets x sg snaps gs)" for gs
  proof (induction gs)
    case Nil
    show ?case by (simp add: quiet_makes_runs job_rules)
  next
    case (Cons g gs)
    obtain i rels where g: "g = (i, rels)" by force
    show ?case
    proof (cases "map_of snaps i")
      case None
      then show ?thesis by (simp add: g quiet_makes_runs job_rules)
    next
      case (Some rs)
      then show ?thesis
        by (simp add: g) (intro makes_runs_opened makes_runs_then only_runs_preview_paths makes_runs_done Cons.IH)
    qed
  qed
  then show ?thesis
    by (auto simp: Preview_def path_targets_def quiet_makes_runs job_rules split: option.split)
qed

lemma restore_targets_runs:
  "restore_targets x sg snaps gs errs w = (errs', w') \<Longrightarrow>
   \<exists>rs. runs_made w' = runs_made w @ rs \<and> attributed x sg (map fst gs) rs"
proof (induction gs arbitrary: errs w)
  case (Cons g gs)
  obtain i rels where g: "g = (i, rels)" by force
  have skip: ?case if "restore_targets x sg snaps gs errs1 w = (errs', w')" for errs1
    using Cons.IH [OF that] g attributed_skip by fastforce
  show ?case
  proof (cases "map_of snaps i")
    case None
    then show ?thesis using Cons.prems g by (intro skip) simp
  next
    case (Some rs)
    obtain r w1 where o: "openShadowRepo x sg i w = (r, w1)" by force
    then have w1: "w1 = w" by (auto simp: openShadowRepo_def job_look_def)
    show ?thesis
    proof (cases r)
      case (Inl e)
      then show ?thesis using Cons.prems g Some o w1 by (intro skip) simp
    next
      case (Inr d)
      then have d: "d = gitDirFor x sg i" using openShadowRepo_is o by blast
      obtain errs1 w2 where p: "restore_paths x sg d rs rels errs w = (errs1, w2)" by force
      then obtain rs1 where 1: "runs_made w2 = runs_made w @ rs1" "list_all (isolated_run x sg i) rs1"
        using restore_paths_runs d by blast
      have "restore_targets x sg snaps gs errs1 w2 = (errs', w')" using Cons.prems g Some o w1 Inr p by simp
      then obtain rs2 where "runs_made w' = runs_made w2 @ rs2" "attributed x sg (map fst gs) rs2"
        using Cons.IH by blast
      then show ?thesis using 1 g attributed_Cons by (intro exI [of _ "rs1 @ rs2"]) simp
    qed
  qed
qed simp

lemma restore_runs: "makes_runs x sg (path_targets paths) (Restore x sg snaps paths)"
  by (rule makes_runsI)
    (auto simp: Restore_def path_targets_def dest: restore_targets_runs split: option.splits)

lemma capture_loop_runs:
  "capture_loop x sg ts snaps errs w = (r, w') \<Longrightarrow>
   \<exists>rs. runs_made w' = runs_made w @ rs \<and> attributed x sg (map tg_ID ts) rs"
proof (induction ts arbitrary: snaps errs w)
  case (Cons t ts)
  show ?case
  proof (cases "validate_target t")
    case False
    then show ?thesis using Cons.prems Cons.IH attributed_skip by fastforce
  next
    case True
    obtain q w1 where one: "captureOne x sg t w = (q, w1)" by force
    then obtain rs1 where 1: "runs_made w1 = runs_made w @ rs1" "list_all (isolated_run x sg (tg_ID t)) rs1"
      using only_runs_captureOne [of x sg t] unfolding only_runs_def by blast
    obtain snaps1 errs1 where "capture_loop x sg ts snaps1 errs1 w1 = (r, w')"
      using Cons.prems True one by (cases q) (auto split: if_splits)
    then obtain rs2 where "runs_made w' = runs_made w1 @ rs2" "attributed x sg (map tg_ID ts) rs2"
      using Cons.IH by blast
    then show ?thesis using 1 attributed_Cons by (intro exI [of _ "rs1 @ rs2"]) simp
  qed
qed simp

lemma capture_runs: "makes_runs x sg (map tg_ID ts) (Capture x sg ts)"
  by (rule makes_runsI) (auto simp: Capture_def dest: capture_loop_runs)

end
