(* ===== verification/Snapshot_Properties.thy ===== *)
theory Snapshot_Properties
  imports Snapshot_Jobs
begin

text \<open>
  Properties of \<open>ShadowGit\<close>: a restore does what its preview says; git is run in isolation; a
  cleanup keeps the newest captures; restore paths stay below the root; and two ways a restore
  does harm: after a failed capture it removes what it was asked to bring back, and through a
  symbolic link it writes to the link's target.
\<close>

subsection \<open>Effects on the disk\<close>

fun content_of :: "node \<Rightarrow> string" where
  "content_of (Regular c x) = c"
| "content_of (Link l) = l"
| "content_of Directory = []"

lemma map_of_updated [simp]: "map_of (AList.update p n d) = (map_of d)(p \<mapsto> n)"
  by (simp add: AList.update_conv')

lemma map_of_deleted [simp]: "map_of (AList.delete p d) = (map_of d)(p := None)"
  by (simp add: AList.delete_conv')

lemma follow_plain: "(\<And>l. map_of d p \<noteq> Some (Link l)) \<Longrightarrow> follow (Suc n) d p = Some p"
  by (auto split: option.split node.split)

lemma max_links_Suc: "max_links = Suc 39"
  by (simp add: max_links_def)

definition adds_dirs :: "string set \<Rightarrow> disk \<Rightarrow> disk \<Rightarrow> bool" where
  "adds_dirs qs d d' \<longleftrightarrow> (\<forall>q. map_of d' q = map_of d q \<or> map_of d q = None \<and> map_of d' q = Some Directory \<and> q \<in> qs)"

lemma make_dirs_adds: "make_dirs f ps d = Inr d' \<Longrightarrow> adds_dirs (set ps) d d'"
proof (induction ps arbitrary: d)
  case (Cons p ps)
  show ?case
  proof (cases "Stat f d p")
    case (Inl e)
    with Cons.prems have "map_of d p = None" "make_dirs f ps (AList.update p Directory d) = Inr d'"
      by (auto simp: faulty_def split: option.splits if_splits)
    with Cons.IH [of "AList.update p Directory d"]
    have step: "map_of d' q = (if q = p then Some Directory else map_of d q) \<or>
        (q \<noteq> p \<and> map_of d q = None) \<and> map_of d' q = Some Directory \<and> q \<in> set ps" for q
      by (auto simp: adds_dirs_def split: if_splits)
    show ?thesis unfolding adds_dirs_def
    proof
      fix q show "map_of d' q = map_of d q \<or> map_of d q = None \<and> map_of d' q = Some Directory \<and> q \<in> set (p # ps)"
        using step [of q] \<open>map_of d p = None\<close> by (cases "q = p") auto
    qed
  next
    case (Inr n)
    with Cons.prems have "make_dirs f ps d = Inr d'" by (cases n) auto
    then show ?thesis using Cons.IH [of d] by (auto simp: adds_dirs_def)
  qed
qed (simp add: adds_dirs_def)

lemma currentBlobHash_None: "currentBlobHash x root rel d = Inr None \<Longrightarrow> map_of d (JoinUnder root rel) = None"
  by (auto simp: currentBlobHash_def Let_def Lstat_def faulty_def
      split: sum.splits node.splits option.splits os_error.splits)

lemma currentBlobHash_Some:
  assumes "currentBlobHash x root rel d = Inr (Some h)"
  shows "\<exists>n. map_of d (JoinUnder root rel) = Some n \<and> n \<noteq> Directory \<and> gitBlobHash x (content_of n) = h"
proof (cases "map_of d (JoinUnder root rel)")
  case None
  then show ?thesis using assms
    by (auto simp: currentBlobHash_def Let_def Lstat_def faulty_def split: option.splits)
next
  case (Some n)
  show ?thesis
  proof (cases n)
    case (Regular c ex)
    then have "follow max_links d (JoinUnder root rel) = Some (JoinUnder root rel)"
      unfolding max_links_Suc using Some by (intro follow_plain) simp
    then show ?thesis using assms Some Regular
      by (auto simp: currentBlobHash_def Let_def Lstat_def ReadFile_def faulty_def split: option.splits)
  qed (use assms Some in \<open>auto simp: currentBlobHash_def Let_def Lstat_def faulty_def split: option.splits\<close>)
qed

lemma write_restored_effect:
  assumes w: "write_restored x full mode content w = (Inr (), w')"
    and link: "\<And>l. map_of (on_disk w) full \<noteq> Some (Link l)"
  shows "(\<exists>n. map_of (on_disk w') full = Some n \<and> n \<noteq> Directory \<and> content_of n = content) \<and>
    (\<forall>q. q \<noteq> full \<longrightarrow> map_of (on_disk w') q = map_of (on_disk w) q \<or> map_of (on_disk w) q = None \<and>
       map_of (on_disk w') q = Some Directory \<and> q \<in> set (directories_to (Dir full)))"
proof -
  obtain d where mk: "MkdirAll (os_faults x) (Dir full) (on_disk w) = Inr d"
    and rest: "(if mode = ''120000''
     then job_then (job_change (FileFailed OpRemove)
            (\<lambda>d. case Remove (os_faults x) full d of Inl _ \<Rightarrow> Inr d | Inr d' \<Rightarrow> Inr d')) (\<lambda>_.
          job_change (FileFailed OpSymlink) (Symlink (os_faults x) content full))
     else job_change (FileFailed OpWrite) (WriteFile (os_faults x) full content (mode = ''100755'')))
       (w\<lparr>on_disk := d\<rparr>) = (Inr (), w')"
    using w by (auto simp: write_restored_def job_then_Inr)
  have dirs: "adds_dirs (set (directories_to (Dir full))) (on_disk w) d"
    using mk make_dirs_adds by (simp add: MkdirAll_def)
  have link': "\<And>l. map_of d full \<noteq> Some (Link l)" using dirs link unfolding adds_dirs_def by (metis node.distinct(3) option.inject)
  show ?thesis
  proof (cases "mode = ''120000''")
    case True
    with rest obtain d1 where r: "(case Remove (os_faults x) full d of Inl _ \<Rightarrow> d | Inr d' \<Rightarrow> d') = d1"
      and s: "Symlink (os_faults x) content full d1 = Inr (on_disk w')"
      by (auto simp: job_then_Inr split: sum.splits)
    have "map_of d1 q = map_of d q" if "q \<noteq> full" for q
      using r that by (auto simp: Remove_def faulty_def split: option.splits node.splits if_splits)
    moreover have "map_of (on_disk w') = (map_of d1)(full \<mapsto> Link content)"
      using s map_of_updated [of full "Link content" d1]
      by (auto simp: Symlink_def faulty_def simp del: map_of_updated split: option.splits if_splits)
    ultimately show ?thesis using dirs by (auto simp: adds_dirs_def)
  next
    case False
    have "follow max_links d full = Some full" unfolding max_links_Suc using link' by (rule follow_plain)
    with False rest have "\<exists>ex. map_of (on_disk w') = (map_of d)(full \<mapsto> Regular content ex)"
      by (auto simp: WriteFile_def faulty_def split: option.splits node.splits if_splits)
    then show ?thesis using dirs by (auto simp: adds_dirs_def)
  qed
qed

text \<open>What is relied on of git: \<open>ls-tree\<close> and \<open>cat-file\<close> read only, and \<open>cat-file -p\<close> of a blob
  prints the content its hash was computed from.\<close>

definition git_reads :: "outside \<Rightarrow> bool" where
  "git_reads x \<longleftrightarrow> (\<forall>h r d g tree rel hash.
     run_args r = [g, ''ls-tree'', ''-r'', ''--full-tree'', tree, ''--'', rel] \<or> run_args r = [g, ''cat-file'', ''-p'', hash] \<longrightarrow>
     snd (git x h r d) = d)"

definition git_serves :: "outside \<Rightarrow> string \<Rightarrow> bool" where
  "git_serves x hash \<longleftrightarrow> (\<forall>h r d g c.
     run_args r = [g, ''cat-file'', ''-p'', hash] \<and> fst (git x h r d) = Inr c \<longrightarrow> gitBlobHash x c = hash)"

lemma runGit_world:
  assumes "runGit x sg step g tree extra args w = (r, w')"
  shows "\<exists>q. run_args q = (''--git-dir='' @ g) # (if tree \<noteq> [] then [''--work-tree='' @ tree] else []) @ args \<and>
    on_disk w' = snd (git x (runs_made w) q (on_disk w)) \<and>
    (\<forall>c. r = Inr c \<longrightarrow> fst (git x (runs_made w) q (on_disk w)) = Inr c)"
proof -
  let ?q = "\<lparr>run_dir = baseDir sg, run_env = isolatedEnv (environ x) extra,
     run_args = (''--git-dir='' @ g) # (if tree \<noteq> [] then [''--work-tree='' @ tree] else []) @ args\<rparr>"
  obtain out d where "git x (runs_made w) ?q (on_disk w) = (out, d)" by force
  with assms show ?thesis
    by (intro exI [of _ ?q]) (auto simp: runGit_def runGitRaw_def Let_def split: sum.splits)
qed

lemma reads_disk:
  assumes "git_reads x" and "runGit x sg step g [] [] args w = (r, w')"
    and "args = [''ls-tree'', ''-r'', ''--full-tree'', tree, ''--'', rel] \<or> args = [''cat-file'', ''-p'', hash]"
  shows "on_disk w' = on_disk w"
proof -
  obtain q where "run_args q = (''--git-dir='' @ g) # args" "on_disk w' = snd (git x (runs_made w) q (on_disk w))"
    using runGit_world [OF assms(2)] by auto
  then show ?thesis using assms(1,3) unfolding git_reads_def by metis
qed

lemma blobAt_disk:
  assumes "git_reads x" and "blobAt x sg g tree rel w = (r, w')"
  shows "on_disk w' = on_disk w"
proof (cases "tree = []")
  case True
  then show ?thesis using assms(2) by (simp add: blobAt_def job_done_def)
next
  case False
  obtain q w1 where run: "runGit x sg ''ls-tree'' g [] [] [''ls-tree'', ''-r'', ''--full-tree'', tree, ''--'', rel] w = (q, w1)"
    by force
  have "w' = w1"
    using assms(2) False run
    by (auto simp: blobAt_def job_then_def job_done_def job_fail_def split: sum.splits option.splits)
  with reads_disk [OF assms(1) run] show ?thesis by blast
qed

lemma catBlob_disk:
  assumes "git_reads x" and "catBlob x sg g hash w = (r, w')"
  shows "on_disk w' = on_disk w"
  using reads_disk [OF assms(1) assms(2) [unfolded catBlob_def]] by blast

lemma catBlob_serves:
  assumes "git_serves x hash" and "catBlob x sg g hash w = (Inr c, w')"
  shows "gitBlobHash x c = hash"
proof -
  obtain q where "run_args q = [''--git-dir='' @ g, ''cat-file'', ''-p'', hash]"
    "fst (git x (runs_made w) q (on_disk w)) = Inr c"
    using runGit_world [OF assms(2) [unfolded catBlob_def]] by auto
  then show ?thesis using assms(1) unfolding git_serves_def by metis
qed

lemma remove_restored_effect:
  assumes "remove_restored x full w = (Inr (), w')" and "map_of (on_disk w) full = Some n"
  shows "map_of (on_disk w') = (map_of (on_disk w))(full := None)"
  using assms by (auto simp: remove_restored_def Remove_def faulty_def split: option.splits node.splits sum.splits if_splits)

lemma preview_parts:
  assumes "preview_one x sg g rs rel w = (Inr c, w1)" and "git_reads x"
  obtains snap cur wa where "blobAt x sg g (TreeHash rs) rel w = (Inr snap, wa)" "on_disk wa = on_disk w"
    "currentBlobHash x (rs_Root rs) rel (on_disk w) = Inr cur"
    "rc_Kind c = classifyRestore (cur \<noteq> None) (snap \<noteq> None) (case cur of Some h \<Rightarrow> h | None \<Rightarrow> []) (case snap of Some (h, _) \<Rightarrow> h | None \<Rightarrow> [])"
    "SnapshotHash c = (case snap of Some (h, _) \<Rightarrow> h | None \<Rightarrow> [])"
proof -
  obtain snap cur wa where blob: "blobAt x sg g (TreeHash rs) rel w = (Inr snap, wa)"
    and "currentBlobHash x (rs_Root rs) rel (on_disk wa) = Inr cur"
      "rc_Kind c = classifyRestore (cur \<noteq> None) (snap \<noteq> None) (case cur of Some h \<Rightarrow> h | None \<Rightarrow> []) (case snap of Some (h, _) \<Rightarrow> h | None \<Rightarrow> [])"
      "SnapshotHash c = (case snap of Some (h, _) \<Rightarrow> h | None \<Rightarrow> [])"
    using assms(1) by (auto simp: preview_one_def Let_def job_then_Inr split: if_splits)
  moreover have "on_disk wa = on_disk w" using blobAt_disk [OF assms(2) blob] .
  ultimately show ?thesis using that by metis
qed

lemma restore_parts:
  assumes "restoreOne x sg g rs rel w = (Inr (), w2)" and "blobAt x sg g (TreeHash rs) rel w = (Inr snap, wa)"
    and "currentBlobHash x (rs_Root rs) rel (on_disk w) = Inr cur" and "on_disk wa = on_disk w"
  shows "(case snap of
       None \<Rightarrow> if cur = None then job_done () else remove_restored x (JoinUnder (rs_Root rs) rel)
     | Some (hash, mode) \<Rightarrow>
         if cur = Some hash then job_done ()
         else job_then (catBlob x sg g hash) (write_restored x (JoinUnder (rs_Root rs) rel) mode)) wa = (Inr (), w2)"
  using assms by (auto simp: restoreOne_def Let_def job_then_Inr split: if_splits)

definition content_restored :: "outside \<Rightarrow> string \<Rightarrow> string \<Rightarrow> world \<Rightarrow> world \<Rightarrow> bool" where
  "content_restored x full hash w w' \<longleftrightarrow>
    (\<exists>n. map_of (on_disk w') full = Some n \<and> n \<noteq> Directory \<and> gitBlobHash x (content_of n) = hash) \<and>
    (\<forall>q. q \<noteq> full \<longrightarrow> map_of (on_disk w') q = map_of (on_disk w) q \<or> map_of (on_disk w) q = None \<and>
       map_of (on_disk w') q = Some Directory \<and> q \<in> set (directories_to (Dir full)))"

lemma restored_content:
  assumes "job_then (catBlob x sg g hash) (write_restored x full mode) w = (Inr (), w')"
    and "git_reads x" "git_serves x hash" "\<And>l. map_of (on_disk w) full \<noteq> Some (Link l)" "on_disk w0 = on_disk w"
  shows "content_restored x full hash w0 w'"
proof -
  obtain content wb where cat: "catBlob x sg g hash w = (Inr content, wb)"
    and wr: "write_restored x full mode content wb = (Inr (), w')"
    using assms(1) by (auto simp: job_then_Inr)
  have "on_disk wb = on_disk w" using catBlob_disk [OF assms(2) cat] .
  with write_restored_effect [OF wr] assms(4,5) catBlob_serves [OF assms(3) cat] show ?thesis
    by (auto simp: content_restored_def)
qed

subsection \<open>Previews\<close>

text \<open>
  C13. A restore does what its preview says, but for a changed symbolic link. Take a git whose
  runs leave the disk alone (\<open>git_reads\<close>) and whose \<open>cat-file\<close> of the snapshot's hash gives
  content of that hash (\<open>git_serves\<close>), and let \<open>Preview\<close> and \<open>Restore\<close> of a path both succeed from
  the same state. A path previewed as unchanged leaves the disk as it is; one previewed as deleted
  was there and is gone; one previewed as added was not there and then holds content with the
  snapshot's hash; one previewed as modified, if it is no symbolic link on the disk, was there
  with other content and then holds content with the snapshot's hash. No other path changes, but
  for directories made on the way. \<open>Snapshot_Harms\<close> has what happens to a modified path that is
  a link.
\<close>

theorem restore_as_previewed:
  assumes "git_reads x" "git_serves x (SnapshotHash c)"
    and pre: "preview_one x sg g rs rel w = (Inr c, w1)" and res: "restoreOne x sg g rs rel w = (Inr (), w2)"
    and full: "full = JoinUnder (rs_Root rs) rel" and link: "\<And>l. rc_Kind c = ChangeModified \<Longrightarrow> map_of (on_disk w) full \<noteq> Some (Link l)"
  shows "(case rc_Kind c of
      ChangeUnchanged \<Rightarrow> on_disk w2 = on_disk w
    | ChangeDeleted \<Rightarrow> map_of (on_disk w) full \<noteq> None \<and> map_of (on_disk w2) full = None
    | ChangeAdded \<Rightarrow> map_of (on_disk w) full = None \<and>
        (\<exists>n. map_of (on_disk w2) full = Some n \<and> n \<noteq> Directory \<and> gitBlobHash x (content_of n) = SnapshotHash c)
    | ChangeModified \<Rightarrow> (\<exists>m. map_of (on_disk w) full = Some m \<and> gitBlobHash x (content_of m) \<noteq> SnapshotHash c) \<and>
        (\<exists>n. map_of (on_disk w2) full = Some n \<and> n \<noteq> Directory \<and> gitBlobHash x (content_of n) = SnapshotHash c)) \<and>
    (\<forall>q. q \<noteq> full \<longrightarrow> map_of (on_disk w2) q = map_of (on_disk w) q \<or> map_of (on_disk w) q = None \<and>
       map_of (on_disk w2) q = Some Directory \<and> q \<in> set (directories_to (Dir full)))"
proof -
  obtain snap cur wa where blob: "blobAt x sg g (TreeHash rs) rel w = (Inr snap, wa)" and wa: "on_disk wa = on_disk w"
    and cur: "currentBlobHash x (rs_Root rs) rel (on_disk w) = Inr cur"
    and c: "rc_Kind c = classifyRestore (cur \<noteq> None) (snap \<noteq> None) (case cur of Some h \<Rightarrow> h | None \<Rightarrow> []) (case snap of Some (h, _) \<Rightarrow> h | None \<Rightarrow> [])"
      "SnapshotHash c = (case snap of Some (h, _) \<Rightarrow> h | None \<Rightarrow> [])"
    by (rule preview_parts [OF pre assms(1)])
  note go = restore_parts [OF res blob cur wa, folded full]
  have now: "case cur of None \<Rightarrow> map_of (on_disk w) full = None | Some h \<Rightarrow> \<exists>n. map_of (on_disk w) full = Some n \<and> gitBlobHash x (content_of n) = h"
  proof (cases cur)
    case None
    then show ?thesis using currentBlobHash_None cur full by simp
  next
    case (Some h)
    then show ?thesis using currentBlobHash_Some [of x "rs_Root rs" rel "on_disk w" h] cur full by auto
  qed
  show ?thesis
  proof (cases snap)
    case None
    then show ?thesis
      using go c now wa remove_restored_effect [of x full wa w2] by (cases cur) (auto simp: classifyRestore_def)
  next
    case (Some hm)
    obtain hash mode where hm: "hm = (hash, mode)" by force
    show ?thesis
    proof (cases "cur = Some hash")
      case True
      then show ?thesis using go Some hm c wa by (simp add: classifyRestore_def)
    next
      case False
      then have "job_then (catBlob x sg g hash) (write_restored x full mode) wa = (Inr (), w2)" using go Some hm by simp
      moreover have "map_of (on_disk wa) full \<noteq> Some (Link l)" for l
        using now c link [of l] wa Some hm False by (cases cur) (auto simp: classifyRestore_def)
      moreover have "git_serves x hash" using assms(2) c Some hm by simp
      ultimately have "content_restored x full hash w w2" using restored_content [OF _ assms(1)] wa by fastforce
      then show ?thesis using now c Some hm False by (cases cur) (auto simp: classifyRestore_def content_restored_def)
    qed
  qed
qed

subsection \<open>A small outside\<close>

text \<open>A git that holds one file, whose hash is its last character; the tree of every capture.\<close>

definition one_file_git :: "git_run list \<Rightarrow> git_run \<Rightarrow> disk \<Rightarrow> (string + string) \<times> disk" where
  "one_file_git h r d =
     (let args = drop 1 (run_args r) in
      (if take 1 args = [''ls-tree''] then Inr (''100644 blob b'' @ [CHR 0x09] @ ''f'' @ [CHR 0x0A])
       else if take 1 args = [''cat-file''] then Inr ''ab''
       else if take 1 (drop 1 args) = [''add''] then Inl ''unreadable file''
       else Inr [], d))"

definition small_outside :: outside where
  "small_outside = \<lparr>environ = [''GIT_DIR=/repo/.git'', ''HOME=/h''], git = one_file_git, os_faults = \<lambda>_ _. None,
     sha256hex = \<lambda>s. ''k'' @ s, sha1hex = \<lambda>s. [last s], marshal_meta = id, unmarshal_meta = Some,
     clock = \<lambda>_. 100, nonce_of = \<lambda>_. Some ''00''\<rparr>"

definition small_store :: shadow_git where
  "small_store = \<lparr>baseDir = ''/s'', maxUntrackedBytes = 10\<rparr>"

definition small_disk :: disk where
  "small_disk = [(''/r'', Directory), (''/r/f'', Regular ''xy'' False),
     (''/s/targets/ki/shadow.git'', Directory), (''/s/targets/ki/meta.json'', Regular ''i'' False)]"

definition small_snapshot :: root_snapshot where
  "small_snapshot = \<lparr>rs_Target = ''i'', rs_Root = ''/r'', TreeHash = ''t'', CommitHash = ''c'', Skipped = [], rs_Err = None\<rparr>"

lemmas small_defs = small_outside_def small_store_def small_disk_def small_snapshot_def

lemma small_reads: "git_reads small_outside"
  by (simp add: git_reads_def small_outside_def one_file_git_def Let_def)

lemma small_serves: "git_serves small_outside ''b''"
  by (auto simp: git_serves_def small_outside_def one_file_git_def gitBlobHash_def Let_def)

theorem restore_as_previewed_witness:
  "\<exists>w2. restoreOne small_outside small_store ''/s/g'' small_snapshot ''f'' \<lparr>on_disk = small_disk, runs_made = []\<rparr> = (Inr (), w2) \<and>
    (\<exists>m. map_of small_disk ''/r/f'' = Some m \<and> gitBlobHash small_outside (content_of m) \<noteq> ''b'') \<and>
    (\<exists>n. map_of (on_disk w2) ''/r/f'' = Some n \<and> n \<noteq> Directory \<and> gitBlobHash small_outside (content_of n) = ''b'')"
proof -
  let ?w = "\<lparr>on_disk = small_disk, runs_made = []\<rparr>"
  let ?c = "\<lparr>rc_Path = ''f'', rc_Kind = ChangeModified, CurrentHash = ''y'', SnapshotHash = ''b''\<rparr>"
  have pre: "fst (preview_one small_outside small_store ''/s/g'' small_snapshot ''f'' ?w) = Inr ?c" by code_simp
  have res: "fst (restoreOne small_outside small_store ''/s/g'' small_snapshot ''f'' ?w) = Inr ()" by code_simp
  have full: "''/r/f'' = JoinUnder (rs_Root small_snapshot) ''f''" by code_simp
  have cur: "map_of small_disk ''/r/f'' = Some (Regular ''xy'' False)" by code_simp
  from pre res obtain w1 w2 where w: "preview_one small_outside small_store ''/s/g'' small_snapshot ''f'' ?w = (Inr ?c, w1)"
    "restoreOne small_outside small_store ''/s/g'' small_snapshot ''f'' ?w = (Inr (), w2)"
    by (metis prod.collapse)
  have "git_serves small_outside (SnapshotHash ?c)" by (simp add: small_serves)
  from restore_as_previewed [OF small_reads this w full] cur w(2) show ?thesis by simp
qed

end
