(* ===== verification/Snapshot_Harms.thy ===== *)
theory Snapshot_Harms
  imports Snapshot_Properties
begin

text \<open>
  What \<open>Capture\<close> leaves in a snapshot set, and two ways \<open>Restore\<close> does harm: after a failed
  capture it removes what it was asked to bring back, and through a symbolic link it writes to
  the file the link names.
\<close>

subsection \<open>Entries of a capture\<close>

definition whole_or_failed :: "snapshot_set \<Rightarrow> bool" where
  "whole_or_failed snaps \<longleftrightarrow> (\<forall>i rs. map_of snaps i = Some rs \<longrightarrow>
     rs_Target rs = i \<and> (case rs_Err rs of None \<Rightarrow> True | Some e \<Rightarrow> \<not> infrastructure e \<and> TreeHash rs = [] \<and> CommitHash rs = []))"

lemma whole_or_failed_update:
  assumes "whole_or_failed snaps" "rs_Target rs = i"
    and "\<And>e. rs_Err rs = Some e \<Longrightarrow> \<not> infrastructure e \<and> TreeHash rs = [] \<and> CommitHash rs = []"
  shows "whole_or_failed (AList.update i rs snaps)"
  using assms unfolding whole_or_failed_def by (auto split: option.split)

lemma captureOne_whole: "captureOne x sg t w = (Inr rs, w') \<Longrightarrow> rs_Target rs = tg_ID t \<and> rs_Root rs = tg_Root t \<and> rs_Err rs = None"
  by (auto simp: captureOne_def Let_def job_then_Inr)

lemma capture_entries:
  assumes "capture_loop x sg ts snaps errs w = ((snaps', errs'), w')" and "whole_or_failed snaps"
  shows "whole_or_failed snaps'"
  using assms
proof (induction ts arbitrary: snaps errs w)
  case (Cons t ts)
  have failed: "whole_or_failed (AList.update (tg_ID t) (failed_root t e) snaps)" if "\<not> infrastructure e" for e
    using Cons.prems(2) that by (intro whole_or_failed_update) (auto simp: failed_root_def)
  show ?case
  proof (cases "validate_target t")
    case False
    then show ?thesis using Cons.IH [OF _ failed [of InvalidTarget]] Cons.prems by (simp add: infrastructure_def)
  next
    case True
    obtain r w1 where one: "captureOne x sg t w = (r, w1)" by force
    show ?thesis
    proof (cases r)
      case (Inl e)
      then show ?thesis using Cons.IH Cons.prems one True failed [of e] by (cases "infrastructure e") auto
    next
      case (Inr rs)
      have "whole_or_failed (AList.update (tg_ID t) rs snaps)"
        using Cons.prems(2) captureOne_whole [of x sg t w rs w1] one Inr by (intro whole_or_failed_update) auto
      then show ?thesis using Cons.IH Cons.prems one True Inr by auto
    qed
  qed
qed simp

lemma capture_whole: "Capture x sg ts w = ((snaps, errs), w') \<Longrightarrow> whole_or_failed snaps"
  using capture_entries [of x sg ts "[]" "[]"] by (simp add: Capture_def whole_or_failed_def)

subsection \<open>Restoring one path\<close>

definition quiet :: "outside \<Rightarrow> string \<Rightarrow> bool" where
  "quiet x p \<longleftrightarrow> (\<forall>op. os_faults x op p = None)"

lemma Restore_single:
  assumes "pathRefSep \<notin> set i" and "map_of snaps i = Some rs" and "openShadowRepo x sg i w = (Inr g, w)"
    and "restoreOne x sg g rs rel w = (Inr (), w')"
  shows "Restore x sg snaps [JoinPath i rel] w = ([], w')"
  using assms by (simp add: Restore_def groupPathsByTarget_def split_join_path)

lemma currentBlobHash_Regular:
  assumes "map_of d (JoinUnder root rel) = Some (Regular c ex)" "quiet x (JoinUnder root rel)"
  shows "currentBlobHash x root rel d = Inr (Some (gitBlobHash x c))"
proof -
  have "follow max_links d (JoinUnder root rel) = Some (JoinUnder root rel)"
    unfolding max_links_Suc using assms(1) by (intro follow_plain) simp
  then show ?thesis using assms
    by (simp add: currentBlobHash_def Let_def Lstat_def ReadFile_def faulty_def quiet_def)
qed

text \<open>
  C37. After a failed capture a restore removes the file. Where the capture of a target failed for
  a reason that is not the store's, \<open>Capture\<close> still puts an entry in the set, with the error in it;
  \<open>Restore\<close> does not look at that error: asked for a file of the target that is on the disk, it
  removes it and reports no error.
\<close>

theorem failed_capture_restored:
  assumes "Capture x sg ts w0 = ((snaps, errs), w1)" and "map_of snaps i = Some rs" and "rs_Err rs \<noteq> None"
    and "pathRefSep \<notin> set i" and "openShadowRepo x sg i w = (Inr g, w)"
    and "validateRestorePath rel" and "full = JoinUnder (rs_Root rs) rel" and "quiet x full"
    and "map_of (on_disk w) full = Some (Regular c ex)"
  shows "\<exists>w'. Restore x sg snaps [JoinPath i rel] w = ([], w') \<and> map_of (on_disk w') = (map_of (on_disk w))(full := None)"
proof -
  have "TreeHash rs = []" using capture_whole [OF assms(1)] assms(2,3) unfolding whole_or_failed_def by fastforce
  moreover have "Remove (os_faults x) full (on_disk w) = Inr (AList.delete full (on_disk w))"
    using assms(8,9) by (simp add: Remove_def faulty_def quiet_def)
  ultimately have "restoreOne x sg g rs rel w = (Inr (), w\<lparr>on_disk := AList.delete full (on_disk w)\<rparr>)"
    using assms(6-9) currentBlobHash_Regular [of "on_disk w" "rs_Root rs" rel c ex x]
    by (auto simp: restoreOne_def Let_def blobAt_def remove_restored_def job_then_Inr)
  from Restore_single [OF assms(4,2,5) this] show ?thesis by auto
qed

theorem failed_capture_restored_witness:
  "\<exists>snaps errs w1 w'. Capture small_outside small_store [\<lparr>tg_ID = ''i'', tg_Root = ''/r'', IncludePaths = []\<rparr>]
        \<lparr>on_disk = small_disk, runs_made = []\<rparr> = ((snaps, errs), w1) \<and> errs = [] \<and>
     Restore small_outside small_store snaps [JoinPath ''i'' ''f''] w1 = ([], w') \<and>
     map_of (on_disk w1) ''/r/f'' = Some (Regular ''xy'' False) \<and>
     map_of (on_disk w') = (map_of (on_disk w1))(''/r/f'' := None)"
proof -
  let ?t = "\<lparr>tg_ID = ''i'', tg_Root = ''/r'', IncludePaths = []\<rparr>"
  let ?rs = "failed_root ?t (GitFailed ''add'' ''unreadable file'')"
  let ?cap = "Capture small_outside small_store [?t] \<lparr>on_disk = small_disk, runs_made = []\<rparr>"
  have out: "fst ?cap = ([(''i'', ?rs)], [])" by code_simp
  have disk: "map_of (on_disk (snd ?cap)) ''/r/f'' = Some (Regular ''xy'' False)" by code_simp
  have open_store: "fst (openShadowRepo small_outside small_store ''i'' (snd ?cap)) = Inr ''/s/targets/ki/shadow.git''" by code_simp
  have same: "snd (openShadowRepo small_outside small_store ''i'' (snd ?cap)) = snd ?cap"
    by (simp add: openShadowRepo_def job_look_def)
  have valid: "validateRestorePath ''f''" "''/r/f'' = JoinUnder (rs_Root ?rs) ''f''" by code_simp+
  have "quiet small_outside ''/r/f''" by (simp add: quiet_def small_outside_def)
  moreover have "?cap = (([(''i'', ?rs)], []), snd ?cap)" using out by (metis prod.collapse)
  moreover have "openShadowRepo small_outside small_store ''i'' (snd ?cap) = (Inr ''/s/targets/ki/shadow.git'', snd ?cap)"
    using open_store same by (metis prod.collapse)
  moreover have "map_of [(''i'', ?rs)] ''i'' = Some ?rs" "rs_Err ?rs \<noteq> None" "pathRefSep \<notin> set ''i''"
    by (simp_all add: failed_root_def pathRefSep_def)
  ultimately have "\<exists>w'. Restore small_outside small_store [(''i'', ?rs)] [JoinPath ''i'' ''f''] (snd ?cap) = ([], w') \<and>
     map_of (on_disk w') = (map_of (on_disk (snd ?cap)))(''/r/f'' := None)"
    using valid disk by (intro failed_capture_restored)
  then show ?thesis using \<open>?cap = (([(''i'', ?rs)], []), snd ?cap)\<close> disk by blast
qed

subsection \<open>Restoring over a link\<close>

text \<open>
  C38. A restore writes through a symbolic link. Where a path of the target is now a symbolic link
  to a file and the snapshot holds a regular file there, \<open>Restore\<close> overwrites the file the link
  names, wherever it is, leaves the link in place, and reports no error; so the path is not what
  the snapshot held even afterwards.
\<close>

theorem restore_through_link:
  assumes "pathRefSep \<notin> set i" and "map_of snaps i = Some rs" and "openShadowRepo x sg i w = (Inr g, w)"
    and "validateRestorePath rel" and "full = JoinUnder (rs_Root rs) rel" and "\<And>p. quiet x p"
    and link: "map_of (on_disk w) full = Some (Link q)" "IsAbs q" "Clean q = q"
    and there: "map_of (on_disk w) q = Some (Regular c ex)" "list_all (\<lambda>p. map_of (on_disk w) p = Some Directory) (directories_to (Dir full))"
    and "git_reads x" and "blobAt x sg g (TreeHash rs) rel w = (Inr (Some (hash, ''100644'')), wa)"
    and "catBlob x sg g hash wa = (Inr content, wb)" and "gitBlobHash x q \<noteq> hash"
  shows "\<exists>w'. Restore x sg snaps [JoinPath i rel] w = ([], w') \<and>
    map_of (on_disk w') = (map_of (on_disk w))(q \<mapsto> Regular content ex) \<and> map_of (on_disk w') full = Some (Link q)"
proof -
  have wa: "on_disk wa = on_disk w" using assms(12,13) by (rule blobAt_disk)
  have wb: "on_disk wb = on_disk w" using catBlob_disk [OF assms(12,14)] wa by simp
  have cur: "currentBlobHash x (rs_Root rs) rel (on_disk w) = Inr (Some (gitBlobHash x q))"
    using link assms(5,6) by (simp add: currentBlobHash_def Let_def Lstat_def faulty_def quiet_def)
  have dirs: "make_dirs (os_faults x) ps (on_disk w) = Inr (on_disk w)"
    if "list_all (\<lambda>p. map_of (on_disk w) p = Some Directory) ps" for ps
    using that
  proof (induction ps)
    case (Cons p ps)
    then have "follow max_links (on_disk w) p = Some p" unfolding max_links_Suc by (intro follow_plain) simp
    then show ?case using Cons assms(6) by (simp add: Stat_def faulty_def quiet_def)
  qed simp
  have ne: "full \<noteq> q" using link there by auto
  have "follow 39 (on_disk w) q = Some q"
    using there(1) follow_plain [of "on_disk w" q 38] by (simp add: eval_nat_numeral)
  then have "follow max_links (on_disk w) full = Some q"
    unfolding max_links_Suc follow.simps using link by simp
  then have written: "WriteFile (os_faults x) full content False (on_disk w) = Inr (AList.update q (Regular content ex) (on_disk w))"
    using there assms(6) by (simp add: WriteFile_def faulty_def quiet_def)
  have "write_restored x full ''100644'' content wb = (Inr (), wb\<lparr>on_disk := AList.update q (Regular content ex) (on_disk w)\<rparr>)"
    using dirs [OF there(2)] written wb by (auto simp: write_restored_def job_then_Inr MkdirAll_def)
  then have "restoreOne x sg g rs rel w = (Inr (), wb\<lparr>on_disk := AList.update q (Regular content ex) (on_disk w)\<rparr>)"
    using assms(4,5,13-15) cur wa by (auto simp: restoreOne_def Let_def job_then_Inr)
  from Restore_single [OF assms(1-3) this] link ne show ?thesis by auto
qed

theorem restore_through_link_witness:
  "\<exists>w'. Restore small_outside small_store [(''i'', small_snapshot)] [JoinPath ''i'' ''f'']
       \<lparr>on_disk = (''/h/notes'', Regular ''xy'' True) # AList.update ''/r/f'' (Link ''/h/notes'') small_disk, runs_made = []\<rparr> = ([], w') \<and>
     map_of (on_disk w') ''/h/notes'' = Some (Regular ''ab'' True) \<and> map_of (on_disk w') ''/r/f'' = Some (Link ''/h/notes'')"
proof -
  let ?d = "(''/h/notes'', Regular ''xy'' True) # AList.update ''/r/f'' (Link ''/h/notes'') small_disk"
  let ?w = "\<lparr>on_disk = ?d, runs_made = []\<rparr>"
  let ?g = "''/s/targets/ki/shadow.git''"
  let ?blob = "blobAt small_outside small_store ?g (TreeHash small_snapshot) ''f'' ?w"
  let ?cat = "catBlob small_outside small_store ?g ''b'' (snd ?blob)"
  have "fst (openShadowRepo small_outside small_store ''i'' ?w) = Inr ?g" by code_simp
  moreover have "snd (openShadowRepo small_outside small_store ''i'' ?w) = ?w" by (simp add: openShadowRepo_def job_look_def)
  ultimately have open_store: "openShadowRepo small_outside small_store ''i'' ?w = (Inr ?g, ?w)" by (metis prod.collapse)
  have "fst ?blob = Inr (Some (''b'', ''100644''))" "fst ?cat = Inr ''ab''" by code_simp+
  then have runs: "?blob = (Inr (Some (''b'', ''100644'')), snd ?blob)" "?cat = (Inr ''ab'', snd ?cat)" by (metis prod.collapse)+
  have "pathRefSep \<notin> set ''i''" "map_of [(''i'', small_snapshot)] ''i'' = Some small_snapshot" "validateRestorePath ''f''"
    "''/r/f'' = JoinUnder (rs_Root small_snapshot) ''f''" "map_of (on_disk ?w) ''/r/f'' = Some (Link ''/h/notes'')"
    "IsAbs ''/h/notes''" "Clean ''/h/notes'' = ''/h/notes''" "map_of (on_disk ?w) ''/h/notes'' = Some (Regular ''xy'' True)"
    "list_all (\<lambda>p. map_of (on_disk ?w) p = Some Directory) (directories_to (Dir ''/r/f''))"
    "gitBlobHash small_outside ''/h/notes'' \<noteq> ''b''"
    by code_simp+
  moreover have "quiet small_outside p" for p by (simp add: quiet_def small_outside_def)
  ultimately have "\<exists>w'. Restore small_outside small_store [(''i'', small_snapshot)] [JoinPath ''i'' ''f''] ?w = ([], w') \<and>
    map_of (on_disk w') = (map_of (on_disk ?w))(''/h/notes'' \<mapsto> Regular ''ab'' True) \<and>
    map_of (on_disk w') ''/r/f'' = Some (Link ''/h/notes'')"
    using open_store runs small_reads by (intro restore_through_link)
  then show ?thesis by fastforce
qed

end
