(* ===== verification/Snapshot_Cleanup.thy ===== *)
theory Snapshot_Cleanup
  imports Snapshot_Properties
begin

text \<open>
  Git runs of the operations: every one is isolated from the caller's repositories, and a cleanup
  deletes exactly the refs its policy names. What a capture reports, and where restore paths lie.
\<close>

subsection \<open>Isolation\<close>

lemma makes_runs_snd:
  "makes_runs x sg ids m \<Longrightarrow> \<exists>rs. runs_made (snd (m w)) = runs_made w @ rs \<and> attributed x sg ids rs"
  by (simp add: makes_runs_def)

text \<open>
  C29. Git works on the operation's own stores and nowhere else. Whatever \<open>Capture\<close>, \<open>Diff\<close>,
  \<open>Preview\<close>, \<open>Restore\<close>, \<open>Cleanup\<close> and \<open>Purge\<close> do, on any disk and with any git, the runs they
  add to the ones made before come target by target, in the order of the targets captured, of the
  sorted ids of the two sets compared, or of the targets the path references name; every run for
  a target is in the base directory or in that target's store, names that target's git
  directory, and has no \<open>GIT_\<close> variable in its environment but the identity of the commits.
  A cleanup runs on its one target, a purge runs no git at all.
\<close>

theorem git_isolated:
  "(\<exists>rs. runs_made (snd (Capture x sg ts w)) = runs_made w @ rs \<and> attributed x sg (map tg_ID ts) rs) \<and>
   (\<exists>rs. runs_made (snd (Diff x sg from to w)) = runs_made w @ rs \<and> attributed x sg (unionKeys from to) rs) \<and>
   (\<exists>rs. runs_made (snd (Preview x sg snaps paths w)) = runs_made w @ rs \<and> attributed x sg (path_targets paths) rs) \<and>
   (\<exists>rs. runs_made (snd (Restore x sg snaps paths w)) = runs_made w @ rs \<and> attributed x sg (path_targets paths) rs) \<and>
   (\<exists>rs. runs_made (snd (Cleanup x sg i policy w)) = runs_made w @ rs \<and> attributed x sg [i] rs) \<and>
   runs_made (snd (Purge x sg i w)) = runs_made w"
proof (intro conjI)
  show "runs_made (snd (Purge x sg i w)) = runs_made w"
    by (simp add: Purge_def job_change_def split: sum.split)
qed (intro makes_runs_snd capture_runs diff_runs preview_runs restore_runs only_runs_makes only_runs_cleanup)+

subsection \<open>Cleanup\<close>

definition shadow_run :: "outside \<Rightarrow> shadow_git \<Rightarrow> string \<Rightarrow> string list \<Rightarrow> git_run" where
  "shadow_run x sg i args = \<lparr>run_dir = baseDir sg, run_env = isolatedEnv (environ x) [],
     run_args = (''--git-dir='' @ gitDirFor x sg i) # args\<rparr>"

definition list_args :: "string list" where
  "list_args = [''for-each-ref'', ''--format=%(refname)'', snapshotRefPrefix]"

definition gc_args :: "string list" where
  "gc_args = [''-c'', ''gc.reflogExpire=now'', ''-c'', ''gc.reflogExpireUnreachable=now'', ''gc'', ''--prune=now'', ''--quiet'']"

lemma runGit_Inr:
  "runGit x sg step (gitDirFor x sg i) [] [] args w = (Inr out, w') \<Longrightarrow>
   runs_made w' = runs_made w @ [shadow_run x sg i args] \<and> fst (git x (runs_made w) (shadow_run x sg i args) (on_disk w)) = Inr out"
  by (auto simp: runGit_def runGitRaw_def Let_def shadow_run_def split: prod.splits sum.splits)

lemma delete_refs_runs:
  "delete_refs x sg (gitDirFor x sg i) refs w = (Inr (), w') \<Longrightarrow>
   runs_made w' = runs_made w @ map (\<lambda>ref. shadow_run x sg i [''update-ref'', ''-d'', ref]) refs"
proof (induction refs arbitrary: w)
  case (Cons ref refs)
  then show ?case by (auto simp: job_then_Inr dest!: runGit_Inr Cons.IH)
qed simp

lemma newest_first_facts:
  "set (newest_first es) = set es" "length (newest_first es) = length es"
  "distinct (map f (newest_first es)) = distinct (map f es)"
  by (simp_all add: newest_first_def distinct_map)

lemma newest_first_position:
  assumes "distinct (map snd es)" "j < length es"
  shows "card {e \<in> set es. snd e > snd (newest_first es ! j)} = j"
proof -
  let ?ns = "newest_first es"
  note ns = newest_first_facts(1,2) [of es]
  have dist: "distinct (map snd ?ns)" using assms(1) by (simp add: newest_first_facts)
  have "sorted (map (\<lambda>e. - snd e) ?ns)" by (simp add: newest_first_def)
  then have down: "snd (?ns ! b) \<le> snd (?ns ! a)" if "a \<le> b" "b < length es" for a b
    using that ns(2) by (auto simp: sorted_iff_nth_mono)
  have eq: "snd (?ns ! a) = snd (?ns ! b) \<longleftrightarrow> a = b" if "a < length es" "b < length es" for a b
    using dist that ns(2) nth_eq_iff_index_eq [of "map snd ?ns" a b] by simp
  have before: "snd (?ns ! j) < snd (?ns ! a) \<longleftrightarrow> a < j" if "a < length es" for a
    using down [of a j] down [of j a] eq [of a j] that assms(2) by (cases "a < j") force+
  have mem: "e \<in> set es \<longleftrightarrow> (\<exists>k < length es. ?ns ! k = e)" for e using ns in_set_conv_nth [of e ?ns] by auto
  have taken: "e \<in> set (take j ?ns) \<longleftrightarrow> (\<exists>k < j. ?ns ! k = e)" for e
    using ns assms(2) by (auto simp: in_set_conv_nth)
  have "{e \<in> set es. snd e > snd (?ns ! j)} = set (take j ?ns)"
  proof (rule set_eqI)
    fix e show "e \<in> {e \<in> set es. snd e > snd (?ns ! j)} \<longleftrightarrow> e \<in> set (take j ?ns)"
      unfolding mem taken mem_Collect_eq using before assms(2) less_trans by blast
  qed
  moreover have "distinct ?ns" using dist by (simp add: distinct_map)
  ultimately show ?thesis using ns(2) assms(2) by (simp add: distinct_card)
qed

lemma in_enumerate: "(k, e) \<in> set (enumerate 0 xs) \<longleftrightarrow> k < length xs \<and> xs ! k = e"
  by (auto simp: in_set_enumerate_eq)

lemma in_refs_to_remove: "ref \<in> set (refs_to_remove policy now es) \<longleftrightarrow>
   (\<exists>k < length (newest_first es). fst (newest_first es ! k) = ref \<and>
     (MaxAge policy > 0 \<and> now - snd (newest_first es ! k) > MaxAge policy \<or>
      MaxSnapshotSets policy > 0 \<and> int k \<ge> MaxSnapshotSets policy))"
proof -
  have "ref \<in> set (refs_to_remove policy now es) \<longleftrightarrow> (\<exists>k e. (k, e) \<in> set (enumerate 0 (newest_first es)) \<and>
     (MaxAge policy > 0 \<and> now - snd e > MaxAge policy \<or> MaxSnapshotSets policy > 0 \<and> int k \<ge> MaxSnapshotSets policy) \<and> ref = fst e)"
    by (simp add: refs_to_remove_def image_iff Bex_def case_prod_beta)
  then show ?thesis unfolding in_enumerate by blast
qed

lemma refs_to_remove_iff:
  assumes "distinct (map fst es)" "distinct (map snd es)" "(ref, ts) \<in> set es"
  shows "ref \<in> set (refs_to_remove policy now es) \<longleftrightarrow> MaxAge policy > 0 \<and> now - ts > MaxAge policy \<or>
    MaxSnapshotSets policy > 0 \<and> int (card {e \<in> set es. snd e > ts}) \<ge> MaxSnapshotSets policy"
proof -
  let ?ns = "newest_first es"
  note ns = newest_first_facts(1,2) [of es]
  have dist: "distinct (map fst ?ns)" using assms(1) by (simp add: newest_first_facts)
  obtain j where j: "j < length es" "?ns ! j = (ref, ts)" using assms(3) ns by (metis in_set_conv_nth)
  have only: "k = j" if "k < length es" "fst (?ns ! k) = ref" for k
    using dist that j ns(2) nth_eq_iff_index_eq [of "map fst ?ns" k j] by simp
  have pick: "(\<exists>k < length es. fst (?ns ! k) = ref \<and> Q k) \<longleftrightarrow> Q j" for Q :: "nat \<Rightarrow> bool"
    using only j by (metis fst_conv)
  show ?thesis
    unfolding in_refs_to_remove ns(2) pick using newest_first_position [OF assms(2) j(1)] j(2) by simp
qed

lemma refs_to_remove_distinct:
  assumes "distinct (map fst es)"
  shows "distinct (refs_to_remove policy now es)" "set (refs_to_remove policy now es) \<subseteq> fst ` set es"
    "length (refs_to_remove policy now es) \<le> length es"
proof -
  let ?ns = "newest_first es"
  let ?P = "\<lambda>(k, e). MaxAge policy > 0 \<and> now - snd e > MaxAge policy \<or> MaxSnapshotSets policy > 0 \<and> int k \<ge> MaxSnapshotSets policy"
  have "distinct (map fst ?ns)" using assms by (simp add: newest_first_facts)
  then have "distinct (map (\<lambda>(k, e). fst e) (enumerate 0 ?ns))"
    by (simp add: case_prod_unfold comp_def flip: map_map [of fst snd, unfolded comp_def])
  then show "distinct (refs_to_remove policy now es)" unfolding refs_to_remove_def by (rule distinct_map_filter)
  show "set (refs_to_remove policy now es) \<subseteq> fst ` set es"
    using newest_first_facts(1) [of es] by (auto simp: refs_to_remove_def enumerate_eq_zip dest!: set_zip_rightD)
  show "length (refs_to_remove policy now es) \<le> length es"
    using length_filter_le [of ?P "enumerate 0 ?ns"] by (simp add: refs_to_remove_def newest_first_def)
qed

text \<open>
  C25. A cleanup removes exactly what its policy names. Where \<open>Cleanup\<close> succeeds and the refs it
  recognises have different names and times, it lists the refs, deletes each one that is older
  than the policy's age or has at least as many newer ones as the policy keeps, and no other,
  collects the garbage exactly when it deleted any, and counts both sides.
\<close>

theorem cleanup_by_policy:
  assumes ok: "Cleanup x sg i policy w = (Inr res, w')"
    and listed: "fst (git x (runs_made w) (shadow_run x sg i list_args) (on_disk w)) = Inr out"
    and es: "es = ref_entries out" "distinct (map fst es)" "distinct (map snd es)"
    and now: "now = clock x (runs_made w @ [shadow_run x sg i list_args])"
  shows "\<exists>gone. runs_made w' = runs_made w @ [shadow_run x sg i list_args] @
      map (\<lambda>ref. shadow_run x sg i [''update-ref'', ''-d'', ref]) gone @ (if gone = [] then [] else [shadow_run x sg i gc_args]) \<and>
    distinct gone \<and> set gone \<subseteq> fst ` set es \<and>
    (\<forall>ref ts. (ref, ts) \<in> set es \<longrightarrow> (ref \<in> set gone \<longleftrightarrow> MaxAge policy > 0 \<and> now - ts > MaxAge policy \<or>
       MaxSnapshotSets policy > 0 \<and> int (card {e \<in> set es. snd e > ts}) \<ge> MaxSnapshotSets policy)) \<and>
    Removed res = length gone \<and> Removed res + RemainingCount res = length es"
proof -
  let ?gone = "refs_to_remove policy now es"
  obtain g w0 where g: "openShadowRepo x sg i w = (Inr g, w0)"
    using ok by (auto simp: Cleanup_def job_then_Inr)
  then have g0: "openShadowRepo x sg i w = (Inr (gitDirFor x sg i), w)" using openShadowRepo_is by blast
  from ok obtain out' w1 w2 where
    ls: "runGit x sg ''for-each-ref'' (gitDirFor x sg i) [] [] list_args w = (Inr out', w1)"
    and del: "delete_refs x sg (gitDirFor x sg i) (refs_to_remove policy (clock x (runs_made w1)) (ref_entries out')) w1 = (Inr (), w2)"
    and gc: "\<exists>o'. (if refs_to_remove policy (clock x (runs_made w1)) (ref_entries out') \<noteq> []
        then runGit x sg ''gc'' (gitDirFor x sg i) [] [] gc_args else job_done []) w2 = (Inr o', w')"
    and res: "res = \<lparr>cr_Target = i, Removed = length (refs_to_remove policy (clock x (runs_made w1)) (ref_entries out')),
        RemainingCount = length (ref_entries out') - length (refs_to_remove policy (clock x (runs_made w1)) (ref_entries out'))\<rparr>"
    unfolding Cleanup_def Let_def list_args_def [symmetric] gc_args_def [symmetric]
    by (auto simp: g0 job_then_Inr job_now_def)
  from runGit_Inr [OF ls] listed have out: "out' = out" "runs_made w1 = runs_made w @ [shadow_run x sg i list_args]" by auto
  have gone: "refs_to_remove policy (clock x (runs_made w1)) (ref_entries out') = ?gone" using out es(1) now by simp
  note del = delete_refs_runs [OF del [unfolded gone]]
  have "runs_made w' = runs_made w2 @ (if ?gone = [] then [] else [shadow_run x sg i gc_args])"
    using gc unfolding gone by (auto dest!: runGit_Inr split: if_splits)
  then have runs: "runs_made w' = runs_made w @ [shadow_run x sg i list_args] @
      map (\<lambda>ref. shadow_run x sg i [''update-ref'', ''-d'', ref]) ?gone @ (if ?gone = [] then [] else [shadow_run x sg i gc_args])"
    using del out(2) by simp
  have "Removed res = length ?gone" "Removed res + RemainingCount res = length es"
    using res gone out(1) es(1) refs_to_remove_distinct(3) [OF es(2), of policy now] by simp_all
  then show ?thesis
    using runs refs_to_remove_distinct(1,2) [OF es(2), of policy now] refs_to_remove_iff [OF es(2,3)]
    by (intro exI [of _ ?gone]) blast
qed

definition three_refs :: string where
  "three_refs = snapshotRefName 90 ''0a'' @ [newline_char] @ snapshotRefName 10 ''0b'' @ [newline_char] @
     ''refs/snapshots/stray'' @ [newline_char] @ snapshotRefName 95 ''0c'' @ [newline_char]"

definition listing_outside :: outside where
  "listing_outside = small_outside\<lparr>git := (\<lambda>h r d. (if take 1 (drop 1 (run_args r)) = [''for-each-ref''] then Inr three_refs else Inr [], d))\<rparr>"

theorem cleanup_by_policy_witness:
  "\<exists>w' gone. Cleanup listing_outside small_store ''i'' \<lparr>MaxAge = 50, MaxSnapshotSets = 1\<rparr> \<lparr>on_disk = small_disk, runs_made = []\<rparr> =
      (Inr \<lparr>cr_Target = ''i'', Removed = 2, RemainingCount = 1\<rparr>, w') \<and> length gone = 2 \<and>
    runs_made w' = [shadow_run listing_outside small_store ''i'' list_args] @
      map (\<lambda>ref. shadow_run listing_outside small_store ''i'' [''update-ref'', ''-d'', ref]) gone @
      [shadow_run listing_outside small_store ''i'' gc_args]"
proof -
  let ?w = "\<lparr>on_disk = small_disk, runs_made = []\<rparr>"
  let ?pol = "\<lparr>MaxAge = 50, MaxSnapshotSets = 1\<rparr>"
  let ?res = "\<lparr>cr_Target = ''i'', Removed = 2, RemainingCount = 1\<rparr>"
  let ?c = "Cleanup listing_outside small_store ''i'' ?pol ?w"
  have "fst ?c = Inr ?res" by code_simp
  then have ok: "?c = (Inr ?res, snd ?c)" by (metis prod.collapse)
  have listed: "fst (git listing_outside (runs_made ?w) (shadow_run listing_outside small_store ''i'' list_args) (on_disk ?w)) = Inr three_refs"
    by (simp add: listing_outside_def shadow_run_def list_args_def)
  have dist: "distinct (map fst (ref_entries three_refs))" "distinct (map snd (ref_entries three_refs))" by code_simp+
  from cleanup_by_policy [OF ok listed refl dist refl] obtain gone where
    "runs_made (snd ?c) = runs_made ?w @ [shadow_run listing_outside small_store ''i'' list_args] @
      map (\<lambda>ref. shadow_run listing_outside small_store ''i'' [''update-ref'', ''-d'', ref]) gone @
      (if gone = [] then [] else [shadow_run listing_outside small_store ''i'' gc_args])" "Removed ?res = length gone"
    by blast
  then show ?thesis using ok by (intro exI [of _ "snd ?c"] exI [of _ gone]) auto
qed

subsection \<open>What a capture reports\<close>

definition reported :: "target list \<Rightarrow> snapshot_set \<Rightarrow> snap_error list \<Rightarrow> bool" where
  "reported ts snaps errs \<longleftrightarrow> list_all infrastructure errs \<and> (errs = [] \<longrightarrow> tg_ID ` set ts \<subseteq> dom (map_of snaps))"

lemma capture_loop_reports:
  assumes "capture_loop x sg ts snaps errs w = ((snaps', errs'), w')" and "reported seen snaps errs"
  shows "reported (seen @ ts) snaps' errs'"
  using assms
proof (induction ts arbitrary: seen snaps errs w)
  case (Cons t ts)
  have entered: "reported (seen @ t # ts) snaps' errs'"
    if "capture_loop x sg ts (AList.update (tg_ID t) rs snaps) errs w1 = ((snaps', errs'), w')" for rs w1
  proof -
    have "reported (seen @ [t]) (AList.update (tg_ID t) rs snaps) errs"
      using Cons.prems(2) by (auto simp: reported_def)
    from Cons.IH [OF that this] show ?thesis by simp
  qed
  show ?case
  proof (cases "validate_target t")
    case False
    then show ?thesis using Cons.prems entered by simp
  next
    case True
    obtain r w1 where one: "captureOne x sg t w = (r, w1)" by force
    show ?thesis
    proof (cases r)
      case (Inl e)
      have "reported (seen @ [t]) snaps (errs @ [e])" if "infrastructure e"
        using Cons.prems(2) that by (simp add: reported_def)
      then show ?thesis
        using Cons.IH [of snaps "errs @ [e]" w1 "seen @ [t]"] Cons.prems(1) one Inl True entered by (cases "infrastructure e") simp_all
    next
      case (Inr rs)
      then show ?thesis using Cons.prems(1) one True entered by simp
    qed
  qed
qed simp

text \<open>A capture fails loudly for the store and best-effort for all else: the errors it returns are
  of the store only, and without one every target has an entry.\<close>

theorem capture_failures_separate:
  assumes "Capture x sg ts w = ((snaps, errs), w')"
  shows "list_all infrastructure errs" and "errs = [] \<Longrightarrow> tg_ID ` set ts \<subseteq> dom (map_of snaps)"
  using capture_loop_reports [OF assms [unfolded Capture_def], of "[]"] by (auto simp: reported_def)

subsection \<open>Restore paths\<close>

text \<open>The file a restore path names is the root's components and then its own, none of which climbs.\<close>

theorem restore_path_below:
  assumes "validateRestorePath rel" and "root \<noteq> []"
  shows "parts_of (root @ ''/'' @ rel) = parts_of root @ parts_of rel \<and> ''..'' \<notin> set (parts_of rel) \<and>
    JoinUnder root rel = Clean (root @ ''/'' @ rel)"
  using joined_below [OF assms] assms by (auto simp: JoinUnder_def validateRestorePath_def)

end
