(* ===== verification/Write_Frame.thy ===== *)
theory Write_Frame
  imports Prelude
begin

text \<open>
  \<open>acp/writeframe.go\<close>: \<open>WriteFrameCtx\<close> and \<open>lockCtx\<close>, by which several callers write frames to
  one transport, each bounded by its own context. A caller is a program counter, with the
  goroutine of \<open>lockCtx\<close> and the \<open>context.AfterFunc\<close> of its write beside it; the steps of all
  callers interleave. What a \<open>Write\<close> may return is the contract of \<open>io.Writer\<close>: less than the
  frame only with an error, a deadline error only past a deadline, a closed error only once the
  transport is closed.
\<close>

subsection \<open>State\<close>

datatype write_error = CtxErr | DeadlineExceeded | ClosedError | WriteError string

datatype frame_pc =
    Start | Locking | Selecting | Locked | Writing
  | Wrote nat "write_error option" | Stopping nat "write_error option" | Joining nat "write_error option"
  | Clearing nat "write_error option" | Judging nat "write_error option" | Verdict nat write_error
  | Returned "write_error option"

text \<open>The goroutine that waits for the lock, and whether its caller has left.\<close>

datatype lock_waiter = NoWaiter | Waits | Acquired | LeftWaits | LeftAcquired

datatype frame_interrupt = Unarmed | Armed | Firing | Checking | Closes | Fired | Stopped

record frame_call =
  at_pc :: frame_pc
  waiter :: lock_waiter
  cutter :: frame_interrupt
  writeDone :: bool
  closedByUs :: bool
  ctx_ended :: bool

record frame_writer =
  frame_mu :: "nat option"
  sent :: "(nat \<times> string) list"
  write_deadline :: bool
  transport_closed :: bool
  callers :: "nat \<Rightarrow> frame_call"

definition new_call :: frame_call where
  "new_call = \<lparr>at_pc = Start, waiter = NoWaiter, cutter = Unarmed, writeDone = False, closedByUs = False, ctx_ended = False\<rparr>"

definition new_writer :: frame_writer where
  "new_writer = \<lparr>frame_mu = None, sent = [], write_deadline = False, transport_closed = False, callers = (\<lambda>_. new_call)\<rparr>"

definition at_call :: "nat \<Rightarrow> (frame_call \<Rightarrow> frame_call) \<Rightarrow> frame_writer \<Rightarrow> frame_writer" where
  "at_call i f s = s\<lparr>callers := (callers s)(i := f (callers s i))\<rparr>"

definition goes :: "nat \<Rightarrow> frame_pc \<Rightarrow> frame_writer \<Rightarrow> frame_writer" where
  "goes i p s = at_call i (\<lambda>c. c\<lparr>at_pc := p\<rparr>) s"

subsection \<open>Sections\<close>

text \<open>\<open>lockCtx\<close>: a free lock is taken; else a goroutine waits for it, unless the context cannot end.\<close>

definition try_lock :: "bool \<Rightarrow> nat \<Rightarrow> frame_writer \<Rightarrow> frame_writer" where
  "try_lock endless i s =
     (if frame_mu s = None then goes i Locked (s\<lparr>frame_mu := Some i\<rparr>)
      else if endless then s
      else at_call i (\<lambda>c. c\<lparr>at_pc := Selecting, waiter := Waits\<rparr>) s)"

definition give_up :: "nat \<Rightarrow> frame_writer \<Rightarrow> frame_writer" where
  "give_up i s = at_call i (\<lambda>c. c\<lparr>at_pc := Returned (Some CtxErr),
     waiter := (if waiter c = Waits then LeftWaits else LeftAcquired)\<rparr>) s"

definition unlock_return :: "nat \<Rightarrow> write_error option \<Rightarrow> frame_writer \<Rightarrow> frame_writer" where
  "unlock_return i r s = goes i (Returned r) (s\<lparr>frame_mu := None\<rparr>)"

definition recheck :: "nat \<Rightarrow> frame_writer \<Rightarrow> frame_writer" where
  "recheck i s =
     (if ctx_ended (callers s i) then unlock_return i (Some CtxErr) s
      else at_call i (\<lambda>c. c\<lparr>at_pc := Writing, cutter := Armed\<rparr>) s)"

definition cut_check :: "nat \<Rightarrow> frame_writer \<Rightarrow> frame_writer" where
  "cut_check i s = at_call i (\<lambda>c. if writeDone c then c\<lparr>cutter := Fired\<rparr> else c\<lparr>cutter := Closes, closedByUs := True\<rparr>) s"

definition write_returns :: "frame_writer \<Rightarrow> string \<Rightarrow> nat \<Rightarrow> write_error option \<Rightarrow> bool" where
  "write_returns s f n e \<longleftrightarrow> n \<le> length f \<and>
     (case e of
        None \<Rightarrow> n = length f
      | Some DeadlineExceeded \<Rightarrow> write_deadline s
      | Some ClosedError \<Rightarrow> transport_closed s
      | Some CtxErr \<Rightarrow> False
      | Some (WriteError _) \<Rightarrow> True)"

definition stop_cutter :: "nat \<Rightarrow> nat \<Rightarrow> write_error option \<Rightarrow> frame_writer \<Rightarrow> frame_writer" where
  "stop_cutter i n e s =
     (if cutter (callers s i) = Armed then at_call i (\<lambda>c. c\<lparr>at_pc := Judging n e, cutter := Stopped\<rparr>) s
      else goes i (Joining n e) s)"

fun judge :: "nat \<Rightarrow> nat \<Rightarrow> write_error option \<Rightarrow> frame_writer \<Rightarrow> frame_writer" where
  "judge i n None s = unlock_return i None s"
| "judge i n (Some e) s = goes i (Verdict n e) (if n > 0 then s\<lparr>transport_closed := True\<rparr> else s)"

definition frame_verdict :: "frame_call \<Rightarrow> write_error \<Rightarrow> write_error" where
  "frame_verdict c e =
     (if ctx_ended c \<and> (e = DeadlineExceeded \<or> closedByUs c \<and> e = ClosedError) then CtxErr else e)"

subsection \<open>Steps\<close>

text \<open>The steps of a caller, of its waiting goroutine and of its interrupt. \<open>frame i\<close> is the frame of caller \<open>i\<close>; \<open>endless i\<close>: its context has no \<open>Done\<close> channel;
  \<open>works\<close>: the writer has a write deadline that works, as long as the transport is open.\<close>

inductive frame_step :: "(nat \<Rightarrow> string) \<Rightarrow> (nat \<Rightarrow> bool) \<Rightarrow> bool \<Rightarrow> nat \<Rightarrow> frame_writer \<Rightarrow> frame_writer \<Rightarrow> bool"
  for frame endless works where
  enters: "at_pc (callers s i) = Start \<Longrightarrow> frame_step frame endless works i s
     (goes i (if ctx_ended (callers s i) then Returned (Some CtxErr) else Locking) s)"
| locks: "at_pc (callers s i) = Locking \<Longrightarrow> frame_step frame endless works i s (try_lock (endless i) i s)"
| acquires: "waiter (callers s i) = Waits \<Longrightarrow> frame_mu s = None \<Longrightarrow>
     frame_step frame endless works i s (at_call i (\<lambda>c. c\<lparr>waiter := Acquired\<rparr>) (s\<lparr>frame_mu := Some i\<rparr>))"
| selected: "at_pc (callers s i) = Selecting \<Longrightarrow> waiter (callers s i) = Acquired \<Longrightarrow>
     frame_step frame endless works i s (at_call i (\<lambda>c. c\<lparr>at_pc := Locked, waiter := NoWaiter\<rparr>) s)"
| gives_up: "at_pc (callers s i) = Selecting \<Longrightarrow> ctx_ended (callers s i) \<Longrightarrow>
     frame_step frame endless works i s (give_up i s)"
| left_acquires: "waiter (callers s i) = LeftWaits \<Longrightarrow> frame_mu s = None \<Longrightarrow>
     frame_step frame endless works i s (at_call i (\<lambda>c. c\<lparr>waiter := LeftAcquired\<rparr>) (s\<lparr>frame_mu := Some i\<rparr>))"
| left_unlocks: "waiter (callers s i) = LeftAcquired \<Longrightarrow>
     frame_step frame endless works i s (at_call i (\<lambda>c. c\<lparr>waiter := NoWaiter\<rparr>) (s\<lparr>frame_mu := None\<rparr>))"
| rechecks: "at_pc (callers s i) = Locked \<Longrightarrow> frame_step frame endless works i s (recheck i s)"
| fires: "cutter (callers s i) = Armed \<Longrightarrow> ctx_ended (callers s i) \<Longrightarrow>
     frame_step frame endless works i s (at_call i (\<lambda>c. c\<lparr>cutter := Firing\<rparr>) s)"
| sets_deadline: "cutter (callers s i) = Firing \<Longrightarrow> works \<Longrightarrow>
     frame_step frame endless works i s (at_call i (\<lambda>c. c\<lparr>cutter := Fired\<rparr>) (s\<lparr>write_deadline := True\<rparr>))"
| cannot_set: "cutter (callers s i) = Firing \<Longrightarrow> \<not> works \<or> transport_closed s \<Longrightarrow>
     frame_step frame endless works i s (at_call i (\<lambda>c. c\<lparr>cutter := Checking\<rparr>) s)"
| checks: "cutter (callers s i) = Checking \<Longrightarrow> frame_step frame endless works i s (cut_check i s)"
| cuts: "cutter (callers s i) = Closes \<Longrightarrow>
     frame_step frame endless works i s (at_call i (\<lambda>c. c\<lparr>cutter := Fired\<rparr>) (s\<lparr>transport_closed := True\<rparr>))"
| writes: "at_pc (callers s i) = Writing \<Longrightarrow> write_returns s (frame i) n e \<Longrightarrow>
     frame_step frame endless works i s (goes i (Wrote n e) (s\<lparr>sent := sent s @ [(i, take n (frame i))]\<rparr>))"
| marks: "at_pc (callers s i) = Wrote n e \<Longrightarrow>
     frame_step frame endless works i s (at_call i (\<lambda>c. c\<lparr>at_pc := Stopping n e, writeDone := True\<rparr>) s)"
| stops: "at_pc (callers s i) = Stopping n e \<Longrightarrow> frame_step frame endless works i s (stop_cutter i n e s)"
| joins: "at_pc (callers s i) = Joining n e \<Longrightarrow> cutter (callers s i) = Fired \<Longrightarrow>
     frame_step frame endless works i s (goes i (Clearing n e) s)"
| clears: "at_pc (callers s i) = Clearing n e \<Longrightarrow> works \<Longrightarrow>
     frame_step frame endless works i s (goes i (Judging n e) (s\<lparr>write_deadline := False\<rparr>))"
| cannot_clear: "at_pc (callers s i) = Clearing n e \<Longrightarrow> \<not> works \<or> transport_closed s \<Longrightarrow>
     frame_step frame endless works i s (goes i (Judging n e) s)"
| judges: "at_pc (callers s i) = Judging n e \<Longrightarrow> frame_step frame endless works i s (judge i n e s)"
| returns: "at_pc (callers s i) = Verdict n e \<Longrightarrow>
     frame_step frame endless works i s (unlock_return i (Some (frame_verdict (callers s i) e)) s)"

text \<open>Beside them a context ends and the transport is closed at any time.\<close>

definition context_ends :: "nat \<Rightarrow> frame_writer \<Rightarrow> frame_writer" where
  "context_ends i s = at_call i (\<lambda>c. c\<lparr>ctx_ended := True\<rparr>) s"

inductive frame_run :: "(nat \<Rightarrow> string) \<Rightarrow> (nat \<Rightarrow> bool) \<Rightarrow> bool \<Rightarrow> frame_writer \<Rightarrow> bool" for frame endless works where
  fresh: "frame_run frame endless works new_writer"
| stepped: "frame_run frame endless works s \<Longrightarrow> frame_step frame endless works i s s' \<Longrightarrow> frame_run frame endless works s'"
| ended: "frame_run frame endless works s \<Longrightarrow> \<not> endless i \<Longrightarrow> frame_run frame endless works (context_ends i s)"
| closed: "frame_run frame endless works s \<Longrightarrow> frame_run frame endless works (s\<lparr>transport_closed := True\<rparr>)"

lemmas frame_defs = at_call_def goes_def try_lock_def give_up_def unlock_return_def recheck_def cut_check_def
  stop_cutter_def

subsection \<open>Invariants\<close>

fun locked_pc :: "frame_pc \<Rightarrow> bool" where
  "locked_pc Start = False"
| "locked_pc Locking = False"
| "locked_pc Selecting = False"
| "locked_pc (Returned _) = False"
| "locked_pc _ = True"

definition holds_lock :: "frame_call \<Rightarrow> bool" where
  "holds_lock c \<longleftrightarrow> locked_pc (at_pc c) \<or> waiter c = Acquired \<or> waiter c = LeftAcquired"

fun cutter_fits :: "frame_pc \<Rightarrow> frame_interrupt \<Rightarrow> bool" where
  "cutter_fits Writing k = (k \<notin> {Unarmed, Stopped})"
| "cutter_fits (Wrote n e) k = (k \<notin> {Unarmed, Stopped})"
| "cutter_fits (Stopping n e) k = (k \<notin> {Unarmed, Stopped})"
| "cutter_fits (Joining n e) k = (k \<notin> {Unarmed, Stopped, Armed})"
| "cutter_fits (Clearing n e) k = (k = Fired)"
| "cutter_fits (Judging n e) k = (k \<in> {Stopped, Fired})"
| "cutter_fits (Verdict n e) k = (k \<in> {Stopped, Fired})"
| "cutter_fits (Returned r) k = (k \<in> {Unarmed, Stopped, Fired})"
| "cutter_fits p k = (k = Unarmed)"

text \<open>The count and error of a call's write, from the write to its verdict.\<close>

fun outcome_at :: "frame_pc \<Rightarrow> (nat \<times> write_error option) option" where
  "outcome_at (Wrote n e) = Some (n, e)"
| "outcome_at (Stopping n e) = Some (n, e)"
| "outcome_at (Joining n e) = Some (n, e)"
| "outcome_at (Clearing n e) = Some (n, e)"
| "outcome_at (Judging n e) = Some (n, e)"
| "outcome_at (Verdict n e) = Some (n, Some e)"
| "outcome_at p = None"

definition call_fits :: "frame_call \<Rightarrow> bool" where
  "call_fits c \<longleftrightarrow> cutter_fits (at_pc c) (cutter c) \<and>
     (waiter c \<in> {Waits, Acquired} \<longleftrightarrow> at_pc c = Selecting) \<and>
     (waiter c \<in> {LeftWaits, LeftAcquired} \<longrightarrow> at_pc c = Returned (Some CtxErr)) \<and>
     (cutter c \<in> {Firing, Checking, Closes, Fired} \<longrightarrow> ctx_ended c) \<and> (at_pc c = Returned (Some CtxErr) \<longrightarrow> ctx_ended c) \<and>
     (\<forall>n. outcome_at (at_pc c) \<noteq> Some (n, Some CtxErr))"

fun may_cut :: "frame_pc \<Rightarrow> bool" where
  "may_cut Writing = True"
| "may_cut (Wrote n e) = True"
| "may_cut (Stopping n e) = True"
| "may_cut (Joining n e) = True"
| "may_cut (Clearing n e) = True"
| "may_cut p = False"

lemma other_call:
  assumes "frame_step frame endless works i s s'" and "j \<noteq> i"
  shows "callers s' j = callers s j"
  using assms(1)
proof cases
  case (judges n e)
  then show ?thesis using assms(2) by (cases e) (auto simp: frame_defs)
qed (use assms(2) in \<open>auto simp: frame_defs\<close>)

lemma cutter_fits_on: "cutter_fits p Armed \<Longrightarrow> cutter_fits p Firing"
  "cutter_fits p Firing \<Longrightarrow> cutter_fits p Fired \<and> cutter_fits p Checking"
  "cutter_fits p Checking \<Longrightarrow> cutter_fits p Fired \<and> cutter_fits p Closes"
  "cutter_fits p Closes \<Longrightarrow> cutter_fits p Fired"
  by (cases p; simp)+

lemma write_error_is_own: "\<not> write_returns s f n (Some CtxErr)"
  by (simp add: write_returns_def)

lemma fits_step:
  assumes "frame_step frame endless works i s s'" and "call_fits (callers s i)"
  shows "call_fits (callers s' i)"
  using assms(1)
proof cases
  case (judges n e)
  then show ?thesis using assms(2) by (cases e) (simp_all add: frame_defs call_fits_def)
next
  case (writes n e)
  then show ?thesis using assms(2) by (auto simp: frame_defs call_fits_def write_error_is_own)
qed (use assms(2) in \<open>auto simp: frame_defs call_fits_def frame_verdict_def cutter_fits_on\<close>)

lemma lock_step:
  assumes "frame_step frame endless works i s s'" and "call_fits (callers s i)"
    and "\<And>j. holds_lock (callers s j) \<longleftrightarrow> frame_mu s = Some j"
  shows "holds_lock (callers s' j) \<longleftrightarrow> frame_mu s' = Some j"
proof -
  have i: "holds_lock (callers s i) \<longleftrightarrow> frame_mu s = Some i" and j: "holds_lock (callers s j) \<longleftrightarrow> frame_mu s = Some j"
    by (rule assms(3))+
  show ?thesis
  proof (cases "j = i")
    case True
    from assms(1) show ?thesis
    proof cases
      case (judges n e)
      then show ?thesis using assms(2) i True by (cases e) (simp_all add: frame_defs call_fits_def holds_lock_def)
    qed (use assms(2) i True in \<open>auto simp: frame_defs call_fits_def holds_lock_def\<close>)
  next
    case False
    from assms(1) have "frame_mu s' = Some j \<longleftrightarrow> frame_mu s = Some j"
    proof cases
      case (judges n e)
      then show ?thesis using assms(2) i False by (cases e) (auto simp: frame_defs call_fits_def holds_lock_def)
    qed (use assms(2) i False in \<open>simp_all add: frame_defs call_fits_def holds_lock_def\<close>)
    with j other_call [OF assms(1) False] show ?thesis by simp
  qed
qed

text \<open>A deadline in the past is there only while the write it cuts is not over.\<close>

definition cutting :: "frame_call \<Rightarrow> bool" where
  "cutting c \<longleftrightarrow> cutter c = Fired \<and> may_cut (at_pc c)"

definition deadline_fits :: "bool \<Rightarrow> frame_writer \<Rightarrow> bool" where
  "deadline_fits works s \<longleftrightarrow> (write_deadline s \<longrightarrow> works) \<and> (write_deadline s \<longrightarrow> transport_closed s \<or> (\<exists>i. cutting (callers s i)))"

lemma closed_stays:
  assumes "frame_step frame endless works i s s'" and "transport_closed s"
  shows "transport_closed s'"
  using assms(1)
proof cases
  case (judges n e)
  then show ?thesis using assms(2) by (cases e) (auto simp: frame_defs)
qed (use assms(2) in \<open>auto simp: frame_defs\<close>)

lemma cutting_step:
  assumes "frame_step frame endless works i s s'" and "call_fits (callers s i)" and "cutting (callers s i)" and "write_deadline s \<longrightarrow> works"
  shows "cutting (callers s' i) \<or> transport_closed s' \<or> \<not> write_deadline s'"
  using assms(1)
proof cases
  case (judges n e)
  then show ?thesis using assms(2,3) by (cases e) (auto simp: frame_defs cutting_def)
qed (use assms(2-4) in \<open>auto simp: frame_defs cutting_def call_fits_def\<close>)

lemma deadline_set:
  assumes "frame_step frame endless works i s s'" and "call_fits (callers s i)" and "write_deadline s'" "\<not> write_deadline s"
  shows "works \<and> cutting (callers s' i)"
proof -
  have p: "may_cut p" if "cutter_fits p Firing" for p using that by (cases p) auto
  from assms(1) show ?thesis
  proof cases
    case (judges n e)
    then show ?thesis using assms(3,4) by (cases e) (auto simp: frame_defs split: if_splits)
  qed (use assms(2-4) p in \<open>auto simp: frame_defs cutting_def call_fits_def split: if_splits\<close>)
qed

lemma deadline_step:
  assumes step: "frame_step frame endless works i s s'" and "call_fits (callers s i)" and "deadline_fits works s"
  shows "deadline_fits works s'"
proof (cases "write_deadline s' \<and> \<not> transport_closed s'")
  case True
  then have open_s: "\<not> transport_closed s" using closed_stays [OF step] by blast
  have "works \<and> (\<exists>j. cutting (callers s' j))"
  proof (cases "write_deadline s")
    case False
    then show ?thesis using deadline_set [OF step assms(2)] True by blast
  next
    case True
    then obtain j where j: "cutting (callers s j)" "works" using assms(3) open_s by (auto simp: deadline_fits_def)
    show ?thesis
    proof (cases "j = i")
      case True
      then show ?thesis
        using cutting_step [OF step assms(2)] j \<open>write_deadline s' \<and> \<not> transport_closed s'\<close> by auto
    next
      case False
      then show ?thesis using other_call [OF step False] j by metis
    qed
  qed
  then show ?thesis by (auto simp: deadline_fits_def)
next
  case False
  then show ?thesis using deadline_set [OF step assms(2)] assms(3) unfolding deadline_fits_def by blast
qed

subsection \<open>What is on the wire\<close>

text \<open>A piece is a whole frame or nothing, or the cut part of a write that has not been judged yet.\<close>

fun unjudged :: "frame_pc \<Rightarrow> (nat \<times> write_error option) option" where
  "unjudged (Verdict n e) = None"
| "unjudged p = outcome_at p"

definition written :: "frame_pc \<Rightarrow> bool" where
  "written p \<longleftrightarrow> outcome_at p \<noteq> None \<or> (\<exists>r. p = Returned r)"

definition piece_fits :: "string \<Rightarrow> frame_writer \<Rightarrow> frame_pc \<Rightarrow> string \<Rightarrow> bool" where
  "piece_fits f s p b \<longleftrightarrow> written p \<and> (p = Returned None \<longrightarrow> b = f) \<and>
     (\<forall>n e. outcome_at p = Some (n, e) \<longrightarrow> n \<le> length f \<and> b = take n f \<and> (e = None \<longrightarrow> n = length f)) \<and>
     ((\<exists>n e. unjudged p = Some (n, e)) \<or> p = Returned None \<or> b = [] \<or> transport_closed s)"

definition wire_fits :: "(nat \<Rightarrow> string) \<Rightarrow> frame_writer \<Rightarrow> bool" where
  "wire_fits frame s \<longleftrightarrow> distinct (map fst (sent s)) \<and>
     (\<forall>i b. (i, b) \<in> set (sent s) \<longrightarrow> piece_fits (frame i) s (at_pc (callers s i)) b) \<and>
     (\<forall>i. outcome_at (at_pc (callers s i)) \<noteq> None \<or> at_pc (callers s i) = Returned None \<longrightarrow> i \<in> fst ` set (sent s))"

lemma piece_step:
  assumes "frame_step frame endless works i s s'" and "piece_fits (frame i) s (at_pc (callers s i)) b"
  shows "piece_fits (frame i) s' (at_pc (callers s' i)) b"
  using assms(1)
proof cases
  case (judges n e)
  then show ?thesis using assms(2) by (cases e) (auto simp: frame_defs piece_fits_def written_def)
qed (use assms(2) in \<open>auto simp: frame_defs piece_fits_def written_def\<close>)

lemma piece_stays:
  assumes "frame_step frame endless works i s s'" and "piece_fits f s p b"
  shows "piece_fits f s' p b"
  using closed_stays [OF assms(1)] assms(2) by (auto simp: piece_fits_def)

lemma sent_step:
  assumes "frame_step frame endless works i s s'"
  shows "sent s' = sent s \<or> at_pc (callers s i) = Writing \<and>
    (\<exists>n e. write_returns s (frame i) n e \<and> at_pc (callers s' i) = Wrote n e \<and> sent s' = sent s @ [(i, take n (frame i))])"
  using assms
proof cases
  case (judges n e)
  then show ?thesis by (cases e) (auto simp: frame_defs)
next
  case (writes n e)
  then show ?thesis by (auto simp: frame_defs)
qed (auto simp: frame_defs)

lemma outcome_step:
  assumes "frame_step frame endless works i s s'" and "sent s' = sent s"
    and "outcome_at (at_pc (callers s' i)) \<noteq> None \<or> at_pc (callers s' i) = Returned None"
  shows "outcome_at (at_pc (callers s i)) \<noteq> None \<or> at_pc (callers s i) = Returned None"
  using assms(1)
proof cases
  case (judges n e)
  then show ?thesis by simp
qed (use assms(2,3) in \<open>auto simp: frame_defs split: if_splits\<close>)

lemma wire_step:
  assumes step: "frame_step frame endless works i s s'" and w: "wire_fits frame s"
  shows "wire_fits frame s'"
proof -
  have pieces: "piece_fits (frame j) s' (at_pc (callers s' j)) b" if "(j, b) \<in> set (sent s)" for j b
  proof (cases "j = i")
    case True
    then show ?thesis using piece_step [OF step] w that by (auto simp: wire_fits_def)
  next
    case False
    then show ?thesis using piece_stays [OF step] other_call [OF step False] w that by (auto simp: wire_fits_def)
  qed
  have old: "outcome_at (at_pc (callers s j)) \<noteq> None \<or> at_pc (callers s j) = Returned None \<Longrightarrow> j \<in> fst ` set (sent s)" for j
    using w unfolding wire_fits_def by blast
  from sent_step [OF step] show ?thesis
  proof (elim disjE conjE exE)
    assume same: "sent s' = sent s"
    have "j \<in> fst ` set (sent s)" if "outcome_at (at_pc (callers s' j)) \<noteq> None \<or> at_pc (callers s' j) = Returned None" for j
      using that old [of j] outcome_step [OF step same] other_call [OF step, of j] by (cases "j = i") auto
    then show ?thesis using w pieces same unfolding wire_fits_def by auto
  next
    fix n e
    assume at: "at_pc (callers s i) = Writing" and r: "write_returns s (frame i) n e"
      and pc: "at_pc (callers s' i) = Wrote n e" and grown: "sent s' = sent s @ [(i, take n (frame i))]"
    have "\<not> piece_fits f s Writing b" for f b by (simp add: piece_fits_def written_def)
    then have new: "i \<notin> fst ` set (sent s)" using w at unfolding wire_fits_def by (metis imageE prod.collapse)
    have mine: "piece_fits (frame i) s' (Wrote n e) (take n (frame i))"
      using r by (cases e) (auto simp: piece_fits_def written_def write_returns_def)
    have "j \<in> fst ` set (sent s')" if "outcome_at (at_pc (callers s' j)) \<noteq> None \<or> at_pc (callers s' j) = Returned None" for j
      using that old [of j] other_call [OF step, of j] grown by (cases "j = i") auto
    moreover have "piece_fits (frame j) s' (at_pc (callers s' j)) b" if "(j, b) \<in> set (sent s')" for j b
      using that pieces mine pc grown by auto
    ultimately show ?thesis using w new grown by (simp add: wire_fits_def)
  qed
qed

subsection \<open>Writes that wait\<close>

definition waits_fits :: "(nat \<Rightarrow> bool) \<Rightarrow> frame_writer \<Rightarrow> bool" where
  "waits_fits endless s \<longleftrightarrow> (\<forall>i. (ctx_ended (callers s i) \<longrightarrow> \<not> endless i) \<and>
     (at_pc (callers s i) \<notin> {Start, Locking, Selecting, Locked, Writing} \<or> \<not> writeDone (callers s i)) \<and>
     (at_pc (callers s i) = Writing \<and> cutter (callers s i) = Fired \<longrightarrow> write_deadline s \<or> transport_closed s))"

lemma deadline_cleared:
  assumes "frame_step frame endless works i s s'" and "write_deadline s" "\<not> write_deadline s'"
  shows "\<exists>n e. at_pc (callers s i) = Clearing n e"
  using assms(1)
proof cases
  case (judges n e)
  then show ?thesis using assms(2,3) by (cases e) (auto simp: frame_defs split: if_splits)
qed (use assms(2,3) in \<open>auto simp: frame_defs split: if_splits\<close>)

lemma waits_own:
  assumes "frame_step frame endless works i s s'" and "call_fits (callers s i)" and "waits_fits endless s"
  shows "(ctx_ended (callers s' i) \<longrightarrow> \<not> endless i) \<and>
     (at_pc (callers s' i) \<notin> {Start, Locking, Selecting, Locked, Writing} \<or> \<not> writeDone (callers s' i)) \<and>
     (at_pc (callers s' i) = Writing \<and> cutter (callers s' i) = Fired \<longrightarrow> write_deadline s' \<or> transport_closed s')"
proof -
  note w = assms(3) [unfolded waits_fits_def, rule_format, of i]
  from assms(1) show ?thesis
  proof cases
    case (judges n e)
    then show ?thesis using w by (cases e) (auto simp: frame_defs)
  next
    case checks
    then show ?thesis using w by (auto simp: frame_defs)
  qed (use assms(2) w in \<open>auto simp: frame_defs call_fits_def split: if_splits\<close>)
qed

lemma waits_step:
  assumes step: "frame_step frame endless works i s s'" and fits: "call_fits (callers s i)"
    and mu: "\<And>j. holds_lock (callers s j) \<longleftrightarrow> frame_mu s = Some j" and "waits_fits endless s"
  shows "waits_fits endless s'"
proof -
  have "write_deadline s' \<or> transport_closed s'"
    if "j \<noteq> i" "at_pc (callers s j) = Writing" "cutter (callers s j) = Fired" for j
  proof (rule ccontr)
    assume no: "\<not> (write_deadline s' \<or> transport_closed s')"
    have "write_deadline s" using assms(4) that(2,3) closed_stays [OF step] no by (auto simp: waits_fits_def)
    then obtain n e where "at_pc (callers s i) = Clearing n e" using deadline_cleared [OF step] no by blast
    then have "frame_mu s = Some i" "frame_mu s = Some j" using mu [of i] mu [of j] that(2) by (simp_all add: holds_lock_def)
    then show False using that(1) by simp
  qed
  then show ?thesis
    using waits_own [OF step fits assms(4)] other_call [OF step] assms(4) unfolding waits_fits_def by metis
qed

definition frame_inv :: "(nat \<Rightarrow> string) \<Rightarrow> (nat \<Rightarrow> bool) \<Rightarrow> bool \<Rightarrow> frame_writer \<Rightarrow> bool" where
  "frame_inv frame endless works s \<longleftrightarrow> (\<forall>i. call_fits (callers s i)) \<and> (\<forall>i. holds_lock (callers s i) \<longleftrightarrow> frame_mu s = Some i) \<and>
     deadline_fits works s \<and> wire_fits frame s \<and> waits_fits endless s"

lemma frame_run_inv: "frame_run frame endless works s \<Longrightarrow> frame_inv frame endless works s"
proof (induction rule: frame_run.induct)
  case fresh
  then show ?case
    by (simp add: frame_inv_def new_writer_def new_call_def call_fits_def holds_lock_def deadline_fits_def wire_fits_def waits_fits_def)
next
  case (stepped s i s')
  then have fits: "\<And>j. call_fits (callers s j)" and mu: "\<And>j. holds_lock (callers s j) \<longleftrightarrow> frame_mu s = Some j"
    and rest: "deadline_fits works s" "wire_fits frame s" "waits_fits endless s"
    by (simp_all add: frame_inv_def)
  have "call_fits (callers s' j)" for j
    using fits [of j] fits_step [OF stepped.hyps(2)] other_call [OF stepped.hyps(2), of j] by (cases "j = i") auto
  then show ?case
    using lock_step [OF stepped.hyps(2) fits mu] deadline_step [OF stepped.hyps(2) fits rest(1)]
      wire_step [OF stepped.hyps(2) rest(2)] waits_step [OF stepped.hyps(2) fits mu rest(3)]
    by (simp add: frame_inv_def)
next
  case (ended s i)
  let ?s = "context_ends i s"
  have same: "at_pc (callers ?s j) = at_pc (callers s j)" "waiter (callers ?s j) = waiter (callers s j)"
    "cutter (callers ?s j) = cutter (callers s j)" "writeDone (callers ?s j) = writeDone (callers s j)"
    "ctx_ended (callers ?s j) = (j = i \<or> ctx_ended (callers s j))" for j
    by (simp_all add: context_ends_def at_call_def)
  have rest: "frame_mu ?s = frame_mu s" "sent ?s = sent s" "write_deadline ?s = write_deadline s" "transport_closed ?s = transport_closed s"
    by (simp_all add: context_ends_def at_call_def)
  from ended show ?case
    by (auto simp: frame_inv_def call_fits_def holds_lock_def deadline_fits_def cutting_def wire_fits_def piece_fits_def waits_fits_def same rest)
next
  case (closed s)
  then show ?case
    by (auto simp: frame_inv_def deadline_fits_def wire_fits_def piece_fits_def waits_fits_def)
qed

end
