(* ===== verification/Write_Frame_Properties.thy ===== *)
theory Write_Frame_Properties
  imports Write_Frame
begin

text \<open>
  Properties of \<open>WriteFrameCtx\<close>: frames stay whole, whichever writes are cut, and a call whose
  context has ended returns whatever the agent and the other callers do.
\<close>

subsection \<open>Whole frames\<close>

text \<open>
  C19. Frames stay whole. In every reachable state, with any callers and contexts: when the lock
  is free and the transport not closed, every piece on the wire is a whole frame or empty and no
  write deadline is left set; a call that returned no error has its frame on the wire, and no call
  is there twice; a call that returned the error of its context has an ended context, and has put
  nothing on a wire that is still open; and only the holder of the lock is past it.
\<close>

theorem frames_stay_whole:
  assumes "frame_run frame endless works s"
  shows "(frame_mu s = None \<and> \<not> transport_closed s \<longrightarrow>
      list_all (\<lambda>(i, b). b = frame i \<or> b = []) (sent s) \<and> \<not> write_deadline s) \<and>
    distinct (map fst (sent s)) \<and>
    (\<forall>i. at_pc (callers s i) = Returned None \<longrightarrow> (i, frame i) \<in> set (sent s)) \<and>
    (\<forall>i b. at_pc (callers s i) = Returned (Some CtxErr) \<longrightarrow> ctx_ended (callers s i) \<and>
       ((i, b) \<in> set (sent s) \<longrightarrow> b = [] \<or> transport_closed s)) \<and>
    (\<forall>i. locked_pc (at_pc (callers s i)) \<longrightarrow> frame_mu s = Some i)"
proof -
  have inv: "frame_inv frame endless works s" using assms by (rule frame_run_inv)
  have fits: "call_fits (callers s i)" and mu: "holds_lock (callers s i) \<longleftrightarrow> frame_mu s = Some i" for i
    using inv by (simp_all add: frame_inv_def)
  have w: "wire_fits frame s" and d: "deadline_fits works s" using inv by (simp_all add: frame_inv_def)
  have piece: "(i, b) \<in> set (sent s) \<Longrightarrow> piece_fits (frame i) s (at_pc (callers s i)) b" for i b
    using w by (simp add: wire_fits_def)
  have free: "\<not> locked_pc (at_pc (callers s i))" if "frame_mu s = None" for i
    using mu [of i] that by (simp add: holds_lock_def)
  have judged: "unjudged p = None" "\<not> may_cut p" if "\<not> locked_pc p" for p using that by (cases p; simp)+
  have whole: "list_all (\<lambda>(i, b). b = frame i \<or> b = []) (sent s)" if "frame_mu s = None" "\<not> transport_closed s"
    using piece judged(1) [OF free [OF that(1)]] that(2) by (fastforce simp: list_all_iff piece_fits_def)
  have deadline: "\<not> write_deadline s" if "frame_mu s = None" "\<not> transport_closed s"
    using d that judged(2) free by (auto simp: deadline_fits_def cutting_def)
  have ok: "(i, frame i) \<in> set (sent s)" if r: "at_pc (callers s i) = Returned None" for i
  proof -
    have "i \<in> fst ` set (sent s)" using w r unfolding wire_fits_def by blast
    then obtain b where b: "(i, b) \<in> set (sent s)" by force
    with piece [OF b] r show ?thesis by (simp add: piece_fits_def)
  qed
  have ended: "ctx_ended (callers s i)" if "at_pc (callers s i) = Returned (Some CtxErr)" for i
    using fits [of i] that by (simp add: call_fits_def)
  have unsent: "b = [] \<or> transport_closed s" if "at_pc (callers s i) = Returned (Some CtxErr)" "(i, b) \<in> set (sent s)" for i b
    using piece [OF that(2)] that(1) by (auto simp: piece_fits_def)
  have one: "frame_mu s = Some i" if "locked_pc (at_pc (callers s i))" for i
    using mu [of i] that by (simp add: holds_lock_def)
  have "distinct (map fst (sent s))" using w by (simp add: wire_fits_def)
  then show ?thesis using whole deadline ok ended unsent one by blast
qed

theorem frames_stay_whole_witness:
  "\<exists>s. frame_run (\<lambda>_. ''ab'') (\<lambda>_. False) True s \<and> at_pc (callers s 0) = Returned (Some CtxErr) \<and> ctx_ended (callers s 0) \<and>
     sent s = [(0, ''a'')] \<and> ''a'' \<noteq> [] \<and> transport_closed s"
proof -
  let ?F = "\<lambda>_ :: nat. ''ab''"
  let ?E = "\<lambda>_ :: nat. False"
  let ?e = "Some DeadlineExceeded"
  define t1 where "t1 = goes 0 Locking new_writer"
  define t2 where "t2 = context_ends 0 (recheck 0 (try_lock False 0 t1))"
  define t3 where "t3 = at_call 0 (\<lambda>c. c\<lparr>cutter := Fired\<rparr>) ((at_call 0 (\<lambda>c. c\<lparr>cutter := Firing\<rparr>) t2)\<lparr>write_deadline := True\<rparr>)"
  define t4 where "t4 = goes 0 (Wrote 1 ?e) (t3\<lparr>sent := sent t3 @ [(0, take 1 ''ab'')]\<rparr>)"
  define t5 where "t5 = stop_cutter 0 1 ?e (at_call 0 (\<lambda>c. c\<lparr>at_pc := Stopping 1 ?e, writeDone := True\<rparr>) t4)"
  define t6 where "t6 = judge 0 1 ?e (goes 0 (Judging 1 ?e) ((goes 0 (Clearing 1 ?e) t5)\<lparr>write_deadline := False\<rparr>))"
  define t7 where "t7 = unlock_return 0 (Some (frame_verdict (callers t6 0) DeadlineExceeded)) t6"
  note d = t1_def t2_def t3_def t4_def t5_def t6_def t7_def new_writer_def new_call_def frame_defs context_ends_def
    frame_verdict_def write_returns_def
  have "frame_run ?F ?E True t1"
    using frame_run.stepped [OF frame_run.fresh enters [of new_writer 0]] by (simp add: t1_def new_writer_def new_call_def)
  then have "frame_run ?F ?E True (recheck 0 (try_lock False 0 t1))"
    by (intro frame_run.stepped [OF frame_run.stepped [OF _ locks [of t1 0]] rechecks]) (simp_all add: d)
  then have "frame_run ?F ?E True t2" unfolding t2_def by (intro frame_run.ended) simp_all
  then have "frame_run ?F ?E True t3"
    unfolding t3_def by (intro frame_run.stepped [OF frame_run.stepped [OF _ fires [of t2 0]] sets_deadline]) (simp_all add: d)
  then have "frame_run ?F ?E True t4"
    using frame_run.stepped [OF _ writes [of t3 0 ?F 1 ?e]] unfolding t4_def by (simp add: d)
  then have "frame_run ?F ?E True t5"
    unfolding t5_def by (intro frame_run.stepped [OF frame_run.stepped [OF _ marks [of t4 0]] stops]) (simp_all add: d)
  then have "frame_run ?F ?E True t6"
    unfolding t6_def
    by (intro frame_run.stepped [OF frame_run.stepped [OF frame_run.stepped [OF _ joins [of t5 0]] clears] judges]) (simp_all add: d)
  then have run: "frame_run ?F ?E True t7"
    unfolding t7_def by (intro frame_run.stepped [OF _ returns [of t6 0]]) (simp_all add: d)
  have "at_pc (callers t7 0) = Returned (Some CtxErr)" "sent t7 = [(0, ''a'')]" by (simp_all add: d)
  with frames_stay_whole [OF run] run show ?thesis by (intro exI [of _ t7]) auto
qed

subsection \<open>Callers leave on their own context\<close>

text \<open>A step of a caller that nobody helps: its \<open>Write\<close> does not return unless it is cut.\<close>

definition unhelped :: "(nat \<Rightarrow> string) \<Rightarrow> (nat \<Rightarrow> bool) \<Rightarrow> bool \<Rightarrow> nat \<Rightarrow> frame_writer \<Rightarrow> frame_writer \<Rightarrow> bool" where
  "unhelped frame endless works i s s' \<longleftrightarrow> frame_step frame endless works i s s' \<and>
     (at_pc (callers s i) = Writing \<and> at_pc (callers s' i) \<noteq> Writing \<longrightarrow> write_deadline s \<or> transport_closed s)"

definition gets_out :: "(nat \<Rightarrow> string) \<Rightarrow> (nat \<Rightarrow> bool) \<Rightarrow> bool \<Rightarrow> nat \<Rightarrow> frame_writer \<Rightarrow> bool" where
  "gets_out frame endless works i s \<longleftrightarrow> (\<exists>s' r. (unhelped frame endless works i)\<^sup>*\<^sup>* s s' \<and> at_pc (callers s' i) = Returned r)"

lemma gets_out_now: "at_pc (callers s i) = Returned r \<Longrightarrow> gets_out frame endless works i s"
  unfolding gets_out_def by blast

lemma gets_out_step:
  assumes "frame_step frame endless works i s s'" and "at_pc (callers s i) \<noteq> Writing \<or> at_pc (callers s' i) = Writing"
    and "gets_out frame endless works i s'"
  shows "gets_out frame endless works i s"
proof -
  have "unhelped frame endless works i s s'" using assms(1,2) by (auto simp: unhelped_def)
  then show ?thesis using assms(3) unfolding gets_out_def by (blast intro: converse_rtranclp_into_rtranclp)
qed

lemma goes_at [simp]: "at_pc (callers (goes i p s) i) = p" "cutter (callers (goes i p s) i) = cutter (callers s i)"
  "ctx_ended (callers (goes i p s) i) = ctx_ended (callers s i)" "writeDone (callers (goes i p s) i) = writeDone (callers s i)"
  by (simp_all add: goes_def at_call_def)

lemma out_verdict: "at_pc (callers s i) = Verdict n e \<Longrightarrow> gets_out frame endless works i s"
  by (rule gets_out_step [OF returns]) (auto simp: unlock_return_def intro: gets_out_now)

lemma out_judging: "at_pc (callers s i) = Judging n e \<Longrightarrow> gets_out frame endless works i s"
  by (rule gets_out_step [OF judges], assumption, simp, cases e)
    (auto simp: unlock_return_def intro: gets_out_now out_verdict)

lemma out_clearing:
  assumes "at_pc (callers s i) = Clearing n e" shows "gets_out frame endless works i s"
proof (cases works)
  case True
  show ?thesis by (rule gets_out_step [OF clears [OF assms True]]) (use assms in \<open>simp_all add: out_judging\<close>)
next
  case False
  then show ?thesis by (intro gets_out_step [OF cannot_clear [OF assms]]) (use assms in \<open>simp_all add: out_judging\<close>)
qed

text \<open>An interrupt that has begun runs to its end.\<close>

lemma cutter_ends:
  assumes start: "cutter (callers s i) \<in> {Firing, Checking, Closes, Fired}"
    and out: "\<And>s' :: frame_writer. cutter (callers s' i) = Fired \<Longrightarrow> at_pc (callers s' i) = at_pc (callers s i) \<Longrightarrow>
      ctx_ended (callers s' i) = ctx_ended (callers s i) \<Longrightarrow>
      (cutter (callers s i) = Fired \<and> s' = s) \<or> writeDone (callers s i) \<or> write_deadline s' \<or> transport_closed s' \<Longrightarrow>
      gets_out frame endless works i s'"
  shows "gets_out frame endless works i s"
proof -
  have on_close: "gets_out frame endless works i t"
    if "cutter (callers t i) = Closes" "at_pc (callers t i) = at_pc (callers s i)" "ctx_ended (callers t i) = ctx_ended (callers s i)" for t :: frame_writer
    by (rule gets_out_step [OF cuts [OF that(1)]], simp add: at_call_def, rule out) (simp_all add: at_call_def that)
  have on_check: "gets_out frame endless works i t"
    if "cutter (callers t i) = Checking" "at_pc (callers t i) = at_pc (callers s i)" "ctx_ended (callers t i) = ctx_ended (callers s i)"
      "writeDone (callers t i) = writeDone (callers s i)" for t :: frame_writer
  proof (rule gets_out_step [OF checks [OF that(1)]])
    show "gets_out frame endless works i (cut_check i t)"
    proof (cases "writeDone (callers t i)")
      case True
      then show ?thesis by (intro out) (simp_all add: cut_check_def at_call_def that)
    next
      case False
      then show ?thesis by (intro on_close) (simp_all add: cut_check_def at_call_def that)
    qed
  qed (simp add: cut_check_def at_call_def)
  from start show ?thesis
  proof (elim insertE emptyE)
    assume f: "cutter (callers s i) = Firing"
    show ?thesis
    proof (cases works)
      case True
      show ?thesis
        by (rule gets_out_step [OF sets_deadline [OF f True]], simp add: at_call_def, rule out) (simp_all add: at_call_def)
    next
      case False
      then have nw: "\<not> works \<or> transport_closed s" by simp
      show ?thesis
        by (rule gets_out_step [OF cannot_set [OF f nw]], simp add: at_call_def, rule on_check) (simp_all add: at_call_def)
    qed
  qed (auto intro: on_check on_close out)
qed

abbreviation running :: "frame_interrupt set" where
  "running \<equiv> {Firing, Checking, Closes, Fired}"

lemma out_joining:
  assumes "at_pc (callers s i) = Joining n e" and "cutter (callers s i) \<in> running"
  shows "gets_out frame endless works i s"
proof (rule cutter_ends [OF assms(2)])
  fix s' :: frame_writer assume "cutter (callers s' i) = Fired" "at_pc (callers s' i) = at_pc (callers s i)"
  with assms(1) have f: "at_pc (callers s' i) = Joining n e" "cutter (callers s' i) = Fired" by simp_all
  show "gets_out frame endless works i s'"
    by (rule gets_out_step [OF joins [OF f]]) (use f in \<open>simp_all add: out_clearing [of _ _ n e]\<close>)
qed

lemma out_stopping:
  assumes "at_pc (callers s i) = Stopping n e" and "cutter (callers s i) \<in> insert Armed running"
  shows "gets_out frame endless works i s"
proof (rule gets_out_step [OF stops [OF assms(1)]])
  show "gets_out frame endless works i (stop_cutter i n e s)"
  proof (cases "cutter (callers s i) = Armed")
    case True
    then show ?thesis by (intro out_judging [of _ _ n e]) (simp add: stop_cutter_def at_call_def)
  next
    case False
    then show ?thesis using assms(2) by (intro out_joining [of _ _ n e]) (auto simp: stop_cutter_def)
  qed
qed (simp add: assms(1))

lemma out_wrote:
  assumes "at_pc (callers s i) = Wrote n e" and "cutter (callers s i) \<in> insert Armed running"
  shows "gets_out frame endless works i s"
  by (rule gets_out_step [OF marks [OF assms(1)]])
    (use assms in \<open>auto simp: at_call_def intro!: out_stopping [of _ _ n e]\<close>)

lemma out_cut:
  assumes w: "at_pc (callers s i) = Writing" and "cutter (callers s i) = Fired" and cut: "write_deadline s \<or> transport_closed s"
  shows "gets_out frame endless works i s"
proof -
  let ?e = "Some (if write_deadline s then DeadlineExceeded else ClosedError)"
  let ?s = "goes i (Wrote 0 ?e) (s\<lparr>sent := sent s @ [(i, take 0 (frame i))]\<rparr>)"
  have "write_returns s (frame i) 0 ?e" using cut by (auto simp: write_returns_def)
  with w have "frame_step frame endless works i s ?s" by (rule writes)
  then have "unhelped frame endless works i s ?s" using cut by (simp only: unhelped_def) blast
  moreover have "gets_out frame endless works i ?s" using assms(2) by (intro out_wrote [of _ _ 0 ?e]) simp_all
  ultimately show ?thesis unfolding gets_out_def by (blast intro: converse_rtranclp_into_rtranclp)
qed

lemma out_writing:
  assumes w: "at_pc (callers s i) = Writing" and "ctx_ended (callers s i)" and c: "cutter (callers s i) \<in> insert Armed running"
    and nw: "\<not> writeDone (callers s i)" and cut: "cutter (callers s i) = Fired \<longrightarrow> write_deadline s \<or> transport_closed s"
  shows "gets_out frame endless works i s"
proof -
  have run: "gets_out frame endless works i t" if "cutter (callers t i) \<in> running" "at_pc (callers t i) = Writing"
    "\<not> writeDone (callers t i)" "cutter (callers t i) = Fired \<longrightarrow> write_deadline t \<or> transport_closed t" for t
    by (rule cutter_ends [OF that(1)], rule out_cut) (use that in auto)
  show ?thesis
  proof (cases "cutter (callers s i) = Armed")
    case True
    show ?thesis
      by (rule gets_out_step [OF fires [OF True assms(2)]], simp add: at_call_def w, rule run) (simp_all add: at_call_def w nw)
  next
    case False
    then show ?thesis using c w nw cut by (intro run) auto
  qed
qed

lemma out_locked:
  assumes "at_pc (callers s i) = Locked" and "ctx_ended (callers s i)"
  shows "gets_out frame endless works i s"
  by (rule gets_out_step [OF rechecks [OF assms(1)]])
    (use assms in \<open>auto simp: recheck_def unlock_return_def intro: gets_out_now\<close>)

lemma out_selecting:
  assumes "at_pc (callers s i) = Selecting" and "ctx_ended (callers s i)"
  shows "gets_out frame endless works i s"
  by (rule gets_out_step [OF gives_up [OF assms]])
    (use assms in \<open>auto simp: give_up_def at_call_def intro!: gets_out_now\<close>)

lemma out_locking:
  assumes "at_pc (callers s i) = Locking" and "ctx_ended (callers s i)" and "\<not> endless i"
  shows "gets_out frame endless works i s"
proof (rule gets_out_step [OF locks [OF assms(1)]])
  show "gets_out frame endless works i (try_lock (endless i) i s)"
  proof (cases "frame_mu s = None")
    case True
    then show ?thesis using assms by (intro out_locked) (simp_all add: try_lock_def)
  next
    case False
    then show ?thesis using assms by (intro out_selecting) (simp_all add: try_lock_def at_call_def)
  qed
qed (simp add: assms(1))

text \<open>
  C7. A caller leaves on its own context. In every reachable state a call whose context has ended
  can return by steps of its own (its goroutine and interrupt included), without anyone else's
  step: whoever holds the lock, and although its write never returns unless a past deadline or the
  closed transport cuts it.
\<close>

theorem ended_call_returns:
  assumes "frame_run frame endless works s" and "ctx_ended (callers s i)"
  shows "\<exists>s' r. (unhelped frame endless works i)\<^sup>*\<^sup>* s s' \<and> at_pc (callers s' i) = Returned r"
proof -
  have inv: "frame_inv frame endless works s" using assms(1) by (rule frame_run_inv)
  have fits: "call_fits (callers s i)" using inv by (simp add: frame_inv_def)
  have waits: "\<not> endless i" "at_pc (callers s i) \<notin> {Start, Locking, Selecting, Locked, Writing} \<or> \<not> writeDone (callers s i)"
    "at_pc (callers s i) = Writing \<and> cutter (callers s i) = Fired \<longrightarrow> write_deadline s \<or> transport_closed s"
    using inv assms(2) unfolding frame_inv_def waits_fits_def by blast+
  have c: "cutter (callers s i) \<in> insert Armed running" if "cutter (callers s i) \<notin> {Unarmed, Stopped}"
    using that by (cases "cutter (callers s i)") auto
  have "gets_out frame endless works i s"
  proof (cases "at_pc (callers s i)")
    case Start
    show ?thesis by (rule gets_out_step [OF enters [OF Start]]) (use Start assms(2) in \<open>auto intro: gets_out_now\<close>)
  next
    case Writing
    then show ?thesis using assms(2) waits fits c by (intro out_writing) (auto simp: call_fits_def)
  next
    case (Wrote n e)
    then show ?thesis using fits c by (intro out_wrote [of _ _ n e]) (auto simp: call_fits_def)
  next
    case (Stopping n e)
    then show ?thesis using fits c by (intro out_stopping [of _ _ n e]) (auto simp: call_fits_def)
  next
    case (Joining n e)
    then show ?thesis using fits c by (intro out_joining [of _ _ n e]) (auto simp: call_fits_def)
  qed (use assms(2) waits(1) in \<open>auto intro: out_locking out_selecting out_locked out_clearing out_judging out_verdict gets_out_now\<close>)
  then show ?thesis by (simp add: gets_out_def)
qed

theorem ended_call_returns_witness:
  "\<exists>s s' r. frame_run (\<lambda>_. ''ab'') (\<lambda>_. False) True s \<and> at_pc (callers s 0) = Writing \<and> at_pc (callers s 1) = Selecting \<and>
     (unhelped (\<lambda>_. ''ab'') (\<lambda>_. False) True 1)\<^sup>*\<^sup>* s s' \<and> at_pc (callers s' 1) = Returned r"
proof -
  let ?F = "\<lambda>_ :: nat. ''ab''"
  let ?E = "\<lambda>_ :: nat. False"
  define t1 where "t1 = goes 0 Locking new_writer"
  define t2 where "t2 = recheck 0 (try_lock False 0 t1)"
  define t3 where "t3 = goes 1 Locking t2"
  define t4 where "t4 = context_ends 1 (try_lock False 1 t3)"
  note d = t1_def t2_def t3_def t4_def new_writer_def new_call_def frame_defs context_ends_def
  have "frame_run ?F ?E True t1"
    using frame_run.stepped [OF frame_run.fresh enters [of new_writer 0]] by (simp add: t1_def new_writer_def new_call_def)
  then have "frame_run ?F ?E True t2"
    unfolding t2_def by (intro frame_run.stepped [OF frame_run.stepped [OF _ locks [of t1 0]] rechecks]) (simp_all add: d)
  then have "frame_run ?F ?E True t3"
    using frame_run.stepped [OF _ enters [of t2 1]] by (simp add: d)
  then have run: "frame_run ?F ?E True t4"
    unfolding t4_def by (intro frame_run.ended frame_run.stepped [OF _ locks [of t3 1]]) (simp_all add: d)
  have "ctx_ended (callers t4 1)" "at_pc (callers t4 0) = Writing" "at_pc (callers t4 1) = Selecting" by (simp_all add: d)
  with ended_call_returns [OF run] run show ?thesis by blast
qed

end
