(* ===== verification/Plant.thy ===== *)
theory Plant
  imports Snapshot_Paths "HOL-Library.Multiset"
begin

text \<open>
  \<open>plant/plant.go\<close>: what is to be laid down in a boot directory, and what is reported of it. The
  artifact tree and its normalization, the provider registry, the go-providers layout and the
  materialization engine are third-party and parameters here: \<open>'e\<close> is an artifact entry,
  \<open>'p\<close> a tree's provenance, \<open>'x\<close> what is forwarded to the engine unread. A Go map is the list of its
  pairs in the order \<open>range\<close> happens to visit them.
\<close>

subsection \<open>What to plant\<close>

record hook =
  Provider :: string
  hook_Name :: string
  Payload :: string

record ('e, 'p, 'x) plant_spec =
  tree_entries :: "'e list"
  tree_provenance :: 'p
  spec_Operation :: string
  forwarded :: 'x
  Files :: "(string \<times> string) list"
  MCPConfig :: "string option"
  ProviderSettings :: "(string \<times> string) list"
  Hooks :: "hook list"
  RecoveryPrompt :: string

record legacy_file =
  lf_Path :: string
  lf_Mode :: nat
  lf_Bytes :: string
  EntryID :: string
  GroupID :: string
  lf_Source :: string

text \<open>An entry of the caller's tree, or one made from the legacy fields, with octal modes spelled out.\<close>

datatype 'e plant_entry = Given 'e | Legacy legacy_file

datatype plant_error =
    UnknownRuntime string | NoNativeConfig string string | HookIncomplete | NotNormal string | EngineFailed string

text \<open>\<open>reconcile\<close> is the engine's name of that operation.\<close>

definition effectiveOperation :: "string \<Rightarrow> ('e, 'p, 'x) plant_spec \<Rightarrow> string" where
  "effectiveOperation reconcile s = (if spec_Operation s \<noteq> [] then spec_Operation s else reconcile)"

definition legacyFileEntry :: "string \<Rightarrow> string \<Rightarrow> nat \<Rightarrow> string \<Rightarrow> 'e plant_entry" where
  "legacyFileEntry rel content mode entryID =
     Legacy \<lparr>lf_Path = rel, lf_Mode = mode, lf_Bytes = content, EntryID = ''wrapper:legacy:'' @ entryID,
       GroupID = ''wrapper:legacy'', lf_Source = ''go-agent-wrapper.plant.Spec''\<rparr>"

text \<open>\<open>find_runtime\<close> is \<open>registry.Lookup\<close>, from an id or alias to the id; \<open>native_config\<close> the path of
  the runtime's native-config row in the layout.\<close>

definition providerSettingsPath ::
  "(string \<Rightarrow> string option) \<Rightarrow> (string \<Rightarrow> string option) \<Rightarrow> string \<Rightarrow> plant_error + string" where
  "providerSettingsPath find_runtime native_config provider =
     (case find_runtime provider of
        None \<Rightarrow> Inl (UnknownRuntime provider)
      | Some i \<Rightarrow> (case native_config i of None \<Rightarrow> Inl (NoNativeConfig provider i) | Some rel \<Rightarrow> Inr rel))"

definition hookPath :: "hook \<Rightarrow> plant_error + string" where
  "hookPath h =
     (let provider = Trim_char (CHR ''/'') (ToLower (Provider h)); name = Trim_char (CHR ''/'') (hook_Name h)
      in if provider = [] \<or> name = [] then Inl HookIncomplete
         else Inr (Clean (''hooks/'' @ provider @ ''/'' @ name)))"

fun collect :: "('a \<Rightarrow> 'r + 'b) \<Rightarrow> 'a list \<Rightarrow> 'r + 'b list" where
  "collect f [] = Inr []"
| "collect f (a # as) =
     (case f a of
        Inl e \<Rightarrow> Inl e
      | Inr b \<Rightarrow> (case collect f as of Inl e \<Rightarrow> Inl e | Inr bs \<Rightarrow> Inr (b # bs)))"

definition settings_entry ::
  "(string \<Rightarrow> string option) \<Rightarrow> (string \<Rightarrow> string option) \<Rightarrow> string \<times> string \<Rightarrow> plant_error + 'e plant_entry" where
  "settings_entry find_runtime native_config s =
     (case providerSettingsPath find_runtime native_config (fst s) of
        Inl e \<Rightarrow> Inl e
      | Inr rel \<Rightarrow> Inr (legacyFileEntry rel (snd s) (6 * 64) (''provider-settings:'' @ fst s)))"

definition hook_entry :: "hook \<Rightarrow> plant_error + 'e plant_entry" where
  "hook_entry h =
     (case hookPath h of
        Inl e \<Rightarrow> Inl e
      | Inr rel \<Rightarrow> Inr (legacyFileEntry rel (Payload h) (7 * 64) (''hook:'' @ Provider h @ '':'' @ hook_Name h)))"

definition spec_entries ::
  "(string \<Rightarrow> string option) \<Rightarrow> (string \<Rightarrow> string option) \<Rightarrow> ('e, 'p, 'x) plant_spec \<Rightarrow> plant_error + 'e plant_entry list" where
  "spec_entries find_runtime native_config s =
     (case collect (settings_entry find_runtime native_config) (ProviderSettings s) of
        Inl e \<Rightarrow> Inl e
      | Inr settings \<Rightarrow>
          (case collect hook_entry (Hooks s) of
             Inl e \<Rightarrow> Inl e
           | Inr hooks \<Rightarrow> Inr (map Given (tree_entries s) @
               map (\<lambda>(rel, c). legacyFileEntry rel c (6 * 64 + 4 * 8 + 4) (''file:'' @ rel)) (Files s) @
               (case MCPConfig s of None \<Rightarrow> [] | Some c \<Rightarrow> [legacyFileEntry ''.mcp.json'' c (6 * 64) ''mcp'']) @
               settings @ hooks @
               (if RecoveryPrompt s \<noteq> [] then [legacyFileEntry ''recovery.md'' (RecoveryPrompt s) (6 * 64) ''recovery''] else []))))"

text \<open>The entries of the tree and its provenance, none of an empty tree.\<close>

definition specArtifactTree where
  "specArtifactTree find_runtime native_config Normalize s =
     (case spec_entries find_runtime native_config s of
        Inl e \<Rightarrow> Inl e
      | Inr es \<Rightarrow>
          if es = [] then Inr ([], None)
          else (case Normalize es of Inl e \<Rightarrow> Inl (NotNormal e) | Inr ns \<Rightarrow> Inr (ns, Some (tree_provenance s))))"

subsection \<open>What was planted\<close>

datatype engine_change = Unchanged | Conflict | OtherChange string

record engine_handle =
  rep_Operation :: string
  rep_Complete :: bool
  manifest :: "string list"
  changes :: "(string \<times> engine_change) list"

record plant_result =
  PlantedFiles :: "string list"
  PlannedFiles :: "string list"
  WrittenFiles :: "string list"
  UnchangedFiles :: "string list"
  ConflictFiles :: "string list"
  res_Operation :: string
  res_Complete :: bool
  Handle :: "engine_handle option"

definition no_plant :: plant_result where
  "no_plant = \<lparr>PlantedFiles = [], PlannedFiles = [], WrittenFiles = [], UnchangedFiles = [], ConflictFiles = [],
     res_Operation = [], res_Complete = False, Handle = None\<rparr>"

definition paths_of :: "string \<Rightarrow> (engine_change \<Rightarrow> bool) \<Rightarrow> (string \<times> engine_change) list \<Rightarrow> string list" where
  "paths_of bootDir P cs = sort (map (JoinUnder bootDir \<circ> fst) (filter (P \<circ> snd) cs))"

definition resultFromHandle :: "string \<Rightarrow> engine_handle option \<Rightarrow> plant_result" where
  "resultFromHandle bootDir h =
     (case h of
        None \<Rightarrow> no_plant
      | Some k \<Rightarrow>
          (let written = paths_of bootDir (\<lambda>c. c \<noteq> Unchanged \<and> c \<noteq> Conflict) (changes k)
           in \<lparr>PlantedFiles = written, PlannedFiles = sort (map (JoinUnder bootDir) (manifest k)), WrittenFiles = written,
                UnchangedFiles = paths_of bootDir (\<lambda>c. c = Unchanged) (changes k),
                ConflictFiles = paths_of bootDir (\<lambda>c. c = Conflict) (changes k),
                res_Operation = rep_Operation k, res_Complete = rep_Complete k, Handle = h\<rparr>))"

text \<open>\<open>Plant\<close>: the result and the error. The engine is asked with the tree and the operation.\<close>

definition SharedPlanter_Plant where
  "SharedPlanter_Plant reconcile find_runtime native_config Normalize engine bootDir s =
     (case specArtifactTree find_runtime native_config Normalize s of
        Inl e \<Rightarrow> (no_plant, Some e)
      | Inr (es, prov) \<Rightarrow>
          if es = [] then (no_plant\<lparr>res_Operation := effectiveOperation reconcile s, res_Complete := True\<rparr>, None)
          else
            (let (handle, err) = engine bootDir es prov (effectiveOperation reconcile s) (forwarded s)
             in (resultFromHandle bootDir handle, map_option EngineFailed err)))"

definition NoOpPlanter_Plant :: "string \<Rightarrow> ('e, 'p, 'x) plant_spec \<Rightarrow> plant_result \<times> plant_error option" where
  "NoOpPlanter_Plant bootDir s = (no_plant, None)"

subsection \<open>Every change is reported once\<close>

lemma mset_paths_of: "mset (paths_of b P cs) = image_mset (JoinUnder b \<circ> fst) {#c \<in># mset cs. P (snd c)#}"
  by (simp add: paths_of_def comp_def flip: mset_filter)

theorem plant_reports_changes:
  "sorted (WrittenFiles (resultFromHandle b (Some h))) \<and> sorted (UnchangedFiles (resultFromHandle b (Some h))) \<and>
   sorted (ConflictFiles (resultFromHandle b (Some h))) \<and>
   PlantedFiles (resultFromHandle b (Some h)) = WrittenFiles (resultFromHandle b (Some h)) \<and>
   mset (WrittenFiles (resultFromHandle b (Some h))) + mset (UnchangedFiles (resultFromHandle b (Some h))) +
     mset (ConflictFiles (resultFromHandle b (Some h))) = image_mset (JoinUnder b \<circ> fst) (mset (changes h))"
proof -
  have "mset (paths_of b (\<lambda>c. c \<noteq> Unchanged \<and> c \<noteq> Conflict) cs) + mset (paths_of b (\<lambda>c. c = Unchanged) cs) +
      mset (paths_of b (\<lambda>c. c = Conflict) cs) = image_mset (JoinUnder b \<circ> fst) (mset cs)" for cs
    unfolding mset_paths_of by (induction cs) auto
  then show ?thesis by (simp add: resultFromHandle_def Let_def paths_of_def)
qed

subsection \<open>The order of the maps does not matter\<close>

lemma collect_fails: "(\<exists>e. collect f as = Inl e) \<longleftrightarrow> (\<exists>a \<in> set as. \<exists>e. f a = Inl e)"
  by (induction as) (auto split: sum.splits)

lemma collect_Inr: "collect f as = Inr bs \<Longrightarrow> mset bs = image_mset (\<lambda>a. projr (f a)) (mset as)"
  by (induction as arbitrary: bs) (auto split: sum.splits)

lemma collect_perm:
  assumes "mset as = mset as'"
  shows "(case collect f as of Inl _ \<Rightarrow> \<exists>e. collect f as' = Inl e | Inr bs \<Rightarrow> \<exists>bs'. collect f as' = Inr bs' \<and> mset bs' = mset bs)"
proof (cases "collect f as")
  case (Inl e)
  then show ?thesis using collect_fails [of f as] collect_fails [of f as'] mset_eq_setD [OF assms] by auto
next
  case (Inr bs)
  then obtain bs' where "collect f as' = Inr bs'"
    using collect_fails [of f as] collect_fails [of f as'] mset_eq_setD [OF assms] by (cases "collect f as'") auto
  then show ?thesis using Inr collect_Inr [of f as bs] collect_Inr [of f as' bs'] assms by simp
qed

text \<open>The order in which Go ranges over \<open>Files\<close> and \<open>ProviderSettings\<close> decides at most which of
  several errors is told, where the normalization sorts: it gives the same for the same entries.\<close>

theorem planting_order_free:
  fixes s :: "('e, 'p, 'x) plant_spec"
  assumes perm: "mset (Files s) = mset fs" "mset (ProviderSettings s) = mset ps"
    and normal: "\<And>es es'. mset es = mset es' \<Longrightarrow> Normalize es = Normalize es'"
  shows "(case specArtifactTree find_runtime native_config Normalize s of
      Inl _ \<Rightarrow> \<exists>e. specArtifactTree find_runtime native_config Normalize (s\<lparr>Files := fs, ProviderSettings := ps\<rparr>) = Inl e
    | Inr t \<Rightarrow> specArtifactTree find_runtime native_config Normalize (s\<lparr>Files := fs, ProviderSettings := ps\<rparr>) = Inr t)"
proof -
  let ?s = "s\<lparr>Files := fs, ProviderSettings := ps\<rparr>"
  note c = collect_perm [OF perm(2), of "settings_entry find_runtime native_config :: _ \<Rightarrow> _ + 'e plant_entry"]
  have files: "mset (map g (Files s)) = mset (map g fs)" for g :: "string \<times> string \<Rightarrow> 'e plant_entry"
    using perm(1) by (simp only: mset_map)
  show ?thesis
  proof (cases "spec_entries find_runtime native_config s")
    case (Inl e)
    then obtain e' where "spec_entries find_runtime native_config ?s = Inl e'"
      using c by (auto simp: spec_entries_def split: sum.splits)
    then show ?thesis using Inl by (simp add: specArtifactTree_def)
  next
    case (Inr es)
    then obtain es' where es': "spec_entries find_runtime native_config ?s = Inr es'" "mset es' = mset es"
      using c files by (auto simp: spec_entries_def split: sum.splits)
    then have "es' = [] \<longleftrightarrow> es = []" by (metis mset_zero_iff)
    then show ?thesis using Inr es' normal [OF es'(2)]
      by (cases "es = []") (auto simp: specArtifactTree_def split: sum.splits)
  qed
qed

subsection \<open>Hooks\<close>

text \<open>A hook's file is meant to be \<open>hooks/\<close>, the provider and the name; a provider of dots climbs out.\<close>

lemma hook_climbs: "hookPath \<lparr>Provider = ''..'', hook_Name = ''.mcp.json'', Payload = p\<rparr> = Inr ''.mcp.json''"
proof -
  have "Trim_char (CHR ''/'') (ToLower ''..'') = ''..''" "Trim_char (CHR ''/'') ''.mcp.json'' = ''.mcp.json''"
    "Clean (''hooks/'' @ ''..'' @ ''/'' @ ''.mcp.json'') = ''.mcp.json''"
    by code_simp+
  then show ?thesis by (simp add: hookPath_def)
qed

end
