(* ===== verification/Harness_Filters.thy ===== *)
theory Harness_Filters
  imports Wrapper_Events
begin

text \<open>
  The pipelines and the observer the repository ships for the wrapper's hooks:
  \<open>filters/filters.go\<close>, \<open>filters/repair_pipeline.go\<close> and \<open>classifybridge/engine.go\<close>. The repairers
  and the classifier of go-harness-filters are parameters. The locale states what the wrapper may
  rely on of a pipeline, and is interpreted on both of them.
\<close>

subsection \<open>Pipelines\<close>

record pipeline_input =
  in_Kind :: string
  in_Content :: string
  in_Metadata :: "(string \<times> string) list"

record pipeline_output =
  Repaired :: "string option"
  Tags :: "(string \<times> string) list"
  Notes :: "string list"

type_synonym filter_fun = "pipeline_input \<Rightarrow> pipeline_output"

definition no_output :: pipeline_output where
  "no_output = \<lparr>Repaired = None, Tags = [], Notes = []\<rparr>"

definition Passthrough :: filter_fun where
  "Passthrough i = no_output"

text \<open>What a repairer of go-harness-filters answers.\<close>

record repair_verdict =
  was_repaired :: bool
  SemanticChange :: bool
  Replacement :: "string option"
  repair_rule :: string
  repair_reason :: string

definition repairKind :: "string \<Rightarrow> string" where
  "repairKind kind =
     (if kind \<in> {''envelope'', ''tool_output'', ''command_output'', ''command_output_line''} then ''envelope'' else kind)"

definition RepairPipeline :: "(pipeline_input \<Rightarrow> repair_verdict) option \<Rightarrow> filter_fun" where
  "RepairPipeline repairer i =
     (case repairer of
        None \<Rightarrow> no_output
      | Some repair \<Rightarrow>
          (let out = repair (i\<lparr>in_Kind := repairKind (in_Kind i)\<rparr>) in
           if \<not> was_repaired out then no_output
           else if SemanticChange out then no_output\<lparr>Notes := [repair_reason out]\<rparr>
           else \<lparr>Repaired = Replacement out, Tags = [(''repair.rule_id'', repair_rule out)], Notes = [repair_reason out]\<rparr>))"

text \<open>The pipeline as the wrapper uses it.\<close>

definition as_hook :: "filter_fun \<Rightarrow> string \<Rightarrow> string \<Rightarrow> (string \<times> string) list \<Rightarrow> string option" where
  "as_hook p kind content meta = Repaired (p \<lparr>in_Kind = kind, in_Content = content, in_Metadata = meta\<rparr>)"

subsection \<open>What a pipeline promises\<close>

text \<open>\<open>sound i r\<close>: content \<open>r\<close> may stand for the input.\<close>

locale filter_pipeline =
  fixes process :: filter_fun and sound :: "pipeline_input \<Rightarrow> string \<Rightarrow> bool"
  assumes repairs_sound: "Repaired (process i) = Some r \<Longrightarrow> sound i r"
begin

lemma untouched:
  assumes "\<And>i r. \<not> sound i r"
  shows "as_hook process kind content meta = None"
  using repairs_sound assms by (cases "as_hook process kind content meta") (auto simp: as_hook_def)

lemma stream_untouched:
  assumes "\<And>i r. \<not> sound i r" and "Filters h = Some (as_hook process)"
  shows "filterStreamEvent h ev = ev \<and> filterPayload h kind payload = payload"
  using assms(2) untouched [OF assms(1)]
  by (auto simp: filterStreamEvent_def filterPayload_def filterToolResultPayload_def split: option.split payload.split pvalue.split)

end

text \<open>A replacement a repairer offers without calling it a change of meaning.\<close>

definition harmless :: "(pipeline_input \<Rightarrow> repair_verdict) \<Rightarrow> pipeline_input \<Rightarrow> string \<Rightarrow> bool" where
  "harmless repair i r \<longleftrightarrow>
     (let out = repair (i\<lparr>in_Kind := repairKind (in_Kind i)\<rparr>)
      in was_repaired out \<and> \<not> SemanticChange out \<and> Replacement out = Some r)"

interpretation pass: filter_pipeline Passthrough "\<lambda>_ _. False"
  by unfold_locales (simp_all add: Passthrough_def no_output_def)

interpretation repairs: filter_pipeline "RepairPipeline (Some repair)" "harmless repair" for repair
  by unfold_locales (auto simp: RepairPipeline_def harmless_def no_output_def Let_def split: if_splits)

text \<open>A repairer that only ever offers changes of meaning leaves every event of the wrapper as it is.\<close>

theorem meaning_is_kept:
  assumes "Filters h = Some (as_hook (RepairPipeline (Some repair)))"
    and "\<And>i. was_repaired (repair i) \<Longrightarrow> SemanticChange (repair i)"
  shows "filterStreamEvent h ev = ev \<and> filterPayload h kind payload = payload"
proof -
  have "\<not> harmless repair i r" for i r using assms(2) by (auto simp: harmless_def Let_def)
  then show ?thesis using assms(1) by (rule repairs.stream_untouched)
qed

subsection \<open>The classifier as an observer\<close>

record classify_match =
  Reversible :: bool
  match_rule :: string
  Recommended :: "string list"

text \<open>A classifier reads kind, content and the identity of the session; the rest of the metadata is fixed.\<close>

record classify_observer =
  Classifier :: "(observation \<Rightarrow> classify_match option) option"
  NonReversibleRecommendation :: recommendation
  ReversibleRecommendation :: recommendation

definition recommendationFor :: "classify_observer \<Rightarrow> bool \<Rightarrow> recommendation" where
  "recommendationFor obs reversible =
     (if reversible
      then (if ReversibleRecommendation obs \<noteq> RecommendationOther [] then ReversibleRecommendation obs else RecommendationRewrite)
      else (if NonReversibleRecommendation obs \<noteq> RecommendationOther [] then NonReversibleRecommendation obs else RecommendationNudge))"

definition formatMessage :: "classify_match \<Rightarrow> string" where
  "formatMessage m =
     (if Recommended m = [] then [] else ''Recommended:'' @ [CHR 0x0A] @ Join (Recommended m) [CHR 0x0A])"

definition formatSuggestedReplacement :: "classify_match \<Rightarrow> recommendation \<Rightarrow> string" where
  "formatSuggestedReplacement m r =
     (if r \<noteq> RecommendationRewrite \<or> Recommended m = [] then [] else hd (Recommended m))"

definition no_finding :: finding where
  "no_finding = \<lparr>Recommendation = RecommendationNone, RuleID = [], SuggestedReplacement = [], Message = []\<rparr>"

definition classify_Observe :: "classify_observer \<Rightarrow> observation \<Rightarrow> finding" where
  "classify_Observe obs i =
     (case Classifier obs of
        None \<Rightarrow> no_finding
      | Some classify \<Rightarrow>
          (case classify i of
             None \<Rightarrow> no_finding
           | Some m \<Rightarrow>
               (let r = recommendationFor obs (Reversible m)
                in \<lparr>Recommendation = r, RuleID = match_rule m,
                    SuggestedReplacement = formatSuggestedReplacement m r, Message = formatMessage m\<rparr>)))"

text \<open>
  What the wrapper tells of a tool call it observes with such an observer of default settings:
  nothing without a match; else the rule, as a rewrite with the first recommended command where
  the match is reversible and as a nudge without one where it is not.
\<close>

lemma classified_tool_use:
  assumes "Classifier obs = Some classify" and "NonReversibleRecommendation obs = RecommendationOther []"
    and "ReversibleRecommendation obs = RecommendationOther []"
    and "i = \<lparr>obs_Kind = ''tool_use'', Original = original, obs_Turn = turn\<rparr>"
  shows "observeSerializedToolUsePolicy (\<lambda>i. Some (classify_Observe obs i)) original turn =
    (case classify i of
       None \<Rightarrow> None
     | Some m \<Rightarrow>
         Some (if Reversible m then KindPolicyRewrite else KindPolicyNudge,
           PMap ([(''rule_id'', VStr (match_rule m)), (''mode'', VStr (if Reversible m then ''rewrite'' else ''nudge'')),
                  (''original'', VStr original)] @
             (if Recommended m = [] then [] else [(''message'', VStr (formatMessage m))]) @
             (if Reversible m \<and> Recommended m \<noteq> [] \<and> hd (Recommended m) \<noteq> []
              then [(''replacement'', VStr (hd (Recommended m)))] else []))))"
  using assms
  by (auto simp: observeSerializedToolUsePolicy_def classify_Observe_def no_finding_def recommendationFor_def
      formatSuggestedReplacement_def formatMessage_def Let_def split: option.split)

end
