(* ===== verification/Spec2Isabelle.thy ===== *)
theory Spec2Isabelle
  imports Turn_Outcome Manager Permission_Properties Environment Wrapper_Delivery Wrapper_Turn_Properties
    Transport Stream_Lines Sandbox Launch Bridge_Properties Acp_Update_Properties Acp_Adapters Wrapper_Start
    Wrapper_Acp_Properties Copilot_Properties Snapshot_Harms Snapshot_Cleanup
    Write_Frame_Properties Plant Harness_Filters
begin

text \<open>
  \<^bold>\<open>The program.\<close> go-agent-wrapper launches coding agents as subprocesses, observes what they do
  and controls their turns. \<open>launch\<close> selects an adapter for a runtime and a mode;
  \<open>wrapper\<close> runs it and emits runtime events; ACP agents are driven through \<open>acp\<close> (managed
  sessions, permission requests, transports); \<open>turnoutput\<close> reads the runtime events and
  reports one record per completed turn; \<open>adapters\<close> says what each runtime can deliver;
  \<open>snapshot\<close> keeps captures of a workspace in a git of its own and restores files from them.

  \<^bold>\<open>Theories.\<close> Each models the files it names, one definition per operation or critical
  section, with the name of the Go function where Isabelle allows it.
  \<^item> \<open>Prelude\<close>: the collections \<open>frame_simps\<close> and their like, lists that keep their newest entries,
    bounded logs, runs of a machine. \<open>Go_Strings\<close>, \<open>Json\<close>: what the code uses of \<open>strings\<close>,
    \<open>utf8\<close> and \<open>encoding/json\<close>. A document is its syntax tree with the source text of every
    value; parsing bytes into trees is outside.
  \<^item> \<open>turnoutput/\<close>: \<open>Turn_Output\<close> (data, bounds), \<open>Turn_Buffer\<close> (text blocks of a turn in a store,
    because the code shares them by pointer), \<open>Turn_Signals\<close> (tool calls, questions, approvals),
    \<open>Reducer\<close> (turns in progress and finished), \<open>Runtime_Events\<close> and \<open>Feed\<close> (the three feeds).
    \<open>Turn_Properties\<close> (memory, each turn reported once, late events) and \<open>Turn_Outcome\<close>
    (kind and text of the record) rest on the well-formedness of the buffer and on
    locales that carry an invariant from the operations to a whole run.
  \<^item> \<open>acp/lifecycle.go\<close>: \<open>Lifecycle\<close> has the sections of a session's methods, \<open>Lifecycle_Steps\<close> their
    interleaving (host calls, drain loop, launch, finish, diagnostics) as a step relation,
    \<open>Lifecycle_Properties\<close> what holds of its reachable states, \<open>Manager\<close> the registry;
    its refinement theorem relates the registry to the phase of each session's finish.
  \<^item> \<open>acp/permission.go\<close>: \<open>Permission_Request\<close> (requests and their validation), \<open>Permission\<close>
    (the coordinator's sections), \<open>Permission_Steps\<close> (concurrent requests, callbacks that outlive
    their request, turn changes) and \<open>Permission_Properties\<close>.
  \<^item> \<open>acp/transport.go\<close>, \<open>acp/sandbox.go\<close>: \<open>Transport\<close> and \<open>Sandbox\<close>. \<open>acp/writeframe.go\<close>:
    \<open>Write_Frame\<close> (callers, the lock, interrupted writes) and \<open>Write_Frame_Properties\<close> (frames stay
    whole, callers leave on their own context).
  \<^item> \<open>acp/ndjsonclient.go\<close> with \<open>acp/client.go\<close> and \<open>acp/mcp_servers.go\<close>: \<open>Go_Numbers\<close> (numbers of JSON
    and \<open>strconv\<close>), \<open>Acp_Protocol\<close> (frames, initialize, MCP servers), \<open>Bridge_Handshake\<close> (the calls
    \<open>Launch\<close> makes, answered by any agent), \<open>Bridge_Client\<close> (the sections of the client's methods and
    goroutines) and \<open>Bridge_Steps\<close>, their interleaving with the permission coordinator and with
    \<open>Transport\<close>. \<open>Bridge_Invariants\<close>, \<open>Bridge_Turns\<close>, \<open>Bridge_Barrier\<close> and \<open>Bridge_Calls\<close> hold the
    invariants (calls, turns and their events, the barrier at a turn's end, the table of calls),
    \<open>Bridge_Stuck\<close> a run in which a failed write leaves two goroutines waiting for each other
    (the response gate and \<open>EndTurn\<close>), \<open>Bridge_Answers\<close> that a permission request has its events told and
    its answer written before its turn ends, \<open>Bridge_Properties\<close> the properties.
  \<^item> \<open>adapters/copilotacp/client.go\<close>: \<open>Copilot_Client\<close> (state, sections, handshake) and \<open>Copilot_Steps\<close>
    (interleaving), which use the frames, the handshake parts and the coordinators of the bridge
    client. \<open>Copilot_Turns\<close> and \<open>Copilot_Barrier\<close> hold the invariants, \<open>Copilot_Lost\<close> the states it
    cannot leave (a turn nobody answers, a connection nobody closes), \<open>Copilot_Properties\<close> the properties.
  \<^item> \<open>adapters/\<close>: \<open>Acp_Updates\<close> (what the five ACP adapters emit for a notification) and
    \<open>Acp_Update_Properties\<close>, which reads the payloads back with the reducer's feed; the locale there
    is interpreted on each adapter. \<open>Acp_Adapters\<close>: options, commands, descriptors, environment.
  \<^item> \<open>adapters/delivery.go\<close> and \<open>wrapper/delivery.go\<close>: \<open>Delivery\<close> and \<open>Wrapper_Delivery\<close>,
    which asks the session of \<open>Lifecycle\<close> whether it would take a prompt.
  \<^item> \<open>wrapper/\<close>: \<open>Environment\<close> (the child's environment), \<open>Wrapper_Events\<close> (translation,
    filters, usage, policy findings), \<open>Wrapper_Turns\<close> and \<open>Wrapper_Turn_Properties\<close> (the closures of
    \<open>Run\<close> that frame turns, the typed queue, \<open>CancelTurn\<close>; the section under \<open>turnMu\<close> is cut at each of
    its calls to the marks, which have a mutex of their own), \<open>Stream_Lines\<close>,
    \<open>Dispatch\<close> (protocol and transport to capabilities and channels, posture), \<open>Wrapper_Start\<close>
    (\<open>New\<close>, prepared executions, \<open>Run\<close> up to the start of the session), \<open>Wrapper_Acp\<close> and
    \<open>Wrapper_Acp_Properties\<close> (the rest of \<open>Run\<close> for an ACP session with its automatic first prompt, beside
    the session of \<open>Lifecycle\<close>).
  \<^item> \<open>launch/\<close>: \<open>Launch\<close> (\<open>Select\<close>, the native table), which uses \<open>Dispatch\<close> and \<open>Delivery\<close>.
  \<^item> \<open>snapshot/\<close>: \<open>Snapshot_Paths\<close> (paths, refs, parsers, environment), \<open>Snapshot_Store\<close> (the
    operations of \<open>ShadowGit\<close> on a disk, with any git), \<open>Snapshot_Jobs\<close> (which runs of git an
    operation makes), \<open>Snapshot_Properties\<close> (a restore does what its preview says),
    \<open>Snapshot_Harms\<close> (what it does after a failed capture and through links), \<open>Snapshot_Cleanup\<close>
    (isolation, retention, what a capture reports). \<open>plant/\<close>: \<open>Plant\<close> (entries, paths, results).
  \<^item> \<open>filters/\<close>, \<open>classifybridge/\<close>: \<open>Harness_Filters\<close>, the pipelines and the observer shipped for the
    hooks of \<open>Wrapper_Events\<close>; what a pipeline promises is a locale.

  \<^bold>\<open>State and concurrency.\<close> A struct is a record; a mutex-protected section, or a step between two
  blocking points, is one atomic function of the record; goroutines are program counters in it.
  The step relations interleave them freely, so timers, scheduling and the answers of
  hosts and agents are nondeterministic. Channels are lists with a closed flag.

  \<^bold>\<open>Bounds.\<close> The constants are the code's: 64 open turns, 64 finished ids, 128 blocks, 4 MiB and
  1 MiB of text, 256 tool calls, 64 signals, 64 pending requests, 64 permission requests, 64 buffered events of a
  bridge client, 128 of a session.
  Counters that cannot reach their width are \<open>nat\<close> or \<open>int\<close>; offsets and usage counters are
  64-bit words. No definition needs fuel: loops are structural or have a measure.

  \<^bold>\<open>Parameters.\<close> What is not in the repository is an argument: the go-providers registry and adapters,
  the sandbox library, the artifact and materialization engine, git and the faults of the disk, agentkit's session, filters, policy observers, permission responders,
  id generators, floating-point addition, and the two regular expressions of the diagnostic redaction.

  \<^bold>\<open>Not modelled.\<close> Clocks, process creation,
  pipes, sockets and (but for \<open>snapshot\<close>) files are effects of the operating system; they appear only as the
  answers they can give: a write may fail, a process may exit, a context may end at any step.
  Where the code leaves and takes a lock again with nothing in between that another
  goroutine could see, the two sections are one step. The kill of a process in a close is an effect of
  the operating system; \<open>close_transport\<close> of the bridge client closes what is open and has no
  \<open>Once\<close> (a client closed before its \<open>Launch\<close> is \<open>Copilot_Client\<close>'s case); the commands of
  \<open>Acp_Adapters\<close> are those of launches without a \<open>LaunchParams.Command\<close>; an error that wraps a sentinel is the
  sentinel, without the text around it. The contents of events are modelled where
  another part reads them. The packages \<open>activity\<close> and \<open>sandbox\<close>
  forward to libraries; \<open>internal/\<close> is timers and pipes; examples and test programs are left out.
\<close>

end
